(* ===== verification/Prelude.thy ===== *)
theory Prelude
  imports Complex_Main "HOL-Library.Word" "HOL-Library.List_Lexorder" "HOL-Library.Char_ord"
    "HOL-Library.Multiset" "HOL-Library.Product_Lexorder"
begin

text \<open>
  Shared material of the development: names for the machine integer types, the named collections
  the component proofs draw on, and models of the C++ standard algorithms the planner calls
  (\<open>std::sort\<close>, \<open>std::unique\<close>, \<open>std::adjacent_find\<close>, \<open>std::lower_bound\<close>,
  \<open>std::binary_search\<close>, \<open>std::string::find\<close>), with the laws the components use.

  A lookup table of the runtime is a vector sorted by a key on which \<open>std::lower_bound\<close> is
  called.  The locale \<open>keyed_table\<close> states that contract once; each table of the sealed
  snapshot is an interpretation of it.
\<close>

unbundle bit_operations_syntax

type_synonym u8 = "8 word"
type_synonym u16 = "16 word"
type_synonym u32 = "32 word"
type_synonym u64 = "64 word"

named_theorems mask_simps \<open>slot masks read as sets of slots\<close>
named_theorems codec_simps \<open>readers applied to what the writers produced\<close>
named_theorems status_simps \<open>status values and their chaining\<close>

section \<open>std::sort, std::unique, std::adjacent_find\<close>

text \<open>
  \<open>std::sort\<close> with a strict comparator.  The standard leaves the order of equivalent elements
  open; the model inserts an element after its equivalents.  Nothing proved below depends on that
  choice beyond sortedness and the permutation property.
\<close>

fun sort_insert :: "('a \<Rightarrow> 'a \<Rightarrow> bool) \<Rightarrow> 'a \<Rightarrow> 'a list \<Rightarrow> 'a list" where
  "sort_insert lt x [] = [x]"
| "sort_insert lt x (y # ys) = (if lt x y then x # y # ys else y # sort_insert lt x ys)"

definition std_sort :: "('a \<Rightarrow> 'a \<Rightarrow> bool) \<Rightarrow> 'a list \<Rightarrow> 'a list" where
  "std_sort lt xs = fold (sort_insert lt) xs []"

text \<open>\<open>std::unique\<close> followed by \<open>erase\<close>: of each run of equal neighbours the first stays.\<close>

fun std_unique :: "'a list \<Rightarrow> 'a list" where
  "std_unique (x # y # xs) = (if x = y then std_unique (x # xs) else x # std_unique (y # xs))"
| "std_unique xs = xs"

fun adjacent_equal :: "'a list \<Rightarrow> bool" where
  "adjacent_equal (x # y # xs) = (x = y \<or> adjacent_equal (y # xs))"
| "adjacent_equal xs = False"

abbreviation sort_unique :: "'a::linorder list \<Rightarrow> 'a list" where
  "sort_unique xs \<equiv> std_unique (std_sort (<) xs)"

lemma mset_sort_insert [simp]: "mset (sort_insert lt x xs) = add_mset x (mset xs)"
  by (induction xs) auto

lemma mset_fold_sort_insert: "mset (fold (sort_insert lt) xs acc) = mset xs + mset acc"
  by (induction xs arbitrary: acc) auto

lemma mset_std_sort [simp]: "mset (std_sort lt xs) = mset xs"
  by (simp add: std_sort_def mset_fold_sort_insert)

lemma set_std_sort [simp]: "set (std_sort lt xs) = set xs"
  by (metis mset_std_sort set_mset_mset)

lemma length_std_sort [simp]: "length (std_sort lt xs) = length xs"
  by (metis mset_std_sort size_mset)

lemma distinct_std_sort [simp]: "distinct (std_sort lt xs) = distinct xs"
  by (metis mset_std_sort mset_eq_imp_distinct_iff)

lemma sort_insert_sorted_key:
  assumes "sorted (map f xs)"
  shows "sorted (map f (sort_insert (\<lambda>a b. f a < (f b :: 'k::linorder)) x xs))"
  using assms by (induction xs) (auto simp flip: set_mset_mset)

lemma sorted_key_std_sort:
  "sorted (map f (std_sort (\<lambda>a b. f a < (f b :: 'k::linorder)) xs))"
proof -
  have "sorted (map f acc) \<Longrightarrow> sorted (map f (fold (sort_insert (\<lambda>a b. f a < f b)) xs acc))" for acc
    by (induction xs arbitrary: acc) (auto simp: sort_insert_sorted_key)
  then show ?thesis by (simp add: std_sort_def)
qed

lemma sorted_std_sort [simp]: "sorted (std_sort (<) (xs :: 'a::linorder list))"
  using sorted_key_std_sort [of "\<lambda>x. x" xs] by simp

lemma set_std_unique [simp]: "set (std_unique xs) = set xs"
  by (induction xs rule: std_unique.induct) auto

lemma std_unique_Cons_hd: "\<exists>ys. std_unique (x # xs) = x # ys"
  by (induction "x # xs" arbitrary: x xs rule: std_unique.induct) auto

lemma strict_sorted_std_unique:
  "sorted (xs :: 'a::linorder list) \<Longrightarrow> sorted (std_unique xs) \<and> distinct (std_unique xs)"
proof (induction xs rule: std_unique.induct)
  case (1 x y xs)
  then show ?case by auto
qed auto

lemma sorted_sort_unique [simp]: "sorted (sort_unique (xs :: 'a::linorder list))"
  and distinct_sort_unique [simp]: "distinct (sort_unique (xs :: 'a::linorder list))"
  using strict_sorted_std_unique [OF sorted_std_sort] by auto

lemma adjacent_equal_distinct:
  "sorted (xs :: 'a::linorder list) \<Longrightarrow> \<not> adjacent_equal xs \<longleftrightarrow> distinct xs"
  by (induction xs rule: adjacent_equal.induct) auto

lemma length_std_unique: "length (std_unique xs) \<le> length xs"
  by (induction xs rule: std_unique.induct) auto

section \<open>std::lower_bound and std::binary_search\<close>

text \<open>The partition point of a sorted range: the first position whose key is not below \<open>v\<close>.\<close>

definition lower_bound :: "('r \<Rightarrow> 'k::linorder) \<Rightarrow> 'r list \<Rightarrow> 'k \<Rightarrow> nat" where
  "lower_bound key xs v = length (takeWhile (\<lambda>r. key r < v) xs)"

text \<open>The index lookup written at every call site: \<open>lower_bound\<close>, then the end and equality tests.\<close>

definition lookup_index :: "('r \<Rightarrow> 'k::linorder) \<Rightarrow> 'r list \<Rightarrow> 'k \<Rightarrow> nat option" where
  "lookup_index key xs v =
     (let i = lower_bound key xs v
      in if i < length xs \<and> key (xs ! i) = v then Some i else None)"

definition lookup_record :: "('r \<Rightarrow> 'k::linorder) \<Rightarrow> 'r list \<Rightarrow> 'k \<Rightarrow> 'r option" where
  "lookup_record key xs v = map_option ((!) xs) (lookup_index key xs v)"

definition binary_search :: "'a::linorder list \<Rightarrow> 'a \<Rightarrow> bool" where
  "binary_search xs v = (lookup_index (\<lambda>x. x) xs v \<noteq> None)"

lemma lookup_index_Some:
  "lookup_index key xs v = Some i \<Longrightarrow> i < length xs \<and> key (xs ! i) = v"
  by (auto simp: lookup_index_def Let_def split: if_splits)

lemma takeWhile_less_sorted:
  assumes "sorted (map key xs)" "i < length xs" "key (xs ! i) = (v :: 'k::linorder)"
  shows "lower_bound key xs v < length xs \<and> key (xs ! lower_bound key xs v) = v"
  using assms
proof (induction xs arbitrary: i)
  case Nil
  then show ?case by simp
next
  case (Cons x xs)
  show ?case
  proof (cases "key x < v")
    case True
    with Cons.prems obtain j where j: "i = Suc j" by (cases i) auto
    with Cons.prems have "sorted (map key xs)" "j < length xs" "key (xs ! j) = v" by auto
    from Cons.IH [OF this] True show ?thesis by (simp add: lower_bound_def)
  next
    case False
    have "key x \<le> v"
      using Cons.prems by (cases i) (auto simp: image_iff dest: nth_mem)
    with False show ?thesis by (simp add: lower_bound_def)
  qed
qed

lemma lookup_index_None:
  assumes "sorted (map key xs)"
  shows "lookup_index key xs v = None \<longleftrightarrow> v \<notin> key ` set xs"
proof
  assume none: "lookup_index key xs v = None"
  show "v \<notin> key ` set xs"
  proof
    assume "v \<in> key ` set xs"
    then obtain i where "i < length xs" "key (xs ! i) = v" by (auto simp: in_set_conv_nth)
    from takeWhile_less_sorted [OF assms this] none show False
      by (auto simp: lookup_index_def Let_def split: if_splits)
  qed
next
  assume "v \<notin> key ` set xs"
  then show "lookup_index key xs v = None"
    by (cases "lookup_index key xs v") (auto dest!: lookup_index_Some)
qed

lemma binary_search_iff: "sorted xs \<Longrightarrow> binary_search xs v \<longleftrightarrow> v \<in> set xs"
  using lookup_index_None [of "\<lambda>x. x" xs v] by (simp add: binary_search_def)

text \<open>
  The contract of a sealed lookup table: the rows are strictly sorted by their key.  What the
  client may rely on is proved once here: a lookup finds exactly the row with that key.
\<close>

locale keyed_table =
  fixes key :: "'r \<Rightarrow> 'k::linorder"
    and rows :: "'r list"
  assumes sorted_keys: "sorted (map key rows)"
    and distinct_keys: "distinct (map key rows)"
begin

lemma index_iff: "lookup_index key rows v = Some i \<longleftrightarrow> i < length rows \<and> key (rows ! i) = v"
proof
  assume "lookup_index key rows v = Some i"
  then show "i < length rows \<and> key (rows ! i) = v" by (rule lookup_index_Some)
next
  assume i: "i < length rows \<and> key (rows ! i) = v"
  then have "v \<in> key ` set rows" by auto
  then obtain j where j: "lookup_index key rows v = Some j"
    using lookup_index_None [OF sorted_keys, of v] by auto
  then have "j < length rows" "key (rows ! j) = v" by (auto dest: lookup_index_Some)
  with i distinct_keys have "j = i"
    by (metis distinct_conv_nth length_map nth_map)
  with j show "lookup_index key rows v = Some i" by simp
qed

lemma index_of_row: "i < length rows \<Longrightarrow> lookup_index key rows (key (rows ! i)) = Some i"
  by (simp add: index_iff)

lemma record_iff: "lookup_record key rows v = Some r \<longleftrightarrow> r \<in> set rows \<and> key r = v"
  by (auto simp: lookup_record_def index_iff in_set_conv_nth)

lemma record_None: "lookup_record key rows v = None \<longleftrightarrow> (\<forall>r \<in> set rows. key r \<noteq> v)"
  using lookup_index_None [OF sorted_keys, of v] by (auto simp: lookup_record_def)

end

section \<open>std::string::find of one character\<close>

fun find_char :: "char \<Rightarrow> string \<Rightarrow> nat option" where
  "find_char c [] = None"
| "find_char c (x # xs) = (if x = c then Some 0 else map_option Suc (find_char c xs))"

lemma find_char_None: "find_char c s = None \<longleftrightarrow> c \<notin> set s"
  by (induction s) auto

lemma find_char_append: "c \<notin> set s \<Longrightarrow> find_char c (s @ c # t) = Some (length s)"
  by (induction s) auto

section \<open>std::to_string on unsigned integers\<close>

definition digit_char :: "nat \<Rightarrow> char" where
  "digit_char d = char_of (48 + d)"

fun to_string :: "nat \<Rightarrow> string" where
  "to_string n = (if n < 10 then [digit_char n] else to_string (n div 10) @ [digit_char (n mod 10)])"

declare to_string.simps [simp del]

section \<open>Enumerations with a text spelling\<close>

text \<open>
  Every enumeration that appears in a text format has a name function and a parser.  The contract
  is the same for all of them: the parser accepts exactly the names.
\<close>

locale name_table =
  fixes name :: "'e \<Rightarrow> string"
    and parse :: "string \<Rightarrow> 'e option"
  assumes parse_name: "parse (name e) = Some e"
    and name_parse: "parse s = Some e \<Longrightarrow> s = name e"
begin

lemma parse_iff: "parse s = Some e \<longleftrightarrow> s = name e"
  using parse_name name_parse by auto

lemma name_inject: "name a = name b \<longleftrightarrow> a = b"
  by (metis parse_name option.inject)

lemma parse_None: "parse s = None \<longleftrightarrow> (\<forall>e. s \<noteq> name e)"
  by (metis parse_iff option.exhaust option.distinct(1))

end

section \<open>Bytes of a text\<close>

abbreviation bytes_of :: "string \<Rightarrow> u8 list" where
  "bytes_of \<equiv> map (\<lambda>c. of_nat (of_char c))"

abbreviation text_of :: "u8 list \<Rightarrow> string" where
  "text_of \<equiv> map (\<lambda>b. char_of (unat b))"

lemma unat_of_char [simp]: "unat (of_nat (of_char c) :: u8) = of_char c"
proof -
  have "(of_char c :: nat) mod 256 = of_char c" by simp
  then show ?thesis by (simp add: unat_of_nat)
qed

lemma text_of_bytes_of [simp]: "text_of (bytes_of s) = s"
  by (simp add: comp_def)

lemma bytes_of_text_of [simp]: "bytes_of (text_of bs) = bs"
proof -
  have "(of_nat (of_char (char_of (unat b) :: char)) :: u8) = b" for b :: u8
  proof -
    have "unat b < 256" using unsigned_less [of b] by simp
    then show ?thesis by simp
  qed
  then show ?thesis by (simp add: comp_def)
qed

end
