(* ===== verification/Status.thy ===== *)
theory Status
  imports Prelude
begin

text \<open>
  The operation status of \<open>include/opp/status.hpp\<close>, the bounds of \<open>limits.hpp\<close> and the
  revisions of \<open>version.hpp\<close>.  A \<open>Status\<close> is a code with a detail text; an
  \<open>Expected<T>\<close> is a failure status (\<open>Inl\<close>) or a value (\<open>Inr\<close>).
\<close>

datatype StatusCode =
    Ok | InvalidArgument | MalformedInput | LimitExceeded | DuplicateIdentity | NotFound
  | ConflictingEvidence | Unsupported | Stale | Fenced | Cancelled | Truncated
  | IntegrityFailure | IoFailure | Refused | Exhausted | Overflow | Internal

record Status =
  code :: StatusCode
  detail :: string

type_synonym 'a expected = "Status + 'a"

definition OkStatus :: Status where
  "OkStatus = \<lparr>code = Ok, detail = []\<rparr>"

definition Failure :: "StatusCode \<Rightarrow> string \<Rightarrow> Status" where
  "Failure c d = \<lparr>code = c, detail = d\<rparr>"

definition failed :: "Status \<Rightarrow> bool" where
  "failed s = (code s \<noteq> Ok)"

definition FirstFailure :: "Status \<Rightarrow> Status \<Rightarrow> Status" where
  "FirstFailure a b = (if failed a then a else b)"

text \<open>A run of checks, each of which returns early on failure: the first failure wins.\<close>

definition first_failure :: "Status list \<Rightarrow> Status" where
  "first_failure ss = foldr FirstFailure ss OkStatus"

text \<open>One guard \<open>if (condition) return Failure(code, detail)\<close>.\<close>

definition refuse_if :: "bool \<Rightarrow> StatusCode \<Rightarrow> string \<Rightarrow> Status" where
  "refuse_if b c d = (if b then Failure c d else OkStatus)"

fun StatusCodeName :: "StatusCode \<Rightarrow> string" where
  "StatusCodeName Ok = ''OK''"
| "StatusCodeName InvalidArgument = ''INVALID_ARGUMENT''"
| "StatusCodeName MalformedInput = ''MALFORMED_INPUT''"
| "StatusCodeName LimitExceeded = ''LIMIT_EXCEEDED''"
| "StatusCodeName DuplicateIdentity = ''DUPLICATE_IDENTITY''"
| "StatusCodeName NotFound = ''NOT_FOUND''"
| "StatusCodeName ConflictingEvidence = ''CONFLICTING_EVIDENCE''"
| "StatusCodeName Unsupported = ''UNSUPPORTED''"
| "StatusCodeName Stale = ''STALE''"
| "StatusCodeName Fenced = ''FENCED''"
| "StatusCodeName Cancelled = ''CANCELLED''"
| "StatusCodeName Truncated = ''TRUNCATED''"
| "StatusCodeName IntegrityFailure = ''INTEGRITY_FAILURE''"
| "StatusCodeName IoFailure = ''IO_FAILURE''"
| "StatusCodeName Refused = ''REFUSED''"
| "StatusCodeName Exhausted = ''EXHAUSTED''"
| "StatusCodeName Overflow = ''OVERFLOW''"
| "StatusCodeName Internal = ''INTERNAL''"

section \<open>Bounds (limits.hpp) and revisions (version.hpp)\<close>

definition kMaxNodes :: nat where "kMaxNodes = 4096"
definition kMaxPorts :: nat where "kMaxPorts = 16384"
definition kMaxSpans :: nat where "kMaxSpans = 32768"
definition kMaxCrossConnects :: nat where "kMaxCrossConnects = 65536"
definition kMaxReachProfiles :: nat where "kMaxReachProfiles = 256"
definition kMaxSources :: nat where "kMaxSources = 64"
definition kMaxDomainsPerResource :: nat where "kMaxDomainsPerResource = 16"
definition kMaxIdLength :: nat where "kMaxIdLength = 96"
definition kMaxTextLineBytes :: nat where "kMaxTextLineBytes = 8192"
definition kMaxSpectrumSlots :: nat where "kMaxSpectrumSlots = 256"
definition kMaxCandidates :: nat where "kMaxCandidates = 16"
definition kMaxRequestedRegenerations :: nat where "kMaxRequestedRegenerations = 64"
definition kMaxRequestedHops :: nat where "kMaxRequestedHops = 512"
definition kMaxExclusionEntries :: nat where "kMaxExclusionEntries = 4096"
definition kMaxDomainMemberLimits :: nat where "kMaxDomainMemberLimits = 1024"
definition kMaxRequiredGenerations :: nat where "kMaxRequiredGenerations = 64"
definition kMaxSearchExpansionsCeiling :: nat where "kMaxSearchExpansionsCeiling = 20000000"
definition kMaxSearchLabelsCeiling :: nat where "kMaxSearchLabelsCeiling = 40000000"
definition kMaxWitnessEntries :: nat where "kMaxWitnessEntries = 64"
definition kMaxStoredPlans :: nat where "kMaxStoredPlans = 100000"
definition kMaxStoreFileBytes :: nat where "kMaxStoreFileBytes = 16 * 1024 * 1024"
definition kMaxFrameBytes :: nat where "kMaxFrameBytes = 16 * 1024 * 1024"

definition kPlanningRuleVersion :: nat where "kPlanningRuleVersion = 1"
definition kPlanFormatVersion :: nat where "kPlanFormatVersion = 1"
definition kRequestFormatVersion :: nat where "kRequestFormatVersion = 1"

section \<open>Lemmas\<close>

lemma failed_OkStatus [simp, status_simps]: "\<not> failed OkStatus"
  by (simp add: failed_def OkStatus_def)

lemma failed_Failure [simp, status_simps]: "failed (Failure c d) = (c \<noteq> Ok)"
  by (simp add: failed_def Failure_def)

lemma code_Failure [simp, status_simps]: "code (Failure c d) = c"
  by (simp add: Failure_def)

lemma code_OkStatus [simp, status_simps]: "code OkStatus = Ok"
  by (simp add: OkStatus_def)

lemma FirstFailure_failed [simp, status_simps]: "failed (FirstFailure a b) = (failed a \<or> failed b)"
  by (auto simp: FirstFailure_def)

lemma first_failure_failed [simp, status_simps]:
  "failed (first_failure ss) \<longleftrightarrow> (\<exists>s \<in> set ss. failed s)"
  by (induction ss) (auto simp: first_failure_def)

lemma refuse_if_failed [simp, status_simps]: "failed (refuse_if b c d) = (b \<and> c \<noteq> Ok)"
  by (simp add: refuse_if_def)

lemma first_failure_Cons:
  "first_failure (s # ss) = (if failed s then s else first_failure ss)"
  by (simp add: first_failure_def FirstFailure_def)

lemma first_failure_member:
  "failed (first_failure ss) \<Longrightarrow> first_failure ss \<in> set ss"
proof (induction ss)
  case (Cons s ss)
  then show ?case
    by (cases "failed s") (simp_all add: first_failure_Cons del: first_failure_failed)
qed simp

lemma StatusCodeName_inject: "StatusCodeName a = StatusCodeName b \<longleftrightarrow> a = b"
  by (cases a; cases b) simp_all

end
