(* ===== verification/Ids.thy ===== *)
theory Ids
  imports Status
begin

text \<open>
  Identities and resource keys (\<open>include/opp/ids.hpp\<close>, \<open>src/ids.cpp\<close>): the identifier
  grammar, the hex codecs of digests and incarnations, port keys, and the \<open>kind:text\<close>
  spelling of a resource key.  The strongly typed identifiers all hold a \<open>std::string\<close> and are
  ordered by it, so each is a \<open>string\<close> here.
\<close>

type_synonym NodeId = string
type_synonym PortId = string
type_synonym SpanId = string
type_synonym CrossConnectId = string
type_synonym FailureDomainId = string
type_synonym ProfileId = string
type_synonym SourceId = string
type_synonym RequestId = string
type_synonym SnapshotId = string
type_synonym Generation = u64
type_synonym Epoch = u64
type_synonym Digest256 = "u8 list"
type_synonym IncarnationId = "u8 list"

section \<open>Identifier text\<close>

definition in_range :: "char \<Rightarrow> char \<Rightarrow> char \<Rightarrow> bool" where
  "in_range lo hi c = (lo \<le> c \<and> c \<le> hi)"

definition is_alnum :: "char \<Rightarrow> bool" where
  "is_alnum c = (in_range (CHR ''0'') (CHR ''9'') c \<or> in_range (CHR ''a'') (CHR ''z'') c \<or>
                 in_range (CHR ''A'') (CHR ''Z'') c)"

definition IsValidIdText :: "string \<Rightarrow> bool" where
  "IsValidIdText text =
     (if text = [] \<or> length text > kMaxIdLength then False
      else if \<not> is_alnum (hd text) then False
      else list_all (\<lambda>c. is_alnum c \<or> c \<in> set ''_-.:/@+'') text)"

definition ParseId :: "string \<Rightarrow> string expected" where
  "ParseId text =
     (if \<not> IsValidIdText text
      then Inl (Failure InvalidArgument ''identifier is empty, too long, or contains characters outside the identity alphabet'')
      else Inr text)"

section \<open>Hex codecs\<close>

definition kHexDigits :: string where
  "kHexDigits = ''0123456789abcdef''"

definition HexValue :: "char \<Rightarrow> int" where
  "HexValue c =
     (if in_range (CHR ''0'') (CHR ''9'') c then of_char c - of_char (CHR ''0'')
      else if in_range (CHR ''a'') (CHR ''f'') c then of_char c - of_char (CHR ''a'') + 10
      else if in_range (CHR ''A'') (CHR ''F'') c then of_char c - of_char (CHR ''A'') + 10
      else - 1)"

definition hex_byte :: "u8 \<Rightarrow> string" where
  "hex_byte b = [kHexDigits ! unat (drop_bit 4 b AND 15), kHexDigits ! unat (b AND 15)]"

definition ToHexImpl :: "u8 list \<Rightarrow> string" where
  "ToHexImpl bytes = concat (map hex_byte bytes)"

text \<open>The pair loop of \<open>FromHexImpl\<close>; it fails at the first pair with a non-hex character.\<close>

fun from_hex_pairs :: "string \<Rightarrow> u8 list option" where
  "from_hex_pairs (h # l # rest) =
     (let high = HexValue h; low = HexValue l
      in if high < 0 \<or> low < 0 then None
         else map_option (Cons (word_of_int (push_bit 4 high OR low))) (from_hex_pairs rest))"
| "from_hex_pairs _ = Some []"

definition FromHexImpl :: "nat \<Rightarrow> string \<Rightarrow> u8 list option" where
  "FromHexImpl n hex = (if length hex \<noteq> n * 2 then None else from_hex_pairs hex)"

definition IsZeroImpl :: "u8 list \<Rightarrow> bool" where
  "IsZeroImpl bytes = list_all (\<lambda>b. b = 0) bytes"

definition Digest256_FromHex :: "string \<Rightarrow> Digest256 expected" where
  "Digest256_FromHex hex =
     (case FromHexImpl 32 hex of
        None \<Rightarrow> Inl (Failure MalformedInput ''digest hex must be 64 lowercase or uppercase hex characters'')
      | Some d \<Rightarrow> Inr d)"

definition IncarnationId_FromHex :: "string \<Rightarrow> IncarnationId expected" where
  "IncarnationId_FromHex hex =
     (case FromHexImpl 16 hex of
        None \<Rightarrow> Inl (Failure MalformedInput ''incarnation hex must be 32 hexadecimal characters'')
      | Some d \<Rightarrow> Inr d)"

section \<open>Port keys and resource keys\<close>

datatype PortKey = PortKey (pk_node: NodeId) (pk_port: PortId)

definition CanonicalText :: "PortKey \<Rightarrow> string" where
  "CanonicalText k = pk_node k @ '':'' @ pk_port k"

instantiation PortKey :: linorder
begin

definition less_eq_PortKey :: "PortKey \<Rightarrow> PortKey \<Rightarrow> bool" where
  "less_eq_PortKey a b = (pk_node a < pk_node b \<or> pk_node a = pk_node b \<and> pk_port a \<le> pk_port b)"

definition less_PortKey :: "PortKey \<Rightarrow> PortKey \<Rightarrow> bool" where
  "less_PortKey a b = (pk_node a < pk_node b \<or> pk_node a = pk_node b \<and> pk_port a < pk_port b)"

instance
  by standard (auto simp: less_eq_PortKey_def less_PortKey_def intro: PortKey.expand)

end

datatype ResourceKind =
    RNode | RPort | RSpan | RCrossConnect | RFailureDomain | RReachProfile | RChannel | RSource

fun ResourceKind_value :: "ResourceKind \<Rightarrow> nat" where
  "ResourceKind_value RNode = 0"
| "ResourceKind_value RPort = 1"
| "ResourceKind_value RSpan = 2"
| "ResourceKind_value RCrossConnect = 3"
| "ResourceKind_value RFailureDomain = 4"
| "ResourceKind_value RReachProfile = 5"
| "ResourceKind_value RChannel = 6"
| "ResourceKind_value RSource = 7"

fun ResourceKindName :: "ResourceKind \<Rightarrow> string" where
  "ResourceKindName RNode = ''node''"
| "ResourceKindName RPort = ''port''"
| "ResourceKindName RSpan = ''span''"
| "ResourceKindName RCrossConnect = ''crossconnect''"
| "ResourceKindName RFailureDomain = ''domain''"
| "ResourceKindName RReachProfile = ''profile''"
| "ResourceKindName RChannel = ''channel''"
| "ResourceKindName RSource = ''source''"

datatype ResourceKey = ResourceKey (rk_kind: ResourceKind) (rk_text: string)

lemma ResourceKind_value_inject [simp]: "ResourceKind_value a = ResourceKind_value b \<longleftrightarrow> a = b"
  by (cases a; cases b) simp_all

instantiation ResourceKey :: linorder
begin

definition less_eq_ResourceKey :: "ResourceKey \<Rightarrow> ResourceKey \<Rightarrow> bool" where
  "less_eq_ResourceKey a b =
     (ResourceKind_value (rk_kind a) < ResourceKind_value (rk_kind b) \<or>
      rk_kind a = rk_kind b \<and> rk_text a \<le> rk_text b)"

definition less_ResourceKey :: "ResourceKey \<Rightarrow> ResourceKey \<Rightarrow> bool" where
  "less_ResourceKey a b =
     (ResourceKind_value (rk_kind a) < ResourceKind_value (rk_kind b) \<or>
      rk_kind a = rk_kind b \<and> rk_text a < rk_text b)"

instance
proof
  fix a b c :: ResourceKey
  show "a < b \<longleftrightarrow> a \<le> b \<and> \<not> b \<le> a"
    by (auto simp: less_eq_ResourceKey_def less_ResourceKey_def)
  show "a \<le> a" by (simp add: less_eq_ResourceKey_def)
  show "a \<le> b \<Longrightarrow> b \<le> c \<Longrightarrow> a \<le> c" by (auto simp: less_eq_ResourceKey_def)
  show "a \<le> b \<Longrightarrow> b \<le> a \<Longrightarrow> a = b"
    by (auto simp: less_eq_ResourceKey_def intro: ResourceKey.expand)
  show "a \<le> b \<or> b \<le> a"
    by (auto simp: less_eq_ResourceKey_def)
qed

end

definition ForNode :: "NodeId \<Rightarrow> ResourceKey" where
  "ForNode i = ResourceKey RNode i"

definition ForPort :: "PortKey \<Rightarrow> ResourceKey" where
  "ForPort key = ResourceKey RPort (CanonicalText key)"

definition ForSpan :: "SpanId \<Rightarrow> ResourceKey" where
  "ForSpan i = ResourceKey RSpan i"

definition ForCrossConnect :: "CrossConnectId \<Rightarrow> ResourceKey" where
  "ForCrossConnect i = ResourceKey RCrossConnect i"

definition ForReachProfile :: "ProfileId \<Rightarrow> ResourceKey" where
  "ForReachProfile i = ResourceKey RReachProfile i"

definition ForSource :: "SourceId \<Rightarrow> ResourceKey" where
  "ForSource i = ResourceKey RSource i"

definition ResourceKeyToString :: "ResourceKey \<Rightarrow> string" where
  "ResourceKeyToString key = ResourceKindName (rk_kind key) @ '':'' @ rk_text key"

definition kKinds :: "(string \<times> ResourceKind) list" where
  "kKinds = [(''node'', RNode), (''port'', RPort), (''span'', RSpan),
             (''crossconnect'', RCrossConnect), (''domain'', RFailureDomain),
             (''profile'', RReachProfile), (''channel'', RChannel), (''source'', RSource)]"

definition ResourceKeyFromString :: "string \<Rightarrow> ResourceKey expected" where
  "ResourceKeyFromString text =
     (case find_char (CHR '':'') text of
        None \<Rightarrow> Inl (Failure MalformedInput ''resource key must be spelled kind:text'')
      | Some separator \<Rightarrow>
          if separator = 0 then Inl (Failure MalformedInput ''resource key must be spelled kind:text'')
          else let kind_text = take separator text; body = drop (separator + 1) text
               in if body = [] then Inl (Failure MalformedInput ''resource key body must not be empty'')
                  else case map_of kKinds kind_text of
                         Some kind \<Rightarrow> Inr (ResourceKey kind body)
                       | None \<Rightarrow> Inl (Failure MalformedInput
                           (''unrecognised resource kind '' @ [CHR 0x27] @ kind_text @ [CHR 0x27])))"

section \<open>Lemmas\<close>

lemma HexValue_kHexDigits: "n < 16 \<Longrightarrow> HexValue (kHexDigits ! n) = int n"
proof -
  have "\<forall>m \<in> {0..<16::nat}. HexValue (kHexDigits ! m) = int m"
    by code_simp
  then show "n < 16 \<Longrightarrow> HexValue (kHexDigits ! n) = int n" by simp
qed

lemma nibble_bound: "unat ((w :: u8) AND 15) < 16"
proof -
  have "w AND 15 \<le> 15" by (rule word_and_le1)
  then have "unat (w AND 15) \<le> unat (15 :: u8)" by (simp add: word_le_nat_alt)
  then show ?thesis by simp
qed

lemma low_nibble_mask: "(15 :: u8) = mask 4"
  by (simp add: mask_eq_exp_minus_1)

lemma byte_from_nibbles [simp]:
  "word_of_int (push_bit 4 (uint (drop_bit 4 w AND 15)) OR uint (w AND 15)) = (w :: u8)"
  unfolding low_nibble_mask by (rule bit_word_eqI) (auto simp: bit_simps)

lemma from_hex_pairs_hex_byte:
  "from_hex_pairs (hex_byte b @ rest) = map_option (Cons b) (from_hex_pairs rest)"
  by (simp add: hex_byte_def HexValue_kHexDigits nibble_bound)

lemma from_hex_pairs_ToHexImpl [simp]: "from_hex_pairs (ToHexImpl bs) = Some bs"
  by (induction bs) (simp_all add: ToHexImpl_def from_hex_pairs_hex_byte)

lemma length_ToHexImpl [simp]: "length (ToHexImpl bs) = 2 * length bs"
  by (induction bs) (simp_all add: ToHexImpl_def hex_byte_def)

lemma FromHexImpl_ToHexImpl [simp]: "FromHexImpl (length bs) (ToHexImpl bs) = Some bs"
  by (simp add: FromHexImpl_def)

lemma length_from_hex_pairs: "from_hex_pairs s = Some bs \<Longrightarrow> length bs = length s div 2"
  by (induction s arbitrary: bs rule: from_hex_pairs.induct) (auto simp: Let_def split: if_splits)

lemma ParseId_Inr [simp]: "ParseId t = Inr i \<longleftrightarrow> IsValidIdText t \<and> i = t"
  by (auto simp: ParseId_def)

lemma ResourceKindName_no_colon: "CHR '':'' \<notin> set (ResourceKindName k)"
  by (cases k) simp_all

lemma ResourceKindName_nonempty [simp]: "ResourceKindName k \<noteq> []"
  by (cases k) simp_all

lemma map_of_kKinds [simp]: "map_of kKinds (ResourceKindName k) = Some k"
  by (cases k) (simp_all add: kKinds_def)

lemma For_simps [simp]:
  "rk_kind (ForNode n) = RNode" "rk_kind (ForPort p) = RPort" "rk_kind (ForSpan s) = RSpan"
  "rk_kind (ForCrossConnect x) = RCrossConnect" "rk_text (ForNode n) = n" "rk_text (ForSpan s) = s"
  "rk_text (ForCrossConnect x) = x" "rk_text (ForPort p) = CanonicalText p"
  by (simp_all add: ForNode_def ForPort_def ForSpan_def ForCrossConnect_def)

lemma CanonicalText_inject:
  assumes "CHR '':'' \<notin> set (pk_node a)" "CHR '':'' \<notin> set (pk_node b)"
  shows "CanonicalText a = CanonicalText b \<longleftrightarrow> a = b"
proof
  assume eq: "CanonicalText a = CanonicalText b"
  then have "find_char (CHR '':'') (CanonicalText a) = find_char (CHR '':'') (CanonicalText b)" by simp
  then have "length (pk_node a) = length (pk_node b)"
    using assms by (simp add: CanonicalText_def find_char_append)
  with eq show "a = b" by (auto simp: CanonicalText_def intro: PortKey.expand)
qed simp

section \<open>Round trips\<close>

text \<open>
  The text spelling of a resource key is exact: parsing what \<open>ResourceKey::ToString\<close> prints
  gives the key back, for every kind and every non-empty text (also one that contains colons).
\<close>

lemma ResourceKey_text_round_trip:
  assumes "rk_text k \<noteq> []"
  shows "ResourceKeyFromString (ResourceKeyToString k) = Inr k"
  using assms find_char_append [OF ResourceKindName_no_colon, of "rk_kind k" "rk_text k"]
  by (simp add: ResourceKeyToString_def ResourceKeyFromString_def)

text \<open>
  The hex spelling of a 32-byte digest is exact, and the parser refuses every text that is not
  64 characters long with a malformed-input status.
\<close>

lemma Digest256_hex_round_trip:
  assumes "length d = 32"
  shows "Digest256_FromHex (ToHexImpl d) = Inr d \<and>
    (\<forall>t. length t \<noteq> 64 \<longrightarrow> (\<exists>e. Digest256_FromHex t = Inl e \<and> code e = MalformedInput))"
  using assms FromHexImpl_ToHexImpl [of d] by (auto simp: Digest256_FromHex_def FromHexImpl_def)

end
