(* ===== verification/Spectrum.thy ===== *)
theory Spectrum
  imports Ids
begin

text \<open>
  The spectrum model (\<open>include/opp/spectrum.hpp\<close>, \<open>src/spectrum.cpp\<close>).  A \<open>SlotMask\<close>
  is the array of four 64-bit words the class holds; \<open>mask_set\<close> reads it as a set of slots, and
  every operation is shown to act on that set.  The locale \<open>slot_set\<close> is the contract the
  search and the plan builder rely on; the word array is an interpretation of it.
\<close>

datatype GridKind = Fixed50GHz | Flex12_5GHz

fun GridKindName :: "GridKind \<Rightarrow> string" where
  "GridKindName Fixed50GHz = ''fixed50''"
| "GridKindName Flex12_5GHz = ''flex12_5''"

definition ParseGridKind :: "string \<Rightarrow> GridKind option" where
  "ParseGridKind text =
     (if text = ''fixed50'' then Some Fixed50GHz
      else if text = ''flex12_5'' then Some Flex12_5GHz else None)"

fun SlotWidthKhz :: "GridKind \<Rightarrow> nat" where
  "SlotWidthKhz Fixed50GHz = 50000"
| "SlotWidthKhz Flex12_5GHz = 12500"

record SpectrumModel =
  grid :: GridKind
  slot_count :: u16

definition SpectrumModel_Validate :: "SpectrumModel \<Rightarrow> Status" where
  "SpectrumModel_Validate m =
     (if slot_count m = 0 then Failure InvalidArgument ''spectrum model must declare at least one slot''
      else if unat (slot_count m) > kMaxSpectrumSlots
      then Failure LimitExceeded (''spectrum model declares '' @ to_string (unat (slot_count m)) @
             '' slots, above the supported maximum of '' @ to_string kMaxSpectrumSlots)
      else OkStatus)"

definition ChannelCapacity :: "SpectrumModel \<Rightarrow> u16 \<Rightarrow> u32" where
  "ChannelCapacity m width_slots =
     (if width_slots = 0 \<or> width_slots > slot_count m then 0
      else ucast (slot_count m) - ucast width_slots + 1)"

section \<open>SlotMask\<close>

type_synonym SlotMask = "u64 list"

definition kWords :: nat where
  "kWords = (kMaxSpectrumSlots + 63) div 64"

definition Mask_None :: SlotMask where
  "Mask_None = replicate kWords 0"

definition Mask_Set :: "nat \<Rightarrow> SlotMask \<Rightarrow> SlotMask" where
  "Mask_Set index m =
     (if index \<ge> kMaxSpectrumSlots then m
      else m[index div 64 := (m ! (index div 64)) OR push_bit (index mod 64) 1])"

definition Mask_Reset :: "nat \<Rightarrow> SlotMask \<Rightarrow> SlotMask" where
  "Mask_Reset index m =
     (if index \<ge> kMaxSpectrumSlots then m
      else m[index div 64 := (m ! (index div 64)) AND NOT (push_bit (index mod 64) 1)])"

definition Mask_Test :: "SlotMask \<Rightarrow> nat \<Rightarrow> bool" where
  "Mask_Test m index =
     (if index \<ge> kMaxSpectrumSlots then False
      else (m ! (index div 64)) AND push_bit (index mod 64) 1 \<noteq> 0)"

text \<open>\<open>for (i = 0; i < slot_count && i < kMaxSpectrumSlots; ++i) mask.Set(i)\<close>\<close>

definition Mask_All :: "nat \<Rightarrow> SlotMask" where
  "Mask_All n = fold Mask_Set [0 ..< min n kMaxSpectrumSlots] Mask_None"

definition Mask_Intersect :: "SlotMask \<Rightarrow> SlotMask \<Rightarrow> SlotMask" where
  "Mask_Intersect a b = map2 (AND) a b"

definition Mask_IsEmpty :: "SlotMask \<Rightarrow> bool" where
  "Mask_IsEmpty m = list_all (\<lambda>w. w = 0) m"

definition Mask_IsSubsetOf :: "SlotMask \<Rightarrow> SlotMask \<Rightarrow> bool" where
  "Mask_IsSubsetOf a b = list_all2 (\<lambda>x y. x AND NOT y = 0) a b"

text \<open>\<open>while ((value & 1) == 0) { value >>= 1; ++bit; }\<close>; entered with a non-zero word only.\<close>

fun lowest_bit :: "nat \<Rightarrow> u64 \<Rightarrow> nat" where
  "lowest_bit 0 v = 0"
| "lowest_bit (Suc fuel) v = (if v AND 1 = 0 then Suc (lowest_bit fuel (drop_bit 1 v)) else 0)"

fun lowest_from :: "nat \<Rightarrow> u64 list \<Rightarrow> nat option" where
  "lowest_from w [] = None"
| "lowest_from w (v # vs) =
     (if v = 0 then lowest_from (Suc w) vs
      else let index = w * 64 + lowest_bit 64 v
           in if index \<ge> kMaxSpectrumSlots then None else Some index)"

definition LowestSetBit :: "SlotMask \<Rightarrow> nat option" where
  "LowestSetBit m = lowest_from 0 m"

definition run_available :: "SlotMask \<Rightarrow> nat \<Rightarrow> nat \<Rightarrow> bool" where
  "run_available m width start = list_all (\<lambda>offset. Mask_Test m (start + offset)) [0 ..< width]"

definition FirstSlotMask :: "SlotMask \<Rightarrow> nat \<Rightarrow> SlotMask" where
  "FirstSlotMask m width =
     (if width = 0 \<or> width > kMaxSpectrumSlots then Mask_None
      else fold (\<lambda>start result. if run_available m width start then Mask_Set start result else result)
             [0 ..< kMaxSpectrumSlots - width + 1] Mask_None)"

definition hex_word :: "u64 \<Rightarrow> string" where
  "hex_word w = map (\<lambda>nibble. kHexDigits ! unat (drop_bit (nibble * 4) w AND 15)) (rev [0 ..< 16])"

definition Mask_ToHex :: "SlotMask \<Rightarrow> string" where
  "Mask_ToHex m = concat (map hex_word (rev m))"

fun parse_hex_word :: "u64 \<Rightarrow> string \<Rightarrow> u64 option" where
  "parse_hex_word word [] = Some word"
| "parse_hex_word word (c # cs) =
     (let v = HexValue c
      in if v < 0 then None else parse_hex_word (push_bit 4 word OR word_of_int v) cs)"

text \<open>The outer loop reads the most significant word first and fills the array downwards.\<close>

fun parse_hex_words :: "nat \<Rightarrow> string \<Rightarrow> u64 list option" where
  "parse_hex_words 0 hex = Some []"
| "parse_hex_words (Suc n) hex =
     (case parse_hex_word 0 (take 16 hex) of
        None \<Rightarrow> None
      | Some w \<Rightarrow> map_option (\<lambda>ws. ws @ [w]) (parse_hex_words n (drop 16 hex)))"

definition Mask_FromHex :: "string \<Rightarrow> SlotMask expected" where
  "Mask_FromHex hex =
     (if length hex \<noteq> kWords * 16
      then Inl (Failure MalformedInput ''slot mask hex must be exactly 64 characters'')
      else case parse_hex_words kWords hex of
             None \<Rightarrow> Inl (Failure MalformedInput ''slot mask hex contains a non-hex character'')
           | Some m \<Rightarrow> Inr m)"

text \<open>
  The usable slots of a resource that publishes a blocked set: the complement within the declared
  model.  The same loop is written in the search (ports, spans, cross-connects), in the plan
  builder and in the revalidation.
\<close>

definition usable_slots :: "nat \<Rightarrow> SlotMask \<Rightarrow> SlotMask" where
  "usable_slots n blocked =
     fold (\<lambda>slot usable. if Mask_Test blocked slot then Mask_Reset slot usable else usable)
       [0 ..< n] (Mask_All n)"

record Channel =
  first_slot :: nat
  width_slots :: nat

section \<open>The set of slots a mask holds\<close>

definition mask_wf :: "SlotMask \<Rightarrow> bool" where
  "mask_wf m = (length m = kWords)"

definition mask_set :: "SlotMask \<Rightarrow> nat set" where
  "mask_set m = {i. Mask_Test m i}"

lemma kWords_eq [simp]: "kWords = 4"
  by (simp add: kWords_def kMaxSpectrumSlots_def)

lemma Mask_Test_bit:
  "Mask_Test m i \<longleftrightarrow> i < kMaxSpectrumSlots \<and> bit (m ! (i div 64)) (i mod 64)"
  by (simp add: Mask_Test_def bit_iff_and_push_bit_not_eq_0)

lemma mask_set_iff [mask_simps]:
  "i \<in> mask_set m \<longleftrightarrow> i < kMaxSpectrumSlots \<and> bit (m ! (i div 64)) (i mod 64)"
  by (simp add: mask_set_def Mask_Test_bit)

lemma Mask_Test_iff [mask_simps]: "Mask_Test m i \<longleftrightarrow> i \<in> mask_set m"
  by (simp add: mask_set_def)

lemma mask_wf_None [simp]: "mask_wf Mask_None"
  by (simp add: mask_wf_def Mask_None_def)

lemma mask_wf_Set [simp]: "mask_wf (Mask_Set i m) = mask_wf m"
  by (simp add: mask_wf_def Mask_Set_def)

lemma mask_wf_Reset [simp]: "mask_wf (Mask_Reset i m) = mask_wf m"
  by (simp add: mask_wf_def Mask_Reset_def)

lemma mask_wf_Intersect [simp]: "mask_wf a \<Longrightarrow> mask_wf b \<Longrightarrow> mask_wf (Mask_Intersect a b)"
  by (simp add: mask_wf_def Mask_Intersect_def)

lemma word_index: "i < kMaxSpectrumSlots \<Longrightarrow> mask_wf m \<Longrightarrow> i div 64 < length m"
  by (simp add: mask_wf_def kMaxSpectrumSlots_def)

lemma mask_set_None [simp]: "mask_set Mask_None = {}"
  by (auto simp: mask_set_iff Mask_None_def kMaxSpectrumSlots_def)

lemma div_mod_64_eq: "(i :: nat) div 64 = j div 64 \<Longrightarrow> i mod 64 = j mod 64 \<Longrightarrow> i = j"
  by (metis div_mod_decomp)

lemma mask_set_Set:
  assumes "mask_wf m" "i < kMaxSpectrumSlots"
  shows "mask_set (Mask_Set i m) = insert i (mask_set m)"
proof (rule set_eqI)
  fix j
  show "j \<in> mask_set (Mask_Set i m) \<longleftrightarrow> j \<in> insert i (mask_set m)"
    using assms word_index [OF assms(2,1)] div_mod_64_eq [of i j]
    by (cases "i div 64 = j div 64")
       (auto simp: mask_set_iff Mask_Set_def bit_simps nth_list_update)
qed

lemma mask_set_Reset:
  assumes "mask_wf m"
  shows "mask_set (Mask_Reset i m) = mask_set m - {i}"
proof (cases "i < kMaxSpectrumSlots")
  case True
  show ?thesis
  proof (rule set_eqI)
    fix j
    show "j \<in> mask_set (Mask_Reset i m) \<longleftrightarrow> j \<in> mask_set m - {i}"
      using assms True word_index [OF True assms] div_mod_64_eq [of i j]
      by (cases "i div 64 = j div 64")
         (auto simp: mask_set_iff Mask_Reset_def bit_simps nth_list_update)
  qed
next
  case False
  then show ?thesis by (auto simp: Mask_Reset_def mask_set_iff)
qed

lemma mask_set_Intersect [mask_simps]:
  assumes "mask_wf a" "mask_wf b"
  shows "mask_set (Mask_Intersect a b) = mask_set a \<inter> mask_set b"
proof (rule set_eqI)
  fix j
  show "j \<in> mask_set (Mask_Intersect a b) \<longleftrightarrow> j \<in> mask_set a \<inter> mask_set b"
    using word_index [of j a] word_index [of j b] assms
    by (cases "j < kMaxSpectrumSlots") (auto simp: mask_set_iff Mask_Intersect_def bit_simps)
qed

lemma Mask_IsEmpty_iff [mask_simps]:
  assumes "mask_wf m"
  shows "Mask_IsEmpty m \<longleftrightarrow> mask_set m = {}"
proof
  assume "Mask_IsEmpty m"
  then show "mask_set m = {}"
    using word_index [OF _ assms] by (auto simp: Mask_IsEmpty_def mask_set_iff list_all_length)
next
  assume empty: "mask_set m = {}"
  have "m ! k = 0" if k: "k < length m" for k
  proof (rule bit_word_eqI)
    fix n assume n: "n < LENGTH(64)"
    then have "(k * 64 + n) div 64 = k" "(k * 64 + n) mod 64 = n" "k * 64 + n < kMaxSpectrumSlots"
      using k assms by (auto simp: mask_wf_def kMaxSpectrumSlots_def)
    moreover have "k * 64 + n \<notin> mask_set m" using empty by simp
    ultimately show "bit (m ! k) n \<longleftrightarrow> bit 0 n" by (simp add: mask_set_iff)
  qed
  then show "Mask_IsEmpty m" by (simp add: Mask_IsEmpty_def list_all_length)
qed

lemma Mask_IsSubsetOf_iff [mask_simps]:
  assumes "mask_wf a" "mask_wf b"
  shows "Mask_IsSubsetOf a b \<longleftrightarrow> mask_set a \<subseteq> mask_set b"
proof -
  define d where "d = map2 (\<lambda>x y. x AND NOT y) a b"
  have wf: "mask_wf d" using assms by (simp add: d_def mask_wf_def)
  have "Mask_IsSubsetOf a b \<longleftrightarrow> Mask_IsEmpty d"
    using assms by (auto simp: d_def Mask_IsSubsetOf_def Mask_IsEmpty_def list_all2_conv_all_nth
        list_all_length mask_wf_def)
  also have "\<dots> \<longleftrightarrow> mask_set d = {}" by (rule Mask_IsEmpty_iff [OF wf])
  also have "mask_set d = mask_set a - mask_set b"
  proof (rule set_eqI)
    fix j
    show "j \<in> mask_set d \<longleftrightarrow> j \<in> mask_set a - mask_set b"
      using word_index [of j a] word_index [of j b] assms
      by (cases "j < kMaxSpectrumSlots") (auto simp: mask_set_iff d_def bit_simps)
  qed
  finally show ?thesis by blast
qed

lemma mask_fold_Set:
  assumes "mask_wf m" "\<forall>i \<in> set is. i < kMaxSpectrumSlots"
  shows "mask_wf (fold Mask_Set is m) \<and> mask_set (fold Mask_Set is m) = set is \<union> mask_set m"
  using assms
proof (induction "is" arbitrary: m)
  case (Cons i "is")
  then show ?case using Cons.IH [of "Mask_Set i m"] by (simp add: mask_set_Set)
qed simp

lemma mask_wf_All [simp]: "mask_wf (Mask_All n)"
  and mask_set_All [mask_simps]: "mask_set (Mask_All n) = {i. i < n \<and> i < kMaxSpectrumSlots}"
proof -
  have "\<forall>i \<in> set [0 ..< min n kMaxSpectrumSlots]. i < kMaxSpectrumSlots" by simp
  note fold = mask_fold_Set [OF mask_wf_None this]
  show "mask_wf (Mask_All n)" unfolding Mask_All_def using fold by blast
  have "mask_set (Mask_All n) = set [0 ..< min n kMaxSpectrumSlots] \<union> mask_set Mask_None"
    unfolding Mask_All_def using fold by blast
  moreover have "set [0 ..< min n kMaxSpectrumSlots] = {i. i < n \<and> i < kMaxSpectrumSlots}"
    by (simp add: set_eq_iff)
  ultimately show "mask_set (Mask_All n) = {i. i < n \<and> i < kMaxSpectrumSlots}"
    by (simp only: mask_set_None Un_empty_right)
qed

lemma mask_fold_Set_if:
  assumes "mask_wf m" "\<forall>i \<in> set is. i < kMaxSpectrumSlots"
  shows "mask_wf (fold (\<lambda>i r. if P i then Mask_Set i r else r) is m) \<and>
         mask_set (fold (\<lambda>i r. if P i then Mask_Set i r else r) is m) = {i \<in> set is. P i} \<union> mask_set m"
  using assms
proof (induction "is" arbitrary: m)
  case (Cons i "is")
  show ?case
    using Cons.IH [of "if P i then Mask_Set i m else m"] Cons.prems
    by (cases "P i") (simp_all add: mask_set_Set, blast+)
qed simp

lemma FirstSlotMask_fold:
  assumes "0 < w" "w \<le> kMaxSpectrumSlots"
  shows "mask_wf (FirstSlotMask m w) \<and>
         mask_set (FirstSlotMask m w) = {s. s \<le> kMaxSpectrumSlots - w \<and> run_available m w s}"
proof -
  have "\<forall>i \<in> set [0 ..< kMaxSpectrumSlots - w + 1]. i < kMaxSpectrumSlots" using assms by auto
  note fold = mask_fold_Set_if [OF mask_wf_None this, of "run_available m w"]
  have eq: "FirstSlotMask m w = fold (\<lambda>start result. if run_available m w start
      then Mask_Set start result else result) [0 ..< kMaxSpectrumSlots - w + 1] Mask_None"
    unfolding FirstSlotMask_def using assms by (simp del: upt_Suc)
  have starts: "{i \<in> set [0 ..< kMaxSpectrumSlots - w + 1]. run_available m w i} \<union> mask_set Mask_None
      = {s. s \<le> kMaxSpectrumSlots - w \<and> run_available m w s}"
    using mask_set_None by (auto simp: less_Suc_eq_le simp del: upt_Suc)
  show ?thesis unfolding eq starts [symmetric] by (rule fold)
qed

lemma run_available_iff: "run_available m w s \<longleftrightarrow> (\<forall>k < w. s + k \<in> mask_set m)"
  by (auto simp: run_available_def list_all_iff Mask_Test_iff)

lemma mask_wf_FirstSlotMask [simp]: "mask_wf (FirstSlotMask m w)"
proof (cases "w = 0 \<or> w > kMaxSpectrumSlots")
  case True
  then show ?thesis by (auto simp: FirstSlotMask_def)
next
  case False
  then show ?thesis using FirstSlotMask_fold [of w m] by simp
qed

lemma mask_set_FirstSlotMask:
  assumes w: "0 < w"
  shows "mask_set (FirstSlotMask m w) = {s. \<forall>k < w. s + k \<in> mask_set m}"
proof (cases "w > kMaxSpectrumSlots")
  case True
  then have "\<exists>k < w. s + k \<notin> mask_set m" for s
    by (intro exI [of _ kMaxSpectrumSlots]) (auto simp: mask_set_iff)
  with True show ?thesis by (auto simp: FirstSlotMask_def)
next
  case False
  have "s \<le> kMaxSpectrumSlots - w" if "\<forall>k < w. s + k \<in> mask_set m" for s
    using that [rule_format, of "w - 1"] w by (auto simp: mask_set_iff)
  with False w show ?thesis using FirstSlotMask_fold [of w m] by (auto simp: run_available_iff)
qed

lemma lowest_bit_correct:
  "bit v n \<Longrightarrow> n < fuel \<Longrightarrow> bit v (lowest_bit fuel v) \<and> lowest_bit fuel v \<le> n"
proof (induction fuel arbitrary: v n)
  case (Suc fuel)
  show ?case
  proof (cases "v AND 1 = 0")
    case False
    then have "bit v 0" by (simp add: and_one_eq odd_iff_mod_2_eq_one bit_0)
    with False show ?thesis by simp
  next
    case True
    then have "\<not> bit v 0" by (simp add: and_one_eq bit_0 even_iff_mod_2_eq_zero)
    with Suc.prems obtain k where k: "n = Suc k" by (cases n) auto
    with Suc have "bit (drop_bit 1 v) k" "k < fuel" by (auto simp: bit_simps)
    from Suc.IH [OF this] True k show ?thesis by (simp add: bit_simps)
  qed
qed simp

lemma lowest_from_Some:
  assumes "length vs + w = kWords" "lowest_from w vs = Some i"
  shows "w * 64 \<le> i \<and> bit (vs ! (i div 64 - w)) (i mod 64) \<and> i div 64 < kWords \<and>
         (\<forall>k n. k < length vs \<longrightarrow> bit (vs ! k) n \<longrightarrow> n < 64 \<longrightarrow> i \<le> (w + k) * 64 + n)"
  using assms
proof (induction vs arbitrary: w)
  case Nil
  then show ?case by simp
next
  case (Cons v vs)
  show ?case
  proof (cases "v = 0")
    case True
    with Cons.prems have "length vs + Suc w = kWords" "lowest_from (Suc w) vs = Some i" by auto
    note IH = Cons.IH [OF this]
    have "i div 64 - w = Suc (i div 64 - Suc w)" using IH by auto
    moreover have "i \<le> (w + k) * 64 + n" if "k < length (v # vs)" "bit ((v # vs) ! k) n" "n < 64" for k n
      using that IH True by (cases k) auto
    ultimately show ?thesis using IH by auto
  next
    case False
    then obtain n where n: "bit v n" by (metis bit_eqI bit_0_eq bot_apply bot_bool_def)
    then have "n < 64" using bit_imp_le_length [OF n] by simp
    note low = lowest_bit_correct [OF n this]
    have lt: "lowest_bit 64 v < 64" using low \<open>n < 64\<close> by linarith
    have i: "i = w * 64 + lowest_bit 64 v" using Cons.prems False
      by (auto simp: Let_def split: if_splits)
    have "i \<le> (w + k) * 64 + b" if "k < length (v # vs)" "bit ((v # vs) ! k) b" "b < 64" for k b
    proof (cases k)
      case 0
      then show ?thesis using lowest_bit_correct [of v b 64] that i by simp
    next
      case (Suc j)
      then show ?thesis using i lt by simp
    qed
    with i lt low Cons.prems show ?thesis by auto
  qed
qed

lemma lowest_from_None:
  assumes "length vs + w = kWords" "lowest_from w vs = None"
  shows "\<forall>v \<in> set vs. v = 0"
  using assms
proof (induction vs arbitrary: w)
  case (Cons v vs)
  have "v = 0"
  proof (rule ccontr)
    assume "v \<noteq> 0"
    then obtain n where n: "bit v n" by (metis bit_eqI bit_0_eq bot_apply bot_bool_def)
    then have "n < 64" using bit_imp_le_length [OF n] by simp
    with lowest_bit_correct [OF n] have "lowest_bit 64 v < 64" by fastforce
    with Cons.prems \<open>v \<noteq> 0\<close> show False
      by (auto simp: Let_def kMaxSpectrumSlots_def split: if_splits)
  qed
  with Cons.prems Cons.IH [of "Suc w"] show ?case by simp
qed simp

lemma LowestSetBit_Some:
  assumes "mask_wf m" "LowestSetBit m = Some i"
  shows "i \<in> mask_set m \<and> (\<forall>j \<in> mask_set m. i \<le> j)"
proof -
  have "length m + 0 = kWords" using assms by (simp add: mask_wf_def)
  from lowest_from_Some [OF this] assms(2)
  have low: "bit (m ! (i div 64)) (i mod 64)" "i div 64 < 4"
    "\<And>k n. k < length m \<Longrightarrow> bit (m ! k) n \<Longrightarrow> n < 64 \<Longrightarrow> i \<le> k * 64 + n"
    by (auto simp: LowestSetBit_def)
  have "i \<le> j" if "j \<in> mask_set m" for j
    using that low(3) [of "j div 64" "j mod 64"] word_index [OF _ assms(1), of j]
    by (auto simp: mask_set_iff)
  with low show ?thesis by (auto simp: mask_set_iff kMaxSpectrumSlots_def)
qed

lemma LowestSetBit_None [mask_simps]:
  assumes "mask_wf m"
  shows "LowestSetBit m = None \<longleftrightarrow> mask_set m = {}"
proof
  assume "LowestSetBit m = None"
  then have "\<forall>v \<in> set m. v = 0"
    using lowest_from_None [of m 0] assms by (simp add: LowestSetBit_def mask_wf_def)
  then show "mask_set m = {}"
    using Mask_IsEmpty_iff [OF assms] by (simp add: Mask_IsEmpty_def list_all_iff)
next
  assume "mask_set m = {}"
  then show "LowestSetBit m = None"
    using LowestSetBit_Some [OF assms] by (cases "LowestSetBit m") auto
qed

lemma usable_slots_fold:
  assumes "mask_wf m"
  shows "mask_wf (fold (\<lambda>i u. if Mask_Test b i then Mask_Reset i u else u) is m) \<and>
    mask_set (fold (\<lambda>i u. if Mask_Test b i then Mask_Reset i u else u) is m)
      = mask_set m - (set is \<inter> mask_set b)"
  using assms
proof (induction "is" arbitrary: m)
  case (Cons i "is")
  have "mask_wf (if Mask_Test b i then Mask_Reset i m else m)" using Cons.prems by simp
  from Cons.IH [OF this] show ?case
    by (cases "Mask_Test b i") (simp_all add: mask_set_Reset Cons.prems Mask_Test_iff, blast+)
qed simp

lemma mask_wf_usable_slots [simp]: "mask_wf (usable_slots n b)"
  unfolding usable_slots_def using usable_slots_fold [OF mask_wf_All] by blast

lemma mask_set_usable_slots [mask_simps]:
  "mask_set (usable_slots n b) = {i. i < n \<and> i < kMaxSpectrumSlots \<and> i \<notin> mask_set b}"
proof -
  have "mask_set (usable_slots n b) = mask_set (Mask_All n) - (set [0 ..< n] \<inter> mask_set b)"
    unfolding usable_slots_def using usable_slots_fold [OF mask_wf_All] by blast
  then have "i \<in> mask_set (usable_slots n b) \<longleftrightarrow> i < n \<and> i < kMaxSpectrumSlots \<and> i \<notin> mask_set b" for i
    by (auto simp only: mask_set_All Diff_iff Int_iff mem_Collect_eq set_upt atLeastLessThan_iff)
  then show ?thesis by blast
qed

section \<open>The contract of a slot mask\<close>

text \<open>
  What the search and the plan builder use of a mask: intersection, emptiness, inclusion and the
  lowest slot, all read off the set of slots.  The monotonicity facts the dominance argument needs
  follow from the contract alone.
\<close>

locale slot_set =
  fixes wf :: "'m \<Rightarrow> bool"
    and slots :: "'m \<Rightarrow> nat set"
    and inter :: "'m \<Rightarrow> 'm \<Rightarrow> 'm"
    and is_empty :: "'m \<Rightarrow> bool"
    and subset :: "'m \<Rightarrow> 'm \<Rightarrow> bool"
    and lowest :: "'m \<Rightarrow> nat option"
  assumes wf_inter: "wf a \<Longrightarrow> wf b \<Longrightarrow> wf (inter a b)"
    and slots_inter: "wf a \<Longrightarrow> wf b \<Longrightarrow> slots (inter a b) = slots a \<inter> slots b"
    and is_empty: "wf a \<Longrightarrow> is_empty a \<longleftrightarrow> slots a = {}"
    and subset: "wf a \<Longrightarrow> wf b \<Longrightarrow> subset a b \<longleftrightarrow> slots a \<subseteq> slots b"
    and lowest_None: "wf a \<Longrightarrow> lowest a = None \<longleftrightarrow> slots a = {}"
    and lowest_Some: "wf a \<Longrightarrow> lowest a = Some i \<Longrightarrow> i \<in> slots a \<and> (\<forall>j \<in> slots a. i \<le> j)"
begin

lemma subset_refl: "wf a \<Longrightarrow> subset a a"
  by (simp add: subset)

lemma subset_trans: "wf a \<Longrightarrow> wf b \<Longrightarrow> wf c \<Longrightarrow> subset a b \<Longrightarrow> subset b c \<Longrightarrow> subset a c"
  by (auto simp: subset)

lemma inter_mono:
  "wf a \<Longrightarrow> wf b \<Longrightarrow> wf c \<Longrightarrow> subset a b \<Longrightarrow> subset (inter a c) (inter b c)"
  by (auto simp: subset slots_inter wf_inter)

lemma inter_lower: "wf a \<Longrightarrow> wf b \<Longrightarrow> subset (inter a b) a \<and> subset (inter a b) b"
  by (simp add: subset slots_inter wf_inter)

lemma empty_antimono: "wf a \<Longrightarrow> wf b \<Longrightarrow> subset a b \<Longrightarrow> is_empty b \<Longrightarrow> is_empty a"
  by (auto simp: subset is_empty)

lemma lowest_exists: "wf a \<Longrightarrow> \<not> is_empty a \<Longrightarrow> \<exists>i. lowest a = Some i \<and> i \<in> slots a"
  using lowest_None [of a] lowest_Some [of a] is_empty [of a] by (cases "lowest a") auto

lemma lowest_antimono:
  "wf a \<Longrightarrow> wf b \<Longrightarrow> subset a b \<Longrightarrow> lowest a = Some i \<Longrightarrow> lowest b = Some j \<Longrightarrow> j \<le> i"
  using lowest_Some [of a i] lowest_Some [of b j] by (auto simp: subset)

end

interpretation mask: slot_set mask_wf mask_set Mask_Intersect Mask_IsEmpty Mask_IsSubsetOf LowestSetBit
  by unfold_locales
    (simp_all add: mask_set_Intersect Mask_IsEmpty_iff Mask_IsSubsetOf_iff LowestSetBit_None LowestSetBit_Some)

section \<open>The hex spelling of a mask\<close>

lemma parse_nibble_step:
  fixes w acc :: u64
  shows "push_bit (4 * k) (push_bit 4 acc OR (drop_bit (4 * k) w AND 15)) OR take_bit (4 * k) w
       = push_bit (4 * Suc k) acc OR take_bit (4 * Suc k) w"
proof -
  have m: "(15 :: u64) = mask 4" by (simp add: mask_eq_exp_minus_1)
  show ?thesis
    unfolding m by (rule bit_word_eqI) (auto simp: bit_simps not_le algebra_simps)
qed

lemma nibble_value:
  "word_of_int (HexValue (kHexDigits ! unat (w AND 15))) = (w AND 15 :: u64)"
  "0 \<le> HexValue (kHexDigits ! unat (w AND 15 :: u64))"
proof -
  have "w AND 15 \<le> (15 :: u64)" by (rule word_and_le1)
  then have "unat (w AND 15) \<le> unat (15 :: u64)" by (simp add: word_le_nat_alt)
  then have "unat (w AND 15) < 16" by simp
  from HexValue_kHexDigits [OF this]
  show "word_of_int (HexValue (kHexDigits ! unat (w AND 15))) = (w AND 15 :: u64)"
    "0 \<le> HexValue (kHexDigits ! unat (w AND 15 :: u64))" by simp_all
qed

lemma parse_hex_word_nibbles:
  "parse_hex_word acc (map (\<lambda>n. kHexDigits ! unat (drop_bit (n * 4) w AND 15)) (rev [0 ..< k]))
     = Some (push_bit (4 * k) acc OR take_bit (4 * k) w)"
proof (induction k arbitrary: acc)
  case (Suc k)
  show ?case
    using nibble_value [of "drop_bit (k * 4) w"] parse_nibble_step [of k acc w]
    by (simp add: Let_def Suc.IH mult.commute)
qed simp

lemma parse_hex_word_hex_word [simp]: "parse_hex_word 0 (hex_word w) = Some w"
proof -
  have "take_bit 64 w = w" by (rule bit_word_eqI) (simp add: bit_simps)
  then show ?thesis using parse_hex_word_nibbles [of 0 w 16] by (simp add: hex_word_def)
qed

lemma length_hex_word [simp]: "length (hex_word w) = 16"
  by (simp add: hex_word_def)

lemma parse_hex_words_ToHex: "parse_hex_words (length m) (Mask_ToHex m) = Some m"
proof (induction m rule: rev_induct)
  case (snoc w m)
  then show ?case by (simp add: Mask_ToHex_def)
qed (simp add: Mask_ToHex_def)

lemma length_Mask_ToHex [simp]: "length (Mask_ToHex m) = 16 * length m"
  by (induction m) (simp_all add: Mask_ToHex_def)

section \<open>What the channel search promises\<close>

text \<open>
  The first-fit channel choice is exact.  For a channel of \<open>w\<close> slots,
  \<open>FirstSlotMask\<close> followed by \<open>LowestSetBit\<close> returns the least start slot from which \<open>w\<close>
  consecutive slots are free, and nothing exactly when no such start exists.
\<close>

lemma first_fit_channel:
  assumes "0 < w"
  shows "(LowestSetBit (FirstSlotMask m w) = Some s \<longleftrightarrow>
            run_available m w s \<and> (\<forall>t. run_available m w t \<longrightarrow> s \<le> t)) \<and>
         (LowestSetBit (FirstSlotMask m w) = None \<longleftrightarrow> (\<forall>t. \<not> run_available m w t))"
proof -
  let ?F = "FirstSlotMask m w"
  have slots: "t \<in> mask_set ?F \<longleftrightarrow> run_available m w t" for t
    using mask_set_FirstSlotMask [OF assms, of m] by (simp add: run_available_iff)
  have none: "LowestSetBit ?F = None \<longleftrightarrow> (\<forall>t. \<not> run_available m w t)"
    using mask.lowest_None [of ?F] slots by auto
  have "LowestSetBit ?F = Some s" if run: "run_available m w s" "\<forall>t. run_available m w t \<longrightarrow> s \<le> t"
  proof -
    obtain i where i: "LowestSetBit ?F = Some i" using run none by (cases "LowestSetBit ?F") auto
    with run slots mask.lowest_Some [of ?F i] have "i = s" by (simp add: order_antisym)
    with i show ?thesis by simp
  qed
  moreover have "run_available m w s \<and> (\<forall>t. run_available m w t \<longrightarrow> s \<le> t)" if "LowestSetBit ?F = Some s"
    using that slots mask.lowest_Some [of ?F s] by simp
  ultimately show ?thesis using none by blast
qed

text \<open>
  The hex spelling of a slot mask is exact: parsing what \<open>SlotMask::ToHex\<close> prints gives the
  mask back.
\<close>

lemma Mask_hex_round_trip:
  assumes "mask_wf m"
  shows "Mask_FromHex (Mask_ToHex m) = Inr m"
  using parse_hex_words_ToHex [of m] assms by (simp add: Mask_FromHex_def mask_wf_def)

end
