(* ===== verification/Doubles.thy ===== *)
theory Doubles
  imports Prelude
begin

text \<open>
  IEEE-754 binary64 as the runtime uses it: finite values are rationals that went through
  round-to-nearest-even with a 53-bit significand and the subnormal floor \<open>2 powi -1074\<close>;
  overflow gives an infinity; every comparison with \<open>NaN\<close> is false.  The sign of zero is not
  tracked: no comparison of the runtime observes it.

  \<open>std::pow\<close> and \<open>std::log10\<close> have no prescribed rounding, so they are parameters of the
  model (the record \<open>libm\<close>); what a theorem needs of them is a named hypothesis.
\<close>

datatype double = Fin rat | PInf | NInf | NaN

section \<open>Rounding\<close>

fun bits :: "nat \<Rightarrow> nat" where
  "bits n = (if n = 0 then 0 else Suc (bits (n div 2)))"

declare bits.simps [simp del]

definition binade :: "rat \<Rightarrow> int" where
  "binade x =
     (let (n, d) = quotient_of x; e = int (bits (nat n)) - int (bits (nat d))
      in if x < 2 powi e then e - 1 else e)"

definition ulp_exp :: "int \<Rightarrow> int" where
  "ulp_exp e = max (e - 52) (- 1074)"

definition round_half_even :: "rat \<Rightarrow> int" where
  "round_half_even y =
     (let f = \<lfloor>y\<rfloor>; r = y - of_int f
      in if r < 1 / 2 then f else if r > 1 / 2 then f + 1 else if even f then f else f + 1)"

definition round_pos :: "rat \<Rightarrow> rat" where
  "round_pos x =
     (if x = 0 then 0
      else let u = 2 powi ulp_exp (binade x) in of_int (round_half_even (x / u)) * u)"

definition double_overflow :: rat where
  "double_overflow = 2 ^ 1024"

lemma double_overflow_code [code]:
  "double_overflow =
     179769313486231590772930519078902473361797697894230657273430081157732675805500963132708477322407536021120113879871393357658789768814416622492847430639474124377767893424865485276302219601246094119453082952085005768838150682342462881473913110540827237163350510684586298239947245938479716304835356329624224137216"
  by (simp add: double_overflow_def)

definition fl :: "rat \<Rightarrow> double" where
  "fl x =
     (let r = round_pos \<bar>x\<bar>
      in if r \<ge> double_overflow then (if x < 0 then NInf else PInf)
         else Fin (if x < 0 then - r else r))"

section \<open>Arithmetic and comparison\<close>

fun dneg :: "double \<Rightarrow> double" where
  "dneg (Fin a) = Fin (- a)"
| "dneg PInf = NInf"
| "dneg NInf = PInf"
| "dneg NaN = NaN"

fun dadd :: "double \<Rightarrow> double \<Rightarrow> double" where
  "dadd (Fin a) (Fin b) = fl (a + b)"
| "dadd NaN _ = NaN"
| "dadd _ NaN = NaN"
| "dadd PInf NInf = NaN"
| "dadd NInf PInf = NaN"
| "dadd PInf _ = PInf"
| "dadd _ PInf = PInf"
| "dadd NInf _ = NInf"
| "dadd _ NInf = NInf"

definition dsub :: "double \<Rightarrow> double \<Rightarrow> double" where
  "dsub a b = dadd a (dneg b)"

definition signed_inf :: "bool \<Rightarrow> double" where
  "signed_inf neg = (if neg then NInf else PInf)"

fun dmul :: "double \<Rightarrow> double \<Rightarrow> double" where
  "dmul (Fin a) (Fin b) = fl (a * b)"
| "dmul NaN _ = NaN"
| "dmul _ NaN = NaN"
| "dmul (Fin a) PInf = (if a = 0 then NaN else signed_inf (a < 0))"
| "dmul (Fin a) NInf = (if a = 0 then NaN else signed_inf (a > 0))"
| "dmul PInf (Fin a) = (if a = 0 then NaN else signed_inf (a < 0))"
| "dmul NInf (Fin a) = (if a = 0 then NaN else signed_inf (a > 0))"
| "dmul PInf PInf = PInf"
| "dmul NInf NInf = PInf"
| "dmul PInf NInf = NInf"
| "dmul NInf PInf = NInf"

text \<open>Division by a finite non-zero constant is the only division the runtime performs.\<close>

fun ddiv_const :: "double \<Rightarrow> rat \<Rightarrow> double" where
  "ddiv_const (Fin a) k = fl (a / k)"
| "ddiv_const PInf k = signed_inf (k < 0)"
| "ddiv_const NInf k = signed_inf (k > 0)"
| "ddiv_const NaN k = NaN"

fun dless :: "double \<Rightarrow> double \<Rightarrow> bool" where
  "dless NaN _ = False"
| "dless _ NaN = False"
| "dless (Fin a) (Fin b) = (a < b)"
| "dless NInf NInf = False"
| "dless NInf _ = True"
| "dless _ NInf = False"
| "dless PInf _ = False"
| "dless _ PInf = True"

definition dle :: "double \<Rightarrow> double \<Rightarrow> bool" where
  "dle a b = (a \<noteq> NaN \<and> b \<noteq> NaN \<and> \<not> dless b a)"

definition dmax :: "double \<Rightarrow> double \<Rightarrow> double" where
  "dmax a b = (if dless a b then b else a)"

fun dabs :: "double \<Rightarrow> double" where
  "dabs (Fin a) = Fin \<bar>a\<bar>"
| "dabs NaN = NaN"
| "dabs _ = PInf"

definition isfinite :: "double \<Rightarrow> bool" where
  "isfinite d = (case d of Fin _ \<Rightarrow> True | _ \<Rightarrow> False)"

record libm =
  lm_pow :: "double \<Rightarrow> double \<Rightarrow> double"
  lm_log10 :: "double \<Rightarrow> double"

section \<open>Rounding is monotone\<close>

lemma bits_bounds: "0 < n \<Longrightarrow> 2 ^ (bits n - 1) \<le> n \<and> n < 2 ^ bits n \<and> 0 < bits n"
proof (induction n rule: bits.induct)
  case (1 n)
  show ?case
  proof (cases "n = 1")
    case True
    then show ?thesis by (simp add: bits.simps)
  next
    case False
    with 1 have IH: "2 ^ (bits (n div 2) - 1) \<le> n div 2" "n div 2 < 2 ^ bits (n div 2)"
      "0 < bits (n div 2)" by auto
    then have "2 * 2 ^ (bits (n div 2) - 1) \<le> n" "n < 2 * 2 ^ bits (n div 2)" by linarith+
    moreover have "2 * 2 ^ (bits (n div 2) - 1) = (2 :: nat) ^ bits (n div 2)"
      using IH(3) by (simp flip: power_Suc)
    moreover have "bits n = Suc (bits (n div 2))" using 1 by (subst bits.simps) simp
    ultimately show ?thesis by simp
  qed
qed

lemma powi_mono: "a \<le> b \<Longrightarrow> (2 :: rat) powi a \<le> 2 powi b"
  by (rule power_int_increasing) simp_all

lemma rat_pow_le: "2 ^ k \<le> n \<Longrightarrow> (2 :: rat) ^ k \<le> of_int n"
proof -
  assume "2 ^ k \<le> n"
  then have "(of_int (2 ^ k) :: rat) \<le> of_int n" by (simp only: of_int_le_iff)
  then show ?thesis by simp
qed

lemma rat_pow_less: "n < 2 ^ k \<Longrightarrow> of_int n < (2 :: rat) ^ k"
proof -
  assume "n < 2 ^ k"
  then have "of_int n < (of_int (2 ^ k) :: rat)" by (simp only: of_int_less_iff)
  then show ?thesis by simp
qed

lemma powi_pred: "0 < k \<Longrightarrow> (2 :: rat) ^ (k - 1) = 2 powi (int k - 1)"
  by (cases k) simp_all

lemma binade_bounds:
  assumes "0 < x"
  shows "2 powi binade x \<le> x" "x < 2 powi (binade x + 1)"
proof -
  obtain n d where q: "quotient_of x = (n, d)" by (cases "quotient_of x")
  have d: "0 < d" using quotient_of_denom_pos [OF q] .
  have x: "x = of_int n / of_int d" using quotient_of_div [OF q] .
  then have n: "0 < n" using assms d by (simp add: zero_less_divide_iff)
  let ?bn = "bits (nat n)" and ?bd = "bits (nat d)"
  have bn: "(2 :: rat) ^ (?bn - 1) \<le> of_int n" "of_int n < (2 :: rat) ^ ?bn" "0 < ?bn"
    and bd: "(2 :: rat) ^ (?bd - 1) \<le> of_int d" "of_int d < (2 :: rat) ^ ?bd" "0 < ?bd"
  proof -
    have "2 ^ (?bn - 1) \<le> n" "n < 2 ^ ?bn" "0 < ?bn" "2 ^ (?bd - 1) \<le> d" "d < 2 ^ ?bd" "0 < ?bd"
      using bits_bounds [of "nat n"] bits_bounds [of "nat d"] n d
      by (auto simp: nat_less_iff le_nat_iff)
    then show "(2 :: rat) ^ (?bn - 1) \<le> of_int n" "of_int n < (2 :: rat) ^ ?bn" "0 < ?bn"
      "(2 :: rat) ^ (?bd - 1) \<le> of_int d" "of_int d < (2 :: rat) ^ ?bd" "0 < ?bd"
      by (simp_all add: rat_pow_le rat_pow_less)
  qed
  define e where "e = int ?bn - int ?bd"
  have e: "binade x = (if x < 2 powi e then e - 1 else e)"
    by (simp add: binade_def q Let_def e_def)
  have n_lo: "(2 :: rat) powi (int ?bn - 1) \<le> of_int n" using bn by (simp only: powi_pred [symmetric])
  have d_lo: "(2 :: rat) powi (int ?bd - 1) \<le> of_int d" using bd by (simp only: powi_pred [symmetric])
  have n_hi: "of_int n < (2 :: rat) powi int ?bn" using bn by simp
  have d_hi: "of_int d < (2 :: rat) powi int ?bd" using bd by simp
  have dpos: "(0 :: rat) < of_int d" using d by simp
  have lo: "2 powi (e - 1) \<le> x"
  proof -
    have "2 powi (e - 1) * of_int d \<le> (2 :: rat) powi (e - 1) * 2 powi int ?bd"
      by (intro mult_left_mono less_imp_le [OF d_hi]) simp
    also have "\<dots> = 2 powi (e - 1 + int ?bd)" by (rule power_int_add [symmetric]) simp
    also have "e - 1 + int ?bd = int ?bn - 1" by (simp add: e_def)
    also note n_lo
    finally show ?thesis using dpos by (simp add: x pos_le_divide_eq)
  qed
  have hi: "x < 2 powi (e + 1)"
  proof -
    note n_hi
    also have "int ?bn = (e + 1) + (int ?bd - 1)" by (simp add: e_def)
    also have "(2 :: rat) powi ((e + 1) + (int ?bd - 1)) = 2 powi (e + 1) * 2 powi (int ?bd - 1)"
      by (rule power_int_add) simp
    also have "\<dots> \<le> 2 powi (e + 1) * of_int d"
      by (intro mult_left_mono d_lo) simp
    finally show ?thesis using dpos by (simp add: x pos_divide_less_eq)
  qed
  from e lo hi show "2 powi binade x \<le> x" "x < 2 powi (binade x + 1)" by (auto split: if_splits)
qed

lemma binade_mono:
  assumes "0 < x" "x \<le> y"
  shows "binade x \<le> binade y"
proof (rule ccontr)
  assume "\<not> binade x \<le> binade y"
  then have "(2 :: rat) powi (binade y + 1) \<le> 2 powi binade x" by (intro powi_mono) simp
  also have "\<dots> \<le> x" by (rule binade_bounds(1) [OF assms(1)])
  also have "x \<le> y" by (rule assms)
  also have "y < 2 powi (binade y + 1)" by (rule binade_bounds(2)) (use assms in linarith)
  finally show False by simp
qed

lemma binade_unique:
  assumes "2 powi e \<le> x" "x < 2 powi (e + 1)"
  shows "binade x = e"
proof -
  have pos: "0 < x" using assms(1) zero_less_power_int [of "2 :: rat" e] by linarith
  have "\<not> e < binade x"
    using powi_mono [of "e + 1" "binade x"] binade_bounds(1) [OF pos] assms(2) by fastforce
  moreover have "\<not> binade x < e"
    using powi_mono [of "binade x + 1" e] binade_bounds(2) [OF pos] assms(1) by fastforce
  ultimately show ?thesis by linarith
qed

lemma round_half_even_bounds: "\<lfloor>y\<rfloor> \<le> round_half_even y" "round_half_even y \<le> \<lfloor>y\<rfloor> + 1"
  by (auto simp: round_half_even_def Let_def)

lemma round_half_even_of_int [simp]: "round_half_even (of_int k) = k"
  by (simp add: round_half_even_def)

lemma round_half_even_mono:
  assumes "y \<le> z"
  shows "round_half_even y \<le> round_half_even z"
proof (cases "\<lfloor>y\<rfloor> = \<lfloor>z\<rfloor>")
  case True
  with assms show ?thesis by (auto simp: round_half_even_def Let_def)
next
  case False
  have "\<lfloor>y\<rfloor> \<le> \<lfloor>z\<rfloor>" using assms by (rule floor_mono)
  with False have "\<lfloor>y\<rfloor> + 1 \<le> \<lfloor>z\<rfloor>" by simp
  then show ?thesis using round_half_even_bounds [of y] round_half_even_bounds [of z] by linarith
qed

lemma powi_pos [simp]: "(0 :: rat) < 2 powi e"
  by simp

lemma round_pos_nonneg: "0 \<le> x \<Longrightarrow> 0 \<le> round_pos x"
proof -
  assume "0 \<le> x"
  then have "0 \<le> round_half_even (x / 2 powi ulp_exp (binade x))"
    using round_half_even_mono [of 0 "x / 2 powi ulp_exp (binade x)"] round_half_even_of_int [of 0]
    by simp
  then show ?thesis by (simp add: round_pos_def Let_def)
qed

lemma round_pos_mono:
  assumes "0 \<le> x" "x \<le> y"
  shows "round_pos x \<le> round_pos y"
proof (cases "x = 0")
  case True
  then show ?thesis using round_pos_nonneg [of y] assms by (simp add: round_pos_def)
next
  case False
  with assms have pos: "0 < x" "0 < y" by auto
  let ?mx = "ulp_exp (binade x)" and ?my = "ulp_exp (binade y)"
  let ?ux = "(2 :: rat) powi ?mx" and ?uy = "(2 :: rat) powi ?my"
  have rx: "round_pos x = of_int (round_half_even (x / ?ux)) * ?ux"
    and ry: "round_pos y = of_int (round_half_even (y / ?uy)) * ?uy"
    using pos by (simp_all add: round_pos_def Let_def)
  have le: "binade x \<le> binade y" by (rule binade_mono) (use pos assms in auto)
  show ?thesis
  proof (cases "?mx = ?my")
    case True
    have "round_half_even (x / ?ux) \<le> round_half_even (y / ?ux)"
      using assms by (intro round_half_even_mono divide_right_mono) simp_all
    then show ?thesis unfolding rx ry True by (intro mult_right_mono) simp_all
  next
    case False
    with le have my: "?my = binade y - 52" "?mx < binade y - 52" and lt: "binade x + 1 \<le> binade y"
      by (auto simp: ulp_exp_def max_def split: if_splits)
    let ?p = "(2 :: rat) powi binade y"
    define kx where "kx = (2 :: int) ^ nat (binade y - ?mx)"
    define ky where "ky = (2 :: int) ^ 52"
    have px: "?p = of_int kx * ?ux" and py: "?p = of_int ky * ?uy"
    proof -
      have "(of_int kx :: rat) = 2 powi (binade y - ?mx)" using my by (simp add: kx_def power_int_def)
      then show "?p = of_int kx * ?ux" by (simp flip: power_int_add)
      show "?p = of_int ky * ?uy" by (simp add: my(1) power_int_diff ky_def)
    qed
    have "x \<le> ?p" using binade_bounds(2) [OF pos(1)] powi_mono [OF lt] by linarith
    then have "x / ?ux \<le> of_int kx" by (simp add: px pos_divide_le_eq)
    then have "round_half_even (x / ?ux) \<le> kx" using round_half_even_mono round_half_even_of_int by metis
    then have "round_pos x \<le> ?p" unfolding rx px by (intro mult_right_mono) simp_all
    moreover have "of_int ky \<le> y / ?uy"
      using binade_bounds(1) [OF pos(2)] py by (simp add: pos_le_divide_eq)
    then have "ky \<le> round_half_even (y / ?uy)" using round_half_even_mono round_half_even_of_int by metis
    then have "?p \<le> round_pos y" unfolding ry py by (intro mult_right_mono) simp_all
    ultimately show ?thesis by linarith
  qed
qed

section \<open>Order facts\<close>

definition dnonneg :: "double \<Rightarrow> bool" where
  "dnonneg d = dle (Fin 0) d"

lemma dle_simps [simp]:
  "dle (Fin a) (Fin b) = (a \<le> b)" "dle d NaN = False" "dle NaN d = False"
  "dle (Fin a) PInf" "dle PInf PInf" "dle NInf PInf" "dle NInf (Fin a)" "dle NInf NInf"
  "\<not> dle PInf (Fin a)" "\<not> dle PInf NInf" "\<not> dle (Fin a) NInf"
  by (auto simp: dle_def)

lemma dle_PInf [simp]: "dle d PInf = (d \<noteq> NaN)"
  by (cases d) simp_all

lemma dle_NInf [simp]: "dle NInf d = (d \<noteq> NaN)"
  by (cases d) simp_all

lemma fl_not_NaN [simp]: "fl x \<noteq> NaN"
  by (simp add: fl_def Let_def)

lemma dle_refl [simp]: "dle a a = (a \<noteq> NaN)"
  by (cases a) simp_all

lemma dle_trans: "dle a b \<Longrightarrow> dle b c \<Longrightarrow> dle a c"
  by (cases a; cases b; cases c) simp_all

lemma not_dless: "a \<noteq> NaN \<Longrightarrow> b \<noteq> NaN \<Longrightarrow> \<not> dless b a \<longleftrightarrow> dle a b"
  by (simp add: dle_def)

lemma dless_dle_trans: "dless k a \<Longrightarrow> dle a b \<Longrightarrow> dless k b"
  by (cases k; cases a; cases b) simp_all

lemma dle_dless_trans: "dle a b \<Longrightarrow> dless b k \<Longrightarrow> dless a k"
  by (cases k; cases a; cases b) simp_all

lemma dnonneg_not_NaN [simp]: "dnonneg d \<Longrightarrow> d \<noteq> NaN"
  by (auto simp: dnonneg_def)

lemma dnonneg_Fin [simp]: "dnonneg (Fin a) = (0 \<le> a)"
  by (simp add: dnonneg_def)

lemma dnonneg_cases:
  assumes "dnonneg d"
  obtains a where "d = Fin a" "0 \<le> a" | "d = PInf"
  using assms by (cases d) (auto simp: dnonneg_def)

lemma fl_mono_nonneg: "0 \<le> x \<Longrightarrow> x \<le> y \<Longrightarrow> dle (fl x) (fl y)"
  using round_pos_mono [of x y] by (auto simp: fl_def Let_def)

lemma fl_neg: "x < 0 \<Longrightarrow> fl x = dneg (fl (- x))"
  by (simp add: fl_def Let_def)

lemma dneg_antimono: "dle a b \<Longrightarrow> dle (dneg b) (dneg a)"
  by (cases a; cases b) simp_all

lemma fl_nonneg: "0 \<le> x \<Longrightarrow> dnonneg (fl x)"
  using round_pos_nonneg [of x] by (simp add: fl_def Let_def dnonneg_def)

lemma fl_mono:
  assumes "x \<le> y"
  shows "dle (fl x) (fl y)"
proof (cases "0 \<le> x")
  case True
  then show ?thesis using assms by (rule fl_mono_nonneg)
next
  case neg: False
  show ?thesis
  proof (cases "0 \<le> y")
    case True
    have "dle (dneg (fl (- x))) (Fin 0)"
      using dneg_antimono [of "Fin 0" "fl (- x)"] fl_nonneg [of "- x"] neg by (simp add: dnonneg_def)
    moreover have "dle (Fin 0) (fl y)" using fl_nonneg [OF True] by (simp add: dnonneg_def)
    ultimately show ?thesis using neg by (simp add: fl_neg dle_trans [of _ "Fin 0"])
  next
    case False
    with neg assms have "dle (fl (- y)) (fl (- x))" by (intro fl_mono_nonneg) auto
    then show ?thesis using neg False by (simp add: fl_neg dneg_antimono)
  qed
qed

lemma dadd_Fin_mono: "dle a b \<Longrightarrow> dle (dadd a (Fin c)) (dadd b (Fin c))"
  by (cases a; cases b) (simp_all add: fl_mono)

lemma dadd_mono_nonneg: "dnonneg c \<Longrightarrow> dnonneg a \<Longrightarrow> dle a b \<Longrightarrow> dle (dadd a c) (dadd b c)"
  by (cases c; cases a; cases b) (simp_all add: dnonneg_def fl_mono)

lemma dadd_nonneg: "dnonneg a \<Longrightarrow> dnonneg b \<Longrightarrow> dnonneg (dadd a b)"
  by (cases a; cases b) (auto simp: dnonneg_def fl_nonneg [unfolded dnonneg_def])

lemma dmul_neg10_antimono: "dle a b \<Longrightarrow> dle (dmul (Fin (- 10)) b) (dmul (Fin (- 10)) a)"
  by (cases a; cases b) (simp_all add: fl_mono signed_inf_def)

end
