(* ===== verification/Evidence.thy ===== *)
theory Evidence
  imports Spectrum Doubles
begin

text \<open>
  Tri-state evidence and the record types of a topology snapshot
  (\<open>include/opp/evidence.hpp\<close>, \<open>src/evidence.cpp\<close>, the records of
  \<open>include/opp/topology.hpp\<close>).
\<close>

section \<open>Evidence\<close>

datatype 'a Evidence = Known 'a | Unknown | Conflicting

datatype Knowledge = KKnown | KUnknown | KConflicting

fun state :: "'a Evidence \<Rightarrow> Knowledge" where
  "state (Known _) = KKnown"
| "state Unknown = KUnknown"
| "state Conflicting = KConflicting"

fun KnowledgeName :: "Knowledge \<Rightarrow> string" where
  "KnowledgeName KKnown = ''known''"
| "KnowledgeName KUnknown = ''unknown''"
| "KnowledgeName KConflicting = ''conflicting''"

fun HasValue :: "'a Evidence \<Rightarrow> bool" where
  "HasValue (Known _) = True"
| "HasValue _ = False"

fun ValueOr :: "'a Evidence \<Rightarrow> 'a \<Rightarrow> 'a" where
  "ValueOr (Known v) fallback = v"
| "ValueOr _ fallback = fallback"

datatype AdminState = Up | Down | Maintenance

fun AdminStateName :: "AdminState \<Rightarrow> string" where
  "AdminStateName Up = ''up''"
| "AdminStateName Down = ''down''"
| "AdminStateName Maintenance = ''maintenance''"

definition ParseAdminState :: "string \<Rightarrow> AdminState option" where
  "ParseAdminState text =
     (if text = ''up'' then Some Up else if text = ''down'' then Some Down
      else if text = ''maintenance'' then Some Maintenance else None)"

datatype Coverage = Complete | Partial

fun CoverageName :: "Coverage \<Rightarrow> string" where
  "CoverageName Complete = ''complete''"
| "CoverageName Partial = ''partial''"

record SourceRecord =
  src_id :: SourceId
  src_generation :: Generation
  src_coverage :: Coverage
  src_description :: string

section \<open>Topology records\<close>

datatype NodeKind = Terminal | ReconfigurableOadm | OpticalCrossConnect | Amplifier | Regenerator

fun NodeKindName :: "NodeKind \<Rightarrow> string" where
  "NodeKindName Terminal = ''terminal''"
| "NodeKindName ReconfigurableOadm = ''roadm''"
| "NodeKindName OpticalCrossConnect = ''oxc''"
| "NodeKindName Amplifier = ''amplifier''"
| "NodeKindName Regenerator = ''regenerator''"

definition ParseNodeKind :: "string \<Rightarrow> NodeKind option" where
  "ParseNodeKind = map_of [(''terminal'', Terminal), (''roadm'', ReconfigurableOadm),
     (''oxc'', OpticalCrossConnect), (''amplifier'', Amplifier), (''regenerator'', Regenerator)]"

datatype PortRole = RoleClient | RoleLine | RoleAdd | RoleDrop | RoleExpress | RoleMonitor

fun PortRoleName :: "PortRole \<Rightarrow> string" where
  "PortRoleName RoleClient = ''client''"
| "PortRoleName RoleLine = ''line''"
| "PortRoleName RoleAdd = ''add''"
| "PortRoleName RoleDrop = ''drop''"
| "PortRoleName RoleExpress = ''express''"
| "PortRoleName RoleMonitor = ''monitor''"

definition ParsePortRole :: "string \<Rightarrow> PortRole option" where
  "ParsePortRole = map_of [(''client'', RoleClient), (''line'', RoleLine), (''add'', RoleAdd),
     (''drop'', RoleDrop), (''express'', RoleExpress), (''monitor'', RoleMonitor)]"

datatype CrossConnectOp = Express | Convert | Regenerate

fun CrossConnectOpName :: "CrossConnectOp \<Rightarrow> string" where
  "CrossConnectOpName Express = ''express''"
| "CrossConnectOpName Convert = ''convert''"
| "CrossConnectOpName Regenerate = ''regenerate''"

definition ParseCrossConnectOp :: "string \<Rightarrow> CrossConnectOp option" where
  "ParseCrossConnectOp text =
     (if text = ''express'' then Some Express else if text = ''convert'' then Some Convert
      else if text = ''regenerate'' then Some Regenerate else None)"

record NodeRecord =
  nd_id :: NodeId
  nd_kind :: NodeKind
  nd_failure_domains :: "FailureDomainId list"
  nd_transit_cost :: u64
  nd_coverage :: Coverage
  nd_admin :: "AdminState Evidence"
  nd_source :: SourceId
  nd_generation :: Generation

record PortRecord =
  pt_key :: PortKey
  pt_role :: PortRole
  pt_transmit_profile :: "ProfileId option Evidence"
  pt_blocked_slots :: "SlotMask Evidence"
  pt_failure_domains :: "FailureDomainId list"
  pt_transit_cost :: u64
  pt_admin :: "AdminState Evidence"
  pt_source :: SourceId
  pt_generation :: Generation

record SpanRecord =
  sp_id :: SpanId
  sp_from :: PortKey
  sp_to :: PortKey
  sp_bidirectional :: bool
  sp_length_m :: "u64 Evidence"
  sp_loss_db :: "double Evidence"
  sp_osnr_db :: "double Evidence"
  sp_blocked_slots :: "SlotMask Evidence"
  sp_failure_domains :: "FailureDomainId list"
  sp_cost :: u64
  sp_admin :: "AdminState Evidence"
  sp_source :: SourceId
  sp_generation :: Generation

record CrossConnectRecord =
  cc_id :: CrossConnectId
  cc_from :: PortKey
  cc_to :: PortKey
  cc_op :: CrossConnectOp
  cc_blocked_slots :: "SlotMask Evidence"
  cc_failure_domains :: "FailureDomainId list"
  cc_cost :: u64
  cc_admin :: "AdminState Evidence"
  cc_source :: SourceId
  cc_generation :: Generation

record ReachProfile =
  rp_id :: ProfileId
  rp_max_distance_m :: "u64 Evidence"
  rp_max_span_count :: "nat Evidence"
  rp_max_loss_db :: "double Evidence"
  rp_min_osnr_db :: "double Evidence"
  rp_source :: SourceId
  rp_generation :: Generation

section \<open>The name tables\<close>

interpretation admin_names: name_table AdminStateName ParseAdminState
proof
  show "ParseAdminState (AdminStateName e) = Some e" for e
    by (cases e) (simp_all add: ParseAdminState_def)
  show "ParseAdminState s = Some e \<Longrightarrow> s = AdminStateName e" for s e
    by (auto simp: ParseAdminState_def split: if_splits)
qed

interpretation grid_names: name_table GridKindName ParseGridKind
proof
  show "ParseGridKind (GridKindName e) = Some e" for e
    by (cases e) (simp_all add: ParseGridKind_def)
  show "ParseGridKind s = Some e \<Longrightarrow> s = GridKindName e" for s e
    by (auto simp: ParseGridKind_def split: if_splits)
qed

interpretation node_kind_names: name_table NodeKindName ParseNodeKind
proof
  show "ParseNodeKind (NodeKindName e) = Some e" for e
    by (cases e) (simp_all add: ParseNodeKind_def)
  show "ParseNodeKind s = Some e \<Longrightarrow> s = NodeKindName e" for s e
    by (auto simp: ParseNodeKind_def split: if_splits)
qed

interpretation port_role_names: name_table PortRoleName ParsePortRole
proof
  show "ParsePortRole (PortRoleName e) = Some e" for e
    by (cases e) (simp_all add: ParsePortRole_def)
  show "ParsePortRole s = Some e \<Longrightarrow> s = PortRoleName e" for s e
    by (auto simp: ParsePortRole_def split: if_splits)
qed

interpretation op_names: name_table CrossConnectOpName ParseCrossConnectOp
proof
  show "ParseCrossConnectOp (CrossConnectOpName e) = Some e" for e
    by (cases e) (simp_all add: ParseCrossConnectOp_def)
  show "ParseCrossConnectOp s = Some e \<Longrightarrow> s = CrossConnectOpName e" for s e
    by (auto simp: ParseCrossConnectOp_def split: if_splits)
qed

lemma HasValue_iff: "HasValue e \<longleftrightarrow> (\<exists>v. e = Known v)"
  by (cases e) simp_all

end
