(* ===== verification/Topology.thy ===== *)
theory Topology
  imports Evidence
begin

text \<open>
  The snapshot builder and the sealed snapshot (\<open>include/opp/topology.hpp\<close>,
  \<open>src/topology.cpp\<close>).  \<open>SnapshotBuilder::Build\<close> is split at its comment headings: the
  source list, domain normalisation, value validation, sorting with duplicate detection, adjacency,
  and the coverage claim.  Port, sp and profile indices are \<open>nat\<close>; every table is bounded far
  below the 32-bit index type.  The content digest is computed by the text encoding of
  \<open>snapshot_io.cpp\<close> and enters \<open>Build\<close> as its argument \<open>digest\<close>.
\<close>

record SnapshotBuildOptions =
  allow_unresolved_references :: bool
  reject_self_loops :: bool

record SnapshotBuilder =
  b_id :: SnapshotId
  b_generation :: Generation
  b_spectrum :: SpectrumModel
  b_options :: SnapshotBuildOptions
  b_sources :: "SourceRecord list"
  b_nodes :: "NodeRecord list"
  b_ports :: "PortRecord list"
  b_spans :: "SpanRecord list"
  b_cross_connects :: "CrossConnectRecord list"
  b_profiles :: "ReachProfile list"
  b_built :: bool

record SpanArc =
  span_index :: nat
  reversed :: bool

datatype EvidenceFreshness = Fresh | Restored

fun EvidenceFreshnessName :: "EvidenceFreshness \<Rightarrow> string" where
  "EvidenceFreshnessName Fresh = ''fresh''"
| "EvidenceFreshnessName Restored = ''restored''"

record TopologySnapshot =
  s_id :: SnapshotId
  s_generation :: Generation
  s_spectrum :: SpectrumModel
  s_digest :: Digest256
  s_sources :: "SourceRecord list"
  s_nodes :: "NodeRecord list"
  s_ports :: "PortRecord list"
  s_spans :: "SpanRecord list"
  s_cross_connects :: "CrossConnectRecord list"
  s_profiles :: "ReachProfile list"
  s_conflicted :: "ResourceKey list"
  s_unresolved :: "ResourceKey list"
  s_coverage_complete :: bool
  s_freshness :: EvidenceFreshness
  s_restored_from_incarnation :: IncarnationId
  s_restored_from_epoch :: Epoch
  s_span_arcs :: "SpanArc list list"
  s_out_cross_connects :: "nat list list"
  s_unresolved_at_port :: "nat list"

section \<open>Adding records\<close>

text \<open>
  Every \<open>Add\<close> operation has the same three guards in the same order; on success the record is
  appended.
\<close>

definition add_guard :: "SnapshotBuilder \<Rightarrow> bool \<Rightarrow> string \<Rightarrow> nat \<Rightarrow> nat \<Rightarrow> string \<Rightarrow> Status" where
  "add_guard b unnamed unnamed_detail n bound bound_detail =
     first_failure
       [refuse_if (b_built b) Refused ''snapshot builder has already been sealed'',
        refuse_if unnamed InvalidArgument unnamed_detail,
        refuse_if (n \<ge> bound) LimitExceeded bound_detail]"

definition AddSource :: "SourceRecord \<Rightarrow> SnapshotBuilder \<Rightarrow> Status \<times> SnapshotBuilder" where
  "AddSource r b =
     (let st = add_guard b (src_id r = []) ''source id must not be empty''
                 (length (b_sources b)) kMaxSources ''snapshot declares more sources than the supported maximum''
      in if failed st then (st, b) else (OkStatus, b\<lparr>b_sources := b_sources b @ [r]\<rparr>))"

definition AddNode :: "NodeRecord \<Rightarrow> SnapshotBuilder \<Rightarrow> Status \<times> SnapshotBuilder" where
  "AddNode r b =
     (let st = add_guard b (nd_id r = []) ''node id must not be empty''
                 (length (b_nodes b)) kMaxNodes ''snapshot declares more nodes than the supported maximum''
      in if failed st then (st, b) else (OkStatus, b\<lparr>b_nodes := b_nodes b @ [r]\<rparr>))"

definition AddPort :: "PortRecord \<Rightarrow> SnapshotBuilder \<Rightarrow> Status \<times> SnapshotBuilder" where
  "AddPort r b =
     (let st = add_guard b (pk_node (pt_key r) = [] \<or> pk_port (pt_key r) = [])
                 ''port key must name both a node and a port''
                 (length (b_ports b)) kMaxPorts ''snapshot declares more ports than the supported maximum''
      in if failed st then (st, b) else (OkStatus, b\<lparr>b_ports := b_ports b @ [r]\<rparr>))"

definition AddSpan :: "SpanRecord \<Rightarrow> SnapshotBuilder \<Rightarrow> Status \<times> SnapshotBuilder" where
  "AddSpan r b =
     (let st = add_guard b (sp_id r = []) ''span id must not be empty''
                 (length (b_spans b)) kMaxSpans ''snapshot declares more spans than the supported maximum''
      in if failed st then (st, b) else (OkStatus, b\<lparr>b_spans := b_spans b @ [r]\<rparr>))"

definition AddCrossConnect :: "CrossConnectRecord \<Rightarrow> SnapshotBuilder \<Rightarrow> Status \<times> SnapshotBuilder" where
  "AddCrossConnect r b =
     (let st = add_guard b (cc_id r = []) ''cross-connect id must not be empty''
                 (length (b_cross_connects b)) kMaxCrossConnects
                 ''snapshot declares more cross-connects than the supported maximum''
      in if failed st then (st, b) else (OkStatus, b\<lparr>b_cross_connects := b_cross_connects b @ [r]\<rparr>))"

definition AddReachProfile :: "ReachProfile \<Rightarrow> SnapshotBuilder \<Rightarrow> Status \<times> SnapshotBuilder" where
  "AddReachProfile r b =
     (let st = add_guard b (rp_id r = []) ''reach profile id must not be empty''
                 (length (b_profiles b)) kMaxReachProfiles
                 ''snapshot declares more reach profiles than the supported maximum''
      in if failed st then (st, b) else (OkStatus, b\<lparr>b_profiles := b_profiles b @ [r]\<rparr>))"

section \<open>Build: validation\<close>

definition ValidateFiniteNonNegative :: "double Evidence \<Rightarrow> string \<Rightarrow> rat \<Rightarrow> Status" where
  "ValidateFiniteNonNegative value field maximum =
     (case value of
        Known raw \<Rightarrow> refuse_if (\<not> isfinite raw \<or> dless raw (Fin 0) \<or> dless (Fin maximum) raw)
          MalformedInput (field @ '' must be a finite value in [0, 1000000.000000]'')
      | _ \<Rightarrow> OkStatus)"

definition ValidateMaskWithinModel :: "SlotMask Evidence \<Rightarrow> SpectrumModel \<Rightarrow> string \<Rightarrow> Status" where
  "ValidateMaskWithinModel m model what =
     (case m of
        Known value \<Rightarrow>
          (case filter (Mask_Test value) [unat (slot_count model) ..< kMaxSpectrumSlots] of
             [] \<Rightarrow> OkStatus
           | slot # _ \<Rightarrow> Failure MalformedInput (what @ '' marks slot '' @ to_string slot @
                         '' which is outside the declared spectrum model''))
      | _ \<Rightarrow> OkStatus)"

text \<open>\<open>NormaliseDomains\<close>: sort, drop duplicates, then the per-resource bound.\<close>

definition normal_domains :: "FailureDomainId list \<Rightarrow> FailureDomainId list" where
  "normal_domains ds = sort_unique ds"

definition NormaliseDomains :: "('r \<Rightarrow> FailureDomainId list) \<Rightarrow> 'r list \<Rightarrow> string \<Rightarrow> Status" where
  "NormaliseDomains domains records what =
     refuse_if (list_ex (\<lambda>r. length (normal_domains (domains r)) > kMaxDomainsPerResource) records)
       LimitExceeded (what @ '' declares more failure domains than the supported maximum'')"

definition span_status :: "SpectrumModel \<Rightarrow> SpanRecord \<Rightarrow> Status" where
  "span_status spectrum sp =
     first_failure
       [ValidateFiniteNonNegative (sp_loss_db sp) ''span.loss_db'' 1000000,
        ValidateFiniteNonNegative (sp_osnr_db sp) ''span.osnr_db'' 1000000,
        ValidateMaskWithinModel (sp_blocked_slots sp) spectrum ''span.blocked_slots'']"

definition profile_status :: "ReachProfile \<Rightarrow> Status" where
  "profile_status profile =
     first_failure
       [ValidateFiniteNonNegative (rp_max_loss_db profile) ''profile.max_loss_db'' 1000000,
        ValidateFiniteNonNegative (rp_min_osnr_db profile) ''profile.min_osnr_db'' 1000000,
        refuse_if (rp_max_span_count profile = Known 0) MalformedInput
          ''profile.max_span_count must be at least 1 when published'']"

text \<open>The neighbour scan over the sorted source list.\<close>

fun duplicate_source_status :: "SourceRecord list \<Rightarrow> Status" where
  "duplicate_source_status (x # y # ys) =
     (if src_id y = src_id x
      then Failure ConflictingEvidence (''source '' @ [CHR 0x27] @ src_id y @ [CHR 0x27] @
             '' is declared more than once in one snapshot'')
      else duplicate_source_status (y # ys))"
| "duplicate_source_status _ = OkStatus"

definition build_status :: "SnapshotBuilder \<Rightarrow> Status" where
  "build_status b =
     first_failure
       ([SpectrumModel_Validate (b_spectrum b),
         duplicate_source_status (std_sort (\<lambda>l r. src_id l < src_id r) (b_sources b)),
         NormaliseDomains nd_failure_domains (b_nodes b) ''node'',
         NormaliseDomains pt_failure_domains (b_ports b) ''port'',
         NormaliseDomains sp_failure_domains (b_spans b) ''span'',
         NormaliseDomains cc_failure_domains (b_cross_connects b) ''cross-connect'']
        @ map (\<lambda>n. refuse_if (nd_transit_cost n > 0 \<and> nd_id n = []) Internal
                      ''cost accounting invariant violated for an unnamed node'') (b_nodes b)
        @ map (span_status (b_spectrum b)) (b_spans b)
        @ map (\<lambda>p. ValidateMaskWithinModel (pt_blocked_slots p) (b_spectrum b) ''port.blocked_slots'') (b_ports b)
        @ map (\<lambda>c. ValidateMaskWithinModel (cc_blocked_slots c) (b_spectrum b) ''crossconnect.blocked_slots'')
            (b_cross_connects b)
        @ map profile_status (b_profiles b))"

section \<open>Build: canonical order and duplicates\<close>

text \<open>
  The loop of \<open>SortAndDeduplicate\<close> after its sort: \<open>prev\<close> is the last retained record.  A
  record with the same key is dropped, and its resource is reported when the contents differ.
\<close>

fun dedup_from :: "('r \<Rightarrow> 'k) \<Rightarrow> ('r \<Rightarrow> ResourceKey) \<Rightarrow> 'r \<Rightarrow> 'r list \<Rightarrow> 'r list \<times> ResourceKey list" where
  "dedup_from key res prev [] = ([], [])"
| "dedup_from key res prev (r # rs) =
     (if key prev = key r
      then (let (u, c) = dedup_from key res prev rs in (u, if prev = r then c else res r # c))
      else (let (u, c) = dedup_from key res r rs in (r # u, c)))"

fun dedup :: "('r \<Rightarrow> 'k) \<Rightarrow> ('r \<Rightarrow> ResourceKey) \<Rightarrow> 'r list \<Rightarrow> 'r list \<times> ResourceKey list" where
  "dedup key res [] = ([], [])"
| "dedup key res (r # rs) = (let (u, c) = dedup_from key res r rs in (r # u, c))"

definition SortAndDeduplicate ::
  "('r \<Rightarrow> 'r \<Rightarrow> bool) \<Rightarrow> ('r \<Rightarrow> 'k) \<Rightarrow> ('r \<Rightarrow> ResourceKey) \<Rightarrow> 'r list \<Rightarrow> 'r list \<times> ResourceKey list" where
  "SortAndDeduplicate lt key res records = dedup key res (std_sort lt records)"

definition span_less :: "SpanRecord \<Rightarrow> SpanRecord \<Rightarrow> bool" where
  "span_less l r =
     (if sp_from l \<noteq> sp_from r then sp_from l < sp_from r
      else if sp_to l \<noteq> sp_to r then sp_to l < sp_to r
      else sp_id l < sp_id r)"

definition cross_connect_less :: "CrossConnectRecord \<Rightarrow> CrossConnectRecord \<Rightarrow> bool" where
  "cross_connect_less l r =
     (if cc_from l \<noteq> cc_from r then cc_from l < cc_from r
      else if cc_to l \<noteq> cc_to r then cc_to l < cc_to r
      else cc_id l < cc_id r)"

definition canonical_nodes :: "NodeRecord list \<Rightarrow> NodeRecord list \<times> ResourceKey list" where
  "canonical_nodes ns =
     SortAndDeduplicate (\<lambda>l r. nd_id l < nd_id r) nd_id (\<lambda>n. ForNode (nd_id n))
       (map (\<lambda>n. n\<lparr>nd_failure_domains := normal_domains (nd_failure_domains n)\<rparr>) ns)"

definition canonical_ports :: "PortRecord list \<Rightarrow> PortRecord list \<times> ResourceKey list" where
  "canonical_ports ps =
     SortAndDeduplicate (\<lambda>l r. pt_key l < pt_key r) pt_key (\<lambda>p. ForPort (pt_key p))
       (map (\<lambda>p. p\<lparr>pt_failure_domains := normal_domains (pt_failure_domains p)\<rparr>) ps)"

definition canonical_spans :: "SpanRecord list \<Rightarrow> SpanRecord list \<times> ResourceKey list" where
  "canonical_spans ss =
     SortAndDeduplicate span_less sp_id (\<lambda>s. ForSpan (sp_id s))
       (map (\<lambda>s. s\<lparr>sp_failure_domains := normal_domains (sp_failure_domains s)\<rparr>) ss)"

definition canonical_cross_connects :: "CrossConnectRecord list \<Rightarrow> CrossConnectRecord list \<times> ResourceKey list" where
  "canonical_cross_connects cs =
     SortAndDeduplicate cross_connect_less cc_id (\<lambda>c. ForCrossConnect (cc_id c))
       (map (\<lambda>c. c\<lparr>cc_failure_domains := normal_domains (cc_failure_domains c)\<rparr>) cs)"

definition canonical_profiles :: "ReachProfile list \<Rightarrow> ReachProfile list \<times> ResourceKey list" where
  "canonical_profiles rs =
     SortAndDeduplicate (\<lambda>l r. rp_id l < rp_id r) rp_id (\<lambda>r. ForReachProfile (rp_id r)) rs"

section \<open>Build: adjacency\<close>

record Adjacency =
  a_span_arcs :: "SpanArc list list"
  a_cross_connects :: "nat list list"
  a_unresolved :: "ResourceKey list"
  a_at_port :: "nat list"

definition note_unresolved :: "PortKey \<Rightarrow> nat option \<Rightarrow> Adjacency \<Rightarrow> Adjacency" where
  "note_unresolved key here a =
     (let a' = a\<lparr>a_unresolved := a_unresolved a @ [ForPort key]\<rparr>
      in case here of
           Some i \<Rightarrow> a'\<lparr>a_at_port := (a_at_port a')[i := a_at_port a' ! i + 1]\<rparr>
         | None \<Rightarrow> a')"

text \<open>Ports whose node has no record.\<close>

definition note_port_node :: "NodeRecord list \<Rightarrow> PortRecord list \<Rightarrow> nat \<Rightarrow> Adjacency \<Rightarrow> Adjacency" where
  "note_port_node nodes ports i a =
     (case lookup_index nd_id nodes (pk_node (pt_key (ports ! i))) of
        Some _ \<Rightarrow> a
      | None \<Rightarrow> a\<lparr>a_unresolved := a_unresolved a @ [ForNode (pk_node (pt_key (ports ! i)))],
                  a_at_port := (a_at_port a)[i := a_at_port a ! i + 1]\<rparr>)"

definition note_endpoints :: "PortRecord list \<Rightarrow> PortKey \<Rightarrow> PortKey \<Rightarrow> Adjacency \<Rightarrow> Adjacency" where
  "note_endpoints ports from to a =
     (let from_index = lookup_index pt_key ports from; to_index = lookup_index pt_key ports to;
          a1 = (if from_index = None then note_unresolved from to_index a else a)
      in if to_index = None then note_unresolved to from_index a1 else a1)"

definition push_at :: "nat \<Rightarrow> 'a \<Rightarrow> 'a list list \<Rightarrow> 'a list list" where
  "push_at i x xss = xss[i := xss ! i @ [x]]"

definition add_span_arcs :: "PortRecord list \<Rightarrow> SpanRecord list \<Rightarrow> nat \<Rightarrow> Adjacency \<Rightarrow> Adjacency" where
  "add_span_arcs ports spans i a =
     (let sp = spans ! i; a1 = note_endpoints ports (sp_from sp) (sp_to sp) a
      in case (lookup_index pt_key ports (sp_from sp), lookup_index pt_key ports (sp_to sp)) of
           (Some f, Some t) \<Rightarrow>
             let a2 = a1\<lparr>a_span_arcs := push_at f \<lparr>span_index = i, reversed = False\<rparr> (a_span_arcs a1)\<rparr>
             in if sp_bidirectional sp
                then a2\<lparr>a_span_arcs := push_at t \<lparr>span_index = i, reversed = True\<rparr> (a_span_arcs a2)\<rparr>
                else a2
         | _ \<Rightarrow> a1)"

definition add_cross_connect :: "PortRecord list \<Rightarrow> CrossConnectRecord list \<Rightarrow> nat \<Rightarrow> Adjacency \<Rightarrow> Adjacency" where
  "add_cross_connect ports ccs i a =
     (let cc = ccs ! i; a1 = note_endpoints ports (cc_from cc) (cc_to cc) a
      in case (lookup_index pt_key ports (cc_from cc), lookup_index pt_key ports (cc_to cc)) of
           (Some f, Some t) \<Rightarrow> a1\<lparr>a_cross_connects := push_at f i (a_cross_connects a1)\<rparr>
         | _ \<Rightarrow> a1)"

definition span_arc_less :: "SpanRecord list \<Rightarrow> SpanArc \<Rightarrow> SpanArc \<Rightarrow> bool" where
  "span_arc_less spans l r =
     (if span_index l \<noteq> span_index r then sp_id (spans ! span_index l) < sp_id (spans ! span_index r)
      else \<not> reversed l \<and> reversed r)"

definition build_adjacency ::
  "NodeRecord list \<Rightarrow> PortRecord list \<Rightarrow> SpanRecord list \<Rightarrow> CrossConnectRecord list \<Rightarrow> Adjacency" where
  "build_adjacency nodes ports spans ccs =
     (let n = length ports;
          a0 = \<lparr>a_span_arcs = replicate n [], a_cross_connects = replicate n [],
                a_unresolved = [], a_at_port = replicate n 0\<rparr>;
          a1 = fold (note_port_node nodes ports) [0 ..< n] a0;
          a2 = fold (add_span_arcs ports spans) [0 ..< length spans] a1
      in fold (add_cross_connect ports ccs) [0 ..< length ccs] a2)"

definition self_loop_status ::
  "SnapshotBuildOptions \<Rightarrow> SpanRecord list \<Rightarrow> CrossConnectRecord list \<Rightarrow> Status" where
  "self_loop_status options spans ccs =
     first_failure
       (map (\<lambda>s. refuse_if (reject_self_loops options \<and> sp_from s = sp_to s) MalformedInput
                    (''span '' @ [CHR 0x27] @ sp_id s @ [CHR 0x27] @ '' starts and ends on the same port'')) spans
        @ map (\<lambda>c. refuse_if (reject_self_loops options \<and> cc_from c = cc_to c) MalformedInput
                    (''cross-connect '' @ [CHR 0x27] @ cc_id c @ [CHR 0x27] @ '' starts and ends on the same port'')) ccs)"

definition coverage_claim ::
  "ResourceKey list \<Rightarrow> ResourceKey list \<Rightarrow> SourceRecord list \<Rightarrow> NodeRecord list \<Rightarrow> bool" where
  "coverage_claim unresolved conflicted sources nodes =
     (unresolved = [] \<and> conflicted = [] \<and>
      list_all (\<lambda>s. src_coverage s = Complete) sources \<and>
      list_all (\<lambda>n. nd_coverage n = Complete) nodes)"

section \<open>Build\<close>

definition assemble :: "SnapshotBuilder \<Rightarrow> TopologySnapshot expected" where
  "assemble b =
     (let sources = std_sort (\<lambda>l r. src_id l < src_id r) (b_sources b);
          (nodes, c1) = canonical_nodes (b_nodes b);
          (ports, c2) = canonical_ports (b_ports b);
          (spans, c3) = canonical_spans (b_spans b);
          (ccs, c4) = canonical_cross_connects (b_cross_connects b);
          (profiles, c5) = canonical_profiles (b_profiles b);
          conflicted = sort_unique (c1 @ c2 @ c3 @ c4 @ c5);
          adj = build_adjacency nodes ports spans ccs;
          loops = self_loop_status (b_options b) spans ccs
      in if failed loops then Inl loops
         else if \<not> allow_unresolved_references (b_options b) \<and> a_unresolved adj \<noteq> []
         then Inl (Failure NotFound (''snapshot references a resource with no record: '' @
                                     ResourceKeyToString (hd (a_unresolved adj))))
         else let unresolved = sort_unique (a_unresolved adj)
              in Inr \<lparr>s_id = b_id b, s_generation = b_generation b, s_spectrum = b_spectrum b,
                      s_digest = [], s_sources = sources, s_nodes = nodes, s_ports = ports,
                      s_spans = spans, s_cross_connects = ccs, s_profiles = profiles,
                      s_conflicted = conflicted, s_unresolved = unresolved,
                      s_coverage_complete = coverage_claim unresolved conflicted sources nodes,
                      s_freshness = Fresh, s_restored_from_incarnation = replicate 16 0,
                      s_restored_from_epoch = 0,
                      s_span_arcs = map (std_sort (span_arc_less spans)) (a_span_arcs adj),
                      s_out_cross_connects =
                        map (std_sort (\<lambda>l r. cc_id (ccs ! l) < cc_id (ccs ! r))) (a_cross_connects adj),
                      s_unresolved_at_port = a_at_port adj\<rparr>)"

text \<open>
  The builder is sealed by the first call, whatever it returns.  The records are moved into the
  snapshot before the adjacency is built, so they are gone from the builder also when that part
  fails.  A failure of the earlier checks leaves them in the builder, where the code has by then put
  some of them in order; no operation of a sealed builder reads them again.
\<close>

definition Build ::
  "(TopologySnapshot \<Rightarrow> Digest256) \<Rightarrow> SnapshotBuilder \<Rightarrow> TopologySnapshot expected \<times> SnapshotBuilder" where
  "Build digest b =
     (if b_built b then (Inl (Failure Refused ''snapshot builder has already been sealed''), b)
      else let sealed = b\<lparr>b_built := True\<rparr>;
               emptied = sealed\<lparr>b_sources := [], b_nodes := [], b_ports := [], b_spans := [],
                                b_cross_connects := [], b_profiles := []\<rparr>
           in if failed (build_status b) then (Inl (build_status b), sealed)
              else case assemble b of
                     Inl st \<Rightarrow> (Inl st, emptied)
                   | Inr s \<Rightarrow> (Inr (s\<lparr>s_digest := digest s\<rparr>), emptied))"

section \<open>Queries of a sealed snapshot\<close>

definition FindNode :: "TopologySnapshot \<Rightarrow> NodeId \<Rightarrow> NodeRecord option" where
  "FindNode s i = lookup_record nd_id (s_nodes s) i"

definition NodeIndex :: "TopologySnapshot \<Rightarrow> NodeId \<Rightarrow> nat option" where
  "NodeIndex s i = lookup_index nd_id (s_nodes s) i"

definition PortIndex :: "TopologySnapshot \<Rightarrow> PortKey \<Rightarrow> nat option" where
  "PortIndex s k = lookup_index pt_key (s_ports s) k"

definition FindPort :: "TopologySnapshot \<Rightarrow> PortKey \<Rightarrow> PortRecord option" where
  "FindPort s k = (case PortIndex s k of None \<Rightarrow> None | Some i \<Rightarrow> Some (s_ports s ! i))"

definition ProfileIndex :: "TopologySnapshot \<Rightarrow> ProfileId \<Rightarrow> nat option" where
  "ProfileIndex s i = lookup_index rp_id (s_profiles s) i"

definition FindReachProfile :: "TopologySnapshot \<Rightarrow> ProfileId \<Rightarrow> ReachProfile option" where
  "FindReachProfile s i = lookup_record rp_id (s_profiles s) i"

definition OutgoingSpanArcs :: "TopologySnapshot \<Rightarrow> nat \<Rightarrow> SpanArc list" where
  "OutgoingSpanArcs s p = (if p \<ge> length (s_span_arcs s) then [] else s_span_arcs s ! p)"

definition OutgoingCrossConnects :: "TopologySnapshot \<Rightarrow> nat \<Rightarrow> nat list" where
  "OutgoingCrossConnects s p = (if p \<ge> length (s_out_cross_connects s) then [] else s_out_cross_connects s ! p)"

definition HasSource :: "TopologySnapshot \<Rightarrow> SourceId \<Rightarrow> bool" where
  "HasSource s i = (lookup_index src_id (s_sources s) i \<noteq> None)"

definition SourceGeneration :: "TopologySnapshot \<Rightarrow> SourceId \<Rightarrow> Generation" where
  "SourceGeneration s i =
     (case lookup_record src_id (s_sources s) i of None \<Rightarrow> 0 | Some r \<Rightarrow> src_generation r)"

definition IsConflicted :: "TopologySnapshot \<Rightarrow> ResourceKey \<Rightarrow> bool" where
  "IsConflicted s k = binary_search (s_conflicted s) k"

definition HasUnresolvedArcs :: "TopologySnapshot \<Rightarrow> nat \<Rightarrow> bool" where
  "HasUnresolvedArcs s p = (p < length (s_unresolved_at_port s) \<and> s_unresolved_at_port s ! p \<noteq> 0)"

definition ArcCount :: "TopologySnapshot \<Rightarrow> nat" where
  "ArcCount s = sum_list (map length (s_span_arcs s)) + sum_list (map length (s_out_cross_connects s))"

definition MarkRestored :: "IncarnationId \<Rightarrow> Epoch \<Rightarrow> TopologySnapshot \<Rightarrow> TopologySnapshot" where
  "MarkRestored producer epoch s =
     s\<lparr>s_freshness := Restored, s_restored_from_incarnation := producer, s_restored_from_epoch := epoch\<rparr>"

end
