(* ===== verification/Topology_Props.thy ===== *)
theory Topology_Props
  imports Topology
begin

text \<open>
  What a sealed snapshot promises: strictly sorted lookup tables, adjacency lists that name exactly
  the arcs whose endpoints resolve, and a coverage claim that excludes every conflicting or
  unresolved record.
\<close>

section \<open>Duplicate elimination\<close>

lemma dedup_from_set:
  "dedup_from key res prev rs = (u, c) \<Longrightarrow> set u \<subseteq> set rs \<and> key ` set (prev # u) = key ` set (prev # rs)"
proof (induction rs arbitrary: prev u c)
  case (Cons r rs)
  show ?case
  proof (cases "key prev = key r")
    case True
    obtain u' c' where rec: "dedup_from key res prev rs = (u', c')" by fastforce
    with True Cons.prems have "u = u'" by simp
    with Cons.IH [OF rec] True show ?thesis by auto
  next
    case False
    obtain u' c' where rec: "dedup_from key res r rs = (u', c')" by fastforce
    with False Cons.prems have "u = r # u'" by simp
    with Cons.IH [OF rec] show ?thesis by auto
  qed
qed simp

lemma dedup_from_sorted:
  assumes "sorted (map key (prev # rs))" "dedup_from key res prev rs = (u, c)"
  shows "sorted (map key (prev # u)) \<and> distinct (map key (prev # u))"
  using assms
proof (induction rs arbitrary: prev u c)
  case (Cons r rs)
  show ?case
  proof (cases "key prev = key r")
    case True
    obtain u' c' where rec: "dedup_from key res prev rs = (u', c')" by fastforce
    with True Cons.prems have "u = u'" by simp
    with Cons.IH [OF _ rec] Cons.prems show ?thesis by simp
  next
    case False
    obtain u' c' where rec: "dedup_from key res r rs = (u', c')" by fastforce
    with False Cons.prems have u: "u = r # u'" by simp
    from Cons.prems have "sorted (map key (r # rs))" by simp
    note IH = Cons.IH [OF this rec]
    have "key prev < key r" using Cons.prems(1) False by (simp add: order_less_le)
    moreover have "\<forall>x \<in> set u'. key r \<le> key x" using IH by simp
    ultimately show ?thesis using IH u by (auto dest: order.strict_trans2)
  qed
qed simp

lemma dedup_from_conflicts:
  assumes "sorted (map key (prev # rs))" "dedup_from key res prev rs = (u, c)"
    and "x \<in> set (prev # rs)" "y \<in> set (prev # rs)" "x \<noteq> y" "key x = key y"
  shows "\<exists>z \<in> set rs. key z = key x \<and> res z \<in> set c"
  using assms
proof (induction rs arbitrary: prev u c x y)
  case (Cons r rs)
  show ?case
  proof (cases "key prev = key r")
    case True
    obtain u' c' where rec: "dedup_from key res prev rs = (u', c')" by fastforce
    with True Cons.prems have c: "c = (if prev = r then c' else res r # c')" by auto
    have sorted: "sorted (map key (prev # rs))" using Cons.prems by simp
    show ?thesis
    proof (cases "prev = r")
      case True
      with Cons.prems have "x \<in> set (prev # rs)" "y \<in> set (prev # rs)" by auto
      from Cons.IH [OF sorted rec this Cons.prems(5,6)] c True show ?thesis by auto
    next
      case False
      show ?thesis
      proof (cases "key x = key r")
        case True
        with False c show ?thesis by auto
      next
        case False
        with \<open>key prev = key r\<close> Cons.prems have "x \<in> set (prev # rs)" "y \<in> set (prev # rs)" by auto
        from Cons.IH [OF sorted rec this Cons.prems(5,6)] c show ?thesis by auto
      qed
    qed
  next
    case False
    obtain u' c' where rec: "dedup_from key res r rs = (u', c')" by fastforce
    with False Cons.prems have c: "c = c'" by simp
    have sorted: "sorted (map key (r # rs))" using Cons.prems by simp
    have "key prev < key r" using Cons.prems(1) False by (simp add: order_less_le)
    then have "key z \<noteq> key prev" if "z \<in> set (r # rs)" for z
      using Cons.prems(1) that by fastforce
    with Cons.prems(3-6) have "x \<in> set (r # rs)" "y \<in> set (r # rs)" by (metis set_ConsD)+
    from Cons.IH [OF sorted rec this Cons.prems(5,6)] c show ?thesis by auto
  qed
qed auto

lemma dedup_set: "dedup key res rs = (u, c) \<Longrightarrow> set u \<subseteq> set rs \<and> key ` set u = key ` set rs"
proof (cases rs)
  case (Cons r rs')
  assume d: "dedup key res rs = (u, c)"
  obtain u' c' where rec: "dedup_from key res r rs' = (u', c')" by fastforce
  with d Cons have "u = r # u'" by simp
  with dedup_from_set [OF rec] Cons show ?thesis by auto
qed simp

lemma dedup_sorted:
  "sorted (map key rs) \<Longrightarrow> dedup key res rs = (u, c) \<Longrightarrow> sorted (map key u) \<and> distinct (map key u)"
proof (cases rs)
  case (Cons r rs')
  assume s: "sorted (map key rs)" and d: "dedup key res rs = (u, c)"
  obtain u' c' where rec: "dedup_from key res r rs' = (u', c')" by fastforce
  with d Cons have "u = r # u'" by simp
  with dedup_from_sorted [OF _ rec] s Cons show ?thesis by simp
qed simp

lemma dedup_conflicts:
  assumes "sorted (map key rs)" "dedup key res rs = (u, c)" "x \<in> set rs" "y \<in> set rs"
    "x \<noteq> y" "key x = key y"
  shows "\<exists>z \<in> set rs. key z = key x \<and> res z \<in> set c"
proof (cases rs)
  case (Cons r rs')
  obtain u' c' where rec: "dedup_from key res r rs' = (u', c')" by fastforce
  with assms Cons have "c = c'" by simp
  with dedup_from_conflicts [OF _ rec, of x y] assms Cons show ?thesis by auto
qed (use assms in auto)

text \<open>The tables keyed by the sort key: nodes, ports and reach profiles.\<close>

lemma SortAndDeduplicate_table:
  fixes key :: "'r \<Rightarrow> 'k::linorder"
  assumes "SortAndDeduplicate (\<lambda>l r. key l < key r) key res rs = (u, c)"
  shows "keyed_table key u" "set u \<subseteq> set rs" "key ` set u = key ` set rs"
proof -
  let ?s = "std_sort (\<lambda>l r. key l < key r) rs"
  have d: "dedup key res ?s = (u, c)" using assms by (simp add: SortAndDeduplicate_def)
  show "keyed_table key u"
    using dedup_sorted [OF sorted_key_std_sort d] by (simp add: keyed_table_def)
  show "set u \<subseteq> set rs" "key ` set u = key ` set rs" using dedup_set [OF d] by auto
qed

lemma SortAndDeduplicate_conflicts:
  fixes key :: "'r \<Rightarrow> 'k::linorder"
  assumes "SortAndDeduplicate (\<lambda>l r. key l < key r) key res rs = (u, c)"
    and "x \<in> set rs" "y \<in> set rs" "x \<noteq> y" "key x = key y" "\<And>z. res z = f (key z)"
  shows "f (key x) \<in> set c"
proof -
  have "dedup key res (std_sort (\<lambda>l r. key l < key r) rs) = (u, c)"
    using assms by (simp add: SortAndDeduplicate_def)
  from dedup_conflicts [OF sorted_key_std_sort this, of x y] assms
  obtain z where "key z = key x" "res z \<in> set c" by auto
  with assms(6) [of z] show ?thesis by simp
qed

section \<open>Adjacency\<close>

definition span_tail :: "SpanRecord list \<Rightarrow> SpanArc \<Rightarrow> PortKey" where
  "span_tail spans a = (if reversed a then sp_to (spans ! span_index a) else sp_from (spans ! span_index a))"

definition span_head :: "SpanRecord list \<Rightarrow> SpanArc \<Rightarrow> PortKey" where
  "span_head spans a = (if reversed a then sp_from (spans ! span_index a) else sp_to (spans ! span_index a))"

definition resolves :: "PortRecord list \<Rightarrow> PortKey \<Rightarrow> bool" where
  "resolves ports k = (lookup_index pt_key ports k \<noteq> None)"

text \<open>An arc listed at a port leaves that port and arrives at a port with a record.\<close>

definition span_arc_ok :: "PortRecord list \<Rightarrow> SpanRecord list \<Rightarrow> nat \<Rightarrow> nat \<Rightarrow> SpanArc \<Rightarrow> bool" where
  "span_arc_ok ports spans n p a =
     (span_index a < n \<and> lookup_index pt_key ports (span_tail spans a) = Some p \<and>
      resolves ports (span_head spans a) \<and>
      (reversed a \<longrightarrow> sp_bidirectional (spans ! span_index a)))"

definition cc_arc_ok :: "PortRecord list \<Rightarrow> CrossConnectRecord list \<Rightarrow> nat \<Rightarrow> nat \<Rightarrow> nat \<Rightarrow> bool" where
  "cc_arc_ok ports ccs n p c =
     (c < n \<and> lookup_index pt_key ports (cc_from (ccs ! c)) = Some p \<and> resolves ports (cc_to (ccs ! c)))"

definition lists_ok :: "nat \<Rightarrow> (nat \<Rightarrow> 'a \<Rightarrow> bool) \<Rightarrow> 'a list list \<Rightarrow> bool" where
  "lists_ok n ok xss = (length xss = n \<and> (\<forall>p < n. \<forall>a \<in> set (xss ! p). ok p a))"

lemma lists_ok_mono: "lists_ok n ok xss \<Longrightarrow> (\<And>p a. ok p a \<Longrightarrow> ok' p a) \<Longrightarrow> lists_ok n ok' xss"
  by (simp add: lists_ok_def)

lemma lists_ok_push:
  "lists_ok n ok xss \<Longrightarrow> i < n \<Longrightarrow> ok i x \<Longrightarrow> lists_ok n ok (push_at i x xss)"
  by (auto simp: lists_ok_def push_at_def nth_list_update)

lemma lists_ok_sort: "lists_ok n ok xss \<Longrightarrow> lists_ok n ok (map (std_sort lt) xss)"
  by (simp add: lists_ok_def)

lemma note_unresolved_frame [simp]:
  "a_span_arcs (note_unresolved k i a) = a_span_arcs a"
  "a_cross_connects (note_unresolved k i a) = a_cross_connects a"
  "length (a_at_port (note_unresolved k i a)) = length (a_at_port a)"
  "a_unresolved (note_unresolved k i a) = a_unresolved a @ [ForPort k]"
  by (simp_all add: note_unresolved_def Let_def split: option.split)

lemma note_endpoints_frame [simp]:
  "a_span_arcs (note_endpoints ports f t a) = a_span_arcs a"
  "a_cross_connects (note_endpoints ports f t a) = a_cross_connects a"
  "length (a_at_port (note_endpoints ports f t a)) = length (a_at_port a)"
  "a_unresolved (note_endpoints ports f t a) = [] \<longleftrightarrow> a_unresolved a = [] \<and> resolves ports f \<and> resolves ports t"
  by (simp_all add: note_endpoints_def Let_def resolves_def)

lemma note_port_node_frame [simp]:
  "a_span_arcs (note_port_node nodes ports i a) = a_span_arcs a"
  "a_cross_connects (note_port_node nodes ports i a) = a_cross_connects a"
  "length (a_at_port (note_port_node nodes ports i a)) = length (a_at_port a)"
  "a_unresolved (note_port_node nodes ports i a) = [] \<longleftrightarrow>
     a_unresolved a = [] \<and> lookup_index nd_id nodes (pk_node (pt_key (ports ! i))) \<noteq> None"
  by (simp_all add: note_port_node_def split: option.split)

lemma add_span_arcs_frame [simp]:
  "a_cross_connects (add_span_arcs ports spans i a) = a_cross_connects a"
  "length (a_at_port (add_span_arcs ports spans i a)) = length (a_at_port a)"
  "a_unresolved (add_span_arcs ports spans i a) = [] \<longleftrightarrow>
     a_unresolved a = [] \<and> resolves ports (sp_from (spans ! i)) \<and> resolves ports (sp_to (spans ! i))"
  by (simp_all add: add_span_arcs_def Let_def split: option.split)

lemma add_cross_connect_frame [simp]:
  "a_span_arcs (add_cross_connect ports ccs i a) = a_span_arcs a"
  "length (a_at_port (add_cross_connect ports ccs i a)) = length (a_at_port a)"
  "a_unresolved (add_cross_connect ports ccs i a) = [] \<longleftrightarrow>
     a_unresolved a = [] \<and> resolves ports (cc_from (ccs ! i)) \<and> resolves ports (cc_to (ccs ! i))"
  by (simp_all add: add_cross_connect_def Let_def split: option.split)

lemma span_arc_ok_Suc: "span_arc_ok ports spans n p a \<Longrightarrow> span_arc_ok ports spans (Suc n) p a"
  by (simp add: span_arc_ok_def)

lemma lookup_index_less: "lookup_index key xs v = Some i \<Longrightarrow> i < length xs"
  by (auto dest: lookup_index_Some)

lemma add_span_arcs_ok:
  assumes "lists_ok (length ports) (span_arc_ok ports spans i) (a_span_arcs a)"
  shows "lists_ok (length ports) (span_arc_ok ports spans (Suc i)) (a_span_arcs (add_span_arcs ports spans i a))"
proof -
  have old: "lists_ok (length ports) (span_arc_ok ports spans (Suc i)) (a_span_arcs a)"
    using assms by (rule lists_ok_mono) (rule span_arc_ok_Suc)
  show ?thesis
  proof (cases "lookup_index pt_key ports (sp_from (spans ! i))")
    case None
    then show ?thesis using old by (simp add: add_span_arcs_def Let_def)
  next
    case from_index: (Some f)
    show ?thesis
    proof (cases "lookup_index pt_key ports (sp_to (spans ! i))")
      case None
      then show ?thesis using old from_index by (simp add: add_span_arcs_def Let_def)
    next
      case to_index: (Some t)
      let ?fwd = "\<lparr>span_index = i, reversed = False\<rparr>" and ?rev = "\<lparr>span_index = i, reversed = True\<rparr>"
      have fwd: "span_arc_ok ports spans (Suc i) f ?fwd"
        using from_index to_index by (simp add: span_arc_ok_def span_tail_def span_head_def resolves_def)
      have rev: "sp_bidirectional (spans ! i) \<Longrightarrow> span_arc_ok ports spans (Suc i) t ?rev"
        using from_index to_index by (simp add: span_arc_ok_def span_tail_def span_head_def resolves_def)
      have lists: "lists_ok (length ports) (span_arc_ok ports spans (Suc i)) (push_at f ?fwd (a_span_arcs a))"
        using old fwd lookup_index_less [OF from_index] by (intro lists_ok_push)
      show ?thesis
        using from_index to_index lists lists_ok_push [OF lists lookup_index_less [OF to_index] rev]
        by (simp add: add_span_arcs_def Let_def)
    qed
  qed
qed

lemma add_cross_connect_ok:
  assumes "lists_ok (length ports) (cc_arc_ok ports ccs i) (a_cross_connects a)"
  shows "lists_ok (length ports) (cc_arc_ok ports ccs (Suc i)) (a_cross_connects (add_cross_connect ports ccs i a))"
proof -
  have old: "lists_ok (length ports) (cc_arc_ok ports ccs (Suc i)) (a_cross_connects a)"
    using assms by (rule lists_ok_mono) (simp add: cc_arc_ok_def)
  show ?thesis
  proof (cases "lookup_index pt_key ports (cc_from (ccs ! i))")
    case None
    then show ?thesis using old by (simp add: add_cross_connect_def Let_def)
  next
    case from_index: (Some f)
    have "resolves ports (cc_to (ccs ! i)) \<Longrightarrow> cc_arc_ok ports ccs (Suc i) f i"
      using from_index by (simp add: cc_arc_ok_def)
    then show ?thesis
      using from_index old lookup_index_less [OF from_index]
      by (cases "lookup_index pt_key ports (cc_to (ccs ! i))")
         (simp_all add: add_cross_connect_def Let_def lists_ok_push resolves_def)
  qed
qed

text \<open>A loop over \<open>0 ..< n\<close> keeps an invariant indexed by the number of records processed.\<close>

lemma fold_upt_invariant:
  assumes "I 0 a" "\<And>i a. i < n \<Longrightarrow> I i a \<Longrightarrow> I (Suc i) (f i a)"
  shows "I n (fold f [0 ..< n] a)"
  using assms by (induction n) simp_all

lemma port_nodes_noted:
  assumes "a_unresolved (fold (note_port_node nodes ports) [0 ..< n] a) = []"
  shows "a_unresolved a = [] \<and> (\<forall>i < n. lookup_index nd_id nodes (pk_node (pt_key (ports ! i))) \<noteq> None)"
  using assms by (induction n) (auto simp: less_Suc_eq)

lemma span_ends_noted:
  assumes "a_unresolved (fold (add_span_arcs ports spans) [0 ..< n] a) = []"
  shows "a_unresolved a = [] \<and>
    (\<forall>i < n. resolves ports (sp_from (spans ! i)) \<and> resolves ports (sp_to (spans ! i)))"
  using assms by (induction n) (auto simp: less_Suc_eq)

lemma cc_ends_noted:
  assumes "a_unresolved (fold (add_cross_connect ports ccs) [0 ..< n] a) = []"
  shows "a_unresolved a = [] \<and>
    (\<forall>i < n. resolves ports (cc_from (ccs ! i)) \<and> resolves ports (cc_to (ccs ! i)))"
  using assms by (induction n) (auto simp: less_Suc_eq)

lemma span_arcs_listed_step:
  assumes "lookup_index pt_key ports (sp_from (spans ! i)) = Some f"
    "lookup_index pt_key ports (sp_to (spans ! i)) = Some t"
    "f < length (a_span_arcs a)" "t < length (a_span_arcs a)"
  shows "\<lparr>span_index = i, reversed = False\<rparr> \<in> set (a_span_arcs (add_span_arcs ports spans i a) ! f)"
    "sp_bidirectional (spans ! i) \<Longrightarrow>
       \<lparr>span_index = i, reversed = True\<rparr> \<in> set (a_span_arcs (add_span_arcs ports spans i a) ! t)"
  using assms by (auto simp: add_span_arcs_def Let_def push_at_def nth_list_update)

lemma push_at_keeps: "x \<in> set (xss ! p) \<Longrightarrow> x \<in> set (push_at i y xss ! p)"
  by (cases "i < length xss"; cases "i = p") (simp_all add: push_at_def list_update_beyond)

lemma span_arcs_kept:
  "x \<in> set (a_span_arcs a ! p) \<Longrightarrow> x \<in> set (a_span_arcs (add_span_arcs ports spans i a) ! p)"
  by (simp add: add_span_arcs_def Let_def push_at_keeps split: option.split)

lemma build_adjacency_ok:
  assumes "adj = build_adjacency nodes ports spans ccs"
  shows "lists_ok (length ports) (span_arc_ok ports spans (length spans)) (a_span_arcs adj)"
    and "lists_ok (length ports) (cc_arc_ok ports ccs (length ccs)) (a_cross_connects adj)"
    and "length (a_at_port adj) = length ports"
    and "a_unresolved adj = [] \<Longrightarrow>
      (\<forall>i < length ports. lookup_index nd_id nodes (pk_node (pt_key (ports ! i))) \<noteq> None) \<and>
      (\<forall>i < length spans. resolves ports (sp_from (spans ! i)) \<and> resolves ports (sp_to (spans ! i))) \<and>
      (\<forall>i < length ccs. resolves ports (cc_from (ccs ! i)) \<and> resolves ports (cc_to (ccs ! i)))"
proof -
  let ?n = "length ports"
  define a0 where "a0 = \<lparr>a_span_arcs = replicate ?n [], a_cross_connects = replicate ?n [],
      a_unresolved = [], a_at_port = replicate ?n 0\<rparr>"
  define a1 where "a1 = fold (note_port_node nodes ports) [0 ..< ?n] a0"
  define a2 where "a2 = fold (add_span_arcs ports spans) [0 ..< length spans] a1"
  have adj: "adj = fold (add_cross_connect ports ccs) [0 ..< length ccs] a2"
    by (simp add: assms build_adjacency_def Let_def a0_def a1_def a2_def)
  have a1: "a_span_arcs a1 = replicate ?n [] \<and> a_cross_connects a1 = replicate ?n [] \<and> length (a_at_port a1) = ?n"
    unfolding a1_def
    by (rule fold_upt_invariant [where I = "\<lambda>_ a. a_span_arcs a = replicate ?n [] \<and>
          a_cross_connects a = replicate ?n [] \<and> length (a_at_port a) = ?n"])
       (simp_all add: a0_def)
  have a2: "lists_ok ?n (span_arc_ok ports spans (length spans)) (a_span_arcs a2) \<and>
      a_cross_connects a2 = replicate ?n [] \<and> length (a_at_port a2) = ?n"
    unfolding a2_def
    by (rule fold_upt_invariant [where I = "\<lambda>k a. lists_ok ?n (span_arc_ok ports spans k) (a_span_arcs a) \<and>
          a_cross_connects a = replicate ?n [] \<and> length (a_at_port a) = ?n"])
       (simp_all add: a1 add_span_arcs_ok, simp add: lists_ok_def)
  have a3: "lists_ok ?n (span_arc_ok ports spans (length spans)) (a_span_arcs adj) \<and>
      lists_ok ?n (cc_arc_ok ports ccs (length ccs)) (a_cross_connects adj) \<and> length (a_at_port adj) = ?n"
    unfolding adj
    by (rule fold_upt_invariant [where I = "\<lambda>k a. lists_ok ?n (span_arc_ok ports spans (length spans)) (a_span_arcs a) \<and>
          lists_ok ?n (cc_arc_ok ports ccs k) (a_cross_connects a) \<and> length (a_at_port a) = ?n"])
       (simp_all add: a2 add_cross_connect_ok, simp add: lists_ok_def)
  then show "lists_ok ?n (span_arc_ok ports spans (length spans)) (a_span_arcs adj)"
    "lists_ok ?n (cc_arc_ok ports ccs (length ccs)) (a_cross_connects adj)" "length (a_at_port adj) = ?n"
    by blast+
  show "(\<forall>i < ?n. lookup_index nd_id nodes (pk_node (pt_key (ports ! i))) \<noteq> None) \<and>
      (\<forall>i < length spans. resolves ports (sp_from (spans ! i)) \<and> resolves ports (sp_to (spans ! i))) \<and>
      (\<forall>i < length ccs. resolves ports (cc_from (ccs ! i)) \<and> resolves ports (cc_to (ccs ! i)))"
    if "a_unresolved adj = []"
    using cc_ends_noted [of ports ccs "length ccs" a2] span_ends_noted [of ports spans "length spans" a1]
      port_nodes_noted [of nodes ports ?n a0] that
    by (simp add: adj a1_def a2_def)
qed

text \<open>Every span whose two ends have records is listed, in both directions when bidirectional.\<close>

lemma fold_span_arcs_listed:
  assumes "i < n" "lookup_index pt_key ports (sp_from (spans ! i)) = Some f"
    "lookup_index pt_key ports (sp_to (spans ! i)) = Some t"
    "\<forall>k. length (a_span_arcs (fold (add_span_arcs ports spans) [0 ..< k] a)) = length ports"
  shows "\<lparr>span_index = i, reversed = False\<rparr> \<in>
           set (a_span_arcs (fold (add_span_arcs ports spans) [0 ..< n] a) ! f) \<and>
         (sp_bidirectional (spans ! i) \<longrightarrow> \<lparr>span_index = i, reversed = True\<rparr> \<in>
           set (a_span_arcs (fold (add_span_arcs ports spans) [0 ..< n] a) ! t))"
  using assms(1)
proof (induction n)
  case (Suc n)
  have less: "f < length ports" "t < length ports" using assms(2,3) by (auto dest: lookup_index_less)
  show ?case
  proof (cases "i = n")
    case True
    then show ?thesis
      using span_arcs_listed_step [OF assms(2,3), of "fold (add_span_arcs ports spans) [0 ..< n] a"] less assms(4)
      by simp
  next
    case False
    with Suc show ?thesis by (simp add: span_arcs_kept)
  qed
qed simp

section \<open>The sealed snapshot\<close>

definition domains_ok :: "FailureDomainId list \<Rightarrow> bool" where
  "domains_ok ds = (sorted ds \<and> distinct ds \<and> length ds \<le> kMaxDomainsPerResource)"

definition mask_evidence_ok :: "SpectrumModel \<Rightarrow> SlotMask Evidence \<Rightarrow> bool" where
  "mask_evidence_ok model e =
     (case e of Known m \<Rightarrow> \<forall>i \<in> mask_set m. i < unat (slot_count model) | _ \<Rightarrow> True)"

definition quality_ok :: "double Evidence \<Rightarrow> bool" where
  "quality_ok e = (case e of Known d \<Rightarrow> \<exists>x. d = Fin x \<and> 0 \<le> x \<and> x \<le> 1000000 | _ \<Rightarrow> True)"

definition snapshot_wf :: "TopologySnapshot \<Rightarrow> bool" where
  "snapshot_wf s \<longleftrightarrow>
     keyed_table src_id (s_sources s) \<and> keyed_table nd_id (s_nodes s) \<and>
     keyed_table pt_key (s_ports s) \<and> keyed_table rp_id (s_profiles s) \<and>
     sorted (s_conflicted s) \<and> 0 < unat (slot_count (s_spectrum s)) \<and>
     unat (slot_count (s_spectrum s)) \<le> kMaxSpectrumSlots \<and>
     lists_ok (length (s_ports s)) (span_arc_ok (s_ports s) (s_spans s) (length (s_spans s))) (s_span_arcs s) \<and>
     lists_ok (length (s_ports s)) (cc_arc_ok (s_ports s) (s_cross_connects s) (length (s_cross_connects s)))
       (s_out_cross_connects s) \<and>
     length (s_unresolved_at_port s) = length (s_ports s)"

definition evidence_wf :: "TopologySnapshot \<Rightarrow> bool" where
  "evidence_wf s \<longleftrightarrow>
     (\<forall>n \<in> set (s_nodes s). domains_ok (nd_failure_domains n)) \<and>
     (\<forall>p \<in> set (s_ports s). domains_ok (pt_failure_domains p) \<and> mask_evidence_ok (s_spectrum s) (pt_blocked_slots p)) \<and>
     (\<forall>x \<in> set (s_spans s). domains_ok (sp_failure_domains x) \<and> mask_evidence_ok (s_spectrum s) (sp_blocked_slots x) \<and>
        quality_ok (sp_loss_db x) \<and> quality_ok (sp_osnr_db x)) \<and>
     (\<forall>c \<in> set (s_cross_connects s). domains_ok (cc_failure_domains c) \<and> mask_evidence_ok (s_spectrum s) (cc_blocked_slots c)) \<and>
     (\<forall>r \<in> set (s_profiles s). quality_ok (rp_max_loss_db r) \<and> quality_ok (rp_min_osnr_db r) \<and>
        rp_max_span_count r \<noteq> Known 0)"

text \<open>
  The tables the builder produces meet the lookup contract, whatever records it is given.
\<close>

interpretation node_table: keyed_table nd_id "fst (canonical_nodes ns)" for ns
  using SortAndDeduplicate_table(1) [of nd_id, OF prod.collapse [symmetric]]
  by (simp add: canonical_nodes_def)

interpretation port_table: keyed_table pt_key "fst (canonical_ports ps)" for ps
  using SortAndDeduplicate_table(1) [of pt_key, OF prod.collapse [symmetric]]
  by (simp add: canonical_ports_def)

interpretation profile_table: keyed_table rp_id "fst (canonical_profiles rs)" for rs
  using SortAndDeduplicate_table(1) [of rp_id, OF prod.collapse [symmetric]]
  by (simp add: canonical_profiles_def)

text \<open>The interfaces through which the search reads the tables of a sealed snapshot.\<close>

lemma snapshot_wf_tables:
  assumes "snapshot_wf s"
  shows "keyed_table src_id (s_sources s)" "keyed_table nd_id (s_nodes s)"
    "keyed_table pt_key (s_ports s)" "keyed_table rp_id (s_profiles s)"
  using assms by (simp_all add: snapshot_wf_def)

lemma PortIndex_iff:
  assumes "snapshot_wf s"
  shows "PortIndex s k = Some i \<longleftrightarrow> i < length (s_ports s) \<and> pt_key (s_ports s ! i) = k"
  using keyed_table.index_iff [OF snapshot_wf_tables(3) [OF assms]] by (simp add: PortIndex_def)

lemma FindPort_record: "FindPort s k = lookup_record pt_key (s_ports s) k"
  by (simp add: FindPort_def PortIndex_def lookup_record_def split: option.split)

lemma FindPort_iff:
  assumes "snapshot_wf s"
  shows "FindPort s k = Some p \<longleftrightarrow> p \<in> set (s_ports s) \<and> pt_key p = k"
  using keyed_table.record_iff [OF snapshot_wf_tables(3) [OF assms]] by (simp add: FindPort_record)

lemma FindNode_iff:
  assumes "snapshot_wf s"
  shows "FindNode s k = Some n \<longleftrightarrow> n \<in> set (s_nodes s) \<and> nd_id n = k"
  using keyed_table.record_iff [OF snapshot_wf_tables(2) [OF assms]] by (simp add: FindNode_def)

lemma IsConflicted_iff: "snapshot_wf s \<Longrightarrow> IsConflicted s k \<longleftrightarrow> k \<in> set (s_conflicted s)"
  by (simp add: IsConflicted_def binary_search_iff snapshot_wf_def)

lemma duplicate_source_status_ok:
  assumes "sorted (map src_id xs)" "\<not> failed (duplicate_source_status xs)"
  shows "distinct (map src_id xs)"
  using assms
proof (induction xs rule: duplicate_source_status.induct)
  case (1 x y ys)
  then have "src_id y \<noteq> src_id x" "distinct (map src_id (y # ys))" by (auto split: if_splits)
  moreover have "src_id x \<le> src_id y" "\<forall>z \<in> set ys. src_id y \<le> src_id z" using 1 by auto
  ultimately show ?case by force
qed simp_all

lemma assemble_Inr:
  assumes "assemble b = Inr s"
  obtains c1 c2 c3 c4 c5 where
    "canonical_nodes (b_nodes b) = (s_nodes s, c1)" "canonical_ports (b_ports b) = (s_ports s, c2)"
    "canonical_spans (b_spans b) = (s_spans s, c3)"
    "canonical_cross_connects (b_cross_connects b) = (s_cross_connects s, c4)"
    "canonical_profiles (b_profiles b) = (s_profiles s, c5)"
    "s_conflicted s = sort_unique (c1 @ c2 @ c3 @ c4 @ c5)"
    "s_sources s = std_sort (\<lambda>l r. src_id l < src_id r) (b_sources b)"
    "s_spectrum s = b_spectrum b"
    "s_unresolved s = sort_unique (a_unresolved (build_adjacency (s_nodes s) (s_ports s) (s_spans s) (s_cross_connects s)))"
    "s_span_arcs s = map (std_sort (span_arc_less (s_spans s)))
       (a_span_arcs (build_adjacency (s_nodes s) (s_ports s) (s_spans s) (s_cross_connects s)))"
    "s_out_cross_connects s = map (std_sort (\<lambda>l r. cc_id (s_cross_connects s ! l) < cc_id (s_cross_connects s ! r)))
       (a_cross_connects (build_adjacency (s_nodes s) (s_ports s) (s_spans s) (s_cross_connects s)))"
    "s_unresolved_at_port s = a_at_port (build_adjacency (s_nodes s) (s_ports s) (s_spans s) (s_cross_connects s))"
    "s_coverage_complete s = coverage_claim (s_unresolved s) (s_conflicted s) (s_sources s) (s_nodes s)"
proof -
  obtain nodes c1 ports c2 spans c3 ccs c4 profiles c5 where
    eqs: "canonical_nodes (b_nodes b) = (nodes, c1)" "canonical_ports (b_ports b) = (ports, c2)"
    "canonical_spans (b_spans b) = (spans, c3)"
    "canonical_cross_connects (b_cross_connects b) = (ccs, c4)"
    "canonical_profiles (b_profiles b) = (profiles, c5)"
    by (metis surj_pair)
  show thesis
    using assms eqs by (intro that [of c1 c2 c3 c4 c5]) (auto simp: assemble_def Let_def split: if_splits)
qed

lemma Build_Inr:
  assumes "fst (Build digest b) = Inr s"
  obtains s0 where "assemble b = Inr s0" "s = s0\<lparr>s_digest := digest s0\<rparr>" "\<not> failed (build_status b)" "\<not> b_built b"
  using assms by (auto simp: Build_def Let_def split: if_splits sum.splits)

lemma snapshot_wf_digest [simp]: "snapshot_wf (s\<lparr>s_digest := d\<rparr>) = snapshot_wf s"
  by (simp add: snapshot_wf_def)

lemma snapshot_wf_assemble:
  assumes "assemble b = Inr s" "\<not> failed (build_status b)"
  shows "snapshot_wf s"
proof -
  from assms(1) obtain c1 c2 c3 c4 c5 where parts:
    "canonical_nodes (b_nodes b) = (s_nodes s, c1)" "canonical_ports (b_ports b) = (s_ports s, c2)"
    "canonical_profiles (b_profiles b) = (s_profiles s, c5)"
    "s_conflicted s = sort_unique (c1 @ c2 @ c3 @ c4 @ c5)"
    "s_sources s = std_sort (\<lambda>l r. src_id l < src_id r) (b_sources b)"
    "s_spectrum s = b_spectrum b"
    and adj: "s_span_arcs s = map (std_sort (span_arc_less (s_spans s)))
       (a_span_arcs (build_adjacency (s_nodes s) (s_ports s) (s_spans s) (s_cross_connects s)))"
    "s_out_cross_connects s = map (std_sort (\<lambda>l r. cc_id (s_cross_connects s ! l) < cc_id (s_cross_connects s ! r)))
       (a_cross_connects (build_adjacency (s_nodes s) (s_ports s) (s_spans s) (s_cross_connects s)))"
    "s_unresolved_at_port s = a_at_port (build_adjacency (s_nodes s) (s_ports s) (s_spans s) (s_cross_connects s))"
    by (rule assemble_Inr) blast
  have status: "\<not> failed (SpectrumModel_Validate (b_spectrum b))" "\<not> failed (duplicate_source_status (s_sources s))"
    using assms(2) by (simp_all add: build_status_def parts)
  have "keyed_table src_id (s_sources s)"
    using duplicate_source_status_ok [OF _ status(2)] sorted_key_std_sort [of src_id "b_sources b"]
    by (simp add: keyed_table_def parts)
  moreover have "keyed_table nd_id (s_nodes s)"
    using SortAndDeduplicate_table(1) [OF parts(1) [unfolded canonical_nodes_def]] .
  moreover have "keyed_table pt_key (s_ports s)"
    using SortAndDeduplicate_table(1) [OF parts(2) [unfolded canonical_ports_def]] .
  moreover have "keyed_table rp_id (s_profiles s)"
    using SortAndDeduplicate_table(1) [OF parts(3) [unfolded canonical_profiles_def]] .
  moreover have "sorted (s_conflicted s)" by (simp only: parts sorted_sort_unique)
  moreover have "0 < unat (slot_count (s_spectrum s))" "unat (slot_count (s_spectrum s)) \<le> kMaxSpectrumSlots"
    using status(1) by (auto simp: SpectrumModel_Validate_def parts unat_gt_0 split: if_splits)
  ultimately show ?thesis
    by (simp add: snapshot_wf_def adj lists_ok_sort build_adjacency_ok(1-3) [OF refl])
qed

text \<open>
  C33: a snapshot that \<open>SnapshotBuilder::Build\<close> seals is well formed: its source, node, port and
  reach-profile tables are strictly sorted by identity (so the binary searches of the queries are
  exact), every listed span arc and cross-connect leaves the port it is listed at and arrives at a
  port with a record, and the spectrum model is within bounds.
\<close>

theorem Build_snapshot_wf:
  assumes "fst (Build digest b) = Inr s"
  shows "snapshot_wf s"
proof -
  from assms obtain s0 where "assemble b = Inr s0" "s = s0\<lparr>s_digest := digest s0\<rparr>" "\<not> failed (build_status b)"
    by (rule Build_Inr)
  then show ?thesis using snapshot_wf_assemble [of b s0] by simp
qed

text \<open>
  A snapshot that claims complete coverage has no conflicting record and no dangling reference:
  the node of every port, both ends of every span and both ends of every cross-connect have records,
  and every source and node declares itself complete.
\<close>

lemma Build_coverage_complete:
  assumes "fst (Build digest b) = Inr s" "s_coverage_complete s"
  shows "s_conflicted s = [] \<and>
    (\<forall>p \<in> set (s_ports s). FindNode s (pk_node (pt_key p)) \<noteq> None) \<and>
    (\<forall>x \<in> set (s_spans s). FindPort s (sp_from x) \<noteq> None \<and> FindPort s (sp_to x) \<noteq> None) \<and>
    (\<forall>c \<in> set (s_cross_connects s). FindPort s (cc_from c) \<noteq> None \<and> FindPort s (cc_to c) \<noteq> None) \<and>
    (\<forall>n \<in> set (s_nodes s). nd_coverage n = Complete) \<and> (\<forall>r \<in> set (s_sources s). src_coverage r = Complete)"
proof -
  from assms(1) obtain s0 where s0: "assemble b = Inr s0" "s = s0\<lparr>s_digest := digest s0\<rparr>" by (rule Build_Inr)
  from s0(1) have claim:
    "s_coverage_complete s0 = coverage_claim (s_unresolved s0) (s_conflicted s0) (s_sources s0) (s_nodes s0)"
    "s_unresolved s0 = sort_unique (a_unresolved (build_adjacency (s_nodes s0) (s_ports s0) (s_spans s0) (s_cross_connects s0)))"
    by (rule assemble_Inr, blast)+
  have all: "s_unresolved s0 = []" "s_conflicted s0 = []" "\<forall>n \<in> set (s_nodes s0). nd_coverage n = Complete"
    "\<forall>r \<in> set (s_sources s0). src_coverage r = Complete"
    using assms(2) claim(1) s0(2) by (auto simp: coverage_claim_def list_all_iff)
  have "set (a_unresolved (build_adjacency (s_nodes s0) (s_ports s0) (s_spans s0) (s_cross_connects s0))) = {}"
    using arg_cong [OF claim(2), of set] all(1) by simp
  then have "a_unresolved (build_adjacency (s_nodes s0) (s_ports s0) (s_spans s0) (s_cross_connects s0)) = []" by simp
  from build_adjacency_ok(4) [OF refl this] all show ?thesis
    unfolding s0(2) by (auto simp: FindNode_def FindPort_record lookup_record_def resolves_def in_set_conv_nth)
qed

section \<open>Conflicts and value ranges\<close>

definition normal_node :: "NodeRecord \<Rightarrow> NodeRecord" where
  "normal_node n = n\<lparr>nd_failure_domains := normal_domains (nd_failure_domains n)\<rparr>"

definition normal_port :: "PortRecord \<Rightarrow> PortRecord" where
  "normal_port p = p\<lparr>pt_failure_domains := normal_domains (pt_failure_domains p)\<rparr>"

lemma conflicted_parts:
  assumes "assemble b = Inr s" "canonical_nodes (b_nodes b) = (ns, cn)" "canonical_ports (b_ports b) = (ps, cp)"
  shows "set cn \<union> set cp \<subseteq> set (s_conflicted s)"
proof -
  from assms(1) obtain c1 c2 c3 c4 c5 where
    "canonical_nodes (b_nodes b) = (s_nodes s, c1)" "canonical_ports (b_ports b) = (s_ports s, c2)"
    "s_conflicted s = sort_unique (c1 @ c2 @ c3 @ c4 @ c5)" by (rule assemble_Inr) blast
  with assms(2,3) show ?thesis by auto
qed

text \<open>
  C35: two node records, or two port records, that carry the same identity and differ in content
  (after their failure domains are normalised) are reported as conflicting in the sealed snapshot.
\<close>

theorem Build_reports_conflicts:
  assumes "fst (Build digest b) = Inr s"
  shows "(\<forall>x \<in> set (b_nodes b). \<forall>y \<in> set (b_nodes b). nd_id x = nd_id y \<longrightarrow> normal_node x \<noteq> normal_node y \<longrightarrow>
            IsConflicted s (ForNode (nd_id x))) \<and>
         (\<forall>x \<in> set (b_ports b). \<forall>y \<in> set (b_ports b). pt_key x = pt_key y \<longrightarrow> normal_port x \<noteq> normal_port y \<longrightarrow>
            IsConflicted s (ForPort (pt_key x)))"
proof -
  from assms obtain s0 where s0: "assemble b = Inr s0" "s = s0\<lparr>s_digest := digest s0\<rparr>" "\<not> failed (build_status b)"
    by (rule Build_Inr)
  have wf: "snapshot_wf s" using snapshot_wf_assemble [OF s0(1,3)] s0(2) by simp
  obtain ns cn where n: "canonical_nodes (b_nodes b) = (ns, cn)" by fastforce
  obtain ps cp where p: "canonical_ports (b_ports b) = (ps, cp)" by fastforce
  have sub: "set cn \<union> set cp \<subseteq> set (s_conflicted s)" using conflicted_parts [OF s0(1) n p] s0(2) by simp
  have "ForNode (nd_id x) \<in> set cn"
    if "x \<in> set (b_nodes b)" "y \<in> set (b_nodes b)" "nd_id x = nd_id y" "normal_node x \<noteq> normal_node y" for x y
    using SortAndDeduplicate_conflicts [OF n [unfolded canonical_nodes_def], of "normal_node x" "normal_node y" ForNode] that
    by (auto simp: normal_node_def)
  moreover have "ForPort (pt_key x) \<in> set cp"
    if "x \<in> set (b_ports b)" "y \<in> set (b_ports b)" "pt_key x = pt_key y" "normal_port x \<noteq> normal_port y" for x y
    using SortAndDeduplicate_conflicts [OF p [unfolded canonical_ports_def], of "normal_port x" "normal_port y" ForPort] that
    by (auto simp: normal_port_def)
  ultimately show ?thesis using sub by (auto simp: IsConflicted_iff [OF wf])
qed

section \<open>Value ranges\<close>

lemma ValidateFiniteNonNegative_ok:
  "\<not> failed (ValidateFiniteNonNegative e f 1000000) \<Longrightarrow> quality_ok e"
  by (cases e) (auto simp: ValidateFiniteNonNegative_def quality_ok_def isfinite_def split: double.splits)

lemma ValidateMaskWithinModel_ok:
  assumes "\<not> failed (ValidateMaskWithinModel e model w)"
  shows "mask_evidence_ok model e"
proof (cases e)
  case (Known m)
  with assms have "filter (Mask_Test m) [unat (slot_count model) ..< kMaxSpectrumSlots] = []"
    by (auto simp: ValidateMaskWithinModel_def split: list.splits)
  then have "\<forall>i. unat (slot_count model) \<le> i \<longrightarrow> i < kMaxSpectrumSlots \<longrightarrow> \<not> Mask_Test m i"
    by (simp add: filter_empty_conv)
  then have "i < unat (slot_count model)" if "i \<in> mask_set m" for i
    using that by (metis Mask_Test_iff mask_set_iff not_le)
  then show ?thesis using Known by (simp add: mask_evidence_ok_def)
qed (simp_all add: mask_evidence_ok_def)

lemma NormaliseDomains_ok:
  assumes "\<not> failed (NormaliseDomains domains records w)" "r \<in> set records"
  shows "domains_ok (normal_domains (domains r))"
proof -
  have "length (normal_domains (domains r)) \<le> kMaxDomainsPerResource"
    using assms by (auto simp: NormaliseDomains_def list_ex_iff not_less)
  then show ?thesis by (simp add: domains_ok_def normal_domains_def)
qed

lemma SortAndDeduplicate_subset: "SortAndDeduplicate lt key res rs = (u, c) \<Longrightarrow> set u \<subseteq> set rs"
  using dedup_set [of key res "std_sort lt rs" u c] by (simp add: SortAndDeduplicate_def)

lemma canonical_subsets:
  "canonical_nodes ns = (ns', c) \<Longrightarrow> n \<in> set ns' \<Longrightarrow>
     \<exists>m \<in> set ns. n = m\<lparr>nd_failure_domains := normal_domains (nd_failure_domains m)\<rparr>"
  "canonical_ports ps = (ps', c) \<Longrightarrow> p \<in> set ps' \<Longrightarrow>
     \<exists>q \<in> set ps. p = q\<lparr>pt_failure_domains := normal_domains (pt_failure_domains q)\<rparr>"
  "canonical_spans ss = (ss', c) \<Longrightarrow> x \<in> set ss' \<Longrightarrow>
     \<exists>y \<in> set ss. x = y\<lparr>sp_failure_domains := normal_domains (sp_failure_domains y)\<rparr>"
  "canonical_cross_connects cs = (cs', c) \<Longrightarrow> k \<in> set cs' \<Longrightarrow>
     \<exists>l \<in> set cs. k = l\<lparr>cc_failure_domains := normal_domains (cc_failure_domains l)\<rparr>"
  "canonical_profiles rs = (rs', c) \<Longrightarrow> r \<in> set rs' \<Longrightarrow> r \<in> set rs"
  unfolding canonical_nodes_def canonical_ports_def canonical_spans_def canonical_cross_connects_def
    canonical_profiles_def
  by (auto dest!: SortAndDeduplicate_subset subsetD)

section \<open>The records of a sealed snapshot\<close>

text \<open>Sorting what is sorted changes nothing, so the records of a sealed snapshot pass the checks again.\<close>

lemma sort_insert_last: "\<forall>y \<in> set xs. \<not> lt x y \<Longrightarrow> sort_insert lt x xs = xs @ [x]"
  by (induction xs) auto

lemma fold_sort_insert:
  "sorted_wrt (\<lambda>a b. \<not> lt b a) (acc @ xs) \<Longrightarrow> fold (sort_insert lt) xs acc = acc @ xs"
proof (induction xs arbitrary: acc)
  case (Cons x xs)
  then have "sort_insert lt x acc = acc @ [x]" by (intro sort_insert_last) (auto simp: sorted_wrt_append)
  with Cons show ?case by simp
qed simp

lemma std_sort_sorted: "sorted_wrt (\<lambda>a b. \<not> lt b a) xs \<Longrightarrow> std_sort lt xs = xs"
  using fold_sort_insert [of lt "[]" xs] by (simp add: std_sort_def)

lemma std_sort_sorted_key: "sorted (map f xs) \<Longrightarrow> std_sort (\<lambda>a b. f a < (f b :: 'k::linorder)) xs = xs"
  by (rule std_sort_sorted) (simp add: sorted_map not_less)

lemma std_unique_distinct: "distinct xs \<Longrightarrow> std_unique xs = xs"
  by (induction xs rule: std_unique.induct) auto

lemma sort_unique_again [simp]: "sort_unique (sort_unique (xs :: 'a::linorder list)) = sort_unique xs"
proof -
  have "sorted_wrt (\<lambda>a b. \<not> b < a) (sort_unique xs)"
    using sorted_sort_unique [of xs] by (simp add: not_less)
  then show ?thesis by (simp add: std_sort_sorted std_unique_distinct)
qed

lemma normal_domains_again [simp]: "normal_domains (normal_domains ds) = normal_domains ds"
  by (simp only: normal_domains_def sort_unique_again)

text \<open>A builder with the records of \<open>s\<close>.\<close>

definition records_builder :: "SnapshotBuildOptions \<Rightarrow> TopologySnapshot \<Rightarrow> SnapshotBuilder" where
  "records_builder options s =
     \<lparr>b_id = s_id s, b_generation = s_generation s, b_spectrum = s_spectrum s, b_options = options,
      b_sources = s_sources s, b_nodes = s_nodes s, b_ports = s_ports s, b_spans = s_spans s,
      b_cross_connects = s_cross_connects s, b_profiles = s_profiles s, b_built = False\<rparr>"

lemma canonical_domains:
  "canonical_nodes ns = (ns', c) \<Longrightarrow> \<not> failed (NormaliseDomains nd_failure_domains ns w) \<Longrightarrow>
     \<not> failed (NormaliseDomains nd_failure_domains ns' w)"
  "canonical_ports ps = (ps', c) \<Longrightarrow> \<not> failed (NormaliseDomains pt_failure_domains ps w) \<Longrightarrow>
     \<not> failed (NormaliseDomains pt_failure_domains ps' w)"
  "canonical_spans ss = (ss', c) \<Longrightarrow> \<not> failed (NormaliseDomains sp_failure_domains ss w) \<Longrightarrow>
     \<not> failed (NormaliseDomains sp_failure_domains ss' w)"
  "canonical_cross_connects cs = (cs', c) \<Longrightarrow> \<not> failed (NormaliseDomains cc_failure_domains cs w) \<Longrightarrow>
     \<not> failed (NormaliseDomains cc_failure_domains cs' w)"
  by (fastforce simp: NormaliseDomains_def list_ex_iff dest: canonical_subsets)+

lemma normal_records:
  "canonical_nodes ns = (ns', c) \<Longrightarrow> n \<in> set ns' \<Longrightarrow> normal_domains (nd_failure_domains n) = nd_failure_domains n"
  "canonical_ports ps = (ps', c) \<Longrightarrow> p \<in> set ps' \<Longrightarrow> normal_domains (pt_failure_domains p) = pt_failure_domains p"
  "canonical_spans ss = (ss', c) \<Longrightarrow> x \<in> set ss' \<Longrightarrow> normal_domains (sp_failure_domains x) = sp_failure_domains x"
  "canonical_cross_connects cs = (cs', c) \<Longrightarrow> k \<in> set cs' \<Longrightarrow> normal_domains (cc_failure_domains k) = cc_failure_domains k"
  by (auto dest: canonical_subsets)

lemma sealed_sources: "sorted (map src_id xs) \<Longrightarrow> std_sort (\<lambda>l r. src_id l < src_id r) xs = xs"
  by (rule std_sort_sorted_key)

lemma build_status_ok:
  "\<not> failed (build_status b) \<longleftrightarrow>
     \<not> failed (SpectrumModel_Validate (b_spectrum b)) \<and>
     \<not> failed (duplicate_source_status (std_sort (\<lambda>l r. src_id l < src_id r) (b_sources b))) \<and>
     \<not> failed (NormaliseDomains nd_failure_domains (b_nodes b) ''node'') \<and>
     \<not> failed (NormaliseDomains pt_failure_domains (b_ports b) ''port'') \<and>
     \<not> failed (NormaliseDomains sp_failure_domains (b_spans b) ''span'') \<and>
     \<not> failed (NormaliseDomains cc_failure_domains (b_cross_connects b) ''cross-connect'') \<and>
     (\<forall>n \<in> set (b_nodes b). \<not> (nd_transit_cost n > 0 \<and> nd_id n = [])) \<and>
     (\<forall>x \<in> set (b_spans b). \<not> failed (span_status (b_spectrum b) x)) \<and>
     (\<forall>p \<in> set (b_ports b). \<not> failed (ValidateMaskWithinModel (pt_blocked_slots p) (b_spectrum b) ''port.blocked_slots'')) \<and>
     (\<forall>c \<in> set (b_cross_connects b).
        \<not> failed (ValidateMaskWithinModel (cc_blocked_slots c) (b_spectrum b) ''crossconnect.blocked_slots'')) \<and>
     (\<forall>r \<in> set (b_profiles b). \<not> failed (profile_status r))"
  by (simp add: build_status_def ball_Un)

lemma canonical_status:
  "canonical_nodes ns = (ns', c) \<Longrightarrow> \<forall>n \<in> set ns. P (nd_transit_cost n) (nd_id n) \<Longrightarrow> \<forall>n \<in> set ns'. P (nd_transit_cost n) (nd_id n)"
  "canonical_ports ps = (ps', c) \<Longrightarrow> \<forall>p \<in> set ps. Q (pt_blocked_slots p) \<Longrightarrow> \<forall>p \<in> set ps'. Q (pt_blocked_slots p)"
  "canonical_spans ss = (ss', c) \<Longrightarrow> \<forall>x \<in> set ss. \<not> failed (span_status m x) \<Longrightarrow> \<forall>x \<in> set ss'. \<not> failed (span_status m x)"
  "canonical_cross_connects cs = (cs', c) \<Longrightarrow> \<forall>k \<in> set cs. Q (cc_blocked_slots k) \<Longrightarrow> \<forall>k \<in> set cs'. Q (cc_blocked_slots k)"
  by (fastforce simp: span_status_def dest: canonical_subsets)+

lemma records_status:
  assumes "assemble b = Inr s" "\<not> failed (build_status b)"
  shows "\<not> failed (build_status (records_builder options s))"
proof -
  from assms(1) obtain c1 c2 c3 c4 c5 where parts:
    "canonical_nodes (b_nodes b) = (s_nodes s, c1)" "canonical_ports (b_ports b) = (s_ports s, c2)"
    "canonical_spans (b_spans b) = (s_spans s, c3)"
    "canonical_cross_connects (b_cross_connects b) = (s_cross_connects s, c4)"
    "canonical_profiles (b_profiles b) = (s_profiles s, c5)" "s_spectrum s = b_spectrum b"
    "s_sources s = std_sort (\<lambda>l r. src_id l < src_id r) (b_sources b)"
    by (rule assemble_Inr) blast
  have "std_sort (\<lambda>l r. src_id l < src_id r) (s_sources s) = s_sources s"
    unfolding parts by (rule sealed_sources) (rule sorted_key_std_sort)
  moreover have "\<forall>n \<in> set (s_nodes s). \<not> (nd_transit_cost n > 0 \<and> nd_id n = [])"
    by (rule canonical_status(1) [OF parts(1)]) (use assms(2) in \<open>simp add: build_status_ok\<close>)
  moreover have "\<forall>p \<in> set (s_ports s). \<not> failed (ValidateMaskWithinModel (pt_blocked_slots p) (b_spectrum b) ''port.blocked_slots'')"
    by (rule canonical_status(2) [OF parts(2)]) (use assms(2) in \<open>simp add: build_status_ok\<close>)
  moreover have "\<forall>c \<in> set (s_cross_connects s).
      \<not> failed (ValidateMaskWithinModel (cc_blocked_slots c) (b_spectrum b) ''crossconnect.blocked_slots'')"
    by (rule canonical_status(4) [OF parts(4)]) (use assms(2) in \<open>simp add: build_status_ok\<close>)
  moreover note canonical_status(3) [OF parts(3), of "b_spectrum b"] canonical_domains(1) [OF parts(1), of "''node''"]
    canonical_domains(2) [OF parts(2), of "''port''"] canonical_domains(3) [OF parts(3), of "''span''"]
    canonical_domains(4) [OF parts(4), of "''cross-connect''"] canonical_subsets(5) [OF parts(5)]
  ultimately show ?thesis
    using assms(2) parts(7) by (simp add: build_status_ok records_builder_def parts(6))
qed

text \<open>
  C36: the evidence of a sealed snapshot is in range: published losses and OSNR values are finite and
  within [0, 1e6] (no infinity, no NaN), published blocked sets stay inside the spectrum model, a
  published span-count limit is at least one, and every failure-domain list is sorted, free of
  duplicates and within its bound.
\<close>

theorem Build_evidence_wf:
  assumes "fst (Build digest b) = Inr s"
  shows "evidence_wf s"
proof -
  from assms obtain s0 where s0: "assemble b = Inr s0" "s = s0\<lparr>s_digest := digest s0\<rparr>" "\<not> failed (build_status b)"
    by (rule Build_Inr)
  from s0(1) obtain c1 c2 c3 c4 where parts:
    "canonical_nodes (b_nodes b) = (s_nodes s, c1)" "canonical_ports (b_ports b) = (s_ports s, c2)"
    "canonical_spans (b_spans b) = (s_spans s, c3)"
    "canonical_cross_connects (b_cross_connects b) = (s_cross_connects s, c4)"
    using s0(2) by (auto elim: assemble_Inr)
  note normal = normal_records(1) [OF parts(1)] normal_records(2) [OF parts(2)] normal_records(3) [OF parts(3)]
    normal_records(4) [OF parts(4)]
  have "\<not> failed (build_status (records_builder \<lparr>allow_unresolved_references = True, reject_self_loops = True\<rparr> s0))"
    by (rule records_status [OF s0(1,3)])
  note status = this [unfolded build_status_ok records_builder_def SnapshotBuilder.simps]
  have "domains_ok (nd_failure_domains n)" if "n \<in> set (s_nodes s)" for n
    using NormaliseDomains_ok [of nd_failure_domains "s_nodes s" "''node''" n] status normal(1) [OF that] that s0(2) by simp
  moreover have "domains_ok (pt_failure_domains p)" if "p \<in> set (s_ports s)" for p
    using NormaliseDomains_ok [of pt_failure_domains "s_ports s" "''port''" p] status normal(2) [OF that] that s0(2) by simp
  moreover have "domains_ok (sp_failure_domains x)" if "x \<in> set (s_spans s)" for x
    using NormaliseDomains_ok [of sp_failure_domains "s_spans s" "''span''" x] status normal(3) [OF that] that s0(2) by simp
  moreover have "domains_ok (cc_failure_domains c)" if "c \<in> set (s_cross_connects s)" for c
    using NormaliseDomains_ok [of cc_failure_domains "s_cross_connects s" "''cross-connect''" c] status normal(4) [OF that] that s0(2)
    by simp
  ultimately have "evidence_wf s0"
    using status s0(2) unfolding evidence_wf_def
    by (auto simp: span_status_def profile_status_def intro: ValidateMaskWithinModel_ok ValidateFiniteNonNegative_ok)
  then show ?thesis using s0(2) by (simp add: evidence_wf_def)
qed

end
