(* ===== verification/Request.thy ===== *)
theory Request
  imports Topology
begin

text \<open>
  The constraint set and the planning request (\<open>constraints.hpp/.cpp\<close>, \<open>request.hpp/.cpp\<close>).
  A \<open>std::map\<close> is the list of its entries in key order.  Counters and bounds that the code only
  compares are \<open>nat\<close>.
\<close>

datatype Disjointness = DisjointNone | DisjointNode | DisjointSpan | DisjointFailureDomain

fun DisjointnessName :: "Disjointness \<Rightarrow> string" where
  "DisjointnessName DisjointNone = ''none''"
| "DisjointnessName DisjointNode = ''node''"
| "DisjointnessName DisjointSpan = ''span''"
| "DisjointnessName DisjointFailureDomain = ''domain''"

definition ParseDisjointness :: "string \<Rightarrow> Disjointness option" where
  "ParseDisjointness text =
     (if text = ''none'' then Some DisjointNone else if text = ''node'' then Some DisjointNode
      else if text = ''span'' then Some DisjointSpan
      else if text = ''domain'' then Some DisjointFailureDomain else None)"

record ConstraintSet =
  excluded_nodes :: "NodeId list"
  excluded_ports :: "PortKey list"
  excluded_spans :: "SpanId list"
  excluded_cross_connects :: "CrossConnectId list"
  excluded_failure_domains :: "FailureDomainId list"
  max_members_per_failure_domain :: "(FailureDomainId \<times> nat) list"
  max_total_distance_m :: "u64 option"
  max_total_span_count :: "nat option"
  max_total_loss_db :: "double option"
  min_segment_osnr_db :: "double option"
  allow_regeneration :: bool
  allow_wavelength_conversion :: bool
  require_spectrum_continuity_across_regeneration :: bool
  allow_repeated_resources :: bool

record PlanningRequest =
  rq_format_version :: nat
  rq_id :: RequestId
  rq_source :: PortKey
  rq_destination :: PortKey
  rq_channel_width_slots :: nat
  rq_max_candidates :: nat
  rq_max_regenerations :: nat
  rq_max_hops :: nat
  rq_max_total_cost :: "u64 option"
  rq_disjointness :: Disjointness
  rq_constraints :: ConstraintSet
  rq_required_source_generations :: "(SourceId \<times> Generation) list"
  rq_required_snapshot_generation :: "Generation option"
  rq_expected_snapshot_digest :: "Digest256 option"
  rq_accept_restored_evidence :: bool
  rq_max_search_expansions :: nat
  rq_max_search_labels :: nat

definition RequireSortedUnique :: "'a::linorder list \<Rightarrow> string \<Rightarrow> Status" where
  "RequireSortedUnique values what =
     (if length values > kMaxExclusionEntries
      then Failure LimitExceeded (what @ '' exceeds the maximum number of entries'')
      else if adjacent_equal (std_sort (<) values)
      then Failure DuplicateIdentity (what @ '' contains a duplicate entry'')
      else OkStatus)"

definition ValidateOptionalNonNegative :: "double option \<Rightarrow> string \<Rightarrow> Status" where
  "ValidateOptionalNonNegative value what =
     (case value of
        None \<Rightarrow> OkStatus
      | Some v \<Rightarrow> refuse_if (\<not> dle (Fin 0) v \<or> dless (Fin 1000000000) v) InvalidArgument
                    (what @ '' must be a finite value in [0, 1e9]''))"

definition ConstraintSet_Validate :: "ConstraintSet \<Rightarrow> Status" where
  "ConstraintSet_Validate c =
     first_failure
       ([RequireSortedUnique (excluded_nodes c) ''excluded_nodes'',
         RequireSortedUnique (excluded_ports c) ''excluded_ports'',
         RequireSortedUnique (excluded_spans c) ''excluded_spans'',
         RequireSortedUnique (excluded_cross_connects c) ''excluded_cross_connects'',
         RequireSortedUnique (excluded_failure_domains c) ''excluded_failure_domains'',
         refuse_if (length (max_members_per_failure_domain c) > kMaxDomainMemberLimits) LimitExceeded
           ''max_members_per_failure_domain exceeds the maximum number of entries'']
        @ map (\<lambda>(d, n). refuse_if (n = 0) InvalidArgument
                 (''max_members_per_failure_domain for '' @ [CHR 0x27] @ d @ [CHR 0x27] @ '' must be at least 1''))
            (max_members_per_failure_domain c)
        @ [refuse_if (max_total_span_count c = Some 0) InvalidArgument ''max_total_span_count must be at least 1'',
           ValidateOptionalNonNegative (max_total_loss_db c) ''max_total_loss_db'',
           ValidateOptionalNonNegative (min_segment_osnr_db c) ''min_segment_osnr_db''])"

definition PlanningRequest_Validate :: "PlanningRequest \<Rightarrow> Status" where
  "PlanningRequest_Validate r =
     first_failure
       [refuse_if (rq_format_version r \<noteq> kRequestFormatVersion) Unsupported
          (''request format revision '' @ to_string (rq_format_version r) @ '' is not supported''),
        refuse_if (rq_id r = []) InvalidArgument ''request id must not be empty'',
        refuse_if (pk_node (rq_source r) = [] \<or> pk_port (rq_source r) = []) InvalidArgument
          ''source must name both a node and a port'',
        refuse_if (pk_node (rq_destination r) = [] \<or> pk_port (rq_destination r) = []) InvalidArgument
          ''destination must name both a node and a port'',
        refuse_if (rq_source r = rq_destination r) InvalidArgument ''source and destination must differ'',
        refuse_if (rq_channel_width_slots r = 0) InvalidArgument ''channel width must be at least one slot'',
        refuse_if (rq_channel_width_slots r > kMaxSpectrumSlots) InvalidArgument
          ''channel width exceeds the supported spectrum capacity'',
        refuse_if (rq_max_candidates r = 0) InvalidArgument ''max_candidates must be at least 1'',
        refuse_if (rq_max_candidates r > kMaxCandidates) LimitExceeded
          (''max_candidates exceeds the supported maximum of '' @ to_string kMaxCandidates),
        refuse_if (rq_max_regenerations r > kMaxRequestedRegenerations) LimitExceeded
          ''max_regenerations exceeds the supported maximum'',
        refuse_if (rq_max_hops r = 0) InvalidArgument ''max_hops must be at least 1'',
        refuse_if (rq_max_hops r > kMaxRequestedHops) LimitExceeded ''max_hops exceeds the supported maximum'',
        refuse_if (rq_max_search_expansions r = 0 \<or> rq_max_search_expansions r > kMaxSearchExpansionsCeiling)
          LimitExceeded ''max_search_expansions must be within the supported range'',
        refuse_if (rq_max_search_labels r = 0 \<or> rq_max_search_labels r > kMaxSearchLabelsCeiling)
          LimitExceeded ''max_search_labels must be within the supported range'',
        refuse_if (length (rq_required_source_generations r) > kMaxRequiredGenerations) LimitExceeded
          ''required_source_generations exceeds the supported number of entries'',
        ConstraintSet_Validate (rq_constraints r),
        refuse_if (require_spectrum_continuity_across_regeneration (rq_constraints r)) Unsupported
          ''this model restarts the transparent segment at a regeneration, so spectrum continuity across a regeneration cannot be required'',
        refuse_if (allow_repeated_resources (rq_constraints r)) Unsupported
          ''this model restricts a candidate to a resource-simple route; repeated resources are not modelled'']"

definition IsOpAllowed :: "ConstraintSet \<Rightarrow> CrossConnectOp \<Rightarrow> bool" where
  "IsOpAllowed c op =
     (case op of Express \<Rightarrow> True | Convert \<Rightarrow> allow_wavelength_conversion c | Regenerate \<Rightarrow> allow_regeneration c)"

section \<open>Lemmas\<close>

interpretation disjointness_names: name_table DisjointnessName ParseDisjointness
proof
  show "ParseDisjointness (DisjointnessName e) = Some e" for e
    by (cases e) (simp_all add: ParseDisjointness_def)
  show "ParseDisjointness s = Some e \<Longrightarrow> s = DisjointnessName e" for s e
    by (auto simp: ParseDisjointness_def split: if_splits)
qed

lemma RequireSortedUnique_ok:
  "\<not> failed (RequireSortedUnique xs w) \<longleftrightarrow> length xs \<le> kMaxExclusionEntries \<and> distinct xs"
proof -
  have "\<not> adjacent_equal (std_sort (<) xs) \<longleftrightarrow> distinct xs"
    using adjacent_equal_distinct [OF sorted_std_sort, of xs] by simp
  then show ?thesis by (auto simp: RequireSortedUnique_def)
qed

lemma ValidateOptionalNonNegative_ok:
  "\<not> failed (ValidateOptionalNonNegative v w) \<longleftrightarrow>
     (case v of None \<Rightarrow> True | Some d \<Rightarrow> \<exists>x. d = Fin x \<and> 0 \<le> x \<and> x \<le> 1000000000)"
proof (cases v)
  case (Some d)
  then show ?thesis by (cases d) (auto simp: ValidateOptionalNonNegative_def dle_def)
qed (simp add: ValidateOptionalNonNegative_def)

lemma valid_request_bounds:
  assumes "\<not> failed (PlanningRequest_Validate r)"
  shows "rq_source r \<noteq> rq_destination r" "0 < rq_channel_width_slots r"
    "rq_channel_width_slots r \<le> kMaxSpectrumSlots" "0 < rq_max_candidates r"
    "rq_max_candidates r \<le> kMaxCandidates" "rq_max_hops r \<le> kMaxRequestedHops" "0 < rq_max_hops r"
    "0 < rq_max_search_labels r" "rq_max_search_labels r \<le> kMaxSearchLabelsCeiling"
    "\<not> failed (ConstraintSet_Validate (rq_constraints r))"
    "\<not> require_spectrum_continuity_across_regeneration (rq_constraints r)"
    "\<not> allow_repeated_resources (rq_constraints r)"
  using assms by (auto simp: PlanningRequest_Validate_def not_less)

end
