(* ===== verification/Example.thy ===== *)
theory Example
  imports Topology_Props Request
begin

text \<open>
  One small network, used to evaluate the model on concrete inputs: a transmitter port on node
  \<open>A\<close>, a receiver port on node \<open>B\<close>, one span from the first to the second and one reach
  profile.  Every record is published in full by one source, so the sealed snapshot claims complete
  coverage.
\<close>

section \<open>Slot masks that need no slot-by-slot evaluation\<close>

lemma mask_eqI:
  assumes "mask_wf a" "mask_wf b" "mask_set a = mask_set b"
  shows "a = b"
proof (rule nth_equalityI)
  show "length a = length b" using assms by (simp add: mask_wf_def)
next
  fix k assume k: "k < length a"
  show "a ! k = b ! k"
  proof (rule bit_word_eqI)
    fix n assume n: "n < LENGTH(64)"
    then have "64 * k + n \<in> mask_set a \<longleftrightarrow> 64 * k + n \<in> mask_set b" using assms(3) by simp
    then show "bit (a ! k) n = bit (b ! k) n"
      using k n assms(1) by (simp add: mask_set_iff kMaxSpectrumSlots_def mask_wf_def)
  qed
qed

definition full_mask :: SlotMask where
  "full_mask = [- 1, - 1, - 1, - 1]"

lemma mask_wf_full [simp]: "mask_wf full_mask"
  by (simp add: full_mask_def mask_wf_def)

lemma mask_set_full: "mask_set full_mask = {i. i < kMaxSpectrumSlots}"
proof -
  have "i < kMaxSpectrumSlots \<Longrightarrow> full_mask ! (i div 64) = - 1" for i
  proof -
    assume "i < kMaxSpectrumSlots"
    then have "i div 64 \<in> {0, 1, 2, 3}" by (auto simp: kMaxSpectrumSlots_def)
    then show ?thesis by (auto simp: full_mask_def)
  qed
  then show ?thesis by (auto simp: mask_set_iff)
qed

lemma usable_slots_open: "usable_slots 256 Mask_None = full_mask"
  by (rule mask_eqI) (simp_all add: mask_set_usable_slots mask_set_full kMaxSpectrumSlots_def)

lemma Mask_All_256: "Mask_All 256 = full_mask"
  by (rule mask_eqI) (simp_all add: mask_set_All mask_set_full kMaxSpectrumSlots_def)

lemma FirstSlotMask_1: "mask_wf m \<Longrightarrow> FirstSlotMask m 1 = m"
  by (rule mask_eqI) (simp_all add: mask_set_FirstSlotMask)

section \<open>The network\<close>

definition ex_src :: SourceId where "ex_src = ''survey''"

definition ex_source :: SourceRecord where
  "ex_source = \<lparr>src_id = ex_src, src_generation = 7, src_coverage = Complete, src_description = []\<rparr>"

definition ex_node :: "NodeId \<Rightarrow> u64 \<Rightarrow> NodeRecord" where
  "ex_node n c = \<lparr>nd_id = n, nd_kind = ReconfigurableOadm, nd_failure_domains = [''fd'' @ n], nd_transit_cost = c,
     nd_coverage = Complete, nd_admin = Known Up, nd_source = ex_src, nd_generation = 7\<rparr>"

definition ex_port :: "PortKey \<Rightarrow> ProfileId option \<Rightarrow> PortRecord" where
  "ex_port k t = \<lparr>pt_key = k, pt_role = RoleLine, pt_transmit_profile = Known t,
     pt_blocked_slots = Known Mask_None, pt_failure_domains = [], pt_transit_cost = 1,
     pt_admin = Known Up, pt_source = ex_src, pt_generation = 7\<rparr>"

definition ex_span :: "SpanId \<Rightarrow> PortKey \<Rightarrow> PortKey \<Rightarrow> u64 \<Rightarrow> SpanRecord" where
  "ex_span i f t c = \<lparr>sp_id = i, sp_from = f, sp_to = t, sp_bidirectional = False,
     sp_length_m = Known 80000, sp_loss_db = Known (Fin 20), sp_osnr_db = Known (Fin 30),
     sp_blocked_slots = Known Mask_None, sp_failure_domains = [''duct''], sp_cost = c,
     sp_admin = Known Up, sp_source = ex_src, sp_generation = 7\<rparr>"

definition ex_profile :: ReachProfile where
  "ex_profile = \<lparr>rp_id = ''zr'', rp_max_distance_m = Known 120000, rp_max_span_count = Known 2,
     rp_max_loss_db = Known (Fin 40), rp_min_osnr_db = Known (Fin 15), rp_source = ex_src, rp_generation = 7\<rparr>"

definition ex_A :: PortKey where "ex_A = PortKey ''A'' ''t''"
definition ex_B :: PortKey where "ex_B = PortKey ''B'' ''r''"

definition ex_builder :: SnapshotBuilder where
  "ex_builder = \<lparr>b_id = ''net'', b_generation = 3, b_spectrum = \<lparr>grid = Flex12_5GHz, slot_count = 256\<rparr>,
     b_options = \<lparr>allow_unresolved_references = True, reject_self_loops = True\<rparr>,
     b_sources = [ex_source], b_nodes = [ex_node ''B'' 4, ex_node ''A'' 2],
     b_ports = [ex_port ex_B None, ex_port ex_A (Some ''zr'')],
     b_spans = [ex_span ''s1'' ex_A ex_B 10], b_cross_connects = [], b_profiles = [ex_profile],
     b_built = False\<rparr>"

definition ex_digest :: "TopologySnapshot \<Rightarrow> Digest256" where
  "ex_digest s = replicate 32 (of_nat (length (s_ports s)))"

definition ex_snapshot :: TopologySnapshot where
  "ex_snapshot = \<lparr>s_id = ''net'', s_generation = 3, s_spectrum = \<lparr>grid = Flex12_5GHz, slot_count = 256\<rparr>,
     s_digest = replicate 32 2, s_sources = [ex_source], s_nodes = [ex_node ''A'' 2, ex_node ''B'' 4],
     s_ports = [ex_port ex_A (Some ''zr''), ex_port ex_B None], s_spans = [ex_span ''s1'' ex_A ex_B 10],
     s_cross_connects = [], s_profiles = [ex_profile], s_conflicted = [], s_unresolved = [],
     s_coverage_complete = True, s_freshness = Fresh, s_restored_from_incarnation = replicate 16 0,
     s_restored_from_epoch = 0, s_span_arcs = [[\<lparr>span_index = 0, reversed = False\<rparr>], []],
     s_out_cross_connects = [[], []], s_unresolved_at_port = [0, 0]\<rparr>"

lemma ex_Build: "fst (Build ex_digest ex_builder) = Inr ex_snapshot"
  by code_simp

end
