(* ===== verification/Witnesses.thy ===== *)
theory Witnesses
  imports Example
begin

text \<open>
  Concrete instances of the properties that have hypotheses: each theorem is applied to an input on
  which its hypotheses are evaluated.
\<close>

section \<open>Identities and slot masks\<close>

definition ex_mask :: SlotMask where
  "ex_mask = Mask_Set 5 (Mask_Set 4 (Mask_Set 2 Mask_None))"

lemma first_fit_channel_example: "(0 :: nat) < 2 \<and> LowestSetBit (FirstSlotMask ex_mask 2) = Some 4"
proof -
  have pos: "(0 :: nat) < 2" by simp
  have low: "\<not> run_available ex_mask 2 0" "\<not> run_available ex_mask 2 1" "\<not> run_available ex_mask 2 2"
    "\<not> run_available ex_mask 2 3"
    by code_simp+
  have "4 \<le> t" if "run_available ex_mask 2 t" for t
  proof (rule ccontr)
    assume "\<not> 4 \<le> t"
    then have "t = 0 \<or> t = 1 \<or> t = 2 \<or> t = 3" by linarith
    with that low show False by auto
  qed
  moreover have "run_available ex_mask 2 4" by code_simp
  ultimately show ?thesis using first_fit_channel [OF pos, of ex_mask 4] pos by blast
qed

section \<open>The sealed snapshot\<close>

theorem Build_snapshot_wf_witness:
  "fst (Build ex_digest ex_builder) = Inr ex_snapshot \<and> snapshot_wf ex_snapshot"
  using Build_snapshot_wf [OF ex_Build] ex_Build by simp

definition ex_conflicting :: SnapshotBuilder where
  "ex_conflicting = ex_builder\<lparr>b_nodes := [ex_node ''A'' 2, ex_node ''A'' 3, ex_node ''B'' 4]\<rparr>"

theorem Build_reports_conflicts_witness:
  "\<exists>s. fst (Build ex_digest ex_conflicting) = Inr s \<and> IsConflicted s (ForNode ''A'')"
proof -
  have "isl (fst (Build ex_digest ex_conflicting)) = False" by code_simp
  then obtain s where s: "fst (Build ex_digest ex_conflicting) = Inr s"
    by (cases "fst (Build ex_digest ex_conflicting)") auto
  have "ex_node ''A'' 2 \<in> set (b_nodes ex_conflicting)" "ex_node ''A'' 3 \<in> set (b_nodes ex_conflicting)"
    by (simp_all add: ex_conflicting_def)
  moreover have "nd_id (ex_node ''A'' 2) = nd_id (ex_node ''A'' 3)"
    "normal_node (ex_node ''A'' 2) \<noteq> normal_node (ex_node ''A'' 3)" "nd_id (ex_node ''A'' 2) = ''A''"
    by (simp_all add: ex_node_def normal_node_def)
  ultimately have "IsConflicted s (ForNode ''A'')" using Build_reports_conflicts [OF s] by metis
  with s show ?thesis by blast
qed

theorem Build_evidence_wf_witness:
  "fst (Build ex_digest ex_builder) = Inr ex_snapshot \<and> evidence_wf ex_snapshot"
  using Build_evidence_wf [OF ex_Build] ex_Build by simp

end
