(* ===== verification/Outcome.thy ===== *)
theory Outcome
  imports Ids
begin

text \<open>
  The outcome vocabulary of \<open>include/opp/result.hpp\<close> and \<open>src/result.cpp\<close>: the six-way
  classification, the reasons a label is cut, the limitation bits and the search statistics.
  Statistics and cut counts are \<open>nat\<close>: they are bounded by the search ceilings, far below 64 bits.
\<close>

datatype PlanOutcome =
    OutFeasible | OutInfeasible | OutIndeterminate | OutUnsupported | OutCancelled | OutRefused

fun PlanOutcomeName :: "PlanOutcome \<Rightarrow> string" where
  "PlanOutcomeName OutFeasible = ''FEASIBLE''"
| "PlanOutcomeName OutInfeasible = ''INFEASIBLE''"
| "PlanOutcomeName OutIndeterminate = ''INDETERMINATE''"
| "PlanOutcomeName OutUnsupported = ''UNSUPPORTED''"
| "PlanOutcomeName OutCancelled = ''CANCELLED''"
| "PlanOutcomeName OutRefused = ''REFUSED''"

datatype CutReason =
    CutNone | CutSourceAbsent | CutDestinationAbsent | CutSourceAdminDown | CutDestinationAdminDown
  | CutNodeExcluded | CutPortExcluded | CutSpanExcluded | CutFailureDomainExcluded
  | CutFailureDomainMemberLimit | CutSpanAdminDown | CutCrossConnectAdminDown | CutNoOutgoingArc
  | CutPortSpectrumEmpty | CutSegmentProfileAbsent | CutSegmentProfileUnknown
  | CutReachDistanceExceeded | CutReachSpanCountExceeded | CutReachLossExceeded
  | CutReachOsnrBelowMinimum | CutTotalDistanceExceeded | CutTotalSpanCountExceeded
  | CutTotalLossExceeded | CutRegenerationNotAllowed | CutRegenerationLimitExceeded
  | CutConversionNotAllowed | CutHopLimitExceeded | CutCostLimitExceeded | CutLoopPrevented
  | CutDominated | CutUnresolvedReference | CutSearchTruncated | CutUnknownQualityField
  | CutUnknownSpectrum | CutConflictingEvidence | CutPartialCoverage | CutTransmitProfileUnknown

fun CutSlot :: "CutReason \<Rightarrow> nat" where
  "CutSlot CutNone = 0"
| "CutSlot CutSourceAbsent = 1"
| "CutSlot CutDestinationAbsent = 2"
| "CutSlot CutSourceAdminDown = 3"
| "CutSlot CutDestinationAdminDown = 4"
| "CutSlot CutNodeExcluded = 5"
| "CutSlot CutPortExcluded = 6"
| "CutSlot CutSpanExcluded = 7"
| "CutSlot CutFailureDomainExcluded = 8"
| "CutSlot CutFailureDomainMemberLimit = 9"
| "CutSlot CutSpanAdminDown = 10"
| "CutSlot CutCrossConnectAdminDown = 11"
| "CutSlot CutNoOutgoingArc = 12"
| "CutSlot CutPortSpectrumEmpty = 13"
| "CutSlot CutSegmentProfileAbsent = 14"
| "CutSlot CutSegmentProfileUnknown = 15"
| "CutSlot CutReachDistanceExceeded = 16"
| "CutSlot CutReachSpanCountExceeded = 17"
| "CutSlot CutReachLossExceeded = 18"
| "CutSlot CutReachOsnrBelowMinimum = 19"
| "CutSlot CutTotalDistanceExceeded = 20"
| "CutSlot CutTotalSpanCountExceeded = 21"
| "CutSlot CutTotalLossExceeded = 22"
| "CutSlot CutRegenerationNotAllowed = 23"
| "CutSlot CutRegenerationLimitExceeded = 24"
| "CutSlot CutConversionNotAllowed = 25"
| "CutSlot CutHopLimitExceeded = 26"
| "CutSlot CutCostLimitExceeded = 27"
| "CutSlot CutLoopPrevented = 28"
| "CutSlot CutDominated = 29"
| "CutSlot CutUnresolvedReference = 30"
| "CutSlot CutSearchTruncated = 31"
| "CutSlot CutUnknownQualityField = 32"
| "CutSlot CutUnknownSpectrum = 33"
| "CutSlot CutConflictingEvidence = 34"
| "CutSlot CutPartialCoverage = 35"
| "CutSlot CutTransmitProfileUnknown = 36"

fun CutReasonName :: "CutReason \<Rightarrow> string" where
  "CutReasonName CutNone = ''none''"
| "CutReasonName CutSourceAbsent = ''source_absent''"
| "CutReasonName CutDestinationAbsent = ''destination_absent''"
| "CutReasonName CutSourceAdminDown = ''source_admin_down''"
| "CutReasonName CutDestinationAdminDown = ''destination_admin_down''"
| "CutReasonName CutNodeExcluded = ''node_excluded''"
| "CutReasonName CutPortExcluded = ''port_excluded''"
| "CutReasonName CutSpanExcluded = ''span_excluded''"
| "CutReasonName CutFailureDomainExcluded = ''failure_domain_excluded''"
| "CutReasonName CutFailureDomainMemberLimit = ''failure_domain_member_limit''"
| "CutReasonName CutSpanAdminDown = ''span_admin_down''"
| "CutReasonName CutCrossConnectAdminDown = ''crossconnect_admin_down''"
| "CutReasonName CutNoOutgoingArc = ''no_outgoing_arc''"
| "CutReasonName CutPortSpectrumEmpty = ''port_spectrum_empty''"
| "CutReasonName CutSegmentProfileAbsent = ''segment_profile_absent''"
| "CutReasonName CutSegmentProfileUnknown = ''segment_profile_unknown''"
| "CutReasonName CutReachDistanceExceeded = ''reach_distance_exceeded''"
| "CutReasonName CutReachSpanCountExceeded = ''reach_span_count_exceeded''"
| "CutReasonName CutReachLossExceeded = ''reach_loss_exceeded''"
| "CutReasonName CutReachOsnrBelowMinimum = ''reach_osnr_below_minimum''"
| "CutReasonName CutTotalDistanceExceeded = ''total_distance_exceeded''"
| "CutReasonName CutTotalSpanCountExceeded = ''total_span_count_exceeded''"
| "CutReasonName CutTotalLossExceeded = ''total_loss_exceeded''"
| "CutReasonName CutRegenerationNotAllowed = ''regeneration_not_allowed''"
| "CutReasonName CutRegenerationLimitExceeded = ''regeneration_limit_exceeded''"
| "CutReasonName CutConversionNotAllowed = ''conversion_not_allowed''"
| "CutReasonName CutHopLimitExceeded = ''hop_limit_exceeded''"
| "CutReasonName CutCostLimitExceeded = ''cost_limit_exceeded''"
| "CutReasonName CutLoopPrevented = ''loop_prevented''"
| "CutReasonName CutDominated = ''dominated''"
| "CutReasonName CutUnresolvedReference = ''unresolved_reference''"
| "CutReasonName CutSearchTruncated = ''search_truncated''"
| "CutReasonName CutUnknownQualityField = ''unknown_quality_field''"
| "CutReasonName CutUnknownSpectrum = ''unknown_spectrum''"
| "CutReasonName CutConflictingEvidence = ''conflicting_evidence''"
| "CutReasonName CutPartialCoverage = ''partial_coverage''"
| "CutReasonName CutTransmitProfileUnknown = ''transmit_profile_unknown''"

text \<open>The complete enumeration, in declaration order.\<close>

definition all_cut_reasons :: "CutReason list" where
  "all_cut_reasons =
     [CutNone, CutSourceAbsent, CutDestinationAbsent, CutSourceAdminDown, CutDestinationAdminDown,
      CutNodeExcluded, CutPortExcluded, CutSpanExcluded, CutFailureDomainExcluded, CutFailureDomainMemberLimit,
      CutSpanAdminDown, CutCrossConnectAdminDown, CutNoOutgoingArc, CutPortSpectrumEmpty, CutSegmentProfileAbsent,
      CutSegmentProfileUnknown, CutReachDistanceExceeded, CutReachSpanCountExceeded, CutReachLossExceeded, CutReachOsnrBelowMinimum,
      CutTotalDistanceExceeded, CutTotalSpanCountExceeded, CutTotalLossExceeded, CutRegenerationNotAllowed, CutRegenerationLimitExceeded,
      CutConversionNotAllowed, CutHopLimitExceeded, CutCostLimitExceeded, CutLoopPrevented, CutDominated,
      CutUnresolvedReference, CutSearchTruncated, CutUnknownQualityField, CutUnknownSpectrum, CutConflictingEvidence,
      CutPartialCoverage, CutTransmitProfileUnknown]"

definition kCutReasonCount :: nat where
  "kCutReasonCount = CutSlot CutTransmitProfileUnknown + 1"

definition FindCutReasonByName :: "string \<Rightarrow> CutReason option" where
  "FindCutReasonByName name = find (\<lambda>r. CutReasonName r = name) all_cut_reasons"

section \<open>Limitations\<close>

definition kLimitationNone :: u32 where "kLimitationNone = 0"
definition kLimitationUnknownAdjacency :: u32 where "kLimitationUnknownAdjacency = push_bit 0 1"
definition kLimitationUnknownQualityField :: u32 where "kLimitationUnknownQualityField = push_bit 1 1"
definition kLimitationUnknownSpectrum :: u32 where "kLimitationUnknownSpectrum = push_bit 2 1"
definition kLimitationConflictingEvidence :: u32 where "kLimitationConflictingEvidence = push_bit 3 1"
definition kLimitationStaleEvidence :: u32 where "kLimitationStaleEvidence = push_bit 4 1"
definition kLimitationRestoredEvidence :: u32 where "kLimitationRestoredEvidence = push_bit 5 1"
definition kLimitationSearchTruncated :: u32 where "kLimitationSearchTruncated = push_bit 6 1"
definition kLimitationUnresolvedReference :: u32 where "kLimitationUnresolvedReference = push_bit 7 1"
definition kLimitationDisjointnessGreedy :: u32 where "kLimitationDisjointnessGreedy = push_bit 8 1"
definition kLimitationOptimalityNotProven :: u32 where "kLimitationOptimalityNotProven = push_bit 9 1"

definition kLimitationNames :: "(u32 \<times> string) list" where
  "kLimitationNames =
     [(kLimitationUnknownAdjacency, ''unknown_adjacency''),
      (kLimitationUnknownQualityField, ''unknown_quality_field''),
      (kLimitationUnknownSpectrum, ''unknown_spectrum''),
      (kLimitationConflictingEvidence, ''conflicting_evidence''),
      (kLimitationStaleEvidence, ''stale_evidence''),
      (kLimitationRestoredEvidence, ''restored_evidence''),
      (kLimitationSearchTruncated, ''search_truncated''),
      (kLimitationUnresolvedReference, ''unresolved_reference''),
      (kLimitationDisjointnessGreedy, ''disjointness_greedy''),
      (kLimitationOptimalityNotProven, ''optimality_not_proven'')]"

definition DescribeLimitations :: "u32 \<Rightarrow> string" where
  "DescribeLimitations limitations =
     (let out = fold (\<lambda>(b, name) out. if limitations AND b = 0 then out
                        else (if out \<noteq> [] then out @ '','' else out) @ name) kLimitationNames []
      in if out = [] then ''none'' else out)"

section \<open>Witnesses, cut counts, statistics\<close>

record Witness =
  w_reason :: CutReason
  w_resource :: ResourceKey
  w_detail :: string

record CutCount =
  cut_reason :: CutReason
  cut_count :: nat

record PlanningStatistics =
  labels_created :: nat
  labels_expanded :: nat
  labels_dominated :: nat
  peak_frontier :: nat
  arcs_examined :: nat
  states_visited :: nat
  stat_truncated :: bool

definition no_statistics :: PlanningStatistics where
  "no_statistics = \<lparr>labels_created = 0, labels_expanded = 0, labels_dominated = 0, peak_frontier = 0,
     arcs_examined = 0, states_visited = 0, stat_truncated = False\<rparr>"

section \<open>Lemmas\<close>

lemma set_all_cut_reasons [simp]: "set all_cut_reasons = UNIV"
proof -
  have "r \<in> set all_cut_reasons" for r by (cases r) (simp_all add: all_cut_reasons_def)
  then show ?thesis by auto
qed

lemma map_CutSlot_all: "map CutSlot all_cut_reasons = [0 ..< kCutReasonCount]"
  by code_simp

lemma length_all_cut_reasons: "length all_cut_reasons = kCutReasonCount"
  using map_CutSlot_all by (metis length_map length_upt diff_zero)

lemma CutSlot_less: "CutSlot r < kCutReasonCount"
proof -
  have "CutSlot r \<in> set (map CutSlot all_cut_reasons)" by simp
  then show ?thesis unfolding map_CutSlot_all by simp
qed

lemma CutSlot_inject: "CutSlot a = CutSlot b \<longleftrightarrow> a = b"
proof -
  have "distinct (map CutSlot all_cut_reasons)" unfolding map_CutSlot_all by simp
  then have "inj_on CutSlot UNIV" by (simp add: distinct_map)
  then show ?thesis by (simp add: inj_eq)
qed

lemma distinct_cut_names: "distinct (map CutReasonName all_cut_reasons)"
  by code_simp

interpretation cut_names: name_table CutReasonName FindCutReasonByName
proof
  have inj: "inj_on CutReasonName UNIV" using distinct_cut_names by (simp add: distinct_map)
  show parse: "FindCutReasonByName s = Some e \<Longrightarrow> s = CutReasonName e" for s e
    by (auto simp: FindCutReasonByName_def find_Some_iff)
  show "FindCutReasonByName (CutReasonName e) = Some e" for e
  proof (cases "FindCutReasonByName (CutReasonName e)")
    case None
    then have "\<forall>x. CutReasonName x \<noteq> CutReasonName e" by (simp add: FindCutReasonByName_def find_None_iff)
    then show ?thesis by blast
  next
    case (Some f)
    with parse [OF Some] inj show ?thesis by (simp add: inj_eq)
  qed
qed

end
