(* ===== verification/Canonical.thy ===== *)
theory Canonical
  imports Ids
begin

text \<open>
  Checked arithmetic of the canonical encoding layer (\<open>src/canonical.cpp\<close>).
\<close>

section \<open>Checked arithmetic\<close>

text \<open>
  Both functions return whether the exact result fits in 64 bits and store it when it does; the
  comparison is made before the operation, on the wrapped type.
\<close>

definition AddCheckedU64 :: "u64 \<Rightarrow> u64 \<Rightarrow> u64 option" where
  "AddCheckedU64 lhs rhs = (if lhs > - 1 - rhs then None else Some (lhs + rhs))"

definition MulCheckedU64 :: "u64 \<Rightarrow> u64 \<Rightarrow> u64 option" where
  "MulCheckedU64 lhs rhs = (if lhs \<noteq> 0 \<and> rhs > (- 1) div lhs then None else Some (lhs * rhs))"

lemma unat_max_u64: "unat (- 1 :: u64) = 2 ^ 64 - 1"
  by (simp add: unsigned_minus_1_eq_mask mask_eq_exp_minus_1)

lemma AddCheckedU64_Some:
  "AddCheckedU64 a b = Some c \<longleftrightarrow> unat a + unat b < 2 ^ 64 \<and> unat c = unat a + unat b"
proof -
  have "unat (- 1 - b) = 2 ^ 64 - 1 - unat b"
    by (subst unat_sub) (simp_all add: unat_max_u64)
  then have fits: "\<not> a > - 1 - b \<longleftrightarrow> unat a + unat b < 2 ^ 64"
    using unsigned_less [of b, where 'a = nat] by (auto simp: word_less_nat_alt)
  show ?thesis
  proof
    assume c: "AddCheckedU64 a b = Some c"
    then have "\<not> a > - 1 - b" by (simp add: AddCheckedU64_def split: if_splits)
    with c fits show "unat a + unat b < 2 ^ 64 \<and> unat c = unat a + unat b"
      using unat_add_lem [of a b] by (auto simp: AddCheckedU64_def split: if_splits)
  next
    assume c: "unat a + unat b < 2 ^ 64 \<and> unat c = unat a + unat b"
    then have "unat c = unat (a + b)" using unat_add_lem [of a b] by simp
    then have "c = a + b" by (simp add: word_unat_eq_iff)
    with c fits show "AddCheckedU64 a b = Some c" by (simp add: AddCheckedU64_def)
  qed
qed

lemma AddCheckedU64_None: "AddCheckedU64 a b = None \<longleftrightarrow> \<not> unat a + unat b < 2 ^ 64"
proof -
  have "AddCheckedU64 a b \<noteq> None \<longleftrightarrow> (\<exists>c. AddCheckedU64 a b = Some c)" by (cases "AddCheckedU64 a b") auto
  also have "\<dots> \<longleftrightarrow> unat a + unat b < 2 ^ 64"
    using AddCheckedU64_Some [of a b "a + b"] unat_add_lem [of a b] by (auto simp: AddCheckedU64_Some)
  finally show ?thesis by blast
qed

end
