(* ===== verification/Search.thy ===== *)
theory Search
  imports Request Outcome Canonical "HOL-Library.AList"
begin

text \<open>
  The label search (\<open>src/search.hpp\<close>, \<open>src/search.cpp\<close>), function by function and, inside
  \<open>RunSearch\<close>, block by block.

  The local vectors that \<open>RunSearch\<close> derives once from the snapshot and the request form the
  record \<open>SearchContext\<close>; the variables its loop updates form \<open>SearchState\<close>.  An index
  equal to \<open>kNoIndex\<close> is \<open>None\<close>.  Hop, span and regeneration counters are \<open>nat\<close>: the code
  compares them with bounds of at most 512 before it increments them.  Costs and distances keep
  their 64 bits.  The eligibility bits a label carries are left out: the search writes them and
  nothing reads them (the plan builder derives its own).  A published value and its \<open>known\<close> flag
  (\<open>SpanInfo\<close>, \<open>ProfileInfo\<close>) are one \<open>Evidence\<close> value; an info structure holds a pointer to
  the domain list of its record, which is never null.

  A guard of the expansion loop either cuts the arc, or makes the extended label unprovable and
  records a limitation with a witness, or only records.  A run of guards is a list of \<open>check\<close>,
  in the order of the code.

  Cancellation is an oracle: \<open>cancel k\<close> is what the \<open>k\<close>-th poll of the token returns.  The
  observer callback returns nothing to the search, so it does not appear.
\<close>

section \<open>Facts about single resources\<close>

datatype Fact = Good | Blocked | Missing

definition ClassifyAdmin :: "AdminState Evidence \<Rightarrow> Fact" where
  "ClassifyAdmin admin = (case admin of Known a \<Rightarrow> if a = Up then Good else Blocked | _ \<Rightarrow> Missing)"

record PortInfo =
  pi_base_mask :: SlotMask
  pi_mask_known :: bool
  pi_admin :: Fact
  pi_conflicting :: bool
  pi_partial_coverage :: bool
  pi_unresolved_arcs :: bool
  pi_transmit :: Fact
  pi_transmit_absent :: bool
  pi_profile_index :: "nat option"
  pi_node_index :: "nat option"

record SpanInfo =
  si_length_m :: "u64 Evidence"
  si_loss_db :: "double Evidence"
  si_osnr_db :: "double Evidence"
  si_base_mask :: SlotMask
  si_mask_known :: bool
  si_admin :: Fact
  si_conflicting :: bool
  si_cost :: u64
  si_domains :: "FailureDomainId list"

record CrossConnectInfo =
  ci_base_mask :: SlotMask
  ci_mask_known :: bool
  ci_admin :: Fact
  ci_conflicting :: bool
  ci_cost :: u64
  ci_op :: CrossConnectOp
  ci_to_port :: "nat option"
  ci_domains :: "FailureDomainId list"

text \<open>
  The channel starts a resource admits: all starts of free runs of the requested width; a resource
  that does not publish its blocked set is taken as entirely free.
\<close>

definition base_mask :: "SpectrumModel \<Rightarrow> nat \<Rightarrow> SlotMask Evidence \<Rightarrow> SlotMask" where
  "base_mask spectrum width blocked =
     (let n = unat (slot_count spectrum)
      in FirstSlotMask (case blocked of Known b \<Rightarrow> usable_slots n b | _ \<Rightarrow> Mask_All n) width)"

definition port_info_of :: "TopologySnapshot \<Rightarrow> nat \<Rightarrow> nat \<Rightarrow> PortInfo" where
  "port_info_of s width i =
     (let r = s_ports s ! i;
          node = NodeIndex s (pk_node (pt_key r));
          node_partial = (case node of None \<Rightarrow> True | Some n \<Rightarrow> nd_coverage (s_nodes s ! n) \<noteq> Complete);
          node_conflict = (case node of None \<Rightarrow> False | Some n \<Rightarrow> IsConflicted s (ForNode (nd_id (s_nodes s ! n))));
          profile = (case pt_transmit_profile r of Known (Some p) \<Rightarrow> ProfileIndex s p | _ \<Rightarrow> None)
      in \<lparr>pi_base_mask = base_mask (s_spectrum s) width (pt_blocked_slots r),
          pi_mask_known = HasValue (pt_blocked_slots r),
          pi_admin = ClassifyAdmin (pt_admin r),
          pi_conflicting = (IsConflicted s (ForPort (pt_key r)) \<or> node_conflict),
          pi_partial_coverage = node_partial,
          pi_unresolved_arcs = HasUnresolvedArcs s i,
          pi_transmit = (if profile = None then Missing else Good),
          pi_transmit_absent = (pt_transmit_profile r = Known None),
          pi_profile_index = profile,
          pi_node_index = node\<rparr>)"

definition span_info_of :: "TopologySnapshot \<Rightarrow> nat \<Rightarrow> nat \<Rightarrow> SpanInfo" where
  "span_info_of s width i =
     (let r = s_spans s ! i
      in \<lparr>si_length_m = sp_length_m r, si_loss_db = sp_loss_db r, si_osnr_db = sp_osnr_db r,
          si_base_mask = base_mask (s_spectrum s) width (sp_blocked_slots r),
          si_mask_known = HasValue (sp_blocked_slots r),
          si_admin = ClassifyAdmin (sp_admin r),
          si_conflicting = IsConflicted s (ForSpan (sp_id r)),
          si_cost = sp_cost r, si_domains = sp_failure_domains r\<rparr>)"

definition cross_connect_info_of :: "TopologySnapshot \<Rightarrow> nat \<Rightarrow> nat \<Rightarrow> CrossConnectInfo" where
  "cross_connect_info_of s width i =
     (let r = s_cross_connects s ! i
      in \<lparr>ci_base_mask = base_mask (s_spectrum s) width (cc_blocked_slots r),
          ci_mask_known = HasValue (cc_blocked_slots r),
          ci_admin = ClassifyAdmin (cc_admin r),
          ci_conflicting = IsConflicted s (ForCrossConnect (cc_id r)),
          ci_cost = cc_cost r, ci_op = cc_op r, ci_to_port = PortIndex s (cc_to r),
          ci_domains = cc_failure_domains r\<rparr>)"

section \<open>Optical signal to noise\<close>

definition OsnrToInverse :: "libm \<Rightarrow> double \<Rightarrow> double" where
  "OsnrToInverse lm osnr_db = lm_pow lm (Fin 10) (ddiv_const (dneg osnr_db) 10)"

definition InverseToOsnr :: "libm \<Rightarrow> double \<Rightarrow> double" where
  "InverseToOsnr lm x =
     (if dle x (Fin 0) then Fin 1000000000 else dmul (Fin (- 10)) (lm_log10 lm x))"

text \<open>The literal \<open>1.0e-9\<close>, the tolerance of every loss and OSNR comparison.\<close>

definition tolerance :: double where
  "tolerance = fl (1 / 1000000000)"

lemma tolerance_value: "tolerance = Fin (4835703278458517 / 4835703278458516698824704)"
proof -
  have b: "binade (1 / 1000000000) = - 30"
    by (rule binade_unique) (simp_all add: power_int_minus)
  have u: "(2 :: rat) powi (- 82) = 1 / 4835703278458516698824704" by (simp add: power_int_minus)
  have "round_half_even (4835703278458516698824704 / 1000000000) = 4835703278458517"
  proof -
    have "\<lfloor>4835703278458516698824704 / 1000000000 :: rat\<rfloor> = 4835703278458516" by (rule floor_unique) simp_all
    then show ?thesis by (simp add: round_half_even_def Let_def)
  qed
  then have "round_pos (1 / 1000000000) = 4835703278458517 / 4835703278458516698824704"
    by (simp add: round_pos_def b ulp_exp_def u)
  then show ?thesis by (simp add: tolerance_def fl_def double_overflow_def)
qed

section \<open>Labels\<close>

datatype ArcKind = SpanArcKind | CrossConnectArcKind

record ArcRef =
  ar_kind :: ArcKind
  ar_index :: nat
  ar_reversed :: bool

record Label =
  l_port_index :: nat
  l_parent :: "nat option"
  l_arc_kind :: ArcKind
  l_arc_index :: nat
  l_arc_reversed :: bool
  l_is_start :: bool
  l_profile_index :: "nat option"
  l_mask :: SlotMask
  l_cost :: u64
  l_distance_m :: u64
  l_loss_db :: double
  l_osnr_inverse :: double
  l_span_count :: nat
  l_hops :: nat
  l_regenerations :: nat
  l_proven :: bool
  l_sequence :: nat
  l_retained :: bool
  l_expanded :: bool

record QueueEntry =
  q_cost :: u64
  q_hops :: nat
  q_regenerations :: nat
  q_sequence :: nat
  q_label :: nat

text \<open>\<open>QueueOrder\<close>: the entry that \<open>std::priority_queue\<close> serves first is the least one.\<close>

definition queue_before :: "QueueEntry \<Rightarrow> QueueEntry \<Rightarrow> bool" where
  "queue_before a b =
     (if q_cost a \<noteq> q_cost b then q_cost a < q_cost b
      else if q_hops a \<noteq> q_hops b then q_hops a < q_hops b
      else if q_regenerations a \<noteq> q_regenerations b then q_regenerations a < q_regenerations b
      else q_sequence a < q_sequence b)"

definition KeyLess :: "u64 \<Rightarrow> nat \<Rightarrow> nat \<Rightarrow> u64 \<Rightarrow> nat \<Rightarrow> nat \<Rightarrow> bool" where
  "KeyLess lhs_cost lhs_hops lhs_regen rhs_cost rhs_hops rhs_regen =
     (if lhs_cost \<noteq> rhs_cost then lhs_cost < rhs_cost
      else if lhs_hops \<noteq> rhs_hops then lhs_hops < rhs_hops
      else lhs_regen < rhs_regen)"

definition Dominates :: "Label \<Rightarrow> Label \<Rightarrow> bool" where
  "Dominates candidate reference =
     (if \<not> l_proven candidate \<and> l_proven reference then False
      else if l_cost candidate > l_cost reference then False
      else if l_distance_m candidate > l_distance_m reference then False
      else if dless (l_loss_db reference) (l_loss_db candidate) then False
      else if dless (l_osnr_inverse reference) (l_osnr_inverse candidate) then False
      else if l_span_count candidate > l_span_count reference then False
      else if l_hops candidate > l_hops reference then False
      else if l_regenerations candidate > l_regenerations reference then False
      else Mask_IsSubsetOf (l_mask reference) (l_mask candidate))"

text \<open>
  The cursor walk along the parent links, which \<open>PortOnPath\<close>, \<open>DomainCounter::Count\<close> and the
  reconstruction of a path all perform: the labels met, from the given one to the start.  A label is
  always appended after its parent; the test \<open>p < i\<close> states that and makes the walk end.
\<close>

fun label_path :: "Label list \<Rightarrow> nat \<Rightarrow> Label list" where
  "label_path labels i =
     labels ! i # (case l_parent (labels ! i) of
                     Some p \<Rightarrow> if p < i then label_path labels p else []
                   | None \<Rightarrow> [])"

declare label_path.simps [simp del]

definition on_path :: "Label list \<Rightarrow> nat \<Rightarrow> bool" where
  "on_path path port = list_ex (\<lambda>l. l_port_index l = port) path"

definition PortOnPath :: "Label list \<Rightarrow> nat \<Rightarrow> nat \<Rightarrow> bool" where
  "PortOnPath labels label_index port_index = on_path (label_path labels label_index) port_index"

section \<open>The context of one search\<close>

record PlannerOptions =
  expansion_ceiling :: nat
  label_ceiling :: nat
  collect_witnesses :: bool

record SearchContext =
  cx_snapshot :: TopologySnapshot
  cx_request :: PlanningRequest
  cx_libm :: libm
  cx_excluded_nodes :: "NodeId list"
  cx_excluded_ports :: "PortKey list"
  cx_excluded_spans :: "SpanId list"
  cx_excluded_cross_connects :: "CrossConnectId list"
  cx_excluded_domains :: "FailureDomainId list"
  cx_port_info :: "PortInfo list"
  cx_span_info :: "SpanInfo list"
  cx_cross_connect_info :: "CrossConnectInfo list"
  cx_label_limit :: nat
  cx_expansion_limit :: nat

definition search_context :: "libm \<Rightarrow> TopologySnapshot \<Rightarrow> PlanningRequest \<Rightarrow> PlannerOptions \<Rightarrow> SearchContext" where
  "search_context lm s r options =
     (let c = rq_constraints r; width = rq_channel_width_slots r
      in \<lparr>cx_snapshot = s, cx_request = r, cx_libm = lm,
          cx_excluded_nodes = std_sort (<) (excluded_nodes c),
          cx_excluded_ports = std_sort (<) (excluded_ports c),
          cx_excluded_spans = std_sort (<) (excluded_spans c),
          cx_excluded_cross_connects = std_sort (<) (excluded_cross_connects c),
          cx_excluded_domains = std_sort (<) (excluded_failure_domains c),
          cx_port_info = map (port_info_of s width) [0 ..< length (s_ports s)],
          cx_span_info = map (span_info_of s width) [0 ..< length (s_spans s)],
          cx_cross_connect_info = map (cross_connect_info_of s width) [0 ..< length (s_cross_connects s)],
          cx_label_limit = min (label_ceiling options) (rq_max_search_labels r),
          cx_expansion_limit = min (expansion_ceiling options) (rq_max_search_expansions r)\<rparr>)"

abbreviation ContainsSorted :: "'a::linorder list \<Rightarrow> 'a \<Rightarrow> bool" where
  "ContainsSorted values v \<equiv> binary_search values v"

definition DomainsIntersect :: "FailureDomainId list \<Rightarrow> FailureDomainId list \<Rightarrow> bool" where
  "DomainsIntersect domains excluded = list_ex (\<lambda>d. ContainsSorted excluded d) domains"

definition transition_node_cost :: "SearchContext \<Rightarrow> nat \<Rightarrow> nat \<Rightarrow> u64" where
  "transition_node_cost cx from to =
     (let from_node = pi_node_index (cx_port_info cx ! from); to_node = pi_node_index (cx_port_info cx ! to)
      in case to_node of
           None \<Rightarrow> 0
         | Some n \<Rightarrow> if to_node = from_node then 0 else nd_transit_cost (s_nodes (cx_snapshot cx) ! n))"

section \<open>Failure domain members of a route\<close>

definition one_if :: "bool \<Rightarrow> nat" where
  "one_if b = (if b then 1 else 0)"

definition port_member :: "SearchContext \<Rightarrow> nat \<Rightarrow> FailureDomainId \<Rightarrow> nat" where
  "port_member cx p d = one_if (ContainsSorted (pt_failure_domains (s_ports (cx_snapshot cx) ! p)) d)"

definition node_member :: "SearchContext \<Rightarrow> nat option \<Rightarrow> FailureDomainId \<Rightarrow> nat" where
  "node_member cx node d =
     (case node of
        None \<Rightarrow> 0
      | Some n \<Rightarrow> one_if (ContainsSorted (nd_failure_domains (s_nodes (cx_snapshot cx) ! n)) d))"

definition arc_member :: "SearchContext \<Rightarrow> ArcKind \<Rightarrow> nat \<Rightarrow> FailureDomainId \<Rightarrow> nat" where
  "arc_member cx kind i d =
     one_if (ContainsSorted (case kind of SpanArcKind \<Rightarrow> si_domains (cx_span_info cx ! i)
                             | CrossConnectArcKind \<Rightarrow> ci_domains (cx_cross_connect_info cx ! i)) d)"

text \<open>An arc counts itself, the port it arrives at, and the node it enters when that changes.\<close>

definition hop_members :: "SearchContext \<Rightarrow> nat \<Rightarrow> ArcKind \<Rightarrow> nat \<Rightarrow> nat \<Rightarrow> FailureDomainId \<Rightarrow> nat" where
  "hop_members cx from kind i to d =
     (let node = pi_node_index (cx_port_info cx ! to)
      in arc_member cx kind i d + port_member cx to d +
         (if node \<noteq> pi_node_index (cx_port_info cx ! from) then node_member cx node d else 0))"

fun path_members :: "SearchContext \<Rightarrow> Label list \<Rightarrow> FailureDomainId \<Rightarrow> nat" where
  "path_members cx [] d = 0"
| "path_members cx (l # rest) d =
     (if l_is_start l
      then port_member cx (l_port_index l) d + node_member cx (pi_node_index (cx_port_info cx ! l_port_index l)) d
      else hop_members cx (l_port_index (hd rest)) (l_arc_kind l) (l_arc_index l) (l_port_index l) d
           + path_members cx rest d)"

definition DomainCounter_Count ::
  "SearchContext \<Rightarrow> Label list \<Rightarrow> ArcKind \<Rightarrow> nat \<Rightarrow> nat \<Rightarrow> FailureDomainId \<Rightarrow> nat" where
  "DomainCounter_Count cx path kind i target d =
     path_members cx path d + hop_members cx (l_port_index (hd path)) kind i target d"

definition member_limit_exceeded :: "SearchContext \<Rightarrow> Label list \<Rightarrow> ArcKind \<Rightarrow> nat \<Rightarrow> nat \<Rightarrow> bool" where
  "member_limit_exceeded cx path kind i target =
     list_ex (\<lambda>(d, limit). DomainCounter_Count cx path kind i target d > limit)
       (max_members_per_failure_domain (rq_constraints (cx_request cx)))"

end
