(* ===== verification/Expansion.thy ===== *)
theory Expansion
  imports Search
begin

text \<open>
  The expansion of one label over its outgoing arcs (the two inner loops of \<open>RunSearch\<close>) and the
  start label.  Each guard of the code is one entry of a list of checks, in source order.
\<close>

section \<open>Checks\<close>

record gap_note =
  n_limitation :: u32
  n_witness :: Witness

definition mk_note :: "u32 \<Rightarrow> CutReason \<Rightarrow> ResourceKey \<Rightarrow> string \<Rightarrow> gap_note" where
  "mk_note lm_bit reason res text =
     \<lparr>n_limitation = lm_bit, n_witness = \<lparr>w_reason = reason, w_resource = res, w_detail = text\<rparr>\<rparr>"

text \<open>
  \<open>CutIf\<close> is \<open>if (c) note_cut(r), continue\<close>; \<open>UnprovenIf\<close> clears \<open>next.proven\<close> and
  records a limitation with its witness; \<open>NoteIf\<close> only records.
\<close>

datatype check = CutIf bool CutReason | UnprovenIf bool gap_note | NoteIf bool gap_note

text \<open>
  Runs the checks with the provability flag: the notes recorded on the way, and either the reason
  that cut the arc or the final flag.
\<close>

fun run_checks :: "check list \<Rightarrow> bool \<Rightarrow> gap_note list \<times> (CutReason + bool)" where
  "run_checks [] proven = ([], Inr proven)"
| "run_checks (CutIf c r # cs) proven = (if c then ([], Inl r) else run_checks cs proven)"
| "run_checks (UnprovenIf c n # cs) proven =
     (if c then (let (ns, res) = run_checks cs False in (n # ns, res)) else run_checks cs proven)"
| "run_checks (NoteIf c n # cs) proven =
     (if c then (let (ns, res) = run_checks cs proven in (n # ns, res)) else run_checks cs proven)"

text \<open>What one arc contributes: it is cut, or it yields a label to push.\<close>

datatype arc_result = ArcCut "gap_note list" CutReason | ArcPush "gap_note list" Label

section \<open>Guards on the target port\<close>

text \<open>
  The target port of an arc, after the arc's own guards.  The same sequence is written for
  cross-connects and for spans.
\<close>

definition target_checks :: "SearchContext \<Rightarrow> nat \<Rightarrow> check list" where
  "target_checks cx t =
     (let info = cx_port_info cx ! t; res = ForPort (pt_key (s_ports (cx_snapshot cx) ! t))
      in [CutIf (pi_admin info = Blocked) CutDestinationAdminDown,
          UnprovenIf (pi_admin info = Missing)
            (mk_note kLimitationUnknownQualityField CutDestinationAdminDown res ''administrative state not published''),
          UnprovenIf (pi_conflicting info)
            (mk_note kLimitationConflictingEvidence CutConflictingEvidence res ''two records disagree about this port''),
          UnprovenIf (pi_partial_coverage info)
            (mk_note kLimitationUnknownAdjacency CutPartialCoverage res
               ''the owning node does not publish complete adjacency''),
          UnprovenIf (pi_unresolved_arcs info)
            (mk_note kLimitationUnresolvedReference CutUnresolvedReference res
               ''an arc referencing this port has no record'')])"

text \<open>The three checked additions: the arc, the port it arrives at, the node it enters.\<close>

definition next_cost :: "SearchContext \<Rightarrow> Label \<Rightarrow> u64 \<Rightarrow> nat \<Rightarrow> u64 option" where
  "next_cost cx current arc_cost t =
     (case AddCheckedU64 (l_cost current) arc_cost of
        None \<Rightarrow> None
      | Some c1 \<Rightarrow>
          (case AddCheckedU64 c1 (pt_transit_cost (s_ports (cx_snapshot cx) ! t)) of
             None \<Rightarrow> None
           | Some c2 \<Rightarrow> AddCheckedU64 c2 (transition_node_cost cx (l_port_index current) t)))"

definition above_limit :: "'a::ord \<Rightarrow> 'a option \<Rightarrow> bool" where
  "above_limit v limit = (case limit of None \<Rightarrow> False | Some m \<Rightarrow> v > m)"

text \<open>Hop limit, loop prevention, cost and failure-domain members, shared by both arc kinds.\<close>

definition cost_checks :: "SearchContext \<Rightarrow> Label list \<Rightarrow> ArcKind \<Rightarrow> nat \<Rightarrow> nat \<Rightarrow> u64 option \<Rightarrow> check list" where
  "cost_checks cx path kind i t cost =
     [CutIf (on_path path t) CutLoopPrevented,
      CutIf (cost = None) CutCostLimitExceeded,
      CutIf (above_limit (the cost) (rq_max_total_cost (cx_request cx))) CutCostLimitExceeded,
      CutIf (member_limit_exceeded cx path kind i t) CutFailureDomainMemberLimit]"

section \<open>Cross-connect arcs\<close>

definition cross_connect_entry_checks :: "SearchContext \<Rightarrow> nat \<Rightarrow> check list" where
  "cross_connect_entry_checks cx x =
     (let r = s_cross_connects (cx_snapshot cx) ! x; info = cx_cross_connect_info cx ! x
      in [CutIf (ContainsSorted (cx_excluded_cross_connects cx) (cc_id r) \<or>
                 ContainsSorted (cx_excluded_nodes cx) (pk_node (cc_to r)) \<or>
                 ContainsSorted (cx_excluded_ports cx) (cc_to r)) CutPortExcluded,
          NoteIf (ci_conflicting info)
            (mk_note kLimitationConflictingEvidence CutConflictingEvidence (ForCrossConnect (cc_id r))
               ''two records disagree about this cross-connect''),
          CutIf (ci_admin info = Blocked) CutCrossConnectAdminDown,
          CutIf (ci_to_port info = None) CutUnresolvedReference])"

definition cross_connect_op_checks :: "SearchContext \<Rightarrow> Label \<Rightarrow> nat \<Rightarrow> check list" where
  "cross_connect_op_checks cx current x =
     (let c = rq_constraints (cx_request cx); op = cc_op (s_cross_connects (cx_snapshot cx) ! x)
      in [CutIf (DomainsIntersect (ci_domains (cx_cross_connect_info cx ! x)) (cx_excluded_domains cx))
            CutFailureDomainExcluded,
          CutIf (op = Regenerate \<and> \<not> allow_regeneration c) CutRegenerationNotAllowed,
          CutIf (op = Convert \<and> \<not> allow_wavelength_conversion c) CutConversionNotAllowed,
          CutIf (op = Regenerate \<and> l_regenerations current \<ge> rq_max_regenerations (cx_request cx))
            CutRegenerationLimitExceeded,
          CutIf (l_hops current + 1 > rq_max_hops (cx_request cx)) CutHopLimitExceeded])"

definition cross_connect_mask :: "SearchContext \<Rightarrow> Label \<Rightarrow> nat \<Rightarrow> nat \<Rightarrow> SlotMask" where
  "cross_connect_mask cx current x t =
     (let target = pi_base_mask (cx_port_info cx ! t)
      in case ci_op (cx_cross_connect_info cx ! x) of
           Express \<Rightarrow> Mask_Intersect (Mask_Intersect (l_mask current) (ci_base_mask (cx_cross_connect_info cx ! x))) target
         | Convert \<Rightarrow> target
         | Regenerate \<Rightarrow> target)"

definition cross_connect_evidence_checks :: "SearchContext \<Rightarrow> Label \<Rightarrow> nat \<Rightarrow> nat \<Rightarrow> check list" where
  "cross_connect_evidence_checks cx current x t =
     (let r = s_cross_connects (cx_snapshot cx) ! x; info = cx_cross_connect_info cx ! x;
          target = cx_port_info cx ! t; regen = (cc_op r = Regenerate)
      in UnprovenIf (ci_admin info \<noteq> Good)
           (mk_note kLimitationUnknownQualityField CutCrossConnectAdminDown (ForCrossConnect (cc_id r))
              ''administrative state not published'')
         # target_checks cx t
         @ [UnprovenIf (\<not> ci_mask_known info \<or> \<not> pi_mask_known target)
              (mk_note kLimitationUnknownSpectrum CutUnknownSpectrum (ForCrossConnect (cc_id r))
                 ''spectrum capability not published''),
            CutIf (regen \<and> pi_transmit_absent target) CutSegmentProfileAbsent,
            UnprovenIf (regen \<and> pi_transmit target \<noteq> Good)
              (mk_note kLimitationUnknownQualityField CutTransmitProfileUnknown
                 (ForPort (pt_key (s_ports (cx_snapshot cx) ! t))) ''transmit reach profile not published''),
            CutIf (Mask_IsEmpty (cross_connect_mask cx current x t)) CutPortSpectrumEmpty])"

definition cross_connect_checks :: "SearchContext \<Rightarrow> Label list \<Rightarrow> Label \<Rightarrow> nat \<Rightarrow> nat \<Rightarrow> check list" where
  "cross_connect_checks cx path current x t =
     cross_connect_op_checks cx current x
     @ cost_checks cx path CrossConnectArcKind x t (next_cost cx current (ci_cost (cx_cross_connect_info cx ! x)) t)
     @ cross_connect_evidence_checks cx current x t"

definition cross_connect_label :: "SearchContext \<Rightarrow> nat \<Rightarrow> Label \<Rightarrow> nat \<Rightarrow> nat \<Rightarrow> bool \<Rightarrow> Label" where
  "cross_connect_label cx i current x t proven =
     (let regen = (cc_op (s_cross_connects (cx_snapshot cx) ! x) = Regenerate)
      in \<lparr>l_port_index = t, l_parent = Some i, l_arc_kind = CrossConnectArcKind, l_arc_index = x,
          l_arc_reversed = False, l_is_start = False,
          l_profile_index = (if regen then pi_profile_index (cx_port_info cx ! t) else l_profile_index current),
          l_mask = cross_connect_mask cx current x t,
          l_cost = the (next_cost cx current (ci_cost (cx_cross_connect_info cx ! x)) t),
          l_distance_m = (if regen then 0 else l_distance_m current),
          l_loss_db = (if regen then Fin 0 else l_loss_db current),
          l_osnr_inverse = (if regen then Fin 0 else l_osnr_inverse current),
          l_span_count = (if regen then 0 else l_span_count current),
          l_hops = l_hops current + 1,
          l_regenerations = (if regen then l_regenerations current + 1 else l_regenerations current),
          l_proven = proven, l_sequence = 0, l_retained = False, l_expanded = False\<rparr>)"

text \<open>
  One iteration of the cross-connect loop: \<open>i\<close> is the index of the label being expanded,
  \<open>path\<close> the labels from it to the start.
\<close>

definition expand_cross_connect :: "SearchContext \<Rightarrow> nat \<Rightarrow> Label list \<Rightarrow> Label \<Rightarrow> nat \<Rightarrow> arc_result" where
  "expand_cross_connect cx i path current x =
     (let entry = cross_connect_entry_checks cx x
      in case ci_to_port (cx_cross_connect_info cx ! x) of
           None \<Rightarrow> (case run_checks entry (l_proven current) of
                      (ns, Inl r) \<Rightarrow> ArcCut ns r
                    | (ns, Inr _) \<Rightarrow> ArcCut ns CutUnresolvedReference)
         | Some t \<Rightarrow> (case run_checks (entry @ cross_connect_checks cx path current x t) (l_proven current) of
                      (ns, Inl r) \<Rightarrow> ArcCut ns r
                    | (ns, Inr proven) \<Rightarrow> ArcPush ns (cross_connect_label cx i current x t proven)))"

section \<open>Span arcs\<close>

definition span_to_key :: "SearchContext \<Rightarrow> SpanArc \<Rightarrow> PortKey" where
  "span_to_key cx a =
     (let r = s_spans (cx_snapshot cx) ! span_index a in if reversed a then sp_from r else sp_to r)"

definition span_entry_checks :: "SearchContext \<Rightarrow> Label \<Rightarrow> SpanArc \<Rightarrow> check list" where
  "span_entry_checks cx current a =
     (let r = s_spans (cx_snapshot cx) ! span_index a; info = cx_span_info cx ! span_index a; to_key = span_to_key cx a
      in [CutIf (ContainsSorted (cx_excluded_spans cx) (sp_id r) \<or>
                 ContainsSorted (cx_excluded_nodes cx) (pk_node to_key) \<or>
                 ContainsSorted (cx_excluded_ports cx) to_key) CutSpanExcluded,
          CutIf (DomainsIntersect (si_domains info) (cx_excluded_domains cx)) CutFailureDomainExcluded,
          CutIf (si_admin info = Blocked) CutSpanAdminDown,
          CutIf (l_hops current + 1 > rq_max_hops (cx_request cx)) CutHopLimitExceeded,
          CutIf (\<not> l_is_start current \<and> l_arc_kind current = SpanArcKind \<and> l_arc_index current = span_index a)
            CutLoopPrevented])"

text \<open>The accumulated impairment; an unpublished quantity contributes nothing.\<close>

definition next_distance :: "SearchContext \<Rightarrow> Label \<Rightarrow> nat \<Rightarrow> u64 option" where
  "next_distance cx current k =
     (case si_length_m (cx_span_info cx ! k) of
        Known len \<Rightarrow> AddCheckedU64 (l_distance_m current) len
      | _ \<Rightarrow> Some (l_distance_m current))"

definition next_loss :: "SearchContext \<Rightarrow> Label \<Rightarrow> nat \<Rightarrow> double" where
  "next_loss cx current k =
     (case si_loss_db (cx_span_info cx ! k) of
        Known loss \<Rightarrow> dadd (l_loss_db current) loss
      | _ \<Rightarrow> l_loss_db current)"

definition next_osnr_inverse :: "SearchContext \<Rightarrow> Label \<Rightarrow> nat \<Rightarrow> double" where
  "next_osnr_inverse cx current k =
     (case si_osnr_db (cx_span_info cx ! k) of
        Known osnr \<Rightarrow> dadd (l_osnr_inverse current) (OsnrToInverse (cx_libm cx) osnr)
      | _ \<Rightarrow> l_osnr_inverse current)"

definition span_impairment_checks :: "SearchContext \<Rightarrow> Label \<Rightarrow> nat \<Rightarrow> check list" where
  "span_impairment_checks cx current k =
     (let info = cx_span_info cx ! k; res = ForSpan (sp_id (s_spans (cx_snapshot cx) ! k))
      in [CutIf (next_distance cx current k = None) CutTotalDistanceExceeded,
          UnprovenIf (\<not> HasValue (si_length_m info))
            (mk_note kLimitationUnknownQualityField CutUnknownQualityField res ''span length not published''),
          UnprovenIf (\<not> HasValue (si_loss_db info))
            (mk_note kLimitationUnknownQualityField CutUnknownQualityField res ''span loss not published''),
          UnprovenIf (\<not> HasValue (si_osnr_db info))
            (mk_note kLimitationUnknownQualityField CutUnknownQualityField res ''span OSNR not published''),
          UnprovenIf (si_admin info \<noteq> Good)
            (mk_note kLimitationUnknownQualityField CutSpanAdminDown res ''administrative state not published''),
          UnprovenIf (si_conflicting info)
            (mk_note kLimitationConflictingEvidence CutConflictingEvidence res ''two records disagree about this span'')])"

definition span_mask :: "SearchContext \<Rightarrow> Label \<Rightarrow> nat \<Rightarrow> nat \<Rightarrow> SlotMask" where
  "span_mask cx current k t =
     Mask_Intersect (Mask_Intersect (l_mask current) (si_base_mask (cx_span_info cx ! k)))
       (pi_base_mask (cx_port_info cx ! t))"

definition span_spectrum_checks :: "SearchContext \<Rightarrow> Label \<Rightarrow> nat \<Rightarrow> nat \<Rightarrow> check list" where
  "span_spectrum_checks cx current k t =
     [UnprovenIf (\<not> si_mask_known (cx_span_info cx ! k) \<or> \<not> pi_mask_known (cx_port_info cx ! t))
        (mk_note kLimitationUnknownSpectrum CutUnknownSpectrum (ForSpan (sp_id (s_spans (cx_snapshot cx) ! k)))
           ''span spectrum availability not published''),
      CutIf (Mask_IsEmpty (span_mask cx current k t)) CutPortSpectrumEmpty]"

definition label_profile :: "SearchContext \<Rightarrow> Label \<Rightarrow> ReachProfile option" where
  "label_profile cx l = map_option ((!) (s_profiles (cx_snapshot cx))) (l_profile_index l)"

definition known_exceeded :: "('a \<Rightarrow> bool) \<Rightarrow> 'a Evidence \<Rightarrow> bool" where
  "known_exceeded over e = (case e of Known limit \<Rightarrow> over limit | _ \<Rightarrow> False)"

text \<open>The reach budget of the profile that applies to the segment.\<close>

definition reach_checks :: "SearchContext \<Rightarrow> Label \<Rightarrow> u64 \<Rightarrow> double \<Rightarrow> double \<Rightarrow> check list" where
  "reach_checks cx current distance loss osnr_inverse =
     (let min_osnr = min_segment_osnr_db (rq_constraints (cx_request cx));
          segment_osnr = InverseToOsnr (cx_libm cx) osnr_inverse;
          below = (\<lambda>floor_db. dless (dadd segment_osnr tolerance) floor_db)
      in case label_profile cx current of
           Some p \<Rightarrow>
             [CutIf (known_exceeded (\<lambda>m. l_span_count current + 1 > m) (rp_max_span_count p)) CutReachSpanCountExceeded,
              CutIf (known_exceeded (\<lambda>m. distance > m) (rp_max_distance_m p)) CutReachDistanceExceeded,
              CutIf (known_exceeded (\<lambda>m. dless (dadd m tolerance) loss) (rp_max_loss_db p)) CutReachLossExceeded,
              CutIf (known_exceeded (\<lambda>m. below (case min_osnr of Some c \<Rightarrow> dmax m c | None \<Rightarrow> m)) (rp_min_osnr_db p))
                CutReachOsnrBelowMinimum,
              UnprovenIf (\<not> HasValue (rp_min_osnr_db p))
                (mk_note kLimitationUnknownQualityField CutUnknownQualityField (ForReachProfile (rp_id p))
                   ''reach profile minimum OSNR not published''),
              CutIf (\<not> HasValue (rp_min_osnr_db p) \<and> (case min_osnr of Some c \<Rightarrow> below c | None \<Rightarrow> False))
                CutReachOsnrBelowMinimum]
         | None \<Rightarrow>
             [UnprovenIf True
                (mk_note kLimitationUnknownQualityField CutTransmitProfileUnknown
                   (ForPort (pt_key (s_ports (cx_snapshot cx) ! l_port_index current)))
                   ''no reach profile applies to this segment''),
              CutIf (case min_osnr of Some c \<Rightarrow> below c | None \<Rightarrow> False) CutReachOsnrBelowMinimum])"

definition total_checks :: "SearchContext \<Rightarrow> Label \<Rightarrow> u64 \<Rightarrow> double \<Rightarrow> check list" where
  "total_checks cx current distance loss =
     (let c = rq_constraints (cx_request cx)
      in [CutIf (above_limit distance (max_total_distance_m c)) CutTotalDistanceExceeded,
          CutIf (above_limit (l_span_count current + 1) (max_total_span_count c)) CutTotalSpanCountExceeded,
          CutIf (case max_total_loss_db c of Some m \<Rightarrow> dless (dadd m tolerance) loss | None \<Rightarrow> False)
            CutTotalLossExceeded])"

definition span_checks :: "SearchContext \<Rightarrow> Label list \<Rightarrow> Label \<Rightarrow> SpanArc \<Rightarrow> nat \<Rightarrow> check list" where
  "span_checks cx path current a t =
     (let k = span_index a; distance = the (next_distance cx current k); loss = next_loss cx current k
      in span_entry_checks cx current a
         @ cost_checks cx path SpanArcKind k t (next_cost cx current (si_cost (cx_span_info cx ! k)) t)
         @ span_impairment_checks cx current k
         @ target_checks cx t
         @ span_spectrum_checks cx current k t
         @ reach_checks cx current distance loss (next_osnr_inverse cx current k)
         @ total_checks cx current distance loss)"

definition span_label :: "SearchContext \<Rightarrow> nat \<Rightarrow> Label \<Rightarrow> SpanArc \<Rightarrow> nat \<Rightarrow> bool \<Rightarrow> Label" where
  "span_label cx i current a t proven =
     (let k = span_index a
      in \<lparr>l_port_index = t, l_parent = Some i, l_arc_kind = SpanArcKind, l_arc_index = k,
          l_arc_reversed = reversed a, l_is_start = False, l_profile_index = l_profile_index current,
          l_mask = span_mask cx current k t,
          l_cost = the (next_cost cx current (si_cost (cx_span_info cx ! k)) t),
          l_distance_m = the (next_distance cx current k), l_loss_db = next_loss cx current k,
          l_osnr_inverse = next_osnr_inverse cx current k,
          l_span_count = l_span_count current + 1, l_hops = l_hops current + 1,
          l_regenerations = l_regenerations current, l_proven = proven, l_sequence = 0,
          l_retained = False, l_expanded = False\<rparr>)"

definition expand_span :: "SearchContext \<Rightarrow> nat \<Rightarrow> Label list \<Rightarrow> Label \<Rightarrow> SpanArc \<Rightarrow> arc_result" where
  "expand_span cx i path current a =
     (case PortIndex (cx_snapshot cx) (span_to_key cx a) of
        None \<Rightarrow> ArcCut [] CutUnresolvedReference
      | Some t \<Rightarrow> (case run_checks (span_checks cx path current a t) (l_proven current) of
                    (ns, Inl r) \<Rightarrow> ArcCut ns r
                  | (ns, Inr proven) \<Rightarrow> ArcPush ns (span_label cx i current a t proven)))"

section \<open>The start label\<close>

definition start_checks :: "SearchContext \<Rightarrow> nat \<Rightarrow> check list" where
  "start_checks cx p =
     (let info = cx_port_info cx ! p; r = s_ports (cx_snapshot cx) ! p; res = ForPort (pt_key r)
      in [CutIf (ContainsSorted (cx_excluded_ports cx) (pt_key r) \<or>
                 ContainsSorted (cx_excluded_nodes cx) (pk_node (pt_key r)) \<or>
                 DomainsIntersect (pt_failure_domains r) (cx_excluded_domains cx)) CutPortExcluded,
          CutIf (pi_admin info = Blocked) CutSourceAdminDown,
          UnprovenIf (pi_admin info = Missing)
            (mk_note kLimitationUnknownQualityField CutSourceAdminDown res ''administrative state not published''),
          UnprovenIf (pi_conflicting info)
            (mk_note kLimitationConflictingEvidence CutConflictingEvidence res ''two records disagree about this port''),
          UnprovenIf (pi_partial_coverage info)
            (mk_note kLimitationUnknownAdjacency CutPartialCoverage res
               ''the owning node does not publish complete adjacency''),
          UnprovenIf (pi_unresolved_arcs info)
            (mk_note kLimitationUnresolvedReference CutUnresolvedReference res
               ''an arc referencing this port has no record''),
          UnprovenIf (\<not> pi_mask_known info)
            (mk_note kLimitationUnknownSpectrum CutUnknownSpectrum res ''port spectrum capability not published''),
          CutIf (pi_transmit_absent info) CutSegmentProfileAbsent,
          UnprovenIf (pi_transmit info \<noteq> Good)
            (mk_note kLimitationUnknownQualityField CutTransmitProfileUnknown res ''transmit reach profile not published''),
          CutIf (Mask_IsEmpty (pi_base_mask info)) CutPortSpectrumEmpty])"

text \<open>The start cost is a plain 64-bit sum, which wraps.\<close>

definition start_label :: "SearchContext \<Rightarrow> nat \<Rightarrow> bool \<Rightarrow> Label" where
  "start_label cx p proven =
     (let info = cx_port_info cx ! p; r = s_ports (cx_snapshot cx) ! p
      in \<lparr>l_port_index = p, l_parent = None, l_arc_kind = SpanArcKind, l_arc_index = 0,
          l_arc_reversed = False, l_is_start = True, l_profile_index = pi_profile_index info,
          l_mask = pi_base_mask info,
          l_cost = (case pi_node_index info of
                      None \<Rightarrow> pt_transit_cost r
                    | Some n \<Rightarrow> pt_transit_cost r + nd_transit_cost (s_nodes (cx_snapshot cx) ! n)),
          l_distance_m = 0, l_loss_db = Fin 0, l_osnr_inverse = Fin 0, l_span_count = 0, l_hops = 0,
          l_regenerations = 0, l_proven = proven, l_sequence = 0, l_retained = False, l_expanded = False\<rparr>)"

end
