(* ===== verification/Search_Loop.thy ===== *)
theory Search_Loop
  imports Expansion
begin

text \<open>
  The best-first loop of \<open>RunSearch\<close> and the construction of its outcome.
\<close>

section \<open>The frontier\<close>

text \<open>
  The contract of \<open>std::priority_queue\<close> as the search uses it: pushing adds one entry, popping
  removes an entry that no other entry precedes.
\<close>

locale best_first_queue =
  fixes before :: "'e \<Rightarrow> 'e \<Rightarrow> bool"
    and good :: "'q \<Rightarrow> bool"
    and content :: "'q \<Rightarrow> 'e multiset"
    and push :: "'e \<Rightarrow> 'q \<Rightarrow> 'q"
    and pop :: "'q \<Rightarrow> ('e \<times> 'q) option"
  assumes irrefl: "\<not> before e e"
    and good_push: "good q \<Longrightarrow> good (push e q)"
    and content_push: "content (push e q) = add_mset e (content q)"
    and pop_None: "pop q = None \<longleftrightarrow> content q = {#}"
    and pop_content: "pop q = Some (e, q') \<Longrightarrow> content q = add_mset e (content q')"
    and good_pop: "good q \<Longrightarrow> pop q = Some (e, q') \<Longrightarrow> good q'"
    and pop_first: "good q \<Longrightarrow> pop q = Some (e, q') \<Longrightarrow> e' \<in># content q' \<Longrightarrow> \<not> before e' e"
begin

lemma pop_least: "good q \<Longrightarrow> pop q = Some (e, q') \<Longrightarrow> e' \<in># content q \<Longrightarrow> \<not> before e' e"
  using pop_content [of q e q'] pop_first [of q e q' e'] irrefl by auto

text \<open>Entries pushed later never precede an entry they follow, so the service order is monotone.\<close>

lemma pop_after_pushes:
  assumes "good q" "pop q = Some (e, q')" "\<forall>x \<in> set xs. \<not> before x e"
    and "pop (fold push xs q') = Some (e', q'')"
  shows "\<not> before e' e"
proof -
  have content: "content (fold push xs r) = mset xs + content r" for r
    by (induction xs arbitrary: r) (simp_all add: content_push)
  have "e' \<in># content (fold push xs q')" using pop_content [OF assms(4)] by simp
  then have "e' \<in> set xs \<or> e' \<in># content q'" by (auto simp: content)
  with assms(3) pop_first [OF assms(1,2)] show ?thesis by blast
qed

end

definition frontier_push :: "QueueEntry \<Rightarrow> QueueEntry list \<Rightarrow> QueueEntry list" where
  "frontier_push e q = sort_insert queue_before e q"

fun frontier_pop :: "QueueEntry list \<Rightarrow> (QueueEntry \<times> QueueEntry list) option" where
  "frontier_pop [] = None"
| "frontier_pop (e # q) = Some (e, q)"

definition frontier_sorted :: "QueueEntry list \<Rightarrow> bool" where
  "frontier_sorted q = sorted_wrt (\<lambda>a b. \<not> queue_before b a) q"

lemma queue_before_irrefl [simp]: "\<not> queue_before e e"
  by (simp add: queue_before_def)

lemma queue_before_asym: "queue_before a b \<Longrightarrow> \<not> queue_before b a"
  by (auto simp: queue_before_def split: if_splits)

lemma not_queue_before_trans: "\<not> queue_before b a \<Longrightarrow> \<not> queue_before c b \<Longrightarrow> \<not> queue_before c a"
  by (auto simp: queue_before_def split: if_splits)

lemma frontier_push_sorted: "frontier_sorted q \<Longrightarrow> frontier_sorted (frontier_push e q)"
proof (induction q)
  case (Cons x q)
  have mem: "set (sort_insert queue_before e q) = insert e (set q)"
    by (metis mset_sort_insert set_mset_add_mset_insert set_mset_mset)
  show ?case
  proof (cases "queue_before e x")
    case True
    then have "\<not> queue_before y e" if "\<not> queue_before y x" for y
      using that queue_before_asym not_queue_before_trans by blast
    with Cons.prems queue_before_asym [OF True] True show ?thesis
      by (simp add: frontier_push_def frontier_sorted_def)
  next
    case False
    with Cons show ?thesis by (simp add: frontier_push_def frontier_sorted_def mem)
  qed
qed (simp add: frontier_push_def frontier_sorted_def)

interpretation frontier: best_first_queue queue_before frontier_sorted mset frontier_push frontier_pop
proof
  show "\<not> queue_before e e" for e by simp
  show "frontier_sorted q \<Longrightarrow> frontier_sorted (frontier_push e q)" for q e by (rule frontier_push_sorted)
  show "mset (frontier_push e q) = add_mset e (mset q)" for e q by (simp add: frontier_push_def)
  show "frontier_pop q = None \<longleftrightarrow> mset q = {#}" for q by (cases q) simp_all
  show "frontier_pop q = Some (e, q') \<Longrightarrow> mset q = add_mset e (mset q')" for q e q'
    by (cases q) simp_all
  show "frontier_sorted q \<Longrightarrow> frontier_pop q = Some (e, q') \<Longrightarrow> frontier_sorted q'" for q e q'
    by (cases q) (simp_all add: frontier_sorted_def)
  show "frontier_sorted q \<Longrightarrow> frontier_pop q = Some (e, q') \<Longrightarrow> e' \<in># mset q' \<Longrightarrow> \<not> queue_before e' e" for q e q' e'
    by (cases q) (auto simp: frontier_sorted_def)
qed

section \<open>The state of the loop\<close>

type_synonym bucket_key = "nat \<times> nat option"

record SearchState =
  st_labels :: "Label list"
  st_frontier :: "QueueEntry list"
  st_buckets :: "(bucket_key \<times> nat list) list"
  st_sequence :: nat
  st_limitations :: u32
  st_witnesses :: "Witness list"
  st_cut_counts :: "nat list"
  st_statistics :: PlanningStatistics
  st_destination_labels :: "nat list"
  st_destination_count :: nat
  st_last_key :: "(u64 \<times> nat \<times> nat) option"
  st_stopped_on_key :: bool
  st_truncated :: bool

definition note_cut :: "CutReason \<Rightarrow> SearchState \<Rightarrow> SearchState" where
  "note_cut r s = s\<lparr>st_cut_counts := (st_cut_counts s)[CutSlot r := st_cut_counts s ! CutSlot r + 1]\<rparr>"

definition add_witness :: "Witness \<Rightarrow> Witness list \<Rightarrow> Witness list" where
  "add_witness w ws =
     (if length ws \<ge> kMaxWitnessEntries then ws
      else if list_ex (\<lambda>e. w_reason e = w_reason w \<and> w_resource e = w_resource w) ws then ws
      else ws @ [w])"

definition record_note :: "gap_note \<Rightarrow> SearchState \<Rightarrow> SearchState" where
  "record_note n s =
     s\<lparr>st_limitations := st_limitations s OR n_limitation n,
       st_witnesses := add_witness (n_witness n) (st_witnesses s)\<rparr>"

definition record_notes :: "gap_note list \<Rightarrow> SearchState \<Rightarrow> SearchState" where
  "record_notes ns s = fold record_note ns s"

definition push_label :: "Label \<Rightarrow> SearchState \<Rightarrow> SearchState" where
  "push_label l s =
     (let l' = l\<lparr>l_sequence := st_sequence s\<rparr>; i = length (st_labels s);
          entry = \<lparr>q_cost = l_cost l', q_hops = l_hops l', q_regenerations = l_regenerations l',
                   q_sequence = l_sequence l', q_label = i\<rparr>
      in s\<lparr>st_sequence := st_sequence s + 1, st_labels := st_labels s @ [l'],
           st_frontier := frontier_push entry (st_frontier s)\<rparr>)"

definition update_stats :: "(PlanningStatistics \<Rightarrow> PlanningStatistics) \<Rightarrow> SearchState \<Rightarrow> SearchState" where
  "update_stats f s = s\<lparr>st_statistics := f (st_statistics s)\<rparr>"

section \<open>Expanding all arcs of a kind\<close>

text \<open>
  The \<open>for\<close> loop over the arcs: it stops with \<open>truncated\<close> set when a label is due and the label
  limit is reached.
\<close>

fun expand_arcs :: "nat \<Rightarrow> (Label list \<Rightarrow> 'a \<Rightarrow> arc_result) \<Rightarrow> 'a list \<Rightarrow> SearchState \<Rightarrow> SearchState" where
  "expand_arcs limit f [] s = s"
| "expand_arcs limit f (a # as) s =
     (let s1 = update_stats (\<lambda>st. st\<lparr>arcs_examined := arcs_examined st + 1\<rparr>) s
      in case f (st_labels s1) a of
           ArcCut ns r \<Rightarrow> expand_arcs limit f as (note_cut r (record_notes ns s1))
         | ArcPush ns l \<Rightarrow>
             (let s2 = record_notes ns s1
              in if length (st_labels s2) \<ge> limit
                 then note_cut CutSearchTruncated (s2\<lparr>st_truncated := True\<rparr>)
                 else expand_arcs limit f as (push_label l s2)))"

section \<open>Dominance inside a bucket\<close>

text \<open>
  The scan over the bucket of the popped label: the surviving bucket, the labels with the dominated
  ones no longer retained, and whether the popped label itself is dominated.
\<close>

fun prune_bucket :: "Label \<Rightarrow> nat list \<Rightarrow> Label list \<Rightarrow> nat list \<times> Label list \<times> bool" where
  "prune_bucket current [] labels = ([], labels, False)"
| "prune_bucket current (other # rest) labels =
     (if \<not> l_retained (labels ! other) then prune_bucket current rest labels
      else if Dominates (labels ! other) current
      then (let (b, ls, _) = prune_bucket current rest labels in (other # b, ls, True))
      else if Dominates current (labels ! other)
      then prune_bucket current rest (labels[other := (labels ! other)\<lparr>l_retained := False\<rparr>])
      else (let (b, ls, d) = prune_bucket current rest labels in (other # b, ls, d)))"

definition bucket_of :: "SearchState \<Rightarrow> bucket_key \<Rightarrow> nat list" where
  "bucket_of s k = (case map_of (st_buckets s) k of None \<Rightarrow> [] | Some b \<Rightarrow> b)"

section \<open>One iteration\<close>

datatype flow = Continue | Break

definition expand_label :: "SearchContext \<Rightarrow> nat \<Rightarrow> SearchState \<Rightarrow> flow \<times> SearchState" where
  "expand_label cx i s =
     (let current = st_labels s ! i; snapshot = cx_snapshot cx; port = l_port_index current;
          s1 = expand_arcs (cx_label_limit cx)
                 (\<lambda>labels x. expand_cross_connect cx i (label_path labels i) current x)
                 (OutgoingCrossConnects snapshot port) s
      in if st_truncated s1 then (Break, s1)
         else let s2 = expand_arcs (cx_label_limit cx)
                         (\<lambda>labels a. expand_span cx i (label_path labels i) current a)
                         (OutgoingSpanArcs snapshot port) s1
              in if st_truncated s2 then (Break, s2) else (Continue, s2))"

text \<open>The popped label is kept: it enters its bucket and counts as expanded.\<close>

definition mark_settled :: "nat \<Rightarrow> nat list \<Rightarrow> SearchState \<Rightarrow> SearchState" where
  "mark_settled i bucket s =
     (let l = st_labels s ! i;
          s1 = s\<lparr>st_buckets := AList.update (l_port_index l, l_profile_index l) (bucket @ [i]) (st_buckets s),
                 st_labels := (st_labels s)[i := l\<lparr>l_retained := True, l_expanded := True\<rparr>]\<rparr>
      in update_stats (\<lambda>st. st\<lparr>labels_expanded := labels_expanded st + 1,
                               states_visited := length (st_buckets s1),
                               peak_frontier := (if length (st_frontier s1) > peak_frontier st
                                                 then length (st_frontier s1) else peak_frontier st)\<rparr>) s1)"

text \<open>A label at the destination is recorded, any other one is expanded.\<close>

definition note_destination :: "nat \<Rightarrow> SearchState \<Rightarrow> SearchState" where
  "note_destination i s =
     (let l = st_labels s ! i
      in s\<lparr>st_destination_labels := st_destination_labels s @ [i],
           st_destination_count := st_destination_count s + 1,
           st_last_key := Some (l_cost l, l_hops l, l_regenerations l)\<rparr>)"

definition settle_label :: "SearchContext \<Rightarrow> nat \<Rightarrow> nat \<Rightarrow> nat list \<Rightarrow> SearchState \<Rightarrow> flow \<times> SearchState" where
  "settle_label cx destination i bucket s =
     (let s1 = mark_settled i bucket s
      in if l_port_index (st_labels s1 ! i) = destination then (Continue, note_destination i s1)
         else expand_label cx i s1)"

text \<open>
  The stopping rule: enough destination labels are settled and the next entry is strictly worse than
  the last of them.
\<close>

definition past_last_key :: "SearchContext \<Rightarrow> QueueEntry \<Rightarrow> SearchState \<Rightarrow> bool" where
  "past_last_key cx entry s =
     (case st_last_key s of
        None \<Rightarrow> False
      | Some (c, h, g) \<Rightarrow> st_destination_count s \<ge> rq_max_candidates (cx_request cx) \<and>
                         KeyLess c h g (q_cost entry) (q_hops entry) (q_regenerations entry))"

definition process_entry :: "SearchContext \<Rightarrow> nat \<Rightarrow> QueueEntry \<Rightarrow> SearchState \<Rightarrow> flow \<times> SearchState" where
  "process_entry cx destination entry s =
     (let i = q_label entry
      in if l_expanded (st_labels s ! i) then (Continue, s)
         else if past_last_key cx entry s then (Break, s\<lparr>st_stopped_on_key := True\<rparr>)
         else let current = st_labels s ! i; key = (l_port_index current, l_profile_index current);
                  (bucket, labels, dominated) = prune_bucket current (bucket_of s key) (st_labels s);
                  s1 = s\<lparr>st_labels := labels, st_buckets := AList.update key bucket (st_buckets s)\<rparr>
              in if dominated
                 then (Continue, note_cut CutDominated
                         (update_stats (\<lambda>st. st\<lparr>labels_dominated := labels_dominated st + 1\<rparr>) s1))
                 else settle_label cx destination i bucket s1)"

definition search_step :: "SearchContext \<Rightarrow> nat \<Rightarrow> SearchState \<Rightarrow> flow \<times> SearchState" where
  "search_step cx destination s =
     (if labels_expanded (st_statistics s) \<ge> cx_expansion_limit cx
      then (Break, note_cut CutSearchTruncated (s\<lparr>st_truncated := True\<rparr>))
      else case frontier_pop (st_frontier s) of
             None \<Rightarrow> (Break, s)
           | Some (entry, rest) \<Rightarrow> process_entry cx destination entry (s\<lparr>st_frontier := rest\<rparr>))"

section \<open>Termination\<close>

definition budget :: "nat \<Rightarrow> SearchState \<Rightarrow> nat" where
  "budget limit s = length (st_frontier s) + (limit - length (st_labels s))"

lemma note_cut_frame [simp]:
  "st_labels (note_cut r s) = st_labels s" "st_frontier (note_cut r s) = st_frontier s"
  "st_buckets (note_cut r s) = st_buckets s" "st_truncated (note_cut r s) = st_truncated s"
  "st_destination_labels (note_cut r s) = st_destination_labels s" "st_statistics (note_cut r s) = st_statistics s"
  "st_stopped_on_key (note_cut r s) = st_stopped_on_key s" "st_witnesses (note_cut r s) = st_witnesses s"
  "st_limitations (note_cut r s) = st_limitations s"
  "st_last_key (note_cut r s) = st_last_key s" "st_destination_count (note_cut r s) = st_destination_count s"
  by (simp_all add: note_cut_def)

lemma record_notes_frame [simp]:
  "st_labels (record_notes ns s) = st_labels s" "st_frontier (record_notes ns s) = st_frontier s"
  "st_buckets (record_notes ns s) = st_buckets s" "st_truncated (record_notes ns s) = st_truncated s"
  "st_destination_labels (record_notes ns s) = st_destination_labels s"
  "st_statistics (record_notes ns s) = st_statistics s"
  "st_stopped_on_key (record_notes ns s) = st_stopped_on_key s"
  "st_last_key (record_notes ns s) = st_last_key s" "st_destination_count (record_notes ns s) = st_destination_count s"
  by (induction ns arbitrary: s) (simp_all add: record_notes_def record_note_def)

lemma update_stats_frame [simp]:
  "st_labels (update_stats f s) = st_labels s" "st_frontier (update_stats f s) = st_frontier s"
  "st_buckets (update_stats f s) = st_buckets s" "st_truncated (update_stats f s) = st_truncated s"
  "st_destination_labels (update_stats f s) = st_destination_labels s"
  "st_statistics (update_stats f s) = f (st_statistics s)"
  "st_stopped_on_key (update_stats f s) = st_stopped_on_key s" "st_witnesses (update_stats f s) = st_witnesses s"
  "st_last_key (update_stats f s) = st_last_key s" "st_destination_count (update_stats f s) = st_destination_count s"
  by (simp_all add: update_stats_def)

lemma push_label_frame [simp]:
  "st_labels (push_label l s) = st_labels s @ [l\<lparr>l_sequence := st_sequence s\<rparr>]"
  "length (st_frontier (push_label l s)) = Suc (length (st_frontier s))"
  "st_buckets (push_label l s) = st_buckets s" "st_truncated (push_label l s) = st_truncated s"
  "st_destination_labels (push_label l s) = st_destination_labels s"
  "st_statistics (push_label l s) = st_statistics s"
  "st_stopped_on_key (push_label l s) = st_stopped_on_key s" "st_witnesses (push_label l s) = st_witnesses s"
  "st_last_key (push_label l s) = st_last_key s" "st_destination_count (push_label l s) = st_destination_count s"
proof -
  have len: "length (frontier_push e q) = Suc (length q)" for e q
    using frontier.content_push [of e q] by (metis size_add_mset size_mset)
  show "length (st_frontier (push_label l s)) = Suc (length (st_frontier s))"
    by (simp add: push_label_def Let_def len)
qed (simp_all add: push_label_def Let_def)

lemma expand_arcs_budget: "budget limit (expand_arcs limit f as s) \<le> budget limit s"
proof (induction limit f as s rule: expand_arcs.induct)
  case (2 limit f a as s)
  then show ?case
    by (fastforce simp: Let_def budget_def split: arc_result.split)
qed simp

lemma prune_bucket_length: "prune_bucket c b ls = (b', ls', d) \<Longrightarrow> length ls' = length ls"
  by (induction c b ls arbitrary: b' ls' d rule: prune_bucket.induct)
    (auto split: if_splits prod.splits)

lemma expand_label_budget: "budget (cx_label_limit cx) (snd (expand_label cx i s)) \<le> budget (cx_label_limit cx) s"
proof -
  let ?c = "st_labels s ! i"
  let ?s1 = "expand_arcs (cx_label_limit cx) (\<lambda>labels x. expand_cross_connect cx i (label_path labels i) ?c x)
    (OutgoingCrossConnects (cx_snapshot cx) (l_port_index ?c)) s"
  let ?s2 = "expand_arcs (cx_label_limit cx) (\<lambda>labels a. expand_span cx i (label_path labels i) ?c a)
    (OutgoingSpanArcs (cx_snapshot cx) (l_port_index ?c)) ?s1"
  have 1: "budget (cx_label_limit cx) ?s1 \<le> budget (cx_label_limit cx) s" by (rule expand_arcs_budget)
  have 2: "budget (cx_label_limit cx) ?s2 \<le> budget (cx_label_limit cx) ?s1" by (rule expand_arcs_budget)
  have "snd (expand_label cx i s) = ?s1 \<or> snd (expand_label cx i s) = ?s2"
    by (simp add: expand_label_def Let_def)
  with 1 2 show ?thesis by auto
qed

lemma mark_settled_frame [simp]:
  "st_frontier (mark_settled i b s) = st_frontier s" "st_truncated (mark_settled i b s) = st_truncated s"
  "st_labels (mark_settled i b s) = (st_labels s)[i := (st_labels s ! i)\<lparr>l_retained := True, l_expanded := True\<rparr>]"
  "st_destination_labels (mark_settled i b s) = st_destination_labels s"
  "st_witnesses (mark_settled i b s) = st_witnesses s"
  "labels_expanded (st_statistics (mark_settled i b s)) = labels_expanded (st_statistics s) + 1"
  "labels_created (st_statistics (mark_settled i b s)) = labels_created (st_statistics s)"
  "st_last_key (mark_settled i b s) = st_last_key s" "st_destination_count (mark_settled i b s) = st_destination_count s"
  by (simp_all add: mark_settled_def Let_def)

lemma note_destination_frame [simp]:
  "st_frontier (note_destination i s) = st_frontier s" "st_truncated (note_destination i s) = st_truncated s"
  "st_labels (note_destination i s) = st_labels s" "st_statistics (note_destination i s) = st_statistics s"
  "st_destination_labels (note_destination i s) = st_destination_labels s @ [i]"
  "st_witnesses (note_destination i s) = st_witnesses s"
  by (simp_all add: note_destination_def Let_def)

lemma settle_label_budget: "budget (cx_label_limit cx) (snd (settle_label cx d i b s)) \<le> budget (cx_label_limit cx) s"
  using expand_label_budget [of cx i "mark_settled i b s"] by (simp add: settle_label_def Let_def budget_def)

lemma process_entry_budget: "budget (cx_label_limit cx) (snd (process_entry cx d e s)) \<le> budget (cx_label_limit cx) s"
proof (cases "l_expanded (st_labels s ! q_label e) \<or> past_last_key cx e s")
  case True
  then show ?thesis by (auto simp: process_entry_def Let_def budget_def)
next
  case False
  let ?c = "st_labels s ! q_label e"
  let ?key = "(l_port_index ?c, l_profile_index ?c)"
  obtain b ls dom where p: "prune_bucket ?c (bucket_of s ?key) (st_labels s) = (b, ls, dom)"
    by (metis prod_cases3)
  let ?s1 = "s\<lparr>st_labels := ls, st_buckets := AList.update ?key b (st_buckets s)\<rparr>"
  have "budget (cx_label_limit cx) ?s1 = budget (cx_label_limit cx) s"
    using prune_bucket_length [OF p] by (simp add: budget_def)
  with settle_label_budget [of cx d "q_label e" b ?s1] False p show ?thesis
    by (auto simp: process_entry_def Let_def budget_def)
qed

lemma search_step_budget:
  assumes "st_frontier s \<noteq> []" "search_step cx d s = (Continue, s')"
  shows "budget (cx_label_limit cx) s' < budget (cx_label_limit cx) s"
proof -
  from assms obtain e q where q: "st_frontier s = e # q" by (cases "st_frontier s") auto
  with assms have "process_entry cx d e (s\<lparr>st_frontier := q\<rparr>) = (Continue, s')"
    by (simp add: search_step_def split: if_splits)
  with process_entry_budget [of cx d e "s\<lparr>st_frontier := q\<rparr>"]
  have "budget (cx_label_limit cx) s' \<le> budget (cx_label_limit cx) (s\<lparr>st_frontier := q\<rparr>)" by simp
  also have "\<dots> < budget (cx_label_limit cx) s" by (simp add: budget_def q)
  finally show ?thesis .
qed

text \<open>
  The \<open>while\<close> loop; the first component is set when the token was found cancelled at poll \<open>k\<close>.
\<close>

function search_loop ::
  "SearchContext \<Rightarrow> nat \<Rightarrow> (nat \<Rightarrow> bool) \<Rightarrow> nat \<Rightarrow> SearchState \<Rightarrow> bool \<times> SearchState" where
  "search_loop cx destination cancel k s =
     (if st_frontier s = [] then (False, s)
      else if cancel k then (True, s)
      else case search_step cx destination s of
             (Break, s') \<Rightarrow> (False, s')
           | (Continue, s') \<Rightarrow> search_loop cx destination cancel (Suc k) s')"
  by pat_completeness auto

termination
  by (relation "measure (\<lambda>(cx, d, c, k, s). budget (cx_label_limit cx) s)")
    (auto dest: search_step_budget [OF _ sym])

declare search_loop.simps [simp del]

section \<open>The outcome\<close>

record RawPath =
  rp_arcs :: "ArcRef list"
  rp_cost :: u64
  rp_hops :: nat
  rp_regenerations :: nat
  rp_proven :: bool

record SearchOutcome =
  so_status :: Status
  so_exhausted :: bool
  so_proved_optimum :: bool
  so_paths :: "RawPath list"
  so_limitations :: u32
  so_witnesses :: "Witness list"
  so_cuts :: "CutCount list"
  so_statistics :: PlanningStatistics

definition empty_outcome :: SearchOutcome where
  "empty_outcome = \<lparr>so_status = OkStatus, so_exhausted = False, so_proved_optimum = False, so_paths = [],
     so_limitations = kLimitationNone, so_witnesses = [], so_cuts = [], so_statistics = no_statistics\<rparr>"

definition label_arc :: "Label \<Rightarrow> ArcRef" where
  "label_arc l = \<lparr>ar_kind = l_arc_kind l, ar_index = l_arc_index l, ar_reversed = l_arc_reversed l\<rparr>"

definition path_arcs :: "Label list \<Rightarrow> ArcRef list" where
  "path_arcs path = rev (map label_arc (takeWhile (\<lambda>l. \<not> l_is_start l) path))"

definition raw_path :: "Label list \<Rightarrow> nat \<Rightarrow> RawPath" where
  "raw_path labels i =
     (let l = labels ! i
      in \<lparr>rp_arcs = path_arcs (label_path labels i), rp_cost = l_cost l, rp_hops = l_hops l,
          rp_regenerations = l_regenerations l, rp_proven = l_proven l\<rparr>)"

definition cut_list :: "nat list \<Rightarrow> CutCount list" where
  "cut_list counts =
     map (\<lambda>r. \<lparr>cut_reason = r, cut_count = counts ! CutSlot r\<rparr>)
       (filter (\<lambda>r. counts ! CutSlot r \<noteq> 0) all_cut_reasons)"

definition finish_search :: "SearchContext \<Rightarrow> SearchState \<Rightarrow> SearchOutcome" where
  "finish_search cx s =
     (let truncated = st_truncated s;
          exhausted = (st_frontier s = [] \<and> \<not> truncated);
          paths = map (raw_path (st_labels s)) (filter (\<lambda>i. l_retained (st_labels s ! i)) (st_destination_labels s));
          optimum = ((st_stopped_on_key s \<or> exhausted) \<and> \<not> truncated \<and> s_coverage_complete (cx_snapshot cx))
      in \<lparr>so_status = OkStatus, so_exhausted = exhausted,
          so_proved_optimum = (optimum \<and> (paths = [] \<or> list_ex rp_proven paths)),
          so_paths = paths,
          so_limitations = (if truncated then st_limitations s OR kLimitationSearchTruncated else st_limitations s),
          so_witnesses = st_witnesses s, so_cuts = cut_list (st_cut_counts s),
          so_statistics = (st_statistics s)\<lparr>stat_truncated := truncated, labels_created := length (st_labels s)\<rparr>\<rparr>)"

definition initial_state :: "SearchContext \<Rightarrow> nat \<Rightarrow> gap_note list \<Rightarrow> bool \<Rightarrow> SearchState" where
  "initial_state cx p ns proven =
     push_label (start_label cx p proven)
       (record_notes ns
          \<lparr>st_labels = [], st_frontier = [], st_buckets = [], st_sequence = 0, st_limitations = kLimitationNone,
           st_witnesses = [], st_cut_counts = replicate kCutReasonCount 0, st_statistics = no_statistics,
           st_destination_labels = [], st_destination_count = 0, st_last_key = None,
           st_stopped_on_key = False, st_truncated = False\<rparr>)"

text \<open>
  \<open>RunSearch\<close>.  A start that is cut returns before the cut counts, limitations and witnesses are
  copied into the outcome; so does a cancelled search, which keeps its statistics.
\<close>

definition RunSearch ::
  "libm \<Rightarrow> TopologySnapshot \<Rightarrow> PlanningRequest \<Rightarrow> PlannerOptions \<Rightarrow> (nat \<Rightarrow> bool) \<Rightarrow> SearchOutcome" where
  "RunSearch lm snapshot request options cancel =
     (let cx = search_context lm snapshot request options
      in case (PortIndex snapshot (rq_source request), PortIndex snapshot (rq_destination request)) of
           (Some source, Some destination) \<Rightarrow>
             (case run_checks (start_checks cx source) True of
                (_, Inl _) \<Rightarrow> empty_outcome\<lparr>so_exhausted := True\<rparr>
              | (ns, Inr proven) \<Rightarrow>
                  (case search_loop cx destination cancel 0 (initial_state cx source ns proven) of
                     (True, s) \<Rightarrow> empty_outcome\<lparr>so_status := Failure Cancelled ''the caller cancelled the search'',
                                                 so_statistics := st_statistics s\<rparr>
                   | (False, s) \<Rightarrow> finish_search cx s))
         | _ \<Rightarrow> empty_outcome\<lparr>so_status := Failure Internal ''search requires both endpoints to exist in the snapshot'',
                             so_exhausted := True\<rparr>)"

end
