(* ===== verification/Arcs.thy ===== *)
theory Arcs
  imports Search_Loop Topology_Props
begin

text \<open>
  Arc sequences: \<open>ArrivalPort\<close>, \<open>DeparturePort\<close> and \<open>StripCycles\<close> of \<open>src/search.cpp\<close>, and
  the walks they describe.
\<close>

definition ArrivalPort :: "TopologySnapshot \<Rightarrow> ArcRef \<Rightarrow> PortKey expected" where
  "ArrivalPort s a =
     (case ar_kind a of
        SpanArcKind \<Rightarrow>
          if ar_index a \<ge> length (s_spans s) then Inl (Failure Internal ''span arc index is out of range'')
          else let r = s_spans s ! ar_index a in Inr (if ar_reversed a then sp_from r else sp_to r)
      | CrossConnectArcKind \<Rightarrow>
          if ar_index a \<ge> length (s_cross_connects s)
          then Inl (Failure Internal ''cross-connect arc index is out of range'')
          else Inr (cc_to (s_cross_connects s ! ar_index a)))"

definition DeparturePort :: "TopologySnapshot \<Rightarrow> ArcRef \<Rightarrow> PortKey expected" where
  "DeparturePort s a =
     (case ar_kind a of
        SpanArcKind \<Rightarrow>
          if ar_index a \<ge> length (s_spans s) then Inl (Failure Internal ''span arc index is out of range'')
          else let r = s_spans s ! ar_index a in Inr (if ar_reversed a then sp_to r else sp_from r)
      | CrossConnectArcKind \<Rightarrow>
          if ar_index a \<ge> length (s_cross_connects s)
          then Inl (Failure Internal ''cross-connect arc index is out of range'')
          else Inr (cc_from (s_cross_connects s ! ar_index a)))"

text \<open>\<open>std::find\<close>: the position of the first equal element.\<close>

fun find_position :: "'a \<Rightarrow> 'a list \<Rightarrow> nat option" where
  "find_position x [] = None"
| "find_position x (y # ys) = (if y = x then Some 0 else map_option Suc (find_position x ys))"

fun strip_loop :: "TopologySnapshot \<Rightarrow> ArcRef list \<Rightarrow> ArcRef list \<Rightarrow> PortKey list \<Rightarrow> ArcRef list" where
  "strip_loop s [] output visited = output"
| "strip_loop s (a # as) output visited =
     (case ArrivalPort s a of
        Inl _ \<Rightarrow> output
      | Inr p \<Rightarrow>
          (case find_position p visited of
             Some position \<Rightarrow> strip_loop s as (take position output) (take (position + 1) visited)
           | None \<Rightarrow> strip_loop s as (output @ [a]) (visited @ [p])))"

definition StripCycles :: "TopologySnapshot \<Rightarrow> PortKey \<Rightarrow> ArcRef list \<Rightarrow> ArcRef list" where
  "StripCycles s source arcs = strip_loop s arcs [] [source]"

section \<open>Walks\<close>

text \<open>A connected arc sequence from port \<open>p\<close> to port \<open>q\<close>.\<close>

fun walk :: "TopologySnapshot \<Rightarrow> PortKey \<Rightarrow> ArcRef list \<Rightarrow> PortKey \<Rightarrow> bool" where
  "walk s p [] q = (p = q)"
| "walk s p (a # as) q =
     (DeparturePort s a = Inr p \<and> (case ArrivalPort s a of Inr m \<Rightarrow> walk s m as q | Inl _ \<Rightarrow> False))"

definition arrival :: "TopologySnapshot \<Rightarrow> ArcRef \<Rightarrow> PortKey" where
  "arrival s a = (case ArrivalPort s a of Inr k \<Rightarrow> k | Inl _ \<Rightarrow> PortKey [] [])"

definition ports_visited :: "TopologySnapshot \<Rightarrow> PortKey \<Rightarrow> ArcRef list \<Rightarrow> PortKey list" where
  "ports_visited s p as = p # map (arrival s) as"

lemma walk_Cons:
  "walk s p (a # as) q \<longleftrightarrow> DeparturePort s a = Inr p \<and> ArrivalPort s a = Inr (arrival s a) \<and> walk s (arrival s a) as q"
  by (auto simp: arrival_def split: sum.split)

declare walk.simps(2) [simp del]

lemma walk_append: "walk s p (as @ bs) q \<longleftrightarrow> (\<exists>m. walk s p as m \<and> walk s m bs q)"
  by (induction as arbitrary: p) (auto simp: walk_Cons)

lemma walk_snoc:
  "walk s p (as @ [a]) q \<longleftrightarrow> (\<exists>m. walk s p as m \<and> DeparturePort s a = Inr m \<and> ArrivalPort s a = Inr q)"
  by (auto simp: walk_append walk_Cons arrival_def)

lemma walk_unique_end: "walk s p as q \<Longrightarrow> walk s p as q' \<Longrightarrow> q = q'"
  by (induction as arbitrary: p) (auto simp: walk_Cons)

lemma walk_end: "walk s p as q \<Longrightarrow> q = last (ports_visited s p as)"
  by (induction as arbitrary: p) (auto simp: walk_Cons ports_visited_def)

lemma ports_visited_snoc: "ports_visited s p (as @ [a]) = ports_visited s p as @ [arrival s a]"
  by (simp add: ports_visited_def)

lemma ports_visited_take: "ports_visited s p (take n as) = take (Suc n) (ports_visited s p as)"
  by (simp add: ports_visited_def take_map)

section \<open>Removing cycles\<close>

lemma find_position_None: "find_position x ys = None \<longleftrightarrow> x \<notin> set ys"
  by (induction ys) auto

lemma find_position_Some: "find_position x ys = Some i \<Longrightarrow> i < length ys \<and> ys ! i = x"
  by (induction ys arbitrary: i) (auto split: if_splits)

lemma walk_take_at:
  assumes "walk s p as q" "i \<le> length as"
  shows "walk s p (take i as) (ports_visited s p as ! i)"
proof -
  from assms(1) obtain m where m: "walk s p (take i as) m" by (metis append_take_drop_id walk_append)
  then have "m = last (take (Suc i) (ports_visited s p as))"
    using walk_end [OF m] by (simp add: ports_visited_take)
  also have "\<dots> = ports_visited s p as ! i"
    using assms(2) by (simp add: take_Suc_conv_app_nth ports_visited_def del: take_Suc_Cons)
  finally show ?thesis using m by simp
qed

lemma strip_loop_walk:
  assumes "walk s p out m" "walk s m as q" "vis = ports_visited s p out" "distinct vis"
  shows "walk s p (strip_loop s as out vis) q \<and> distinct (ports_visited s p (strip_loop s as out vis)) \<and>
    set (strip_loop s as out vis) \<subseteq> set out \<union> set as"
  using assms
proof (induction as arbitrary: out vis m)
  case (Cons a as)
  have dep: "DeparturePort s a = Inr m" and arr: "ArrivalPort s a = Inr (arrival s a)"
    and rest: "walk s (arrival s a) as q"
    using Cons.prems(2) by (simp_all add: walk_Cons)
  show ?case
  proof (cases "find_position (arrival s a) vis")
    case None
    have "walk s p (out @ [a]) (arrival s a)" using Cons.prems(1) dep arr by (auto simp: walk_snoc)
    moreover have "distinct (vis @ [arrival s a])" using None Cons.prems(4) by (simp add: find_position_None)
    ultimately show ?thesis
      using Cons.IH [of "out @ [a]" "arrival s a" "vis @ [arrival s a]"] rest Cons.prems(3) None arr
      by (auto simp: ports_visited_snoc)
  next
    case (Some i)
    then have i: "i < length vis" "vis ! i = arrival s a" by (auto dest: find_position_Some)
    then have "i \<le> length out" using Cons.prems(3) by (simp add: ports_visited_def)
    then have "walk s p (take i out) (arrival s a)"
      using walk_take_at [OF Cons.prems(1)] i Cons.prems(3) by metis
    then show ?thesis
      using Cons.IH [of "take i out" "arrival s a" "take (Suc i) vis"] rest Cons.prems(3,4) Some arr set_take_subset [of i out]
      by (auto simp: ports_visited_take)
  qed
qed simp

text \<open>
  \<open>StripCycles\<close> turns a connected walk into a port-simple one: the result uses only arcs of the
  input, still leads from the source to the same end, and no port occurs twice on it.
\<close>

lemma StripCycles_port_simple:
  assumes "walk s source arcs q"
  shows "walk s source (StripCycles s source arcs) q \<and> distinct (ports_visited s source (StripCycles s source arcs)) \<and>
    set (StripCycles s source arcs) \<subseteq> set arcs"
  using strip_loop_walk [of s source "[]" source arcs q "[source]"] assms
  by (simp add: StripCycles_def ports_visited_def)

lemma strip_loop_simple:
  assumes "walk s m as q" "distinct (vis @ map (arrival s) as)"
  shows "strip_loop s as out vis = out @ as"
  using assms
proof (induction as arbitrary: out vis m)
  case (Cons a as)
  then have "find_position (arrival s a) vis = None" by (simp add: find_position_None)
  with Cons.IH [of "arrival s a" "vis @ [arrival s a]" "out @ [a]"] Cons.prems show ?case
    by (simp add: walk_Cons)
qed simp

lemma StripCycles_identity:
  assumes "walk s source arcs q" "distinct (ports_visited s source arcs)"
  shows "StripCycles s source arcs = arcs"
  using strip_loop_simple [OF assms(1), of "[source]" "[]"] assms(2)
  by (simp add: StripCycles_def ports_visited_def)

end
