(* ===== verification/Plan.thy ===== *)
theory Plan
  imports Arcs
begin

text \<open>
  The candidate plan artifact (\<open>include/opp/plan.hpp\<close>, the comparator and seal of
  \<open>src/plan.cpp\<close>) and its construction from an arc sequence (\<open>BuildPlan\<close> of
  \<open>src/search.cpp\<close>).

  The digests of the canonical text encodings enter as the record \<open>digests\<close>; the shortest
  decimal spelling of a double (\<open>std::to_chars\<close>, used for two assumption texts) is its field
  \<open>dg_format_double\<close>.  The local variables of \<open>BuildPlan\<close> form the record
  \<open>BuildState\<close>; a step is numbered by the count of steps before it.
\<close>

section \<open>The artifact\<close>

datatype StepKind = StepNode | StepPort | StepSpan | StepCrossConnect

fun StepKindName :: "StepKind \<Rightarrow> string" where
  "StepKindName StepNode = ''node''"
| "StepKindName StepPort = ''port''"
| "StepKindName StepSpan = ''span''"
| "StepKindName StepCrossConnect = ''crossconnect''"

definition kReasonAdminUp :: u32 where "kReasonAdminUp = push_bit 0 1"
definition kReasonNotExcluded :: u32 where "kReasonNotExcluded = push_bit 1 1"
definition kReasonPortAdmitted :: u32 where "kReasonPortAdmitted = push_bit 2 1"
definition kReasonSpectrumAvailable :: u32 where "kReasonSpectrumAvailable = push_bit 3 1"
definition kReasonWithinReachDistance :: u32 where "kReasonWithinReachDistance = push_bit 4 1"
definition kReasonWithinReachSpans :: u32 where "kReasonWithinReachSpans = push_bit 5 1"
definition kReasonWithinReachLoss :: u32 where "kReasonWithinReachLoss = push_bit 6 1"
definition kReasonWithinReachOsnr :: u32 where "kReasonWithinReachOsnr = push_bit 7 1"
definition kReasonRegenerationBoundary :: u32 where "kReasonRegenerationBoundary = push_bit 8 1"
definition kReasonWavelengthConversion :: u32 where "kReasonWavelengthConversion = push_bit 9 1"
definition kReasonFailureDomainWithinLimit :: u32 where "kReasonFailureDomainWithinLimit = push_bit 10 1"
definition kReasonSegmentStart :: u32 where "kReasonSegmentStart = push_bit 12 1"
definition kReasonTransmitProfileKnown :: u32 where "kReasonTransmitProfileKnown = push_bit 13 1"

record PlanStep =
  ps_index :: nat
  ps_kind :: StepKind
  ps_resource :: ResourceKey
  ps_segment_index :: nat
  ps_reason_bits :: u32
  ps_cost :: u64

record PlanSpanUse =
  su_id :: SpanId
  su_from :: PortKey
  su_to :: PortKey
  su_reversed :: bool
  su_length_m :: u64
  su_loss_db :: double
  su_osnr_db :: double
  su_cost :: u64
  su_first_slot :: nat
  su_failure_domains :: "FailureDomainId list"

record PlanSegment =
  sg_index :: nat
  sg_profile :: ProfileId
  sg_spans :: "PlanSpanUse list"
  sg_distance_m :: u64
  sg_loss_db :: double
  sg_osnr_db :: double
  sg_span_count :: nat
  sg_channel_runs :: nat
  sg_ended_by_regeneration :: bool
  sg_regeneration_resource :: ResourceKey

record PlanReservation =
  rv_resource :: ResourceKey
  rv_channel :: Channel
  rv_segment_index :: nat

record PlanAssumption =
  pa_resource :: ResourceKey
  pa_field :: string
  pa_value :: string

record FailureDomainExposure =
  ex_id :: FailureDomainId
  ex_member_count :: nat
  ex_limit :: nat

record SourceBinding =
  sb_source :: SourceId
  sb_generation :: Generation
  sb_contribution :: Digest256

record PlanArtifact =
  pl_format_version :: nat
  pl_rule_version :: nat
  pl_request_id :: RequestId
  pl_request_digest :: Digest256
  pl_snapshot_id :: SnapshotId
  pl_snapshot_generation :: Generation
  pl_snapshot_digest :: Digest256
  pl_bound_sources :: "SourceBinding list"
  pl_source :: PortKey
  pl_destination :: PortKey
  pl_steps :: "PlanStep list"
  pl_segments :: "PlanSegment list"
  pl_reservations :: "PlanReservation list"
  pl_capability_assumptions :: "PlanAssumption list"
  pl_quality_assumptions :: "PlanAssumption list"
  pl_failure_domain_exposure :: "FailureDomainExposure list"
  pl_channel_width_slots :: nat
  pl_total_cost :: u64
  pl_total_distance_m :: u64
  pl_total_loss_db :: double
  pl_hops :: nat
  pl_regenerations :: nat
  pl_digest :: Digest256

record digests =
  dg_request :: "PlanningRequest \<Rightarrow> Digest256"
  dg_plan :: "PlanArtifact \<Rightarrow> Digest256"
  dg_contribution :: "TopologySnapshot \<Rightarrow> SourceId \<Rightarrow> Digest256"
  dg_format_double :: "double \<Rightarrow> string"

definition zero_digest :: Digest256 where
  "zero_digest = replicate 32 0"

text \<open>The digest covers everything except the digest field itself.\<close>

definition ComputePlanDigest :: "digests \<Rightarrow> PlanArtifact \<Rightarrow> Digest256" where
  "ComputePlanDigest dg plan = dg_plan dg (plan\<lparr>pl_digest := zero_digest\<rparr>)"

definition Seal :: "digests \<Rightarrow> PlanArtifact \<Rightarrow> PlanArtifact" where
  "Seal dg plan = plan\<lparr>pl_digest := ComputePlanDigest dg plan\<rparr>"

definition VerifySeal :: "digests \<Rightarrow> PlanArtifact \<Rightarrow> Status" where
  "VerifySeal dg plan =
     refuse_if (ComputePlanDigest dg plan \<noteq> pl_digest plan) IntegrityFailure ''plan digest does not match its content''"

definition ResourceSequenceKey :: "PlanArtifact \<Rightarrow> string" where
  "ResourceSequenceKey plan =
     concat (map (\<lambda>step. ResourceKindName (rk_kind (ps_resource step)) @ ''|'' @ rk_text (ps_resource step) @ ''>'')
               (pl_steps plan))"

definition PlanLess :: "PlanArtifact \<Rightarrow> PlanArtifact \<Rightarrow> bool" where
  "PlanLess l r =
     (if pl_total_cost l \<noteq> pl_total_cost r then pl_total_cost l < pl_total_cost r
      else if pl_hops l \<noteq> pl_hops r then pl_hops l < pl_hops r
      else if pl_regenerations l \<noteq> pl_regenerations r then pl_regenerations l < pl_regenerations r
      else ResourceSequenceKey l < ResourceSequenceKey r)"

section \<open>The walk of BuildPlan\<close>

record BuildState =
  bs_steps :: "PlanStep list"
  bs_segments :: "PlanSegment list"
  bs_reservations :: "PlanReservation list"
  bs_capability :: "PlanAssumption list"
  bs_quality :: "PlanAssumption list"
  bs_domain_counts :: "(FailureDomainId \<times> nat) list"
  bs_profile :: ProfileId
  bs_mask :: SlotMask
  bs_total_cost :: u64
  bs_distance :: u64
  bs_loss :: double
  bs_osnr_inverse :: double
  bs_span_count :: nat
  bs_channel_runs :: nat
  bs_last_slot :: "nat option"
  bs_segment_index :: nat
  bs_regenerations :: nat
  bs_port :: PortKey

text \<open>\<open>domain_counts[domain] += 1\<close> on a \<open>std::map\<close>, kept in key order.\<close>

fun bump :: "FailureDomainId \<Rightarrow> (FailureDomainId \<times> nat) list \<Rightarrow> (FailureDomainId \<times> nat) list" where
  "bump d [] = [(d, 1)]"
| "bump d ((k, n) # m) =
     (if d = k then (k, n + 1) # m else if d < k then (d, 1) # (k, n) # m else (k, n) # bump d m)"

definition note_domains :: "FailureDomainId list \<Rightarrow> BuildState \<Rightarrow> BuildState" where
  "note_domains ds st = st\<lparr>bs_domain_counts := fold bump ds (bs_domain_counts st)\<rparr>"

definition push_step :: "StepKind \<Rightarrow> ResourceKey \<Rightarrow> u32 \<Rightarrow> u64 \<Rightarrow> BuildState \<Rightarrow> BuildState" where
  "push_step kind res reasons cost st =
     st\<lparr>bs_steps := bs_steps st @
          [\<lparr>ps_index = length (bs_steps st), ps_kind = kind, ps_resource = res,
            ps_segment_index = bs_segment_index st, ps_reason_bits = reasons, ps_cost = cost\<rparr>]\<rparr>"

definition assume_capability :: "ResourceKey \<Rightarrow> string \<Rightarrow> string \<Rightarrow> BuildState \<Rightarrow> BuildState" where
  "assume_capability res field v st =
     st\<lparr>bs_capability := bs_capability st @ [\<lparr>pa_resource = res, pa_field = field, pa_value = v\<rparr>]\<rparr>"

definition assume_quality :: "ResourceKey \<Rightarrow> string \<Rightarrow> string \<Rightarrow> BuildState \<Rightarrow> BuildState" where
  "assume_quality res field v st =
     st\<lparr>bs_quality := bs_quality st @ [\<lparr>pa_resource = res, pa_field = field, pa_value = v\<rparr>]\<rparr>"

definition add_cost :: "u64 \<Rightarrow> BuildState \<Rightarrow> BuildState" where
  "add_cost c st = st\<lparr>bs_total_cost := bs_total_cost st + c\<rparr>"

definition plan_transition_cost :: "TopologySnapshot \<Rightarrow> PortKey \<Rightarrow> PortKey \<Rightarrow> u64" where
  "plan_transition_cost s from to =
     (if pk_node from = pk_node to then 0
      else case FindNode s (pk_node to) of None \<Rightarrow> 0 | Some n \<Rightarrow> nd_transit_cost n)"

text \<open>Enters the node of \<open>to\<close> as a step, when it differs from the current node and has a record.\<close>

definition enter_node :: "TopologySnapshot \<Rightarrow> PortKey \<Rightarrow> BuildState \<Rightarrow> BuildState" where
  "enter_node s to st =
     (if pk_node to = pk_node (bs_port st) then st
      else case FindNode s (pk_node to) of
             None \<Rightarrow> st
           | Some n \<Rightarrow> note_domains (nd_failure_domains n)
                       (push_step StepNode (ForNode (nd_id n)) (kReasonNotExcluded OR kReasonAdminUp)
                          (plan_transition_cost s (bs_port st) to) st))"

definition ensure_segment :: "BuildState \<Rightarrow> BuildState" where
  "ensure_segment st =
     (if bs_segments st \<noteq> [] \<and> sg_index (last (bs_segments st)) = bs_segment_index st then st
      else st\<lparr>bs_segments := bs_segments st @
                [\<lparr>sg_index = bs_segment_index st, sg_profile = bs_profile st, sg_spans = [], sg_distance_m = 0,
                  sg_loss_db = Fin 0, sg_osnr_db = Fin 0, sg_span_count = 0, sg_channel_runs = 0,
                  sg_ended_by_regeneration = False, sg_regeneration_resource = ResourceKey RNode []\<rparr>]\<rparr>)"

definition update_last :: "('a \<Rightarrow> 'a) \<Rightarrow> 'a list \<Rightarrow> 'a list" where
  "update_last f xs = (if xs = [] then [] else butlast xs @ [f (last xs)])"

text \<open>Writes the totals of the current section into its segment.\<close>

definition close_segment :: "libm \<Rightarrow> bool \<Rightarrow> ResourceKey \<Rightarrow> BuildState \<Rightarrow> BuildState" where
  "close_segment lm regenerated res st0 =
     (let st = ensure_segment st0
      in st\<lparr>bs_segments := update_last (\<lambda>g. g\<lparr>sg_profile := bs_profile st, sg_distance_m := bs_distance st,
               sg_loss_db := bs_loss st,
               sg_osnr_db := (if dle (bs_osnr_inverse st) (Fin 0) then Fin 0
                              else dmul (Fin (- 10)) (lm_log10 lm (bs_osnr_inverse st))),
               sg_span_count := bs_span_count st, sg_channel_runs := bs_channel_runs st,
               sg_ended_by_regeneration := regenerated,
               sg_regeneration_resource := (if regenerated then res else sg_regeneration_resource g)\<rparr>) (bs_segments st)\<rparr>)"

text \<open>A change of the lowest usable slot starts a new wavelength run.\<close>

definition note_slot :: "nat \<Rightarrow> BuildState \<Rightarrow> BuildState" where
  "note_slot slot st =
     (if bs_last_slot st = None \<or> bs_last_slot st \<noteq> Some slot
      then st\<lparr>bs_channel_runs := bs_channel_runs st + 1, bs_last_slot := Some slot\<rparr> else st)"

definition build_failure :: "string \<Rightarrow> 'a expected" where
  "build_failure why = Inl (Failure Internal why)"

section \<open>One span arc\<close>

definition span_reasons :: u32 where
  "span_reasons = kReasonNotExcluded OR kReasonAdminUp OR kReasonPortAdmitted OR kReasonSpectrumAvailable OR
     kReasonWithinReachDistance OR kReasonWithinReachSpans OR kReasonWithinReachLoss OR kReasonWithinReachOsnr OR
     kReasonFailureDomainWithinLimit"

definition use_span ::
  "libm \<Rightarrow> digests \<Rightarrow> TopologySnapshot \<Rightarrow> nat \<Rightarrow> SpanRecord \<Rightarrow> bool \<Rightarrow> PortRecord \<Rightarrow> u64 \<Rightarrow> double \<Rightarrow> double \<Rightarrow>
     SlotMask \<Rightarrow> SlotMask \<Rightarrow> nat \<Rightarrow> BuildState \<Rightarrow> BuildState" where
  "use_span lm dg s width sp rev_dir arrival_port len loss osnr blocked usable slot st0 =
     (let dest = (if rev_dir then sp_from sp else sp_to sp);
          key = ForSpan (sp_id sp);
          use = \<lparr>su_id = sp_id sp, su_from = (if rev_dir then sp_to sp else sp_from sp), su_to = dest,
                 su_reversed = rev_dir, su_length_m = len, su_loss_db = loss, su_osnr_db = osnr, su_cost = sp_cost sp,
                 su_first_slot = slot, su_failure_domains = sp_failure_domains sp\<rparr>;
          st1 = ensure_segment (note_slot slot (st0\<lparr>bs_mask := usable\<rparr>));
          st2 = st1\<lparr>bs_segments := update_last (\<lambda>g. g\<lparr>sg_spans := sg_spans g @ [use]\<rparr>) (bs_segments st1),
                    bs_distance := bs_distance st1 + len, bs_loss := dadd (bs_loss st1) loss,
                    bs_osnr_inverse := dadd (bs_osnr_inverse st1) (OsnrToInverse lm osnr),
                    bs_span_count := bs_span_count st1 + 1\<rparr>;
          st3 = push_step StepSpan key span_reasons (sp_cost sp) (add_cost (sp_cost sp) st2);
          st4 = add_cost (pt_transit_cost arrival_port)
                  (note_domains (pt_failure_domains arrival_port) (note_domains (sp_failure_domains sp) st3));
          st5 = enter_node s dest (add_cost (plan_transition_cost s (bs_port st4) dest) st4);
          st6 = st5\<lparr>bs_reservations := bs_reservations st5 @
                      [\<lparr>rv_resource = key, rv_channel = \<lparr>first_slot = slot, width_slots = width\<rparr>,
                        rv_segment_index = bs_segment_index st5\<rparr>]\<rparr>;
          st7 = assume_quality key ''osnr_db'' (dg_format_double dg osnr)
                  (assume_quality key ''loss_db'' (dg_format_double dg loss)
                    (assume_quality key ''length_m'' (to_string (unat len)) st6))
      in (assume_capability key ''blocked_slots'' (Mask_ToHex blocked) st7)\<lparr>bs_port := dest\<rparr>)"

definition build_span ::
  "libm \<Rightarrow> digests \<Rightarrow> TopologySnapshot \<Rightarrow> nat \<Rightarrow> ArcRef \<Rightarrow> BuildState \<Rightarrow> BuildState expected" where
  "build_span lm dg s width arc st =
     (if ar_index arc \<ge> length (s_spans s) then build_failure ''plan build saw an out-of-range span arc''
      else let sp = s_spans s ! ar_index arc
           in case (sp_length_m sp, sp_loss_db sp, sp_osnr_db sp, sp_blocked_slots sp, sp_admin sp) of
                (Known len, Known loss, Known osnr, Known blocked, Known _) \<Rightarrow>
                  (case FindPort s (if ar_reversed arc then sp_from sp else sp_to sp) of
                     None \<Rightarrow> build_failure ''plan build requires the arrival port spectrum capability''
                   | Some p \<Rightarrow>
                       if \<not> HasValue (pt_blocked_slots p)
                       then build_failure ''plan build requires the arrival port spectrum capability''
                       else let usable = Mask_Intersect
                                  (Mask_Intersect (bs_mask st) (base_mask (s_spectrum s) width (sp_blocked_slots sp)))
                                  (base_mask (s_spectrum s) width (pt_blocked_slots p))
                            in case LowestSetBit usable of
                                 None \<Rightarrow> build_failure ''plan build derived an empty channel set''
                               | Some slot \<Rightarrow>
                                   Inr (use_span lm dg s width sp (ar_reversed arc) p len loss osnr blocked usable slot st))
              | _ \<Rightarrow> build_failure ''plan build requires published span quality evidence'')"

section \<open>One cross-connect arc\<close>

text \<open>The effect of the operation on the section: its mask, slot run and, at a regeneration, its segment.\<close>

definition apply_operation ::
  "libm \<Rightarrow> TopologySnapshot \<Rightarrow> nat \<Rightarrow> CrossConnectRecord \<Rightarrow> PortRecord \<Rightarrow> BuildState \<Rightarrow> BuildState expected" where
  "apply_operation lm s width cc target st =
     (let target_mask = base_mask (s_spectrum s) width (pt_blocked_slots target)
      in case cc_op cc of
           Express \<Rightarrow>
             (let usable = Mask_Intersect (Mask_Intersect (bs_mask st) (base_mask (s_spectrum s) width (cc_blocked_slots cc)))
                           target_mask
              in case LowestSetBit usable of
                   None \<Rightarrow> build_failure ''plan build derived an empty channel set after a cross-connect''
                 | Some slot \<Rightarrow> Inr (note_slot slot (st\<lparr>bs_mask := usable\<rparr>)))
         | Convert \<Rightarrow>
             (case LowestSetBit target_mask of
                None \<Rightarrow> build_failure ''plan build derived an empty channel set after a conversion''
              | Some slot \<Rightarrow> Inr (st\<lparr>bs_mask := target_mask, bs_channel_runs := bs_channel_runs st + 1,
                                     bs_last_slot := Some slot\<rparr>))
         | Regenerate \<Rightarrow>
             (let st1 = close_segment lm True (ForCrossConnect (cc_id cc)) st;
                  st2 = st1\<lparr>bs_segment_index := bs_segment_index st1 + 1, bs_regenerations := bs_regenerations st1 + 1\<rparr>
              in case pt_transmit_profile target of
                   Known (Some profile) \<Rightarrow>
                     Inr ((assume_capability (ForPort (pt_key target)) ''transmit_profile'' profile
                             (st2\<lparr>bs_profile := profile\<rparr>))
                          \<lparr>bs_mask := target_mask, bs_distance := 0, bs_loss := Fin 0, bs_osnr_inverse := Fin 0,
                           bs_span_count := 0, bs_channel_runs := 0, bs_last_slot := None\<rparr>)
                 | _ \<Rightarrow> build_failure ''plan build requires a transmit profile at a regeneration target''))"

definition operation_reasons :: "CrossConnectOp \<Rightarrow> u32" where
  "operation_reasons op =
     (let base = kReasonNotExcluded OR kReasonAdminUp OR kReasonPortAdmitted
      in case op of
           Express \<Rightarrow> base
         | Convert \<Rightarrow> base OR kReasonWavelengthConversion
         | Regenerate \<Rightarrow> base OR (kReasonRegenerationBoundary OR kReasonSegmentStart OR kReasonTransmitProfileKnown))"

definition use_cross_connect ::
  "TopologySnapshot \<Rightarrow> CrossConnectRecord \<Rightarrow> PortRecord \<Rightarrow> SlotMask \<Rightarrow> BuildState \<Rightarrow> BuildState" where
  "use_cross_connect s cc target target_blocked st0 =
     (let reasons = operation_reasons (cc_op cc); key = ForCrossConnect (cc_id cc);
          st1 = add_cost (cc_cost cc) (push_step StepCrossConnect key reasons (cc_cost cc) st0);
          st2 = note_domains (pt_failure_domains target) (note_domains (cc_failure_domains cc) st1);
          st3 = add_cost (plan_transition_cost s (bs_port st2) (cc_to cc)) st2;
          st4 = assume_capability (ForPort (pt_key target)) ''blocked_slots'' (Mask_ToHex target_blocked)
                  (assume_capability key ''operation'' (CrossConnectOpName (cc_op cc)) st3);
          st5 = (if cc_op cc \<noteq> Express
                 then enter_node s (pt_key target)
                        (push_step StepPort (ForPort (pt_key target)) (reasons OR kReasonSpectrumAvailable)
                           (pt_transit_cost target) st4)
                 else st4)
      in (add_cost (pt_transit_cost target) st5)\<lparr>bs_port := cc_to cc\<rparr>)"

definition build_cross_connect ::
  "libm \<Rightarrow> TopologySnapshot \<Rightarrow> nat \<Rightarrow> ArcRef \<Rightarrow> BuildState \<Rightarrow> BuildState expected" where
  "build_cross_connect lm s width arc st =
     (if ar_index arc \<ge> length (s_cross_connects s) then build_failure ''plan build saw an out-of-range cross-connect arc''
      else let cc = s_cross_connects s ! ar_index arc
           in if \<not> HasValue (cc_admin cc) \<or> \<not> HasValue (cc_blocked_slots cc)
              then build_failure ''plan build requires published cross-connect evidence''
              else case FindPort s (cc_to cc) of
                     None \<Rightarrow> build_failure ''plan build requires the target port spectrum capability''
                   | Some target \<Rightarrow>
                       (case pt_blocked_slots target of
                          Known target_blocked \<Rightarrow>
                            (case apply_operation lm s width cc target st of
                               Inl e \<Rightarrow> Inl e
                             | Inr st1 \<Rightarrow> Inr (use_cross_connect s cc target target_blocked st1))
                        | _ \<Rightarrow> build_failure ''plan build requires the target port spectrum capability''))"

section \<open>BuildPlan\<close>

fun build_arcs ::
  "libm \<Rightarrow> digests \<Rightarrow> TopologySnapshot \<Rightarrow> nat \<Rightarrow> ArcRef list \<Rightarrow> BuildState \<Rightarrow> BuildState expected" where
  "build_arcs lm dg s width [] st = Inr st"
| "build_arcs lm dg s width (a # as) st =
     (case (case ar_kind a of SpanArcKind \<Rightarrow> build_span lm dg s width a st
            | CrossConnectArcKind \<Rightarrow> build_cross_connect lm s width a st) of
        Inl e \<Rightarrow> Inl e
      | Inr st' \<Rightarrow> build_arcs lm dg s width as st')"

text \<open>The state before the first arc: the source port and its node are the first steps.\<close>

definition initial_build ::
  "TopologySnapshot \<Rightarrow> nat \<Rightarrow> PortKey \<Rightarrow> PortRecord \<Rightarrow> ProfileId \<Rightarrow> SlotMask \<Rightarrow> BuildState" where
  "initial_build s width source p profile blocked =
     (let st0 = \<lparr>bs_steps = [], bs_segments = [], bs_reservations = [], bs_capability = [], bs_quality = [],
                 bs_domain_counts = [], bs_profile = profile,
                 bs_mask = base_mask (s_spectrum s) width (pt_blocked_slots p),
                 bs_total_cost = pt_transit_cost p, bs_distance = 0, bs_loss = Fin 0, bs_osnr_inverse = Fin 0,
                 bs_span_count = 0, bs_channel_runs = 0, bs_last_slot = None, bs_segment_index = 0,
                 bs_regenerations = 0, bs_port = source\<rparr>;
          st1 = push_step StepPort (ForPort source)
                  (kReasonSegmentStart OR kReasonNotExcluded OR kReasonAdminUp OR kReasonPortAdmitted OR
                   kReasonSpectrumAvailable OR kReasonTransmitProfileKnown) 0 st0;
          st2 = assume_capability (ForPort source) ''blocked_slots'' (Mask_ToHex blocked)
                  (assume_capability (ForPort source) ''transmit_profile'' profile st1);
          st3 = note_domains (pt_failure_domains p) st2
      in case FindNode s (pk_node source) of
           None \<Rightarrow> st3
         | Some n \<Rightarrow> add_cost (nd_transit_cost n)
                     (note_domains (nd_failure_domains n)
                        (push_step StepNode (ForNode (nd_id n))
                           (kReasonSegmentStart OR kReasonNotExcluded OR kReasonAdminUp) (nd_transit_cost n) st3)))"

definition finish_steps :: "PortKey \<Rightarrow> BuildState \<Rightarrow> BuildState" where
  "finish_steps destination st =
     (if bs_steps st = [] \<or> ps_resource (last (bs_steps st)) \<noteq> ForPort destination
      then push_step StepPort (ForPort destination)
             (kReasonNotExcluded OR kReasonAdminUp OR kReasonPortAdmitted OR kReasonSpectrumAvailable) 0 st
      else st)"

definition exposures :: "PlanningRequest \<Rightarrow> (FailureDomainId \<times> nat) list \<Rightarrow> FailureDomainExposure list" where
  "exposures r counts =
     map (\<lambda>(d, n). \<lparr>ex_id = d, ex_member_count = n,
            ex_limit = (case map_of (max_members_per_failure_domain (rq_constraints r)) d of None \<Rightarrow> 0 | Some m \<Rightarrow> m)\<rparr>) counts"

definition plan_of_state ::
  "digests \<Rightarrow> TopologySnapshot \<Rightarrow> PlanningRequest \<Rightarrow> Digest256 \<Rightarrow> nat \<Rightarrow> BuildState \<Rightarrow> PlanArtifact" where
  "plan_of_state dg s r request_digest hops st =
     \<lparr>pl_format_version = kPlanFormatVersion, pl_rule_version = kPlanningRuleVersion, pl_request_id = rq_id r,
      pl_request_digest = request_digest, pl_snapshot_id = s_id s, pl_snapshot_generation = s_generation s,
      pl_snapshot_digest = s_digest s,
      pl_bound_sources = map (\<lambda>x. \<lparr>sb_source = src_id x, sb_generation = src_generation x,
                                   sb_contribution = dg_contribution dg s (src_id x)\<rparr>) (s_sources s),
      pl_source = rq_source r, pl_destination = rq_destination r, pl_steps = bs_steps st,
      pl_segments = bs_segments st, pl_reservations = bs_reservations st,
      pl_capability_assumptions = bs_capability st, pl_quality_assumptions = bs_quality st,
      pl_failure_domain_exposure = exposures r (bs_domain_counts st),
      pl_channel_width_slots = rq_channel_width_slots r, pl_total_cost = bs_total_cost st,
      pl_total_distance_m = fold (\<lambda>g d. d + sg_distance_m g) (bs_segments st) 0,
      pl_total_loss_db = fold (\<lambda>g d. dadd d (sg_loss_db g)) (bs_segments st) (Fin 0),
      pl_hops = hops, pl_regenerations = bs_regenerations st, pl_digest = zero_digest\<rparr>"

definition anonymous :: "PlanAssumption \<Rightarrow> bool" where
  "anonymous a = (rk_text (pa_resource a) = [] \<or> pa_field a = [])"

definition BuildPlan ::
  "libm \<Rightarrow> digests \<Rightarrow> TopologySnapshot \<Rightarrow> PlanningRequest \<Rightarrow> Digest256 \<Rightarrow> ArcRef list \<Rightarrow> PlanArtifact expected" where
  "BuildPlan lm dg s r request_digest arcs =
     (case FindPort s (rq_source r) of
        None \<Rightarrow> build_failure ''plan build requires the source port to exist''
      | Some p \<Rightarrow>
          (case (pt_transmit_profile p, pt_blocked_slots p) of
             (Known (Some profile), Known blocked) \<Rightarrow>
               (case build_arcs lm dg s (rq_channel_width_slots r) arcs
                       (initial_build s (rq_channel_width_slots r) (rq_source r) p profile blocked) of
                  Inl e \<Rightarrow> Inl e
                | Inr st \<Rightarrow>
                    if bs_port st \<noteq> rq_destination r
                    then build_failure ''plan build arc sequence does not end on the destination''
                    else if FindPort s (bs_port st) = None
                    then build_failure ''plan build ended on a port with no record''
                    else let st1 = finish_steps (rq_destination r) (close_segment lm False (ResourceKey RNode []) st)
                         in if list_ex anonymous (bs_capability st1)
                            then build_failure ''plan build produced a capability assumption without a resource''
                            else if list_ex anonymous (bs_quality st1)
                            then build_failure ''plan build produced a quality assumption without a resource''
                            else Inr (Seal dg (plan_of_state dg s r request_digest (length arcs) st1)))
           | (Known (Some profile), _) \<Rightarrow>
               build_failure ''plan build requires a published spectrum capability at the source port''
           | _ \<Rightarrow> build_failure ''plan build requires a published transmit profile at the source port''))"

end
