(* ===== verification/Planner.thy ===== *)
theory Planner
  imports Plan
begin

text \<open>
  The planner (\<open>include/opp/planner.hpp\<close>, \<open>src/planner.cpp\<close>) and the result envelope of
  \<open>include/opp/result.hpp\<close>.

  \<open>Planner::Plan\<close> is split at its numbered headings: the checks before the search, one pass of
  the search loop, and the classification.  The variables of the pass loop form the record
  \<open>PassState\<close>.  The digest of a sealed result is the argument \<open>seal\<close>; cancellation is an
  oracle, \<open>cancel pass k\<close> being the answer to poll \<open>k\<close> of the given pass.  The statistics are
  \<open>nat\<close>: each pass is bounded by the search ceilings and there are at most \<open>kMaxCandidates\<close>
  passes.
\<close>

section \<open>The result\<close>

record PlanningResult =
  res_outcome :: PlanOutcome
  res_status :: Status
  res_request_digest :: Digest256
  res_snapshot_digest :: Digest256
  res_candidates :: "PlanArtifact list"
  res_witnesses :: "Witness list"
  res_limitations :: u32
  res_cuts :: "CutCount list"
  res_statistics :: PlanningStatistics
  res_optimality_proven :: bool
  res_result_digest :: Digest256

definition new_result :: "digests \<Rightarrow> TopologySnapshot \<Rightarrow> PlanningRequest \<Rightarrow> PlanningResult" where
  "new_result dg s r =
     \<lparr>res_outcome = OutRefused, res_status = OkStatus, res_request_digest = dg_request dg r,
      res_snapshot_digest = s_digest s, res_candidates = [], res_witnesses = [], res_limitations = kLimitationNone,
      res_cuts = [], res_statistics = no_statistics, res_optimality_proven = False, res_result_digest = zero_digest\<rparr>"

definition HasCandidate :: "PlanningResult \<Rightarrow> bool" where
  "HasCandidate res = (res_candidates res \<noteq> [])"

definition Best :: "PlanningResult \<Rightarrow> PlanArtifact option" where
  "Best res = (case res_candidates res of [] \<Rightarrow> None | plan # _ \<Rightarrow> Some plan)"

type_synonym seal = "PlanningResult \<Rightarrow> Digest256"

definition SealResult :: "seal \<Rightarrow> PlanningResult \<Rightarrow> PlanningResult" where
  "SealResult seal res = res\<lparr>res_result_digest := seal (res\<lparr>res_result_digest := zero_digest\<rparr>)\<rparr>"

section \<open>Helpers\<close>

definition kPlanBuildBudget :: nat where "kPlanBuildBudget = 64"

definition NoteLimitation :: "u32 \<Rightarrow> PlanningResult \<Rightarrow> PlanningResult" where
  "NoteLimitation lims res = res\<lparr>res_limitations := res_limitations res OR lims\<rparr>"

fun merge_cut :: "CutCount \<Rightarrow> CutCount list \<Rightarrow> CutCount list" where
  "merge_cut c [] = [c]"
| "merge_cut c (d # ds) =
     (if cut_reason d = cut_reason c then d\<lparr>cut_count := cut_count d + cut_count c\<rparr> # ds else d # merge_cut c ds)"

definition merge_statistics :: "PlanningStatistics \<Rightarrow> PlanningStatistics \<Rightarrow> PlanningStatistics" where
  "merge_statistics a b =
     \<lparr>labels_created = labels_created a + labels_created b, labels_expanded = labels_expanded a + labels_expanded b,
      labels_dominated = labels_dominated a + labels_dominated b,
      peak_frontier = max (peak_frontier a) (peak_frontier b), arcs_examined = arcs_examined a + arcs_examined b,
      states_visited = max (states_visited a) (states_visited b),
      stat_truncated = (stat_truncated a \<or> stat_truncated b)\<rparr>"

definition MergeSearch :: "SearchOutcome \<Rightarrow> PlanningResult \<Rightarrow> PlanningResult" where
  "MergeSearch search res =
     res\<lparr>res_statistics := merge_statistics (res_statistics res) (so_statistics search),
         res_limitations := res_limitations res OR so_limitations search,
         res_witnesses := res_witnesses res @ so_witnesses search,
         res_cuts := fold merge_cut (so_cuts search) (res_cuts res)\<rparr>"

text \<open>The node a step of a plan uses, as the text of its resource spells it.\<close>

definition step_nodes :: "PlanStep \<Rightarrow> NodeId list" where
  "step_nodes step =
     (let txt = rk_text (ps_resource step);
          parsed = (\<lambda>t. case ParseId t of Inr i \<Rightarrow> [i] | Inl _ \<Rightarrow> [])
      in case rk_kind (ps_resource step) of
           RNode \<Rightarrow> parsed txt
         | RPort \<Rightarrow> (case find_char (CHR '':'') txt of None \<Rightarrow> [] | Some colon \<Rightarrow> parsed (take colon txt))
         | _ \<Rightarrow> [])"

definition step_spans :: "PlanStep \<Rightarrow> SpanId list" where
  "step_spans step =
     (if rk_kind (ps_resource step) \<noteq> RSpan then []
      else case ParseId (rk_text (ps_resource step)) of Inr i \<Rightarrow> [i] | Inl _ \<Rightarrow> [])"

record Exclusions =
  e_nodes :: "NodeId list"
  e_spans :: "SpanId list"
  e_domains :: "FailureDomainId list"

definition ExtendExclusions :: "PlanArtifact \<Rightarrow> Disjointness \<Rightarrow> Exclusions \<Rightarrow> Exclusions" where
  "ExtendExclusions plan kind e =
     (case kind of
        DisjointNode \<Rightarrow> e\<lparr>e_nodes := e_nodes e @ concat (map step_nodes (pl_steps plan))\<rparr>
      | DisjointSpan \<Rightarrow> e\<lparr>e_spans := e_spans e @ concat (map step_spans (pl_steps plan))\<rparr>
      | DisjointFailureDomain \<Rightarrow> e\<lparr>e_domains := e_domains e @ map ex_id (pl_failure_domain_exposure plan)\<rparr>
      | DisjointNone \<Rightarrow> e)"

definition SortUnique :: "Exclusions \<Rightarrow> Exclusions" where
  "SortUnique e = \<lparr>e_nodes = sort_unique (e_nodes e), e_spans = sort_unique (e_spans e),
                  e_domains = sort_unique (e_domains e)\<rparr>"

definition witness_less :: "Witness \<Rightarrow> Witness \<Rightarrow> bool" where
  "witness_less l r =
     (if w_reason l \<noteq> w_reason r then CutSlot (w_reason l) < CutSlot (w_reason r)
      else if w_resource l \<noteq> w_resource r then w_resource l < w_resource r
      else w_detail l < w_detail r)"

definition FinaliseResult :: "seal \<Rightarrow> PlanningResult \<Rightarrow> PlanningResult" where
  "FinaliseResult seal res =
     SealResult seal
       (res\<lparr>res_witnesses := take kMaxWitnessEntries (std_unique (std_sort witness_less (res_witnesses res))),
            res_cuts := std_sort (\<lambda>l r. CutSlot (cut_reason l) < CutSlot (cut_reason r)) (res_cuts res)\<rparr>)"

section \<open>Before the search\<close>

definition indeterminate :: "StatusCode \<Rightarrow> string \<Rightarrow> u32 \<Rightarrow> PlanningResult \<Rightarrow> PlanningResult" where
  "indeterminate c txt lims res =
     NoteLimitation lims (res\<lparr>res_outcome := OutIndeterminate, res_status := Failure c txt\<rparr>)"

definition push_witness :: "CutReason \<Rightarrow> ResourceKey \<Rightarrow> string \<Rightarrow> PlanningResult \<Rightarrow> PlanningResult" where
  "push_witness reason res_key txt res =
     res\<lparr>res_witnesses := res_witnesses res @ [\<lparr>w_reason = reason, w_resource = res_key, w_detail = txt\<rparr>]\<rparr>"

definition quoted :: "string \<Rightarrow> string" where
  "quoted t = [CHR 0x27] @ t @ [CHR 0x27]"

text \<open>The loop over the source generations the request pins.\<close>

fun check_sources :: "TopologySnapshot \<Rightarrow> PlanningResult \<Rightarrow> (SourceId \<times> Generation) list \<Rightarrow> PlanningResult option" where
  "check_sources s res [] = None"
| "check_sources s res ((source, wanted) # rest) =
     (if \<not> HasSource s source
      then Some (push_witness CutUnresolvedReference (ForSource source) ''required evidence source is absent''
             (indeterminate Stale (''source '' @ quoted source @
                '' is required by the request but is absent from the snapshot'') kLimitationStaleEvidence res))
      else if SourceGeneration s source < wanted
      then Some (indeterminate Stale (''source '' @ quoted source @ '' publishes generation '' @
             to_string (unat (SourceGeneration s source)) @ '' but the request requires at least '' @
             to_string (unat wanted)) kLimitationStaleEvidence res)
      else check_sources s res rest)"

definition check_freshness :: "TopologySnapshot \<Rightarrow> PlanningRequest \<Rightarrow> PlanningResult \<Rightarrow> PlanningResult option" where
  "check_freshness s r res =
     (if s_freshness s \<noteq> Fresh \<and> \<not> rq_accept_restored_evidence r
      then Some (push_witness CutUnresolvedReference (ForSource ''snapshot'')
             (''restored from incarnation '' @ ToHexImpl (s_restored_from_incarnation s))
             (indeterminate Stale ''the snapshot was restored from persistence and the caller did not accept restored evidence''
                (kLimitationRestoredEvidence OR kLimitationStaleEvidence) res))
      else if (case rq_required_snapshot_generation r of Some g \<Rightarrow> s_generation s < g | None \<Rightarrow> False)
      then Some (indeterminate Stale (''snapshot generation '' @ to_string (unat (s_generation s)) @
             '' is older than the requested minimum '' @
             to_string (unat (the (rq_required_snapshot_generation r)))) kLimitationStaleEvidence res)
      else if (case rq_expected_snapshot_digest r of Some d \<Rightarrow> d \<noteq> s_digest s | None \<Rightarrow> False)
      then Some (indeterminate Stale ''snapshot digest does not match the digest the request pinned''
             kLimitationStaleEvidence res)
      else check_sources s res (rq_required_source_generations r))"

definition check_endpoints :: "TopologySnapshot \<Rightarrow> PlanningRequest \<Rightarrow> PlanningResult \<Rightarrow> PlanningResult option" where
  "check_endpoints s r res =
     (let source_present = (FindPort s (rq_source r) \<noteq> None); destination_present = (FindPort s (rq_destination r) \<noteq> None);
          reason = (if source_present then CutDestinationAbsent else CutSourceAbsent);
          res1 = res\<lparr>res_cuts := res_cuts res @ [\<lparr>cut_reason = reason, cut_count = 1\<rparr>]\<rparr>
      in if source_present \<and> destination_present then None
         else if s_coverage_complete s then Some (res1\<lparr>res_outcome := OutInfeasible, res_status := OkStatus\<rparr>)
         else Some (push_witness reason (ForPort (if source_present then rq_destination r else rq_source r))
                ''no record for this port''
                (indeterminate NotFound ''an endpoint has no record and the snapshot does not claim complete coverage''
                   kLimitationUnknownAdjacency res1)))"

text \<open>Headings 1 to 4 of \<open>Plan\<close>: the result to return, or \<open>None\<close> to search.\<close>

definition before_search :: "TopologySnapshot \<Rightarrow> PlanningRequest \<Rightarrow> PlanningResult \<Rightarrow> PlanningResult option" where
  "before_search s r res =
     (let st = PlanningRequest_Validate r
      in if failed st
         then Some (res\<lparr>res_outcome := (if code st = Unsupported then OutUnsupported else OutRefused), res_status := st\<rparr>)
         else case check_freshness s r res of
                Some early \<Rightarrow> Some early
              | None \<Rightarrow>
                  if grid (s_spectrum s) = Fixed50GHz \<and> rq_channel_width_slots r \<noteq> 1
                  then Some (res\<lparr>res_outcome := OutUnsupported, res_status := Failure Unsupported
                         ''a fixed 50 GHz grid carries single-slot channels; multi-slot widths are only modelled on the flexible grid''\<rparr>)
                  else check_endpoints s r res)"

section \<open>One pass\<close>

record PassState =
  it_result :: PlanningResult
  it_accepted :: "PlanArtifact list"
  it_excluded :: Exclusions
  it_first_optimum :: bool
  it_gap :: bool
  it_truncation :: bool
  it_stopping :: Status

datatype pass_flow = PassReturn PlanningResult | PassBreak PassState | PassContinue PassState

definition iterative :: "PlanningRequest \<Rightarrow> bool" where
  "iterative r = (rq_disjointness r \<noteq> DisjointNone \<and> rq_max_candidates r > 1)"

text \<open>The request of one pass: in iterative mode with the resources of earlier candidates excluded.\<close>

definition working_request :: "PlanningRequest \<Rightarrow> Exclusions \<Rightarrow> PlanningRequest" where
  "working_request r e =
     (let c = rq_constraints r
      in r\<lparr>rq_max_candidates := 1, rq_disjointness := DisjointNone,
           rq_constraints := c\<lparr>excluded_nodes := excluded_nodes c @ e_nodes e,
             excluded_spans := excluded_spans c @ e_spans e,
             excluded_failure_domains := excluded_failure_domains c @ e_domains e\<rparr>\<rparr>)"

definition build_budget :: "PlanningRequest \<Rightarrow> nat" where
  "build_budget r =
     (if iterative r then 1
      else if rq_disjointness r = DisjointNone then rq_max_candidates r
      else min kPlanBuildBudget (rq_max_candidates r * 8))"

text \<open>The loop over the paths of a search: the plans built so far, their digests, and whether an unproven path was met.\<close>

fun build_candidates ::
  "libm \<Rightarrow> digests \<Rightarrow> TopologySnapshot \<Rightarrow> PlanningRequest \<Rightarrow> Digest256 \<Rightarrow> nat \<Rightarrow> RawPath list \<Rightarrow>
     PlanArtifact list \<Rightarrow> string list \<Rightarrow> bool \<Rightarrow> (PlanArtifact list \<times> bool) expected" where
  "build_candidates lm dg s r rd max_built [] built seen unproven = Inr (built, unproven)"
| "build_candidates lm dg s r rd max_built (p # ps) built seen unproven =
     (if \<not> rp_proven p then build_candidates lm dg s r rd max_built ps built seen True
      else if length built \<ge> max_built then Inr (built, unproven)
      else case BuildPlan lm dg s r rd (StripCycles s (rq_source r) (rp_arcs p)) of
             Inl st \<Rightarrow> Inl st
           | Inr plan \<Rightarrow>
               if ToHexImpl (pl_digest plan) \<in> set seen
               then build_candidates lm dg s r rd max_built ps built seen unproven
               else build_candidates lm dg s r rd max_built ps (built @ [plan]) (ToHexImpl (pl_digest plan) # seen) unproven)"

text \<open>No plan was built: why the loop stops.\<close>

definition stop_without_plan :: "TopologySnapshot \<Rightarrow> SearchOutcome \<Rightarrow> bool \<Rightarrow> PassState \<Rightarrow> PassState" where
  "stop_without_plan s search unproven it =
     (if unproven
      then it\<lparr>it_gap := True, it_stopping := Failure Stale
             ''a route exists only under unpublished evidence, so neither feasibility nor infeasibility can be proven''\<rparr>
      else if stat_truncated (so_statistics search) \<or> \<not> so_exhausted search
      then it\<lparr>it_truncation := True, it_stopping := Failure Truncated
             ''the search reached its configured bound before exhausting the reachable state space''\<rparr>
      else if \<not> s_coverage_complete s
      then it\<lparr>it_gap := True, it_stopping := Failure Stale
             ''the snapshot does not claim complete coverage, so absence of a route cannot be proven'',
             it_result := NoteLimitation (kLimitationUnknownAdjacency OR kLimitationUnresolvedReference) (it_result it)\<rparr>
      else it)"

definition search_pass ::
  "libm \<Rightarrow> digests \<Rightarrow> PlannerOptions \<Rightarrow> TopologySnapshot \<Rightarrow> PlanningRequest \<Rightarrow> (nat \<Rightarrow> bool) \<Rightarrow>
     bool \<Rightarrow> PlanningRequest \<Rightarrow> PassState \<Rightarrow> pass_flow" where
  "search_pass lm dg options s r cancel first working it0 =
     (let search = RunSearch lm s working options cancel;
          merged = MergeSearch search (it_result it0)
      in if failed (so_status search)
         then PassReturn (merged\<lparr>res_outcome := (if code (so_status search) = Cancelled then OutCancelled else OutRefused),
                                res_status := so_status search\<rparr>)
         else let it1 = it0\<lparr>it_result := merged,
                            it_first_optimum := (if first then so_proved_optimum search else it_first_optimum it0)\<rparr>
              in case build_candidates lm dg s r (res_request_digest merged) (build_budget r) (so_paths search) [] [] False of
                   Inl st \<Rightarrow> PassReturn (merged\<lparr>res_outcome := OutRefused, res_status := st\<rparr>)
                 | Inr (built, unproven) \<Rightarrow>
                     (case std_sort PlanLess built of
                        [] \<Rightarrow> PassBreak (stop_without_plan s search unproven it1)
                      | best # others \<Rightarrow>
                          if \<not> iterative r
                          then PassBreak (it1\<lparr>it_accepted := it_accepted it1 @
                                 take (rq_max_candidates r - length (it_accepted it1)) (best # others)\<rparr>)
                          else PassContinue (it1\<lparr>it_excluded := ExtendExclusions best (rq_disjointness r) (it_excluded it1),
                                 it_accepted := it_accepted it1 @ [best]\<rparr>)))"

definition planner_pass ::
  "libm \<Rightarrow> digests \<Rightarrow> PlannerOptions \<Rightarrow> TopologySnapshot \<Rightarrow> PlanningRequest \<Rightarrow> (nat \<Rightarrow> bool) \<Rightarrow>
     bool \<Rightarrow> PassState \<Rightarrow> pass_flow" where
  "planner_pass lm dg options s r cancel first it =
     (if \<not> iterative r then search_pass lm dg options s r cancel first r it
      else let it1 = it\<lparr>it_excluded := SortUnique (it_excluded it)\<rparr>; working = working_request r (it_excluded it1);
               valid = PlanningRequest_Validate working
           in if failed valid then PassBreak (it1\<lparr>it_stopping := valid\<rparr>)
              else search_pass lm dg options s r cancel first working it1)"

text \<open>The pass loop: \<open>n\<close> passes remain, \<open>pass\<close> is the index of the next one.\<close>

fun planner_passes ::
  "libm \<Rightarrow> digests \<Rightarrow> PlannerOptions \<Rightarrow> TopologySnapshot \<Rightarrow> PlanningRequest \<Rightarrow> (nat \<Rightarrow> nat \<Rightarrow> bool) \<Rightarrow>
     nat \<Rightarrow> nat \<Rightarrow> PassState \<Rightarrow> PlanningResult + PassState" where
  "planner_passes lm dg options s r cancel 0 pass it = Inr it"
| "planner_passes lm dg options s r cancel (Suc n) pass it =
     (case planner_pass lm dg options s r (cancel pass) (pass = 0) it of
        PassReturn res \<Rightarrow> Inl res
      | PassBreak it' \<Rightarrow> Inr it'
      | PassContinue it' \<Rightarrow> planner_passes lm dg options s r cancel n (Suc pass) it')"

section \<open>Classification\<close>

definition classify :: "TopologySnapshot \<Rightarrow> PlanningRequest \<Rightarrow> PassState \<Rightarrow> PlanningResult" where
  "classify s r it =
     (let res = (it_result it)\<lparr>res_candidates := it_accepted it\<rparr>
      in if res_candidates res \<noteq> []
         then let proven = (it_first_optimum it \<and> s_coverage_complete s);
                  res1 = res\<lparr>res_outcome := OutFeasible, res_status := OkStatus, res_optimality_proven := proven\<rparr>;
                  res2 = (if iterative r \<and> length (res_candidates res1) < rq_max_candidates r \<and> \<not> it_gap it \<and> \<not> it_truncation it
                          then NoteLimitation kLimitationDisjointnessGreedy res1 else res1)
              in if \<not> proven then NoteLimitation kLimitationOptimalityNotProven res2 else res2
         else if it_gap it then res\<lparr>res_outcome := OutIndeterminate, res_status := it_stopping it\<rparr>
         else if it_truncation it
         then NoteLimitation kLimitationSearchTruncated (res\<lparr>res_outcome := OutIndeterminate, res_status := it_stopping it\<rparr>)
         else res\<lparr>res_outcome := OutInfeasible, res_status := OkStatus, res_optimality_proven := False\<rparr>)"

definition initial_pass :: "PlanningResult \<Rightarrow> PassState" where
  "initial_pass res =
     \<lparr>it_result = res, it_accepted = [], it_excluded = \<lparr>e_nodes = [], e_spans = [], e_domains = []\<rparr>,
      it_first_optimum = False, it_gap = False, it_truncation = False, it_stopping = OkStatus\<rparr>"

definition Plan ::
  "libm \<Rightarrow> digests \<Rightarrow> seal \<Rightarrow> PlannerOptions \<Rightarrow> TopologySnapshot \<Rightarrow> PlanningRequest \<Rightarrow> (nat \<Rightarrow> nat \<Rightarrow> bool) \<Rightarrow>
     PlanningResult" where
  "Plan lm dg seal options s r cancel =
     FinaliseResult seal
       (case before_search s r (new_result dg s r) of
          Some res \<Rightarrow> res
        | None \<Rightarrow>
            (case planner_passes lm dg options s r cancel (if iterative r then rq_max_candidates r else 1) 0
                    (initial_pass (new_result dg s r)) of
               Inl res \<Rightarrow> res
             | Inr it \<Rightarrow> classify s r it))"

end
