(* ===== verification/Search_Invariant.thy ===== *)
theory Search_Invariant
  imports Search_Loop Topology_Props
begin

text \<open>
  The invariant of the label search.  A \<open>route\<close> is a sequence of labels, newest first, each
  obtained from the one below it by one expansion of the code; the search keeps the invariant that
  the parent chain of every label it ever created is a route.
\<close>

section \<open>Routes\<close>

text \<open>What a label says about its route, without the bookkeeping of the search.\<close>

definition core :: "Label \<Rightarrow> Label" where
  "core l = l\<lparr>l_parent := None, l_sequence := 0, l_retained := False, l_expanded := False\<rparr>"

inductive route :: "SearchContext \<Rightarrow> nat \<Rightarrow> Label list \<Rightarrow> bool" for cx src where
  start: "run_checks (start_checks cx src) True = (ns, Inr proven) \<Longrightarrow>
    route cx src [core (start_label cx src proven)]"
| cross_connect: "route cx src (l # path) \<Longrightarrow>
    x \<in> set (OutgoingCrossConnects (cx_snapshot cx) (l_port_index l)) \<Longrightarrow>
    expand_cross_connect cx 0 (l # path) l x = ArcPush ns l' \<Longrightarrow>
    route cx src (core l' # l # path)"
| span_arc: "route cx src (l # path) \<Longrightarrow>
    a \<in> set (OutgoingSpanArcs (cx_snapshot cx) (l_port_index l)) \<Longrightarrow>
    expand_span cx 0 (l # path) l a = ArcPush ns l' \<Longrightarrow>
    route cx src (core l' # l # path)"

inductive_cases route_cases: "route cx src path"

lemma core_simps [simp]:
  "l_port_index (core l) = l_port_index l" "l_arc_kind (core l) = l_arc_kind l" "l_arc_index (core l) = l_arc_index l"
  "l_arc_reversed (core l) = l_arc_reversed l" "l_is_start (core l) = l_is_start l"
  "l_profile_index (core l) = l_profile_index l" "l_mask (core l) = l_mask l" "l_cost (core l) = l_cost l"
  "l_distance_m (core l) = l_distance_m l" "l_loss_db (core l) = l_loss_db l"
  "l_osnr_inverse (core l) = l_osnr_inverse l" "l_span_count (core l) = l_span_count l" "l_hops (core l) = l_hops l"
  "l_regenerations (core l) = l_regenerations l" "l_proven (core l) = l_proven l"
  by (simp_all add: core_def)

lemma core_updates [simp]:
  "core (l\<lparr>l_sequence := n\<rparr>) = core l" "core (l\<lparr>l_retained := b\<rparr>) = core l"
  "core (l\<lparr>l_expanded := b\<rparr>) = core l" "core (l\<lparr>l_parent := p\<rparr>) = core l"
  by (simp_all add: core_def)

lemma Dominates_core [simp]: "Dominates (core a) b = Dominates a b" "Dominates a (core b) = Dominates a b"
  by (simp_all add: Dominates_def)

text \<open>An expansion reads the path only through what \<open>core\<close> keeps.\<close>

lemma on_path_core [simp]: "on_path (map core path) p = on_path path p"
  by (simp add: on_path_def list.pred_map comp_def list_ex_iff)

lemma path_members_core [simp]: "path_members cx (map core path) d = path_members cx path d"
proof (induction path)
  case (Cons l path)
  then show ?case by (cases path) simp_all
qed simp

lemma member_limit_core [simp]:
  "path \<noteq> [] \<Longrightarrow> member_limit_exceeded cx (map core path) kind i t = member_limit_exceeded cx path kind i t"
  by (simp add: member_limit_exceeded_def DomainCounter_Count_def hd_map)

lemma next_values_core [simp]:
  "next_cost cx (core cur) c t = next_cost cx cur c t"
  "cross_connect_mask cx (core cur) x t = cross_connect_mask cx cur x t"
  "next_distance cx (core cur) k = next_distance cx cur k" "next_loss cx (core cur) k = next_loss cx cur k"
  "next_osnr_inverse cx (core cur) k = next_osnr_inverse cx cur k" "span_mask cx (core cur) k t = span_mask cx cur k t"
  "label_profile cx (core cur) = label_profile cx cur"
  by (simp_all add: next_cost_def cross_connect_mask_def next_distance_def next_loss_def next_osnr_inverse_def
      span_mask_def label_profile_def Let_def split: option.split CrossConnectOp.split Evidence.split)

lemma reach_checks_core [simp]: "reach_checks cx (core cur) d l q = reach_checks cx cur d l q"
  by (simp add: reach_checks_def Let_def split: option.split)

lemma expand_cross_connect_core:
  assumes "expand_cross_connect cx i path cur x = ArcPush ns l" "path \<noteq> []"
  shows "\<exists>l'. expand_cross_connect cx 0 (map core path) (core cur) x = ArcPush ns l' \<and> core l' = core l \<and>
    l_parent l = Some i"
proof -
  have checks: "cross_connect_checks cx (map core path) (core cur) x t = cross_connect_checks cx path cur x t" for t
    using assms(2)
    by (simp add: cross_connect_checks_def cross_connect_op_checks_def cost_checks_def
        cross_connect_evidence_checks_def Let_def)
  have label: "core (cross_connect_label cx 0 (core cur) x t b) = core (cross_connect_label cx i cur x t b)" for t b
    by (simp add: cross_connect_label_def Let_def) (simp add: core_def)
  have parent: "l_parent (cross_connect_label cx i cur x t b) = Some i" for t b
    by (simp add: cross_connect_label_def Let_def)
  from assms(1) show ?thesis
    by (auto simp: expand_cross_connect_def Let_def checks label parent
        split: option.splits prod.splits sum.splits)
qed

lemma expand_span_core:
  assumes "expand_span cx i path cur a = ArcPush ns l" "path \<noteq> []"
  shows "\<exists>l'. expand_span cx 0 (map core path) (core cur) a = ArcPush ns l' \<and> core l' = core l \<and> l_parent l = Some i"
proof -
  have checks: "span_checks cx (map core path) (core cur) a t = span_checks cx path cur a t" for t
    using assms(2)
    by (simp add: span_checks_def span_entry_checks_def cost_checks_def span_impairment_checks_def
        span_spectrum_checks_def total_checks_def Let_def)
  have label: "core (span_label cx 0 (core cur) a t b) = core (span_label cx i cur a t b)" for t b
    by (simp add: span_label_def Let_def) (simp add: core_def)
  have parent: "l_parent (span_label cx i cur a t b) = Some i" for t b
    by (simp add: span_label_def Let_def)
  from assms(1) show ?thesis
    by (auto simp: expand_span_def checks label parent
        split: option.splits prod.splits sum.splits)
qed

section \<open>Parent chains\<close>

lemma label_path_nonempty [simp]: "label_path ls i \<noteq> []"
  by (subst label_path.simps) simp

lemma hd_label_path [simp]: "hd (label_path ls i) = ls ! i"
  by (subst label_path.simps) simp

lemma label_path_append: "i < length ls \<Longrightarrow> label_path (ls @ [l]) i = label_path ls i"
proof (induction i rule: less_induct)
  case (less i)
  then show ?case
    by (subst (1 2) label_path.simps) (auto simp: nth_append split: option.split)
qed

lemma label_path_new:
  "l_parent l = Some p \<Longrightarrow> p < length ls \<Longrightarrow> label_path (ls @ [l]) (length ls) = l # label_path ls p"
  by (subst label_path.simps) (simp add: label_path_append)

text \<open>Two label vectors that differ only in the bookkeeping flags.\<close>

definition same_routes :: "Label list \<Rightarrow> Label list \<Rightarrow> bool" where
  "same_routes ls ls' \<longleftrightarrow> length ls = length ls' \<and>
     (\<forall>i < length ls. core (ls ! i) = core (ls' ! i) \<and> l_parent (ls ! i) = l_parent (ls' ! i))"

lemma same_routes_refl [simp]: "same_routes ls ls"
  by (simp add: same_routes_def)

lemma same_routes_trans: "same_routes a b \<Longrightarrow> same_routes b c \<Longrightarrow> same_routes a c"
  by (simp add: same_routes_def)

lemma same_routes_update:
  "core l = core (ls ! i) \<Longrightarrow> l_parent l = l_parent (ls ! i) \<Longrightarrow> same_routes ls (ls[i := l])"
  by (cases "i < length ls") (auto simp: same_routes_def nth_list_update list_update_beyond)

lemma label_path_same_routes:
  assumes "same_routes ls ls'" "i < length ls"
  shows "map core (label_path ls i) = map core (label_path ls' i)"
  using assms(2)
proof (induction i rule: less_induct)
  case (less i)
  with assms(1) show ?case
    by (subst (1 2) label_path.simps) (auto simp: same_routes_def split: option.split)
qed

lemma prune_bucket_same_routes:
  "prune_bucket c b ls = (b', ls', d) \<Longrightarrow> same_routes ls ls'"
proof (induction c b ls arbitrary: b' ls' d rule: prune_bucket.induct)
  case (2 current other rest labels)
  let ?ls = "labels[other := (labels ! other)\<lparr>l_retained := False\<rparr>]"
  have "same_routes labels ?ls" by (rule same_routes_update) simp_all
  with 2 show ?case by (auto split: if_splits prod.splits intro: same_routes_trans)
qed simp

section \<open>The invariant\<close>

definition entry_ok :: "Label list \<Rightarrow> QueueEntry \<Rightarrow> bool" where
  "entry_ok ls e \<longleftrightarrow> q_label e < length ls \<and> q_cost e = l_cost (ls ! q_label e) \<and> q_hops e = l_hops (ls ! q_label e) \<and>
     q_regenerations e = l_regenerations (ls ! q_label e)"

definition search_ok :: "SearchContext \<Rightarrow> nat \<Rightarrow> nat \<Rightarrow> SearchState \<Rightarrow> bool" where
  "search_ok cx src dst s \<longleftrightarrow>
     (\<forall>i < length (st_labels s). route cx src (map core (label_path (st_labels s) i))) \<and>
     (\<forall>e \<in> set (st_frontier s). entry_ok (st_labels s) e) \<and> frontier_sorted (st_frontier s) \<and>
     (\<forall>i \<in> set (st_destination_labels s). i < length (st_labels s) \<and> l_port_index (st_labels s ! i) = dst)"

lemma core_eq_fields:
  assumes "core a = core b"
  shows "l_port_index a = l_port_index b" "l_cost a = l_cost b" "l_hops a = l_hops b"
    "l_regenerations a = l_regenerations b" "l_profile_index a = l_profile_index b"
  using assms by (metis core_simps)+

lemma same_routes_fields:
  assumes "same_routes ls ls'" "i < length ls"
  shows "l_port_index (ls ! i) = l_port_index (ls' ! i)" "l_cost (ls ! i) = l_cost (ls' ! i)"
    "l_hops (ls ! i) = l_hops (ls' ! i)" "l_regenerations (ls ! i) = l_regenerations (ls' ! i)"
    "l_profile_index (ls ! i) = l_profile_index (ls' ! i)"
  using assms core_eq_fields [of "ls ! i" "ls' ! i"] by (simp_all add: same_routes_def)

lemma entry_ok_same_routes: "same_routes ls ls' \<Longrightarrow> entry_ok ls e \<Longrightarrow> entry_ok ls' e"
  using same_routes_fields [of ls ls' "q_label e"] by (simp add: entry_ok_def same_routes_def)

lemma search_ok_labels:
  assumes "search_ok cx src dst s" "same_routes (st_labels s) ls"
  shows "search_ok cx src dst (s\<lparr>st_labels := ls\<rparr>)"
proof -
  have "length ls = length (st_labels s)" using assms(2) by (simp add: same_routes_def)
  moreover have "l_port_index (ls ! i) = l_port_index (st_labels s ! i)" if "i < length (st_labels s)" for i
    using same_routes_fields [OF assms(2) that] by simp
  ultimately show ?thesis
    using assms label_path_same_routes [OF assms(2)]
    by (auto simp: search_ok_def intro: entry_ok_same_routes)
qed

lemma search_ok_frame [simp]:
  "search_ok cx src dst (note_cut r s) = search_ok cx src dst s"
  "search_ok cx src dst (record_notes ns s) = search_ok cx src dst s"
  "search_ok cx src dst (update_stats f s) = search_ok cx src dst s"
  "search_ok cx src dst (s\<lparr>st_truncated := b\<rparr>) = search_ok cx src dst s"
  "search_ok cx src dst (s\<lparr>st_stopped_on_key := b\<rparr>) = search_ok cx src dst s"
  "search_ok cx src dst (s\<lparr>st_buckets := bs\<rparr>) = search_ok cx src dst s"
  by (simp_all add: search_ok_def)

lemma set_frontier_push: "set (frontier_push e q) = insert e (set q)"
  using frontier.content_push [of e q] by (metis set_mset_add_mset_insert set_mset_mset)

lemma search_ok_push:
  assumes ok: "search_ok cx src dst s" and p: "l_parent l = Some p" "p < length (st_labels s)"
    and route: "route cx src (core l # map core (label_path (st_labels s) p))"
  shows "search_ok cx src dst (push_label l s)"
proof -
  let ?l = "l\<lparr>l_sequence := st_sequence s\<rparr>" and ?n = "length (st_labels s)"
  have new: "label_path (st_labels s @ [?l]) ?n = ?l # label_path (st_labels s) p"
    using p by (intro label_path_new) simp_all
  have "route cx src (map core (label_path (st_labels s @ [?l]) i))" if "i < Suc ?n" for i
    using that ok route by (cases "i = ?n") (simp_all add: new search_ok_def label_path_append)
  moreover have "entry_ok (st_labels s @ [?l]) e" if "entry_ok (st_labels s) e" for e
    using that by (auto simp: entry_ok_def nth_append)
  ultimately show ?thesis
    using ok frontier_push_sorted
    by (auto simp: search_ok_def push_label_def Let_def set_frontier_push entry_ok_def nth_append)
qed

section \<open>Every step keeps it\<close>

lemma expand_arcs_invariant:
  assumes "I s" and cut: "\<And>s r. I s \<Longrightarrow> I (note_cut r s)" and noted: "\<And>s ns. I s \<Longrightarrow> I (record_notes ns s)"
    and stats: "\<And>s f. I s \<Longrightarrow> I (update_stats f s)" and trunc: "\<And>s. I s \<Longrightarrow> I (s\<lparr>st_truncated := True\<rparr>)"
    and push: "\<And>s a ns l. a \<in> set as \<Longrightarrow> I s \<Longrightarrow> f (st_labels s) a = ArcPush ns l \<Longrightarrow>
      length (st_labels s) < limit \<Longrightarrow> I (push_label l s)"
  shows "I (expand_arcs limit f as s)"
  using assms(1) push
proof (induction as arbitrary: s)
  case (Cons a as)
  let ?s = "update_stats (\<lambda>st. st\<lparr>arcs_examined := arcs_examined st + 1\<rparr>) s"
  have s: "I ?s" by (rule stats [OF Cons.prems(1)])
  have IH: "I s' \<Longrightarrow> I (expand_arcs limit f as s')" for s'
    by (rule Cons.IH) (auto intro: Cons.prems(2))
  show ?case
  proof (cases "f (st_labels ?s) a")
    case (ArcCut ns r)
    have "I (note_cut r (record_notes ns ?s))" by (rule cut [OF noted [OF s]])
    from IH [OF this] ArcCut show ?thesis by (simp add: Let_def)
  next
    case (ArcPush ns l)
    have "I (record_notes ns ?s)" by (rule noted [OF s])
    moreover from this Cons.prems(2) [of a "record_notes ns ?s" ns l] ArcPush
    have "length (st_labels s) < limit \<Longrightarrow> I (push_label l (record_notes ns ?s))" by simp
    ultimately show ?thesis
      using IH [of "push_label l (record_notes ns ?s)"] ArcPush cut trunc by (simp add: Let_def)
  qed
qed simp

text \<open>Expansion only appends labels, so the chain of the expanded label stays as it was.\<close>

definition grown :: "SearchState \<Rightarrow> SearchState \<Rightarrow> bool" where
  "grown s s' \<longleftrightarrow> (\<exists>new. st_labels s' = st_labels s @ new)"

lemma grown_refl [simp]: "grown s s"
  by (simp add: grown_def)

lemma grown_frame [simp]:
  "grown s (note_cut r s') = grown s s'" "grown s (record_notes ns s') = grown s s'"
  "grown s (update_stats f s') = grown s s'" "grown s (s'\<lparr>st_truncated := b\<rparr>) = grown s s'"
  by (simp_all add: grown_def)

lemma grown_push: "grown s s' \<Longrightarrow> grown s (push_label l s')"
  by (auto simp: grown_def)

lemma label_path_grown: "i < length ls \<Longrightarrow> label_path (ls @ new) i = label_path ls i"
proof (induction new rule: rev_induct)
  case (snoc x xs)
  then show ?case using label_path_append [of i "ls @ xs" x] by simp
qed simp

lemma expand_arcs_ok:
  assumes ok: "search_ok cx src dst s" and i: "i < length (st_labels s)"
    and result: "\<And>labels a ns l. a \<in> set as \<Longrightarrow> label_path labels i = label_path (st_labels s) i \<Longrightarrow>
      f labels a = ArcPush ns l \<Longrightarrow>
      l_parent l = Some i \<and> route cx src (core l # map core (label_path (st_labels s) i))"
  shows "search_ok cx src dst (expand_arcs limit f as s) \<and> grown s (expand_arcs limit f as s)"
proof (rule expand_arcs_invariant [where I = "\<lambda>s'. search_ok cx src dst s' \<and> grown s s'"])
  fix s' a ns l
  assume a: "a \<in> set as" and I: "search_ok cx src dst s' \<and> grown s s'" and f: "f (st_labels s') a = ArcPush ns l"
  then obtain new where new: "st_labels s' = st_labels s @ new" by (auto simp: grown_def)
  then have path: "label_path (st_labels s') i = label_path (st_labels s) i" using i label_path_grown by simp
  from result [OF a path f] I i new path show "search_ok cx src dst (push_label l s') \<and> grown s (push_label l s')"
    by (auto intro!: search_ok_push grown_push)
qed (use ok in simp_all)

lemma expand_label_ok:
  assumes ok: "search_ok cx src dst s" and i: "i < length (st_labels s)"
  shows "search_ok cx src dst (snd (expand_label cx i s))"
proof -
  let ?c = "st_labels s ! i"
  let ?f = "\<lambda>labels x. expand_cross_connect cx i (label_path labels i) ?c x"
  let ?g = "\<lambda>labels a. expand_span cx i (label_path labels i) ?c a"
  let ?s1 = "expand_arcs (cx_label_limit cx) ?f (OutgoingCrossConnects (cx_snapshot cx) (l_port_index ?c)) s"
  obtain rest where path: "label_path (st_labels s) i = ?c # rest"
    by (metis hd_label_path label_path_nonempty list.collapse)
  have route: "route cx src (core ?c # map core rest)" using ok i path by (auto simp: search_ok_def)
  have 1: "search_ok cx src dst ?s1 \<and> grown s ?s1"
  proof (rule expand_arcs_ok [OF ok i])
    fix labels x ns l
    assume "x \<in> set (OutgoingCrossConnects (cx_snapshot cx) (l_port_index ?c))"
      "label_path labels i = label_path (st_labels s) i" "?f labels x = ArcPush ns l"
    moreover from this expand_cross_connect_core [of cx i "label_path labels i" ?c x ns l]
    obtain l' where "expand_cross_connect cx 0 (core ?c # map core rest) (core ?c) x = ArcPush ns l'"
      "core l' = core l" "l_parent l = Some i" by (auto simp: path)
    ultimately show "l_parent l = Some i \<and> route cx src (core l # map core (label_path (st_labels s) i))"
      using route.cross_connect [OF route, of x ns l'] by (simp add: path)
  qed
  then obtain new where new: "st_labels ?s1 = st_labels s @ new" by (auto simp: grown_def)
  have path1: "label_path (st_labels ?s1) i = ?c # rest" using label_path_grown [OF i] path by (simp add: new)
  have i1: "i < length (st_labels ?s1)" using i new by simp
  have 2: "search_ok cx src dst (expand_arcs (cx_label_limit cx) ?g
             (OutgoingSpanArcs (cx_snapshot cx) (l_port_index ?c)) ?s1)"
  proof (rule conjunct1 [OF expand_arcs_ok [OF conjunct1 [OF 1] i1]])
    fix labels a ns l
    assume "a \<in> set (OutgoingSpanArcs (cx_snapshot cx) (l_port_index ?c))"
      "label_path labels i = label_path (st_labels ?s1) i" "?g labels a = ArcPush ns l"
    moreover from this expand_span_core [of cx i "label_path labels i" ?c a ns l]
    obtain l' where "expand_span cx 0 (core ?c # map core rest) (core ?c) a = ArcPush ns l'"
      "core l' = core l" "l_parent l = Some i" by (auto simp: path1)
    ultimately show "l_parent l = Some i \<and> route cx src (core l # map core (label_path (st_labels ?s1) i))"
      using route.span_arc [OF route, of a ns l'] by (simp add: path1)
  qed
  from 1 2 show ?thesis by (simp add: expand_label_def Let_def)
qed

lemma settle_label_ok:
  assumes ok: "search_ok cx src dst s" and i: "i < length (st_labels s)"
  shows "search_ok cx src dst (snd (settle_label cx dst i b s))"
proof -
  let ?l = "(st_labels s ! i)\<lparr>l_retained := True, l_expanded := True\<rparr>" and ?s1 = "mark_settled i b s"
  have "same_routes (st_labels s) ((st_labels s)[i := ?l])" by (rule same_routes_update) simp_all
  then have "search_ok cx src dst (s\<lparr>st_labels := (st_labels s)[i := ?l]\<rparr>)" by (rule search_ok_labels [OF ok])
  then have s1: "search_ok cx src dst ?s1" by (simp add: search_ok_def)
  have i1: "i < length (st_labels ?s1)" using i by simp
  show ?thesis
    using s1 i1 expand_label_ok [OF s1 i1] by (auto simp: settle_label_def Let_def search_ok_def)
qed

lemma search_step_ok:
  assumes ok: "search_ok cx src dst s"
  shows "search_ok cx src dst (snd (search_step cx dst s))"
proof (cases "st_frontier s")
  case Nil
  with ok show ?thesis by (simp add: search_step_def)
next
  case (Cons e q)
  let ?s = "s\<lparr>st_frontier := q\<rparr>" and ?c = "st_labels s ! q_label e"
  let ?key = "(l_port_index ?c, l_profile_index ?c)"
  have s: "search_ok cx src dst ?s" and i: "q_label e < length (st_labels s)"
    using ok Cons by (auto simp: search_ok_def frontier_sorted_def entry_ok_def)
  obtain b ls dom where p: "prune_bucket ?c (bucket_of ?s ?key) (st_labels s) = (b, ls, dom)"
    by (metis prod_cases3)
  let ?s1 = "?s\<lparr>st_labels := ls, st_buckets := AList.update ?key b (st_buckets s)\<rparr>"
  have "search_ok cx src dst ?s1"
    using search_ok_labels [OF s, of ls] prune_bucket_same_routes [OF p] by simp
  moreover have "q_label e < length (st_labels ?s1)" using prune_bucket_length [OF p] i by simp
  ultimately have "search_ok cx src dst (snd (process_entry cx dst e ?s))"
    using s settle_label_ok [of cx src dst ?s1 "q_label e" b] p
    by (simp add: process_entry_def Let_def)
  with ok Cons show ?thesis by (simp add: search_step_def)
qed

lemma search_loop_invariant:
  assumes "I s" "\<And>s. I s \<Longrightarrow> st_frontier s \<noteq> [] \<Longrightarrow> I (snd (search_step cx d s))"
  shows "I (snd (search_loop cx d cancel k s))"
  using assms
proof (induction cx d cancel k s rule: search_loop.induct)
  case (1 cx d cancel k s)
  show ?case
  proof (cases "st_frontier s = [] \<or> cancel k")
    case True
    with 1(2) show ?thesis by (subst search_loop.simps) auto
  next
    case False
    obtain f s' where step: "search_step cx d s = (f, s')" by fastforce
    with 1 False have "I s'" by (metis snd_conv)
    with 1 False step show ?thesis by (subst search_loop.simps) (cases f; simp)
  qed
qed

lemma search_ok_initial:
  assumes "run_checks (start_checks cx src) True = (ns, Inr proven)"
  shows "search_ok cx src dst (initial_state cx src ns proven)"
proof -
  have path: "label_path [l] 0 = [l]" if "l_parent l = None" for l
    using that by (subst label_path.simps) simp
  have "l_parent (start_label cx src proven) = None" by (simp add: start_label_def Let_def)
  with route.start [OF assms] show ?thesis
    by (simp add: search_ok_def initial_state_def push_label_def Let_def frontier_push_def frontier_sorted_def
        entry_ok_def path)
qed

text \<open>What the outcome of a search is made of.\<close>

lemma RunSearch_path_route:
  assumes "p \<in> set (so_paths (RunSearch lm s r opts cancel))"
  defines "cx \<equiv> search_context lm s r opts"
  obtains src dst l path where "PortIndex s (rq_source r) = Some src" "PortIndex s (rq_destination r) = Some dst"
    "route cx src (l # path)" "l_port_index l = dst"
    "p = \<lparr>rp_arcs = path_arcs (l # path), rp_cost = l_cost l, rp_hops = l_hops l,
          rp_regenerations = l_regenerations l, rp_proven = l_proven l\<rparr>"
proof -
  obtain src dst ns proven st where idx: "PortIndex s (rq_source r) = Some src" "PortIndex s (rq_destination r) = Some dst"
    and start: "run_checks (start_checks cx src) True = (ns, Inr proven)"
    and loop: "search_loop cx dst cancel 0 (initial_state cx src ns proven) = (False, st)"
    and p: "p \<in> set (so_paths (finish_search cx st))"
    using assms(1) unfolding RunSearch_def cx_def [symmetric] Let_def
    by (auto simp: empty_outcome_def split: option.splits prod.splits sum.splits bool.splits)
  have "search_ok cx src dst (snd (search_loop cx dst cancel 0 (initial_state cx src ns proven)))"
    by (rule search_loop_invariant [where I = "search_ok cx src dst"])
      (use search_ok_initial [OF start] search_step_ok in auto)
  then have ok: "search_ok cx src dst st" by (simp add: loop)
  from p obtain i where i: "i \<in> set (st_destination_labels st)" "p = raw_path (st_labels st) i"
    by (auto simp: finish_search_def Let_def)
  let ?l = "st_labels st ! i"
  obtain rest where path: "label_path (st_labels st) i = ?l # rest"
    by (metis hd_label_path label_path_nonempty list.collapse)
  have "route cx src (core ?l # map core rest)" "l_port_index (core ?l) = dst"
    using ok i path by (auto simp: search_ok_def)
  moreover have "path_arcs (map core ls) = path_arcs ls" for ls
    by (simp add: path_arcs_def takeWhile_map comp_def label_arc_def rev_map)
  then have "path_arcs (core ?l # map core rest) = path_arcs (?l # rest)" by (metis list.simps(9))
  ultimately show thesis using that [OF idx, of "core ?l" "map core rest"] i path by (simp add: raw_path_def Let_def)
qed

end
