(* ===== verification/Search_Props.thy ===== *)
theory Search_Props
  imports Search_Invariant Arcs
begin

text \<open>
  What the paths of a search outcome are: connected, port-simple walks between the requested ports
  that respect every exclusion and limit, whose cost is the exact sum of what they use, and along
  which one channel is free in every transparent section.
\<close>

section \<open>Runs of checks\<close>

fun check_passes :: "check \<Rightarrow> bool" where
  "check_passes (CutIf c r) = (\<not> c)"
| "check_passes _ = True"

fun check_clean :: "check \<Rightarrow> bool" where
  "check_clean (UnprovenIf c n) = (\<not> c)"
| "check_clean _ = True"

abbreviation passed :: "check list \<Rightarrow> bool" where "passed \<equiv> list_all check_passes"
abbreviation clean :: "check list \<Rightarrow> bool" where "clean \<equiv> list_all check_clean"

lemma run_checks_Inr: "snd (run_checks cs p) = Inr q \<longleftrightarrow> passed cs \<and> q = (p \<and> clean cs)"
  by (induction cs p rule: run_checks.induct) (auto split: prod.splits)

lemma run_checks_passed: "run_checks cs p = (ns, Inr q) \<Longrightarrow> passed cs \<and> q = (p \<and> clean cs)"
  using run_checks_Inr [of cs p q] by simp

lemma passed_runs: "passed cs \<Longrightarrow> \<exists>ns. run_checks cs p = (ns, Inr (p \<and> clean cs))"
  using run_checks_Inr [of cs p "p \<and> clean cs"] by (metis prod.collapse)

lemma expand_cross_connect_push:
  assumes "expand_cross_connect cx i path cur x = ArcPush ns l"
  obtains t where "ci_to_port (cx_cross_connect_info cx ! x) = Some t" "passed (cross_connect_entry_checks cx x)"
    "passed (cross_connect_checks cx path cur x t)"
    "l = cross_connect_label cx i cur x t (l_proven cur \<and> clean (cross_connect_entry_checks cx x)
           \<and> clean (cross_connect_checks cx path cur x t))"
  using assms
  by (auto simp: expand_cross_connect_def Let_def dest!: run_checks_passed
      split: option.splits prod.splits sum.splits)

lemma expand_span_push:
  assumes "expand_span cx i path cur a = ArcPush ns l"
  obtains t where "PortIndex (cx_snapshot cx) (span_to_key cx a) = Some t" "passed (span_checks cx path cur a t)"
    "l = span_label cx i cur a t (l_proven cur \<and> clean (span_checks cx path cur a t))"
  using assms by (auto simp: expand_span_def dest!: run_checks_passed split: option.splits prod.splits sum.splits)

section \<open>The facts of the context are the facts of the snapshot\<close>

lemma context_simps [simp]:
  "cx_snapshot (search_context lm s r opts) = s" "cx_request (search_context lm s r opts) = r"
  "cx_libm (search_context lm s r opts) = lm"
  "length (cx_port_info (search_context lm s r opts)) = length (s_ports s)"
  by (simp_all add: search_context_def Let_def)

lemma context_exclusions [simp]:
  "ContainsSorted (cx_excluded_nodes (search_context lm s r opts)) n \<longleftrightarrow> n \<in> set (excluded_nodes (rq_constraints r))"
  "ContainsSorted (cx_excluded_ports (search_context lm s r opts)) p \<longleftrightarrow> p \<in> set (excluded_ports (rq_constraints r))"
  "ContainsSorted (cx_excluded_spans (search_context lm s r opts)) i \<longleftrightarrow> i \<in> set (excluded_spans (rq_constraints r))"
  "ContainsSorted (cx_excluded_cross_connects (search_context lm s r opts)) x \<longleftrightarrow>
     x \<in> set (excluded_cross_connects (rq_constraints r))"
  "DomainsIntersect ds (cx_excluded_domains (search_context lm s r opts)) \<longleftrightarrow>
     set ds \<inter> set (excluded_failure_domains (rq_constraints r)) \<noteq> {}"
  by (auto simp: search_context_def Let_def binary_search_iff DomainsIntersect_def list_ex_iff)

lemma context_info [simp]:
  "p < length (s_ports s) \<Longrightarrow> cx_port_info (search_context lm s r opts) ! p = port_info_of s (rq_channel_width_slots r) p"
  "k < length (s_spans s) \<Longrightarrow> cx_span_info (search_context lm s r opts) ! k = span_info_of s (rq_channel_width_slots r) k"
  "x < length (s_cross_connects s) \<Longrightarrow>
     cx_cross_connect_info (search_context lm s r opts) ! x = cross_connect_info_of s (rq_channel_width_slots r) x"
  by (simp_all add: search_context_def Let_def)

lemma ClassifyAdmin_simps [simp]:
  "ClassifyAdmin e = Good \<longleftrightarrow> e = Known Up"
  "ClassifyAdmin e = Blocked \<longleftrightarrow> e = Known Down \<or> e = Known Maintenance"
  "ClassifyAdmin e = Missing \<longleftrightarrow> \<not> HasValue e"
proof -
  have "(a = Up) \<noteq> (a = Down \<or> a = Maintenance)" for a by (cases a) simp_all
  then show "ClassifyAdmin e = Good \<longleftrightarrow> e = Known Up"
    "ClassifyAdmin e = Blocked \<longleftrightarrow> e = Known Down \<or> e = Known Maintenance"
    "ClassifyAdmin e = Missing \<longleftrightarrow> \<not> HasValue e"
    by (auto simp: ClassifyAdmin_def split: Evidence.split)
qed

section \<open>Arcs out of a port of a well-formed snapshot\<close>

lemma OutgoingSpanArcs_ok:
  assumes "snapshot_wf s" "a \<in> set (OutgoingSpanArcs s p)"
  shows "span_arc_ok (s_ports s) (s_spans s) (length (s_spans s)) p a"
  using assms by (auto simp: OutgoingSpanArcs_def snapshot_wf_def lists_ok_def split: if_splits)

lemma OutgoingCrossConnects_ok:
  assumes "snapshot_wf s" "x \<in> set (OutgoingCrossConnects s p)"
  shows "cc_arc_ok (s_ports s) (s_cross_connects s) (length (s_cross_connects s)) p x"
  using assms by (auto simp: OutgoingCrossConnects_def snapshot_wf_def lists_ok_def split: if_splits)

lemma PortIndex_key:
  assumes "snapshot_wf s" "PortIndex s k = Some i"
  shows "i < length (s_ports s)" "pt_key (s_ports s ! i) = k"
  using assms PortIndex_iff by auto

abbreviation port_key :: "TopologySnapshot \<Rightarrow> nat \<Rightarrow> PortKey" where
  "port_key s i \<equiv> pt_key (s_ports s ! i)"

lemma port_key_inject:
  assumes "snapshot_wf s" "i < length (s_ports s)" "j < length (s_ports s)"
  shows "port_key s i = port_key s j \<longleftrightarrow> i = j"
  using assms PortIndex_iff [OF assms(1), of "port_key s i"] by (metis option.inject)

section \<open>One extension of a route\<close>

text \<open>The facts common to both kinds of extension, read off the snapshot.\<close>

definition arc_step :: "TopologySnapshot \<Rightarrow> Label \<Rightarrow> ArcRef \<Rightarrow> Label \<Rightarrow> bool" where
  "arc_step s cur a l \<longleftrightarrow>
     l_port_index l < length (s_ports s) \<and> label_arc l = a \<and> \<not> l_is_start l \<and> l_hops l = l_hops cur + 1 \<and>
     DeparturePort s a = Inr (port_key s (l_port_index cur)) \<and> ArrivalPort s a = Inr (port_key s (l_port_index l))"

lemma cross_connect_step:
  assumes wf: "snapshot_wf s" and cx: "cx = search_context lm s r opts"
    and x: "x \<in> set (OutgoingCrossConnects s (l_port_index cur))"
    and push: "expand_cross_connect cx i path cur x = ArcPush ns l"
  shows "arc_step s cur \<lparr>ar_kind = CrossConnectArcKind, ar_index = x, ar_reversed = False\<rparr> l"
    "x < length (s_cross_connects s)" "l_port_index cur < length (s_ports s)"
proof -
  have ok: "x < length (s_cross_connects s)" "PortIndex s (cc_from (s_cross_connects s ! x)) = Some (l_port_index cur)"
    using OutgoingCrossConnects_ok [OF wf x] by (simp_all add: cc_arc_ok_def PortIndex_def)
  obtain t where t: "ci_to_port (cx_cross_connect_info cx ! x) = Some t"
    and l: "\<exists>b. l = cross_connect_label cx i cur x t b"
    using expand_cross_connect_push [OF push] by metis
  have "PortIndex s (cc_to (s_cross_connects s ! x)) = Some t"
    using t ok cx by (simp add: cross_connect_info_of_def Let_def)
  from PortIndex_key [OF wf this] PortIndex_key [OF wf ok(2)] ok(1) l
  show "arc_step s cur \<lparr>ar_kind = CrossConnectArcKind, ar_index = x, ar_reversed = False\<rparr> l"
    "x < length (s_cross_connects s)" "l_port_index cur < length (s_ports s)"
    by (auto simp: arc_step_def label_arc_def cross_connect_label_def DeparturePort_def ArrivalPort_def Let_def)
qed

lemma span_step:
  assumes wf: "snapshot_wf s" and cx: "cx = search_context lm s r opts"
    and a: "a \<in> set (OutgoingSpanArcs s (l_port_index cur))"
    and push: "expand_span cx i path cur a = ArcPush ns l"
  shows "arc_step s cur \<lparr>ar_kind = SpanArcKind, ar_index = span_index a, ar_reversed = reversed a\<rparr> l"
    "span_index a < length (s_spans s)" "l_port_index cur < length (s_ports s)"
proof -
  have ok: "span_index a < length (s_spans s)" "PortIndex s (span_tail (s_spans s) a) = Some (l_port_index cur)"
    using OutgoingSpanArcs_ok [OF wf a] by (simp_all add: span_arc_ok_def PortIndex_def)
  obtain t where t: "PortIndex s (span_to_key cx a) = Some t" and l: "\<exists>b. l = span_label cx i cur a t b"
    using expand_span_push [OF push] cx by (metis context_simps(1))
  from PortIndex_key [OF wf t] PortIndex_key [OF wf ok(2)] ok(1) l cx
  show "arc_step s cur \<lparr>ar_kind = SpanArcKind, ar_index = span_index a, ar_reversed = reversed a\<rparr> l"
    "span_index a < length (s_spans s)" "l_port_index cur < length (s_ports s)"
    by (auto simp: arc_step_def label_arc_def span_label_def span_to_key_def span_tail_def DeparturePort_def
        ArrivalPort_def Let_def)
qed

lemma arc_step_core [simp]: "arc_step s cur a (core l) = arc_step s cur a l"
  by (simp add: arc_step_def label_arc_def)

lemma start_label_simps [simp]:
  "l_is_start (start_label cx p b)" "l_hops (start_label cx p b) = 0" "l_regenerations (start_label cx p b) = 0"
  "l_port_index (start_label cx p b) = p" "l_proven (start_label cx p b) = b"
  "l_mask (start_label cx p b) = pi_base_mask (cx_port_info cx ! p)"
  by (simp_all add: start_label_def Let_def)

lemma path_arcs_start [simp]: "l_is_start l \<Longrightarrow> path_arcs (l # path) = []"
  by (simp add: path_arcs_def)

lemma path_arcs_step: "arc_step s cur a l \<Longrightarrow> path_arcs (l # path) = path_arcs path @ [a]"
  by (simp add: path_arcs_def arc_step_def)

section \<open>Induction along a route\<close>

text \<open>
  The induction rule the properties share: a property holds along every route when it holds at the
  start and is carried over by every extension.
\<close>

lemma route_induct [consumes 2, case_names start cross_connect span_arc]:
  assumes "route cx src path" "path = l # rest"
    and "\<And>ns proven. run_checks (start_checks cx src) True = (ns, Inr proven) \<Longrightarrow> P (core (start_label cx src proven)) []"
    and "\<And>l rest x ns l'. route cx src (l # rest) \<Longrightarrow> P l rest \<Longrightarrow>
      x \<in> set (OutgoingCrossConnects (cx_snapshot cx) (l_port_index l)) \<Longrightarrow>
      expand_cross_connect cx 0 (l # rest) l x = ArcPush ns l' \<Longrightarrow> P (core l') (l # rest)"
    and "\<And>l rest a ns l'. route cx src (l # rest) \<Longrightarrow> P l rest \<Longrightarrow>
      a \<in> set (OutgoingSpanArcs (cx_snapshot cx) (l_port_index l)) \<Longrightarrow>
      expand_span cx 0 (l # rest) l a = ArcPush ns l' \<Longrightarrow> P (core l') (l # rest)"
  shows "P l rest"
proof -
  from assms(1) have "\<forall>l rest. path = l # rest \<longrightarrow> P l rest"
    by (induction rule: route.induct) (auto intro: assms(3-5))
  with assms(2) show ?thesis by blast
qed

lemma route_shape:
  assumes "snapshot_wf s" "cx = search_context lm s r opts" "route cx src (l # path)" "src < length (s_ports s)"
  shows "walk s (port_key s src) (path_arcs (l # path)) (port_key s (l_port_index l)) \<and>
    ports_visited s (port_key s src) (path_arcs (l # path)) = rev (map (\<lambda>l. port_key s (l_port_index l)) (l # path)) \<and>
    l_hops l = length (path_arcs (l # path)) \<and> (\<forall>m \<in> set (l # path). l_port_index m < length (s_ports s))"
  using assms(3) refl
proof (induction rule: route_induct)
  case (start ns proven)
  then show ?case using assms(4) by (simp add: ports_visited_def)
next
  case (cross_connect l rest x ns l')
  let ?a = "\<lparr>ar_kind = CrossConnectArcKind, ar_index = x, ar_reversed = False\<rparr>"
  have step: "arc_step s l ?a (core l')" using cross_connect_step(1) [OF assms(1,2)] cross_connect assms(2) by simp
  from path_arcs_step [OF step] step cross_connect.IH show ?case
    by (auto simp: walk_snoc ports_visited_snoc arc_step_def arrival_def)
next
  case (span_arc l rest a ns l')
  let ?a = "\<lparr>ar_kind = SpanArcKind, ar_index = span_index a, ar_reversed = reversed a\<rparr>"
  have step: "arc_step s l ?a (core l')" using span_step(1) [OF assms(1,2)] span_arc assms(2) by simp
  from path_arcs_step [OF step] step span_arc.IH show ?case
    by (auto simp: walk_snoc ports_visited_snoc arc_step_def arrival_def)
qed

section \<open>Limits and exclusions along a route\<close>

lemmas cross_connect_check_defs = cross_connect_entry_checks_def cross_connect_checks_def cross_connect_op_checks_def
  cost_checks_def cross_connect_evidence_checks_def target_checks_def Let_def

lemmas span_check_defs = span_checks_def span_entry_checks_def cost_checks_def span_impairment_checks_def
  target_checks_def span_spectrum_checks_def total_checks_def Let_def

definition regenerates :: "TopologySnapshot \<Rightarrow> ArcRef \<Rightarrow> bool" where
  "regenerates s a = (ar_kind a = CrossConnectArcKind \<and> cc_op (s_cross_connects s ! ar_index a) = Regenerate)"

text \<open>
  What a request allows of one arc: the arc and the port and node it arrives at are not excluded, the
  arc is in no excluded failure domain, its operation is admissible, and neither the arc nor the
  arrival port is known to be out of service.
\<close>

definition not_down :: "AdminState Evidence \<Rightarrow> bool" where
  "not_down e = (e \<noteq> Known Down \<and> e \<noteq> Known Maintenance)"

definition arc_permitted :: "PlanningRequest \<Rightarrow> TopologySnapshot \<Rightarrow> ArcRef \<Rightarrow> bool" where
  "arc_permitted r s a \<longleftrightarrow>
     (let c = rq_constraints r
      in pk_node (arrival s a) \<notin> set (excluded_nodes c) \<and> arrival s a \<notin> set (excluded_ports c) \<and>
         (\<exists>p. FindPort s (arrival s a) = Some p \<and> not_down (pt_admin p)) \<and>
         (case ar_kind a of
            SpanArcKind \<Rightarrow>
              (let x = s_spans s ! ar_index a
               in ar_index a < length (s_spans s) \<and> sp_id x \<notin> set (excluded_spans c) \<and> not_down (sp_admin x) \<and>
                  set (sp_failure_domains x) \<inter> set (excluded_failure_domains c) = {})
          | CrossConnectArcKind \<Rightarrow>
              (let x = s_cross_connects s ! ar_index a
               in ar_index a < length (s_cross_connects s) \<and> cc_id x \<notin> set (excluded_cross_connects c) \<and>
                  not_down (cc_admin x) \<and> IsOpAllowed c (cc_op x) \<and>
                  set (cc_failure_domains x) \<inter> set (excluded_failure_domains c) = {})))"

lemma FindPort_index:
  assumes "snapshot_wf s" "i < length (s_ports s)"
  shows "FindPort s (port_key s i) = Some (s_ports s ! i)"
  using PortIndex_iff [OF assms(1), of "port_key s i" i] assms(2) by (simp add: FindPort_def)

lemma cross_connect_permitted:
  assumes wf: "snapshot_wf s" and cx: "cx = search_context lm s r opts"
    and x: "x \<in> set (OutgoingCrossConnects s (l_port_index cur))"
    and push: "expand_cross_connect cx i path cur x = ArcPush ns l"
  defines "a \<equiv> \<lparr>ar_kind = CrossConnectArcKind, ar_index = x, ar_reversed = False\<rparr>"
  shows "arc_permitted r s a \<and> \<not> on_path path (l_port_index l) \<and> l_hops l \<le> rq_max_hops r \<and>
    l_regenerations l = l_regenerations cur + (if regenerates s a then 1 else 0) \<and>
    (regenerates s a \<longrightarrow> l_regenerations l \<le> rq_max_regenerations r)"
proof -
  note step = cross_connect_step [OF wf cx x push]
  obtain t b where t: "ci_to_port (cx_cross_connect_info cx ! x) = Some t"
    and pass: "passed (cross_connect_entry_checks cx x)" "passed (cross_connect_checks cx path cur x t)"
    and l: "l = cross_connect_label cx i cur x t b"
    using expand_cross_connect_push [OF push] by metis
  have tl: "t = l_port_index l" by (simp add: l cross_connect_label_def Let_def)
  have arr: "arrival s a = cc_to (s_cross_connects s ! x)" "arrival s a = port_key s t" "t < length (s_ports s)"
    using step tl by (auto simp: arc_step_def a_def arrival_def ArrivalPort_def)
  have op: "IsOpAllowed (rq_constraints r) (cc_op (s_cross_connects s ! x))"
    using pass(2) cx by (cases "cc_op (s_cross_connects s ! x)") (simp_all add: cross_connect_check_defs IsOpAllowed_def)
  have "arc_permitted r s a"
    using pass cx step(2) arr FindPort_index [OF wf arr(3)] op
    unfolding cross_connect_check_defs
    by (auto simp: arc_permitted_def a_def not_down_def cross_connect_info_of_def port_info_of_def Let_def)
  then show ?thesis
    using pass cx l step(2) arr(3)
    unfolding cross_connect_check_defs
    by (auto simp: a_def regenerates_def cross_connect_label_def Let_def)
qed

lemma span_permitted:
  assumes wf: "snapshot_wf s" and cx: "cx = search_context lm s r opts"
    and a': "a' \<in> set (OutgoingSpanArcs s (l_port_index cur))"
    and push: "expand_span cx i path cur a' = ArcPush ns l"
  defines "a \<equiv> \<lparr>ar_kind = SpanArcKind, ar_index = span_index a', ar_reversed = reversed a'\<rparr>"
  shows "arc_permitted r s a \<and> \<not> on_path path (l_port_index l) \<and> l_hops l \<le> rq_max_hops r \<and>
    l_regenerations l = l_regenerations cur"
proof -
  note step = span_step [OF wf cx a' push]
  obtain t b where t: "PortIndex s (span_to_key cx a') = Some t"
    and pass: "passed (span_checks cx path cur a' t)" and l: "l = span_label cx i cur a' t b"
    using expand_span_push [OF push] cx by (metis context_simps(1))
  have tl: "t = l_port_index l" by (simp add: l span_label_def Let_def)
  have arr: "arrival s a = span_to_key cx a'" "arrival s a = port_key s t" "t < length (s_ports s)"
    using step tl PortIndex_key [OF wf t] by (auto simp: arc_step_def a_def arrival_def)
  have "arc_permitted r s a"
    using pass cx step(2) arr FindPort_index [OF wf arr(3)]
    unfolding span_check_defs
    by (auto simp: arc_permitted_def a_def not_down_def span_info_of_def port_info_of_def Let_def)
  then show ?thesis
    using pass cx l step(2) arr(3)
    unfolding span_check_defs
    by (auto simp: span_label_def Let_def)
qed

lemma route_limits:
  assumes "snapshot_wf s" "cx = search_context lm s r opts" "route cx src (l # path)"
  shows "distinct (map l_port_index (l # path)) \<and> l_hops l \<le> rq_max_hops r \<and>
    l_regenerations l = length (filter (regenerates s) (path_arcs (l # path))) \<and>
    l_regenerations l \<le> rq_max_regenerations r \<and> (\<forall>a \<in> set (path_arcs (l # path)). arc_permitted r s a)"
  using assms(3) refl
proof (induction rule: route_induct)
  case (start ns proven)
  then show ?case by simp
next
  case (cross_connect l rest x ns l')
  have x: "x \<in> set (OutgoingCrossConnects s (l_port_index l))" using cross_connect assms(2) by simp
  note perm = cross_connect_permitted [OF assms(1,2) x] and step = cross_connect_step(1) [OF assms(1,2) x]
  have arcs: "path_arcs (core l' # l # rest) = path_arcs (l # rest) @
      [\<lparr>ar_kind = CrossConnectArcKind, ar_index = x, ar_reversed = False\<rparr>]"
    using step [OF cross_connect.hyps(3)] path_arcs_step by simp
  from perm [OF cross_connect.hyps(3)] cross_connect.IH show ?case
    by (auto simp: arcs on_path_def list_ex_iff)
next
  case (span_arc l rest a ns l')
  have a: "a \<in> set (OutgoingSpanArcs s (l_port_index l))" using span_arc assms(2) by simp
  note perm = span_permitted [OF assms(1,2) a] and step = span_step(1) [OF assms(1,2) a]
  have arcs: "path_arcs (core l' # l # rest) = path_arcs (l # rest) @
      [\<lparr>ar_kind = SpanArcKind, ar_index = span_index a, ar_reversed = reversed a\<rparr>]"
    using step [OF span_arc.hyps(3)] path_arcs_step by simp
  from perm [OF span_arc.hyps(3)] span_arc.IH show ?case
    by (auto simp: arcs on_path_def list_ex_iff regenerates_def)
qed

lemma route_ports_distinct:
  assumes "snapshot_wf s" "cx = search_context lm s r opts" "route cx src (l # path)" "src < length (s_ports s)"
  shows "distinct (ports_visited s (port_key s src) (path_arcs (l # path)))"
proof -
  note shape = route_shape [OF assms] and limits = route_limits [OF assms(1-3)]
  have "inj_on (port_key s) (set (map l_port_index (l # path)))"
    using shape by (auto intro!: inj_onI simp: port_key_inject [OF assms(1)])
  then have "distinct (map (port_key s) (map l_port_index (l # path)))"
    using limits distinct_map by blast
  with shape show ?thesis by (simp add: comp_def)
qed

lemma search_paths_sound:
  assumes "snapshot_wf s" "p \<in> set (so_paths (RunSearch lm s r opts cancel))"
  shows "walk s (rq_source r) (rp_arcs p) (rq_destination r) \<and> distinct (ports_visited s (rq_source r) (rp_arcs p)) \<and>
    rp_hops p = length (rp_arcs p) \<and> rp_hops p \<le> rq_max_hops r \<and>
    rp_regenerations p = length (filter (regenerates s) (rp_arcs p)) \<and> rp_regenerations p \<le> rq_max_regenerations r \<and>
    (\<forall>a \<in> set (rp_arcs p). arc_permitted r s a)"
proof -
  obtain src dst l path where idx: "PortIndex s (rq_source r) = Some src" "PortIndex s (rq_destination r) = Some dst"
    and route: "route (search_context lm s r opts) src (l # path)" and dst: "l_port_index l = dst"
    and p: "p = \<lparr>rp_arcs = path_arcs (l # path), rp_cost = l_cost l, rp_hops = l_hops l,
          rp_regenerations = l_regenerations l, rp_proven = l_proven l\<rparr>"
    using RunSearch_path_route [OF assms(2)] by metis
  note keys = PortIndex_key [OF assms(1) idx(1)] PortIndex_key [OF assms(1) idx(2)]
  note shape = route_shape [OF assms(1) refl route keys(1)] and limits = route_limits [OF assms(1) refl route]
  have "distinct (ports_visited s (rq_source r) (rp_arcs p))"
    using route_ports_distinct [OF assms(1) refl route keys(1)] by (simp add: keys p)
  with shape limits show ?thesis by (simp add: keys dst p)
qed

text \<open>
  C2: every path a search returns is a connected walk from the requested source port to the
  requested destination port that visits no port twice; its hop count is its length and within
  the hop limit; its regeneration count is the number of regenerating cross-connects on it and within
  the regeneration limit; and each of its arcs is permitted: no excluded node, port, span,
  cross-connect or failure domain, no inadmissible operation and nothing known to be out of service.
\<close>

theorem RunSearch_paths_sound:
  assumes "snapshot_wf s" "p \<in> set (so_paths (RunSearch lm s r opts cancel))"
  shows "walk s (rq_source r) (rp_arcs p) (rq_destination r) \<and> distinct (ports_visited s (rq_source r) (rp_arcs p)) \<and>
    rp_hops p = length (rp_arcs p) \<and> rp_hops p \<le> rq_max_hops r \<and>
    rp_regenerations p = length (filter (regenerates s) (rp_arcs p)) \<and> rp_regenerations p \<le> rq_max_regenerations r \<and>
    (\<forall>a \<in> set (rp_arcs p). arc_permitted r s a)"
  by (rule search_paths_sound [OF assms])

end
