(* ===== verification/Search_Quality.thy ===== *)
theory Search_Quality
  imports Search_Props
begin

text \<open>
  The quantities a search path carries: its cost is an exact sum, one channel is free along every
  transparent section, and a path marked proven rests on published evidence only.
\<close>

section \<open>Cost\<close>

definition entry_charge :: "TopologySnapshot \<Rightarrow> PortKey \<Rightarrow> PortKey \<Rightarrow> u64" where
  "entry_charge s from to =
     (if pk_node from = pk_node to then 0
      else case FindNode s (pk_node to) of None \<Rightarrow> 0 | Some n \<Rightarrow> nd_transit_cost n)"

definition arc_charge :: "TopologySnapshot \<Rightarrow> ArcRef \<Rightarrow> nat" where
  "arc_charge s a =
     unat (case ar_kind a of SpanArcKind \<Rightarrow> sp_cost (s_spans s ! ar_index a)
           | CrossConnectArcKind \<Rightarrow> cc_cost (s_cross_connects s ! ar_index a))
     + (case FindPort s (arrival s a) of Some p \<Rightarrow> unat (pt_transit_cost p) | None \<Rightarrow> 0)
     + (case DeparturePort s a of Inr from \<Rightarrow> unat (entry_charge s from (arrival s a)) | Inl _ \<Rightarrow> 0)"

definition start_charge :: "TopologySnapshot \<Rightarrow> PortKey \<Rightarrow> u64" where
  "start_charge s k =
     (case FindPort s k of Some p \<Rightarrow> pt_transit_cost p | None \<Rightarrow> 0)
     + (case FindNode s (pk_node k) of Some n \<Rightarrow> nd_transit_cost n | None \<Rightarrow> 0)"

lemma NodeIndex_iff:
  assumes "snapshot_wf s"
  shows "NodeIndex s n = Some i \<longleftrightarrow> i < length (s_nodes s) \<and> nd_id (s_nodes s ! i) = n"
  using keyed_table.index_iff [OF snapshot_wf_tables(2) [OF assms]] by (simp add: NodeIndex_def)

lemma FindNode_index: "FindNode s n = map_option ((!) (s_nodes s)) (NodeIndex s n)"
  by (simp add: FindNode_def NodeIndex_def lookup_record_def)

lemma transition_cost:
  assumes "snapshot_wf s" "cx = search_context lm s r opts" "i < length (s_ports s)" "j < length (s_ports s)"
  shows "transition_node_cost cx i j = entry_charge s (port_key s i) (port_key s j)"
proof -
  let ?a = "pk_node (port_key s i)" and ?b = "pk_node (port_key s j)"
  have info: "pi_node_index (cx_port_info cx ! i) = NodeIndex s ?a" "pi_node_index (cx_port_info cx ! j) = NodeIndex s ?b"
    using assms by (simp_all add: port_info_of_def Let_def)
  show ?thesis
  proof (cases "NodeIndex s ?b")
    case None
    then show ?thesis by (simp add: transition_node_cost_def entry_charge_def FindNode_index info)
  next
    case (Some n)
    then have "NodeIndex s ?b = NodeIndex s ?a \<longleftrightarrow> ?a = ?b"
      using NodeIndex_iff [OF assms(1)] by (metis (lifting))
    moreover have "cx_snapshot cx = s" using assms(2) by simp
    ultimately show ?thesis using Some
      by (auto simp: transition_node_cost_def entry_charge_def FindNode_index info Let_def)
  qed
qed

lemma next_cost_Some:
  "next_cost cx cur c t = Some n \<Longrightarrow>
     unat n = unat (l_cost cur) + unat c + unat (pt_transit_cost (s_ports (cx_snapshot cx) ! t))
              + unat (transition_node_cost cx (l_port_index cur) t)"
  by (auto simp: next_cost_def AddCheckedU64_Some split: option.splits)

lemma arc_charge_step:
  assumes wf: "snapshot_wf s" and cx: "cx = search_context lm s r opts" and step: "arc_step s cur a l"
    and cur: "l_port_index cur < length (s_ports s)" and t: "t = l_port_index l"
    and c: "c = (case ar_kind a of SpanArcKind \<Rightarrow> sp_cost (s_spans s ! ar_index a)
                  | CrossConnectArcKind \<Rightarrow> cc_cost (s_cross_connects s ! ar_index a))"
    and n: "next_cost cx cur c t = Some n"
  shows "unat n = unat (l_cost cur) + arc_charge s a"
proof -
  have t': "t < length (s_ports s)" and arr: "arrival s a = port_key s t"
    and dep: "DeparturePort s a = Inr (port_key s (l_port_index cur))"
    using step t by (simp_all add: arc_step_def arrival_def)
  show ?thesis
    using next_cost_Some [OF n] transition_cost [OF wf cx cur t'] FindPort_index [OF wf t'] cx c
    by (simp add: arc_charge_def arr dep)
qed

lemma above_limit_simps [simp]:
  "above_limit v None = False" "above_limit v (Some m) = (m < v)"
  by (simp_all add: above_limit_def)

lemma cross_connect_cost:
  assumes wf: "snapshot_wf s" and cx: "cx = search_context lm s r opts"
    and x: "x \<in> set (OutgoingCrossConnects s (l_port_index cur))"
    and push: "expand_cross_connect cx i path cur x = ArcPush ns l"
  defines "a \<equiv> \<lparr>ar_kind = CrossConnectArcKind, ar_index = x, ar_reversed = False\<rparr>"
  shows "unat (l_cost l) = unat (l_cost cur) + arc_charge s a \<and> \<not> above_limit (l_cost l) (rq_max_total_cost r)"
proof -
  note step = cross_connect_step [OF wf cx x push]
  obtain t b where pass: "passed (cross_connect_checks cx path cur x t)" and l: "l = cross_connect_label cx i cur x t b"
    using expand_cross_connect_push [OF push] by metis
  have cost: "ci_cost (cx_cross_connect_info cx ! x) = cc_cost (s_cross_connects s ! x)"
    using cx step(2) by (simp add: cross_connect_info_of_def Let_def)
  have req: "cx_request cx = r" using cx by simp
  obtain n where n: "next_cost cx cur (cc_cost (s_cross_connects s ! x)) t = Some n" "l_cost l = n" "l_port_index l = t"
    "\<not> above_limit n (rq_max_total_cost r)"
    using pass l req by (auto simp: cross_connect_checks_def cost_checks_def cross_connect_label_def cost Let_def)
  have "unat n = unat (l_cost cur) + arc_charge s a"
    by (rule arc_charge_step [OF wf cx step(1) [folded a_def] step(3) n(3) [symmetric] _ n(1)]) (simp add: a_def)
  with n show ?thesis by simp
qed

lemma span_cost:
  assumes wf: "snapshot_wf s" and cx: "cx = search_context lm s r opts"
    and a': "a' \<in> set (OutgoingSpanArcs s (l_port_index cur))"
    and push: "expand_span cx i path cur a' = ArcPush ns l"
  defines "a \<equiv> \<lparr>ar_kind = SpanArcKind, ar_index = span_index a', ar_reversed = reversed a'\<rparr>"
  shows "unat (l_cost l) = unat (l_cost cur) + arc_charge s a \<and> \<not> above_limit (l_cost l) (rq_max_total_cost r)"
proof -
  note step = span_step [OF wf cx a' push]
  obtain t b where pass: "passed (span_checks cx path cur a' t)" and l: "l = span_label cx i cur a' t b"
    using expand_span_push [OF push] by metis
  have cost: "si_cost (cx_span_info cx ! span_index a') = sp_cost (s_spans s ! span_index a')"
    using cx step(2) by (simp add: span_info_of_def Let_def)
  have req: "cx_request cx = r" using cx by simp
  obtain n where n: "next_cost cx cur (sp_cost (s_spans s ! span_index a')) t = Some n" "l_cost l = n" "l_port_index l = t"
    "\<not> above_limit n (rq_max_total_cost r)"
    using pass l req by (auto simp: span_checks_def cost_checks_def span_label_def cost Let_def)
  have "unat n = unat (l_cost cur) + arc_charge s a"
    by (rule arc_charge_step [OF wf cx step(1) [folded a_def] step(3) n(3) [symmetric] _ n(1)]) (simp add: a_def)
  with n show ?thesis by simp
qed

lemma start_cost:
  assumes "snapshot_wf s" "cx = search_context lm s r opts" "src < length (s_ports s)"
  shows "l_cost (start_label cx src b) = start_charge s (port_key s src)"
  using assms FindPort_index [OF assms(1,3)]
  by (simp add: start_label_def start_charge_def port_info_of_def FindNode_index Let_def split: option.split)

lemma route_cost:
  assumes "snapshot_wf s" "cx = search_context lm s r opts" "route cx src (l # path)" "src < length (s_ports s)"
  shows "unat (l_cost l) = unat (start_charge s (port_key s src)) + sum_list (map (arc_charge s) (path_arcs (l # path))) \<and>
    (path_arcs (l # path) \<noteq> [] \<longrightarrow> \<not> above_limit (l_cost l) (rq_max_total_cost r))"
  using assms(3) refl
proof (induction rule: route_induct)
  case (start ns proven)
  then show ?case using start_cost [OF assms(1,2,4)] by simp
next
  case (cross_connect l rest x ns l')
  have x: "x \<in> set (OutgoingCrossConnects s (l_port_index l))" using cross_connect assms(2) by simp
  from cross_connect_cost [OF assms(1,2) x cross_connect.hyps(3)] cross_connect.IH
    path_arcs_step [OF arc_step_core [THEN iffD2, OF cross_connect_step(1) [OF assms(1,2) x cross_connect.hyps(3)]]]
  show ?case by simp
next
  case (span_arc l rest a ns l')
  have a: "a \<in> set (OutgoingSpanArcs s (l_port_index l))" using span_arc assms(2) by simp
  from span_cost [OF assms(1,2) a span_arc.hyps(3)] span_arc.IH
    path_arcs_step [OF arc_step_core [THEN iffD2, OF span_step(1) [OF assms(1,2) a span_arc.hyps(3)]]]
  show ?case by simp
qed

lemma search_paths_cost:
  assumes "snapshot_wf s" "p \<in> set (so_paths (RunSearch lm s r opts cancel))"
  shows "unat (rp_cost p) = unat (start_charge s (rq_source r)) + sum_list (map (arc_charge s) (rp_arcs p)) \<and>
    (\<forall>m. rq_max_total_cost r = Some m \<longrightarrow> rp_arcs p \<noteq> [] \<longrightarrow> rp_cost p \<le> m)"
proof -
  obtain src l path where idx: "PortIndex s (rq_source r) = Some src"
    and route: "route (search_context lm s r opts) src (l # path)"
    and p: "rp_arcs p = path_arcs (l # path)" "rp_cost p = l_cost l"
    by (rule RunSearch_path_route [OF assms(2)]) simp
  note key = PortIndex_key [OF assms(1) idx]
  from route_cost [OF assms(1) refl route key(1)] show ?thesis by (auto simp: key p)
qed


section \<open>Spectrum\<close>

text \<open>The channel of \<open>w\<close> slots that starts at \<open>x\<close> is inside the model and not published as blocked.\<close>

definition channel_free :: "TopologySnapshot \<Rightarrow> nat \<Rightarrow> SlotMask Evidence \<Rightarrow> nat \<Rightarrow> bool" where
  "channel_free s w blocked x \<longleftrightarrow>
     (\<forall>k < w. x + k < unat (slot_count (s_spectrum s)) \<and>
        (case blocked of Known b \<Rightarrow> x + k \<notin> mask_set b | _ \<Rightarrow> True))"

definition port_free :: "TopologySnapshot \<Rightarrow> nat \<Rightarrow> PortKey \<Rightarrow> nat \<Rightarrow> bool" where
  "port_free s w k x = (case FindPort s k of Some p \<Rightarrow> channel_free s w (pt_blocked_slots p) x | None \<Rightarrow> False)"

text \<open>
  An arc entered on channel \<open>x\<close> and left on channel \<open>y\<close>: a span and an express cross-connect keep
  the channel and must have it free; conversion and regeneration may change it.
\<close>

definition arc_carries :: "TopologySnapshot \<Rightarrow> nat \<Rightarrow> ArcRef \<Rightarrow> nat \<Rightarrow> nat \<Rightarrow> bool" where
  "arc_carries s w a x y \<longleftrightarrow>
     port_free s w (arrival s a) y \<and>
     (case ar_kind a of
        SpanArcKind \<Rightarrow> x = y \<and> channel_free s w (sp_blocked_slots (s_spans s ! ar_index a)) x
      | CrossConnectArcKind \<Rightarrow>
          cc_op (s_cross_connects s ! ar_index a) = Express \<longrightarrow>
            x = y \<and> channel_free s w (cc_blocked_slots (s_cross_connects s ! ar_index a)) x)"

definition channels_ok :: "TopologySnapshot \<Rightarrow> nat \<Rightarrow> PortKey \<Rightarrow> ArcRef list \<Rightarrow> nat list \<Rightarrow> bool" where
  "channels_ok s w p arcs xs \<longleftrightarrow>
     length xs = Suc (length arcs) \<and> port_free s w p (hd xs) \<and>
     (\<forall>i < length arcs. arc_carries s w (arcs ! i) (xs ! i) (xs ! Suc i))"

lemma mask_wf_base [simp]: "mask_wf (base_mask m w e)"
  by (simp add: base_mask_def Let_def)

lemma mask_set_base:
  assumes "snapshot_wf s" "0 < w"
  shows "mask_set (base_mask (s_spectrum s) w e) = {x. channel_free s w e x}"
proof -
  have "unat (slot_count (s_spectrum s)) \<le> kMaxSpectrumSlots" using assms(1) by (simp add: snapshot_wf_def)
  then have bound: "i < unat (slot_count (s_spectrum s)) \<and> i < kMaxSpectrumSlots \<longleftrightarrow> i < unat (slot_count (s_spectrum s))" for i
    by linarith
  show ?thesis
    unfolding base_mask_def Let_def mask_set_FirstSlotMask [OF assms(2)] channel_free_def
    by (cases e) (simp_all add: mask_set_usable_slots mask_set_All bound conj_assoc [symmetric])
qed

lemma mask_wf_intersections [simp]:
  "mask_wf a \<Longrightarrow> mask_wf b \<Longrightarrow> mask_wf c \<Longrightarrow> mask_wf (Mask_Intersect (Mask_Intersect a b) c)"
  by simp

lemma channels_ok_snoc:
  assumes "channels_ok s w p arcs xs" "arc_carries s w a (last xs) y"
  shows "channels_ok s w p (arcs @ [a]) (xs @ [y])"
proof -
  have ne: "xs \<noteq> []" and len: "length xs = Suc (length arcs)" using assms(1) by (auto simp: channels_ok_def)
  have "last xs = xs ! length arcs" using ne len by (simp add: last_conv_nth)
  with assms len ne show ?thesis
    by (auto simp: channels_ok_def nth_append less_Suc_eq)
qed

text \<open>The running mask of a label: the channels on which the route can arrive.\<close>

definition mask_reachable :: "TopologySnapshot \<Rightarrow> nat \<Rightarrow> PortKey \<Rightarrow> Label \<Rightarrow> Label list \<Rightarrow> bool" where
  "mask_reachable s w p l path \<longleftrightarrow>
     mask_wf (l_mask l) \<and> mask_set (l_mask l) \<noteq> {} \<and>
     (\<forall>x \<in> mask_set (l_mask l). \<exists>xs. channels_ok s w p (path_arcs (l # path)) xs \<and> last xs = x)"

lemma mask_reachable_step:
  assumes old: "mask_reachable s w p cur rest" and arcs: "path_arcs (l # cur # rest) = path_arcs (cur # rest) @ [a]"
    and wf: "mask_wf (l_mask l)" and ne: "mask_set (l_mask l) \<noteq> {}"
    and carry: "\<And>y. y \<in> mask_set (l_mask l) \<Longrightarrow> \<exists>x \<in> mask_set (l_mask cur). arc_carries s w a x y"
  shows "mask_reachable s w p l (cur # rest)"
  unfolding mask_reachable_def arcs
proof (intro conjI ballI wf ne)
  fix y assume "y \<in> mask_set (l_mask l)"
  then obtain x where x: "x \<in> mask_set (l_mask cur)" "arc_carries s w a x y" using carry by blast
  then obtain xs where "channels_ok s w p (path_arcs (cur # rest)) xs" "last xs = x"
    using old by (auto simp: mask_reachable_def)
  with x channels_ok_snoc show "\<exists>xs. channels_ok s w p (path_arcs (cur # rest) @ [a]) xs \<and> last xs = y"
    by (metis last_snoc)
qed

lemma port_free_index:
  "snapshot_wf s \<Longrightarrow> i < length (s_ports s) \<Longrightarrow>
     port_free s w (port_key s i) x = channel_free s w (pt_blocked_slots (s_ports s ! i)) x"
  by (simp add: port_free_def FindPort_index)

lemma cross_connect_carries:
  assumes wf: "snapshot_wf s" and cx: "cx = search_context lm s r opts" and w: "w = rq_channel_width_slots r" "0 < w"
    and x: "x \<in> set (OutgoingCrossConnects s (l_port_index cur))"
    and push: "expand_cross_connect cx i path cur x = ArcPush ns l"
    and cur: "mask_wf (l_mask cur)" "mask_set (l_mask cur) \<noteq> {}"
  defines "a \<equiv> \<lparr>ar_kind = CrossConnectArcKind, ar_index = x, ar_reversed = False\<rparr>"
  shows "mask_wf (l_mask l)" "mask_set (l_mask l) \<noteq> {}"
    "y \<in> mask_set (l_mask l) \<Longrightarrow> \<exists>x \<in> mask_set (l_mask cur). arc_carries s w a x y"
proof -
  note step = cross_connect_step [OF wf cx x push]
  obtain t b where pass: "passed (cross_connect_checks cx path cur x t)" and l: "l = cross_connect_label cx i cur x t b"
    using expand_cross_connect_push [OF push] by metis
  have t: "l_port_index l = t" "t < length (s_ports s)" "arrival s a = port_key s t"
    using step l by (auto simp: arc_step_def arrival_def cross_connect_label_def Let_def a_def)
  let ?B = "base_mask (s_spectrum s) w (cc_blocked_slots (s_cross_connects s ! x))"
  let ?T = "base_mask (s_spectrum s) w (pt_blocked_slots (s_ports s ! t))"
  have m: "l_mask l = (if cc_op (s_cross_connects s ! x) = Express
      then Mask_Intersect (Mask_Intersect (l_mask cur) ?B) ?T else ?T)"
    using cx step(2) t(2) w(1)
    by (cases "cc_op (s_cross_connects s ! x)")
      (simp_all add: l cross_connect_label_def cross_connect_mask_def cross_connect_info_of_def port_info_of_def Let_def)
  show wfm: "mask_wf (l_mask l)" using cur by (simp add: m)
  have "\<not> Mask_IsEmpty (l_mask l)"
    using pass by (simp add: l cross_connect_check_defs cross_connect_label_def)
  then show "mask_set (l_mask l) \<noteq> {}" using wfm by (simp add: mask.is_empty)
  show "\<exists>x \<in> mask_set (l_mask cur). arc_carries s w a x y" if y: "y \<in> mask_set (l_mask l)"
  proof (cases "cc_op (s_cross_connects s ! x) = Express")
    case True
    then have "y \<in> mask_set (l_mask cur)" "y \<in> mask_set ?B" "y \<in> mask_set ?T"
      using y cur(1) by (simp_all add: m mask.slots_inter)
    then show ?thesis
      using mask_set_base [OF wf w(2)] True t port_free_index [OF wf t(2)]
      by (intro bexI [of _ y]) (simp_all add: arc_carries_def a_def)
  next
    case False
    then have "y \<in> mask_set ?T" using y by (simp add: m)
    moreover from cur(2) obtain z where "z \<in> mask_set (l_mask cur)" by blast
    ultimately show ?thesis
      using mask_set_base [OF wf w(2)] False t port_free_index [OF wf t(2)]
      by (intro bexI [of _ z]) (simp_all add: arc_carries_def a_def)
  qed
qed

lemma span_carries:
  assumes wf: "snapshot_wf s" and cx: "cx = search_context lm s r opts" and w: "w = rq_channel_width_slots r" "0 < w"
    and a': "a' \<in> set (OutgoingSpanArcs s (l_port_index cur))"
    and push: "expand_span cx i path cur a' = ArcPush ns l" and cur: "mask_wf (l_mask cur)"
  defines "a \<equiv> \<lparr>ar_kind = SpanArcKind, ar_index = span_index a', ar_reversed = reversed a'\<rparr>"
  shows "mask_wf (l_mask l)" "mask_set (l_mask l) \<noteq> {}"
    "y \<in> mask_set (l_mask l) \<Longrightarrow> \<exists>x \<in> mask_set (l_mask cur). arc_carries s w a x y"
proof -
  note step = span_step [OF wf cx a' push]
  obtain t b where pass: "passed (span_checks cx path cur a' t)" and l: "l = span_label cx i cur a' t b"
    using expand_span_push [OF push] by metis
  have t: "l_port_index l = t" "t < length (s_ports s)" "arrival s a = port_key s t"
    using step l by (auto simp: arc_step_def arrival_def span_label_def Let_def a_def)
  let ?B = "base_mask (s_spectrum s) w (sp_blocked_slots (s_spans s ! span_index a'))"
  let ?T = "base_mask (s_spectrum s) w (pt_blocked_slots (s_ports s ! t))"
  have m: "l_mask l = Mask_Intersect (Mask_Intersect (l_mask cur) ?B) ?T"
    using cx step(2) t(2) w(1)
    by (simp add: l span_label_def span_mask_def span_info_of_def port_info_of_def Let_def)
  show wfm: "mask_wf (l_mask l)" using cur by (simp add: m)
  have "\<not> Mask_IsEmpty (l_mask l)"
    using pass by (simp add: l span_checks_def span_spectrum_checks_def span_label_def Let_def)
  then show "mask_set (l_mask l) \<noteq> {}" using wfm by (simp add: mask.is_empty)
  show "\<exists>x \<in> mask_set (l_mask cur). arc_carries s w a x y" if y: "y \<in> mask_set (l_mask l)"
  proof -
    have "y \<in> mask_set (l_mask cur)" "y \<in> mask_set ?B" "y \<in> mask_set ?T"
      using y cur by (simp_all add: m mask.slots_inter)
    then show ?thesis
      using mask_set_base [OF wf w(2)] t port_free_index [OF wf t(2)]
      by (intro bexI [of _ y]) (simp_all add: arc_carries_def a_def)
  qed
qed

lemma route_spectrum:
  assumes wf: "snapshot_wf s" and cx: "cx = search_context lm s r opts" and "route cx src (l # path)"
    and src: "src < length (s_ports s)" and w: "w = rq_channel_width_slots r" "0 < w"
  shows "mask_reachable s w (port_key s src) l path"
  using assms(3) refl
proof (induction rule: route_induct)
  case (start ns proven)
  let ?m = "base_mask (s_spectrum s) w (pt_blocked_slots (s_ports s ! src))"
  have m: "pi_base_mask (cx_port_info cx ! src) = ?m" using cx src w by (simp add: port_info_of_def Let_def)
  have "\<not> Mask_IsEmpty ?m" using run_checks_passed [OF start] by (simp add: start_checks_def Let_def m)
  moreover have "\<exists>xs. channels_ok s w (port_key s src) [] xs \<and> last xs = x" if "x \<in> mask_set ?m" for x
    using that mask_set_base [OF wf w(2)] port_free_index [OF wf src]
    by (intro exI [of _ "[x]"]) (simp add: channels_ok_def)
  ultimately show ?case by (simp add: mask_reachable_def m mask.is_empty)
next
  case (cross_connect l rest x ns l')
  have x: "x \<in> set (OutgoingCrossConnects s (l_port_index l))" using cross_connect cx by simp
  have cur: "mask_wf (l_mask l)" "mask_set (l_mask l) \<noteq> {}" using cross_connect.IH by (simp_all add: mask_reachable_def)
  note carries = cross_connect_carries [OF wf cx w x cross_connect.hyps(3) cur]
  show ?case
    by (rule mask_reachable_step [OF cross_connect.IH path_arcs_step [OF arc_step_core
          [THEN iffD2, OF cross_connect_step(1) [OF wf cx x cross_connect.hyps(3)]]]])
      (use carries in simp_all)
next
  case (span_arc l rest a ns l')
  have a: "a \<in> set (OutgoingSpanArcs s (l_port_index l))" using span_arc cx by simp
  have cur: "mask_wf (l_mask l)" using span_arc.IH by (simp add: mask_reachable_def)
  note carries = span_carries [OF wf cx w a span_arc.hyps(3) cur]
  show ?case
    by (rule mask_reachable_step [OF span_arc.IH path_arcs_step [OF arc_step_core
          [THEN iffD2, OF span_step(1) [OF wf cx a span_arc.hyps(3)]]]])
      (use carries in simp_all)
qed

text \<open>
  C24: spectrum continuity.  Along every returned path a channel of the requested width can be chosen for
  each position such that it is inside the spectrum model, is not published as blocked at any port,
  span or express cross-connect it passes, and changes only at a wavelength conversion or a
  regeneration.
\<close>

theorem RunSearch_paths_spectrum:
  assumes "snapshot_wf s" "p \<in> set (so_paths (RunSearch lm s r opts cancel))" "0 < rq_channel_width_slots r"
  shows "\<exists>xs. channels_ok s (rq_channel_width_slots r) (rq_source r) (rp_arcs p) xs"
proof -
  obtain src l path where idx: "PortIndex s (rq_source r) = Some src"
    and route: "route (search_context lm s r opts) src (l # path)" and p: "rp_arcs p = path_arcs (l # path)"
    by (rule RunSearch_path_route [OF assms(2)]) simp
  note key = PortIndex_key [OF assms(1) idx]
  have "mask_reachable s (rq_channel_width_slots r) (port_key s src) l path"
    by (rule route_spectrum [OF assms(1) refl route key(1) refl assms(3)])
  then show ?thesis unfolding mask_reachable_def key(2) p by blast
qed

end
