(* ===== verification/Search_Evidence.thy ===== *)
theory Search_Evidence
  imports Search_Quality
begin

text \<open>
  What a proven path rests on, the bounds of the search, cancellation, and the order in which paths
  are returned.
\<close>

section \<open>Published evidence\<close>

definition port_published :: "TopologySnapshot \<Rightarrow> PortKey \<Rightarrow> bool" where
  "port_published s k \<longleftrightarrow>
     (\<exists>p n. FindPort s k = Some p \<and> pt_admin p = Known Up \<and> HasValue (pt_blocked_slots p) \<and>
        \<not> IsConflicted s (ForPort k) \<and> FindNode s (pk_node k) = Some n \<and> nd_coverage n = Complete \<and>
        \<not> IsConflicted s (ForNode (nd_id n)))"

definition transmits :: "TopologySnapshot \<Rightarrow> PortKey \<Rightarrow> bool" where
  "transmits s k \<longleftrightarrow>
     (\<exists>p i. FindPort s k = Some p \<and> pt_transmit_profile p = Known (Some i) \<and> FindReachProfile s i \<noteq> None)"

definition arc_published :: "TopologySnapshot \<Rightarrow> ArcRef \<Rightarrow> bool" where
  "arc_published s a \<longleftrightarrow>
     port_published s (arrival s a) \<and>
     (case ar_kind a of
        SpanArcKind \<Rightarrow>
          (let x = s_spans s ! ar_index a
           in sp_admin x = Known Up \<and> HasValue (sp_length_m x) \<and> HasValue (sp_loss_db x) \<and> HasValue (sp_osnr_db x) \<and>
              HasValue (sp_blocked_slots x) \<and> \<not> IsConflicted s (ForSpan (sp_id x)))
      | CrossConnectArcKind \<Rightarrow>
          (let x = s_cross_connects s ! ar_index a
           in cc_admin x = Known Up \<and> HasValue (cc_blocked_slots x) \<and>
              (cc_op x = Regenerate \<longrightarrow> transmits s (arrival s a))))"

lemma port_info_published:
  assumes "snapshot_wf s" "t < length (s_ports s)"
    and "pi_admin (port_info_of s w t) = Good" "pi_mask_known (port_info_of s w t)"
    "\<not> pi_conflicting (port_info_of s w t)" "\<not> pi_partial_coverage (port_info_of s w t)"
  shows "port_published s (port_key s t)"
  using assms FindPort_index [OF assms(1,2)]
  by (auto simp: port_published_def port_info_of_def FindNode_index Let_def split: option.splits)

lemma port_info_transmits:
  assumes "snapshot_wf s" "t < length (s_ports s)" "pi_transmit (port_info_of s w t) = Good"
  shows "transmits s (port_key s t)"
  using assms FindPort_index [OF assms(1,2)]
  by (auto simp: transmits_def port_info_of_def ProfileIndex_def FindReachProfile_def lookup_record_def Let_def
      split: option.splits Evidence.split_asm if_splits)

lemma cross_connect_published:
  assumes wf: "snapshot_wf s" and cx: "cx = search_context lm s r opts"
    and x: "x \<in> set (OutgoingCrossConnects s (l_port_index cur))"
    and push: "expand_cross_connect cx i path cur x = ArcPush ns l" and proven: "l_proven l"
  shows "l_proven cur" "arc_published s \<lparr>ar_kind = CrossConnectArcKind, ar_index = x, ar_reversed = False\<rparr>"
proof -
  note step = cross_connect_step [OF wf cx x push]
  let ?w = "rq_channel_width_slots r"
  obtain t where pass: "passed (cross_connect_checks cx path cur x t)"
    and l: "l = cross_connect_label cx i cur x t (l_proven cur \<and> clean (cross_connect_entry_checks cx x)
           \<and> clean (cross_connect_checks cx path cur x t))"
    using expand_cross_connect_push [OF push] by metis
  then show "l_proven cur" using proven by (simp add: cross_connect_label_def Let_def)
  have clean: "clean (cross_connect_evidence_checks cx cur x t)"
    using proven l by (simp add: cross_connect_label_def cross_connect_checks_def Let_def)
  have pass': "passed (cross_connect_evidence_checks cx cur x t)" using pass by (simp add: cross_connect_checks_def)
  have t: "t < length (s_ports s)" "ArrivalPort s \<lparr>ar_kind = CrossConnectArcKind, ar_index = x, ar_reversed = False\<rparr> =
      Inr (port_key s t)"
    using step l by (auto simp: arc_step_def cross_connect_label_def Let_def)
  have info: "cx_port_info cx ! t = port_info_of s ?w t" "cx_cross_connect_info cx ! x = cross_connect_info_of s ?w x"
    "s_cross_connects (cx_snapshot cx) ! x = s_cross_connects s ! x"
    using cx t step(2) by simp_all
  have tgt: "pi_admin (port_info_of s ?w t) = Good" "pi_mask_known (port_info_of s ?w t)"
    "\<not> pi_conflicting (port_info_of s ?w t)" "\<not> pi_partial_coverage (port_info_of s ?w t)"
    "ci_admin (cross_connect_info_of s ?w x) = Good" "ci_mask_known (cross_connect_info_of s ?w x)"
    "cc_op (s_cross_connects s ! x) = Regenerate \<Longrightarrow> pi_transmit (port_info_of s ?w t) = Good"
    using clean pass' Fact.exhaust [of "pi_admin (port_info_of s ?w t)"]
    by (auto simp: cross_connect_evidence_checks_def target_checks_def Let_def info)
  show "arc_published s \<lparr>ar_kind = CrossConnectArcKind, ar_index = x, ar_reversed = False\<rparr>"
    using port_info_published [OF wf t(1) tgt(1-4)] port_info_transmits [OF wf t(1) tgt(7)] tgt(5,6) t(2)
    by (auto simp: arc_published_def arrival_def cross_connect_info_of_def Let_def)
qed

lemma span_published:
  assumes wf: "snapshot_wf s" and cx: "cx = search_context lm s r opts"
    and a: "a \<in> set (OutgoingSpanArcs s (l_port_index cur))"
    and push: "expand_span cx i path cur a = ArcPush ns l" and proven: "l_proven l"
  shows "l_proven cur"
    "arc_published s \<lparr>ar_kind = SpanArcKind, ar_index = span_index a, ar_reversed = reversed a\<rparr>"
    "label_profile cx cur \<noteq> None" "HasValue (rp_min_osnr_db (the (label_profile cx cur)))"
proof -
  note step = span_step [OF wf cx a push]
  let ?w = "rq_channel_width_slots r" and ?k = "span_index a"
  obtain t where pass: "passed (span_checks cx path cur a t)"
    and l: "l = span_label cx i cur a t (l_proven cur \<and> clean (span_checks cx path cur a t))"
    using expand_span_push [OF push] by metis
  then show "l_proven cur" using proven by (simp add: span_label_def Let_def)
  have clean: "clean (span_checks cx path cur a t)" using proven l by (simp add: span_label_def Let_def)
  have t: "t < length (s_ports s)" "ArrivalPort s \<lparr>ar_kind = SpanArcKind, ar_index = ?k, ar_reversed = reversed a\<rparr> =
      Inr (port_key s t)"
    using step l by (auto simp: arc_step_def span_label_def Let_def)
  have info: "cx_port_info cx ! t = port_info_of s ?w t" "cx_span_info cx ! ?k = span_info_of s ?w ?k"
    using cx t step(2) by simp_all
  have reach: "clean (reach_checks cx cur d q e)"
    if "d = the (next_distance cx cur ?k)" "q = next_loss cx cur ?k" "e = next_osnr_inverse cx cur ?k" for d q e
    using clean that by (simp add: span_checks_def Let_def)
  from reach [OF refl refl refl] show "label_profile cx cur \<noteq> None" "HasValue (rp_min_osnr_db (the (label_profile cx cur)))"
    by (auto simp: reach_checks_def Let_def split: option.splits)
  have tgt: "pi_admin (port_info_of s ?w t) = Good" "pi_mask_known (port_info_of s ?w t)"
    "\<not> pi_conflicting (port_info_of s ?w t)" "\<not> pi_partial_coverage (port_info_of s ?w t)"
    using clean pass Fact.exhaust [of "pi_admin (port_info_of s ?w t)"]
    by (auto simp: span_checks_def target_checks_def span_spectrum_checks_def Let_def info)
  have own: "si_admin (span_info_of s ?w ?k) = Good" "si_mask_known (span_info_of s ?w ?k)"
    "HasValue (si_length_m (span_info_of s ?w ?k))" "HasValue (si_loss_db (span_info_of s ?w ?k))"
    "HasValue (si_osnr_db (span_info_of s ?w ?k))" "\<not> si_conflicting (span_info_of s ?w ?k)"
    using clean by (auto simp: span_checks_def span_impairment_checks_def span_spectrum_checks_def Let_def info)
  show "arc_published s \<lparr>ar_kind = SpanArcKind, ar_index = ?k, ar_reversed = reversed a\<rparr>"
    using port_info_published [OF wf t(1) tgt] own t(2)
    by (simp add: arc_published_def arrival_def span_info_of_def Let_def)
qed

lemma route_published:
  assumes wf: "snapshot_wf s" and cx: "cx = search_context lm s r opts" and "route cx src (l # path)"
    and src: "src < length (s_ports s)"
  shows "l_proven l \<longrightarrow> port_published s (port_key s src) \<and> transmits s (port_key s src) \<and>
    (\<forall>a \<in> set (path_arcs (l # path)). arc_published s a)"
  using assms(3) refl
proof (induction rule: route_induct)
  case (start ns proven)
  let ?i = "port_info_of s (rq_channel_width_slots r) src"
  have i: "cx_port_info cx ! src = ?i" using cx src by simp
  have "proven \<Longrightarrow> pi_admin ?i = Good \<and> pi_mask_known ?i \<and> \<not> pi_conflicting ?i \<and> \<not> pi_partial_coverage ?i \<and> pi_transmit ?i = Good"
    using run_checks_passed [OF start] Fact.exhaust [of "pi_admin ?i"] by (auto simp: start_checks_def Let_def i)
  then show ?case
    using port_info_published [OF wf src, of "rq_channel_width_slots r"]
      port_info_transmits [OF wf src, of "rq_channel_width_slots r"] by simp
next
  case (cross_connect l rest x ns l')
  have x: "x \<in> set (OutgoingCrossConnects s (l_port_index l))" using cross_connect cx by simp
  from cross_connect_published [OF wf cx x cross_connect.hyps(3)] cross_connect.IH
    path_arcs_step [OF arc_step_core [THEN iffD2, OF cross_connect_step(1) [OF wf cx x cross_connect.hyps(3)]]]
  show ?case by auto
next
  case (span_arc l rest a ns l')
  have a: "a \<in> set (OutgoingSpanArcs s (l_port_index l))" using span_arc cx by simp
  from span_published [OF wf cx a span_arc.hyps(3)] span_arc.IH
    path_arcs_step [OF arc_step_core [THEN iffD2, OF span_step(1) [OF wf cx a span_arc.hyps(3)]]]
  show ?case by auto
qed

lemma search_paths_published:
  assumes "snapshot_wf s" "p \<in> set (so_paths (RunSearch lm s r opts cancel))" "rp_proven p"
  shows "port_published s (rq_source r) \<and> transmits s (rq_source r) \<and> (\<forall>a \<in> set (rp_arcs p). arc_published s a)"
proof -
  obtain src l path where idx: "PortIndex s (rq_source r) = Some src"
    and route: "route (search_context lm s r opts) src (l # path)"
    and p: "rp_arcs p = path_arcs (l # path)" "rp_proven p = l_proven l"
    by (rule RunSearch_path_route [OF assms(2)]) simp
  note key = PortIndex_key [OF assms(1) idx]
  from route_published [OF assms(1) refl route key(1)] assms(3) show ?thesis by (simp add: key p)
qed


section \<open>Bounds\<close>

definition within_bounds :: "SearchContext \<Rightarrow> SearchState \<Rightarrow> bool" where
  "within_bounds cx s \<longleftrightarrow>
     length (st_labels s) \<le> max 1 (cx_label_limit cx) \<and>
     labels_expanded (st_statistics s) \<le> cx_expansion_limit cx \<and> labels_created (st_statistics s) = 0 \<and>
     length (st_witnesses s) \<le> kMaxWitnessEntries"

lemma record_notes_witness_bound:
  "length (st_witnesses s) \<le> kMaxWitnessEntries \<Longrightarrow> length (st_witnesses (record_notes ns s)) \<le> kMaxWitnessEntries"
  by (induction ns arbitrary: s) (simp_all add: record_notes_def record_note_def add_witness_def)

text \<open>Expanding arcs keeps the bounds and the count of expanded labels.\<close>

lemma expand_arcs_bounds:
  assumes "within_bounds cx s"
  shows "within_bounds cx (expand_arcs (cx_label_limit cx) f as s)"
  using assms
proof (induction "cx_label_limit cx" f as s rule: expand_arcs.induct)
  case (2 f a as s)
  then show ?case
    by (auto simp: Let_def within_bounds_def record_notes_witness_bound split: arc_result.split)
qed simp

lemma search_step_bounds:
  assumes "within_bounds cx s"
  shows "within_bounds cx (snd (search_step cx d s))"
proof -
  have expand: "within_bounds cx (snd (expand_label cx i s))" if "within_bounds cx s" for i s
    using that by (simp add: expand_label_def Let_def expand_arcs_bounds)
  have settle: "within_bounds cx (snd (settle_label cx d i b s))"
    if "within_bounds cx s" "labels_expanded (st_statistics s) < cx_expansion_limit cx" for i b s
    using that expand [of "mark_settled i b s" i] by (simp add: settle_label_def Let_def within_bounds_def)
  have "within_bounds cx (snd (process_entry cx d e s))"
    if "within_bounds cx s" "labels_expanded (st_statistics s) < cx_expansion_limit cx" for e s
  proof -
    obtain b ls dom where p: "prune_bucket (st_labels s ! q_label e)
        (bucket_of s (l_port_index (st_labels s ! q_label e), l_profile_index (st_labels s ! q_label e)))
        (st_labels s) = (b, ls, dom)"
      by (metis prod_cases3)
    then show ?thesis
      using that prune_bucket_length [OF p] settle [of "s\<lparr>st_labels := ls, st_buckets := _\<rparr>" "q_label e" b]
      by (simp add: process_entry_def Let_def within_bounds_def)
  qed
  with assms show ?thesis
    by (auto simp: search_step_def within_bounds_def split: option.split)
qed

lemma within_bounds_initial: "within_bounds cx (initial_state cx src ns b)"
proof -
  have "length (st_witnesses (record_notes ns s)) \<le> kMaxWitnessEntries" if "st_witnesses s = []" for s
    using that by (intro record_notes_witness_bound) simp
  then show ?thesis by (simp add: within_bounds_def initial_state_def no_statistics_def)
qed

lemma search_loop_bounds: "within_bounds cx (snd (search_loop cx d cancel 0 (initial_state cx src ns b)))"
  by (rule search_loop_invariant [where I = "within_bounds cx"]) (simp_all add: within_bounds_initial search_step_bounds)

text \<open>
  C30: the search terminates within its bounds, whatever the snapshot: it creates at most \<open>min\<close> of the
  planner's and the request's label limits (one, the start label, in any case), expands at most the
  \<open>min\<close> of the expansion limits, and reports at most the permitted number of witnesses.
\<close>

theorem RunSearch_bounded:
  "labels_created (so_statistics (RunSearch lm s r opts cancel)) \<le>
     max 1 (min (label_ceiling opts) (rq_max_search_labels r)) \<and>
   labels_expanded (so_statistics (RunSearch lm s r opts cancel)) \<le>
     min (expansion_ceiling opts) (rq_max_search_expansions r) \<and>
   length (so_witnesses (RunSearch lm s r opts cancel)) \<le> kMaxWitnessEntries"
proof -
  let ?cx = "search_context lm s r opts"
  have limits: "cx_label_limit ?cx = min (label_ceiling opts) (rq_max_search_labels r)"
    "cx_expansion_limit ?cx = min (expansion_ceiling opts) (rq_max_search_expansions r)"
    by (simp_all add: search_context_def Let_def)
  have "within_bounds ?cx st" if "search_loop ?cx d cancel 0 (initial_state ?cx src ns b) = (c, st)" for d src ns b c st
    using search_loop_bounds [of ?cx d cancel src ns b] that by simp
  then show ?thesis
    by (fastforce simp: RunSearch_def Let_def empty_outcome_def no_statistics_def finish_search_def within_bounds_def
        limits [symmetric] split: option.split prod.split sum.split bool.split)
qed

section \<open>Cancellation\<close>

lemma initial_frontier: "st_frontier (initial_state cx src ns b) \<noteq> []"
proof -
  have "length (st_frontier (initial_state cx src ns b)) \<noteq> 0" by (simp add: initial_state_def)
  then show ?thesis by simp
qed


section \<open>Order\<close>

type_synonym rank = "u64 \<times> nat \<times> nat"

definition label_rank :: "Label \<Rightarrow> rank" where
  "label_rank l = (l_cost l, l_hops l, l_regenerations l)"

definition entry_rank :: "QueueEntry \<Rightarrow> rank" where
  "entry_rank e = (q_cost e, q_hops e, q_regenerations e)"

definition path_rank :: "RawPath \<Rightarrow> rank" where
  "path_rank p = (rp_cost p, rp_hops p, rp_regenerations p)"

lemma KeyLess_rank: "KeyLess a b c d e f \<longleftrightarrow> (a, b, c) < (d, e, f)"
  by (auto simp: KeyLess_def less_prod_def less_le)

lemma queue_before_rank: "\<not> queue_before e' e \<Longrightarrow> entry_rank e \<le> entry_rank e'"
  by (auto simp: queue_before_def entry_rank_def less_eq_prod_def split: if_splits)

definition frontier_after :: "rank \<Rightarrow> SearchState \<Rightarrow> bool" where
  "frontier_after K s \<longleftrightarrow> (\<forall>e \<in> set (st_frontier s). K \<le> entry_rank e)"

definition settled_at :: "rank \<Rightarrow> SearchState \<Rightarrow> bool" where
  "settled_at K s \<longleftrightarrow>
     frontier_after K s \<and> sorted (map (\<lambda>i. label_rank (st_labels s ! i)) (st_destination_labels s)) \<and>
     (\<forall>i \<in> set (st_destination_labels s). i < length (st_labels s) \<and> label_rank (st_labels s ! i) \<le> K)"

lemma next_cost_mono: "next_cost cx cur c t = Some n \<Longrightarrow> l_cost cur \<le> n"
  using next_cost_Some [of cx cur c t n] by (simp add: word_le_nat_alt)

lemma expand_cross_connect_rank:
  assumes "expand_cross_connect cx i path cur x = ArcPush ns l"
  shows "label_rank cur \<le> label_rank l"
proof -
  obtain t b where "passed (cross_connect_checks cx path cur x t)" "l = cross_connect_label cx i cur x t b"
    using expand_cross_connect_push [OF assms] by metis
  then have "l_cost cur \<le> l_cost l" "l_hops cur < l_hops l"
    by (auto simp: cross_connect_checks_def cost_checks_def cross_connect_label_def Let_def next_cost_mono)
  then show ?thesis by (simp add: label_rank_def less_eq_prod_def)
qed

lemma expand_span_rank:
  assumes "expand_span cx i path cur a = ArcPush ns l"
  shows "label_rank cur \<le> label_rank l"
proof -
  obtain t b where "passed (span_checks cx path cur a t)" "l = span_label cx i cur a t b"
    using expand_span_push [OF assms] by metis
  then have "l_cost cur \<le> l_cost l" "l_hops cur < l_hops l"
    by (auto simp: span_checks_def cost_checks_def span_label_def Let_def next_cost_mono)
  then show ?thesis by (simp add: label_rank_def less_eq_prod_def)
qed

lemma expand_arcs_frontier:
  assumes "frontier_after K s" "\<And>labels a ns l. f labels a = ArcPush ns l \<Longrightarrow> K \<le> label_rank l"
  shows "frontier_after K (expand_arcs limit f as s) \<and> grown s (expand_arcs limit f as s) \<and>
    st_destination_labels (expand_arcs limit f as s) = st_destination_labels s"
proof (rule expand_arcs_invariant [where I = "\<lambda>s'. frontier_after K s' \<and> grown s s' \<and>
      st_destination_labels s' = st_destination_labels s"])
  fix s' a ns l
  assume "frontier_after K s' \<and> grown s s' \<and> st_destination_labels s' = st_destination_labels s"
    and "f (st_labels s') a = ArcPush ns l"
  then show "frontier_after K (push_label l s') \<and> grown s (push_label l s') \<and>
      st_destination_labels (push_label l s') = st_destination_labels s"
    using assms(2) [of "st_labels s'" a ns l]
    by (auto simp: frontier_after_def push_label_def Let_def set_frontier_push entry_rank_def label_rank_def grown_def)
qed (use assms(1) in \<open>simp_all add: frontier_after_def\<close>)

lemma expand_label_frontier:
  assumes "frontier_after (label_rank (st_labels s ! i)) s"
  shows "frontier_after (label_rank (st_labels s ! i)) (snd (expand_label cx i s)) \<and> grown s (snd (expand_label cx i s)) \<and>
    st_destination_labels (snd (expand_label cx i s)) = st_destination_labels s"
proof -
  let ?c = "st_labels s ! i"
  let ?s1 = "expand_arcs (cx_label_limit cx) (\<lambda>labels x. expand_cross_connect cx i (label_path labels i) ?c x)
    (OutgoingCrossConnects (cx_snapshot cx) (l_port_index ?c)) s"
  let ?s2 = "expand_arcs (cx_label_limit cx) (\<lambda>labels a. expand_span cx i (label_path labels i) ?c a)
    (OutgoingSpanArcs (cx_snapshot cx) (l_port_index ?c)) ?s1"
  have 1: "frontier_after (label_rank ?c) ?s1 \<and> grown s ?s1 \<and> st_destination_labels ?s1 = st_destination_labels s"
    by (rule expand_arcs_frontier [OF assms]) (rule expand_cross_connect_rank)
  have 2: "frontier_after (label_rank ?c) ?s2 \<and> grown ?s1 ?s2 \<and> st_destination_labels ?s2 = st_destination_labels ?s1"
    by (rule expand_arcs_frontier [OF conjunct1 [OF 1]]) (rule expand_span_rank)
  have "snd (expand_label cx i s) = ?s1 \<or> snd (expand_label cx i s) = ?s2" by (simp add: expand_label_def Let_def)
  with 1 2 show ?thesis by (auto simp: grown_def)
qed

text \<open>Rewriting the bookkeeping flags of labels and appending labels do not change the ranks.\<close>

lemma settled_at_flags:
  assumes "settled_at K s" "same_routes (st_labels s) (st_labels s')" "st_destination_labels s' = st_destination_labels s"
    "st_frontier s' = st_frontier s"
  shows "settled_at K s'"
proof -
  have "label_rank (st_labels s' ! i) = label_rank (st_labels s ! i)" if "i < length (st_labels s)" for i
    using same_routes_fields [OF assms(2) that] by (simp add: label_rank_def)
  moreover have "length (st_labels s') = length (st_labels s)" using assms(2) by (simp add: same_routes_def)
  ultimately show ?thesis using assms(1,3,4) by (simp add: settled_at_def frontier_after_def cong: map_cong)
qed

lemma settled_at_grown:
  assumes "settled_at K s" "grown s s'" "st_destination_labels s' = st_destination_labels s" "frontier_after K s'"
  shows "settled_at K s'"
  using assms by (auto simp: settled_at_def grown_def nth_append cong: map_cong)

lemma settled_at_frame [simp]:
  "settled_at K (note_cut r s) = settled_at K s" "settled_at K (update_stats f s) = settled_at K s"
  "settled_at K (s\<lparr>st_truncated := b\<rparr>) = settled_at K s" "settled_at K (s\<lparr>st_stopped_on_key := b\<rparr>) = settled_at K s"
  by (simp_all add: settled_at_def frontier_after_def)

lemma settle_label_settled:
  assumes s: "settled_at (label_rank (st_labels s ! i)) s" and i: "i < length (st_labels s)"
  shows "settled_at (label_rank (st_labels s ! i)) (snd (settle_label cx dst i b s))"
proof -
  let ?s1 = "mark_settled i b s" and ?K = "label_rank (st_labels s ! i)"
  have rank: "label_rank (st_labels ?s1 ! i) = ?K" using i by (simp add: label_rank_def)
  have "same_routes (st_labels s) (st_labels ?s1)" by (simp add: same_routes_update)
  then have s1: "settled_at ?K ?s1" by (rule settled_at_flags [OF s]) simp_all
  show ?thesis
  proof (cases "l_port_index (st_labels ?s1 ! i) = dst")
    case True
    have "i < length (st_labels ?s1)" using i by simp
    then have "settled_at ?K (note_destination i ?s1)"
      using s1 rank unfolding settled_at_def frontier_after_def by (auto simp: sorted_append simp del: mark_settled_frame(3))
    with True show ?thesis by (simp add: settle_label_def Let_def)
  next
    case False
    have "frontier_after (label_rank (st_labels ?s1 ! i)) ?s1" unfolding rank using s1 by (simp only: settled_at_def)
    from expand_label_frontier [OF this, of cx] have "settled_at ?K (snd (expand_label cx i ?s1))"
      unfolding rank by (intro settled_at_grown [OF s1]) blast+
    with False show ?thesis by (simp add: settle_label_def Let_def)
  qed
qed

lemma search_step_settled:
  assumes ok: "search_ok cx src dst s" and "settled_at K s"
  shows "\<exists>K'. settled_at K' (snd (search_step cx dst s))"
proof (cases "st_frontier s")
  case Nil
  with assms show ?thesis by (intro exI [of _ K]) (simp add: search_step_def)
next
  case (Cons e q)
  let ?s = "s\<lparr>st_frontier := q\<rparr>" and ?c = "st_labels s ! q_label e"
  let ?key = "(l_port_index ?c, l_profile_index ?c)" and ?K = "entry_rank e"
  have i: "q_label e < length (st_labels s)" and rank: "label_rank ?c = ?K" and sorted: "frontier_sorted (e # q)"
    using ok Cons by (auto simp: search_ok_def entry_ok_def label_rank_def entry_rank_def)
  have "?K \<le> entry_rank e'" if "e' \<in> set q" for e'
    using frontier.pop_first [OF sorted, of e q e'] that by (intro queue_before_rank) simp
  moreover have "K \<le> ?K" using assms(2) Cons by (simp add: settled_at_def frontier_after_def)
  ultimately have s: "settled_at ?K ?s"
    using assms(2) by (auto simp: settled_at_def frontier_after_def intro: order_trans)
  obtain b ls dom where p: "prune_bucket ?c (bucket_of ?s ?key) (st_labels s) = (b, ls, dom)" by (metis prod_cases3)
  let ?s1 = "?s\<lparr>st_labels := ls, st_buckets := AList.update ?key b (st_buckets s)\<rparr>"
  have same: "same_routes (st_labels s) ls" by (rule prune_bucket_same_routes [OF p])
  have s1: "settled_at ?K ?s1" by (rule settled_at_flags [OF s]) (simp_all add: same)
  have i1: "q_label e < length ls" and rank1: "label_rank (ls ! q_label e) = ?K"
    using same i same_routes_fields [OF same i] rank by (simp_all add: same_routes_def label_rank_def)
  have settle: "settled_at ?K (snd (settle_label cx dst (q_label e) b ?s1))"
    using settle_label_settled [of ?s1 "q_label e" cx dst b] s1 i1 rank1 by simp
  have "settled_at ?K (snd (process_entry cx dst e ?s))"
    using s s1 settle p by (simp add: process_entry_def Let_def)
  with assms(2) Cons have "settled_at K (snd (search_step cx dst s)) \<or> settled_at ?K (snd (search_step cx dst s))"
    by (simp add: search_step_def)
  then show ?thesis by blast
qed

lemma search_loop_settled:
  assumes "run_checks (start_checks cx src) True = (ns, Inr b)" "search_loop cx dst cancel 0 (initial_state cx src ns b) = (c, st)"
  obtains K where "settled_at K st"
proof -
  have "settled_at (0, 0, 0) (initial_state cx src ns b)"
    by (simp add: settled_at_def frontier_after_def less_eq_prod_def initial_state_def)
  then have init: "search_ok cx src dst (initial_state cx src ns b) \<and> (\<exists>K. settled_at K (initial_state cx src ns b))"
    using search_ok_initial [OF assms(1)] by blast
  have "search_ok cx src dst (snd (search_loop cx dst cancel 0 (initial_state cx src ns b))) \<and>
      (\<exists>K. settled_at K (snd (search_loop cx dst cancel 0 (initial_state cx src ns b))))"
    by (rule search_loop_invariant [where I = "\<lambda>s. search_ok cx src dst s \<and> (\<exists>K. settled_at K s)", OF init])
      (metis search_step_ok search_step_settled)
  then show thesis using that by (auto simp: assms(2))
qed

lemma search_paths_ordered: "sorted (map path_rank (so_paths (RunSearch lm s r opts cancel)))"
proof (cases "so_paths (RunSearch lm s r opts cancel) = []")
  case False
  let ?cx = "search_context lm s r opts"
  obtain src dst ns b st where start: "run_checks (start_checks ?cx src) True = (ns, Inr b)"
    and loop: "search_loop ?cx dst cancel 0 (initial_state ?cx src ns b) = (False, st)"
    and paths: "so_paths (RunSearch lm s r opts cancel) = so_paths (finish_search ?cx st)"
    using False unfolding RunSearch_def Let_def
    by (auto simp: empty_outcome_def split: option.splits prod.splits sum.splits bool.splits)
  obtain K where K: "settled_at K st" by (rule search_loop_settled [OF start loop])
  have "sorted (map (\<lambda>i. label_rank (st_labels st ! i)) (filter P (st_destination_labels st)))" for P
    by (rule sorted_filter) (use K in \<open>simp add: settled_at_def\<close>)
  moreover have "path_rank (raw_path ls i) = label_rank (ls ! i)" for ls i
    by (simp add: path_rank_def raw_path_def label_rank_def Let_def)
  ultimately show ?thesis by (simp add: paths finish_search_def Let_def comp_def)
qed simp

text \<open>
  The paths of an outcome come in non-decreasing order of cost, then hops, then regenerations: the
  best-first order of the settled destination labels.  In particular the first path is a cheapest one
  among those returned.
\<close>

lemma RunSearch_paths_ordered:
  "sorted (map path_rank (so_paths (RunSearch lm s r opts cancel)))"
  by (rule search_paths_ordered)

end
