(* ===== verification/Builder.thy ===== *)
theory Builder
  imports Topology_Props
begin

text \<open>
  The snapshot builder as a state machine: the builders a client can reach by constructing one and
  calling its operations in any order, failing calls included, and what that gives for the
  snapshot they seal.
\<close>

section \<open>Reachable builders\<close>

definition default_options :: SnapshotBuildOptions where
  "default_options = \<lparr>allow_unresolved_references = True, reject_self_loops = True\<rparr>"

definition new_builder :: "SnapshotBuildOptions \<Rightarrow> SnapshotBuilder" where
  "new_builder options =
     \<lparr>b_id = [], b_generation = 0, b_spectrum = \<lparr>grid = Fixed50GHz, slot_count = 96\<rparr>, b_options = options,
      b_sources = [], b_nodes = [], b_ports = [], b_spans = [], b_cross_connects = [], b_profiles = [],
      b_built = False\<rparr>"

definition SetId :: "SnapshotId \<Rightarrow> SnapshotBuilder \<Rightarrow> SnapshotBuilder" where
  "SetId i b = b\<lparr>b_id := i\<rparr>"

definition SetGeneration :: "Generation \<Rightarrow> SnapshotBuilder \<Rightarrow> SnapshotBuilder" where
  "SetGeneration g b = b\<lparr>b_generation := g\<rparr>"

definition SetSpectrum :: "SpectrumModel \<Rightarrow> SnapshotBuilder \<Rightarrow> SnapshotBuilder" where
  "SetSpectrum m b = b\<lparr>b_spectrum := m\<rparr>"

definition SetBuildOptions :: "SnapshotBuildOptions \<Rightarrow> SnapshotBuilder \<Rightarrow> SnapshotBuilder" where
  "SetBuildOptions options b = b\<lparr>b_options := options\<rparr>"

text \<open>One call of a client, whatever it returns.\<close>

inductive builder_step :: "SnapshotBuilder \<Rightarrow> SnapshotBuilder \<Rightarrow> bool" where
  set_id: "builder_step b (SetId i b)"
| set_generation: "builder_step b (SetGeneration g b)"
| set_spectrum: "builder_step b (SetSpectrum m b)"
| set_options: "builder_step b (SetBuildOptions options b)"
| source: "builder_step b (snd (AddSource source b))"
| node: "builder_step b (snd (AddNode node b))"
| port: "builder_step b (snd (AddPort port b))"
| span_record: "builder_step b (snd (AddSpan sp b))"
| cross_connect: "builder_step b (snd (AddCrossConnect cc b))"
| profile: "builder_step b (snd (AddReachProfile p b))"
| build: "builder_step b (snd (Build digest b))"

inductive_cases builder_step_cases: "builder_step b b'"

definition builder_reachable :: "SnapshotBuilder \<Rightarrow> bool" where
  "builder_reachable b \<longleftrightarrow> (\<exists>options. builder_step\<^sup>*\<^sup>* (new_builder options) b)"

section \<open>Names and bounds\<close>

definition port_named :: "PortKey \<Rightarrow> bool" where
  "port_named k = (pk_node k \<noteq> [] \<and> pk_port k \<noteq> [])"

definition builder_ok :: "SnapshotBuilder \<Rightarrow> bool" where
  "builder_ok b \<longleftrightarrow>
     ((\<forall>r \<in> set (b_sources b). src_id r \<noteq> []) \<and> length (b_sources b) \<le> kMaxSources) \<and>
     ((\<forall>r \<in> set (b_nodes b). nd_id r \<noteq> []) \<and> length (b_nodes b) \<le> kMaxNodes) \<and>
     ((\<forall>r \<in> set (b_ports b). port_named (pt_key r)) \<and> length (b_ports b) \<le> kMaxPorts) \<and>
     ((\<forall>r \<in> set (b_spans b). sp_id r \<noteq> []) \<and> length (b_spans b) \<le> kMaxSpans) \<and>
     ((\<forall>r \<in> set (b_cross_connects b). cc_id r \<noteq> []) \<and> length (b_cross_connects b) \<le> kMaxCrossConnects) \<and>
     ((\<forall>r \<in> set (b_profiles b). rp_id r \<noteq> []) \<and> length (b_profiles b) \<le> kMaxReachProfiles)"

definition snapshot_named :: "TopologySnapshot \<Rightarrow> bool" where
  "snapshot_named s \<longleftrightarrow>
     (\<forall>r \<in> set (s_sources s). src_id r \<noteq> []) \<and> (\<forall>r \<in> set (s_nodes s). nd_id r \<noteq> []) \<and>
     (\<forall>r \<in> set (s_ports s). port_named (pt_key r)) \<and> (\<forall>r \<in> set (s_spans s). sp_id r \<noteq> []) \<and>
     (\<forall>r \<in> set (s_cross_connects s). cc_id r \<noteq> []) \<and> (\<forall>r \<in> set (s_profiles s). rp_id r \<noteq> [])"

definition snapshot_bounded :: "TopologySnapshot \<Rightarrow> bool" where
  "snapshot_bounded s \<longleftrightarrow>
     length (s_sources s) \<le> kMaxSources \<and> length (s_nodes s) \<le> kMaxNodes \<and> length (s_ports s) \<le> kMaxPorts \<and>
     length (s_spans s) \<le> kMaxSpans \<and> length (s_cross_connects s) \<le> kMaxCrossConnects \<and>
     length (s_profiles s) \<le> kMaxReachProfiles"

lemma add_guard_failed:
  "failed (add_guard b unnamed d n bound e) \<longleftrightarrow> b_built b \<or> unnamed \<or> bound \<le> n"
  by (auto simp: add_guard_def)

lemmas add_defs = AddSource_def AddNode_def AddPort_def AddSpan_def AddCrossConnect_def AddReachProfile_def

lemma builder_ok_add:
  assumes "builder_ok b"
  shows "builder_ok (snd (AddSource source b))" "builder_ok (snd (AddNode node b))" "builder_ok (snd (AddPort port b))"
    "builder_ok (snd (AddSpan sp b))" "builder_ok (snd (AddCrossConnect cc b))" "builder_ok (snd (AddReachProfile p b))"
  using assms by (simp_all add: builder_ok_def add_defs Let_def add_guard_failed port_named_def)

lemma builder_ok_Build: "builder_ok b \<Longrightarrow> builder_ok (snd (Build digest b))"
  by (simp add: builder_ok_def Build_def Let_def split: sum.split)

lemma builder_ok_set:
  "builder_ok b \<Longrightarrow> builder_ok (SetId i b)" "builder_ok b \<Longrightarrow> builder_ok (SetGeneration g b)"
  "builder_ok b \<Longrightarrow> builder_ok (SetSpectrum m b)" "builder_ok b \<Longrightarrow> builder_ok (SetBuildOptions options b)"
  by (simp_all add: builder_ok_def SetId_def SetGeneration_def SetSpectrum_def SetBuildOptions_def)

lemma builder_ok_step:
  assumes "builder_step b b'" "builder_ok b"
  shows "builder_ok b'"
  using assms(1) by (cases rule: builder_step.cases) (simp_all add: builder_ok_add builder_ok_Build builder_ok_set assms(2))

lemma builder_ok_reachable:
  assumes "builder_reachable b"
  shows "builder_ok b"
proof -
  obtain op where steps: "builder_step\<^sup>*\<^sup>* (new_builder op) b" using assms by (auto simp: builder_reachable_def)
  moreover have "builder_ok (new_builder op)" by (simp add: builder_ok_def new_builder_def)
  ultimately show ?thesis by (induction rule: rtranclp_induct) (blast intro: builder_ok_step)+
qed

lemma length_dedup_from: "dedup_from key res p rs = (u, c) \<Longrightarrow> length u \<le> length rs"
  by (induction rs arbitrary: p u c) (auto split: prod.splits if_splits intro: le_SucI)

lemma length_SortAndDeduplicate:
  assumes "SortAndDeduplicate lt key res rs = (u, c)"
  shows "length u \<le> length rs"
proof -
  have "length u \<le> length (std_sort lt rs)"
    using assms unfolding SortAndDeduplicate_def
    by (cases "std_sort lt rs") (auto split: prod.splits dest: length_dedup_from)
  then show ?thesis by simp
qed

lemma canonical_lengths:
  "canonical_nodes ns = (ns', c) \<Longrightarrow> length ns' \<le> length ns"
  "canonical_ports ps = (ps', c) \<Longrightarrow> length ps' \<le> length ps"
  "canonical_spans ss = (ss', c) \<Longrightarrow> length ss' \<le> length ss"
  "canonical_cross_connects cs = (cs', c) \<Longrightarrow> length cs' \<le> length cs"
  "canonical_profiles rs = (rs', c) \<Longrightarrow> length rs' \<le> length rs"
  by (auto simp: canonical_nodes_def canonical_ports_def canonical_spans_def canonical_cross_connects_def
      canonical_profiles_def dest!: length_SortAndDeduplicate)

lemma sealed_named_bounded:
  assumes "builder_reachable b" "fst (Build digest b) = Inr s"
  shows "snapshot_named s \<and> snapshot_bounded s"
proof -
  have ok: "builder_ok b" by (rule builder_ok_reachable [OF assms(1)])
  from assms(2) obtain s0 where s0: "assemble b = Inr s0" "s = s0\<lparr>s_digest := digest s0\<rparr>" "\<not> failed (build_status b)"
    by (rule Build_Inr)
  from s0(1) obtain c1 c2 c3 c4 c5 where parts:
    "canonical_nodes (b_nodes b) = (s_nodes s, c1)" "canonical_ports (b_ports b) = (s_ports s, c2)"
    "canonical_spans (b_spans b) = (s_spans s, c3)"
    "canonical_cross_connects (b_cross_connects b) = (s_cross_connects s, c4)"
    "canonical_profiles (b_profiles b) = (s_profiles s, c5)"
    "s_sources s = std_sort (\<lambda>l r. src_id l < src_id r) (b_sources b)"
    using s0(2) by (auto elim: assemble_Inr)
  have "snapshot_named s"
    unfolding snapshot_named_def
    using ok parts(6) canonical_subsets(1) [OF parts(1)] canonical_subsets(2) [OF parts(2)] canonical_subsets(3) [OF parts(3)]
      canonical_subsets(4) [OF parts(4)] canonical_subsets(5) [OF parts(5)]
    by (fastforce simp: builder_ok_def)
  moreover have "snapshot_bounded s"
    unfolding snapshot_bounded_def
    using ok parts(6) canonical_lengths(1) [OF parts(1)] canonical_lengths(2) [OF parts(2)] canonical_lengths(3) [OF parts(3)]
      canonical_lengths(4) [OF parts(4)] canonical_lengths(5) [OF parts(5)]
    by (simp add: builder_ok_def)
  ultimately show ?thesis by blast
qed

text \<open>
  C37: whatever sequence of operations a builder went through, a snapshot it seals has no unnamed
  record and no table over its bound.
\<close>

theorem Build_named_and_bounded:
  assumes "builder_reachable b" "fst (Build digest b) = Inr s"
  shows "snapshot_named s \<and> snapshot_bounded s"
  using assms by (rule sealed_named_bounded)

end
