(* ===== verification/Plan_Props.thy ===== *)
theory Plan_Props
  imports Plan Search_Evidence Builder
begin

text \<open>
  The plan builder against the search: on a proven path the builder follows the labels exactly, so it
  always succeeds and reports the cost, hops and regenerations the search found.  For any arc sequence
  it accepts, the spectrum it asks for is free and the segments partition the spans.
\<close>

section \<open>What the small steps of the builder leave alone\<close>

text \<open>The part of the builder state that mirrors a label.\<close>

definition section_of :: "BuildState \<Rightarrow> SlotMask \<times> u64 \<times> double \<times> double \<times> nat \<times> nat \<times> PortKey" where
  "section_of st =
     (bs_mask st, bs_distance st, bs_loss st, bs_osnr_inverse st, bs_span_count st, bs_regenerations st, bs_port st)"

lemma section_frame [simp]:
  "section_of (push_step kd res w c st) = section_of st" "section_of (note_domains ds st) = section_of st"
  "section_of (assume_capability res f v st) = section_of st" "section_of (assume_quality res f v st) = section_of st"
  "section_of (add_cost c st) = section_of st" "section_of (ensure_segment st) = section_of st"
  "section_of (note_slot slot st) = section_of st" "section_of (enter_node s k st) = section_of st"
  "section_of (close_segment lm b res st) = section_of st" "section_of (finish_steps k st) = section_of st"
proof -
  show e: "section_of (ensure_segment st) = section_of st" for st by (simp add: section_of_def ensure_segment_def)
  show p: "section_of (push_step kd res w c st) = section_of st" for kd res w c st by (simp add: section_of_def push_step_def)
  show n: "section_of (note_domains ds st) = section_of st" for ds st by (simp add: section_of_def note_domains_def)
  show "section_of (enter_node s k st) = section_of st" by (simp add: enter_node_def p n split: option.split)
  show "section_of (close_segment lm b res st) = section_of st"
    using e [of st] by (simp add: section_of_def close_segment_def Let_def)
  show "section_of (finish_steps k st) = section_of st" by (simp add: finish_steps_def p)
qed (simp_all add: section_of_def assume_capability_def assume_quality_def add_cost_def note_slot_def)

lemma cost_frame [simp]:
  "bs_total_cost (push_step kd res w c st) = bs_total_cost st" "bs_total_cost (note_domains ds st) = bs_total_cost st"
  "bs_total_cost (assume_capability res f v st) = bs_total_cost st" "bs_total_cost (assume_quality res f v st) = bs_total_cost st"
  "bs_total_cost (add_cost c st) = bs_total_cost st + c" "bs_total_cost (ensure_segment st) = bs_total_cost st"
  "bs_total_cost (note_slot slot st) = bs_total_cost st" "bs_total_cost (enter_node s k st) = bs_total_cost st"
  "bs_total_cost (close_segment lm b res st) = bs_total_cost st" "bs_total_cost (finish_steps k st) = bs_total_cost st"
  by (simp_all add: push_step_def note_domains_def assume_capability_def assume_quality_def add_cost_def
      ensure_segment_def note_slot_def enter_node_def close_segment_def finish_steps_def Let_def split: option.split)

lemma section_fields:
  "section_of st = section_of st' \<Longrightarrow> bs_port st = bs_port st'"
  "section_of st = section_of st' \<Longrightarrow> bs_regenerations st = bs_regenerations st'"
  "section_of st = section_of st' \<Longrightarrow> bs_mask st = bs_mask st'"
  by (simp_all add: section_of_def)

lemmas port_frame [simp] = section_frame [THEN section_fields(1)]
lemmas regenerations_frame [simp] = section_frame [THEN section_fields(2)]
lemmas mask_frame [simp] = section_frame [THEN section_fields(3)]

text \<open>The assumptions a builder state records all name a resource and a field.\<close>

definition all_named :: "BuildState \<Rightarrow> bool" where
  "all_named st \<longleftrightarrow> \<not> list_ex anonymous (bs_capability st) \<and> \<not> list_ex anonymous (bs_quality st)"

lemma named_frame [simp]:
  "all_named (push_step kd res w c st) = all_named st" "all_named (note_domains ds st) = all_named st"
  "all_named (add_cost c st) = all_named st" "all_named (ensure_segment st) = all_named st"
  "all_named (note_slot slot st) = all_named st" "all_named (enter_node s k st) = all_named st"
  "all_named (close_segment lm b res st) = all_named st" "all_named (finish_steps k st) = all_named st"
  "all_named (assume_capability res f v st) \<longleftrightarrow> all_named st \<and> rk_text res \<noteq> [] \<and> f \<noteq> []"
  "all_named (assume_quality res f v st) \<longleftrightarrow> all_named st \<and> rk_text res \<noteq> [] \<and> f \<noteq> []"
  by (auto simp: all_named_def anonymous_def push_step_def note_domains_def add_cost_def ensure_segment_def note_slot_def
      enter_node_def close_segment_def finish_steps_def assume_capability_def assume_quality_def Let_def
      split: option.split)

lemma named_fields [simp]:
  "all_named (st\<lparr>bs_mask := m\<rparr>) = all_named st" "all_named (st\<lparr>bs_port := k\<rparr>) = all_named st"
  "all_named (st\<lparr>bs_reservations := rs\<rparr>) = all_named st" "all_named (st\<lparr>bs_profile := p\<rparr>) = all_named st"
  "all_named (st\<lparr>bs_segments := sg\<rparr>) = all_named st" "all_named (st\<lparr>bs_distance := d\<rparr>) = all_named st"
  "all_named (st\<lparr>bs_loss := x\<rparr>) = all_named st" "all_named (st\<lparr>bs_osnr_inverse := x\<rparr>) = all_named st"
  "all_named (st\<lparr>bs_span_count := n\<rparr>) = all_named st" "all_named (st\<lparr>bs_channel_runs := n\<rparr>) = all_named st"
  "all_named (st\<lparr>bs_last_slot := o1\<rparr>) = all_named st" "all_named (st\<lparr>bs_segment_index := n\<rparr>) = all_named st"
  "all_named (st\<lparr>bs_regenerations := n\<rparr>) = all_named st"
  by (simp_all add: all_named_def)

lemma CanonicalText_nonempty [simp]: "CanonicalText k \<noteq> []"
  by (simp add: CanonicalText_def)

section \<open>Following one label\<close>

text \<open>The builder state after the arcs of a route, next to the label at the end of the route.\<close>

definition mirrors :: "TopologySnapshot \<Rightarrow> Label \<Rightarrow> BuildState \<Rightarrow> bool" where
  "mirrors s l st \<longleftrightarrow>
     section_of st = (l_mask l, l_distance_m l, l_loss_db l, l_osnr_inverse l, l_span_count l, l_regenerations l,
                      port_key s (l_port_index l)) \<and>
     bs_total_cost st = l_cost l \<and> all_named st"

lemma mirrors_core [simp]: "mirrors s (core l) st = mirrors s l st"
  by (simp add: mirrors_def)

lemma next_cost_word:
  "next_cost cx cur c t = Some n \<Longrightarrow>
     n = l_cost cur + c + pt_transit_cost (s_ports (cx_snapshot cx) ! t) + transition_node_cost cx (l_port_index cur) t"
  by (auto simp: next_cost_def AddCheckedU64_def split: option.splits if_splits)

lemma plan_transition_cost: "plan_transition_cost s from to = entry_charge s from to"
  by (simp add: plan_transition_cost_def entry_charge_def)

lemma base_mask_info:
  assumes "cx = search_context lm s r opts"
  shows "t < length (s_ports s) \<Longrightarrow> pi_base_mask (cx_port_info cx ! t) =
      base_mask (s_spectrum s) (rq_channel_width_slots r) (pt_blocked_slots (s_ports s ! t))"
    "k < length (s_spans s) \<Longrightarrow> si_base_mask (cx_span_info cx ! k) =
      base_mask (s_spectrum s) (rq_channel_width_slots r) (sp_blocked_slots (s_spans s ! k))"
    "x < length (s_cross_connects s) \<Longrightarrow> ci_base_mask (cx_cross_connect_info cx ! x) =
      base_mask (s_spectrum s) (rq_channel_width_slots r) (cc_blocked_slots (s_cross_connects s ! x))"
  using assms by (simp_all add: port_info_of_def span_info_of_def cross_connect_info_of_def Let_def)

lemma lowest_of_nonempty:
  assumes "mask_wf m" "\<not> Mask_IsEmpty m"
  obtains slot where "LowestSetBit m = Some slot"
  using assms LowestSetBit_None [OF assms(1)] mask.is_empty by (cases "LowestSetBit m") auto

lemma use_span_mirror:
  "section_of (use_span lm dg s w sp rv p len loss osnr blocked m slot st) =
     (m, bs_distance st + len, dadd (bs_loss st) loss, dadd (bs_osnr_inverse st) (OsnrToInverse lm osnr),
      bs_span_count st + 1, bs_regenerations st, if rv then sp_from sp else sp_to sp)"
  "bs_total_cost (use_span lm dg s w sp rv p len loss osnr blocked m slot st) =
     bs_total_cost st + sp_cost sp + pt_transit_cost p + entry_charge s (bs_port st) (if rv then sp_from sp else sp_to sp)"
  "sp_id sp \<noteq> [] \<Longrightarrow> all_named (use_span lm dg s w sp rv p len loss osnr blocked m slot st) = all_named st"
proof -
  let ?st1 = "ensure_segment (note_slot slot (st\<lparr>bs_mask := m\<rparr>))"
  have st1: "section_of ?st1 = (m, bs_distance st, bs_loss st, bs_osnr_inverse st, bs_span_count st,
      bs_regenerations st, bs_port st)" by simp (simp add: section_of_def)
  then have fields: "bs_mask ?st1 = m" "bs_distance ?st1 = bs_distance st" "bs_loss ?st1 = bs_loss st"
    "bs_osnr_inverse ?st1 = bs_osnr_inverse st" "bs_span_count ?st1 = bs_span_count st"
    "bs_regenerations ?st1 = bs_regenerations st" "bs_port ?st1 = bs_port st"
    by (simp_all only: section_of_def prod.inject)
  have upd: "section_of (x\<lparr>bs_port := k\<rparr>) = (case section_of x of (a, b, c, d, e, f, _) \<Rightarrow> (a, b, c, d, e, f, k))" for x k
    by (simp add: section_of_def)
  have res: "section_of (x\<lparr>bs_reservations := rs\<rparr>) = section_of x" for x rs by (simp add: section_of_def)
  show "section_of (use_span lm dg s w sp rv p len loss osnr blocked m slot st) =
     (m, bs_distance st + len, dadd (bs_loss st) loss, dadd (bs_osnr_inverse st) (OsnrToInverse lm osnr),
      bs_span_count st + 1, bs_regenerations st, if rv then sp_from sp else sp_to sp)"
    unfolding use_span_def Let_def by (simp add: upd res) (simp add: section_of_def fields)
  show "bs_total_cost (use_span lm dg s w sp rv p len loss osnr blocked m slot st) =
     bs_total_cost st + sp_cost sp + pt_transit_cost p + entry_charge s (bs_port st) (if rv then sp_from sp else sp_to sp)"
    unfolding use_span_def Let_def by (simp add: plan_transition_cost fields)
  show "sp_id sp \<noteq> [] \<Longrightarrow> all_named (use_span lm dg s w sp rv p len loss osnr blocked m slot st) = all_named st"
    unfolding use_span_def Let_def by simp
qed

lemma HasValue_Known: "HasValue e \<longleftrightarrow> (\<exists>v. e = Known v)"
  by (cases e) simp_all

lemma build_span_follows:
  assumes wf: "snapshot_wf s" and cx: "cx = search_context lm s r opts"
    and named: "\<forall>x \<in> set (s_spans s). sp_id x \<noteq> []"
    and a: "a \<in> set (OutgoingSpanArcs s (l_port_index cur))"
    and push: "expand_span cx i path cur a = ArcPush ns l" and proven: "l_proven l"
    and st: "mirrors s cur st" and cur: "mask_wf (l_mask cur)"
  shows "\<exists>st'. build_span lm dg s (rq_channel_width_slots r)
      \<lparr>ar_kind = SpanArcKind, ar_index = span_index a, ar_reversed = reversed a\<rparr> st = Inr st' \<and> mirrors s l st'"
proof -
  let ?w = "rq_channel_width_slots r" and ?k = "span_index a"
  let ?sp = "s_spans s ! ?k"
  let ?arc = "\<lparr>ar_kind = SpanArcKind, ar_index = span_index a, ar_reversed = reversed a\<rparr>"
  note step = span_step [OF wf cx a push] and pub = span_published(2) [OF wf cx a push proven]
  obtain t b where pass: "passed (span_checks cx path cur a t)" and l: "l = span_label cx i cur a t b"
    using expand_span_push [OF push] by metis
  have t: "t = l_port_index l" "t < length (s_ports s)" "arrival s ?arc = port_key s t"
    "(if reversed a then sp_from ?sp else sp_to ?sp) = port_key s t"
    using step l by (auto simp: arc_step_def span_label_def arrival_def ArrivalPort_def Let_def)
  obtain len loss osnr blocked adm where known: "sp_length_m ?sp = Known len" "sp_loss_db ?sp = Known loss"
    "sp_osnr_db ?sp = Known osnr" "sp_blocked_slots ?sp = Known blocked" "sp_admin ?sp = Known adm"
    using pub by (auto simp: arc_published_def HasValue_Known Let_def)
  have port: "FindPort s (port_key s t) = Some (s_ports s ! t)" "HasValue (pt_blocked_slots (s_ports s ! t))"
    using pub t FindPort_index [OF wf t(2)] by (auto simp: arc_published_def port_published_def)
  let ?m = "span_mask cx cur ?k t"
  have m: "?m = Mask_Intersect (Mask_Intersect (bs_mask st) (base_mask (s_spectrum s) ?w (Known blocked)))
      (base_mask (s_spectrum s) ?w (pt_blocked_slots (s_ports s ! t)))"
    using st base_mask_info [OF cx] step(2) t(2) known by (simp add: span_mask_def mirrors_def section_of_def)
  have "mask_wf ?m" using cur st by (simp add: m mirrors_def section_of_def)
  moreover have "\<not> Mask_IsEmpty ?m" using pass by (simp add: span_checks_def span_spectrum_checks_def Let_def)
  ultimately obtain slot where slot: "LowestSetBit ?m = Some slot" by (rule lowest_of_nonempty)
  let ?st = "use_span lm dg s ?w ?sp (reversed a) (s_ports s ! t) len loss osnr blocked ?m slot st"
  have build: "build_span lm dg s ?w ?arc st = Inr ?st"
    using step(2) known port slot m by (simp add: build_span_def t(4))
  have info: "si_length_m (cx_span_info cx ! ?k) = Known len" "si_loss_db (cx_span_info cx ! ?k) = Known loss"
    "si_osnr_db (cx_span_info cx ! ?k) = Known osnr" "si_cost (cx_span_info cx ! ?k) = sp_cost ?sp"
    using cx step(2) known by (simp_all add: span_info_of_def Let_def)
  obtain n d where n: "next_cost cx cur (sp_cost ?sp) t = Some n" and d: "next_distance cx cur ?k = Some d"
    using pass by (auto simp: span_checks_def cost_checks_def span_impairment_checks_def info Let_def)
  have d': "d = l_distance_m cur + len" using d by (simp add: next_distance_def info AddCheckedU64_def split: if_splits)
  have snap: "cx_snapshot cx = s" "cx_libm cx = lm" using cx by simp_all
  have old: "bs_distance st = l_distance_m cur" "bs_loss st = l_loss_db cur" "bs_osnr_inverse st = l_osnr_inverse cur"
    "bs_span_count st = l_span_count cur" "bs_regenerations st = l_regenerations cur"
    using st by (simp_all add: mirrors_def section_of_def)
  have "l_cost l = bs_total_cost ?st"
    using next_cost_word [OF n] st transition_cost [OF wf cx step(3) t(2)] n
    by (simp add: use_span_mirror t(4) l span_label_def info snap mirrors_def section_of_def Let_def)
  moreover have "section_of ?st = (l_mask l, l_distance_m l, l_loss_db l, l_osnr_inverse l, l_span_count l,
      l_regenerations l, port_key s (l_port_index l))"
    by (simp add: use_span_mirror t(4) l span_label_def d d' next_loss_def next_osnr_inverse_def info snap old Let_def)
  moreover have "all_named ?st" using st named step(2) by (simp add: use_span_mirror mirrors_def)
  ultimately have "mirrors s l ?st" by (simp add: mirrors_def)
  with build show ?thesis by blast
qed

text \<open>The section after a cross-connect: a regeneration starts it afresh.\<close>

definition operation_mask :: "TopologySnapshot \<Rightarrow> nat \<Rightarrow> CrossConnectRecord \<Rightarrow> PortRecord \<Rightarrow> SlotMask \<Rightarrow> SlotMask" where
  "operation_mask s w cc p m =
     (if cc_op cc = Express
      then Mask_Intersect (Mask_Intersect m (base_mask (s_spectrum s) w (cc_blocked_slots cc)))
             (base_mask (s_spectrum s) w (pt_blocked_slots p))
      else base_mask (s_spectrum s) w (pt_blocked_slots p))"

definition operation_section ::
  "CrossConnectOp \<Rightarrow> SlotMask \<Rightarrow> BuildState \<Rightarrow> SlotMask \<times> u64 \<times> double \<times> double \<times> nat \<times> nat \<times> PortKey" where
  "operation_section op m st =
     (if op = Regenerate then (m, 0, Fin 0, Fin 0, 0, bs_regenerations st + 1, bs_port st)
      else (m, bs_distance st, bs_loss st, bs_osnr_inverse st, bs_span_count st, bs_regenerations st, bs_port st))"

lemma apply_operation_follows:
  assumes "mask_wf (bs_mask st)" "\<not> Mask_IsEmpty (operation_mask s w cc p (bs_mask st))"
    and "cc_op cc = Regenerate \<Longrightarrow> \<exists>profile. pt_transmit_profile p = Known (Some profile)"
  shows "\<exists>st1. apply_operation lm s w cc p st = Inr st1 \<and>
    section_of st1 = operation_section (cc_op cc) (operation_mask s w cc p (bs_mask st)) st \<and>
    bs_total_cost st1 = bs_total_cost st \<and> all_named st1 = all_named st"
proof -
  let ?m = "operation_mask s w cc p (bs_mask st)"
  have "mask_wf ?m" using assms(1) by (simp add: operation_mask_def)
  then obtain slot where slot: "LowestSetBit ?m = Some slot" by (rule lowest_of_nonempty [OF _ assms(2)])
  show ?thesis
  proof (cases "cc_op cc")
    case Express
    then have "apply_operation lm s w cc p st = Inr (note_slot slot (st\<lparr>bs_mask := ?m\<rparr>))"
      using slot by (simp add: apply_operation_def operation_mask_def)
    then show ?thesis using Express by simp (simp add: section_of_def operation_section_def)
  next
    case Convert
    then show ?thesis using slot
      by (simp add: apply_operation_def operation_mask_def) (simp add: section_of_def operation_section_def)
  next
    case Regenerate
    then obtain profile where profile: "pt_transmit_profile p = Known (Some profile)" using assms(3) by blast
    have fields: "bs_regenerations (close_segment lm True x st) = bs_regenerations st" "bs_port (close_segment lm True x st) = bs_port st"
      for x using section_frame(9) [of lm True x st] by (simp_all add: section_of_def)
    show ?thesis using Regenerate profile fields
      by (simp add: apply_operation_def operation_mask_def Let_def)
        (simp add: section_of_def operation_section_def assume_capability_def)
  qed
qed

lemma use_cross_connect_mirror:
  "section_of (use_cross_connect s cc p blocked st) =
     (case section_of st of (m, d, q, e, n, g, _) \<Rightarrow> (m, d, q, e, n, g, cc_to cc))"
  "bs_total_cost (use_cross_connect s cc p blocked st) =
     bs_total_cost st + cc_cost cc + pt_transit_cost p + entry_charge s (bs_port st) (cc_to cc)"
  "cc_id cc \<noteq> [] \<Longrightarrow> all_named (use_cross_connect s cc p blocked st) = all_named st"
proof -
  have upd: "section_of (x\<lparr>bs_port := k\<rparr>) = (case section_of x of (m, d, q, e, n, g, _) \<Rightarrow> (m, d, q, e, n, g, k))" for x k
    by (simp add: section_of_def)
  show "section_of (use_cross_connect s cc p blocked st) =
     (case section_of st of (m, d, q, e, n, g, _) \<Rightarrow> (m, d, q, e, n, g, cc_to cc))"
    unfolding use_cross_connect_def Let_def by (simp add: upd)
  show "bs_total_cost (use_cross_connect s cc p blocked st) =
     bs_total_cost st + cc_cost cc + pt_transit_cost p + entry_charge s (bs_port st) (cc_to cc)"
    unfolding use_cross_connect_def Let_def by (simp add: plan_transition_cost add_ac)
  show "cc_id cc \<noteq> [] \<Longrightarrow> all_named (use_cross_connect s cc p blocked st) = all_named st"
    unfolding use_cross_connect_def Let_def by (cases "cc_op cc") simp_all
qed

lemma build_cross_connect_follows:
  assumes wf: "snapshot_wf s" and cx: "cx = search_context lm s r opts"
    and named: "\<forall>x \<in> set (s_cross_connects s). cc_id x \<noteq> []"
    and x: "x \<in> set (OutgoingCrossConnects s (l_port_index cur))"
    and push: "expand_cross_connect cx i path cur x = ArcPush ns l" and proven: "l_proven l"
    and st: "mirrors s cur st" and cur: "mask_wf (l_mask cur)"
  shows "\<exists>st'. build_cross_connect lm s (rq_channel_width_slots r)
      \<lparr>ar_kind = CrossConnectArcKind, ar_index = x, ar_reversed = False\<rparr> st = Inr st' \<and> mirrors s l st'"
proof -
  let ?w = "rq_channel_width_slots r" and ?cc = "s_cross_connects s ! x"
  let ?arc = "\<lparr>ar_kind = CrossConnectArcKind, ar_index = x, ar_reversed = False\<rparr>"
  note step = cross_connect_step [OF wf cx x push] and pub = cross_connect_published(2) [OF wf cx x push proven]
  obtain t b where pass: "passed (cross_connect_checks cx path cur x t)" and l: "l = cross_connect_label cx i cur x t b"
    using expand_cross_connect_push [OF push] by metis
  have t: "t < length (s_ports s)" "arrival s ?arc = port_key s t" "cc_to ?cc = port_key s t"
    using step l by (auto simp: arc_step_def cross_connect_label_def arrival_def ArrivalPort_def Let_def)
  let ?p = "s_ports s ! t"
  have known: "HasValue (cc_admin ?cc)" "HasValue (cc_blocked_slots ?cc)"
    using pub by (auto simp: arc_published_def Let_def)
  obtain blocked where port: "FindPort s (port_key s t) = Some ?p" "pt_blocked_slots ?p = Known blocked"
    using pub t FindPort_index [OF wf t(1)] by (auto simp: arc_published_def port_published_def HasValue_Known)
  have prof: "\<exists>profile. pt_transmit_profile ?p = Known (Some profile)" if "cc_op ?cc = Regenerate"
    using pub t that port by (auto simp: arc_published_def transmits_def Let_def)
  have old: "bs_mask st = l_mask cur" "bs_distance st = l_distance_m cur" "bs_loss st = l_loss_db cur"
    "bs_osnr_inverse st = l_osnr_inverse cur" "bs_span_count st = l_span_count cur"
    "bs_regenerations st = l_regenerations cur" "bs_port st = port_key s (l_port_index cur)"
    "bs_total_cost st = l_cost cur" "all_named st"
    using st by (simp_all add: mirrors_def section_of_def)
  have snap: "cx_snapshot cx = s" "ci_op (cx_cross_connect_info cx ! x) = cc_op ?cc"
    "ci_cost (cx_cross_connect_info cx ! x) = cc_cost ?cc"
    using cx step(2) by (simp_all add: cross_connect_info_of_def Let_def)
  have m: "cross_connect_mask cx cur x t = operation_mask s ?w ?cc ?p (bs_mask st)"
    using base_mask_info [OF cx] t(1) step(2)
    by (cases "cc_op ?cc") (simp_all add: cross_connect_mask_def operation_mask_def snap old)
  have ne: "\<not> Mask_IsEmpty (operation_mask s ?w ?cc ?p (bs_mask st))"
    using pass by (simp add: cross_connect_checks_def cross_connect_evidence_checks_def m Let_def)
  have mwf: "mask_wf (bs_mask st)" using cur old by simp
  obtain st1 where st1: "apply_operation lm s ?w ?cc ?p st = Inr st1"
    "section_of st1 = operation_section (cc_op ?cc) (operation_mask s ?w ?cc ?p (bs_mask st)) st"
    "bs_total_cost st1 = bs_total_cost st" "all_named st1 = all_named st"
    using apply_operation_follows [OF mwf ne prof] by blast
  let ?st = "use_cross_connect s ?cc ?p blocked st1"
  have build: "build_cross_connect lm s ?w ?arc st = Inr ?st"
    using step(2) known port st1(1) by (simp add: build_cross_connect_def t(3))
  obtain n where n: "next_cost cx cur (cc_cost ?cc) t = Some n"
    using pass by (auto simp: cross_connect_checks_def cost_checks_def snap)
  have port1: "bs_port st1 = bs_port st" using st1(2) by (auto simp: section_of_def operation_section_def split: if_splits)
  have "l_cost l = bs_total_cost ?st"
    using next_cost_word [OF n] transition_cost [OF wf cx step(3) t(1)] n
    by (simp add: use_cross_connect_mirror t(3) l cross_connect_label_def snap old st1 port1 Let_def)
  moreover have "section_of ?st = (l_mask l, l_distance_m l, l_loss_db l, l_osnr_inverse l, l_span_count l,
      l_regenerations l, port_key s (l_port_index l))"
    by (simp add: use_cross_connect_mirror st1(2) operation_section_def t(3) l cross_connect_label_def m snap Let_def)
      (simp add: old)
  moreover have "all_named ?st" using named step(2) by (simp add: use_cross_connect_mirror st1 old)
  ultimately have "mirrors s l ?st" by (simp add: mirrors_def)
  with build show ?thesis by blast
qed

section \<open>Following a route\<close>

lemma build_arcs_snoc:
  "build_arcs lm dg s w (as @ [a]) st =
     (case build_arcs lm dg s w as st of
        Inl e \<Rightarrow> Inl e
      | Inr st' \<Rightarrow> (case ar_kind a of SpanArcKind \<Rightarrow> build_span lm dg s w a st'
                    | CrossConnectArcKind \<Rightarrow> build_cross_connect lm s w a st'))"
  by (induction lm dg s w as st rule: build_arcs.induct) (auto split: sum.split ArcKind.split)

lemma initial_build_mirrors:
  assumes wf: "snapshot_wf s" and cx: "cx = search_context lm s r opts" and src: "src < length (s_ports s)"
  shows "mirrors s (core (start_label cx src b))
    (initial_build s (rq_channel_width_slots r) (port_key s src) (s_ports s ! src) profile blocked)"
proof -
  have cost: "l_cost (start_label cx src b) = start_charge s (port_key s src)" by (rule start_cost [OF wf cx src])
  have fields: "l_distance_m (start_label cx src b) = 0" "l_loss_db (start_label cx src b) = Fin 0"
    "l_osnr_inverse (start_label cx src b) = Fin 0" "l_span_count (start_label cx src b) = 0"
    by (simp_all add: start_label_def Let_def)
  show ?thesis
    using FindPort_index [OF wf src]
    by (cases "FindNode s (pk_node (port_key s src))")
      (simp_all add: mirrors_def initial_build_def cost fields base_mask_info [OF cx] src start_charge_def Let_def,
       simp_all add: section_of_def all_named_def)
qed

lemma route_build:
  assumes wf: "snapshot_wf s" and cx: "cx = search_context lm s r opts"
    and named: "\<forall>x \<in> set (s_spans s). sp_id x \<noteq> []" "\<forall>x \<in> set (s_cross_connects s). cc_id x \<noteq> []"
    and "route cx src (l # path)" and src: "src < length (s_ports s)" and w: "0 < rq_channel_width_slots r"
  shows "l_proven l \<longrightarrow> (\<exists>st. build_arcs lm dg s (rq_channel_width_slots r) (path_arcs (l # path))
      (initial_build s (rq_channel_width_slots r) (port_key s src) (s_ports s ! src) profile blocked) = Inr st \<and> mirrors s l st)"
  using assms(5) refl
proof (induction rule: route_induct)
  case (start ns proven)
  then show ?case using initial_build_mirrors [OF wf cx src] by simp
next
  case (cross_connect l rest x ns l')
  have x: "x \<in> set (OutgoingCrossConnects s (l_port_index l))" using cross_connect cx by simp
  have m: "mask_wf (l_mask l)" using route_spectrum [OF wf cx cross_connect.hyps(1) src refl w] by (simp add: mask_reachable_def)
  from cross_connect_published(1) [OF wf cx x cross_connect.hyps(3)] cross_connect.IH
    build_cross_connect_follows [OF wf cx named(2) x cross_connect.hyps(3) _ _ m]
    path_arcs_step [OF arc_step_core [THEN iffD2, OF cross_connect_step(1) [OF wf cx x cross_connect.hyps(3)]]]
  show ?case by (auto simp: build_arcs_snoc)
next
  case (span_arc l rest a ns l')
  have a: "a \<in> set (OutgoingSpanArcs s (l_port_index l))" using span_arc cx by simp
  have m: "mask_wf (l_mask l)" using route_spectrum [OF wf cx span_arc.hyps(1) src refl w] by (simp add: mask_reachable_def)
  from span_published(1) [OF wf cx a span_arc.hyps(3)] span_arc.IH
    build_span_follows [OF wf cx named(1) a span_arc.hyps(3) _ _ m]
    path_arcs_step [OF arc_step_core [THEN iffD2, OF span_step(1) [OF wf cx a span_arc.hyps(3)]]]
  show ?case by (auto simp: build_arcs_snoc)
qed

lemma VerifySeal_Seal: "VerifySeal dg (Seal dg plan) = OkStatus"
  by (simp add: VerifySeal_def Seal_def ComputePlanDigest_def refuse_if_def)

lemma Seal_fields [simp]:
  "pl_total_cost (Seal dg plan) = pl_total_cost plan" "pl_hops (Seal dg plan) = pl_hops plan"
  "pl_regenerations (Seal dg plan) = pl_regenerations plan" "pl_segments (Seal dg plan) = pl_segments plan"
  "pl_reservations (Seal dg plan) = pl_reservations plan" "pl_steps (Seal dg plan) = pl_steps plan"
  "pl_total_distance_m (Seal dg plan) = pl_total_distance_m plan"
  by (simp_all add: Seal_def)

lemma proven_path_plan:
  assumes "snapshot_wf s" "snapshot_named s" "0 < rq_channel_width_slots r"
    "p \<in> set (so_paths (RunSearch lm s r opts cancel))" "rp_proven p"
    "rq_source r' = rq_source r" "rq_destination r' = rq_destination r" "rq_channel_width_slots r' = rq_channel_width_slots r"
  shows "\<exists>plan. BuildPlan lm dg s r' rd (rp_arcs p) = Inr plan \<and> pl_total_cost plan = rp_cost p \<and>
    pl_hops plan = rp_hops p \<and> pl_regenerations plan = rp_regenerations p \<and> VerifySeal dg plan = OkStatus"
proof -
  obtain src dst l path where idx: "PortIndex s (rq_source r) = Some src" "PortIndex s (rq_destination r) = Some dst"
    and route: "route (search_context lm s r opts) src (l # path)" and dst: "l_port_index l = dst"
    and p: "p = \<lparr>rp_arcs = path_arcs (l # path), rp_cost = l_cost l, rp_hops = l_hops l,
          rp_regenerations = l_regenerations l, rp_proven = l_proven l\<rparr>"
    using RunSearch_path_route [OF assms(4)] by metis
  note keys = PortIndex_key [OF assms(1) idx(1)] PortIndex_key [OF assms(1) idx(2)]
  have pub: "port_published s (rq_source r)" "transmits s (rq_source r)"
    using route_published [OF assms(1) refl route keys(1)] assms(5) by (simp_all add: p keys)
  have port: "FindPort s (rq_source r) = Some (s_ports s ! src)" "FindPort s (rq_destination r) \<noteq> None"
    using FindPort_index [OF assms(1) keys(1)] FindPort_index [OF assms(1) keys(3)] by (simp_all add: keys)
  obtain profile blocked where known: "pt_transmit_profile (s_ports s ! src) = Known (Some profile)"
    "pt_blocked_slots (s_ports s ! src) = Known blocked"
    using pub port by (auto simp: port_published_def transmits_def HasValue_Known)
  let ?w = "rq_channel_width_slots r"
  obtain st where st: "build_arcs lm dg s ?w (rp_arcs p)
      (initial_build s ?w (rq_source r) (s_ports s ! src) profile blocked) = Inr st" "mirrors s l st"
    using route_build [OF assms(1) refl _ _ route keys(1) assms(3), of dg profile blocked] assms(2,5)
    by (auto simp: snapshot_named_def p keys)
  have at_end: "bs_port st = rq_destination r" using st(2) dst keys(4) by (simp add: mirrors_def section_of_def)
  let ?st = "finish_steps (rq_destination r) (close_segment lm False (ResourceKey RNode []) st)"
  have ends: "all_named ?st" "bs_total_cost ?st = l_cost l" "bs_regenerations ?st = l_regenerations l"
    using st(2) by (simp_all add: mirrors_def section_of_def)
  have "BuildPlan lm dg s r' rd (rp_arcs p) = Inr (Seal dg (plan_of_state dg s r' rd (length (rp_arcs p)) ?st))"
    using port known st(1) at_end ends(1) by (auto simp: BuildPlan_def all_named_def assms(6-8))
  moreover have "length (rp_arcs p) = rp_hops p" using route_shape [OF assms(1) refl route keys(1)] by (simp add: p)
  ultimately show ?thesis
    using ends by (simp add: VerifySeal_Seal) (simp add: plan_of_state_def p)
qed

text \<open>
  C22: a proven path always becomes a plan.  For a snapshot without unnamed spans and cross-connects
  the plan builder succeeds on every proven path of the search, and the sealed plan reports exactly the
  cost, the hop count and the regeneration count the search found; its seal verifies.
\<close>

theorem BuildPlan_of_proven_path:
  assumes "snapshot_wf s" "snapshot_named s" "0 < rq_channel_width_slots r"
    "p \<in> set (so_paths (RunSearch lm s r opts cancel))" "rp_proven p"
  shows "\<exists>plan. BuildPlan lm dg s r rd (rp_arcs p) = Inr plan \<and> pl_total_cost plan = rp_cost p \<and>
    pl_hops plan = rp_hops p \<and> pl_regenerations plan = rp_regenerations p \<and> VerifySeal dg plan = OkStatus"
  by (rule proven_path_plan [OF assms refl refl refl])

end
