(* ===== verification/Plan_Segments.thy ===== *)
theory Plan_Segments
  imports Plan_Props
begin

text \<open>
  The content of a plan, for any arc sequence the builder accepts: the spectrum it asks for on each
  span, and the segments with their accumulated impairment.
\<close>

section \<open>Frames\<close>

lemma reservations_frame [simp]:
  "bs_reservations (push_step kd res w c st) = bs_reservations st" "bs_reservations (note_domains ds st) = bs_reservations st"
  "bs_reservations (assume_capability res f v st) = bs_reservations st"
  "bs_reservations (assume_quality res f v st) = bs_reservations st"
  "bs_reservations (add_cost c st) = bs_reservations st" "bs_reservations (ensure_segment st) = bs_reservations st"
  "bs_reservations (note_slot slot st) = bs_reservations st" "bs_reservations (enter_node s k st) = bs_reservations st"
  "bs_reservations (close_segment lm b res st) = bs_reservations st" "bs_reservations (finish_steps k st) = bs_reservations st"
  by (simp_all add: push_step_def note_domains_def assume_capability_def assume_quality_def add_cost_def
      ensure_segment_def note_slot_def enter_node_def close_segment_def finish_steps_def Let_def split: option.split)

text \<open>The segments a builder state has, the index of the current one and the totals of its section.\<close>

definition segments_of ::
  "BuildState \<Rightarrow> PlanSegment list \<times> nat \<times> nat \<times> u64 \<times> double \<times> double \<times> nat" where
  "segments_of st =
     (bs_segments st, bs_segment_index st, bs_regenerations st, bs_distance st, bs_loss st, bs_osnr_inverse st, bs_span_count st)"

lemma segments_frame [simp]:
  "segments_of (push_step kd res w c st) = segments_of st" "segments_of (note_domains ds st) = segments_of st"
  "segments_of (assume_capability res f v st) = segments_of st" "segments_of (assume_quality res f v st) = segments_of st"
  "segments_of (add_cost c st) = segments_of st" "segments_of (note_slot slot st) = segments_of st"
  "segments_of (enter_node s k st) = segments_of st" "segments_of (finish_steps k st) = segments_of st"
  by (simp_all add: segments_of_def push_step_def note_domains_def assume_capability_def assume_quality_def add_cost_def
      note_slot_def enter_node_def finish_steps_def split: option.split)

lemma segments_fields [simp]:
  "segments_of (st\<lparr>bs_mask := m\<rparr>) = segments_of st" "segments_of (st\<lparr>bs_port := k\<rparr>) = segments_of st"
  "segments_of (st\<lparr>bs_reservations := rs\<rparr>) = segments_of st" "segments_of (st\<lparr>bs_channel_runs := n\<rparr>) = segments_of st"
  "segments_of (st\<lparr>bs_last_slot := o1\<rparr>) = segments_of st" "segments_of (st\<lparr>bs_profile := p\<rparr>) = segments_of st"
  by (simp_all add: segments_of_def)

section \<open>Spectrum\<close>

text \<open>What a plan asks for on the span of one arc.\<close>

definition reserved :: "TopologySnapshot \<Rightarrow> nat \<Rightarrow> ArcRef \<Rightarrow> PlanReservation \<Rightarrow> bool" where
  "reserved s w a rv \<longleftrightarrow>
     rv_resource rv = ForSpan (sp_id (s_spans s ! ar_index a)) \<and> width_slots (rv_channel rv) = w \<and>
     channel_free s w (sp_blocked_slots (s_spans s ! ar_index a)) (first_slot (rv_channel rv)) \<and>
     port_free s w (arrival s a) (first_slot (rv_channel rv))"

abbreviation span_arcs :: "ArcRef list \<Rightarrow> ArcRef list" where
  "span_arcs as \<equiv> filter (\<lambda>a. ar_kind a = SpanArcKind) as"

lemma build_span_Inr:
  assumes "build_span lm dg s w a st = Inr st'"
  obtains len loss osnr blocked adm p slot m where "ar_index a < length (s_spans s)"
    "sp_length_m (s_spans s ! ar_index a) = Known len" "sp_loss_db (s_spans s ! ar_index a) = Known loss"
    "sp_osnr_db (s_spans s ! ar_index a) = Known osnr" "sp_blocked_slots (s_spans s ! ar_index a) = Known blocked"
    "sp_admin (s_spans s ! ar_index a) = Known adm"
    "FindPort s (if ar_reversed a then sp_from (s_spans s ! ar_index a) else sp_to (s_spans s ! ar_index a)) = Some p"
    "m = Mask_Intersect (Mask_Intersect (bs_mask st) (base_mask (s_spectrum s) w (Known blocked)))
           (base_mask (s_spectrum s) w (pt_blocked_slots p))"
    "LowestSetBit m = Some slot"
    "st' = use_span lm dg s w (s_spans s ! ar_index a) (ar_reversed a) p len loss osnr blocked m slot st"
  using assms unfolding build_span_def build_failure_def Let_def
  by (auto split: if_splits Evidence.split_asm option.split_asm simp del: mask_simps)

lemma use_span_reservation:
  "bs_reservations (use_span lm dg s w sp rv p len loss osnr blocked m slot st) = bs_reservations st @
     [\<lparr>rv_resource = ForSpan (sp_id sp), rv_channel = \<lparr>first_slot = slot, width_slots = w\<rparr>,
       rv_segment_index = bs_segment_index st\<rparr>]"
proof -
  have idx: "bs_segment_index (enter_node s k x) = bs_segment_index x" "bs_segment_index (note_domains ds x) = bs_segment_index x"
    "bs_segment_index (push_step kd res rb c x) = bs_segment_index x" "bs_segment_index (add_cost c x) = bs_segment_index x"
    "bs_segment_index (note_slot sl x) = bs_segment_index x" for k x ds kd res rb c sl
    using segments_frame [where st = x] by (simp_all only: segments_of_def prod.inject)
  have seg: "bs_segment_index (ensure_segment x) = bs_segment_index x" for x by (simp add: ensure_segment_def)
  show ?thesis unfolding use_span_def Let_def by (simp add: idx seg)
qed

lemma build_cross_connect_Inr:
  assumes "build_cross_connect lm s w a st = Inr st'"
  obtains p blocked st1 where "ar_index a < length (s_cross_connects s)"
    "apply_operation lm s w (s_cross_connects s ! ar_index a) p st = Inr st1"
    "st' = use_cross_connect s (s_cross_connects s ! ar_index a) p blocked st1"
  using assms unfolding build_cross_connect_def build_failure_def Let_def
  by (auto split: if_splits Evidence.split_asm option.split_asm sum.split_asm)

lemma apply_operation_reservations:
  "apply_operation lm s w cc p st = Inr st1 \<Longrightarrow> bs_reservations st1 = bs_reservations st"
  "apply_operation lm s w cc p st = Inr st1 \<Longrightarrow> mask_wf (bs_mask st) \<Longrightarrow> mask_wf (bs_mask st1)"
  unfolding apply_operation_def build_failure_def Let_def
  by (auto simp: assume_capability_def note_slot_def split: CrossConnectOp.split_asm option.split_asm Evidence.split_asm)

lemma use_cross_connect_frame:
  "bs_reservations (use_cross_connect s cc p blocked st) = bs_reservations st"
  "bs_mask (use_cross_connect s cc p blocked st) = bs_mask st"
  "segments_of (use_cross_connect s cc p blocked st) = segments_of st"
  by (simp_all add: use_cross_connect_def Let_def)

lemma build_arcs_reservations:
  assumes wf: "snapshot_wf s" and w: "0 < w"
    and "build_arcs lm dg s w arcs st0 = Inr st" "mask_wf (bs_mask st0)" "bs_reservations st0 = []"
  shows "list_all2 (reserved s w) (span_arcs arcs) (bs_reservations st) \<and> mask_wf (bs_mask st)"
  using assms(3)
proof (induction arcs arbitrary: st rule: rev_induct)
  case Nil
  then show ?case using assms(4,5) by simp
next
  case (snoc a arcs)
  then obtain st1 where st1: "build_arcs lm dg s w arcs st0 = Inr st1" by (auto simp: build_arcs_snoc split: sum.splits)
  note IH = snoc.IH [OF st1]
  show ?case
  proof (cases "ar_kind a")
    case SpanArcKind
    then have "build_span lm dg s w a st1 = Inr st" using snoc.prems st1 by (simp add: build_arcs_snoc)
    then obtain len loss osnr blocked p slot m where b: "ar_index a < length (s_spans s)"
      "sp_blocked_slots (s_spans s ! ar_index a) = Known blocked"
      "FindPort s (if ar_reversed a then sp_from (s_spans s ! ar_index a) else sp_to (s_spans s ! ar_index a)) = Some p"
      "m = Mask_Intersect (Mask_Intersect (bs_mask st1) (base_mask (s_spectrum s) w (Known blocked)))
             (base_mask (s_spectrum s) w (pt_blocked_slots p))" "LowestSetBit m = Some slot"
      "st = use_span lm dg s w (s_spans s ! ar_index a) (ar_reversed a) p len loss osnr blocked m slot st1"
      by (rule build_span_Inr) blast
    have mwf: "mask_wf m" using IH b(4) by simp
    have "slot \<in> mask_set m" using mask.lowest_Some [OF mwf b(5)] by simp
    then have "channel_free s w (Known blocked) slot" "channel_free s w (pt_blocked_slots p) slot"
      using IH unfolding b(4) by (simp_all add: mask.slots_inter mask_set_base [OF wf w])
    then have "reserved s w a \<lparr>rv_resource = ForSpan (sp_id (s_spans s ! ar_index a)),
        rv_channel = \<lparr>first_slot = slot, width_slots = w\<rparr>, rv_segment_index = bs_segment_index st1\<rparr>"
      using b(1-3) SpanArcKind by (simp add: reserved_def port_free_def arrival_def ArrivalPort_def Let_def)
    moreover have "bs_mask st = m" using use_span_mirror(1) [of lm dg s w "s_spans s ! ar_index a"] b(6) by (simp add: section_of_def)
    ultimately show ?thesis
      using IH mwf SpanArcKind by (simp add: b(6) use_span_reservation list_all2_appendI)
  next
    case CrossConnectArcKind
    then have "build_cross_connect lm s w a st1 = Inr st" using snoc.prems st1 by (simp add: build_arcs_snoc)
    then show ?thesis using IH CrossConnectArcKind
      by (elim build_cross_connect_Inr) (simp add: use_cross_connect_frame apply_operation_reservations)
  qed
qed

lemma BuildPlan_Inr:
  assumes "BuildPlan lm dg s r rd arcs = Inr plan"
  obtains p profile blocked st where "FindPort s (rq_source r) = Some p"
    "build_arcs lm dg s (rq_channel_width_slots r) arcs
       (initial_build s (rq_channel_width_slots r) (rq_source r) p profile blocked) = Inr st"
    "bs_port st = rq_destination r"
    "plan = Seal dg (plan_of_state dg s r rd (length arcs)
       (finish_steps (rq_destination r) (close_segment lm False (ResourceKey RNode []) st)))"
  using assms unfolding BuildPlan_def build_failure_def Let_def
  by (auto split: if_splits Evidence.split_asm option.split_asm sum.split_asm)

lemma initial_build_fields:
  "bs_reservations (initial_build s w k p profile blocked) = []" "mask_wf (bs_mask (initial_build s w k p profile blocked))"
  "segments_of (initial_build s w k p profile blocked) = ([], 0, 0, 0, Fin 0, Fin 0, 0)"
  by (simp_all add: initial_build_def Let_def split: option.split)
    (simp_all add: push_step_def note_domains_def assume_capability_def add_cost_def segments_of_def)

lemma plan_reservations_free:
  assumes "snapshot_wf s" "0 < rq_channel_width_slots r" "BuildPlan lm dg s r rd arcs = Inr plan"
  shows "list_all2 (reserved s (rq_channel_width_slots r)) (span_arcs arcs) (pl_reservations plan)"
proof -
  obtain p profile blocked st where st: "build_arcs lm dg s (rq_channel_width_slots r) arcs
       (initial_build s (rq_channel_width_slots r) (rq_source r) p profile blocked) = Inr st"
    and plan: "plan = Seal dg (plan_of_state dg s r rd (length arcs)
       (finish_steps (rq_destination r) (close_segment lm False (ResourceKey RNode []) st)))"
    by (rule BuildPlan_Inr [OF assms(3)])
  from build_arcs_reservations [OF assms(1,2) st] show ?thesis
    by (simp add: plan plan_of_state_def initial_build_fields)
qed

text \<open>
  C27: the spectrum a plan asks for.  A plan built from any arc sequence has one entry for each span of
  the sequence, in order; the entry names that span and a channel of the requested width, which is
  inside the spectrum model and published as free both on the span and at the port where it ends.
\<close>

theorem BuildPlan_reservations_free:
  assumes "snapshot_wf s" "0 < rq_channel_width_slots r" "BuildPlan lm dg s r rd arcs = Inr plan"
  shows "list_all2 (reserved s (rq_channel_width_slots r)) (span_arcs arcs) (pl_reservations plan)"
  by (rule plan_reservations_free [OF assms])

section \<open>Segments\<close>

text \<open>The totals a segment reports are accumulated from its own spans, in order.\<close>

definition loss_sum :: "PlanSpanUse list \<Rightarrow> double" where
  "loss_sum us = foldl dadd (Fin 0) (map su_loss_db us)"

definition osnr_inverse_sum :: "libm \<Rightarrow> PlanSpanUse list \<Rightarrow> double" where
  "osnr_inverse_sum lm us = foldl dadd (Fin 0) (map (\<lambda>u. OsnrToInverse lm (su_osnr_db u)) us)"

definition accumulates :: "libm \<Rightarrow> PlanSegment \<Rightarrow> bool" where
  "accumulates lm g \<longleftrightarrow>
     sg_span_count g = length (sg_spans g) \<and> sg_distance_m g = sum_list (map su_length_m (sg_spans g)) \<and>
     sg_loss_db g = loss_sum (sg_spans g) \<and>
     sg_osnr_db g = (let x = osnr_inverse_sum lm (sg_spans g)
                     in if dle x (Fin 0) then Fin 0 else dmul (Fin (- 10)) (lm_log10 lm x))"

text \<open>A span use records the span of its arc and what the snapshot publishes about it.\<close>

definition uses_span :: "TopologySnapshot \<Rightarrow> ArcRef \<Rightarrow> PlanSpanUse \<Rightarrow> bool" where
  "uses_span s a u \<longleftrightarrow>
     (let sp = s_spans s ! ar_index a
      in su_id u = sp_id sp \<and> su_reversed u = ar_reversed a \<and> sp_length_m sp = Known (su_length_m u) \<and>
         sp_loss_db sp = Known (su_loss_db u) \<and> sp_osnr_db sp = Known (su_osnr_db u) \<and> su_cost u = sp_cost sp)"

text \<open>
  The invariant of the walk: the closed segments are numbered from zero and accumulate their spans;
  the current segment may not exist yet, and its running totals accumulate its spans.
\<close>

definition totals_of :: "libm \<Rightarrow> PlanSpanUse list \<Rightarrow> u64 \<times> double \<times> double \<times> nat" where
  "totals_of lm us = (sum_list (map su_length_m us), loss_sum us, osnr_inverse_sum lm us, length us)"

definition segments_ok :: "libm \<Rightarrow> TopologySnapshot \<Rightarrow> ArcRef list \<Rightarrow> BuildState \<Rightarrow> bool" where
  "segments_ok lm s as st \<longleftrightarrow>
     (\<exists>done us rest.
        bs_segments st = done @ rest \<and> (rest = [] \<and> us = [] \<or> (\<exists>g. rest = [g] \<and> sg_index g = length done \<and> sg_spans g = us)) \<and>
        map sg_index done = [0 ..< length done] \<and> (\<forall>g \<in> set done. accumulates lm g) \<and>
        bs_segment_index st = length done \<and> bs_regenerations st = length done \<and>
        (bs_distance st, bs_loss st, bs_osnr_inverse st, bs_span_count st) = totals_of lm us \<and>
        list_all2 (uses_span s) (span_arcs as) (concat (map sg_spans done) @ us))"

lemma segments_ok_cong: "segments_of st = segments_of st' \<Longrightarrow> segments_ok lm s as st = segments_ok lm s as st'"
  by (simp add: segments_ok_def segments_of_def)

definition segment_open :: "libm \<Rightarrow> TopologySnapshot \<Rightarrow> ArcRef list \<Rightarrow> PlanSegment list \<Rightarrow> PlanSegment \<Rightarrow> BuildState \<Rightarrow> bool" where
  "segment_open lm s as finished g st \<longleftrightarrow>
     bs_segments st = finished @ [g] \<and> sg_index g = length finished \<and>
     map sg_index finished = [0 ..< length finished] \<and> (\<forall>g \<in> set finished. accumulates lm g) \<and>
     bs_segment_index st = length finished \<and> bs_regenerations st = length finished \<and>
     (bs_distance st, bs_loss st, bs_osnr_inverse st, bs_span_count st) = totals_of lm (sg_spans g) \<and>
     list_all2 (uses_span s) (span_arcs as) (concat (map sg_spans finished) @ sg_spans g)"

lemma segment_open_ok: "segment_open lm s as finished g st \<Longrightarrow> segments_ok lm s as st"
  unfolding segment_open_def segments_ok_def by blast

lemma ensure_segment_ok:
  assumes "segments_ok lm s as st"
  shows "\<exists>finished g. segment_open lm s as finished g (ensure_segment st)"
proof -
  from assms obtain finished us rest where inv: "bs_segments st = finished @ rest"
      "rest = [] \<and> us = [] \<or> (\<exists>g. rest = [g] \<and> sg_index g = length finished \<and> sg_spans g = us)"
      "map sg_index finished = [0 ..< length finished]" "\<forall>g \<in> set finished. accumulates lm g"
      "bs_segment_index st = length finished" "bs_regenerations st = length finished"
      "(bs_distance st, bs_loss st, bs_osnr_inverse st, bs_span_count st) = totals_of lm us"
      "list_all2 (uses_span s) (span_arcs as) (concat (map sg_spans finished) @ us)"
    unfolding segments_ok_def by auto
  show ?thesis
  proof (cases rest)
    case Nil
    have "sg_index (last finished) \<noteq> length finished" if "finished \<noteq> []"
    proof -
      have "sg_index (last finished) = last (map sg_index finished)" using that by (simp add: last_map)
      then show ?thesis using that unfolding inv(3) by (cases finished) simp_all
    qed
    then have new: "ensure_segment st = st\<lparr>bs_segments := finished @
        [\<lparr>sg_index = length finished, sg_profile = bs_profile st, sg_spans = [], sg_distance_m = 0,
          sg_loss_db = Fin 0, sg_osnr_db = Fin 0, sg_span_count = 0, sg_channel_runs = 0,
          sg_ended_by_regeneration = False, sg_regeneration_resource = ResourceKey RNode []\<rparr>]\<rparr>"
      using inv(1,5) Nil by (auto simp: ensure_segment_def)
    show ?thesis
      unfolding new segment_open_def by (intro exI [of _ finished] exI conjI) (use inv Nil in auto)
  next
    case (Cons g gs)
    then have g: "rest = [g]" "sg_index g = length finished" "sg_spans g = us" using inv(2) by auto
    then have "ensure_segment st = st" using inv(1,5) by (simp add: ensure_segment_def)
    then show ?thesis
      unfolding segment_open_def by (intro exI [of _ finished] exI [of _ g]) (use inv g in simp)
  qed
qed

lemma use_span_segments:
  "segments_of (use_span lm dg s w sp rv p len loss osnr blocked m slot st) =
     (let st1 = ensure_segment st;
          use = \<lparr>su_id = sp_id sp, su_from = (if rv then sp_to sp else sp_from sp), su_to = (if rv then sp_from sp else sp_to sp),
                 su_reversed = rv, su_length_m = len, su_loss_db = loss, su_osnr_db = osnr, su_cost = sp_cost sp,
                 su_first_slot = slot, su_failure_domains = sp_failure_domains sp\<rparr>
      in (update_last (\<lambda>g. g\<lparr>sg_spans := sg_spans g @ [use]\<rparr>) (bs_segments st1), bs_segment_index st1,
          bs_regenerations st1, bs_distance st1 + len, dadd (bs_loss st1) loss,
          dadd (bs_osnr_inverse st1) (OsnrToInverse lm osnr), bs_span_count st1 + 1))"
proof -
  have seg: "segments_of (ensure_segment x) = segments_of (ensure_segment y)"
    if "segments_of x = segments_of y" "bs_profile x = bs_profile y" for x y
    using that by (simp add: segments_of_def ensure_segment_def)
  let ?st1 = "ensure_segment (note_slot slot (st\<lparr>bs_mask := m\<rparr>))"
  have "segments_of ?st1 = segments_of (ensure_segment st)"
    by (rule seg) (simp_all add: note_slot_def)
  then have fields: "bs_segments ?st1 = bs_segments (ensure_segment st)"
    "bs_segment_index ?st1 = bs_segment_index (ensure_segment st)" "bs_regenerations ?st1 = bs_regenerations (ensure_segment st)"
    "bs_distance ?st1 = bs_distance (ensure_segment st)" "bs_loss ?st1 = bs_loss (ensure_segment st)"
    "bs_osnr_inverse ?st1 = bs_osnr_inverse (ensure_segment st)" "bs_span_count ?st1 = bs_span_count (ensure_segment st)"
    by (simp_all only: segments_of_def prod.inject)
  show ?thesis
    unfolding use_span_def Let_def segments_fields segments_frame
    by (simp add: segments_of_def fields del: regenerations_frame)
qed

lemma update_last_snoc [simp]: "update_last f (xs @ [x]) = xs @ [f x]"
  by (simp add: update_last_def)

lemma totals_of_snoc:
  "totals_of lm (us @ [u]) =
     (case totals_of lm us of (d, q, e, n) \<Rightarrow>
        (d + su_length_m u, dadd q (su_loss_db u), dadd e (OsnrToInverse lm (su_osnr_db u)), n + 1))"
  by (simp add: totals_of_def loss_sum_def osnr_inverse_sum_def)

lemma build_span_segments:
  assumes "segments_ok lm s as st" "build_span lm dg s w a st = Inr st'" "ar_kind a = SpanArcKind"
  shows "segments_ok lm s (as @ [a]) st'"
proof -
  obtain finished g where ens: "segment_open lm s as finished g (ensure_segment st)"
    using ensure_segment_ok [OF assms(1)] by blast
  then have tot0: "(bs_distance (ensure_segment st), bs_loss (ensure_segment st), bs_osnr_inverse (ensure_segment st),
        bs_span_count (ensure_segment st)) = totals_of lm (sg_spans g)"
    and uses0: "list_all2 (uses_span s) (span_arcs as) (concat (map sg_spans finished) @ sg_spans g)"
    by (simp_all add: segment_open_def)
  from assms(2) obtain len loss osnr blocked p slot m where b:
      "sp_length_m (s_spans s ! ar_index a) = Known len" "sp_loss_db (s_spans s ! ar_index a) = Known loss"
      "sp_osnr_db (s_spans s ! ar_index a) = Known osnr"
      "st' = use_span lm dg s w (s_spans s ! ar_index a) (ar_reversed a) p len loss osnr blocked m slot st"
    by (rule build_span_Inr) blast
  let ?sp = "s_spans s ! ar_index a"
  define use where "use = \<lparr>su_id = sp_id ?sp, su_from = (if ar_reversed a then sp_to ?sp else sp_from ?sp),
      su_to = (if ar_reversed a then sp_from ?sp else sp_to ?sp), su_reversed = ar_reversed a, su_length_m = len,
      su_loss_db = loss, su_osnr_db = osnr, su_cost = sp_cost ?sp, su_first_slot = slot,
      su_failure_domains = sp_failure_domains ?sp\<rparr>"
  have use: "uses_span s a use" "su_length_m use = len" "su_loss_db use = loss" "su_osnr_db use = osnr"
    using b by (simp_all add: use_def uses_span_def Let_def)
  have st': "segments_of st' = (finished @ [g\<lparr>sg_spans := sg_spans g @ [use]\<rparr>], length finished,
        length finished, bs_distance (ensure_segment st) + len, dadd (bs_loss (ensure_segment st)) loss,
        dadd (bs_osnr_inverse (ensure_segment st)) (OsnrToInverse lm osnr), bs_span_count (ensure_segment st) + 1)"
    using ens unfolding b(4) use_span_segments use_def by (simp add: segment_open_def Let_def del: regenerations_frame)
  have tot: "(bs_distance st', bs_loss st', bs_osnr_inverse st', bs_span_count st') = totals_of lm (sg_spans g @ [use])"
    using use(2-4) st' by (simp add: totals_of_snoc segments_of_def tot0 [symmetric])
  have all: "list_all2 (uses_span s) (span_arcs (as @ [a])) (concat (map sg_spans finished) @ sg_spans g @ [use])"
    using list_all2_appendI [OF uses0, of "[a]" "[use]"] use(1) assms(3) by simp
  have "segment_open lm s (as @ [a]) finished (g\<lparr>sg_spans := sg_spans g @ [use]\<rparr>) st'"
    unfolding segment_open_def using ens st' tot all by (simp add: segment_open_def segments_of_def)
  then show ?thesis by (rule segment_open_ok)
qed

text \<open>Closing the current segment completes it.\<close>

lemma close_segment_ok:
  assumes "segments_ok lm s as st"
  obtains finished where "bs_segments (close_segment lm b res st) = finished" "map sg_index finished = [0 ..< length finished]"
    "\<forall>g \<in> set finished. accumulates lm g" "Suc (bs_segment_index (close_segment lm b res st)) = length finished"
    "bs_regenerations st = bs_segment_index (close_segment lm b res st)"
    "list_all2 (uses_span s) (span_arcs as) (concat (map sg_spans finished))"
proof -
  obtain finished g where ens: "segment_open lm s as finished g (ensure_segment st)"
    using ensure_segment_ok [OF assms] by blast
  then have tot: "totals_of lm (sg_spans g) = (bs_distance (ensure_segment st), bs_loss (ensure_segment st),
      bs_osnr_inverse (ensure_segment st), bs_span_count (ensure_segment st))" by (simp add: segment_open_def)
  let ?close = "\<lambda>g. g\<lparr>sg_profile := bs_profile (ensure_segment st), sg_distance_m := bs_distance (ensure_segment st),
               sg_loss_db := bs_loss (ensure_segment st),
               sg_osnr_db := (if dle (bs_osnr_inverse (ensure_segment st)) (Fin 0) then Fin 0
                              else dmul (Fin (- 10)) (lm_log10 lm (bs_osnr_inverse (ensure_segment st)))),
               sg_span_count := bs_span_count (ensure_segment st), sg_channel_runs := bs_channel_runs (ensure_segment st),
               sg_ended_by_regeneration := b,
               sg_regeneration_resource := (if b then res else sg_regeneration_resource g)\<rparr>"
  have segs: "bs_segments (close_segment lm b res st) = finished @ [?close g]"
    "bs_segment_index (close_segment lm b res st) = bs_segment_index (ensure_segment st)"
    using ens by (simp_all add: close_segment_def segment_open_def Let_def)
  have "accumulates lm (?close g)" using tot by (simp add: accumulates_def totals_of_def Let_def)
  then show ?thesis
    using that [of "finished @ [?close g]"] ens segs by (auto simp: segment_open_def)
qed

lemma apply_operation_segments:
  assumes "segments_ok lm s as st" "apply_operation lm s w cc p st = Inr st1"
  shows "segments_ok lm s as st1"
proof (cases "cc_op cc = Regenerate")
  case True
  obtain finished where c: "bs_segments (close_segment lm True (ForCrossConnect (cc_id cc)) st) = finished"
      "map sg_index finished = [0 ..< length finished]" "\<forall>g \<in> set finished. accumulates lm g"
      "Suc (bs_segment_index (close_segment lm True (ForCrossConnect (cc_id cc)) st)) = length finished"
      "bs_regenerations st = bs_segment_index (close_segment lm True (ForCrossConnect (cc_id cc)) st)"
      "list_all2 (uses_span s) (span_arcs as) (concat (map sg_spans finished))"
    by (rule close_segment_ok [OF assms(1)])
  have "segments_of st1 = (finished, length finished, length finished, 0, Fin 0, Fin 0, 0)"
    using assms(2) True c
    by (auto simp: apply_operation_def build_failure_def Let_def segments_of_def assume_capability_def
        split: Evidence.split_asm option.split_asm)
  then show ?thesis
    unfolding segments_ok_def
    by (intro exI [of _ finished] exI [of _ "[]"])
      (use c in \<open>simp add: segments_of_def totals_of_def loss_sum_def osnr_inverse_sum_def\<close>)
next
  case False
  then have "segments_of st1 = segments_of st"
    using assms(2) by (auto simp: apply_operation_def build_failure_def Let_def
        split: CrossConnectOp.split_asm option.split_asm)
  then show ?thesis using assms(1) segments_ok_cong by blast
qed

lemma build_arcs_segments:
  assumes "build_arcs lm dg s w arcs st0 = Inr st" "segments_ok lm s [] st0"
  shows "segments_ok lm s arcs st"
  using assms(1)
proof (induction arcs arbitrary: st rule: rev_induct)
  case Nil
  then show ?case using assms(2) by simp
next
  case (snoc a arcs)
  then obtain st1 where st1: "build_arcs lm dg s w arcs st0 = Inr st1" by (auto simp: build_arcs_snoc split: sum.splits)
  note IH = snoc.IH [OF st1]
  show ?case
  proof (cases "ar_kind a")
    case SpanArcKind
    then show ?thesis using build_span_segments [OF IH] snoc.prems st1 by (simp add: build_arcs_snoc)
  next
    case CrossConnectArcKind
    then have "build_cross_connect lm s w a st1 = Inr st" using snoc.prems st1 by (simp add: build_arcs_snoc)
    then obtain p blocked st2 where st2: "apply_operation lm s w (s_cross_connects s ! ar_index a) p st1 = Inr st2"
      "st = use_cross_connect s (s_cross_connects s ! ar_index a) p blocked st2" by (rule build_cross_connect_Inr)
    have "segments_ok lm s arcs st" using apply_operation_segments [OF IH st2(1)] segments_ok_cong st2(2) use_cross_connect_frame(3) by metis
    then show ?thesis using CrossConnectArcKind by (simp add: segments_ok_def)
  qed
qed

lemma plan_segments:
  assumes "BuildPlan lm dg s r rd arcs = Inr plan"
  shows "length (pl_segments plan) = pl_regenerations plan + 1 \<and>
    map sg_index (pl_segments plan) = [0 ..< length (pl_segments plan)] \<and>
    (\<forall>g \<in> set (pl_segments plan). accumulates lm g) \<and>
    list_all2 (uses_span s) (span_arcs arcs) (concat (map sg_spans (pl_segments plan))) \<and>
    pl_total_distance_m plan = sum_list (map sg_distance_m (pl_segments plan))"
proof -
  obtain p profile blocked st where st: "build_arcs lm dg s (rq_channel_width_slots r) arcs
       (initial_build s (rq_channel_width_slots r) (rq_source r) p profile blocked) = Inr st"
    and plan: "plan = Seal dg (plan_of_state dg s r rd (length arcs)
       (finish_steps (rq_destination r) (close_segment lm False (ResourceKey RNode []) st)))"
    by (rule BuildPlan_Inr [OF assms])
  have "segments_ok lm s [] (initial_build s (rq_channel_width_slots r) (rq_source r) p profile blocked)"
    using initial_build_fields(3) [of s "rq_channel_width_slots r" "rq_source r" p profile blocked]
    by (auto simp: segments_ok_def segments_of_def totals_of_def loss_sum_def osnr_inverse_sum_def)
  from build_arcs_segments [OF st this] have ok: "segments_ok lm s arcs st" .
  obtain finished where c: "bs_segments (close_segment lm False (ResourceKey RNode []) st) = finished"
      "map sg_index finished = [0 ..< length finished]" "\<forall>g \<in> set finished. accumulates lm g"
      "Suc (bs_segment_index (close_segment lm False (ResourceKey RNode []) st)) = length finished"
      "bs_regenerations st = bs_segment_index (close_segment lm False (ResourceKey RNode []) st)"
      "list_all2 (uses_span s) (span_arcs arcs) (concat (map sg_spans finished))"
    by (rule close_segment_ok [OF ok])
  have segs: "bs_segments (finish_steps k x) = bs_segments x" for k x by (simp add: finish_steps_def push_step_def)
  have sum: "fold (\<lambda>g d. d + sg_distance_m g) gs x = x + sum_list (map sg_distance_m gs)" for gs x
    by (induction gs arbitrary: x) (simp_all add: add_ac)
  show ?thesis using c(2-6) by (simp add: plan plan_of_state_def segs c(1) sum)
qed

text \<open>
  C28: the segments of a plan.  They are numbered from zero, one more than the regenerations; their
  spans are the spans of the arc sequence in order, with the published length, loss and OSNR; the
  distance, span count, loss and OSNR a segment reports are accumulated from its own spans; and the
  distance of the plan is the sum over its segments.
\<close>

theorem BuildPlan_segments:
  assumes "BuildPlan lm dg s r rd arcs = Inr plan"
  shows "length (pl_segments plan) = pl_regenerations plan + 1 \<and>
    map sg_index (pl_segments plan) = [0 ..< length (pl_segments plan)] \<and>
    (\<forall>g \<in> set (pl_segments plan). accumulates lm g) \<and>
    list_all2 (uses_span s) (span_arcs arcs) (concat (map sg_spans (pl_segments plan))) \<and>
    pl_total_distance_m plan = sum_list (map sg_distance_m (pl_segments plan))"
  by (rule plan_segments [OF assms])

end
