(* ===== verification/Planner_Props.thy ===== *)
theory Planner_Props
  imports Planner Plan_Segments
begin

text \<open>
  What a planning result promises: a feasible outcome carries sound candidates and nothing else does,
  an infeasible outcome rests on an exhausted search over complete evidence, stale or restored evidence
  never yields an answer, and a proven path is never lost to an internal failure.
\<close>

section \<open>The request of a pass\<close>

text \<open>A request that asks at least what another asks.\<close>

definition tightens :: "PlanningRequest \<Rightarrow> PlanningRequest \<Rightarrow> bool" where
  "tightens w r \<longleftrightarrow>
     rq_source w = rq_source r \<and> rq_destination w = rq_destination r \<and>
     rq_channel_width_slots w = rq_channel_width_slots r \<and> rq_max_hops w = rq_max_hops r \<and>
     rq_max_regenerations w = rq_max_regenerations r \<and> rq_max_total_cost w = rq_max_total_cost r \<and>
     (let c = rq_constraints w; d = rq_constraints r
      in set (excluded_nodes d) \<subseteq> set (excluded_nodes c) \<and> set (excluded_ports d) \<subseteq> set (excluded_ports c) \<and>
         set (excluded_spans d) \<subseteq> set (excluded_spans c) \<and>
         set (excluded_cross_connects d) \<subseteq> set (excluded_cross_connects c) \<and>
         set (excluded_failure_domains d) \<subseteq> set (excluded_failure_domains c) \<and>
         allow_regeneration c = allow_regeneration d \<and> allow_wavelength_conversion c = allow_wavelength_conversion d)"

lemma tightens_refl [simp]: "tightens r r"
  by (simp add: tightens_def)

lemma tightens_working [simp]: "tightens (working_request r e) r"
  by (simp add: tightens_def working_request_def Let_def)

lemma arc_permitted_tightens:
  assumes "tightens w r" "arc_permitted w s a"
  shows "arc_permitted r s a"
proof -
  have "IsOpAllowed (rq_constraints w) op = IsOpAllowed (rq_constraints r) op" for op
    using assms(1) by (cases op) (simp_all add: tightens_def IsOpAllowed_def Let_def)
  then show ?thesis
    using assms unfolding arc_permitted_def tightens_def Let_def by (cases "ar_kind a") auto
qed

section \<open>Candidates\<close>

text \<open>
  What a candidate plan is: the plan of a connected, port-simple route between the requested ports,
  within the limits of the request, on permitted arcs with published evidence.
\<close>

definition candidate_route :: "TopologySnapshot \<Rightarrow> PlanningRequest \<Rightarrow> ArcRef list \<Rightarrow> bool" where
  "candidate_route s r arcs \<longleftrightarrow>
     walk s (rq_source r) arcs (rq_destination r) \<and> distinct (ports_visited s (rq_source r) arcs) \<and>
     length arcs \<le> rq_max_hops r \<and> length (filter (regenerates s) arcs) \<le> rq_max_regenerations r \<and>
     port_published s (rq_source r) \<and> (\<forall>a \<in> set arcs. arc_permitted r s a \<and> arc_published s a)"

definition candidate_ok :: "libm \<Rightarrow> digests \<Rightarrow> TopologySnapshot \<Rightarrow> PlanningRequest \<Rightarrow> PlanArtifact \<Rightarrow> bool" where
  "candidate_ok lm dg s r plan \<longleftrightarrow>
     (\<exists>arcs. BuildPlan lm dg s r (dg_request dg r) arcs = Inr plan \<and> candidate_route s r arcs) \<and>
     (\<forall>m. rq_max_total_cost r = Some m \<longrightarrow> pl_total_cost plan \<le> m) \<and> VerifySeal dg plan = OkStatus"

lemma proven_path_candidate:
  assumes wf: "snapshot_wf s" and named: "snapshot_named s" and valid: "\<not> failed (PlanningRequest_Validate r)"
    and tight: "tightens w r" and p: "p \<in> set (so_paths (RunSearch lm s w opts cancel))" "rp_proven p"
  obtains plan where "BuildPlan lm dg s r (dg_request dg r) (StripCycles s (rq_source r) (rp_arcs p)) = Inr plan"
    "candidate_ok lm dg s r plan" "StripCycles s (rq_source r) (rp_arcs p) = rp_arcs p"
proof -
  have same: "rq_source r = rq_source w" "rq_destination r = rq_destination w"
      "rq_channel_width_slots r = rq_channel_width_slots w"
    using tight by (simp_all add: tightens_def)
  have width: "0 < rq_channel_width_slots w" using valid_request_bounds(2) [OF valid] same by simp
  note sound = search_paths_sound [OF wf p(1)] and cost = search_paths_cost [OF wf p(1)]
    and pub = search_paths_published [OF wf p]
  have strip: "StripCycles s (rq_source r) (rp_arcs p) = rp_arcs p"
    using StripCycles_identity sound same by metis
  obtain plan where plan: "BuildPlan lm dg s r (dg_request dg r) (rp_arcs p) = Inr plan" "pl_total_cost plan = rp_cost p"
      "VerifySeal dg plan = OkStatus"
    using proven_path_plan [OF wf named width p same, of dg "dg_request dg r"] by blast
  have "rp_arcs p \<noteq> []" using sound same valid_request_bounds(1) [OF valid] by (cases "rp_arcs p") auto
  then have "\<forall>m. rq_max_total_cost r = Some m \<longrightarrow> pl_total_cost plan \<le> m"
    using cost plan(2) tight by (simp add: tightens_def)
  moreover have "candidate_route s r (rp_arcs p)"
    using sound pub tight same arc_permitted_tightens [OF tight]
    by (auto simp: candidate_route_def tightens_def)
  ultimately have "candidate_ok lm dg s r plan" using plan by (auto simp: candidate_ok_def)
  then show thesis using that plan(1) strip by simp
qed

text \<open>The loop over the paths: what it builds, and when it builds nothing.\<close>

lemma build_candidates_built:
  assumes "build_candidates lm dg s r rd n ps built seen u = Inr (built', u')" "length built \<le> n"
  shows "length built' \<le> n \<and> set built \<subseteq> set built' \<and>
    (\<forall>plan \<in> set built' - set built. \<exists>p \<in> set ps. rp_proven p \<and>
       BuildPlan lm dg s r rd (StripCycles s (rq_source r) (rp_arcs p)) = Inr plan)"
  using assms
proof (induction lm dg s r rd n ps built seen u rule: build_candidates.induct)
  case (2 lm dg s r rd n p ps built seen u)
  show ?case
  proof (cases "rp_proven p \<and> length built < n")
    case True
    then obtain plan where plan: "BuildPlan lm dg s r rd (StripCycles s (rq_source r) (rp_arcs p)) = Inr plan"
      using 2(4) by (auto split: sum.splits)
    show ?thesis
      using 2(2,3) 2(4,5) True plan by (fastforce split: if_splits)
  next
    case False
    then show ?thesis using 2(1) 2(4,5) by (fastforce split: if_splits)
  qed
qed simp

lemma build_candidates_none:
  assumes "build_candidates lm dg s r rd n ps [] [] u = Inr ([], u')" "0 < n"
  shows "if ps = [] then u' = u else u'"
proof -
  have keep: "u \<Longrightarrow> build_candidates lm dg s r rd n qs built seen u = Inr (b', u') \<Longrightarrow> u'" for qs built seen u b' u'
    by (induction lm dg s r rd n qs built seen u rule: build_candidates.induct) (auto split: if_splits sum.splits)
  show ?thesis
  proof (cases ps)
    case (Cons p qs)
    show ?thesis
    proof (cases "rp_proven p")
      case False
      then show ?thesis using assms Cons keep by auto
    next
      case True
      then obtain plan where "build_candidates lm dg s r rd n qs [plan] [ToHexImpl (pl_digest plan)] u = Inr ([], u')"
        using assms Cons by (auto split: sum.splits)
      with build_candidates_built [OF this] assms(2) have False by auto
      then show ?thesis ..
    qed
  qed (use assms in simp)
qed

lemma build_candidates_fails:
  assumes "build_candidates lm dg s r rd n ps built seen u = Inl st"
  obtains p where "p \<in> set ps" "rp_proven p" "BuildPlan lm dg s r rd (StripCycles s (rq_source r) (rp_arcs p)) = Inl st"
  using assms
  by (induction lm dg s r rd n ps built seen u rule: build_candidates.induct) (auto split: if_splits sum.splits)

section \<open>Passes\<close>

lemma RunSearch_failed:
  assumes "failed (so_status (RunSearch lm s r opts cancel))"
  shows "code (so_status (RunSearch lm s r opts cancel)) = Cancelled \<or>
    FindPort s (rq_source r) = None \<or> FindPort s (rq_destination r) = None"
  using assms
  by (auto simp: RunSearch_def Let_def empty_outcome_def finish_search_def failed_def OkStatus_def Failure_def FindPort_def
      split: option.splits prod.splits sum.splits bool.splits if_splits)

text \<open>The state between two passes.\<close>

definition pass_ok :: "libm \<Rightarrow> digests \<Rightarrow> TopologySnapshot \<Rightarrow> PlanningRequest \<Rightarrow> nat \<Rightarrow> PassState \<Rightarrow> bool" where
  "pass_ok lm dg s r n it \<longleftrightarrow>
     res_candidates (it_result it) = [] \<and> res_request_digest (it_result it) = dg_request dg r \<and>
     length (it_accepted it) \<le> n \<and> (\<forall>plan \<in> set (it_accepted it). candidate_ok lm dg s r plan)"

lemma MergeSearch_fields [simp]:
  "res_candidates (MergeSearch x res) = res_candidates res" "res_request_digest (MergeSearch x res) = res_request_digest res"
  by (simp_all add: MergeSearch_def)

lemma NoteLimitation_fields [simp]:
  "res_candidates (NoteLimitation b res) = res_candidates res" "res_request_digest (NoteLimitation b res) = res_request_digest res"
  "res_outcome (NoteLimitation b res) = res_outcome res" "res_status (NoteLimitation b res) = res_status res"
  "res_optimality_proven (NoteLimitation b res) = res_optimality_proven res"
  by (simp_all add: NoteLimitation_def)

lemma stop_without_plan_fields [simp]:
  "it_accepted (stop_without_plan s x u it) = it_accepted it"
  "res_candidates (it_result (stop_without_plan s x u it)) = res_candidates (it_result it)"
  "res_request_digest (it_result (stop_without_plan s x u it)) = res_request_digest (it_result it)"
  by (simp_all add: stop_without_plan_def)

lemma pass_ok_stop [simp]: "pass_ok lm dg s r n (stop_without_plan s x u it) = pass_ok lm dg s r n it"
  by (simp add: pass_ok_def)

definition flow_ok :: "libm \<Rightarrow> digests \<Rightarrow> TopologySnapshot \<Rightarrow> PlanningRequest \<Rightarrow> nat \<Rightarrow> pass_flow \<Rightarrow> bool" where
  "flow_ok lm dg s r n f =
     (case f of
        PassReturn res \<Rightarrow> res_candidates res = [] \<and> res_outcome res = OutCancelled
      | PassBreak it \<Rightarrow> pass_ok lm dg s r (if iterative r then n else rq_max_candidates r) it
      | PassContinue it \<Rightarrow> iterative r \<and> pass_ok lm dg s r (Suc n) it)"

lemma search_pass_ok:
  assumes wf: "snapshot_wf s" and named: "snapshot_named s" and valid: "\<not> failed (PlanningRequest_Validate r)"
    and ends: "FindPort s (rq_source r) \<noteq> None" "FindPort s (rq_destination r) \<noteq> None"
    and tight: "tightens w r" and it: "pass_ok lm dg s r n it" and n: "iterative r \<or> it_accepted it = []"
  shows "flow_ok lm dg s r n (search_pass lm dg opts s r cancel first w it)"
proof -
  let ?x = "RunSearch lm s w opts cancel"
  note cand = proven_path_candidate [OF wf named valid tight]
  show ?thesis
  proof (cases "failed (so_status ?x)")
    case True
    then have "code (so_status ?x) = Cancelled"
      using RunSearch_failed [OF True] ends tight by (auto simp: tightens_def)
    with True it show ?thesis by (simp add: search_pass_def Let_def flow_ok_def pass_ok_def)
  next
    case False
    have rd: "res_request_digest (it_result it) = dg_request dg r" using it by (simp add: pass_ok_def)
    let ?built = "build_candidates lm dg s r (dg_request dg r) (build_budget r) (so_paths ?x) [] [] False"
    have "?built \<noteq> Inl st" for st
    proof
      assume "?built = Inl st"
      then obtain p where p: "p \<in> set (so_paths ?x)" "rp_proven p"
        "BuildPlan lm dg s r (dg_request dg r) (StripCycles s (rq_source r) (rp_arcs p)) = Inl st"
        by (rule build_candidates_fails)
      show False by (rule cand [OF p(1,2), of dg]) (use p(3) in simp)
    qed
    then obtain built u where b: "?built = Inr (built, u)" by (metis old.sum.exhaust surj_pair)
    have ok: "candidate_ok lm dg s r plan" if mem: "plan \<in> set built" for plan
    proof -
      obtain p where p: "p \<in> set (so_paths ?x)" "rp_proven p"
        "BuildPlan lm dg s r (dg_request dg r) (StripCycles s (rq_source r) (rp_arcs p)) = Inr plan"
        using build_candidates_built [OF b] mem by auto
      show ?thesis by (rule cand [OF p(1,2), of dg]) (use p(3) in simp)
    qed
    have len: "length built \<le> build_budget r" using build_candidates_built [OF b] by simp
    show ?thesis
    proof (cases "std_sort PlanLess built")
      case Nil
      with it False rd b n show ?thesis
        by (auto simp: search_pass_def Let_def flow_ok_def pass_ok_def)
    next
      case (Cons best others)
      have mem: "plan \<in> set (best # others) \<Longrightarrow> candidate_ok lm dg s r plan" for plan
        using ok set_std_sort [of PlanLess built] unfolding Cons by blast
      show ?thesis
        using it False rd b n Cons mem
        by (auto simp: search_pass_def Let_def flow_ok_def pass_ok_def dest: in_set_takeD)
    qed
  qed
qed

lemma planner_pass_ok:
  assumes "snapshot_wf s" "snapshot_named s" "\<not> failed (PlanningRequest_Validate r)"
    "FindPort s (rq_source r) \<noteq> None" "FindPort s (rq_destination r) \<noteq> None"
    "pass_ok lm dg s r n it" "iterative r \<or> it_accepted it = []"
  shows "flow_ok lm dg s r n (planner_pass lm dg opts s r cancel first it)"
proof -
  have it1: "pass_ok lm dg s r n (it\<lparr>it_excluded := e\<rparr>)" "it_accepted (it\<lparr>it_excluded := e\<rparr>) = it_accepted it" for e
    using assms(6) by (simp_all add: pass_ok_def)
  show ?thesis
    using search_pass_ok [OF assms(1-5) tightens_refl assms(6,7)] search_pass_ok [OF assms(1-5) tightens_working it1(1)]
      assms(6,7) by (auto simp: planner_pass_def Let_def flow_ok_def pass_ok_def)
qed

lemma planner_passes_ok:
  assumes "snapshot_wf s" "snapshot_named s" "\<not> failed (PlanningRequest_Validate r)"
    "FindPort s (rq_source r) \<noteq> None" "FindPort s (rq_destination r) \<noteq> None"
    "pass_ok lm dg s r k it" "iterative r \<and> n + k \<le> rq_max_candidates r \<or> \<not> iterative r \<and> it_accepted it = [] \<and> n \<le> 1"
  shows "case planner_passes lm dg opts s r cancel n pass it of
      Inl res \<Rightarrow> res_candidates res = [] \<and> res_outcome res = OutCancelled
    | Inr it' \<Rightarrow> pass_ok lm dg s r (rq_max_candidates r) it'"
  using assms(6,7)
proof (induction n arbitrary: pass k it)
  case 0
  then show ?case by (auto simp: pass_ok_def)
next
  case (Suc n)
  have flow: "flow_ok lm dg s r k (planner_pass lm dg opts s r (cancel pass) (pass = 0) it)"
    by (rule planner_pass_ok [OF assms(1-5) Suc.prems(1)]) (use Suc.prems(2) in auto)
  show ?case
  proof (cases "planner_pass lm dg opts s r (cancel pass) (pass = 0) it")
    case (PassReturn res)
    with flow show ?thesis by (simp add: flow_ok_def)
  next
    case (PassBreak it')
    with flow Suc.prems show ?thesis by (auto simp: flow_ok_def pass_ok_def split: if_splits)
  next
    case (PassContinue it')
    with flow have "iterative r" "pass_ok lm dg s r (Suc k) it'" by (simp_all add: flow_ok_def)
    with Suc.IH [of "Suc k" it' "Suc pass"] Suc.prems PassContinue show ?thesis by auto
  qed
qed

section \<open>The outcome\<close>

lemma FinaliseResult_fields [simp]:
  "res_candidates (FinaliseResult seal res) = res_candidates res" "res_outcome (FinaliseResult seal res) = res_outcome res"
  "res_status (FinaliseResult seal res) = res_status res"
  "res_optimality_proven (FinaliseResult seal res) = res_optimality_proven res"
  "res_limitations (FinaliseResult seal res) = res_limitations res"
  by (simp_all add: FinaliseResult_def SealResult_def)

lemma early_fields [simp]:
  "res_candidates (indeterminate c txt b res) = res_candidates res" "res_outcome (indeterminate c txt b res) = OutIndeterminate"
  "res_candidates (push_witness reason k txt res) = res_candidates res" "res_outcome (push_witness reason k txt res) = res_outcome res"
  "res_status (indeterminate c txt b res) = Failure c txt" "res_status (push_witness reason k txt res) = res_status res"
  by (simp_all add: indeterminate_def push_witness_def)

lemma new_result_fields [simp]:
  "res_candidates (new_result dg s r) = []" "res_request_digest (new_result dg s r) = dg_request dg r"
  by (simp_all add: new_result_def)

text \<open>When the evidence is not what the request pins.\<close>

definition stale_for :: "TopologySnapshot \<Rightarrow> PlanningRequest \<Rightarrow> bool" where
  "stale_for s r \<longleftrightarrow>
     s_freshness s \<noteq> Fresh \<and> \<not> rq_accept_restored_evidence r \<or>
     (\<exists>g. rq_required_snapshot_generation r = Some g \<and> s_generation s < g) \<or>
     (\<exists>d. rq_expected_snapshot_digest r = Some d \<and> d \<noteq> s_digest s) \<or>
     (\<exists>(source, g) \<in> set (rq_required_source_generations r). \<not> HasSource s source \<or> SourceGeneration s source < g)"

lemma check_sources_Some:
  "check_sources s res reqs = Some early \<Longrightarrow>
     (\<exists>(source, g) \<in> set reqs. \<not> HasSource s source \<or> SourceGeneration s source < g) \<and>
     res_candidates early = res_candidates res \<and> res_outcome early = OutIndeterminate \<and> code (res_status early) = Stale"
  by (induction s res reqs rule: check_sources.induct) (auto split: if_splits simp: Failure_def)

lemma check_sources_None:
  "check_sources s res reqs = None \<Longrightarrow> \<not> (\<exists>(source, g) \<in> set reqs. \<not> HasSource s source \<or> SourceGeneration s source < g)"
  by (induction s res reqs rule: check_sources.induct) (auto split: if_splits)

lemma check_freshness_iff: "check_freshness s r res = None \<longleftrightarrow> \<not> stale_for s r"
proof
  assume "check_freshness s r res = None"
  then show "\<not> stale_for s r"
    using check_sources_None [of s res "rq_required_source_generations r"]
    by (auto simp: check_freshness_def stale_for_def split: if_splits option.splits)
next
  assume ok: "\<not> stale_for s r"
  then have "check_freshness s r res = check_sources s res (rq_required_source_generations r)"
    by (auto simp: check_freshness_def stale_for_def split: option.split)
  moreover have "check_sources s res (rq_required_source_generations r) \<noteq> Some early" for early
    using check_sources_Some [of s res "rq_required_source_generations r" early] ok unfolding stale_for_def by blast
  ultimately show "check_freshness s r res = None" by (metis not_Some_eq)
qed

lemma check_freshness_Some:
  "check_freshness s r res = Some early \<Longrightarrow>
     res_candidates early = res_candidates res \<and> res_outcome early = OutIndeterminate \<and> code (res_status early) = Stale"
  by (auto simp: check_freshness_def Failure_def dest: check_sources_Some split: if_splits)

lemma before_search_Some:
  assumes "before_search s r res = Some early"
  shows "res_candidates early = res_candidates res" "res_outcome early \<noteq> OutFeasible" "res_outcome early \<noteq> OutCancelled"
    "res_outcome early = OutRefused \<Longrightarrow> failed (PlanningRequest_Validate r)"
    "res_outcome early = OutInfeasible \<Longrightarrow> s_coverage_complete s \<and> \<not> stale_for s r \<and>
       (FindPort s (rq_source r) = None \<or> FindPort s (rq_destination r) = None)"
  using assms check_freshness_iff [of s r res]
  by (auto simp: before_search_def check_endpoints_def Let_def split: if_splits option.splits dest: check_freshness_Some)

lemma before_search_None:
  assumes "before_search s r res = None"
  shows "\<not> failed (PlanningRequest_Validate r)" "\<not> stale_for s r" "FindPort s (rq_source r) \<noteq> None"
    "FindPort s (rq_destination r) \<noteq> None"
  using assms check_freshness_iff [of s r res]
  by (auto simp: before_search_def check_endpoints_def Let_def split: if_splits option.splits)

lemma classify_fields:
  "res_candidates (classify s r it) = it_accepted it"
  "res_outcome (classify s r it) = OutFeasible \<longleftrightarrow> it_accepted it \<noteq> []"
  "res_outcome (classify s r it) \<noteq> OutRefused" "res_outcome (classify s r it) \<noteq> OutCancelled"
  "res_outcome (classify s r it) = OutInfeasible \<longleftrightarrow> it_accepted it = [] \<and> \<not> it_gap it \<and> \<not> it_truncation it"
  "res_optimality_proven (classify s r it) \<Longrightarrow> it_accepted it \<noteq> [] \<Longrightarrow> it_first_optimum it \<and> s_coverage_complete s"
  by (auto simp: classify_def Let_def split: if_splits)

lemma initial_pass_ok: "pass_ok lm dg s r 0 (initial_pass (new_result dg s r))"
  by (simp add: pass_ok_def initial_pass_def)

lemma Plan_searched:
  assumes "snapshot_wf s" "snapshot_named s" "before_search s r (new_result dg s r) = None"
  shows "case planner_passes lm dg opts s r cancel (if iterative r then rq_max_candidates r else 1) 0
           (initial_pass (new_result dg s r)) of
      Inl res \<Rightarrow> res_candidates res = [] \<and> res_outcome res = OutCancelled
    | Inr it \<Rightarrow> pass_ok lm dg s r (rq_max_candidates r) it"
  by (rule planner_passes_ok [OF assms(1,2) before_search_None(1) [OF assms(3)] before_search_None(3,4) [OF assms(3)] initial_pass_ok])
    (simp add: initial_pass_def)

lemma Plan_result_sound:
  assumes "snapshot_wf s" "snapshot_named s"
  shows "let res = Plan lm dg seal opts s r cancel
    in (res_outcome res = OutFeasible \<longleftrightarrow> res_candidates res \<noteq> []) \<and>
       length (res_candidates res) \<le> rq_max_candidates r \<and>
       (res_candidates res \<noteq> [] \<longrightarrow> \<not> failed (PlanningRequest_Validate r) \<and> \<not> stale_for s r) \<and>
       (\<forall>plan \<in> set (res_candidates res). candidate_ok lm dg s r plan)"
proof (cases "before_search s r (new_result dg s r)")
  case (Some early)
  with before_search_Some [OF Some] show ?thesis by (simp add: Plan_def Let_def)
next
  case None
  from Plan_searched [OF assms None, of lm opts cancel] before_search_None [OF None] show ?thesis
    by (auto simp: Plan_def None Let_def pass_ok_def classify_fields split: sum.splits)
qed

text \<open>
  C1: soundness of a planning result.  Exactly the feasible results carry candidates, at most as many as
  the request asks for, and then the request is valid and the evidence is what it pins.  Every candidate
  is the sealed plan of a connected, port-simple route between the requested ports, within the hop,
  regeneration and cost limits, over arcs the request permits and whose evidence is published.
\<close>

theorem Plan_sound:
  assumes "snapshot_wf s" "snapshot_named s"
  shows "let res = Plan lm dg seal opts s r cancel
    in (res_outcome res = OutFeasible \<longleftrightarrow> res_candidates res \<noteq> []) \<and>
       length (res_candidates res) \<le> rq_max_candidates r \<and>
       (res_candidates res \<noteq> [] \<longrightarrow> \<not> failed (PlanningRequest_Validate r) \<and> \<not> stale_for s r) \<and>
       (\<forall>plan \<in> set (res_candidates res). candidate_ok lm dg s r plan)"
  by (rule Plan_result_sound [OF assms])

text \<open>
  C29: nothing goes missing inside the planner.  Over a well-formed snapshot without unnamed records a
  request is refused only when its own validation fails: the search and the plan builder never fail
  internally.
\<close>

theorem Plan_refuses_only_invalid:
  assumes "snapshot_wf s" "snapshot_named s" "res_outcome (Plan lm dg seal opts s r cancel) = OutRefused"
  shows "failed (PlanningRequest_Validate r)"
proof (cases "before_search s r (new_result dg s r)")
  case (Some early)
  with before_search_Some(4) [OF Some] assms(3) show ?thesis by (simp add: Plan_def)
next
  case None
  from Plan_searched [OF assms(1,2) None, of lm opts cancel] assms(3) show ?thesis
    by (auto simp: Plan_def None classify_fields split: sum.splits)
qed


end
