(* ===== verification/Search_Complete.thy ===== *)
theory Search_Complete
  imports Search_Evidence
begin

text \<open>
  Completeness of the search.  A search that is not truncated, not cancelled and discards no label by
  dominance has represented every route the expansion rules admit that is not worse than what it
  returns: its best path is a best route, and with no path there is no route.
\<close>

section \<open>From chains back to labels\<close>

text \<open>The expansion of a chain without bookkeeping is the expansion the search performs.\<close>

lemma expand_cross_connect_core_back:
  assumes "expand_cross_connect cx 0 (map core path) (core cur) x = ArcPush ns l" "path \<noteq> []"
  shows "\<exists>l'. expand_cross_connect cx i path cur x = ArcPush ns l' \<and> core l' = core l"
proof -
  have checks: "cross_connect_checks cx (map core path) (core cur) x t = cross_connect_checks cx path cur x t" for t
    using assms(2)
    by (simp add: cross_connect_checks_def cross_connect_op_checks_def cost_checks_def
        cross_connect_evidence_checks_def Let_def)
  have label: "core (cross_connect_label cx 0 (core cur) x t b) = core (cross_connect_label cx i cur x t b)" for t b
    by (simp add: cross_connect_label_def Let_def) (simp add: core_def)
  from assms(1) show ?thesis
    by (auto simp: expand_cross_connect_def Let_def checks label split: option.splits prod.splits sum.splits)
qed

lemma expand_span_core_back:
  assumes "expand_span cx 0 (map core path) (core cur) a = ArcPush ns l" "path \<noteq> []"
  shows "\<exists>l'. expand_span cx i path cur a = ArcPush ns l' \<and> core l' = core l"
proof -
  have checks: "span_checks cx (map core path) (core cur) a t = span_checks cx path cur a t" for t
    using assms(2)
    by (simp add: span_checks_def span_entry_checks_def cost_checks_def span_impairment_checks_def
        span_spectrum_checks_def total_checks_def Let_def)
  have label: "core (span_label cx 0 (core cur) a t b) = core (span_label cx i cur a t b)" for t b
    by (simp add: span_label_def Let_def) (simp add: core_def)
  from assms(1) show ?thesis
    by (auto simp: expand_span_def checks label split: option.splits prod.splits sum.splits)
qed

section \<open>Explored states\<close>

abbreviation chain :: "Label list \<Rightarrow> nat \<Rightarrow> Label list" where
  "chain ls i \<equiv> map core (label_path ls i)"

definition has_child :: "Label list \<Rightarrow> nat \<Rightarrow> Label \<Rightarrow> bool" where
  "has_child ls i c \<longleftrightarrow> (\<exists>j < length ls. i < j \<and> l_parent (ls ! j) = Some i \<and> core (ls ! j) = c)"

definition successors_in :: "SearchContext \<Rightarrow> Label list \<Rightarrow> nat \<Rightarrow> bool" where
  "successors_in cx ls i \<longleftrightarrow>
     (\<forall>x \<in> set (OutgoingCrossConnects (cx_snapshot cx) (l_port_index (ls ! i))). \<forall>ns l.
        expand_cross_connect cx 0 (chain ls i) (core (ls ! i)) x = ArcPush ns l \<longrightarrow> has_child ls i (core l)) \<and>
     (\<forall>a \<in> set (OutgoingSpanArcs (cx_snapshot cx) (l_port_index (ls ! i))). \<forall>ns l.
        expand_span cx 0 (chain ls i) (core (ls ! i)) a = ArcPush ns l \<longrightarrow> has_child ls i (core l))"

text \<open>One label stands in for another: it ranks no later, and is proven if the other is.\<close>

definition no_worse :: "Label \<Rightarrow> Label \<Rightarrow> bool" where
  "no_worse a b \<longleftrightarrow> label_rank a \<le> label_rank b \<and> (l_proven b \<longrightarrow> l_proven a)"

lemma no_worse_refl [simp]: "no_worse l l"
  by (simp add: no_worse_def)

lemma no_worse_trans: "no_worse a b \<Longrightarrow> no_worse b c \<Longrightarrow> no_worse a c"
  by (auto simp: no_worse_def)

lemma no_worse_core [simp]: "no_worse (core a) b = no_worse a b" "no_worse a (core b) = no_worse a b"
  by (simp_all add: no_worse_def label_rank_def)

text \<open>
  Every label is expanded or pending; an expanded label away from the destination has all its
  successors, one at the destination is recorded; and every recorded label is matched by a retained
  one that is not worse.
\<close>

definition explored :: "SearchContext \<Rightarrow> nat \<Rightarrow> nat \<Rightarrow> (nat \<Rightarrow> bool) \<Rightarrow> SearchState \<Rightarrow> bool" where
  "explored cx src dst pending s \<longleftrightarrow>
     (let ls = st_labels s
      in ls \<noteq> [] \<and>
         (\<exists>ns proven. run_checks (start_checks cx src) True = (ns, Inr proven) \<and> chain ls 0 = [core (start_label cx src proven)]) \<and>
         (\<forall>i < length ls. \<not> l_expanded (ls ! i) \<longrightarrow> pending i) \<and>
         (\<forall>i < length ls. l_expanded (ls ! i) \<longrightarrow>
            (if l_port_index (ls ! i) = dst then i \<in> set (st_destination_labels s) else successors_in cx ls i)) \<and>
         (\<forall>K. st_last_key s = Some K \<longrightarrow>
            st_destination_labels s \<noteq> [] \<and> label_rank (ls ! last (st_destination_labels s)) = K) \<and>
         (\<forall>(k, b) \<in> set (st_buckets s). \<forall>j \<in> set b. j < length ls \<and> l_port_index (ls ! j) = fst k) \<and>
         (\<forall>i \<in> set (st_destination_labels s). \<exists>j \<in> set (st_destination_labels s).
            l_retained (ls ! j) \<and> no_worse (ls ! j) (ls ! i)))"

definition queued :: "SearchState \<Rightarrow> nat \<Rightarrow> bool" where
  "queued s i \<longleftrightarrow> (\<exists>e \<in> set (st_frontier s). q_label e = i)"

definition beyond :: "SearchState \<Rightarrow> nat \<Rightarrow> bool" where
  "beyond s i \<longleftrightarrow> (\<exists>K. st_last_key s = Some K \<and> K < label_rank (st_labels s ! i))"

lemma exploredD:
  assumes "explored cx src dst pending s"
  shows "st_last_key s = Some K \<Longrightarrow> st_destination_labels s \<noteq> [] \<and> label_rank (st_labels s ! last (st_destination_labels s)) = K"
    "i \<in> set (st_destination_labels s) \<Longrightarrow>
       \<exists>j \<in> set (st_destination_labels s). l_retained (st_labels s ! j) \<and> no_worse (st_labels s ! j) (st_labels s ! i)"
    "i < length (st_labels s) \<Longrightarrow> l_expanded (st_labels s ! i) \<Longrightarrow> l_port_index (st_labels s ! i) = dst \<Longrightarrow>
       i \<in> set (st_destination_labels s)"
  using assms by (simp_all add: explored_def Let_def)

lemma successors_in_same_routes:
  assumes "same_routes ls ls'" "i < length ls" "successors_in cx ls i"
  shows "successors_in cx ls' i"
proof -
  have "chain ls' i = chain ls i" using label_path_same_routes [OF assms(1,2)] by simp
  moreover have "core (ls' ! i) = core (ls ! i)" "length ls' = length ls" using assms by (simp_all add: same_routes_def)
  moreover have "l_port_index (ls' ! i) = l_port_index (ls ! i)" using same_routes_fields [OF assms(1,2)] by simp
  moreover have "has_child ls i c \<Longrightarrow> has_child ls' i c" for c
    using assms(1) by (auto simp: has_child_def same_routes_def)
  ultimately show ?thesis using assms(3) by (simp add: successors_in_def)
qed

lemma successors_in_append:
  assumes "i < length ls" "successors_in cx ls i"
  shows "successors_in cx (ls @ new) i"
proof -
  have "has_child ls i c \<Longrightarrow> has_child (ls @ new) i c" for c
    by (auto simp: has_child_def nth_append intro: trans_less_add1)
  with assms show ?thesis by (simp add: successors_in_def nth_append label_path_grown)
qed

section \<open>Expansion explores\<close>

lemma expand_arcs_grows:
  fixes s :: SearchState and f :: "Label list \<Rightarrow> 'a \<Rightarrow> arc_result"
  assumes new: "\<And>labels a ns l. f labels a = ArcPush ns l \<Longrightarrow> \<not> l_expanded l"
  shows "let s' = expand_arcs limit f as s in grown s s' \<and> (\<forall>j. queued s j \<longrightarrow> queued s' j) \<and>
    (\<forall>j < length (st_labels s'). length (st_labels s) \<le> j \<longrightarrow> \<not> l_expanded (st_labels s' ! j) \<and> queued s' j) \<and>
    st_buckets s' = st_buckets s \<and> st_last_key s' = st_last_key s \<and> st_stopped_on_key s' = st_stopped_on_key s \<and>
    st_destination_labels s' = st_destination_labels s"
  unfolding Let_def
proof (rule expand_arcs_invariant [where I = "\<lambda>s'. grown s s' \<and> (\<forall>j. queued s j \<longrightarrow> queued s' j) \<and>
    (\<forall>j < length (st_labels s'). length (st_labels s) \<le> j \<longrightarrow> \<not> l_expanded (st_labels s' ! j) \<and> queued s' j) \<and>
    st_buckets s' = st_buckets s \<and> st_last_key s' = st_last_key s \<and> st_stopped_on_key s' = st_stopped_on_key s \<and>
    st_destination_labels s' = st_destination_labels s"])
  fix t a ns l
  assume I: "grown s t \<and> (\<forall>j. queued s j \<longrightarrow> queued t j) \<and>
    (\<forall>j < length (st_labels t). length (st_labels s) \<le> j \<longrightarrow> \<not> l_expanded (st_labels t ! j) \<and> queued t j) \<and>
    st_buckets t = st_buckets s \<and> st_last_key t = st_last_key s \<and> st_stopped_on_key t = st_stopped_on_key s \<and>
    st_destination_labels t = st_destination_labels s"
    and "f (st_labels t) a = ArcPush ns l"
  then have l: "\<not> l_expanded l" using new by blast
  have q: "queued (push_label l t) j \<longleftrightarrow> queued t j \<or> j = length (st_labels t)" for j
    by (auto simp: queued_def push_label_def Let_def set_frontier_push)
  show "grown s (push_label l t) \<and> (\<forall>j. queued s j \<longrightarrow> queued (push_label l t) j) \<and>
    (\<forall>j < length (st_labels (push_label l t)). length (st_labels s) \<le> j \<longrightarrow>
       \<not> l_expanded (st_labels (push_label l t) ! j) \<and> queued (push_label l t) j) \<and>
    st_buckets (push_label l t) = st_buckets s \<and> st_last_key (push_label l t) = st_last_key s \<and>
    st_stopped_on_key (push_label l t) = st_stopped_on_key s \<and>
    st_destination_labels (push_label l t) = st_destination_labels s"
    using I l by (auto simp: q nth_append less_Suc_eq intro: grown_push)
qed (auto simp: queued_def)

lemma expand_arcs_dominated [simp]:
  "labels_dominated (st_statistics (expand_arcs limit f as s)) = labels_dominated (st_statistics s)"
  by (induction limit f as s rule: expand_arcs.induct) (simp_all add: Let_def split: arc_result.split)

lemma expand_arcs_truncated_mono: "st_truncated s \<Longrightarrow> st_truncated (expand_arcs limit f as s)"
  by (induction limit f as s rule: expand_arcs.induct) (simp_all add: Let_def split: arc_result.split)

text \<open>Without truncation every arc that yields a label has pushed it.\<close>

lemma expand_arcs_pushes:
  assumes "\<not> st_truncated (expand_arcs limit f as s)" "a \<in> set as" "f (st_labels s) a = ArcPush ns l"
    and same: "\<And>new b. f (st_labels s @ new) b = f (st_labels s) b"
  shows "\<exists>j < length (st_labels (expand_arcs limit f as s)). length (st_labels s) \<le> j \<and>
    (\<exists>n. st_labels (expand_arcs limit f as s) ! j = l\<lparr>l_sequence := n\<rparr>)"
  using assms
proof (induction as arbitrary: s)
  case (Cons b as)
  let ?s = "update_stats (\<lambda>st. st\<lparr>arcs_examined := arcs_examined st + 1\<rparr>) s"
  have grow: "\<exists>new. st_labels (expand_arcs limit f as t) = st_labels t @ new" for t
  proof -
    have "grown t (expand_arcs limit f as t)"
      by (rule expand_arcs_invariant [where I = "grown t"]) (auto intro: grown_push)
    then show ?thesis by (simp add: grown_def)
  qed
  show ?case
  proof (cases "f (st_labels s) b")
    case (ArcCut ms r)
    let ?t = "note_cut r (record_notes ms ?s)"
    have eq: "expand_arcs limit f (b # as) s = expand_arcs limit f as ?t" using ArcCut by (simp add: Let_def)
    have mem: "a \<in> set as" using Cons.prems(2,3) ArcCut by auto
    from Cons.IH [of ?t, OF _ mem] Cons.prems(1,3,4) show ?thesis unfolding eq by simp
  next
    case (ArcPush ms m)
    let ?t = "push_label m (record_notes ms ?s)"
    have eq: "expand_arcs limit f (b # as) s = expand_arcs limit f as ?t"
      using ArcPush Cons.prems(1) by (auto simp: Let_def split: if_splits)
    have f: "f (st_labels ?t @ new) c = f (st_labels s) c" for new c using Cons.prems(4) by simp
    show ?thesis
    proof (cases "a = b")
      case True
      obtain new where "st_labels (expand_arcs limit f as ?t) = st_labels ?t @ new" using grow by blast
      then show ?thesis
        using True ArcPush Cons.prems(3) unfolding eq
        by (intro exI [of _ "length (st_labels s)"]) (auto simp: nth_append)
    next
      case False
      then have mem: "a \<in> set as" using Cons.prems(2) by simp
      have "f (st_labels ?t) a = ArcPush ns l" using f [of "[]"] Cons.prems(3) by simp
      from Cons.IH [of ?t, OF _ mem this] Cons.prems(1) f show ?thesis
        unfolding eq by fastforce
    qed
  qed
qed simp

text \<open>Expanding a label gives it all its successors and keeps what was explored.\<close>

lemma pushed_child:
  assumes "j < length ls" "i < j" "ls ! j = l\<lparr>l_sequence := n\<rparr>" "l_parent l = Some i"
  shows "has_child (ls @ new) i (core l)"
  using assms by (auto simp: has_child_def nth_append intro!: exI [of _ j])

lemma expand_label_explores:
  assumes i: "i < length (st_labels s)" and cont: "expand_label cx i s = (Continue, s')"
  shows "successors_in cx (st_labels s') i \<and> grown s s' \<and> (\<forall>j. queued s j \<longrightarrow> queued s' j) \<and>
    (\<forall>j < length (st_labels s'). length (st_labels s) \<le> j \<longrightarrow> \<not> l_expanded (st_labels s' ! j) \<and> queued s' j) \<and>
    st_buckets s' = st_buckets s \<and> st_last_key s' = st_last_key s \<and> st_stopped_on_key s' = st_stopped_on_key s \<and>
    st_destination_labels s' = st_destination_labels s \<and> \<not> st_truncated s' \<and>
    labels_dominated (st_statistics s') = labels_dominated (st_statistics s)"
proof -
  let ?c = "st_labels s ! i" and ?limit = "cx_label_limit cx"
  let ?xs = "OutgoingCrossConnects (cx_snapshot cx) (l_port_index ?c)"
  let ?as = "OutgoingSpanArcs (cx_snapshot cx) (l_port_index ?c)"
  let ?f = "\<lambda>labels x. expand_cross_connect cx i (label_path labels i) ?c x"
  let ?g = "\<lambda>labels a. expand_span cx i (label_path labels i) ?c a"
  let ?s1 = "expand_arcs ?limit ?f ?xs s"
  have s': "s' = expand_arcs ?limit ?g ?as ?s1" and trunc: "\<not> st_truncated ?s1" "\<not> st_truncated s'"
    using cont by (auto simp: expand_label_def Let_def split: if_splits)
  have newf: "?f labels x = ArcPush ns l \<Longrightarrow> \<not> l_expanded l \<and> l_parent l = Some i" for labels x ns l
    by (drule expand_cross_connect_push) (auto simp: cross_connect_label_def Let_def)
  have newg: "?g labels a = ArcPush ns l \<Longrightarrow> \<not> l_expanded l \<and> l_parent l = Some i" for labels a ns l
    by (drule expand_span_push) (auto simp: span_label_def Let_def)
  note 1 = expand_arcs_grows [of ?f ?limit ?xs s, unfolded Let_def] and 2 = expand_arcs_grows [of ?g ?limit ?as ?s1, unfolded Let_def]
  have g1: "grown s ?s1" and g2: "grown ?s1 s'" using 1 2 newf newg unfolding s' by blast+
  then obtain n1 n2 where n: "st_labels ?s1 = st_labels s @ n1" "st_labels s' = st_labels ?s1 @ n2"
    by (auto simp: grown_def)
  have chain: "chain (st_labels s') i = chain (st_labels s) i" "st_labels s' ! i = ?c"
    using i n by (simp_all add: label_path_grown nth_append)
  have "has_child (st_labels s') i (core l)"
    if h: "x \<in> set ?xs" "expand_cross_connect cx 0 (chain (st_labels s) i) (core ?c) x = ArcPush ns l" for x ns l
  proof -
    obtain l' where l': "?f (st_labels s) x = ArcPush ns l'" "core l' = core l"
      using expand_cross_connect_core_back [OF h(2)] by auto
    from expand_arcs_pushes [OF trunc(1) h(1) l'(1)] i
    obtain j m where "j < length (st_labels ?s1)" "length (st_labels s) \<le> j" "st_labels ?s1 ! j = l'\<lparr>l_sequence := m\<rparr>"
      by (auto simp: label_path_grown)
    then show ?thesis using pushed_child [of j "st_labels ?s1" i m l' n2] newf [OF l'(1)] i l'(2) n(2) by simp
  qed
  moreover have "has_child (st_labels s') i (core l)"
    if h: "a \<in> set ?as" "expand_span cx 0 (chain (st_labels s) i) (core ?c) a = ArcPush ns l" for a ns l
  proof -
    obtain l' where l': "?g (st_labels s) a = ArcPush ns l'" "core l' = core l"
      using expand_span_core_back [OF h(2)] by auto
    have "?g (st_labels ?s1) a = ArcPush ns l'" using l'(1) i n(1) by (simp add: label_path_grown)
    from expand_arcs_pushes [OF trunc(2) [unfolded s'] h(1) this] i n(1)
    obtain j m where "j < length (st_labels s')" "length (st_labels ?s1) \<le> j" "st_labels s' ! j = l'\<lparr>l_sequence := m\<rparr>"
      unfolding s' by (auto simp: label_path_grown)
    then show ?thesis using pushed_child [of j "st_labels s'" i m l' "[]"] newg [OF l'(1)] i l'(2) n(1) by simp
  qed
  ultimately have "successors_in cx (st_labels s') i" by (simp add: successors_in_def chain)
  moreover have "j < length (st_labels s') \<Longrightarrow> length (st_labels s) \<le> j \<Longrightarrow> \<not> l_expanded (st_labels s' ! j) \<and> queued s' j" for j
    using 1 2 newf newg n unfolding s' by (cases "j < length (st_labels ?s1)") (auto simp: nth_append)
  moreover have "grown s s'" using n by (auto simp: grown_def)
  ultimately show ?thesis
    using 1 2 newf newg trunc(2) unfolding s' by auto
qed

section \<open>Settling a label\<close>

lemma prune_bucket_flags:
  assumes "prune_bucket c b ls = (b', ls', d)" "\<forall>j \<in> set b. j < length ls"
  shows "set b' \<subseteq> set b \<and> (\<forall>i. l_expanded (ls' ! i) = l_expanded (ls ! i)) \<and>
    (\<forall>i < length ls. l_retained (ls ! i) \<longrightarrow> l_retained (ls' ! i) \<or> i \<in> set b \<and> Dominates c (ls ! i))"
  using assms
proof (induction b arbitrary: ls b' ls' d)
  case (Cons other rest)
  let ?l = "(ls ! other)\<lparr>l_retained := False\<rparr>"
  have keep: "Dominates c (ls[other := ?l] ! i) = Dominates c (ls ! i)" "l_expanded (ls[other := ?l] ! i) = l_expanded (ls ! i)" for i
    using Cons.prems(2) by (auto simp: nth_list_update Dominates_def)
  show ?case
  proof (cases "l_retained (ls ! other) \<and> \<not> Dominates (ls ! other) c \<and> Dominates c (ls ! other)")
    case True
    with Cons.prems(1) have rec: "prune_bucket c rest (ls[other := ?l]) = (b', ls', d)" by simp
    have bound: "\<forall>j \<in> set rest. j < length (ls[other := ?l])" using Cons.prems(2) by simp
    note IH = Cons.IH [OF rec bound]
    have "l_retained (ls' ! i) \<or> i \<in> set (other # rest) \<and> Dominates c (ls ! i)"
      if "i < length ls" "l_retained (ls ! i)" for i
      using IH that True keep(1) by (cases "i = other") (auto simp: nth_list_update)
    then show ?thesis using IH keep(2) by auto
  next
    case False
    obtain b1 ls1 d1 where rec: "prune_bucket c rest ls = (b1, ls1, d1)" by (metis prod_cases3)
    have bound: "\<forall>j \<in> set rest. j < length ls" using Cons.prems(2) by simp
    have eq: "ls' = ls1" "set b' \<subseteq> insert other (set b1)" using Cons.prems(1) False rec by (auto split: if_splits)
    note IH = Cons.IH [OF rec bound]
    from IH eq(2) have "set b' \<subseteq> set (other # rest)" by auto
    moreover from IH have "\<forall>i < length ls. l_retained (ls ! i) \<longrightarrow>
        l_retained (ls1 ! i) \<or> i \<in> set (other # rest) \<and> Dominates c (ls ! i)" by simp blast
    ultimately show ?thesis using IH eq(1) by blast
  qed
qed simp

lemma set_update_bucket:
  "(k, b) \<in> set (AList.update key v bs) \<Longrightarrow> (k, b) \<in> set bs \<or> (k, b) = (key, v)"
  by (induction bs) (auto split: if_splits)

lemma bucket_of_in: "bucket_of s key = b \<Longrightarrow> b = [] \<or> (key, b) \<in> set (st_buckets s)"
  by (auto simp: bucket_of_def split: option.splits dest: map_of_SomeD)

lemma Dominates_no_worse: "Dominates a b \<Longrightarrow> no_worse a b"
proof -
  assume "Dominates a b"
  then have "l_cost a \<le> l_cost b" "l_hops a \<le> l_hops b" "l_regenerations a \<le> l_regenerations b"
    "l_proven b \<Longrightarrow> l_proven a"
    by (auto simp: Dominates_def split: if_splits)
  then show ?thesis by (simp add: no_worse_def label_rank_def less_eq_prod_def)
qed

text \<open>The state in which the popped label is settled, before it is recorded or expanded.\<close>

definition settled_state :: "nat \<Rightarrow> QueueEntry list \<Rightarrow> nat list \<Rightarrow> Label list \<Rightarrow> SearchState \<Rightarrow> SearchState" where
  "settled_state i q b ls s =
     (let c = st_labels s ! i; key = (l_port_index c, l_profile_index c)
      in mark_settled i b (s\<lparr>st_frontier := q, st_labels := ls, st_buckets := AList.update key b (st_buckets s)\<rparr>))"

lemma settled_state_fields:
  assumes "same_routes (st_labels s) ls" "i < length ls"
  shows "same_routes (st_labels s) (st_labels (settled_state i q b ls s))"
    "st_labels (settled_state i q b ls s) = ls[i := (ls ! i)\<lparr>l_retained := True, l_expanded := True\<rparr>]"
    "st_frontier (settled_state i q b ls s) = q"
    "st_destination_labels (settled_state i q b ls s) = st_destination_labels s"
    "st_last_key (settled_state i q b ls s) = st_last_key s"
    "st_truncated (settled_state i q b ls s) = st_truncated s"
    "st_stopped_on_key (settled_state i q b ls s) = st_stopped_on_key s"
    "labels_dominated (st_statistics (settled_state i q b ls s)) = labels_dominated (st_statistics s)"
    "set (st_buckets (settled_state i q b ls s)) \<subseteq>
       set (st_buckets s) \<union> (\<lambda>b. ((l_port_index (st_labels s ! i), l_profile_index (st_labels s ! i)), b)) ` {b, b @ [i]}"
proof -
  have i: "i < length (st_labels s)" using assms by (simp add: same_routes_def)
  note f = same_routes_fields [OF assms(1) i]
  have "same_routes ls (ls[i := (ls ! i)\<lparr>l_retained := True, l_expanded := True\<rparr>])" by (rule same_routes_update) simp_all
  from same_routes_trans [OF assms(1) this] show "same_routes (st_labels s) (st_labels (settled_state i q b ls s))"
    by (simp add: settled_state_def Let_def)
  show "set (st_buckets (settled_state i q b ls s)) \<subseteq>
       set (st_buckets s) \<union> (\<lambda>b. ((l_port_index (st_labels s ! i), l_profile_index (st_labels s ! i)), b)) ` {b, b @ [i]}"
    by (auto simp: settled_state_def mark_settled_def Let_def f dest!: set_update_bucket)
qed (simp_all add: settled_state_def mark_settled_def Let_def)

lemma settled_state_explored:
  assumes ex: "explored cx src dst (queued s) s" and e: "st_frontier s = e # q" "q_label e = i"
    and i: "i < length (st_labels s)" and dest: "\<forall>j \<in> set (st_destination_labels s). j < length (st_labels s) \<and> l_port_index (st_labels s ! j) = dst"
    and p: "prune_bucket (st_labels s ! i) (bucket_of s (l_port_index (st_labels s ! i), l_profile_index (st_labels s ! i)))
      (st_labels s) = (b, ls, False)"
  defines "t \<equiv> settled_state i q b ls s"
  defines "D \<equiv> set (st_destination_labels s) \<union> (if l_port_index (st_labels s ! i) = dst then {i} else {})"
  shows "st_labels t \<noteq> []"
    "\<exists>ns proven. run_checks (start_checks cx src) True = (ns, Inr proven) \<and> chain (st_labels t) 0 = [core (start_label cx src proven)]"
    "j < length (st_labels t) \<Longrightarrow> \<not> l_expanded (st_labels t ! j) \<Longrightarrow> queued t j"
    "j < length (st_labels t) \<Longrightarrow> l_expanded (st_labels t ! j) \<Longrightarrow> j \<noteq> i \<Longrightarrow>
       if l_port_index (st_labels t ! j) = dst then j \<in> set (st_destination_labels s) else successors_in cx (st_labels t) j"
    "st_last_key t = Some K \<Longrightarrow> st_destination_labels s \<noteq> [] \<and> label_rank (st_labels t ! last (st_destination_labels s)) = K"
    "(k, c) \<in> set (st_buckets t) \<Longrightarrow> j \<in> set c \<Longrightarrow> j < length (st_labels t) \<and> l_port_index (st_labels t ! j) = fst k"
    "j \<in> D \<Longrightarrow> \<exists>m \<in> D. l_retained (st_labels t ! m) \<and> no_worse (st_labels t ! m) (st_labels t ! j)"
    "same_routes (st_labels s) (st_labels t)" "l_port_index (st_labels t ! i) = l_port_index (st_labels s ! i)"
proof -
  let ?c = "st_labels s ! i" and ?key = "(l_port_index (st_labels s ! i), l_profile_index (st_labels s ! i))"
  have same0: "same_routes (st_labels s) ls" by (rule prune_bucket_same_routes [OF p])
  then have len: "length ls = length (st_labels s)" by (simp add: same_routes_def)
  have i': "i < length ls" using i len by simp
  note t = settled_state_fields [OF same0 i', of q b, folded t_def]
  have fields: "l_port_index (st_labels t ! j) = l_port_index (st_labels s ! j)"
    "label_rank (st_labels t ! j) = label_rank (st_labels s ! j)" if "j < length (st_labels s)" for j
    using same_routes_fields [OF t(1) that] by (simp_all add: label_rank_def)
  have nw: "no_worse (st_labels t ! j) (st_labels t ! m) = no_worse (st_labels s ! j) (st_labels s ! m)"
    if "j < length (st_labels s)" "m < length (st_labels s)" for j m
    using t(1) that unfolding same_routes_def by (metis no_worse_core)
  have bucket: "\<forall>j \<in> set (bucket_of s ?key). j < length (st_labels s) \<and> l_port_index (st_labels s ! j) = l_port_index ?c"
    using bucket_of_in [of s ?key] ex by (fastforce simp: explored_def Let_def)
  then have inb: "\<forall>j \<in> set (bucket_of s ?key). j < length (st_labels s)" by blast
  note flags = prune_bucket_flags [OF p inb]
  have len': "length (st_labels t) = length (st_labels s)" using t(2) len by simp
  show "same_routes (st_labels s) (st_labels t)" by (rule t(1))
  show "l_port_index (st_labels t ! i) = l_port_index (st_labels s ! i)" using fields i by simp
  show "st_labels t \<noteq> []" using i len' by auto
  show "\<exists>ns proven. run_checks (start_checks cx src) True = (ns, Inr proven) \<and> chain (st_labels t) 0 = [core (start_label cx src proven)]"
    using ex label_path_same_routes [OF t(1), of 0] by (simp add: explored_def Let_def)
  have exp: "l_expanded (st_labels t ! j) \<longleftrightarrow> j = i \<or> l_expanded (st_labels s ! j)" for j
    using flags i' by (cases "j = i") (simp_all add: t(2))
  show "queued t j" if "j < length (st_labels t)" "\<not> l_expanded (st_labels t ! j)" for j
  proof -
    have "queued s j" "j \<noteq> i" using that ex exp len' by (auto simp: explored_def Let_def)
    then show ?thesis using e by (auto simp: queued_def t(3))
  qed
  show "if l_port_index (st_labels t ! j) = dst then j \<in> set (st_destination_labels s) else successors_in cx (st_labels t) j"
    if "j < length (st_labels t)" "l_expanded (st_labels t ! j)" "j \<noteq> i" for j
    using that ex exp len' fields successors_in_same_routes [OF t(1)] by (auto simp: explored_def Let_def)
  show "st_destination_labels s \<noteq> [] \<and> label_rank (st_labels t ! last (st_destination_labels s)) = K"
    if "st_last_key t = Some K" for K
    using that ex dest fields by (auto simp: explored_def Let_def t(5))
  show "j < length (st_labels t) \<and> l_port_index (st_labels t ! j) = fst k" if "(k, c) \<in> set (st_buckets t)" "j \<in> set c" for k c j
  proof -
    from that t(9) consider "(k, c) \<in> set (st_buckets s)" | "k = ?key" "set c \<subseteq> insert i (set b)" by fastforce
    then have "j < length (st_labels s) \<and> l_port_index (st_labels s ! j) = fst k"
    proof cases
      case 1
      with ex that(2) show ?thesis by (fastforce simp: explored_def Let_def)
    next
      case 2
      with that(2) flags bucket i show ?thesis by (cases "j = i") auto
    qed
    then show ?thesis using fields len' by simp
  qed
  show "\<exists>m \<in> D. l_retained (st_labels t ! m) \<and> no_worse (st_labels t ! m) (st_labels t ! j)" if "j \<in> D" for j
  proof (cases "j = i")
    case True
    then show ?thesis using that i' by (intro bexI [of _ i]) (simp_all add: t(2))
  next
    case False
    with that have j: "j \<in> set (st_destination_labels s)" by (auto simp: D_def split: if_splits)
    then obtain m where m: "m \<in> set (st_destination_labels s)" "l_retained (st_labels s ! m)"
      "no_worse (st_labels s ! m) (st_labels s ! j)"
      using exploredD(2) [OF ex] by blast
    show ?thesis
    proof (cases "l_retained (ls ! m)")
      case True
      then have "l_retained (st_labels t ! m)" using i' by (cases "m = i") (simp_all add: t(2))
      then show ?thesis using m dest nw j by (intro bexI [of _ m]) (auto simp: D_def)
    next
      case False
      with flags m dest have dom: "m \<in> set (bucket_of s ?key)" "Dominates ?c (st_labels s ! m)" by blast+
      then have "l_port_index ?c = dst" using bucket dest m(1) by metis
      moreover have "no_worse ?c (st_labels s ! j)" using Dominates_no_worse [OF dom(2)] m(3) by (rule no_worse_trans)
      moreover have "l_retained (st_labels t ! i)" using i' by (simp add: t(2))
      ultimately show ?thesis using nw i dest j by (intro bexI [of _ i]) (auto simp: D_def)
    qed
  qed
qed

lemma destination_explored:
  assumes ex: "explored cx src dst (queued s) s" and e: "st_frontier s = e # q" "q_label e = i"
    and i: "i < length (st_labels s)" and dest: "\<forall>j \<in> set (st_destination_labels s). j < length (st_labels s) \<and> l_port_index (st_labels s ! j) = dst"
    and p: "prune_bucket (st_labels s ! i) (bucket_of s (l_port_index (st_labels s ! i), l_profile_index (st_labels s ! i)))
      (st_labels s) = (b, ls, False)"
    and port: "l_port_index (st_labels s ! i) = dst"
  shows "explored cx src dst (queued (note_destination i (settled_state i q b ls s))) (note_destination i (settled_state i q b ls s))"
proof -
  let ?t = "settled_state i q b ls s"
  note t = settled_state_explored [OF ex e i dest p]
  have fields: "st_destination_labels ?t = st_destination_labels s" "st_buckets (note_destination i ?t) = st_buckets ?t"
    "st_last_key (note_destination i ?t) = Some (label_rank (st_labels ?t ! i))"
    by (simp_all add: settled_state_def note_destination_def label_rank_def Let_def)
  have q: "queued (note_destination i ?t) = queued ?t" by (simp add: queued_def fun_eq_iff)
  show ?thesis
    unfolding explored_def Let_def q note_destination_frame fields
  proof (intro conjI allI impI ballI)
    fix j assume "j < length (st_labels ?t)" "l_expanded (st_labels ?t ! j)"
    with t(4) [of j] show "if l_port_index (st_labels ?t ! j) = dst then j \<in> set (st_destination_labels s @ [i]) else successors_in cx (st_labels ?t) j"
      by (cases "j = i") (use port t(9) in auto)
  qed (use t port in auto)
qed

lemma expansion_explored:
  assumes ex: "explored cx src dst (queued s) s" and e: "st_frontier s = e # q" "q_label e = i"
    and i: "i < length (st_labels s)" and dest: "\<forall>j \<in> set (st_destination_labels s). j < length (st_labels s) \<and> l_port_index (st_labels s ! j) = dst"
    and p: "prune_bucket (st_labels s ! i) (bucket_of s (l_port_index (st_labels s ! i), l_profile_index (st_labels s ! i)))
      (st_labels s) = (b, ls, False)"
    and port: "l_port_index (st_labels s ! i) \<noteq> dst"
    and step: "expand_label cx i (settled_state i q b ls s) = (Continue, s')"
  shows "explored cx src dst (queued s') s'"
proof -
  let ?t = "settled_state i q b ls s"
  note t = settled_state_explored [OF ex e i dest p]
  have len: "length (st_labels ?t) = length (st_labels s)" using t(8) by (simp add: same_routes_def)
  have D: "st_destination_labels ?t = st_destination_labels s" by (simp add: settled_state_def Let_def)
  have it: "i < length (st_labels ?t)" using i len by simp
  note x = expand_label_explores [OF it step]
  then obtain new where new: "st_labels s' = st_labels ?t @ new" by (auto simp: grown_def)
  have old: "st_labels s' ! j = st_labels ?t ! j" if "j < length (st_labels ?t)" for j using that new by (simp add: nth_append)
  have dest': "j < length (st_labels ?t)" if "j \<in> set (st_destination_labels s)" for j using dest that len by simp
  show ?thesis
    unfolding explored_def Let_def
  proof (intro conjI allI impI ballI)
    show "st_labels s' \<noteq> []" using t(1) new by simp
    show "\<exists>ns proven. run_checks (start_checks cx src) True = (ns, Inr proven) \<and> chain (st_labels s') 0 = [core (start_label cx src proven)]"
      using t(1,2) new by (simp add: label_path_grown)
  next
    fix j assume j: "j < length (st_labels s')" "\<not> l_expanded (st_labels s' ! j)"
    then show "queued s' j" using x t(3) [of j] old by (cases "j < length (st_labels ?t)") auto
  next
    fix j assume j: "j < length (st_labels s')" "l_expanded (st_labels s' ! j)"
    then have jt: "j < length (st_labels ?t)" using x by force
    show "if l_port_index (st_labels s' ! j) = dst then j \<in> set (st_destination_labels s') else successors_in cx (st_labels s') j"
    proof (cases "j = i")
      case True
      then show ?thesis using x port t(9) old [OF it] by simp
    next
      case False
      then show ?thesis using t(4) [OF jt] j(2) x D successors_in_append [OF jt, of cx new] by (simp add: old [OF jt] new nth_append jt)
    qed
  next
    fix K assume "st_last_key s' = Some K"
    then have K: "st_destination_labels s \<noteq> []" "label_rank (st_labels ?t ! last (st_destination_labels s)) = K" using x t(5) by auto
    then show "st_destination_labels s' \<noteq> []" "label_rank (st_labels s' ! last (st_destination_labels s')) = K"
      using x D old [OF dest' [OF last_in_set [OF K(1)]]] by auto
  next
    fix kb assume kb: "kb \<in> set (st_buckets s')"
    obtain k c where k: "kb = (k, c)" by fastforce
    have mem: "(k, c) \<in> set (st_buckets ?t)" using kb k x by simp
    have "j < length (st_labels s') \<and> l_port_index (st_labels s' ! j) = fst k" if "j \<in> set c" for j
      using t(6) [OF mem that] old [of j] new by simp
    then show "case kb of (k, b) \<Rightarrow> \<forall>j \<in> set b. j < length (st_labels s') \<and> l_port_index (st_labels s' ! j) = fst k"
      using k by simp
  next
    fix j assume "j \<in> set (st_destination_labels s')"
    then have j: "j \<in> set (st_destination_labels s)" using x D by simp
    then obtain m where "m \<in> set (st_destination_labels s)" "l_retained (st_labels ?t ! m)"
      "no_worse (st_labels ?t ! m) (st_labels ?t ! j)"
      using t(7) [of j] port by auto
    then show "\<exists>m \<in> set (st_destination_labels s'). l_retained (st_labels s' ! m) \<and> no_worse (st_labels s' ! m) (st_labels s' ! j)"
      using x D old dest' j by auto
  qed
qed

section \<open>The loop\<close>

abbreviation dominated_count :: "SearchState \<Rightarrow> nat" where
  "dominated_count s \<equiv> labels_dominated (st_statistics s)"

lemma explored_cong:
  assumes "explored cx src dst pending s" "\<And>i. i < length (st_labels s) \<Longrightarrow> \<not> l_expanded (st_labels s ! i) \<Longrightarrow> pending i \<Longrightarrow> pending' i"
    "st_labels s' = st_labels s" "st_destination_labels s' = st_destination_labels s" "st_last_key s' = st_last_key s"
    "st_buckets s' = st_buckets s"
  shows "explored cx src dst pending' s'"
  using assms by (simp add: explored_def Let_def)

lemma expand_label_dominated [simp]: "dominated_count (snd (expand_label cx i s)) = dominated_count s"
  by (simp add: expand_label_def Let_def)

lemma settle_label_settled_state:
  "settle_label cx dst i b (s\<lparr>st_frontier := q, st_labels := ls,
       st_buckets := AList.update (l_port_index (st_labels s ! i), l_profile_index (st_labels s ! i)) b (st_buckets s)\<rparr>) =
     (let t = settled_state i q b ls s
      in if l_port_index (st_labels t ! i) = dst then (Continue, note_destination i t) else expand_label cx i t)"
  by (simp add: settle_label_def settled_state_def Let_def)

lemma settled_state_dominated [simp]: "dominated_count (settled_state i q b ls s) = dominated_count s"
  by (simp add: settled_state_def mark_settled_def Let_def)

text \<open>One iteration either goes on with an explored state, or ends truncated, or past the last key.\<close>

lemma search_step_explored:
  assumes ok: "search_ok cx src dst s" and ex: "explored cx src dst (queued s) s" and ne: "st_frontier s \<noteq> []"
    and step: "search_step cx dst s = (f, s')" and dom: "dominated_count s' = 0"
  shows "case f of Continue \<Rightarrow> explored cx src dst (queued s') s' | Break \<Rightarrow> st_truncated s' \<or> explored cx src dst (beyond s') s'"
proof (cases "labels_expanded (st_statistics s) \<ge> cx_expansion_limit cx")
  case True
  with step show ?thesis by (auto simp: search_step_def)
next
  case False
  obtain e q where q: "st_frontier s = e # q" using ne by (cases "st_frontier s") auto
  let ?i = "q_label e" and ?s = "s\<lparr>st_frontier := q\<rparr>"
  let ?key = "(l_port_index (st_labels s ! ?i), l_profile_index (st_labels s ! ?i))"
  have e: "entry_ok (st_labels s) e" "\<forall>e' \<in> set q. \<not> queue_before e' e" "\<forall>e' \<in> set q. entry_ok (st_labels s) e'"
    and dest: "\<forall>j \<in> set (st_destination_labels s). j < length (st_labels s) \<and> l_port_index (st_labels s ! j) = dst"
    using ok q by (auto simp: search_ok_def frontier_sorted_def)
  have i: "?i < length (st_labels s)" using e(1) by (simp add: entry_ok_def)
  have pe: "process_entry cx dst e ?s = (f, s')" using step False q by (simp add: search_step_def)
  have rank: "entry_rank e' = label_rank (st_labels s ! q_label e')" if "entry_ok (st_labels s) e'" for e'
    using that by (simp add: entry_ok_def entry_rank_def label_rank_def)
  obtain b ls d where p: "prune_bucket (st_labels s ! ?i) (bucket_of s ?key) (st_labels s) = (b, ls, d)" by (metis prod_cases3)
  have bo: "bucket_of ?s ?key = bucket_of s ?key" by (simp add: bucket_of_def)
  consider "l_expanded (st_labels s ! ?i)" | "\<not> l_expanded (st_labels s ! ?i)" "past_last_key cx e ?s"
    | "\<not> l_expanded (st_labels s ! ?i)" "\<not> past_last_key cx e ?s" by blast
  then show ?thesis
  proof cases
    case 1
    with pe have s': "f = Continue" "s' = ?s" by (auto simp: process_entry_def Let_def)
    have "explored cx src dst (queued s') s'"
      by (rule explored_cong [OF ex]) (use 1 q s' in \<open>auto simp: queued_def\<close>)
    then show ?thesis using s' by simp
  next
    case 2
    with pe have s': "f = Break" "s' = ?s\<lparr>st_stopped_on_key := True\<rparr>" by (auto simp: process_entry_def Let_def)
    obtain K where K: "st_last_key s = Some K" "K < entry_rank e"
      using 2(2) by (auto simp: past_last_key_def KeyLess_rank entry_rank_def split: option.splits)
    have "K < label_rank (st_labels s ! j)" if h: "queued s j" for j
    proof -
      obtain e' where e': "e' \<in> set (e # q)" "q_label e' = j" using h q by (auto simp: queued_def)
      have "entry_rank e \<le> entry_rank e'" using e' e(2) queue_before_rank by auto
      then show ?thesis using K(2) rank [of e'] e e' by auto
    qed
    then have "explored cx src dst (beyond s') s'"
      by (intro explored_cong [OF ex]) (use K s' in \<open>auto simp: beyond_def\<close>)
    then show ?thesis using s' by simp
  next
    case 3
    have nd: "\<not> d" using 3 pe p dom bo by (auto simp: process_entry_def Let_def)
    have s': "(let t = settled_state ?i q b ls s
        in if l_port_index (st_labels t ! ?i) = dst then (Continue, note_destination ?i t) else expand_label cx ?i t) = (f, s')"
      using pe 3 p bo nd by (simp add: process_entry_def Let_def settle_label_settled_state)
    have p': "prune_bucket (st_labels s ! ?i) (bucket_of s ?key) (st_labels s) = (b, ls, False)" using p nd by simp
    note port = settled_state_explored(9) [OF ex q refl i dest p']
    show ?thesis
    proof (cases "l_port_index (st_labels s ! ?i) = dst")
      case True
      then show ?thesis using destination_explored [OF ex q refl i dest p'] s' port by (auto simp: Let_def)
    next
      case away: False
      show ?thesis
      proof (cases f)
        case Continue
        then show ?thesis using expansion_explored [OF ex q refl i dest p' away] s' port away by (simp add: Let_def)
      next
        case Break
        then show ?thesis using s' port away by (auto simp: Let_def expand_label_def split: if_splits)
      qed
    qed
  qed
qed

lemma search_step_dominated_mono: "dominated_count s \<le> dominated_count (snd (search_step cx dst s))"
proof -
  have settle: "dominated_count (snd (settle_label cx dst i b s)) = dominated_count s" for i b s
    by (simp add: settle_label_def Let_def) (simp add: mark_settled_def Let_def)
  have "dominated_count s \<le> dominated_count (snd (process_entry cx dst e s))" for e s
    by (auto simp: process_entry_def Let_def settle split: prod.splits)
  from this [of "s\<lparr>st_frontier := _\<rparr>"] show ?thesis by (simp add: search_step_def split: option.split)
qed

lemma search_loop_explored:
  assumes "search_ok cx src dst s" "dominated_count s = 0 \<longrightarrow> explored cx src dst (queued s) s"
    and "search_loop cx dst cancel k s = (False, s')"
  shows "search_ok cx src dst s' \<and> (dominated_count s' = 0 \<and> \<not> st_truncated s' \<longrightarrow> explored cx src dst (beyond s') s')"
  using assms
proof (induction cx dst cancel k s rule: search_loop.induct)
  case (1 cx dst cancel k s)
  show ?case
  proof (cases "st_frontier s = []")
    case True
    with 1(4) have "s' = s" by (subst (asm) search_loop.simps) simp
    with 1(2,3) True show ?thesis by (auto intro: explored_cong simp: queued_def)
  next
    case False
    obtain f t where step: "search_step cx dst s = (f, t)" by fastforce
    have nc: "\<not> cancel k" using 1(4) False by (subst (asm) search_loop.simps) (auto split: if_splits)
    have okt: "search_ok cx src dst t" using search_step_ok [OF 1(2)] step by (metis snd_conv)
    have mono: "dominated_count s \<le> dominated_count t" using search_step_dominated_mono [of s cx dst] step by simp
    have ext: "dominated_count t = 0 \<Longrightarrow>
        case f of Continue \<Rightarrow> explored cx src dst (queued t) t | Break \<Rightarrow> st_truncated t \<or> explored cx src dst (beyond t) t"
      using search_step_explored [OF 1(2) _ False step] 1(3) mono by simp
    show ?thesis
    proof (cases f)
      case Break
      then have "s' = t" using 1(4) False nc step by (subst (asm) search_loop.simps) simp
      then show ?thesis using okt ext Break by auto
    next
      case Continue
      then have loop: "search_loop cx dst cancel (Suc k) t = (False, s')"
        using 1(4) False nc step by (subst (asm) search_loop.simps) simp
      then show ?thesis
        using 1(1) [OF False nc step [symmetric] Continue okt _ loop] ext Continue by simp
    qed
  qed
qed

section \<open>Completeness\<close>

lemma initial_explored:
  assumes "run_checks (start_checks cx src) True = (ns, Inr proven)"
  shows "explored cx src dst (queued (initial_state cx src ns proven)) (initial_state cx src ns proven)"
proof -
  let ?l = "(start_label cx src proven)\<lparr>l_sequence := 0\<rparr>"
  have seq: "st_sequence (record_notes ns t) = st_sequence t" for t :: SearchState
    by (induction ns arbitrary: t) (simp_all add: record_notes_def record_note_def)
  have ls: "st_labels (initial_state cx src ns proven) = [?l]" by (simp add: initial_state_def seq)
  have par: "l_parent ?l = None" "\<not> l_expanded ?l" by (simp_all add: start_label_def Let_def)
  have "chain [?l] 0 = [core (start_label cx src proven)]" using par by (subst label_path.simps) simp
  moreover have "queued (initial_state cx src ns proven) 0"
    by (auto simp: queued_def initial_state_def push_label_def Let_def set_frontier_push)
  moreover have "st_buckets (initial_state cx src ns proven) = []" "st_last_key (initial_state cx src ns proven) = None"
    "st_destination_labels (initial_state cx src ns proven) = []"
    by (simp_all add: initial_state_def)
  ultimately show ?thesis using assms par by (auto simp: explored_def Let_def ls)
qed

text \<open>Every route is represented by an expanded label, or is worse than the last destination label.\<close>

lemma route_represented:
  assumes ex: "explored cx src dst (beyond s) s" and "route cx src (l # path)"
  shows "dst \<in> l_port_index ` set path \<or> (\<exists>K. st_last_key s = Some K \<and> K < label_rank l) \<or>
    (\<exists>i < length (st_labels s). l_expanded (st_labels s ! i) \<and> chain (st_labels s) i = l # path)"
proof -
  let ?ls = "st_labels s"
  have settled: "(\<exists>K. st_last_key s = Some K \<and> K < label_rank l) \<or>
      (\<exists>i < length ?ls. l_expanded (?ls ! i) \<and> chain ?ls i = l # path)"
    if h: "i < length ?ls" "chain ?ls i = l # path" for i l path
  proof (cases "l_expanded (?ls ! i)")
    case False
    have "core (?ls ! i) = l" using h(2) by (subst (asm) label_path.simps) simp
    then have "label_rank (?ls ! i) = label_rank l" by (auto simp: label_rank_def)
    with False h(1) ex show ?thesis by (auto simp: explored_def beyond_def Let_def)
  qed (use h in auto)
  have child: "\<exists>j < length ?ls. chain ?ls j = c # chain ?ls i" if h: "has_child ?ls i c" for i c
  proof -
    obtain j where "j < length ?ls" "i < j" "l_parent (?ls ! j) = Some i" "core (?ls ! j) = c"
      using h by (auto simp: has_child_def)
    then show ?thesis by (intro exI [of _ j]) (simp add: label_path.simps [of ?ls j])
  qed
  have succ: "(\<exists>K. st_last_key s = Some K \<and> K < label_rank (core l')) \<or>
      (\<exists>i < length ?ls. l_expanded (?ls ! i) \<and> chain ?ls i = core l' # l # rest)"
    if h: "i < length ?ls" "chain ?ls i = l # rest" "has_child ?ls i (core l')" for i l rest l'
    using child [OF h(3)] settled [of _ "core l'" "l # rest"] h(2) by metis
  have kept: "successors_in cx ?ls i \<and> core (?ls ! i) = l"
    if h: "i < length ?ls" "l_expanded (?ls ! i)" "chain ?ls i = l # rest" "l_port_index l \<noteq> dst" for i l rest
  proof -
    have "core (?ls ! i) = l" using h(3) by (subst (asm) label_path.simps) simp
    then show ?thesis using h ex by (auto simp: explored_def Let_def)
  qed
  have worse: "K < label_rank (core l')" if "K < label_rank l" "label_rank l \<le> label_rank l'" for K l l'
  proof -
    have "label_rank (core l') = label_rank l'" by (simp add: label_rank_def)
    then show ?thesis using that by (metis less_le_trans)
  qed
  have passes: "l_port_index l = dst \<or> dst \<in> l_port_index ` set rest \<Longrightarrow> dst \<in> l_port_index ` set (l # rest)" for l rest
    by auto
  show ?thesis
    using assms(2) refl
  proof (induction rule: route_induct)
    case (start ns proven)
    obtain ns' proven' where "run_checks (start_checks cx src) True = (ns', Inr proven')" "?ls \<noteq> []"
      "chain ?ls 0 = [core (start_label cx src proven')]"
      using ex by (auto simp: explored_def Let_def)
    with start settled [of 0] show ?case by simp
  next
    case (cross_connect l rest x ns l')
    note rank = expand_cross_connect_rank [OF cross_connect.hyps(3)]
    show ?case
      using cross_connect.IH
    proof (elim disjE exE conjE)
      fix K assume "st_last_key s = Some K" "K < label_rank l"
      then show ?thesis using worse [OF _ rank] by blast
    next
      fix i assume i: "i < length ?ls" "l_expanded (?ls ! i)" "chain ?ls i = l # rest"
      show ?thesis
      proof (cases "l_port_index l = dst")
        case False
        from kept [OF i False] cross_connect.hyps i have "has_child ?ls i (core l')" by (auto simp: successors_in_def)
        from succ [OF i(1,3) this] show ?thesis by (rule disjI2)
      qed (use passes in blast)
    qed (use passes in blast)
  next
    case (span_arc l rest a ns l')
    note rank = expand_span_rank [OF span_arc.hyps(3)]
    show ?case
      using span_arc.IH
    proof (elim disjE exE conjE)
      fix K assume "st_last_key s = Some K" "K < label_rank l"
      then show ?thesis using worse [OF _ rank] by blast
    next
      fix i assume i: "i < length ?ls" "l_expanded (?ls ! i)" "chain ?ls i = l # rest"
      show ?thesis
      proof (cases "l_port_index l = dst")
        case False
        from kept [OF i False] span_arc.hyps i have "has_child ?ls i (core l')" by (auto simp: successors_in_def)
        from succ [OF i(1,3) this] show ?thesis by (rule disjI2)
      qed (use passes in blast)
    qed (use passes in blast)
  qed
qed

lemma search_complete:
  assumes wf: "snapshot_wf s"
    and idx: "PortIndex s (rq_source r) = Some src" "PortIndex s (rq_destination r) = Some dst"
    and out: "\<not> failed (so_status (RunSearch lm s r opts cancel))"
      "\<not> stat_truncated (so_statistics (RunSearch lm s r opts cancel))"
      "labels_dominated (so_statistics (RunSearch lm s r opts cancel)) = 0"
    and route: "route (search_context lm s r opts) src (l # path)" "l_port_index l = dst"
  defines "paths \<equiv> set (so_paths (RunSearch lm s r opts cancel))"
  shows "(\<exists>p \<in> paths. path_rank p \<le> label_rank l) \<and>
    (l_proven l \<and> (\<exists>q \<in> paths. rp_proven q) \<longrightarrow> (\<exists>p \<in> paths. rp_proven p \<and> path_rank p \<le> label_rank l))"
proof -
  let ?cx = "search_context lm s r opts"
  have src: "src < length (s_ports s)" using PortIndex_key [OF wf idx(1)] by simp
  from route(1) have "\<exists>ns proven. run_checks (start_checks ?cx src) True = (ns, Inr proven)"
    by (induction rule: route.induct) auto
  then obtain ns proven where start: "run_checks (start_checks ?cx src) True = (ns, Inr proven)" by blast
  obtain c st where loop: "search_loop ?cx dst cancel 0 (initial_state ?cx src ns proven) = (c, st)" by fastforce
  have "\<not> c" using out(1) by (auto simp: RunSearch_def Let_def idx start loop failed_def Failure_def)
  then have outcome: "RunSearch lm s r opts cancel = finish_search ?cx st" and
    loop': "search_loop ?cx dst cancel 0 (initial_state ?cx src ns proven) = (False, st)"
    using loop by (simp_all add: RunSearch_def Let_def idx start)
  have "\<not> st_truncated st" "dominated_count st = 0" using out(2,3) by (simp_all add: outcome finish_search_def Let_def)
  then have ex: "explored ?cx src dst (beyond st) st"
    using search_loop_explored [OF search_ok_initial [OF start] _ loop'] initial_explored [OF start] by blast
  obtain M where M: "settled_at M st" by (rule search_loop_settled [OF start loop'])
  let ?D = "st_destination_labels st" and ?lb = "\<lambda>i. st_labels st ! i"
  have paths: "paths = raw_path (st_labels st) ` {i \<in> set ?D. l_retained (?lb i)}"
    by (auto simp: paths_def outcome finish_search_def Let_def)
  have raw: "path_rank (raw_path (st_labels st) i) = label_rank (?lb i)" "rp_proven (raw_path (st_labels st) i) = l_proven (?lb i)" for i
    by (simp_all add: path_rank_def raw_path_def label_rank_def Let_def)
  have kept: "\<exists>j \<in> set ?D. l_retained (?lb j) \<and> no_worse (?lb j) l'" if h: "i \<in> set ?D" "no_worse (?lb i) l'" for i l'
    using exploredD(2) [OF ex h(1)] no_worse_trans h(2) by blast
  have "distinct (map l_port_index (l # path))" using route_limits [OF wf refl route(1)] by blast
  then have away: "dst \<notin> l_port_index ` set path" using route(2) by auto
  from route_represented [OF ex route(1)] away
  consider K where "st_last_key st = Some K" "K < label_rank l"
    | i where "i < length (st_labels st)" "l_expanded (?lb i)" "chain (st_labels st) i = l # path" by iprover
  then show ?thesis
  proof cases
    case 1
    then have D: "?D \<noteq> []" "label_rank (?lb (last ?D)) < label_rank l" using exploredD(1) [OF ex] by auto
    have "label_rank (?lb i) \<le> label_rank (?lb (last ?D))" if "i \<in> set ?D" for i
    proof -
      have "sorted (map (\<lambda>i. label_rank (?lb i)) (butlast ?D @ [last ?D]))" using M D(1) by (simp add: settled_at_def)
      moreover have "i \<in> set (butlast ?D @ [last ?D])" using that D(1) by simp
      ultimately show ?thesis by (auto simp: sorted_append)
    qed
    then have "label_rank (?lb i) \<le> label_rank l" if "i \<in> set ?D" for i
      using that D(2) by (meson le_less_trans less_imp_le)
    then have "path_rank p \<le> label_rank l" if "p \<in> paths" for p using that raw by (auto simp: paths)
    moreover have "paths \<noteq> {}" using kept [OF last_in_set [OF D(1)] no_worse_refl] by (auto simp: paths)
    ultimately show ?thesis by blast
  next
    case 2
    have l: "core (?lb i) = l" using 2(3) by (subst (asm) label_path.simps) simp
    then have "i \<in> set ?D" using exploredD(3) [OF ex 2(1,2)] route(2) by auto
    moreover have "no_worse (?lb i) l" using l by (metis no_worse_core(2) no_worse_refl)
    ultimately obtain j where j: "j \<in> set ?D" "l_retained (?lb j)" "no_worse (?lb j) l" using kept by blast
    then have "raw_path (st_labels st) j \<in> paths" by (simp add: paths)
    then show ?thesis
      using j(3) raw [of j] by (intro conjI impI bexI [of _ "raw_path (st_labels st) j"]) (simp_all add: no_worse_def)
  qed
qed

text \<open>
  C3: completeness and optimality of the search.  When a search is neither cancelled nor truncated and has
  discarded no label by dominance, then for every route the expansion rules admit from the source to the
  destination it returns a path that ranks no later in cost, hops and regenerations; and if any returned
  path is proven, a proven route is matched by a proven path.  In particular the first path is a best
  route, and a search that returns nothing shows that there is no route at all.
\<close>

theorem RunSearch_complete:
  assumes "snapshot_wf s" "PortIndex s (rq_source r) = Some src" "PortIndex s (rq_destination r) = Some dst"
    "\<not> failed (so_status (RunSearch lm s r opts cancel))" "\<not> stat_truncated (so_statistics (RunSearch lm s r opts cancel))"
    "labels_dominated (so_statistics (RunSearch lm s r opts cancel)) = 0"
    "route (search_context lm s r opts) src (l # path)" "l_port_index l = dst"
  shows "let paths = set (so_paths (RunSearch lm s r opts cancel))
    in (\<exists>p \<in> paths. path_rank p \<le> label_rank l) \<and>
       (l_proven l \<and> (\<exists>q \<in> paths. rp_proven q) \<longrightarrow> (\<exists>p \<in> paths. rp_proven p \<and> path_rank p \<le> label_rank l))"
  unfolding Let_def by (rule search_complete [OF assms])

end
