(* ===== verification/Planner_Outcome.thy ===== *)
theory Planner_Outcome
  imports Planner_Props Search_Complete
begin

text \<open>
  What the negative and the optimal answers of the planner mean.
\<close>

section \<open>The first pass\<close>

definition no_exclusions :: Exclusions where
  "no_exclusions = \<lparr>e_nodes = [], e_spans = [], e_domains = []\<rparr>"

definition first_request :: "PlanningRequest \<Rightarrow> PlanningRequest" where
  "first_request r = (if iterative r then working_request r no_exclusions else r)"

lemma SortUnique_none [simp]: "SortUnique no_exclusions = no_exclusions"
  by (simp add: SortUnique_def no_exclusions_def std_sort_def)

lemma first_request_fields [simp]:
  "rq_constraints (first_request r) = rq_constraints r" "rq_source (first_request r) = rq_source r"
  "rq_destination (first_request r) = rq_destination r"
  by (simp_all add: first_request_def working_request_def no_exclusions_def Let_def)

lemma first_request_valid:
  assumes "\<not> failed (PlanningRequest_Validate r)"
  shows "\<not> failed (PlanningRequest_Validate (first_request r))"
  using assms unfolding PlanningRequest_Validate_def first_request_fields
  by (auto simp: first_request_def working_request_def kMaxCandidates_def Let_def)

lemma planner_pass_first:
  assumes "\<not> failed (PlanningRequest_Validate r)" "it_excluded it = no_exclusions"
  shows "planner_pass lm dg opts s r cancel first it = search_pass lm dg opts s r cancel first (first_request r) it"
proof -
  have "it\<lparr>it_excluded := no_exclusions\<rparr> = it" using assms(2) by simp
  then have "search_pass lm dg opts s r cancel first w (it\<lparr>it_excluded := no_exclusions\<rparr>) =
      search_pass lm dg opts s r cancel first w it" for w by (rule arg_cong)
  then show ?thesis
    using first_request_valid [OF assms(1)] assms(2) by (auto simp: planner_pass_def first_request_def Let_def)
qed

text \<open>Accepted candidates are never taken back.\<close>

lemma search_pass_accepted:
  "case search_pass lm dg opts s r cancel first w it of PassReturn _ \<Rightarrow> True | PassBreak it' \<Rightarrow> it_accepted it \<noteq> [] \<longrightarrow> it_accepted it' \<noteq> []
    | PassContinue it' \<Rightarrow> it_accepted it' \<noteq> []"
  by (auto simp: search_pass_def Let_def split: sum.splits list.splits)

lemma planner_passes_accepted:
  assumes "it_accepted it \<noteq> []" "planner_passes lm dg opts s r cancel n pass it = Inr it'"
  shows "it_accepted it' \<noteq> []"
  using assms
proof (induction n arbitrary: pass it)
  case (Suc n)
  let ?f = "planner_pass lm dg opts s r (cancel pass) (pass = 0) it"
  have "case ?f of PassReturn _ \<Rightarrow> True | PassBreak it' \<Rightarrow> it_accepted it' \<noteq> [] | PassContinue it' \<Rightarrow> it_accepted it' \<noteq> []"
    using Suc.prems(1) search_pass_accepted [of it lm dg opts s r "cancel pass" "pass = 0" r]
      search_pass_accepted [of "it\<lparr>it_excluded := SortUnique (it_excluded it)\<rparr>" lm dg opts s r "cancel pass" "pass = 0"
        "working_request r (SortUnique (it_excluded it))"]
    by (auto simp: planner_pass_def Let_def split: pass_flow.splits)
  with Suc show ?case by (auto split: pass_flow.splits)
qed simp

text \<open>When the first pass ends the search with nothing accepted and neither a gap nor a truncation.\<close>

lemma search_pass_empty:
  assumes "search_pass lm dg opts s r cancel first w it = PassBreak it'" "it_accepted it' = []" "\<not> it_gap it'" "\<not> it_truncation it'"
    and "0 < rq_max_candidates r"
  defines "x \<equiv> RunSearch lm s w opts cancel"
  shows "\<not> failed (so_status x) \<and> so_paths x = [] \<and> so_exhausted x \<and> \<not> stat_truncated (so_statistics x) \<and> s_coverage_complete s"
proof -
  have ok: "\<not> failed (so_status x)" using assms(1) by (auto simp: search_pass_def Let_def x_def)
  let ?b = "build_candidates lm dg s r (res_request_digest (MergeSearch x (it_result it))) (build_budget r) (so_paths x) [] [] False"
  obtain built u where b: "?b = Inr (built, u)"
    using assms(1) ok by (auto simp: search_pass_def Let_def x_def [symmetric] split: sum.splits)
  have empty: "std_sort PlanLess built = []"
    using assms(1,2,5) ok b by (auto simp: search_pass_def Let_def x_def [symmetric] split: list.splits if_splits)
  then have "built = []" using set_std_sort [of PlanLess built] by (metis set_empty)
  moreover have "0 < build_budget r" using assms(5) by (simp add: build_budget_def kPlanBuildBudget_def)
  ultimately have "if so_paths x = [] then u = False else u" using build_candidates_none b by blast
  moreover obtain it1 where it1: "it' = stop_without_plan s x u it1"
    using assms(1) ok b empty by (auto simp: search_pass_def Let_def x_def [symmetric])
  ultimately show ?thesis
    using ok assms(3,4) by (auto simp: it1 stop_without_plan_def split: if_splits)
qed

section \<open>Infeasible\<close>

lemma Plan_infeasible_search:
  assumes "before_search s r (new_result dg s r) = None"
    and "res_outcome (Plan lm dg seal opts s r cancel) = OutInfeasible" and wf: "snapshot_wf s" "snapshot_named s"
  defines "x \<equiv> RunSearch lm s (first_request r) opts (cancel 0)"
  shows "\<not> failed (so_status x) \<and> so_paths x = [] \<and> so_exhausted x \<and> \<not> stat_truncated (so_statistics x) \<and> s_coverage_complete s"
proof -
  note valid = before_search_None(1) [OF assms(1)]
  let ?n = "if iterative r then rq_max_candidates r else 1" and ?it = "initial_pass (new_result dg s r)"
  obtain n where n: "?n = Suc n" using valid_request_bounds(4) [OF valid] by (cases "?n") (auto split: if_splits)
  obtain it' where it': "planner_passes lm dg opts s r cancel ?n 0 ?it = Inr it'"
    using Plan_searched [OF wf assms(1), of lm opts cancel] assms(2)
    by (auto simp: Plan_def assms(1) split: sum.splits)
  have empty: "it_accepted it' = []" "\<not> it_gap it'" "\<not> it_truncation it'"
    using assms(2) it' by (auto simp: Plan_def assms(1) classify_fields)
  have none: "it_excluded ?it = no_exclusions" by (simp add: initial_pass_def no_exclusions_def)
  have "search_pass lm dg opts s r (cancel 0) True (first_request r) ?it = PassBreak it'"
    using it' empty(1) planner_passes_accepted [of _ lm dg opts s r cancel n "Suc 0" it']
      search_pass_accepted [of ?it lm dg opts s r "cancel 0" True "first_request r"]
    by (auto simp: n planner_pass_first [OF valid none] split: pass_flow.splits)
  from search_pass_empty [OF this empty valid_request_bounds(4) [OF valid]] show ?thesis by (simp add: x_def)
qed


section \<open>Optimal\<close>

definition plan_key :: "PlanArtifact \<Rightarrow> u64 \<times> nat \<times> nat \<times> string" where
  "plan_key plan = (pl_total_cost plan, pl_hops plan, pl_regenerations plan, ResourceSequenceKey plan)"

lemma PlanLess_key: "PlanLess = (\<lambda>a b. plan_key a < plan_key b)"
  by (auto simp: fun_eq_iff PlanLess_def plan_key_def less_prod_def less_le)

lemma best_plan_cost:
  assumes "std_sort PlanLess built = best # others" "plan \<in> set built"
  shows "pl_total_cost best \<le> pl_total_cost plan"
proof -
  have "sorted (map plan_key (best # others))" using sorted_key_std_sort [of plan_key built] assms(1) by (simp add: PlanLess_key)
  moreover have "plan \<in> set (best # others)" using assms set_std_sort [of PlanLess built] by simp
  ultimately have "plan_key best \<le> plan_key plan" by auto
  then show ?thesis by (auto simp: plan_key_def less_eq_prod_def)
qed

text \<open>The plan of the first proven path is among those built.\<close>

lemma build_candidates_first:
  assumes "build_candidates lm dg s r rd n ps [] [] u = Inr (built, u')" "0 < n" "find rp_proven ps = Some p"
    "BuildPlan lm dg s r rd (StripCycles s (rq_source r) (rp_arcs p)) = Inr plan"
  shows "plan \<in> set built"
  using assms(1,3)
proof (induction ps arbitrary: u)
  case (Cons q ps)
  show ?case
  proof (cases "rp_proven q")
    case True
    then have "build_candidates lm dg s r rd n ps [plan] [ToHexImpl (pl_digest plan)] u = Inr (built, u')"
      using Cons.prems assms(2,4) by simp
    from build_candidates_built [OF this] assms(2) show ?thesis by simp
  qed (use Cons in auto)
qed simp

lemma find_sorted_le:
  assumes "sorted (map f xs)" "find P xs = Some x" "y \<in> set xs" "P y"
  shows "f x \<le> f y"
  using assms by (induction xs) (auto split: if_splits)

lemma search_pass_best:
  assumes wf: "snapshot_wf s" "snapshot_named s" and valid: "\<not> failed (PlanningRequest_Validate r)"
    and pass: "search_pass lm dg opts s r cancel True w it = f" "tightens w r" "it_accepted it = []"
      "res_request_digest (it_result it) = dg_request dg r"
    and f: "f = PassBreak it' \<or> f = PassContinue it'" "it_accepted it' \<noteq> []"
  defines "x \<equiv> RunSearch lm s w opts cancel"
  shows "\<not> failed (so_status x) \<and> it_first_optimum it' = so_proved_optimum x \<and>
    (\<forall>p \<in> set (so_paths x). rp_proven p \<longrightarrow> pl_total_cost (hd (it_accepted it')) \<le> rp_cost p)"
proof -
  have ok: "\<not> failed (so_status x)" using pass(1) f(1) by (auto simp: search_pass_def Let_def x_def)
  have n: "0 < rq_max_candidates r" by (rule valid_request_bounds(4) [OF valid])
  have budget: "0 < build_budget r" using n by (simp add: build_budget_def kPlanBuildBudget_def)
  let ?b = "build_candidates lm dg s r (dg_request dg r) (build_budget r) (so_paths x) [] [] False"
  obtain built u where b: "?b = Inr (built, u)"
    using pass(1,4) f(1) ok by (auto simp: search_pass_def Let_def x_def [symmetric] split: sum.splits)
  obtain best others where sort: "std_sort PlanLess built = best # others"
    using pass(1,3,4) f b ok by (cases "std_sort PlanLess built") (auto simp: search_pass_def Let_def x_def [symmetric])
  have it': "hd (it_accepted it') = best" "it_first_optimum it' = so_proved_optimum x"
    using pass(1,3,4) f b ok sort n
    by (auto simp: search_pass_def Let_def x_def [symmetric] take_Cons' split: if_splits)
  have "pl_total_cost best \<le> rp_cost p" if p: "p \<in> set (so_paths x)" "rp_proven p" for p
  proof -
    obtain q where q: "find rp_proven (so_paths x) = Some q" using p by (cases "find rp_proven (so_paths x)") (auto simp: find_None_iff)
    have q': "q \<in> set (so_paths (RunSearch lm s w opts cancel))" "rp_proven q"
      using q by (auto simp: find_Some_iff x_def [symmetric])
    have same: "rq_source r = rq_source w" "rq_destination r = rq_destination w" "rq_channel_width_slots r = rq_channel_width_slots w"
      using pass(2) by (simp_all add: tightens_def)
    have width: "0 < rq_channel_width_slots w" using valid_request_bounds(2) [OF valid] same by simp
    obtain plan where plan: "BuildPlan lm dg s r (dg_request dg r) (rp_arcs q) = Inr plan" "pl_total_cost plan = rp_cost q"
      using proven_path_plan [OF wf width q' same] by blast
    obtain plan' where "BuildPlan lm dg s r (dg_request dg r) (StripCycles s (rq_source r) (rp_arcs q)) = Inr plan'"
        "StripCycles s (rq_source r) (rp_arcs q) = rp_arcs q"
      by (rule proven_path_candidate [OF wf valid pass(2) q'])
    then have "plan \<in> set built" using build_candidates_first [OF b budget q] plan(1) by simp
    from best_plan_cost [OF sort this] plan(2) have "pl_total_cost best \<le> rp_cost q" by simp
    moreover have "path_rank q \<le> path_rank p"
      by (rule find_sorted_le [OF _ q p]) (simp add: x_def search_paths_ordered)
    then have "rp_cost q \<le> rp_cost p" by (auto simp: path_rank_def less_eq_prod_def)
    ultimately show ?thesis by (rule order_trans)
  qed
  with ok it' show ?thesis by simp
qed

lemma search_pass_keeps:
  assumes "it_accepted it \<noteq> []"
  shows "case search_pass lm dg opts s r cancel False w it of PassReturn _ \<Rightarrow> True
    | PassBreak it' \<Rightarrow> hd (it_accepted it') = hd (it_accepted it) \<and> it_first_optimum it' = it_first_optimum it
    | PassContinue it' \<Rightarrow> hd (it_accepted it') = hd (it_accepted it) \<and> it_first_optimum it' = it_first_optimum it"
  using assms by (auto simp: search_pass_def stop_without_plan_def Let_def split: sum.splits list.splits)

lemma planner_passes_keeps:
  assumes "it_accepted it \<noteq> []" "planner_passes lm dg opts s r cancel n (Suc pass) it = Inr it'"
  shows "hd (it_accepted it') = hd (it_accepted it) \<and> it_first_optimum it' = it_first_optimum it"
  using assms
proof (induction n arbitrary: pass it)
  case (Suc n)
  let ?f = "planner_pass lm dg opts s r (cancel (Suc pass)) False it"
  have "case ?f of PassReturn _ \<Rightarrow> True
    | PassBreak it' \<Rightarrow> hd (it_accepted it') = hd (it_accepted it) \<and> it_first_optimum it' = it_first_optimum it
    | PassContinue it' \<Rightarrow> it_accepted it' \<noteq> [] \<and> hd (it_accepted it') = hd (it_accepted it) \<and> it_first_optimum it' = it_first_optimum it"
    using Suc.prems(1) search_pass_keeps [of it lm dg opts s r "cancel (Suc pass)" r]
      search_pass_accepted [of it lm dg opts s r "cancel (Suc pass)" False r]
      search_pass_keeps [of "it\<lparr>it_excluded := SortUnique (it_excluded it)\<rparr>" lm dg opts s r "cancel (Suc pass)"
        "working_request r (SortUnique (it_excluded it))"]
      search_pass_accepted [of "it\<lparr>it_excluded := SortUnique (it_excluded it)\<rparr>" lm dg opts s r "cancel (Suc pass)" False
        "working_request r (SortUnique (it_excluded it))"]
    by (auto simp: planner_pass_def Let_def split: pass_flow.splits)
  with Suc show ?case by (auto split: pass_flow.splits)
qed simp

text \<open>Only the classification claims optimality.\<close>

lemma search_pass_claims:
  assumes "\<not> res_optimality_proven (it_result it)"
  shows "case search_pass lm dg opts s r cancel first w it of PassReturn res \<Rightarrow> \<not> res_optimality_proven res
    | PassBreak it' \<Rightarrow> \<not> res_optimality_proven (it_result it') | PassContinue it' \<Rightarrow> \<not> res_optimality_proven (it_result it')"
  using assms by (auto simp: search_pass_def stop_without_plan_def MergeSearch_def Let_def split: sum.splits list.splits)

lemma planner_passes_claims:
  assumes "\<not> res_optimality_proven (it_result it)"
  shows "case planner_passes lm dg opts s r cancel n pass it of Inl res \<Rightarrow> \<not> res_optimality_proven res
    | Inr it' \<Rightarrow> \<not> res_optimality_proven (it_result it')"
  using assms
proof (induction n arbitrary: pass it)
  case (Suc n)
  have "case planner_pass lm dg opts s r (cancel pass) (pass = 0) it of PassReturn res \<Rightarrow> \<not> res_optimality_proven res
    | PassBreak it' \<Rightarrow> \<not> res_optimality_proven (it_result it') | PassContinue it' \<Rightarrow> \<not> res_optimality_proven (it_result it')"
    using Suc.prems search_pass_claims [of it lm dg opts s r "cancel pass" "pass = 0" r]
      search_pass_claims [of "it\<lparr>it_excluded := SortUnique (it_excluded it)\<rparr>" lm dg opts s r "cancel pass" "pass = 0"
        "working_request r (SortUnique (it_excluded it))"]
    by (auto simp: planner_pass_def Let_def)
  with Suc.IH show ?case by (auto split: pass_flow.splits)
qed simp

lemma before_search_claims:
  "before_search s r res = Some early \<Longrightarrow> res_optimality_proven early = res_optimality_proven res"
proof -
  have src: "check_sources s res reqs = Some early \<Longrightarrow> res_optimality_proven early = res_optimality_proven res" for reqs
    by (induction s res reqs rule: check_sources.induct) (auto simp: push_witness_def indeterminate_def split: if_splits)
  have fresh: "check_freshness s r res = Some early \<Longrightarrow> res_optimality_proven early = res_optimality_proven res"
    by (auto simp: check_freshness_def push_witness_def indeterminate_def src split: if_splits)
  show "before_search s r res = Some early \<Longrightarrow> res_optimality_proven early = res_optimality_proven res"
    using fresh by (auto simp: before_search_def check_endpoints_def push_witness_def indeterminate_def Let_def
        split: if_splits option.splits)
qed

lemma Plan_optimal_search:
  assumes wf: "snapshot_wf s" "snapshot_named s" and opt: "res_optimality_proven (Plan lm dg seal opts s r cancel)"
  defines "x \<equiv> RunSearch lm s (first_request r) opts (cancel 0)"
  obtains best where "Best (Plan lm dg seal opts s r cancel) = Some best" "\<not> failed (so_status x)" "so_proved_optimum x"
    "\<forall>p \<in> set (so_paths x). rp_proven p \<longrightarrow> pl_total_cost best \<le> rp_cost p"
proof (cases "before_search s r (new_result dg s r)")
  case (Some early)
  with opt before_search_claims [OF Some] show ?thesis by (simp add: Plan_def new_result_def)
next
  case None
  note valid = before_search_None(1) [OF None]
  let ?n = "if iterative r then rq_max_candidates r else 1" and ?it = "initial_pass (new_result dg s r)"
  obtain n where n: "?n = Suc n" using valid_request_bounds(4) [OF valid] by (cases "?n") (auto split: if_splits)
  have it: "\<not> res_optimality_proven (it_result ?it)" "it_excluded ?it = no_exclusions" "it_accepted ?it = []"
    "res_request_digest (it_result ?it) = dg_request dg r"
    by (simp_all add: initial_pass_def new_result_def no_exclusions_def)
  note claims = planner_passes_claims [OF it(1), of lm dg opts s r cancel ?n 0]
  then obtain it' where it': "planner_passes lm dg opts s r cancel ?n 0 ?it = Inr it'" "\<not> res_optimality_proven (it_result it')"
    using opt by (auto simp: Plan_def None split: sum.splits)
  have acc: "it_accepted it' \<noteq> []" and first: "it_first_optimum it'"
    using opt it' by (auto simp: Plan_def None classify_def Let_def NoteLimitation_def split: if_splits)
  let ?f = "search_pass lm dg opts s r (cancel 0) True (first_request r) ?it"
  have tight: "tightens (first_request r) r" by (simp add: first_request_def)
  note pp = planner_pass_first [OF valid it(2)]
  obtain it1 where it1: "?f = PassBreak it1 \<or> ?f = PassContinue it1" "it_accepted it1 \<noteq> []"
    "hd (it_accepted it') = hd (it_accepted it1)" "it_first_optimum it' = it_first_optimum it1"
    using it'(1) acc planner_passes_keeps [of _ lm dg opts s r cancel n 0 it']
      search_pass_accepted [of ?it lm dg opts s r "cancel 0" True "first_request r"]
    by (auto simp: n pp split: pass_flow.splits)
  note best = search_pass_best [OF wf valid refl tight it(3,4) it1(1,2)]
  have "Best (Plan lm dg seal opts s r cancel) = Some (hd (it_accepted it'))"
    using it'(1) acc by (auto simp: Best_def Plan_def None classify_fields split: list.splits)
  moreover have "\<not> failed (so_status x)" "so_proved_optimum x" using best first it1(4) by (simp_all add: x_def)
  moreover have "\<forall>p \<in> set (so_paths x). rp_proven p \<longrightarrow> pl_total_cost (hd (it_accepted it')) \<le> rp_cost p"
    using best unfolding it1(3) x_def by blast
  ultimately show thesis by (rule that)
qed

text \<open>
  C5: a claim of optimality is justified.  When a result says that optimality is proven and the search of the
  first pass discarded no label by dominance, its best candidate costs no more than any proven route the
  expansion rules admit between the requested ports.
\<close>

theorem Plan_optimal:
  assumes wf: "snapshot_wf s" "snapshot_named s" and opt: "res_optimality_proven (Plan lm dg seal opts s r cancel)"
    and dom: "labels_dominated (so_statistics (RunSearch lm s (first_request r) opts (cancel 0))) = 0"
    and idx: "PortIndex s (rq_source r) = Some src" "PortIndex s (rq_destination r) = Some (l_port_index l)"
    and route: "route (search_context lm s (first_request r) opts) src (l # path)" "l_proven l"
  shows "\<exists>best. Best (Plan lm dg seal opts s r cancel) = Some best \<and> pl_total_cost best \<le> l_cost l"
proof -
  let ?x = "RunSearch lm s (first_request r) opts (cancel 0)"
  obtain best where best: "Best (Plan lm dg seal opts s r cancel) = Some best" "\<not> failed (so_status ?x)" "so_proved_optimum ?x"
    "\<forall>p \<in> set (so_paths ?x). rp_proven p \<longrightarrow> pl_total_cost best \<le> rp_cost p"
    by (rule Plan_optimal_search [OF wf opt])
  have trunc: "\<not> stat_truncated (so_statistics ?x)" and some: "so_paths ?x = [] \<or> list_ex rp_proven (so_paths ?x)"
    using best(3) by (auto simp: RunSearch_def Let_def empty_outcome_def no_statistics_def finish_search_def
        split: option.splits prod.splits sum.splits bool.splits if_splits)
  note complete = search_complete [OF wf(1) _ _ best(2) trunc dom route(1) refl]
  then obtain p where "p \<in> set (so_paths ?x)" "rp_proven p" "path_rank p \<le> label_rank l"
    using idx some route(2) by (fastforce simp: list_ex_iff)
  then show ?thesis using best(1,4) by (fastforce simp: path_rank_def label_rank_def less_eq_prod_def intro: order_trans)
qed

end
