(* ===== verification/Validate.thy ===== *)
theory Validate
  imports Plan
begin

text \<open>
  Validation of a plan against the evidence a consumer holds (\<open>include/opp/validate.hpp\<close>,
  \<open>src/validate.cpp\<close>).  The two lambdas of \<open>RevalidatePlan\<close> are \<open>usable_mask\<close> and the
  constructor of \<open>RevalidationFailure\<close>; the failures it collects are the concatenation, over the
  steps and then over the segments, of what each contributes.
\<close>

section \<open>Reports\<close>

datatype PlanValidity =
    PvValid | PvStale | PvContentMismatch | PvMissingEvidence | PvIntegrityFailure | PvUnsupported | PvRefused | PvNotFresh

fun PlanValidityName :: "PlanValidity \<Rightarrow> string" where
  "PlanValidityName PvValid = ''VALID''"
| "PlanValidityName PvStale = ''STALE''"
| "PlanValidityName PvContentMismatch = ''CONTENT_MISMATCH''"
| "PlanValidityName PvMissingEvidence = ''MISSING_EVIDENCE''"
| "PlanValidityName PvIntegrityFailure = ''INTEGRITY_FAILURE''"
| "PlanValidityName PvUnsupported = ''UNSUPPORTED''"
| "PlanValidityName PvRefused = ''REFUSED''"
| "PlanValidityName PvNotFresh = ''NOT_FRESH''"

record SourceMismatch =
  mm_source :: SourceId
  mm_bound :: Generation
  mm_current :: Generation
  mm_present :: bool

record RevalidationFailure =
  rf_step_index :: nat
  rf_resource :: ResourceKey
  rf_reason :: CutReason
  rf_detail :: string

record ValidationPolicy =
  vp_accept_restored_evidence :: bool
  vp_revalidate_on_mismatch :: bool

record ValidationReport =
  vr_validity :: PlanValidity
  vr_status :: Status
  vr_source_mismatches :: "SourceMismatch list"
  vr_bound_snapshot_digest :: Digest256
  vr_current_snapshot_digest :: Digest256
  vr_revalidated :: bool
  vr_failures :: "RevalidationFailure list"

definition ValidationReport_ok :: "ValidationReport \<Rightarrow> bool" where
  "ValidationReport_ok report = (vr_validity report = PvValid)"

definition new_report :: "PlanArtifact \<Rightarrow> TopologySnapshot \<Rightarrow> ValidationReport" where
  "new_report plan s =
     \<lparr>vr_validity = PvRefused, vr_status = OkStatus, vr_source_mismatches = [],
      vr_bound_snapshot_digest = pl_snapshot_digest plan, vr_current_snapshot_digest = s_digest s,
      vr_revalidated = False, vr_failures = []\<rparr>"

definition nl :: string where "nl = [CHR 0x0A]"

definition bool_text :: "bool \<Rightarrow> string" where
  "bool_text b = (if b then ''true'' else ''false'')"

definition ValidationReport_ExplainText :: "ValidationReport \<Rightarrow> string" where
  "ValidationReport_ExplainText report =
     ''validity: '' @ PlanValidityName (vr_validity report) @ nl @
     (if failed (vr_status report)
      then ''status: '' @ StatusCodeName (code (vr_status report)) @ '' '' @ detail (vr_status report) @ nl else []) @
     ''bound_snapshot_digest: '' @ ToHexImpl (vr_bound_snapshot_digest report) @ nl @
     ''current_snapshot_digest: '' @ ToHexImpl (vr_current_snapshot_digest report) @ nl @
     ''revalidated: '' @ bool_text (vr_revalidated report) @ nl @
     concat (map (\<lambda>m. ''source_mismatch '' @ mm_source m @ '' bound='' @ to_string (unat (mm_bound m)) @
       '' current='' @ to_string (unat (mm_current m)) @ '' present='' @ bool_text (mm_present m) @ nl)
       (vr_source_mismatches report)) @
     concat (map (\<lambda>f. ''failure step='' @ to_string (rf_step_index f) @ '' resource='' @ ResourceKeyToString (rf_resource f) @
       '' reason='' @ CutReasonName (rf_reason f) @ '' '' @ rf_detail f @ nl) (vr_failures report))"

section \<open>Bindings\<close>

definition binding_mismatch :: "TopologySnapshot \<Rightarrow> SourceBinding \<Rightarrow> SourceMismatch list" where
  "binding_mismatch s b =
     (let present = HasSource s (sb_source b);
          current = (if present then SourceGeneration s (sb_source b) else 0)
      in if \<not> present \<or> current \<noteq> sb_generation b
         then [\<lparr>mm_source = sb_source b, mm_bound = sb_generation b, mm_current = current, mm_present = present\<rparr>]
         else [])"

definition ValidatePlanBindings ::
  "digests \<Rightarrow> PlanArtifact \<Rightarrow> TopologySnapshot \<Rightarrow> ValidationPolicy \<Rightarrow> ValidationReport" where
  "ValidatePlanBindings dg plan s policy =
     (let report = new_report plan s; seal = VerifySeal dg plan;
          mismatches = concat (map (binding_mismatch s) (pl_bound_sources plan))
      in if pl_format_version plan \<noteq> kPlanFormatVersion \<or> pl_rule_version plan \<noteq> kPlanningRuleVersion
         then report\<lparr>vr_validity := PvUnsupported, vr_status := Failure Unsupported
                ''plan was produced by a format or planning rule revision this runtime does not reproduce''\<rparr>
         else if failed seal then report\<lparr>vr_validity := PvIntegrityFailure, vr_status := seal\<rparr>
         else if s_freshness s \<noteq> Fresh \<and> \<not> vp_accept_restored_evidence policy
         then report\<lparr>vr_validity := PvNotFresh, vr_status := Failure Stale
                ''the snapshot was restored from persistence and the caller did not accept restored evidence''\<rparr>
         else if mismatches \<noteq> []
         then report\<lparr>vr_source_mismatches := mismatches, vr_validity := PvStale, vr_status := Failure Stale
                ''at least one bound evidence generation no longer matches the current snapshot''\<rparr>
         else if pl_snapshot_digest plan \<noteq> s_digest s
         then report\<lparr>vr_validity := PvContentMismatch, vr_status := Failure Stale
                ''source generations match but the snapshot content digest changed''\<rparr>
         else report\<lparr>vr_validity := PvValid\<rparr>)"

section \<open>Steps\<close>

definition usable_mask :: "TopologySnapshot \<Rightarrow> SlotMask Evidence \<Rightarrow> SlotMask" where
  "usable_mask s blocked =
     (let n = unat (slot_count (s_spectrum s))
      in FirstSlotMask (case blocked of Known b \<Rightarrow> usable_slots n b | _ \<Rightarrow> Mask_All n) 1)"

text \<open>The slots of a recorded channel; the sum is converted to 16 bits before the slot is set.\<close>

definition wanted_mask :: "Channel \<Rightarrow> SlotMask" where
  "wanted_mask ch =
     fold (\<lambda>i wanted. Mask_Set ((first_slot ch + i) mod 2 ^ 16) wanted) [0 ..< width_slots ch] Mask_None"

definition fail_at :: "PlanStep \<Rightarrow> CutReason \<Rightarrow> string \<Rightarrow> RevalidationFailure list" where
  "fail_at step reason why =
     [\<lparr>rf_step_index = ps_index step, rf_resource = ps_resource step, rf_reason = reason, rf_detail = why\<rparr>]"

definition admin_up :: "AdminState Evidence \<Rightarrow> bool" where
  "admin_up e = (e = Known Up)"

definition check_port_step :: "TopologySnapshot \<Rightarrow> PlanStep \<Rightarrow> RevalidationFailure list" where
  "check_port_step s step =
     (let txt = rk_text (ps_resource step); malformed = fail_at step CutNone ''malformed port resource key''
      in case find_char (CHR '':'') txt of
           None \<Rightarrow> malformed
         | Some colon \<Rightarrow>
             (case (ParseId (take colon txt), ParseId (drop (colon + 1) txt)) of
                (Inr node, Inr port) \<Rightarrow>
                  (case FindPort s (PortKey node port) of
                     None \<Rightarrow> fail_at step CutUnresolvedReference ''port is absent from the snapshot''
                   | Some r \<Rightarrow> if admin_up (pt_admin r) then []
                               else fail_at step CutDestinationAdminDown ''port is not published as administratively up'')
              | _ \<Rightarrow> malformed))"

definition check_node_step :: "TopologySnapshot \<Rightarrow> PlanStep \<Rightarrow> RevalidationFailure list" where
  "check_node_step s step =
     (case ParseId (rk_text (ps_resource step)) of
        Inl _ \<Rightarrow> fail_at step CutNone ''malformed node resource key''
      | Inr i \<Rightarrow> (case FindNode s i of
                    None \<Rightarrow> fail_at step CutUnresolvedReference ''node is absent from the snapshot''
                  | Some r \<Rightarrow> if admin_up (nd_admin r) then []
                              else fail_at step CutDestinationAdminDown ''node is not published as administratively up''))"

definition find_span :: "TopologySnapshot \<Rightarrow> SpanId \<Rightarrow> SpanRecord option" where
  "find_span s i = find (\<lambda>r. sp_id r = i) (s_spans s)"

definition check_span_step :: "PlanArtifact \<Rightarrow> TopologySnapshot \<Rightarrow> PlanStep \<Rightarrow> RevalidationFailure list" where
  "check_span_step plan s step =
     (case ParseId (rk_text (ps_resource step)) of
        Inl _ \<Rightarrow> fail_at step CutNone ''malformed span resource key''
      | Inr i \<Rightarrow>
          (case find_span s i of
             None \<Rightarrow> fail_at step CutUnresolvedReference ''span is absent from the snapshot''
           | Some r \<Rightarrow>
               if \<not> admin_up (sp_admin r) then fail_at step CutSpanAdminDown ''span is not published as administratively up''
               else case find (\<lambda>v. rv_resource v = ps_resource step) (pl_reservations plan) of
                      None \<Rightarrow> fail_at step CutNone ''plan carries no spectrum requirement for this span''
                    | Some v \<Rightarrow> if Mask_IsSubsetOf (wanted_mask (rv_channel v)) (usable_mask s (sp_blocked_slots r)) then []
                                else fail_at step CutPortSpectrumEmpty
                                       (''the recorded channel is no longer inside the span'' @ [CHR 0x27] @ ''s usable spectrum'')))"

definition check_cross_connect_step :: "TopologySnapshot \<Rightarrow> PlanStep \<Rightarrow> RevalidationFailure list" where
  "check_cross_connect_step s step =
     (case ParseId (rk_text (ps_resource step)) of
        Inl _ \<Rightarrow> fail_at step CutNone ''malformed cross-connect resource key''
      | Inr i \<Rightarrow>
          (case find (\<lambda>r. cc_id r = i) (s_cross_connects s) of
             None \<Rightarrow> fail_at step CutUnresolvedReference ''cross-connect is absent from the snapshot''
           | Some r \<Rightarrow> if admin_up (cc_admin r) then []
                       else fail_at step CutCrossConnectAdminDown ''cross-connect is not published as administratively up''))"

definition check_step :: "PlanArtifact \<Rightarrow> TopologySnapshot \<Rightarrow> PlanStep \<Rightarrow> RevalidationFailure list" where
  "check_step plan s step =
     (case rk_kind (ps_resource step) of
        RPort \<Rightarrow> check_port_step s step
      | RNode \<Rightarrow> check_node_step s step
      | RSpan \<Rightarrow> check_span_step plan s step
      | RCrossConnect \<Rightarrow> check_cross_connect_step s step
      | _ \<Rightarrow> [])"

section \<open>Segments\<close>

text \<open>The recomputed totals of a section: distance, loss, inverse OSNR and span count.\<close>

definition recount_span ::
  "libm \<Rightarrow> TopologySnapshot \<Rightarrow> PlanSpanUse \<Rightarrow> u64 \<times> double \<times> double \<times> nat \<Rightarrow> u64 \<times> double \<times> double \<times> nat" where
  "recount_span lm s use acc =
     (case acc of (distance, loss, osnr_inverse, spans) \<Rightarrow>
        (case find_span s (su_id use) of
           None \<Rightarrow> acc
         | Some r \<Rightarrow>
             ((case sp_length_m r of Known len \<Rightarrow> distance + len | _ \<Rightarrow> distance),
              (case sp_loss_db r of Known x \<Rightarrow> dadd loss x | _ \<Rightarrow> loss),
              (case sp_osnr_db r of Known x \<Rightarrow> dadd osnr_inverse (OsnrToInverse lm x) | _ \<Rightarrow> osnr_inverse),
              spans + 1)))"

definition differs :: "double \<Rightarrow> double \<Rightarrow> bool" where
  "differs a b = dless tolerance (dabs (dsub a b))"

definition check_segment :: "libm \<Rightarrow> TopologySnapshot \<Rightarrow> PlanSegment \<Rightarrow> RevalidationFailure list" where
  "check_segment lm s g =
     (case fold (recount_span lm s) (sg_spans g) (0, Fin 0, Fin 0, 0) of (distance, loss, osnr_inverse, spans) \<Rightarrow>
        (let osnr = (if dle osnr_inverse (Fin 0) then Fin 0 else dmul (Fin (- 10)) (lm_log10 lm osnr_inverse))
         in if distance \<noteq> sg_distance_m g \<or> spans \<noteq> sg_span_count g \<or> differs loss (sg_loss_db g) \<or> differs osnr (sg_osnr_db g)
            then [\<lparr>rf_step_index = 0, rf_resource = ForReachProfile (sg_profile g), rf_reason = CutNone,
                   rf_detail = ''segment accounting does not reproduce against the current snapshot''\<rparr>]
            else []))"

section \<open>RevalidatePlan\<close>

definition RevalidatePlan ::
  "libm \<Rightarrow> digests \<Rightarrow> PlanArtifact \<Rightarrow> TopologySnapshot \<Rightarrow> ValidationPolicy \<Rightarrow> ValidationReport" where
  "RevalidatePlan lm dg plan s policy =
     (let bindings_only = \<lparr>vp_accept_restored_evidence = vp_accept_restored_evidence policy, vp_revalidate_on_mismatch = False\<rparr>;
          report = ValidatePlanBindings dg plan s bindings_only
      in if vr_validity report \<noteq> PvValid \<and> \<not> vp_revalidate_on_mismatch policy then report
         else let failures = concat (map (check_step plan s) (pl_steps plan)) @
                             concat (map (check_segment lm s) (pl_segments plan));
                  report1 = report\<lparr>vr_revalidated := True, vr_failures := failures\<rparr>
              in if failures = []
                 then (if vr_validity report1 \<noteq> PvValid
                       then report1\<lparr>vr_status := Failure Stale
                              ''bound generations changed, but every plan decision still reproduces against the current snapshot''\<rparr>
                       else report1)
                 else if vr_validity report1 = PvValid
                 then report1\<lparr>vr_validity := PvMissingEvidence, vr_status := Failure Internal
                        ''plan decisions no longer reproduce against the snapshot it is bound to''\<rparr>
                 else report1\<lparr>vr_status := Failure Stale
                        ''plan decisions no longer reproduce against the current snapshot''\<rparr>)"

end
