(* ===== verification/Validate_Props.thy ===== *)
theory Validate_Props
  imports Validate Planner_Props
begin

text \<open>
  The validator against the planner: when bindings hold, what a candidate plan of the planner gets from
  the validator over the snapshot it was made from, and where the two disagree.
\<close>

section \<open>Bindings\<close>

definition bindings_hold :: "digests \<Rightarrow> PlanArtifact \<Rightarrow> TopologySnapshot \<Rightarrow> ValidationPolicy \<Rightarrow> bool" where
  "bindings_hold dg plan s policy \<longleftrightarrow>
     pl_format_version plan = kPlanFormatVersion \<and> pl_rule_version plan = kPlanningRuleVersion \<and>
     \<not> failed (VerifySeal dg plan) \<and> (s_freshness s = Fresh \<or> vp_accept_restored_evidence policy) \<and>
     (\<forall>b \<in> set (pl_bound_sources plan). HasSource s (sb_source b) \<and> SourceGeneration s (sb_source b) = sb_generation b) \<and>
     pl_snapshot_digest plan = s_digest s"

lemma binding_mismatch_none:
  "binding_mismatch s b = [] \<longleftrightarrow> HasSource s (sb_source b) \<and> SourceGeneration s (sb_source b) = sb_generation b"
  by (simp add: binding_mismatch_def Let_def)

lemma ValidatePlanBindings_valid:
  "vr_validity (ValidatePlanBindings dg plan s policy) = PvValid \<longleftrightarrow> bindings_hold dg plan s policy"
  by (auto simp: ValidatePlanBindings_def bindings_hold_def new_report_def binding_mismatch_none Let_def split: if_splits)

lemma sources_current:
  assumes "snapshot_wf s" "x \<in> set (s_sources s)"
  shows "HasSource s (src_id x) \<and> SourceGeneration s (src_id x) = src_generation x"
proof -
  from assms(2) obtain i where i: "i < length (s_sources s)" "x = s_sources s ! i" by (auto simp: in_set_conv_nth)
  have "keyed_table src_id (s_sources s)" using assms(1) by (simp add: snapshot_wf_def)
  from keyed_table.index_of_row [OF this i(1)] i show ?thesis by (simp add: HasSource_def SourceGeneration_def lookup_record_def)
qed

lemma plan_bindings:
  assumes "snapshot_wf s" "BuildPlan lm dg s r rd arcs = Inr plan" "s_freshness s = Fresh \<or> vp_accept_restored_evidence policy"
  shows "bindings_hold dg plan s policy"
proof -
  obtain st where plan: "plan = Seal dg (plan_of_state dg s r rd (length arcs) st)"
    by (rule BuildPlan_Inr [OF assms(2)]) blast
  have "VerifySeal dg plan = OkStatus" unfolding plan by (rule VerifySeal_Seal)
  then show ?thesis
    using assms(3) sources_current [OF assms(1)] by (auto simp: bindings_hold_def plan plan_of_state_def Seal_def)
qed

section \<open>The resources of a plan\<close>

definition resources :: "BuildState \<Rightarrow> ResourceKey list" where
  "resources st = map ps_resource (bs_steps st)"

lemma resources_frame [simp]:
  "resources (push_step kd res w c st) = resources st @ [res]" "resources (note_domains ds st) = resources st"
  "resources (assume_capability res f v st) = resources st" "resources (assume_quality res f v st) = resources st"
  "resources (add_cost c st) = resources st" "resources (ensure_segment st) = resources st"
  "resources (note_slot slot st) = resources st" "resources (close_segment lm b res st) = resources st"
  by (simp_all add: resources_def push_step_def note_domains_def assume_capability_def assume_quality_def add_cost_def
      ensure_segment_def note_slot_def close_segment_def Let_def)

lemma resources_fields [simp]:
  "resources (st\<lparr>bs_mask := m\<rparr>) = resources st" "resources (st\<lparr>bs_port := k\<rparr>) = resources st"
  "resources (st\<lparr>bs_reservations := rs\<rparr>) = resources st" "resources (st\<lparr>bs_channel_runs := n\<rparr>) = resources st"
  "resources (st\<lparr>bs_last_slot := o1\<rparr>) = resources st" "resources (st\<lparr>bs_profile := p\<rparr>) = resources st"
  "resources (st\<lparr>bs_segments := gs\<rparr>) = resources st" "resources (st\<lparr>bs_distance := d\<rparr>) = resources st"
  "resources (st\<lparr>bs_loss := q\<rparr>) = resources st" "resources (st\<lparr>bs_osnr_inverse := q\<rparr>) = resources st"
  "resources (st\<lparr>bs_span_count := n\<rparr>) = resources st" "resources (st\<lparr>bs_segment_index := n\<rparr>) = resources st"
  "resources (st\<lparr>bs_regenerations := n\<rparr>) = resources st"
  by (simp_all add: resources_def)

text \<open>A resource a plan may name: a published port in service, a recorded node, or the record of an arc.\<close>

definition recorded :: "TopologySnapshot \<Rightarrow> ArcRef set \<Rightarrow> ResourceKey \<Rightarrow> bool" where
  "recorded s as res \<longleftrightarrow>
     (\<exists>k. res = ForPort k \<and> port_published s k) \<or> (\<exists>n. res = ForNode (nd_id n) \<and> FindNode s (nd_id n) = Some n) \<or>
     (\<exists>a \<in> as. arc_published s a \<and> ar_kind a = SpanArcKind \<and> ar_index a < length (s_spans s) \<and>
        res = ForSpan (sp_id (s_spans s ! ar_index a))) \<or>
     (\<exists>a \<in> as. arc_published s a \<and> ar_kind a = CrossConnectArcKind \<and> ar_index a < length (s_cross_connects s) \<and>
        res = ForCrossConnect (cc_id (s_cross_connects s ! ar_index a)))"

lemma recorded_mono: "recorded s as res \<Longrightarrow> as \<subseteq> bs \<Longrightarrow> recorded s bs res"
  unfolding recorded_def by blast

lemma enter_node_resources:
  assumes "snapshot_wf s" "\<forall>res \<in> set (resources st). recorded s as res"
  shows "\<forall>res \<in> set (resources (enter_node s k st)). recorded s as res"
  using assms(2) FindNode_iff [OF assms(1)] by (auto simp: enter_node_def recorded_def split: option.split)

lemma build_span_resources:
  assumes wf: "snapshot_wf s" and "build_span lm dg s w a st = Inr st'" "ar_kind a = SpanArcKind" "arc_published s a" "a \<in> as"
    and "\<forall>res \<in> set (resources st). recorded s as res"
  shows "\<forall>res \<in> set (resources st'). recorded s as res"
proof -
  obtain len loss osnr blocked p slot m where b: "ar_index a < length (s_spans s)"
    "st' = use_span lm dg s w (s_spans s ! ar_index a) (ar_reversed a) p len loss osnr blocked m slot st"
    by (rule build_span_Inr [OF assms(2)]) blast
  have own: "recorded s as (ForSpan (sp_id (s_spans s ! ar_index a)))" using b(1) assms(3-5) by (auto simp: recorded_def)
  show ?thesis
    unfolding b(2) use_span_def Let_def resources_fields resources_frame
    by (rule enter_node_resources [OF wf]) (use assms(6) own in auto)
qed

lemma apply_operation_resources: "apply_operation lm s w cc p st = Inr st1 \<Longrightarrow> resources st1 = resources st"
  unfolding apply_operation_def build_failure_def Let_def
  by (auto split: CrossConnectOp.split_asm option.split_asm Evidence.split_asm)

lemma build_cross_connect_resources:
  assumes wf: "snapshot_wf s" and "build_cross_connect lm s w a st = Inr st'" "ar_kind a = CrossConnectArcKind" "arc_published s a" "a \<in> as"
    and "\<forall>res \<in> set (resources st). recorded s as res"
  shows "\<forall>res \<in> set (resources st'). recorded s as res"
proof -
  let ?cc = "s_cross_connects s ! ar_index a"
  obtain p blocked st1 where b: "ar_index a < length (s_cross_connects s)" "FindPort s (cc_to ?cc) = Some p"
    "apply_operation lm s w ?cc p st = Inr st1" "st' = use_cross_connect s ?cc p blocked st1"
    using assms(2) unfolding build_cross_connect_def build_failure_def Let_def
    by (auto split: if_splits Evidence.split_asm option.split_asm sum.split_asm)
  have own: "recorded s as (ForCrossConnect (cc_id ?cc))" using b(1) assms(3-5) by (auto simp: recorded_def)
  have "arrival s a = cc_to ?cc" using b(1) assms(3) by (simp add: arrival_def ArrivalPort_def)
  moreover have "pt_key p = cc_to ?cc" using b(2) FindPort_iff [OF wf] by simp
  ultimately have port: "recorded s as (ForPort (pt_key p))" using assms(4) by (auto simp: recorded_def arc_published_def)
  have st1: "\<forall>res \<in> set (resources st1). recorded s as res" using apply_operation_resources [OF b(3)] assms(6) by simp
  show ?thesis
  proof (cases "cc_op ?cc = Express")
    case True
    then show ?thesis using st1 own by (auto simp: b(4) use_cross_connect_def Let_def)
  next
    case False
    then show ?thesis
      unfolding b(4) use_cross_connect_def Let_def resources_fields resources_frame if_not_P [OF False] if_P [OF False]
      by (intro enter_node_resources [OF wf]) (use st1 own port in auto)
  qed
qed

lemma build_arcs_resources:
  assumes wf: "snapshot_wf s" and "build_arcs lm dg s w arcs st = Inr st'" "\<forall>a \<in> set arcs. arc_published s a" "set arcs \<subseteq> as"
    and "\<forall>res \<in> set (resources st). recorded s as res"
  shows "\<forall>res \<in> set (resources st'). recorded s as res"
  using assms(2-5)
proof (induction arcs arbitrary: st)
  case (Cons a arcs)
  then obtain st1 where st1: "(case ar_kind a of SpanArcKind \<Rightarrow> build_span lm dg s w a st
      | CrossConnectArcKind \<Rightarrow> build_cross_connect lm s w a st) = Inr st1" "build_arcs lm dg s w arcs st1 = Inr st'"
    by (auto split: sum.splits)
  have "\<forall>res \<in> set (resources st1). recorded s as res"
  proof (cases "ar_kind a")
    case SpanArcKind
    then have "build_span lm dg s w a st = Inr st1" using st1(1) by simp
    from build_span_resources [OF wf this SpanArcKind _ _ Cons.prems(4)] Cons.prems(2,3) show ?thesis by simp
  next
    case CrossConnectArcKind
    then have "build_cross_connect lm s w a st = Inr st1" using st1(1) by simp
    from build_cross_connect_resources [OF wf this CrossConnectArcKind _ _ Cons.prems(4)] Cons.prems(2,3) show ?thesis by simp
  qed
  then show ?case using Cons.IH [OF st1(2)] Cons.prems by simp
qed simp

lemma walk_end_published:
  assumes "walk s k arcs d" "port_published s k" "\<forall>a \<in> set arcs. arc_published s a"
  shows "port_published s d"
  using assms
proof (induction arcs arbitrary: k)
  case (Cons a arcs)
  have "walk s (arrival s a) arcs d" "port_published s (arrival s a)"
    using Cons.prems by (simp_all add: walk_Cons arc_published_def)
  then show ?case using Cons by simp
qed simp

lemma candidate_resources:
  assumes wf: "snapshot_wf s" and plan: "BuildPlan lm dg s r rd arcs = Inr plan" and route: "candidate_route s r arcs"
    and step: "step \<in> set (pl_steps plan)"
  shows "recorded s (set arcs) (ps_resource step)"
proof -
  let ?w = "rq_channel_width_slots r"
  obtain p profile blocked st where st: "FindPort s (rq_source r) = Some p"
      "build_arcs lm dg s ?w arcs (initial_build s ?w (rq_source r) p profile blocked) = Inr st"
    and eq: "plan = Seal dg (plan_of_state dg s r rd (length arcs)
       (finish_steps (rq_destination r) (close_segment lm False (ResourceKey RNode []) st)))"
    by (rule BuildPlan_Inr [OF plan])
  have src: "port_published s (rq_source r)" and pub: "\<forall>a \<in> set arcs. arc_published s a"
    and walk: "walk s (rq_source r) arcs (rq_destination r)"
    using route by (auto simp: candidate_route_def)
  have "\<forall>res \<in> set (resources (initial_build s ?w (rq_source r) p profile blocked)). recorded s (set arcs) res"
    using src FindNode_iff [OF wf] by (auto simp: initial_build_def recorded_def Let_def resources_def push_step_def
        note_domains_def assume_capability_def add_cost_def split: option.split)
  from build_arcs_resources [OF wf st(2) pub subset_refl this]
  have "\<forall>res \<in> set (resources st). recorded s (set arcs) res" .
  moreover have "recorded s (set arcs) (ForPort (rq_destination r))"
    using walk_end_published [OF walk src pub] by (auto simp: recorded_def)
  ultimately have "\<forall>res \<in> set (resources (finish_steps (rq_destination r) (close_segment lm False (ResourceKey RNode []) st))).
      recorded s (set arcs) res"
    by (auto simp: finish_steps_def)
  then show ?thesis using step by (auto simp: eq plan_of_state_def resources_def)
qed

section \<open>Checking a resource\<close>

text \<open>
  What the validator needs of the identifiers: the alphabet of strong identifiers, no colon inside a node
  id (the text of a port key separates node and port at its first colon), and unique span and
  cross-connect ids.
\<close>

definition ids_resolvable :: "TopologySnapshot \<Rightarrow> bool" where
  "ids_resolvable s \<longleftrightarrow>
     (\<forall>p \<in> set (s_ports s). IsValidIdText (pk_node (pt_key p)) \<and> CHR '':'' \<notin> set (pk_node (pt_key p)) \<and> IsValidIdText (pk_port (pt_key p))) \<and>
     (\<forall>n \<in> set (s_nodes s). IsValidIdText (nd_id n)) \<and>
     (\<forall>x \<in> set (s_spans s). IsValidIdText (sp_id x)) \<and> distinct (map sp_id (s_spans s)) \<and>
     (\<forall>x \<in> set (s_cross_connects s). IsValidIdText (cc_id x)) \<and> distinct (map cc_id (s_cross_connects s))"

lemma find_unique:
  assumes "distinct (map key xs)" "i < length xs"
  shows "find (\<lambda>r. key r = key (xs ! i)) xs = Some (xs ! i)"
  using assms
proof (induction xs arbitrary: i)
  case (Cons x xs)
  show ?case
  proof (cases i)
    case (Suc j)
    then have "key (xs ! j) \<in> key ` set xs" using Cons.prems(2) by simp
    then have "key x \<noteq> key (xs ! j)" using Cons.prems(1) by auto
    then show ?thesis using Cons Suc by simp
  qed simp
qed simp

lemma check_port_ok:
  assumes wf: "snapshot_wf s" and ids: "ids_resolvable s" and pub: "port_published s k" and step: "ps_resource step = ForPort k"
  shows "check_step plan s step = []"
proof -
  obtain p where p: "FindPort s k = Some p" "pt_admin p = Known Up" using pub by (auto simp: port_published_def)
  then have mem: "p \<in> set (s_ports s)" "pt_key p = k" using FindPort_iff [OF wf] by auto
  then have id: "IsValidIdText (pk_node k)" "CHR '':'' \<notin> set (pk_node k)" "IsValidIdText (pk_port k)"
    using ids by (auto simp: ids_resolvable_def)
  then have colon: "find_char (CHR '':'') (CanonicalText k) = Some (length (pk_node k))"
    by (simp add: CanonicalText_def find_char_append)
  have parts: "take (length (pk_node k)) (CanonicalText k) = pk_node k" "drop (Suc (length (pk_node k))) (CanonicalText k) = pk_port k"
    by (simp_all add: CanonicalText_def)
  show ?thesis
    using colon parts id p step by (simp add: check_step_def check_port_step_def ForPort_def ParseId_def admin_up_def Let_def)
qed

lemma check_node_iff:
  assumes "ids_resolvable s" "FindNode s (nd_id n) = Some n" "snapshot_wf s" "ps_resource step = ForNode (nd_id n)"
  shows "check_step plan s step = [] \<longleftrightarrow> nd_admin n = Known Up"
proof -
  have "n \<in> set (s_nodes s)" using assms(2) FindNode_iff [OF assms(3)] by simp
  then have "IsValidIdText (nd_id n)" using assms(1) by (simp add: ids_resolvable_def)
  then show ?thesis
    using assms(2,4) by (simp add: check_step_def check_node_step_def ForNode_def ParseId_def admin_up_def fail_at_def)
qed

lemma check_cross_connect_ok:
  assumes "ids_resolvable s" "x < length (s_cross_connects s)" "cc_admin (s_cross_connects s ! x) = Known Up"
    "ps_resource step = ForCrossConnect (cc_id (s_cross_connects s ! x))"
  shows "check_step plan s step = []"
proof -
  have "IsValidIdText (cc_id (s_cross_connects s ! x))" "distinct (map cc_id (s_cross_connects s))"
    using assms(1,2) by (simp_all add: ids_resolvable_def)
  then show ?thesis
    using assms(3,4) find_unique [OF _ assms(2), of cc_id]
    by (simp add: check_step_def check_cross_connect_step_def ForCrossConnect_def ParseId_def admin_up_def)
qed

text \<open>The recorded channel lies inside the usable spectrum of its span.\<close>

lemma wanted_mask_set:
  assumes "first_slot ch + width_slots ch \<le> kMaxSpectrumSlots"
  shows "mask_wf (wanted_mask ch) \<and> mask_set (wanted_mask ch) = {first_slot ch ..< first_slot ch + width_slots ch}"
proof -
  have bound: "first_slot ch + i < 2 ^ 16" "first_slot ch + i < kMaxSpectrumSlots" if "i < width_slots ch" for i
    using assms that by (simp_all add: kMaxSpectrumSlots_def)
  have "n \<le> width_slots ch \<Longrightarrow>
      mask_wf (fold (\<lambda>i wanted. Mask_Set ((first_slot ch + i) mod 2 ^ 16) wanted) [0 ..< n] Mask_None) \<and>
      mask_set (fold (\<lambda>i wanted. Mask_Set ((first_slot ch + i) mod 2 ^ 16) wanted) [0 ..< n] Mask_None) =
        {first_slot ch ..< first_slot ch + n}" for n
  proof (induction n)
    case (Suc n)
    then show ?case using bound [of n] by (auto simp: mask_set_Set)
  qed simp
  then show ?thesis unfolding wanted_mask_def by blast
qed

lemma usable_mask_base: "usable_mask s e = base_mask (s_spectrum s) 1 e"
  by (simp add: usable_mask_def base_mask_def)

lemma channel_in_usable:
  assumes wf: "snapshot_wf s" and free: "channel_free s w e x" and w: "0 < w" and ch: "first_slot ch = x" "width_slots ch = w"
  shows "Mask_IsSubsetOf (wanted_mask ch) (usable_mask s e)"
proof -
  have slots: "unat (slot_count (s_spectrum s)) \<le> kMaxSpectrumSlots" using wf by (simp add: snapshot_wf_def)
  have "x + (w - 1) < unat (slot_count (s_spectrum s))" using free w by (simp only: channel_free_def)
  then have "x + w \<le> kMaxSpectrumSlots" using slots w by linarith
  then have m: "mask_wf (wanted_mask ch)" "mask_set (wanted_mask ch) = {x ..< x + w}" using wanted_mask_set [of ch] ch by simp_all
  have "y \<in> mask_set (base_mask (s_spectrum s) 1 e)" if "y \<in> {x ..< x + w}" for y
  proof -
    define k where "k = y - x"
    then have "k < w" "y = x + k" using that by auto
    then have "channel_free s 1 e y" using free by (cases e) (simp_all add: channel_free_def)
    then show ?thesis using mask_set_base [OF wf zero_less_one] by simp
  qed
  then show ?thesis using m by (simp add: usable_mask_base mask.subset subset_iff)
qed

lemma check_span_ok:
  assumes wf: "snapshot_wf s" and ids: "ids_resolvable s" and w: "0 < w"
    and rs: "list_all2 (reserved s w) (span_arcs arcs) (pl_reservations plan)" and range: "\<forall>a \<in> set (span_arcs arcs). ar_index a < length (s_spans s)"
    and a: "a \<in> set (span_arcs arcs)" "sp_admin (s_spans s ! ar_index a) = Known Up"
    and step: "ps_resource step = ForSpan (sp_id (s_spans s ! ar_index a))"
  shows "check_step plan s step = []"
proof -
  let ?sp = "s_spans s ! ar_index a"
  have uniq: "distinct (map sp_id (s_spans s))" and id: "IsValidIdText (sp_id ?sp)" using ids range a by (auto simp: ids_resolvable_def)
  have found: "find_span s (sp_id ?sp) = Some ?sp" using find_unique [OF uniq] range a(1) by (simp add: find_span_def)
  obtain v0 where "v0 \<in> set (pl_reservations plan)" "reserved s w a v0"
    using rs a(1) by (metis list_all2_conv_all_nth in_set_conv_nth)
  then obtain v where v: "find (\<lambda>v. rv_resource v = ps_resource step) (pl_reservations plan) = Some v"
    using step by (cases "find (\<lambda>v. rv_resource v = ps_resource step) (pl_reservations plan)")
      (auto simp: find_None_iff reserved_def)
  then have v': "v \<in> set (pl_reservations plan)" "rv_resource v = ForSpan (sp_id ?sp)" using step by (auto simp: find_Some_iff)
  then obtain b where b: "b \<in> set (span_arcs arcs)" "reserved s w b v" using rs by (metis list_all2_conv_all_nth in_set_conv_nth)
  then have "sp_id (s_spans s ! ar_index b) = sp_id ?sp" using v'(2) by (simp add: reserved_def ForSpan_def)
  then have "s_spans s ! ar_index b = ?sp" using uniq range a(1) b(1) by (metis (no_types, lifting) distinct_conv_nth length_map nth_map)
  then have "Mask_IsSubsetOf (wanted_mask (rv_channel v)) (usable_mask s (sp_blocked_slots ?sp))"
    using b(2) by (intro channel_in_usable [OF wf _ w]) (auto simp: reserved_def)
  then show ?thesis
    using found v a(2) id step by (simp add: check_step_def check_span_step_def ForSpan_def ParseId_def admin_up_def)
qed

section \<open>Checking a segment\<close>

lemma differs_self [simp]: "\<not> differs x x"
proof (cases x)
  case (Fin r)
  have "fl 0 = Fin 0" by code_simp
  then show ?thesis by (simp add: Fin differs_def dsub_def tolerance_value)
qed (simp_all add: differs_def dsub_def tolerance_value)

lemma recount_totals:
  assumes "\<forall>u \<in> set us. \<exists>r. find_span s (su_id u) = Some r \<and> sp_length_m r = Known (su_length_m u) \<and>
    sp_loss_db r = Known (su_loss_db u) \<and> sp_osnr_db r = Known (su_osnr_db u)"
  shows "fold (recount_span lm s) us (0, Fin 0, Fin 0, 0) = totals_of lm us"
  using assms
proof (induction us rule: rev_induct)
  case Nil
  then show ?case by (simp add: totals_of_def loss_sum_def osnr_inverse_sum_def)
next
  case (snoc u us)
  then have "fold (recount_span lm s) us (0, Fin 0, Fin 0, 0) = totals_of lm us" by simp
  moreover obtain r where "find_span s (su_id u) = Some r" "sp_length_m r = Known (su_length_m u)"
    "sp_loss_db r = Known (su_loss_db u)" "sp_osnr_db r = Known (su_osnr_db u)" using snoc.prems by auto
  ultimately show ?case
    by (cases "totals_of lm us") (simp add: recount_span_def [of lm s u] totals_of_snoc)
qed

lemma check_segment_ok:
  assumes ids: "ids_resolvable s" and acc: "accumulates lm g" and range: "\<forall>a \<in> set (span_arcs arcs). ar_index a < length (s_spans s)"
    and uses: "\<forall>u \<in> set (sg_spans g). \<exists>a \<in> set (span_arcs arcs). uses_span s a u"
  shows "check_segment lm s g = []"
proof -
  have uniq: "distinct (map sp_id (s_spans s))" using ids by (simp add: ids_resolvable_def)
  have "fold (recount_span lm s) (sg_spans g) (0, Fin 0, Fin 0, 0) = totals_of lm (sg_spans g)"
  proof (rule recount_totals, rule ballI)
    fix u assume "u \<in> set (sg_spans g)"
    then obtain a where a: "a \<in> set (span_arcs arcs)" "uses_span s a u" using uses by blast
    then have "find_span s (su_id u) = Some (s_spans s ! ar_index a)"
      using find_unique [OF uniq] range by (simp add: find_span_def uses_span_def Let_def)
    with a(2) show "\<exists>r. find_span s (su_id u) = Some r \<and> sp_length_m r = Known (su_length_m u) \<and>
        sp_loss_db r = Known (su_loss_db u) \<and> sp_osnr_db r = Known (su_osnr_db u)"
      by (simp add: uses_span_def Let_def)
  qed
  then show ?thesis using acc by (simp add: check_segment_def totals_of_def accumulates_def Let_def)
qed

section \<open>Revalidating a candidate\<close>

definition nodes_in_service :: "TopologySnapshot \<Rightarrow> PlanArtifact \<Rightarrow> bool" where
  "nodes_in_service s plan \<longleftrightarrow>
     (\<forall>step \<in> set (pl_steps plan). \<forall>n \<in> set (s_nodes s). ps_resource step = ForNode (nd_id n) \<longrightarrow> nd_admin n = Known Up)"

lemma walk_indices:
  "walk s k arcs d \<Longrightarrow> a \<in> set (span_arcs arcs) \<Longrightarrow> ar_index a < length (s_spans s)"
  by (induction arcs arbitrary: k) (auto simp: walk_Cons DeparturePort_def Let_def split: if_splits)

lemma candidate_checks:
  assumes wf: "snapshot_wf s" and ids: "ids_resolvable s" and w: "0 < rq_channel_width_slots r"
    and plan: "BuildPlan lm dg s r rd arcs = Inr plan" and route: "candidate_route s r arcs"
  shows "concat (map (check_step plan s) (pl_steps plan)) = [] \<longleftrightarrow> nodes_in_service s plan"
    "concat (map (check_segment lm s) (pl_segments plan)) = []"
proof -
  have range: "\<forall>a \<in> set (span_arcs arcs). ar_index a < length (s_spans s)"
    using route walk_indices by (auto simp: candidate_route_def)
  note rs = plan_reservations_free [OF wf w plan] and segs = plan_segments [OF plan]
  have "check_step plan s step = [] \<longleftrightarrow> (\<forall>n \<in> set (s_nodes s). ps_resource step = ForNode (nd_id n) \<longrightarrow> nd_admin n = Known Up)"
    if step: "step \<in> set (pl_steps plan)" for step
    using candidate_resources [OF wf plan route step] unfolding recorded_def
  proof (elim disjE exE bexE conjE)
    fix k assume "ps_resource step = ForPort k" "port_published s k"
    then show ?thesis using check_port_ok [OF wf ids] by (simp add: ForPort_def ForNode_def)
  next
    fix n assume n: "ps_resource step = ForNode (nd_id n)" "FindNode s (nd_id n) = Some n"
    have "m = n" if "m \<in> set (s_nodes s)" "nd_id m = nd_id n" for m
      using that n(2) FindNode_iff [OF wf, of "nd_id n" m] by simp
    moreover have "n \<in> set (s_nodes s)" using n(2) FindNode_iff [OF wf] by simp
    ultimately show ?thesis using check_node_iff [OF ids n(2) wf n(1)] n(1) by (auto simp: ForNode_def)
  next
    fix a assume a: "a \<in> set arcs" "arc_published s a" "ar_kind a = SpanArcKind" "ps_resource step = ForSpan (sp_id (s_spans s ! ar_index a))"
    then have "a \<in> set (span_arcs arcs)" "sp_admin (s_spans s ! ar_index a) = Known Up"
      by (auto simp: arc_published_def Let_def)
    then show ?thesis using check_span_ok [OF wf ids w rs range _ _ a(4)] a(4) by (simp add: ForSpan_def ForNode_def)
  next
    fix a assume a: "a \<in> set arcs" "arc_published s a" "ar_kind a = CrossConnectArcKind" "ar_index a < length (s_cross_connects s)"
      "ps_resource step = ForCrossConnect (cc_id (s_cross_connects s ! ar_index a))"
    then have "cc_admin (s_cross_connects s ! ar_index a) = Known Up" by (auto simp: arc_published_def Let_def)
    then show ?thesis using check_cross_connect_ok [OF ids a(4) _ a(5)] a(5) by (simp add: ForCrossConnect_def ForNode_def)
  qed
  then show "concat (map (check_step plan s) (pl_steps plan)) = [] \<longleftrightarrow> nodes_in_service s plan"
    by (auto simp: nodes_in_service_def)
  have "check_segment lm s g = []" if g: "g \<in> set (pl_segments plan)" for g
  proof (rule check_segment_ok [OF ids _ range])
    show "accumulates lm g" using segs g by blast
    have l: "list_all2 (uses_span s) (span_arcs arcs) (concat (map sg_spans (pl_segments plan)))" using segs by blast
    show "\<forall>u \<in> set (sg_spans g). \<exists>a \<in> set (span_arcs arcs). uses_span s a u"
    proof
      fix u assume "u \<in> set (sg_spans g)"
      then have "u \<in> set (concat (map sg_spans (pl_segments plan)))" using g by auto
      then show "\<exists>a \<in> set (span_arcs arcs). uses_span s a u" using l by (metis list_all2_conv_all_nth in_set_conv_nth)
    qed
  qed
  then show "concat (map (check_segment lm s) (pl_segments plan)) = []" by simp
qed


text \<open>
  C32: what a valid verdict of the binding validation means, for any artifact: the revisions are the
  runtime's, the seal verifies, the evidence is fresh or accepted as restored, the generation of every
  bound source is the current one, and the snapshot has the bound content digest; and conversely.  In
  every other case the report carries a failure status.
\<close>

theorem ValidatePlanBindings_decides:
  "(vr_validity (ValidatePlanBindings dg plan s policy) = PvValid \<longleftrightarrow>
      pl_format_version plan = kPlanFormatVersion \<and> pl_rule_version plan = kPlanningRuleVersion \<and>
      VerifySeal dg plan = OkStatus \<and> (s_freshness s = Fresh \<or> vp_accept_restored_evidence policy) \<and>
      list_all (\<lambda>b. HasSource s (sb_source b) \<and> SourceGeneration s (sb_source b) = sb_generation b) (pl_bound_sources plan) \<and>
      pl_snapshot_digest plan = s_digest s) \<and>
   (vr_validity (ValidatePlanBindings dg plan s policy) = PvValid \<longleftrightarrow>
      \<not> failed (vr_status (ValidatePlanBindings dg plan s policy)))"
proof -
  have seal: "failed (VerifySeal dg plan) \<longleftrightarrow> VerifySeal dg plan \<noteq> OkStatus"
    by (simp add: VerifySeal_def refuse_if_def Failure_def OkStatus_def failed_def)
  have "vr_validity (ValidatePlanBindings dg plan s policy) = PvValid \<longleftrightarrow> \<not> failed (vr_status (ValidatePlanBindings dg plan s policy))"
    by (simp add: ValidatePlanBindings_def new_report_def Let_def)
  then show ?thesis
    using seal by (auto simp: ValidatePlanBindings_valid bindings_hold_def list_all_iff)
qed

section \<open>Where the report misleads\<close>

text \<open>
  A plan whose seal does not verify, revalidated with \<open>revalidate_on_mismatch\<close>: when its steps and
  segments happen to reproduce, the status is replaced by one that speaks of changed generations and
  no longer mentions the integrity failure (the validity still does).
\<close>

lemma RevalidatePlan_hides_integrity:
  assumes "pl_format_version plan = kPlanFormatVersion" "pl_rule_version plan = kPlanningRuleVersion" "failed (VerifySeal dg plan)"
    "vp_revalidate_on_mismatch policy" "concat (map (check_step plan s) (pl_steps plan)) = []"
    "concat (map (check_segment lm s) (pl_segments plan)) = []"
  shows "vr_validity (RevalidatePlan lm dg plan s policy) = PvIntegrityFailure \<and>
    code (vr_status (RevalidatePlan lm dg plan s policy)) = Stale"
  using assms by (simp add: RevalidatePlan_def ValidatePlanBindings_def Let_def Failure_def)

text \<open>A recorded channel beyond the 256 slots of a mask asks for nothing, so it always counts as usable.\<close>

lemma wanted_mask_beyond:
  assumes "kMaxSpectrumSlots \<le> first_slot ch" "first_slot ch + width_slots ch \<le> 2 ^ 16"
  shows "wanted_mask ch = Mask_None"
proof -
  have "n \<le> width_slots ch \<Longrightarrow> fold (\<lambda>i wanted. Mask_Set ((first_slot ch + i) mod 2 ^ 16) wanted) [0 ..< n] Mask_None = Mask_None" for n
  proof (induction n)
    case (Suc n)
    then have "\<not> (first_slot ch + n) mod 2 ^ 16 < kMaxSpectrumSlots" using assms by simp
    then show ?case using Suc by (simp add: Mask_Set_def)
  qed simp
  then show ?thesis by (simp add: wanted_mask_def)
qed

end
