(* ===== verification/Search_Example.thy ===== *)
theory Search_Example
  imports Planner Example
begin

text \<open>
  The search and the planner on the small network: one route, the span from \<open>A\<close> to \<open>B\<close>.  The two
  functions of the mathematical library are replaced by functions that are exact on the one value the
  example needs.
\<close>

definition ex_libm :: libm where
  "ex_libm = \<lparr>lm_pow = (\<lambda>b e. Fin (1 / 1024)), lm_log10 = (\<lambda>d. Fin (- 3))\<rparr>"

definition ex_constraints :: ConstraintSet where
  "ex_constraints = \<lparr>excluded_nodes = [], excluded_ports = [], excluded_spans = [], excluded_cross_connects = [],
     excluded_failure_domains = [], max_members_per_failure_domain = [], max_total_distance_m = None,
     max_total_span_count = None, max_total_loss_db = None, min_segment_osnr_db = None, allow_regeneration = True,
     allow_wavelength_conversion = True, require_spectrum_continuity_across_regeneration = False,
     allow_repeated_resources = False\<rparr>"

definition ex_request :: PlanningRequest where
  "ex_request = \<lparr>rq_format_version = 1, rq_id = ''r1'', rq_source = ex_A, rq_destination = ex_B,
     rq_channel_width_slots = 1, rq_max_candidates = 1, rq_max_regenerations = 8, rq_max_hops = 128,
     rq_max_total_cost = None, rq_disjointness = DisjointNone, rq_constraints = ex_constraints,
     rq_required_source_generations = [], rq_required_snapshot_generation = None,
     rq_expected_snapshot_digest = None, rq_accept_restored_evidence = False,
     rq_max_search_expansions = 1000, rq_max_search_labels = 1000\<rparr>"

definition ex_options :: PlannerOptions where
  "ex_options = \<lparr>expansion_ceiling = kMaxSearchExpansionsCeiling, label_ceiling = kMaxSearchLabelsCeiling,
     collect_witnesses = True\<rparr>"

definition ex_port_info :: "nat \<Rightarrow> nat option \<Rightarrow> bool \<Rightarrow> PortInfo" where
  "ex_port_info n p absent = \<lparr>pi_base_mask = full_mask, pi_mask_known = True, pi_admin = Good, pi_conflicting = False,
     pi_partial_coverage = False, pi_unresolved_arcs = False, pi_transmit = (if p = None then Missing else Good),
     pi_transmit_absent = absent, pi_profile_index = p, pi_node_index = Some n\<rparr>"

definition ex_span_info :: SpanInfo where
  "ex_span_info = \<lparr>si_length_m = Known 80000, si_loss_db = Known (Fin 20), si_osnr_db = Known (Fin 30),
     si_base_mask = full_mask, si_mask_known = True, si_admin = Good, si_conflicting = False, si_cost = 10,
     si_domains = [''duct'']\<rparr>"

definition ex_cx :: SearchContext where
  "ex_cx = \<lparr>cx_snapshot = ex_snapshot, cx_request = ex_request, cx_libm = ex_libm, cx_excluded_nodes = [],
     cx_excluded_ports = [], cx_excluded_spans = [], cx_excluded_cross_connects = [], cx_excluded_domains = [],
     cx_port_info = [ex_port_info 0 (Some 0) False, ex_port_info 1 None True],
     cx_span_info = [ex_span_info], cx_cross_connect_info = [], cx_label_limit = 1000, cx_expansion_limit = 1000\<rparr>"

lemma base_mask_open: "slot_count m = 256 \<Longrightarrow> base_mask m 1 (Known Mask_None) = full_mask"
  by (simp add: base_mask_def usable_slots_open FirstSlotMask_1 [simplified])

lemma ex_lookups:
  "NodeIndex ex_snapshot ''A'' = Some 0" "NodeIndex ex_snapshot ''B'' = Some 1"
  "ProfileIndex ex_snapshot ''zr'' = Some 0" "s_conflicted ex_snapshot = []"
  "HasUnresolvedArcs ex_snapshot 0 = False" "HasUnresolvedArcs ex_snapshot (Suc 0) = False"
  by code_simp+

lemma ex_search_context: "search_context ex_libm ex_snapshot ex_request ex_options = ex_cx"
proof -
  have spectrum: "slot_count (s_spectrum ex_snapshot) = 256" by (simp add: ex_snapshot_def)
  have conf: "IsConflicted ex_snapshot k = False" for k
    by (simp add: IsConflicted_def ex_lookups binary_search_def lookup_index_def)
  have p: "s_ports ex_snapshot = [ex_port ex_A (Some ''zr''), ex_port ex_B None]"
     "s_nodes ex_snapshot = [ex_node ''A'' 2, ex_node ''B'' 4]" "s_spans ex_snapshot = [ex_span ''s1'' ex_A ex_B 10]" "s_cross_connects ex_snapshot = []"
    by (simp_all add: ex_snapshot_def)
  have p0: "port_info_of ex_snapshot 1 0 = ex_port_info 0 (Some 0) False"
    by (simp add: port_info_of_def p ex_port_def Let_def base_mask_open [OF spectrum, simplified] conf ex_lookups ex_A_def ex_node_def ClassifyAdmin_def ex_port_info_def)
  have p1: "port_info_of ex_snapshot 1 1 = ex_port_info 1 None True"
    by (simp add: port_info_of_def p ex_port_def Let_def base_mask_open [OF spectrum, simplified] conf ex_lookups ex_B_def ex_node_def ClassifyAdmin_def ex_port_info_def)
  have s0: "span_info_of ex_snapshot 1 0 = ex_span_info"
    by (simp add: span_info_of_def Let_def p ex_span_def base_mask_open [OF spectrum, simplified] conf ClassifyAdmin_def ex_span_info_def)
  show ?thesis
    using p0 p1 s0
    by (simp add: search_context_def ex_request_def ex_constraints_def ex_options_def ex_cx_def p std_sort_def kMaxSearchExpansionsCeiling_def kMaxSearchLabelsCeiling_def Let_def)
qed


section \<open>One expansion\<close>

lemma fl_exact: "fl 20 = Fin 20" "fl 30 = Fin 30" "fl 40 = Fin 40" "fl (1 / 1024) = Fin (1 / 1024)"
  by code_simp+

lemma tolerance_above:
  assumes "fl x = Fin x" "y \<le> x"
  shows "\<not> dless (dadd (Fin x) tolerance) (Fin y)"
proof -
  let ?t = "4835703278458517 / 4835703278458516698824704 :: rat"
  have "dle (fl x) (fl (x + ?t))" by (rule fl_mono) simp
  then have "dle (Fin x) (dadd (Fin x) tolerance)" by (simp add: assms(1) tolerance_value)
  then show ?thesis using assms(2) dle_dless_trans by fastforce
qed

definition ex_start :: Label where
  "ex_start = start_label ex_cx 0 True"

lemma ex_start_checks: "run_checks (start_checks ex_cx 0) True = ([], Inr True)"
  by code_simp

definition ex_arrived :: Label where
  "ex_arrived = \<lparr>l_port_index = 1, l_parent = Some 0, l_arc_kind = SpanArcKind, l_arc_index = 0, l_arc_reversed = False,
     l_is_start = False, l_profile_index = Some 0, l_mask = full_mask, l_cost = 18, l_distance_m = 80000,
     l_loss_db = Fin 20, l_osnr_inverse = Fin (1 / 1024), l_span_count = 1, l_hops = 1, l_regenerations = 0,
     l_proven = True, l_sequence = 0, l_retained = False, l_expanded = False\<rparr>"

definition ex_settled :: Label where
  "ex_settled = ex_start\<lparr>l_retained := True, l_expanded := True\<rparr>"

abbreviation ex_arc :: SpanArc where
  "ex_arc \<equiv> \<lparr>span_index = 0, reversed = False\<rparr>"

lemma ex_settled_fields:
  "l_profile_index ex_settled = Some 0" "l_span_count ex_settled = 0" "l_proven ex_settled" "l_loss_db ex_settled = Fin 0"
  "l_osnr_inverse ex_settled = Fin 0"
  by (simp_all add: ex_settled_def ex_start_def start_label_def ex_cx_def ex_port_info_def Let_def)

lemma ex_next:
  "next_distance ex_cx ex_settled 0 = Some 80000" "next_loss ex_cx ex_settled 0 = Fin 20"
  "next_osnr_inverse ex_cx ex_settled 0 = Fin (1 / 1024)"
proof -
  show "next_distance ex_cx ex_settled 0 = Some 80000" by code_simp
  have span: "cx_span_info ex_cx ! 0 = ex_span_info" "cx_libm ex_cx = ex_libm" by (simp_all add: ex_cx_def)
  show "next_loss ex_cx ex_settled 0 = Fin 20"
    by (simp add: next_loss_def span ex_span_info_def ex_settled_fields fl_exact)
  show "next_osnr_inverse ex_cx ex_settled 0 = Fin (1 / 1024)"
    by (simp add: next_osnr_inverse_def span ex_span_info_def ex_settled_fields OsnrToInverse_def ex_libm_def fl_exact)
qed

lemma ex_reach: "run_checks (reach_checks ex_cx ex_settled 80000 (Fin 20) (Fin (1 / 1024)) @ cs) p = run_checks cs p"
proof -
  have prof: "label_profile ex_cx ex_settled = Some ex_profile"
    by (simp add: label_profile_def ex_settled_fields ex_cx_def ex_snapshot_def)
  have c: "cx_libm ex_cx = ex_libm" "min_segment_osnr_db (rq_constraints (cx_request ex_cx)) = None"
    by (simp_all add: ex_cx_def ex_request_def ex_constraints_def)
  have osnr: "InverseToOsnr ex_libm (Fin (1 / 1024)) = Fin 30"
    by (simp add: InverseToOsnr_def ex_libm_def fl_exact)
  show ?thesis
    using tolerance_above [of 40 20] tolerance_above [of 30 15]
    by (simp add: reach_checks_def prof c osnr ex_profile_def known_exceeded_def ex_settled_fields fl_exact Let_def)
qed

lemma ex_other_checks:
  "run_checks (span_entry_checks ex_cx ex_settled ex_arc
     @ cost_checks ex_cx [ex_settled] SpanArcKind 0 1 (next_cost ex_cx ex_settled 10 1)
     @ span_impairment_checks ex_cx ex_settled 0 @ target_checks ex_cx 1 @ span_spectrum_checks ex_cx ex_settled 0 1) True =
   ([], Inr True)"
  by code_simp

lemma run_checks_append:
  "run_checks cs p = ([], Inr q) \<Longrightarrow> run_checks (cs @ ds) p = run_checks ds q"
  by (induction cs p rule: run_checks.induct) (auto split: if_splits prod.splits)

lemma ex_total: "run_checks (total_checks ex_cx ex_settled 80000 (Fin 20)) True = ([], Inr True)"
  by (simp add: total_checks_def ex_cx_def ex_request_def ex_constraints_def above_limit_def Let_def)

lemma ex_expand: "expand_span ex_cx 0 [ex_settled] ex_settled ex_arc = ArcPush [] ex_arrived"
proof -
  have idx: "PortIndex (cx_snapshot ex_cx) (span_to_key ex_cx ex_arc) = Some 1" by code_simp
  have cost: "si_cost (cx_span_info ex_cx ! 0) = 10" by (simp add: ex_cx_def ex_span_info_def)
  have "run_checks (span_checks ex_cx [ex_settled] ex_settled ex_arc 1) True = ([], Inr True)"
    using run_checks_append [OF ex_other_checks] ex_total
    by (simp add: span_checks_def ex_next ex_reach cost Let_def)
  moreover have "span_label ex_cx 0 ex_settled ex_arc 1 True = ex_arrived"
  proof -
    have m: "span_mask ex_cx ex_settled 0 1 = full_mask" by code_simp
    have c: "next_cost ex_cx ex_settled 10 1 = Some 18" by code_simp
    have h: "l_hops ex_settled = 0" "l_regenerations ex_settled = 0"
      by (simp_all add: ex_settled_def ex_start_def start_label_def Let_def)
    show ?thesis using m c by (simp add: span_label_def ex_arrived_def ex_next cost ex_settled_fields h Let_def)
  qed
  ultimately show ?thesis by (simp add: expand_span_def idx ex_settled_fields)
qed

section \<open>The loop\<close>

definition ex_stats :: "nat \<Rightarrow> nat \<Rightarrow> PlanningStatistics" where
  "ex_stats n a = \<lparr>labels_created = 0, labels_expanded = n, labels_dominated = 0, peak_frontier = 0, arcs_examined = a,
     states_visited = n, stat_truncated = False\<rparr>"

definition ex_entry :: "u64 \<Rightarrow> nat \<Rightarrow> QueueEntry" where
  "ex_entry c i = \<lparr>q_cost = c, q_hops = i, q_regenerations = 0, q_sequence = i, q_label = i\<rparr>"

definition ex_state ::
  "Label list \<Rightarrow> QueueEntry list \<Rightarrow> (bucket_key \<times> nat list) list \<Rightarrow> nat \<Rightarrow> PlanningStatistics \<Rightarrow> nat list \<Rightarrow>
     (u64 \<times> nat \<times> nat) option \<Rightarrow> SearchState" where
  "ex_state ls q bs n stats ds key =
     \<lparr>st_labels = ls, st_frontier = q, st_buckets = bs, st_sequence = n, st_limitations = 0, st_witnesses = [],
      st_cut_counts = replicate kCutReasonCount 0, st_statistics = stats, st_destination_labels = ds,
      st_destination_count = length ds, st_last_key = key, st_stopped_on_key = False, st_truncated = False\<rparr>"

definition ex_reached :: Label where
  "ex_reached = ex_arrived\<lparr>l_sequence := 1, l_retained := True, l_expanded := True\<rparr>"

lemma ex_start_fields:
  "l_cost ex_start = 3" "l_hops ex_start = 0" "l_regenerations ex_start = 0" "l_port_index ex_start = 0"
  "l_profile_index ex_start = Some 0" "l_expanded ex_start = False" "l_sequence ex_start = 0" "l_parent ex_start = None"
  by code_simp+

lemma ex_initial: "initial_state ex_cx 0 [] True = ex_state [ex_start] [ex_entry 3 0] [] 1 no_statistics [] None"
proof -
  have "ex_start\<lparr>l_sequence := 0\<rparr> = ex_start" by (simp add: ex_start_def start_label_def Let_def)
  then show ?thesis
    by (simp add: initial_state_def push_label_def record_notes_def frontier_push_def ex_start_def [symmetric]
        ex_start_fields ex_state_def ex_entry_def kLimitationNone_def Let_def)
qed

lemma ex_step1:
  "search_step ex_cx 1 (ex_state [ex_start] [ex_entry 3 0] [] 1 no_statistics [] None) =
     (Continue, ex_state [ex_settled, ex_arrived\<lparr>l_sequence := 1\<rparr>] [ex_entry 18 1] [((0, Some 0), [0])] 2 (ex_stats 1 1) [] None)"
proof -
  have ccs: "OutgoingCrossConnects (cx_snapshot ex_cx) 0 = []" and arcs: "OutgoingSpanArcs (cx_snapshot ex_cx) 0 = [ex_arc]"
    by (simp_all add: ex_cx_def ex_snapshot_def OutgoingCrossConnects_def OutgoingSpanArcs_def)
  have lims: "cx_expansion_limit ex_cx = 1000" "cx_label_limit ex_cx = 1000" by (simp_all add: ex_cx_def)
  have path: "label_path [ex_settled] 0 = [ex_settled]"
    by (subst label_path.simps) (simp add: ex_settled_def ex_start_fields)
  have settled: "ex_start\<lparr>l_retained := True, l_expanded := True\<rparr> = ex_settled" by (simp add: ex_settled_def)
  have port: "l_port_index ex_settled = 0" by (simp add: ex_settled_def ex_start_fields)
  have arrived: "l_cost ex_arrived = 18" "l_hops ex_arrived = 1" "l_regenerations ex_arrived = 0"
    by (simp_all add: ex_arrived_def)
  show ?thesis
    by (simp add: search_step_def process_entry_def settle_label_def mark_settled_def expand_label_def
        push_label_def frontier_push_def past_last_key_def bucket_of_def update_stats_def record_notes_def
        ex_state_def ex_entry_def no_statistics_def ex_stats_def lims ex_start_fields settled port arcs ccs path
        ex_expand arrived Let_def)
qed

lemma ex_step2:
  "search_step ex_cx 1 (ex_state [ex_settled, ex_arrived\<lparr>l_sequence := 1\<rparr>] [ex_entry 18 1] [((0, Some 0), [0])] 2 (ex_stats 1 1) [] None) =
     (Continue, ex_state [ex_settled, ex_reached] [] [((0, Some 0), [0]), ((1, Some 0), [1])] 2 (ex_stats 2 1) [1] (Some (18, 1, 0)))"
  by (simp add: search_step_def process_entry_def settle_label_def mark_settled_def note_destination_def past_last_key_def
      bucket_of_def update_stats_def ex_state_def ex_entry_def ex_stats_def ex_arrived_def ex_reached_def ex_cx_def Let_def)

lemma ex_loop:
  "search_loop ex_cx 1 (\<lambda>_. False) 0 (initial_state ex_cx 0 [] True) =
     (False, ex_state [ex_settled, ex_reached] [] [((0, Some 0), [0]), ((1, Some 0), [1])] 2 (ex_stats 2 1) [1] (Some (18, 1, 0)))"
proof -
  have frontier: "st_frontier (ex_state ls q bs n stats ds key) = q" for ls q bs n stats ds key by (simp add: ex_state_def)
  show ?thesis
    unfolding ex_initial
    by (subst search_loop.simps, simp add: ex_step1 [simplified] frontier, subst search_loop.simps, simp add: ex_step2 [simplified] frontier,
        subst search_loop.simps, simp add: frontier)
qed

definition ex_path :: RawPath where
  "ex_path = \<lparr>rp_arcs = [\<lparr>ar_kind = SpanArcKind, ar_index = 0, ar_reversed = False\<rparr>], rp_cost = 18, rp_hops = 1,
     rp_regenerations = 0, rp_proven = True\<rparr>"

definition ex_outcome :: SearchOutcome where
  "ex_outcome = \<lparr>so_status = OkStatus, so_exhausted = True, so_proved_optimum = True, so_paths = [ex_path],
     so_limitations = 0, so_witnesses = [], so_cuts = [],
     so_statistics = (ex_stats 2 1)\<lparr>labels_created := 2\<rparr>\<rparr>"

lemma ex_RunSearch: "RunSearch ex_libm ex_snapshot ex_request ex_options (\<lambda>_. False) = ex_outcome"
proof -
  have idx: "PortIndex ex_snapshot (rq_source ex_request) = Some 0" "PortIndex ex_snapshot (rq_destination ex_request) = Some 1"
    by code_simp+
  let ?s = "ex_state [ex_settled, ex_reached] [] [((0, Some 0), [0]), ((1, Some 0), [1])] 2 (ex_stats 2 1) [1] (Some (18, 1, 0))"
  have path: "label_path [ex_settled, ex_reached] (Suc 0) = [ex_reached, ex_settled]"
    by (subst label_path.simps, simp add: ex_reached_def ex_arrived_def, subst label_path.simps,
        simp add: ex_settled_def ex_start_fields)
  have start: "l_is_start ex_settled" by (simp add: ex_settled_def ex_start_def start_label_def Let_def)
  have raw: "raw_path [ex_settled, ex_reached] 1 = ex_path"
    by (simp add: raw_path_def path path_arcs_def start ex_path_def label_arc_def Let_def)
      (simp add: ex_reached_def ex_arrived_def)
  have cuts: "cut_list (replicate kCutReasonCount 0) = []" by code_simp
  have cov: "s_coverage_complete (cx_snapshot ex_cx)" by (simp add: ex_cx_def ex_snapshot_def)
  have ret: "l_retained ex_reached" by (simp add: ex_reached_def)
  have "finish_search ex_cx ?s = ex_outcome"
    using raw by (simp add: finish_search_def ex_state_def cuts cov ret ex_outcome_def ex_path_def ex_stats_def Let_def)
  then show ?thesis
    using ex_loop by (simp add: RunSearch_def ex_search_context idx ex_start_checks Let_def)
qed

end
