(* ===== verification/Search_Witnesses.thy ===== *)
theory Search_Witnesses
  imports Planner_Props Search_Example
begin

text \<open>
  Concrete instances, on the small network, of the properties of the builder, the search, the plan builder and the
  planner that have hypotheses.
\<close>

section \<open>The builder\<close>

lemma builder_reachable_step: "builder_reachable b \<Longrightarrow> builder_step b b' \<Longrightarrow> builder_reachable b'"
  unfolding builder_reachable_def by (blast intro: rtranclp.rtrancl_into_rtrancl)

definition ex_construction :: SnapshotBuilder where
  "ex_construction =
     (let b1 = SetId ''net'' (new_builder default_options);
          b2 = SetSpectrum \<lparr>grid = Flex12_5GHz, slot_count = 256\<rparr> (SetGeneration 3 b1);
          b3 = snd (AddNode (ex_node ''A'' 2) (snd (AddNode (ex_node ''B'' 4) (snd (AddSource ex_source b2)))));
          b4 = snd (AddPort (ex_port ex_A (Some ''zr'')) (snd (AddPort (ex_port ex_B None) b3)))
      in snd (AddReachProfile ex_profile (snd (AddSpan (ex_span ''s1'' ex_A ex_B 10) b4))))"

lemma ex_construction_reachable: "builder_reachable ex_construction"
proof -
  have "builder_reachable (new_builder default_options)" unfolding builder_reachable_def by blast
  then show ?thesis
    unfolding ex_construction_def Let_def by (intro builder_reachable_step [OF _ builder_step.profile]
      builder_reachable_step [OF _ builder_step.span_record] builder_reachable_step [OF _ builder_step.port]
      builder_reachable_step [OF _ builder_step.node] builder_reachable_step [OF _ builder_step.source]
      builder_reachable_step [OF _ builder_step.set_spectrum] builder_reachable_step [OF _ builder_step.set_generation]
      builder_reachable_step [OF _ builder_step.set_id])
qed

lemma ex_construction_builder: "ex_construction = ex_builder"
  by code_simp

lemma ex_builder_reachable: "builder_reachable ex_builder"
  using ex_construction_reachable unfolding ex_construction_builder .

lemma ex_wf: "snapshot_wf ex_snapshot"
proof -
  from ex_Build obtain s0 where s0: "assemble ex_builder = Inr s0" "ex_snapshot = s0\<lparr>s_digest := ex_digest s0\<rparr>"
    "\<not> failed (build_status ex_builder)" by (rule Build_Inr)
  show ?thesis using snapshot_wf_assemble [OF s0(1,3)] unfolding s0(2) by simp
qed

lemma ex_named: "snapshot_named ex_snapshot"
  by (simp add: snapshot_named_def ex_snapshot_def ex_source_def ex_src_def ex_node_def ex_port_def ex_span_def
      ex_profile_def ex_A_def ex_B_def port_named_def)

theorem Build_named_and_bounded_witness:
  "builder_reachable ex_builder \<and> fst (Build ex_digest ex_builder) = Inr ex_snapshot \<and> snapshot_bounded ex_snapshot"
  using Build_named_and_bounded [OF ex_builder_reachable ex_Build] ex_builder_reachable ex_Build by blast

section \<open>The search\<close>

lemma ex_path_found: "ex_path \<in> set (so_paths (RunSearch ex_libm ex_snapshot ex_request ex_options (\<lambda>_. False)))"
  by (simp add: ex_RunSearch ex_outcome_def)

lemma ex_request_width: "0 < rq_channel_width_slots ex_request"
  by (simp add: ex_request_def)

theorem RunSearch_paths_sound_witness:
  "ex_path \<in> set (so_paths (RunSearch ex_libm ex_snapshot ex_request ex_options (\<lambda>_. False))) \<and>
   walk ex_snapshot ex_A (rp_arcs ex_path) ex_B \<and> rp_hops ex_path = length (rp_arcs ex_path)"
proof -
  have ends: "rq_source ex_request = ex_A" "rq_destination ex_request = ex_B" by (simp_all add: ex_request_def)
  show ?thesis using RunSearch_paths_sound [OF ex_wf ex_path_found] ex_path_found by (simp add: ends)
qed


theorem RunSearch_paths_spectrum_witness:
  "rp_arcs ex_path \<noteq> [] \<and>
   (\<exists>xs. channels_ok ex_snapshot (rq_channel_width_slots ex_request) (rq_source ex_request) (rp_arcs ex_path) xs)"
  using RunSearch_paths_spectrum [OF ex_wf ex_path_found ex_request_width] by (simp add: ex_path_def)

lemma ex_path_proven: "rp_proven ex_path"
  by (simp add: ex_path_def)



section \<open>Plans\<close>

definition ex_digests :: digests where
  "ex_digests = \<lparr>dg_request = (\<lambda>r. replicate 32 1), dg_plan = (\<lambda>p. replicate 32 (of_nat (length (pl_steps p)))),
     dg_contribution = (\<lambda>s i. replicate 32 3), dg_format_double = (\<lambda>d. ''0'')\<rparr>"

theorem BuildPlan_of_proven_path_witness:
  "\<exists>plan. BuildPlan ex_libm ex_digests ex_snapshot ex_request (replicate 32 1) (rp_arcs ex_path) = Inr plan \<and>
     pl_total_cost plan = 18 \<and> pl_hops plan = 1 \<and> VerifySeal ex_digests plan = OkStatus"
  using BuildPlan_of_proven_path [OF ex_wf ex_named ex_request_width ex_path_found ex_path_proven,
      of ex_digests "replicate 32 1"]
  by (auto simp: ex_path_def)

lemma ex_plan_exists: "\<exists>plan. BuildPlan ex_libm ex_digests ex_snapshot ex_request (replicate 32 1) (rp_arcs ex_path) = Inr plan"
  using proven_path_plan [OF ex_wf ex_named ex_request_width ex_path_found ex_path_proven refl refl refl,
      of ex_digests "replicate 32 1"] by blast

theorem BuildPlan_reservations_free_witness:
  "\<exists>plan. BuildPlan ex_libm ex_digests ex_snapshot ex_request (replicate 32 1) (rp_arcs ex_path) = Inr plan \<and>
     length (pl_reservations plan) = 1 \<and> rv_resource (hd (pl_reservations plan)) = ForSpan ''s1''"
proof -
  obtain plan where plan: "BuildPlan ex_libm ex_digests ex_snapshot ex_request (replicate 32 1) (rp_arcs ex_path) = Inr plan"
    using ex_plan_exists by blast
  from BuildPlan_reservations_free [OF ex_wf ex_request_width plan]
  have "length (pl_reservations plan) = 1 \<and> rv_resource (hd (pl_reservations plan)) = ForSpan ''s1''"
    by (cases "pl_reservations plan") (auto simp: ex_path_def reserved_def ex_snapshot_def ex_span_def)
  with plan show ?thesis by blast
qed

theorem BuildPlan_segments_witness:
  "\<exists>plan. BuildPlan ex_libm ex_digests ex_snapshot ex_request (replicate 32 1) (rp_arcs ex_path) = Inr plan \<and>
     length (pl_segments plan) = pl_regenerations plan + 1"
proof -
  obtain plan where plan: "BuildPlan ex_libm ex_digests ex_snapshot ex_request (replicate 32 1) (rp_arcs ex_path) = Inr plan"
    using ex_plan_exists by blast
  with BuildPlan_segments [OF plan] show ?thesis by blast
qed

section \<open>The planner\<close>

definition ex_seal :: seal where
  "ex_seal res = replicate 32 (of_nat (length (res_candidates res)))"

lemmas validate_defs = PlanningRequest_Validate_def ConstraintSet_Validate_def RequireSortedUnique_def
  ValidateOptionalNonNegative_def refuse_if_def first_failure_def FirstFailure_def OkStatus_def Failure_def failed_def
  kRequestFormatVersion_def kMaxSpectrumSlots_def kMaxCandidates_def kMaxRequestedRegenerations_def
  kMaxRequestedHops_def kMaxSearchExpansionsCeiling_def kMaxSearchLabelsCeiling_def kMaxRequiredGenerations_def
  kMaxExclusionEntries_def kMaxDomainMemberLimits_def std_sort_def

lemma ex_request_valid: "\<not> failed (PlanningRequest_Validate ex_request)"
  by (simp add: validate_defs ex_request_def ex_constraints_def ex_A_def ex_B_def)

lemma ex_before_search: "before_search ex_snapshot ex_request (new_result ex_digests ex_snapshot ex_request) = None"
proof -
  have fresh: "check_freshness ex_snapshot ex_request res = None" for res
    by (simp add: check_freshness_def ex_snapshot_def ex_request_def)
  have ports: "FindPort ex_snapshot (rq_source ex_request) \<noteq> None" "FindPort ex_snapshot (rq_destination ex_request) \<noteq> None"
    by code_simp+
  have w: "rq_channel_width_slots ex_request = 1" by (simp add: ex_request_def)
  show ?thesis using ex_request_valid ports by (simp add: before_search_def fresh w check_endpoints_def Let_def)
qed

text \<open>The planner finds the one route of the network.\<close>

lemma ex_Plan_candidate: "res_candidates (Plan ex_libm ex_digests ex_seal ex_options ex_snapshot ex_request (\<lambda>_ _. False)) \<noteq> []"
proof -
  obtain plan where plan: "BuildPlan ex_libm ex_digests ex_snapshot ex_request (replicate 32 1) (rp_arcs ex_path) = Inr plan"
    using ex_plan_exists by blast
  have strip: "StripCycles ex_snapshot (rq_source ex_request) (rp_arcs ex_path) = rp_arcs ex_path" by code_simp
  have r: "iterative ex_request = False" "build_budget ex_request = 1" "rq_max_candidates ex_request = 1" by code_simp+
  have rd: "dg_request ex_digests ex_request = replicate 32 1"
    by (simp add: ex_digests_def)
  have built: "build_candidates ex_libm ex_digests ex_snapshot ex_request (replicate 32 1) 1 (so_paths ex_outcome) [] [] False =
      Inr ([plan], False)"
    using plan ex_path_proven by (simp add: strip ex_outcome_def)
  have ok: "\<not> failed (so_status ex_outcome)" by (simp add: ex_outcome_def)
  let ?it = "initial_pass (new_result ex_digests ex_snapshot ex_request)"
  obtain it where it: "planner_pass ex_libm ex_digests ex_options ex_snapshot ex_request (\<lambda>_. False) True ?it = PassBreak it"
    "it_accepted it = [plan]"
    using built ok
    by (simp add: planner_pass_def search_pass_def r ex_RunSearch rd initial_pass_def std_sort_def Let_def)
  then show ?thesis
    by (simp add: Plan_def ex_before_search r classify_fields)
qed

theorem Plan_sound_witness:
  "res_candidates (Plan ex_libm ex_digests ex_seal ex_options ex_snapshot ex_request (\<lambda>_ _. False)) \<noteq> [] \<and>
   res_outcome (Plan ex_libm ex_digests ex_seal ex_options ex_snapshot ex_request (\<lambda>_ _. False)) = OutFeasible \<and>
   candidate_ok ex_libm ex_digests ex_snapshot ex_request
     (hd (res_candidates (Plan ex_libm ex_digests ex_seal ex_options ex_snapshot ex_request (\<lambda>_ _. False))))"
  using Plan_sound [OF ex_wf ex_named, of ex_libm ex_digests ex_seal ex_options ex_request "\<lambda>_ _. False"] ex_Plan_candidate
  by (simp add: Let_def)

definition ex_bad_request :: PlanningRequest where
  "ex_bad_request = ex_request\<lparr>rq_destination := ex_A\<rparr>"

theorem Plan_refuses_only_invalid_witness:
  "res_outcome (Plan ex_libm ex_digests ex_seal ex_options ex_snapshot ex_bad_request (\<lambda>_ _. False)) = OutRefused \<and>
   failed (PlanningRequest_Validate ex_bad_request)"
proof -
  have st: "failed (PlanningRequest_Validate ex_bad_request)" "code (PlanningRequest_Validate ex_bad_request) = InvalidArgument"
    by (simp_all add: validate_defs ex_bad_request_def ex_request_def ex_A_def)
  then have "res_outcome (Plan ex_libm ex_digests ex_seal ex_options ex_snapshot ex_bad_request (\<lambda>_ _. False)) = OutRefused"
    by (simp add: Plan_def before_search_def)
  with Plan_refuses_only_invalid [OF ex_wf ex_named this] show ?thesis by blast
qed

definition ex_restored :: TopologySnapshot where
  "ex_restored = MarkRestored (replicate 16 9) 4 ex_snapshot"


end
