(* ===== verification/Outcome_Witnesses.thy ===== *)
theory Outcome_Witnesses
  imports Planner_Outcome Validate_Props Search_Witnesses
begin

text \<open>
  The completeness and optimality properties on the small network, and a request in the opposite
  direction, which no transmitter can serve.
\<close>

lemma ex_search_facts:
  "\<not> failed (so_status (RunSearch ex_libm ex_snapshot ex_request ex_options (\<lambda>_. False)))"
  "\<not> stat_truncated (so_statistics (RunSearch ex_libm ex_snapshot ex_request ex_options (\<lambda>_. False)))"
  "labels_dominated (so_statistics (RunSearch ex_libm ex_snapshot ex_request ex_options (\<lambda>_. False))) = 0"
  by (simp_all add: ex_RunSearch ex_outcome_def ex_stats_def)

text \<open>The route the search found.\<close>

lemma ex_route:
  obtains src l path where "PortIndex ex_snapshot (rq_source ex_request) = Some src"
    "PortIndex ex_snapshot (rq_destination ex_request) = Some (l_port_index l)"
    "route (search_context ex_libm ex_snapshot ex_request ex_options) src (l # path)" "l_proven l" "l_cost l = 18"
proof (rule RunSearch_path_route [OF ex_path_found])
  fix src dst l path
  assume "PortIndex ex_snapshot (rq_source ex_request) = Some src" "PortIndex ex_snapshot (rq_destination ex_request) = Some dst"
    "route (search_context ex_libm ex_snapshot ex_request ex_options) src (l # path)" "l_port_index l = dst"
    and "ex_path = \<lparr>rp_arcs = path_arcs (l # path), rp_cost = l_cost l, rp_hops = l_hops l,
          rp_regenerations = l_regenerations l, rp_proven = l_proven l\<rparr>"
  then show thesis by (intro that [of src l path]) (simp_all add: ex_path_def)
qed

theorem RunSearch_complete_witness:
  "\<exists>src l path p. route (search_context ex_libm ex_snapshot ex_request ex_options) src (l # path) \<and>
     PortIndex ex_snapshot (rq_destination ex_request) = Some (l_port_index l) \<and>
     p \<in> set (so_paths (RunSearch ex_libm ex_snapshot ex_request ex_options (\<lambda>_. False))) \<and>
     path_rank p \<le> label_rank l"
proof (rule ex_route)
  fix src l path
  assume r: "PortIndex ex_snapshot (rq_source ex_request) = Some src"
    "PortIndex ex_snapshot (rq_destination ex_request) = Some (l_port_index l)"
    "route (search_context ex_libm ex_snapshot ex_request ex_options) src (l # path)"
  with RunSearch_complete [OF ex_wf r(1,2) ex_search_facts r(3) refl] show ?thesis unfolding Let_def by blast
qed

section \<open>The planner\<close>

lemma ex_first_request: "first_request ex_request = ex_request"
  by (simp add: first_request_def iterative_def ex_request_def)

lemma ex_Plan_optimality:
  "res_optimality_proven (Plan ex_libm ex_digests ex_seal ex_options ex_snapshot ex_request (\<lambda>_ _. False))"
proof -
  let ?r = "new_result ex_digests ex_snapshot ex_request" and ?f = "planner_pass ex_libm ex_digests ex_options ex_snapshot ex_request (\<lambda>_. False) True"
  have r: "\<not> iterative ex_request" by (simp add: iterative_def ex_request_def)
  then have passes: "planner_passes ex_libm ex_digests ex_options ex_snapshot ex_request (\<lambda>_ _. False) 1 0 (initial_pass ?r) =
      (case ?f (initial_pass ?r) of PassReturn res \<Rightarrow> Inl res | PassBreak it \<Rightarrow> Inr it | PassContinue it \<Rightarrow> Inr it)"
    by (simp split: pass_flow.split)
  have "case planner_passes ex_libm ex_digests ex_options ex_snapshot ex_request (\<lambda>_ _. False) 1 0 (initial_pass ?r) of
      Inl res \<Rightarrow> res_candidates res = [] | Inr it \<Rightarrow> True"
    using Plan_searched [OF ex_wf ex_named ex_before_search, of ex_libm ex_options "\<lambda>_ _. False"] r by (auto split: sum.splits)
  then obtain it where it: "?f (initial_pass ?r) = PassBreak it \<or> ?f (initial_pass ?r) = PassContinue it" "it_accepted it \<noteq> []"
    and plan: "Plan ex_libm ex_digests ex_seal ex_options ex_snapshot ex_request (\<lambda>_ _. False) =
      FinaliseResult ex_seal (classify ex_snapshot ex_request it)"
    using ex_Plan_candidate r by (auto simp: Plan_def ex_before_search passes classify_fields split: pass_flow.splits)
  have "it_first_optimum it = so_proved_optimum (RunSearch ex_libm ex_snapshot ex_request ex_options (\<lambda>_. False))"
    using search_pass_best [OF ex_wf ex_named ex_request_valid refl tightens_refl _ _ _ it(2),
        where lm = ex_libm and dg = ex_digests and opts = ex_options and cancel = "\<lambda>_. False" and it = "initial_pass ?r"] it(1) r
    by (simp add: planner_pass_def) (simp add: initial_pass_def)
  moreover have "s_coverage_complete ex_snapshot" by (simp add: ex_snapshot_def)
  ultimately show ?thesis
    using it(2) r by (simp add: plan classify_def ex_RunSearch ex_outcome_def Let_def)
qed

theorem Plan_optimal_witness:
  "\<exists>best. Best (Plan ex_libm ex_digests ex_seal ex_options ex_snapshot ex_request (\<lambda>_ _. False)) = Some best \<and>
     pl_total_cost best \<le> 18"
proof (rule ex_route)
  fix src l path
  assume r: "PortIndex ex_snapshot (rq_source ex_request) = Some src"
    "PortIndex ex_snapshot (rq_destination ex_request) = Some (l_port_index l)"
    "route (search_context ex_libm ex_snapshot ex_request ex_options) src (l # path)" "l_proven l" "l_cost l = 18"
  from Plan_optimal [OF ex_wf ex_named ex_Plan_optimality _ r(1,2) _ r(4), of path] r(3,5) ex_search_facts(3) show ?thesis
    by (simp add: ex_first_request)
qed

definition ex_back_request :: PlanningRequest where
  "ex_back_request = ex_request\<lparr>rq_source := ex_B, rq_destination := ex_A\<rparr>"

lemma ex_back_infeasible:
  "res_outcome (Plan ex_libm ex_digests ex_seal ex_options ex_snapshot ex_back_request (\<lambda>_ _. False)) = OutInfeasible"
proof -
  let ?cx = "search_context ex_libm ex_snapshot ex_back_request ex_options" and ?res = "new_result ex_digests ex_snapshot ex_back_request"
  have r: "\<not> iterative ex_back_request" "rq_channel_width_slots ex_back_request = 1" "rq_max_candidates ex_back_request = 1"
    by (simp_all add: iterative_def ex_back_request_def ex_request_def)
  have valid: "\<not> failed (PlanningRequest_Validate ex_back_request)"
    by (simp add: validate_defs ex_back_request_def ex_request_def ex_constraints_def ex_A_def ex_B_def)
  have fresh: "check_freshness ex_snapshot ex_back_request res = None" for res
    by (simp add: check_freshness_def ex_snapshot_def ex_back_request_def ex_request_def)
  have ports: "FindPort ex_snapshot (rq_source ex_back_request) \<noteq> None" "FindPort ex_snapshot (rq_destination ex_back_request) \<noteq> None"
    "PortIndex ex_snapshot (rq_source ex_back_request) = Some 1" "PortIndex ex_snapshot (rq_destination ex_back_request) = Some 0"
    by code_simp+
  have before: "before_search ex_snapshot ex_back_request res = None" for res
    using valid ports by (simp add: before_search_def fresh r check_endpoints_def Let_def)
  have len: "1 < length (s_ports ex_snapshot)" by (simp add: ex_snapshot_def)
  have "pi_transmit_absent (port_info_of ex_snapshot 1 1)"
    by (simp add: port_info_of_def ex_snapshot_def ex_port_def Let_def)
  then have cut: "\<not> passed (start_checks ?cx 1)"
    using len r(2) by (simp add: start_checks_def Let_def)
  obtain ns res where run: "run_checks (start_checks ?cx 1) True = (ns, res)" by fastforce
  then obtain reason where reason: "res = Inl reason" using cut run_checks_passed by (cases res) blast+
  have "RunSearch ex_libm ex_snapshot ex_back_request ex_options (\<lambda>_. False) = empty_outcome\<lparr>so_exhausted := True\<rparr>"
    using run reason ports by (simp add: RunSearch_def Let_def)
  then have "search_pass ex_libm ex_digests ex_options ex_snapshot ex_back_request (\<lambda>_. False) True ex_back_request (initial_pass ?res)
      = PassBreak (let x = empty_outcome\<lparr>so_exhausted := True\<rparr> in
          (initial_pass ?res)\<lparr>it_result := MergeSearch x ?res, it_first_optimum := False\<rparr>)"
    by (simp add: search_pass_def stop_without_plan_def empty_outcome_def no_statistics_def initial_pass_def ex_snapshot_def
        std_sort_def Let_def failed_def OkStatus_def)
  then show ?thesis
    using r by (simp add: Plan_def before planner_pass_def classify_def initial_pass_def Let_def)
qed


section \<open>Validation\<close>

definition ex_policy :: ValidationPolicy where
  "ex_policy = \<lparr>vp_accept_restored_evidence = False, vp_revalidate_on_mismatch = False\<rparr>"

lemma ex_ids: "ids_resolvable ex_snapshot"
  by code_simp


end
