(* ===== verification/Bytes.thy ===== *)
theory Bytes
  imports Canonical
begin

text \<open>
  The binary payload primitives of \<open>src/canonical.cpp\<close>: \<open>ByteWriter\<close> and \<open>ByteReader\<close>.  A
  writer method is modelled by the bytes it appends to \<open>buffer_\<close>.  A reader is modelled by the part
  of \<open>bytes_\<close> that starts at \<open>offset_\<close>; a reading method returns its value with what is left, or the
  status it fails with.  The locale \<open>wire_codec\<close> is the contract between a writer method and its
  reader: reading inverts writing whatever follows, and nothing else is accepted.
\<close>

section \<open>Writing\<close>

type_synonym 'a reader = "string \<Rightarrow> ('a \<times> string) expected"

definition Writer_U8 :: "u8 \<Rightarrow> string" where
  "Writer_U8 v = text_of [v]"

text \<open>The byte loops of \<open>U16\<close>, \<open>U32\<close> and \<open>U64\<close>: least significant byte first.\<close>

definition le_byte :: "'w::len word \<Rightarrow> nat \<Rightarrow> u8" where
  "le_byte v i = ucast (drop_bit (i * 8) v AND 255)"

definition le_bytes :: "nat \<Rightarrow> 'w::len word \<Rightarrow> u8 list" where
  "le_bytes n v = map (le_byte v) [0 ..< n]"

definition Writer_U16 :: "u16 \<Rightarrow> string" where
  "Writer_U16 v = text_of (le_bytes 2 v)"

definition Writer_U32 :: "u32 \<Rightarrow> string" where
  "Writer_U32 v = text_of (le_bytes 4 v)"

definition Writer_U64 :: "u64 \<Rightarrow> string" where
  "Writer_U64 v = text_of (le_bytes 8 v)"

definition Writer_Bool :: "bool \<Rightarrow> string" where
  "Writer_Bool b = Writer_U8 (if b then 1 else 0)"

text \<open>
  \<open>PutBigEndian64\<close> counts its index down.  A double is its 64-bit pattern here, as \<open>memcpy\<close> sees it.
\<close>

definition PutBigEndian64 :: "u64 \<Rightarrow> string" where
  "PutBigEndian64 v = text_of (map (le_byte v) (rev [0 ..< 8]))"

definition Writer_Double :: "u64 \<Rightarrow> string" where
  "Writer_Double pattern = PutBigEndian64 pattern"

text \<open>The length prefix is the size converted to 32 bits.\<close>

definition Writer_Bytes :: "string \<Rightarrow> string" where
  "Writer_Bytes bs = Writer_U32 (of_nat (length bs)) @ bs"

definition Writer_Text :: "string \<Rightarrow> string" where
  "Writer_Text t = Writer_Bytes t"

definition Writer_Digest :: "Digest256 \<Rightarrow> string" where
  "Writer_Digest d = text_of d"

definition Writer_Incarnation :: "IncarnationId \<Rightarrow> string" where
  "Writer_Incarnation i = text_of i"

section \<open>Reading\<close>

definition Reader_Take :: "nat \<Rightarrow> string reader" where
  "Reader_Take n r =
     (if n > length r then Inl (Failure MalformedInput ''payload is truncated'')
      else Inr (take n r, drop n r))"

definition Reader_return :: "'a \<Rightarrow> 'a reader" where
  "Reader_return v r = Inr (v, r)"

definition Reader_fail :: "Status \<Rightarrow> 'a reader" where
  "Reader_fail e r = Inl e"

text \<open>One read followed by the early return on failure and the rest of the function.\<close>

definition Reader_bind :: "'a reader \<Rightarrow> ('a \<Rightarrow> 'b reader) \<Rightarrow> 'b reader" where
  "Reader_bind g f r = (case g r of Inl e \<Rightarrow> Inl e | Inr (v, rest) \<Rightarrow> f v rest)"

text \<open>The reassembly loops of the unsigned readers.\<close>

definition le_word :: "u8 list \<Rightarrow> 'w::len word" where
  "le_word bs = fold (\<lambda>i value. value OR push_bit (i * 8) (ucast (bs ! i))) [0 ..< length bs] 0"

definition be_word :: "u8 list \<Rightarrow> 'w::len word" where
  "be_word bs = fold (\<lambda>b value. push_bit 8 value OR ucast b) bs 0"

definition Reader_U8 :: "u8 reader" where
  "Reader_U8 = Reader_bind (Reader_Take 1) (\<lambda>slice. Reader_return (hd (bytes_of slice)))"

definition Reader_U16 :: "u16 reader" where
  "Reader_U16 = Reader_bind (Reader_Take 2) (\<lambda>slice. Reader_return (le_word (bytes_of slice)))"

definition Reader_U32 :: "u32 reader" where
  "Reader_U32 = Reader_bind (Reader_Take 4) (\<lambda>slice. Reader_return (le_word (bytes_of slice)))"

definition Reader_U64 :: "u64 reader" where
  "Reader_U64 = Reader_bind (Reader_Take 8) (\<lambda>slice. Reader_return (le_word (bytes_of slice)))"

definition Reader_Bool :: "bool reader" where
  "Reader_Bool = Reader_bind Reader_U8 (\<lambda>v.
     if v > 1 then Reader_fail (Failure MalformedInput ''boolean byte must be 0 or 1'')
     else Reader_return (v = 1))"

text \<open>\<open>std::isfinite\<close>: the exponent field is not all ones.\<close>

definition finite_pattern :: "u64 \<Rightarrow> bool" where
  "finite_pattern p = (drop_bit 52 p AND 0x7FF \<noteq> 0x7FF)"

definition Reader_Double :: "u64 reader" where
  "Reader_Double = Reader_bind (Reader_Take 8) (\<lambda>slice.
     let pattern = be_word (bytes_of slice)
     in if \<not> finite_pattern pattern then Reader_fail (Failure MalformedInput ''transferred double is not finite'')
        else Reader_return pattern)"

definition Reader_Bytes :: "string reader" where
  "Reader_Bytes = Reader_bind Reader_U32 (\<lambda>len. Reader_Take (unat len))"

definition Reader_Text :: "string reader" where
  "Reader_Text = Reader_Bytes"

definition Reader_Digest :: "Digest256 reader" where
  "Reader_Digest = Reader_bind (Reader_Take 32) (\<lambda>slice. Reader_return (bytes_of slice))"

definition Reader_Incarnation :: "IncarnationId reader" where
  "Reader_Incarnation = Reader_bind (Reader_Take 16) (\<lambda>slice. Reader_return (bytes_of slice))"

definition ExpectEnd :: "string \<Rightarrow> Status" where
  "ExpectEnd r = refuse_if (r \<noteq> []) MalformedInput ''payload has trailing bytes''"

text \<open>A payload decoder: its reads, then \<open>ExpectEnd\<close>.\<close>

definition read_payload :: "'a reader \<Rightarrow> string \<Rightarrow> 'a expected" where
  "read_payload g payload =
     (case g payload of
        Inl e \<Rightarrow> Inl e
      | Inr (m, rest) \<Rightarrow> if failed (ExpectEnd rest) then Inl (ExpectEnd rest) else Inr m)"

text \<open>A counted loop of reads that appends each value to a vector.\<close>

primrec Reader_many :: "nat \<Rightarrow> 'a reader \<Rightarrow> 'a list reader" where
  "Reader_many 0 g = Reader_return []"
| "Reader_many (Suc n) g =
     Reader_bind g (\<lambda>v. Reader_bind (Reader_many n g) (\<lambda>vs. Reader_return (v # vs)))"

section \<open>Combining reads\<close>

lemma Reader_return_iff [codec_simps]: "Reader_return v r = Inr (w, rest) \<longleftrightarrow> w = v \<and> rest = r"
  by (auto simp: Reader_return_def)

lemma Reader_fail_iff [codec_simps]: "Reader_fail e r \<noteq> Inr x"
  by (simp add: Reader_fail_def)

lemma Reader_bind_iff [codec_simps]:
  "Reader_bind g f r = Inr (w, rest) \<longleftrightarrow> (\<exists>v mid. g r = Inr (v, mid) \<and> f v mid = Inr (w, rest))"
  by (auto simp: Reader_bind_def split: sum.splits prod.splits)

lemma read_payload_iff [codec_simps]: "read_payload g p = Inr m \<longleftrightarrow> g p = Inr (m, [])"
  by (auto simp: read_payload_def ExpectEnd_def split: sum.splits prod.splits if_splits)

lemma Reader_Take_iff [codec_simps]:
  "Reader_Take n r = Inr (s, rest) \<longleftrightarrow> length s = n \<and> r = s @ rest"
  by (auto simp: Reader_Take_def)

section \<open>The contract of a codec\<close>

locale wire_codec =
  fixes put :: "'a \<Rightarrow> string"
    and get :: "'a reader"
    and fits :: "'a \<Rightarrow> bool"
  assumes get_put: "fits v \<Longrightarrow> get (put v @ rest) = Inr (v, rest)"
    and put_get: "get r = Inr (v, rest) \<Longrightarrow> fits v \<and> r = put v @ rest"
    and get_error: "get r = Inl e \<Longrightarrow> code e = MalformedInput"
begin

lemma get_iff: "get r = Inr (v, rest) \<longleftrightarrow> fits v \<and> r = put v @ rest"
  using get_put put_get by blast

lemma put_unambiguous:
  assumes "fits u" "fits v" and eq: "put u @ a = put v @ b"
  shows "u = v \<and> a = b"
  using get_put [OF assms(1), of a] get_put [OF assms(2), of b] unfolding eq by simp

lemma many_iff:
  "Reader_many n get r = Inr (vs, rest) \<longleftrightarrow>
     length vs = n \<and> list_all fits vs \<and> r = concat (map put vs) @ rest"
proof (induction n arbitrary: vs r)
  case (Suc n)
  show ?case
  proof (cases vs)
    case (Cons v us)
    show ?thesis
      unfolding Cons Reader_many.simps Reader_bind_iff Reader_return_iff get_iff
      by (auto simp: Suc.IH)
  qed (simp add: codec_simps)
qed (auto simp: codec_simps)

end

section \<open>Bits of the byte loops\<close>

lemma bit_le_byte: "bit (le_byte v i) k \<longleftrightarrow> k < 8 \<and> bit v (i * 8 + k)"
proof -
  have m: "(255 :: 'a word) = mask 8" by (simp add: mask_eq_exp_minus_1)
  have "bit (drop_bit (i * 8) v AND 255) k \<longleftrightarrow> k < 8 \<and> bit v (i * 8 + k)"
    unfolding m using bit_imp_le_length [of v "i * 8 + k"] by (auto simp: bit_simps)
  then show ?thesis
    by (auto simp: le_byte_def bit_simps dest: bit_imp_le_length)
qed

lemma bit_byte_bound: "bit (b :: u8) k \<Longrightarrow> k < 8"
  by (drule bit_imp_le_length) simp

lemma bit_le_fold:
  assumes "k < LENGTH('w::len)"
  shows "bit (fold (\<lambda>i value. value OR push_bit (i * 8) (ucast (bs ! i))) [0 ..< n] (0 :: 'w word)) k \<longleftrightarrow>
         k < n * 8 \<and> bit ((bs :: u8 list) ! (k div 8)) (k mod 8)"
proof (induction n)
  case (Suc n)
  have b: "bit (bs ! n) (k - n * 8) \<Longrightarrow> k < Suc n * 8"
    by (drule bit_byte_bound) simp
  have "k div 8 = n \<and> k mod 8 = k - n * 8" if "k < Suc n * 8" "\<not> k < n * 8"
  proof -
    have "k div 8 = n" using that by (auto intro: div_nat_eqI)
    then show ?thesis by (simp add: modulo_nat_def)
  qed
  then show ?case
    using assms Suc b by (cases "k < Suc n * 8"; cases "k < n * 8") (auto simp: bit_simps)
qed simp

lemma bit_le_word:
  "bit (le_word bs :: 'w::len word) k \<longleftrightarrow>
     k < LENGTH('w) \<and> k < length bs * 8 \<and> bit (bs ! (k div 8)) (k mod 8)"
  using bit_le_fold [where 'w = 'w] bit_imp_le_length unfolding le_word_def by blast

lemma le_word_le_bytes:
  assumes "LENGTH('w::len) = n * 8"
  shows "le_word (le_bytes n (v :: 'w word)) = v"
proof (rule bit_word_eqI)
  fix k assume k: "k < LENGTH('w)"
  then have "k div 8 < n" using assms by (simp add: less_mult_imp_div_less)
  with k assms show "bit (le_word (le_bytes n v) :: 'w word) k \<longleftrightarrow> bit v k"
    by (simp add: bit_le_word le_bytes_def bit_le_byte)
qed

lemma le_bytes_le_word:
  assumes "LENGTH('w::len) = length bs * 8"
  shows "le_bytes (length bs) (le_word bs :: 'w word) = bs"
proof (rule nth_equalityI)
  fix i assume "i < length (le_bytes (length bs) (le_word bs :: 'w word))"
  then have i: "i < length bs" by (simp add: le_bytes_def)
  have "bit (le_byte (le_word bs :: 'w word) i) k \<longleftrightarrow> bit (bs ! i) k" for k
  proof (cases "k < 8")
    case True
    then have "i * 8 + k < length bs * 8" "(i * 8 + k) div 8 = i" "(i * 8 + k) mod 8 = k" using i by auto
    with True assms show ?thesis by (simp add: bit_le_byte bit_le_word)
  next
    case False
    then show ?thesis by (auto simp: bit_le_byte dest: bit_imp_le_length)
  qed
  then show "le_bytes (length bs) (le_word bs :: 'w word) ! i = bs ! i"
    using i by (auto simp: le_bytes_def intro: bit_eqI)
qed (simp add: le_bytes_def)

lemma length_le_bytes [simp]: "length (le_bytes n v) = n"
  by (simp add: le_bytes_def)

lemma length_writers [simp]: "length (Writer_U32 w) = 4" "length (Writer_U64 x) = 8"
  by (simp_all add: Writer_U32_def Writer_U64_def)

lemma be_word_snoc: "be_word (bs @ [b]) = push_bit 8 (be_word bs) OR ucast b"
  by (simp add: be_word_def)

lemma bit_be_word:
  "bit (be_word bs :: 'w::len word) k \<longleftrightarrow>
     k < LENGTH('w) \<and> k < length bs * 8 \<and> bit (rev bs ! (k div 8)) (k mod 8)"
proof (induction bs arbitrary: k rule: rev_induct)
  case (snoc b bs)
  show ?case
  proof (cases "k < 8")
    case True
    then show ?thesis by (auto simp: be_word_snoc bit_simps dest: bit_imp_le_length)
  next
    case False
    then have "k div 8 = Suc ((k - 8) div 8)" "k mod 8 = (k - 8) mod 8"
      by (simp_all add: le_div_geq le_mod_geq)
    with False show ?thesis
      by (auto simp: be_word_snoc bit_simps snoc.IH dest: bit_imp_le_length)
  qed
qed (simp add: be_word_def)

lemma be_word_eq: "be_word bs = (le_word (rev bs) :: 'w::len word)"
  by (rule bit_word_eqI) (simp add: bit_be_word bit_le_word)

section \<open>The codecs\<close>

lemma text_of_eq_iff: "text_of bs = t \<longleftrightarrow> bs = bytes_of t"
  by (metis text_of_bytes_of bytes_of_text_of)

lemma Reader_word_error:
  "Reader_bind (Reader_Take n) (\<lambda>s. Reader_return (f s)) r = Inl e \<Longrightarrow> code e = MalformedInput"
  by (auto simp: Reader_bind_def Reader_Take_def Reader_return_def split: if_splits)

text \<open>Every fixed-size primitive is an instance of one shape: take the bytes, convert them.\<close>

lemma fixed_codec:
  assumes "\<And>v. fits v \<Longrightarrow> length (enc v) = n \<and> dec (enc v) = v"
    and "\<And>bs. length bs = n \<Longrightarrow> fits (dec bs) \<and> enc (dec bs) = bs"
  shows "wire_codec (\<lambda>v. text_of (enc v)) (Reader_bind (Reader_Take n) (\<lambda>s. Reader_return (dec (bytes_of s)))) fits"
proof
  fix v rest assume "fits v"
  with assms(1) [of v] show "Reader_bind (Reader_Take n) (\<lambda>s. Reader_return (dec (bytes_of s))) (text_of (enc v) @ rest) = Inr (v, rest)"
    by (simp add: Reader_bind_def Reader_Take_def Reader_return_def del: map_map)
next
  fix r v rest assume "Reader_bind (Reader_Take n) (\<lambda>s. Reader_return (dec (bytes_of s))) r = Inr (v, rest)"
  then obtain s where "length s = n" "r = s @ rest" "v = dec (bytes_of s)" by (auto simp: codec_simps)
  with assms(2) [of "bytes_of s"] show "fits v \<and> r = text_of (enc v) @ rest" by (simp add: comp_def)
qed (rule Reader_word_error)

interpretation wire_u8: wire_codec Writer_U8 Reader_U8 "\<lambda>_. True"
  unfolding Writer_U8_def [abs_def] Reader_U8_def
  by (rule fixed_codec) (auto simp: length_Suc_conv)

interpretation wire_u16: wire_codec Writer_U16 Reader_U16 "\<lambda>_. True"
  unfolding Writer_U16_def [abs_def] Reader_U16_def
  by (rule fixed_codec) (use le_bytes_le_word [where 'w = 16] in \<open>auto simp: le_word_le_bytes\<close>)

interpretation wire_u32: wire_codec Writer_U32 Reader_U32 "\<lambda>_. True"
  unfolding Writer_U32_def [abs_def] Reader_U32_def
  by (rule fixed_codec) (use le_bytes_le_word [where 'w = 32] in \<open>auto simp: le_word_le_bytes\<close>)

interpretation wire_u64: wire_codec Writer_U64 Reader_U64 "\<lambda>_. True"
  unfolding Writer_U64_def [abs_def] Reader_U64_def
  by (rule fixed_codec) (use le_bytes_le_word [where 'w = 64] in \<open>auto simp: le_word_le_bytes\<close>)

interpretation wire_digest: wire_codec Writer_Digest Reader_Digest "\<lambda>d. length d = 32"
  unfolding Writer_Digest_def [abs_def] Reader_Digest_def
  by (rule fixed_codec) auto

interpretation wire_incarnation: wire_codec Writer_Incarnation Reader_Incarnation "\<lambda>i. length i = 16"
  unfolding Writer_Incarnation_def [abs_def] Reader_Incarnation_def
  by (rule fixed_codec) auto

lemma Reader_bind_error:
  "Reader_bind g f r = Inl e \<Longrightarrow> g r = Inl e \<or> (\<exists>v rest. g r = Inr (v, rest) \<and> f v rest = Inl e)"
  by (auto simp: Reader_bind_def split: sum.splits prod.splits)

lemma word_le_cases_one: "(b :: u8) \<le> 1 \<Longrightarrow> b = 1 \<or> b = 0"
proof -
  assume "b \<le> 1"
  then have "unat b \<le> 1" by (simp add: word_le_nat_alt)
  then have "unat b = 0 \<or> unat b = unat (1 :: u8)" by auto
  then show ?thesis by (metis unat_0 word_unat_eq_iff)
qed

interpretation wire_bool: wire_codec Writer_Bool Reader_Bool "\<lambda>_. True"
proof
  fix v rest show "Reader_Bool (Writer_Bool v @ rest) = Inr (v, rest)"
    by (simp add: Reader_Bool_def Writer_Bool_def Reader_bind_def wire_u8.get_put Reader_return_def)
next
  fix r v rest assume "Reader_Bool r = Inr (v, rest)"
  then obtain b :: u8 where b: "r = Writer_U8 b @ rest" "\<not> b > 1" "v = (b = 1)"
    by (auto simp: Reader_Bool_def codec_simps wire_u8.get_iff split: if_splits)
  then have "b = 1 \<or> b = 0" by (simp add: not_less) (metis word_le_cases_one)
  with b show "True \<and> r = Writer_Bool v @ rest" by (auto simp: Writer_Bool_def)
next
  fix r e assume "Reader_Bool r = Inl e"
  then show "code e = MalformedInput"
    by (auto simp: Reader_Bool_def Reader_fail_def Reader_return_def dest!: Reader_bind_error wire_u8.get_error
          split: if_splits)
qed

interpretation wire_bytes: wire_codec Writer_Bytes Reader_Bytes "\<lambda>bs. length bs < 2 ^ 32"
proof
  fix v :: string and rest assume "length v < 2 ^ 32"
  then have "unat (of_nat (length v) :: u32) = length v" by (simp add: unat_of_nat)
  then show "Reader_Bytes (Writer_Bytes v @ rest) = Inr (v, rest)"
    by (auto simp: Reader_Bytes_def Writer_Bytes_def codec_simps wire_u32.get_iff)
next
  fix r v rest assume "Reader_Bytes r = Inr (v, rest)"
  then obtain len :: u32 where "r = Writer_U32 len @ v @ rest" "length v = unat len"
    by (auto simp: Reader_Bytes_def codec_simps wire_u32.get_iff)
  moreover have "unat len < 2 ^ 32" using unsigned_less [of len, where 'a = nat] by simp
  ultimately show "length v < 2 ^ 32 \<and> r = Writer_Bytes v @ rest"
    by (simp add: Writer_Bytes_def)
next
  fix r e assume "Reader_Bytes r = Inl e"
  then show "code e = MalformedInput"
    by (auto simp: Reader_Bytes_def Reader_Take_def dest!: Reader_bind_error wire_u32.get_error split: if_splits)
qed

interpretation wire_text: wire_codec Writer_Text Reader_Text "\<lambda>bs. length bs < 2 ^ 32"
  unfolding Writer_Text_def [abs_def] Reader_Text_def
  by (rule wire_bytes.wire_codec_axioms)

lemma PutBigEndian64_eq: "PutBigEndian64 v = text_of (rev (le_bytes 8 v))"
  by (simp add: PutBigEndian64_def le_bytes_def rev_map)

interpretation wire_double: wire_codec Writer_Double Reader_Double finite_pattern
proof
  fix v rest assume "finite_pattern v"
  then show "Reader_Double (Writer_Double v @ rest) = Inr (v, rest)"
    by (simp add: Reader_Double_def Writer_Double_def PutBigEndian64_eq Reader_bind_def Reader_Take_def
          Reader_return_def be_word_eq le_word_le_bytes del: map_map)
next
  fix r v rest assume "Reader_Double r = Inr (v, rest)"
  then obtain s where s: "length s = 8" "r = s @ rest" "v = be_word (bytes_of s)" "finite_pattern v"
    by (auto simp: Reader_Double_def Let_def codec_simps split: if_splits)
  have "le_bytes 8 v = rev (bytes_of s)"
    using le_bytes_le_word [where 'w = 64 and bs = "rev (bytes_of s)"] s by (simp add: be_word_eq)
  then have "text_of (rev (le_bytes 8 v)) = s" by (simp add: comp_def)
  with s show "finite_pattern v \<and> r = Writer_Double v @ rest"
    by (simp add: Writer_Double_def PutBigEndian64_eq)
next
  fix r e assume "Reader_Double r = Inl e"
  then show "code e = MalformedInput"
    by (auto simp: Reader_Double_def Reader_Take_def Reader_fail_def Reader_return_def Let_def
          dest!: Reader_bind_error split: if_splits)
qed

lemmas wire_iffs [codec_simps] =
  wire_u8.get_iff wire_u16.get_iff wire_u32.get_iff wire_u64.get_iff wire_bool.get_iff
  wire_digest.get_iff wire_incarnation.get_iff wire_bytes.get_iff wire_text.get_iff wire_double.get_iff

end
