(* ===== verification/Sha256.thy ===== *)
theory Sha256
  imports Canonical "HOL-Library.While_Combinator"
begin

text \<open>
  The digest of \<open>src/sha256.cpp\<close>: a hasher that absorbs a message in pieces, with a 64-byte buffer
  for the part that does not fill a block.  \<open>sha256\<close> is the reference it is compared with: pad the
  whole message, cut it into blocks, compress them one after the other.
\<close>

section \<open>The compression function\<close>

definition kRoundConstants :: "u32 list" where
  "kRoundConstants =
    concat
     [[0x428a2f98, 0x71374491, 0xb5c0fbcf, 0xe9b5dba5, 0x3956c25b, 0x59f111f1, 0x923f82a4, 0xab1c5ed5],
      [0xd807aa98, 0x12835b01, 0x243185be, 0x550c7dc3, 0x72be5d74, 0x80deb1fe, 0x9bdc06a7, 0xc19bf174],
      [0xe49b69c1, 0xefbe4786, 0x0fc19dc6, 0x240ca1cc, 0x2de92c6f, 0x4a7484aa, 0x5cb0a9dc, 0x76f988da],
      [0x983e5152, 0xa831c66d, 0xb00327c8, 0xbf597fc7, 0xc6e00bf3, 0xd5a79147, 0x06ca6351, 0x14292967],
      [0x27b70a85, 0x2e1b2138, 0x4d2c6dfc, 0x53380d13, 0x650a7354, 0x766a0abb, 0x81c2c92e, 0x92722c85],
      [0xa2bfe8a1, 0xa81a664b, 0xc24b8b70, 0xc76c51a3, 0xd192e819, 0xd6990624, 0xf40e3585, 0x106aa070],
      [0x19a4c116, 0x1e376c08, 0x2748774c, 0x34b0bcb5, 0x391c0cb3, 0x4ed8aa4a, 0x5b9cca4f, 0x682e6ff3],
      [0x748f82ee, 0x78a5636f, 0x84c87814, 0x8cc70208, 0x90befffa, 0xa4506ceb, 0xbef9a3f7, 0xc67178f2]]"

definition RotateRight :: "u32 \<Rightarrow> nat \<Rightarrow> u32" where
  "RotateRight value n = drop_bit n value OR push_bit (32 - n) value"

text \<open>The first sixteen words of the schedule are the block read big endian.\<close>

definition schedule_word :: "u8 list \<Rightarrow> nat \<Rightarrow> u32" where
  "schedule_word block i =
     push_bit 24 (ucast (block ! (i * 4))) OR push_bit 16 (ucast (block ! (i * 4 + 1))) OR
     push_bit 8 (ucast (block ! (i * 4 + 2))) OR ucast (block ! (i * 4 + 3))"

definition extend_schedule :: "nat \<Rightarrow> u32 list \<Rightarrow> u32 list" where
  "extend_schedule i w =
     (let x = w ! (i - 15); y = w ! (i - 2);
          s0 = RotateRight x 7 XOR RotateRight x 18 XOR drop_bit 3 x;
          s1 = RotateRight y 17 XOR RotateRight y 19 XOR drop_bit 10 y
      in w @ [w ! (i - 16) + s0 + w ! (i - 7) + s1])"

definition schedule :: "u8 list \<Rightarrow> u32 list" where
  "schedule block = fold extend_schedule [16 ..< 64] (map (schedule_word block) [0 ..< 16])"

text \<open>The eight working variables, in the order \<open>a\<close> to \<open>h\<close>.\<close>

type_synonym working = "u32 \<times> u32 \<times> u32 \<times> u32 \<times> u32 \<times> u32 \<times> u32 \<times> u32"

fun sha_round :: "u32 list \<Rightarrow> nat \<Rightarrow> working \<Rightarrow> working" where
  "sha_round w i (a, b, c, d, e, f, g, h) =
     (let s1 = RotateRight e 6 XOR RotateRight e 11 XOR RotateRight e 25;
          choice = (e AND f) XOR (NOT e AND g);
          temp1 = h + s1 + choice + kRoundConstants ! i + w ! i;
          s0 = RotateRight a 2 XOR RotateRight a 13 XOR RotateRight a 22;
          majority = (a AND b) XOR (a AND c) XOR (b AND c);
          temp2 = s0 + majority
      in (temp1 + temp2, a, b, c, d + temp1, e, f, g))"

definition compress_rounds :: "u32 list \<Rightarrow> working \<Rightarrow> working" where
  "compress_rounds w v = fold (sha_round w) [0 ..< 64] v"

fun add_working :: "working \<Rightarrow> working \<Rightarrow> working" where
  "add_working (a, b, c, d, e, f, g, h) (a', b', c', d', e', f', g', h') =
     (a + a', b + b', c + c', d + d', e + e', f + f', g + g', h + h')"

definition compress_state :: "u8 list \<Rightarrow> working \<Rightarrow> working" where
  "compress_state block st = add_working st (compress_rounds (schedule block) st)"

section \<open>The hasher\<close>

definition kBlockBytes :: nat where "kBlockBytes = 64"

record Sha256 =
  sh_state :: working
  sh_buffer :: "u8 list"
  sh_total_bytes :: u64
  sh_buffered :: nat

definition initial_hash :: working where
  "initial_hash =
     (0x6a09e667, 0xbb67ae85, 0x3c6ef372, 0xa54ff53a, 0x510e527f, 0x9b05688c, 0x1f83d9ab, 0x5be0cd19)"

definition new_Sha256 :: Sha256 where
  "new_Sha256 = \<lparr>sh_state = initial_hash, sh_buffer = replicate kBlockBytes 0, sh_total_bytes = 0, sh_buffered = 0\<rparr>"

definition Sha256_Reset :: "Sha256 \<Rightarrow> Sha256" where
  "Sha256_Reset s = s\<lparr>sh_state := initial_hash, sh_total_bytes := 0, sh_buffered := 0,
                      sh_buffer := replicate kBlockBytes 0\<rparr>"

definition Sha256_Compress :: "u8 list \<Rightarrow> Sha256 \<Rightarrow> Sha256" where
  "Sha256_Compress block s = s\<lparr>sh_state := compress_state block (sh_state s)\<rparr>"

text \<open>\<open>buffer_[buffered_++] = byte\<close>\<close>

definition push_byte :: "u8 \<Rightarrow> Sha256 \<Rightarrow> Sha256" where
  "push_byte b s = s\<lparr>sh_buffer := (sh_buffer s)[sh_buffered s := b], sh_buffered := sh_buffered s + 1\<rparr>"

text \<open>The loop that tops up a partial block; it returns what it did not consume.\<close>

fun fill_buffer :: "u8 list \<Rightarrow> Sha256 \<Rightarrow> Sha256 \<times> u8 list" where
  "fill_buffer [] s = (s, [])"
| "fill_buffer (b # bs) s = (if sh_buffered s < kBlockBytes then fill_buffer bs (push_byte b s) else (s, b # bs))"

text \<open>The loop over whole blocks of the input.\<close>

function compress_blocks :: "u8 list \<Rightarrow> Sha256 \<Rightarrow> Sha256 \<times> u8 list" where
  "compress_blocks bs s =
     (if length bs \<ge> kBlockBytes
      then compress_blocks (drop kBlockBytes bs) (Sha256_Compress (take kBlockBytes bs) s)
      else (s, bs))"
  by auto
termination
  by (relation "measure (\<lambda>(bs, s). length bs)") (auto simp: kBlockBytes_def)

declare compress_blocks.simps [simp del]

definition top_up :: "u8 list \<Rightarrow> Sha256 \<Rightarrow> Sha256 \<times> u8 list" where
  "top_up bs s =
     (if sh_buffered s > 0
      then let (s1, rest) = fill_buffer bs s
           in if sh_buffered s1 = kBlockBytes then ((Sha256_Compress (sh_buffer s1) s1)\<lparr>sh_buffered := 0\<rparr>, rest)
              else (s1, rest)
      else (s, bs))"

definition Sha256_Update :: "u8 list \<Rightarrow> Sha256 \<Rightarrow> Sha256" where
  "Sha256_Update bs s =
     (if bs = [] then s
      else let (s1, rest1) = top_up bs (s\<lparr>sh_total_bytes := sh_total_bytes s + of_nat (length bs)\<rparr>);
               (s2, rest2) = compress_blocks rest1 s1
           in fold push_byte rest2 s2)"

definition length_bytes :: "u64 \<Rightarrow> u8 list" where
  "length_bytes bit_length = map (\<lambda>i. ucast (drop_bit (56 - 8 * i) bit_length AND 255)) [0 ..< 8]"

definition word_bytes :: "u32 \<Rightarrow> u8 list" where
  "word_bytes w = [ucast (drop_bit 24 w AND 255), ucast (drop_bit 16 w AND 255),
                   ucast (drop_bit 8 w AND 255), ucast (w AND 255)]"

fun digest_of_state :: "working \<Rightarrow> Digest256" where
  "digest_of_state (a, b, c, d, e, f, g, h) = concat (map word_bytes [a, b, c, d, e, f, g, h])"

text \<open>The padding loop runs until 56 bytes are buffered.\<close>

definition pad_zeros :: "Sha256 \<Rightarrow> Sha256" where
  "pad_zeros s = while (\<lambda>s. sh_buffered s \<noteq> 56) (Sha256_Update [0]) s"

definition Sha256_Finalize :: "Sha256 \<Rightarrow> Digest256" where
  "Sha256_Finalize s =
     (let bit_length = sh_total_bytes s * 8
      in digest_of_state (sh_state (Sha256_Update (length_bytes bit_length) (pad_zeros (Sha256_Update [0x80] s)))))"

definition Sha256_Of :: "string \<Rightarrow> Digest256" where
  "Sha256_Of text = Sha256_Finalize (Sha256_Update (bytes_of text) new_Sha256)"

section \<open>The reference\<close>

function blocks :: "u8 list \<Rightarrow> u8 list list" where
  "blocks m = (if length m < 64 then [] else take 64 m # blocks (drop 64 m))"
  by auto
termination
  by (relation "measure length") auto

declare blocks.simps [simp del]

definition sha256_pad :: "u8 list \<Rightarrow> u8 list" where
  "sha256_pad m = m @ 0x80 # replicate ((119 - length m mod 64) mod 64) 0 @ length_bytes (of_nat (length m) * 8)"

definition sha256 :: "u8 list \<Rightarrow> Digest256" where
  "sha256 m = digest_of_state (fold compress_state (blocks (sha256_pad m)) initial_hash)"

section \<open>Blocks\<close>

lemma blocks_append: "64 dvd length a \<Longrightarrow> blocks (a @ b) = blocks a @ blocks b"
proof (induction a rule: blocks.induct)
  case (1 a)
  show ?case
  proof (cases "length a < 64")
    case True
    with "1.prems" have "a = []" by (auto dest: dvd_imp_le)
    then show ?thesis by (simp add: blocks.simps [of "[]"])
  next
    case False
    then have "64 dvd length (drop 64 a)" using "1.prems" by (simp add: dvd_minus_self)
    with "1.IH" False have "blocks (drop 64 a @ b) = blocks (drop 64 a) @ blocks b" by simp
    with False show ?thesis by (simp add: blocks.simps [of "a @ b"] blocks.simps [of a])
  qed
qed

lemma blocks_one: "length b = 64 \<Longrightarrow> blocks b = [b]"
  by (simp add: blocks.simps [of b] blocks.simps [of "[]"])

section \<open>What a hasher has absorbed\<close>

text \<open>
  \<open>absorbed s m\<close>: the state is the compression of the whole blocks of \<open>m\<close>, the buffer holds the rest.
\<close>

definition absorbed :: "Sha256 \<Rightarrow> u8 list \<Rightarrow> bool" where
  "absorbed s m \<longleftrightarrow>
     sh_state s = fold compress_state (blocks (take (length m - sh_buffered s) m)) initial_hash \<and>
     64 dvd length m - sh_buffered s \<and> sh_buffered s \<le> length m \<and> sh_buffered s < 64 \<and>
     take (sh_buffered s) (sh_buffer s) = drop (length m - sh_buffered s) m \<and> length (sh_buffer s) = 64"

lemma absorbedI:
  assumes "64 dvd length full" "length tail < 64"
    and "sh_state s = fold compress_state (blocks full) initial_hash"
    and "sh_buffered s = length tail" "take (length tail) (sh_buffer s) = tail" "length (sh_buffer s) = 64"
  shows "absorbed s (full @ tail)"
  using assms by (simp add: absorbed_def)

lemma absorbedE:
  assumes "absorbed s m"
  obtains full tail where "m = full @ tail" "64 dvd length full" "length tail < 64"
    "sh_state s = fold compress_state (blocks full) initial_hash"
    "sh_buffered s = length tail" "take (length tail) (sh_buffer s) = tail" "length (sh_buffer s) = 64"
proof (rule that)
  let ?n = "length m - sh_buffered s"
  show "m = take ?n m @ drop ?n m" by simp
qed (use assms in \<open>auto simp: absorbed_def min_def\<close>)

lemma absorbed_new: "absorbed new_Sha256 []"
  using absorbedI [of "[]" "[]" new_Sha256] by (simp add: new_Sha256_def blocks.simps [of "[]"] kBlockBytes_def)

lemma absorbed_total [simp]: "absorbed (s\<lparr>sh_total_bytes := n\<rparr>) m = absorbed s m"
  by (simp add: absorbed_def)

text \<open>Pushing bytes while the block is not full.\<close>

lemma take_list_update_snoc: "i < length xs \<Longrightarrow> take (Suc i) (xs[i := b]) = take i xs @ [b]"
  by (simp add: take_Suc_conv_app_nth)

lemma fold_push_byte:
  assumes "sh_buffered s + length bs \<le> 64" "length (sh_buffer s) = 64"
  shows "sh_state (fold push_byte bs s) = sh_state s \<and> length (sh_buffer (fold push_byte bs s)) = 64 \<and>
         sh_buffered (fold push_byte bs s) = sh_buffered s + length bs \<and>
         take (sh_buffered s + length bs) (sh_buffer (fold push_byte bs s)) = take (sh_buffered s) (sh_buffer s) @ bs"
  using assms
proof (induction bs arbitrary: s)
  case (Cons b bs)
  then show ?case
    using Cons.IH [of "push_byte b s"] by (simp add: push_byte_def take_list_update_snoc)
qed simp

lemma fill_buffer_eq:
  "sh_buffered s \<le> 64 \<Longrightarrow>
   fill_buffer bs s = (fold push_byte (take (64 - sh_buffered s) bs) s, drop (64 - sh_buffered s) bs)"
proof (induction bs arbitrary: s)
  case (Cons b bs)
  show ?case
  proof (cases "sh_buffered s < 64")
    case True
    then have "64 - sh_buffered s = Suc (64 - sh_buffered (push_byte b s))" by (simp add: push_byte_def)
    with True Cons.IH [of "push_byte b s"] show ?thesis by (simp add: kBlockBytes_def push_byte_def)
  next
    case False
    with Cons.prems show ?thesis by (simp add: kBlockBytes_def)
  qed
qed simp

lemma absorbed_push:
  assumes "absorbed s m" "sh_buffered s + length bs < 64"
  shows "absorbed (fold push_byte bs s) (m @ bs)"
proof -
  from assms(1) obtain full tail where m: "m = full @ tail" "64 dvd length full"
      "sh_state s = fold compress_state (blocks full) initial_hash"
      "sh_buffered s = length tail" "take (length tail) (sh_buffer s) = tail" "length (sh_buffer s) = 64"
    by (elim absorbedE) blast
  show ?thesis
    using absorbedI [of full "tail @ bs" "fold push_byte bs s"] fold_push_byte [of s bs] m assms(2) by simp
qed

lemma absorbed_compress_blocks:
  assumes "absorbed s m" "sh_buffered s = 0"
  shows "\<exists>used. bs = used @ snd (compress_blocks bs s) \<and> length (snd (compress_blocks bs s)) < 64 \<and>
    absorbed (fst (compress_blocks bs s)) (m @ used) \<and> sh_buffered (fst (compress_blocks bs s)) = 0"
  using assms
proof (induction bs s arbitrary: m rule: compress_blocks.induct)
  case (1 bs s)
  show ?case
  proof (cases "length bs \<ge> 64")
    case True
    let ?s = "Sha256_Compress (take 64 bs) s"
    from "1.prems" have m: "64 dvd length m" "sh_state s = fold compress_state (blocks m) initial_hash"
        "length (sh_buffer s) = 64"
      by (auto simp: absorbed_def)
    with True "1.prems"(2) have "absorbed ?s (m @ take 64 bs)"
      using absorbedI [of "m @ take 64 bs" "[]" ?s]
      by (simp add: Sha256_Compress_def blocks_append blocks_one)
    with "1.IH" [of "m @ take 64 bs"] True "1.prems"(2) obtain used where
        "drop 64 bs = used @ snd (compress_blocks (drop 64 bs) ?s)" "length (snd (compress_blocks (drop 64 bs) ?s)) < 64"
        "absorbed (fst (compress_blocks (drop 64 bs) ?s)) ((m @ take 64 bs) @ used)"
        "sh_buffered (fst (compress_blocks (drop 64 bs) ?s)) = 0"
      by (auto simp: kBlockBytes_def Sha256_Compress_def)
    moreover have "compress_blocks bs s = compress_blocks (drop 64 bs) ?s"
      using True by (subst compress_blocks.simps) (simp add: kBlockBytes_def)
    ultimately show ?thesis
      by (intro exI [of _ "take 64 bs @ used"]) (metis append_assoc append_take_drop_id)
  next
    case False
    then have "compress_blocks bs s = (s, bs)" by (simp add: compress_blocks.simps kBlockBytes_def)
    with False "1.prems" show ?thesis by simp
  qed
qed

lemma absorbed_top_up:
  assumes "absorbed s m"
  shows "\<exists>used. bs = used @ snd (top_up bs s) \<and> absorbed (fst (top_up bs s)) (m @ used) \<and>
    (snd (top_up bs s) \<noteq> [] \<longrightarrow> sh_buffered (fst (top_up bs s)) = 0)"
proof (cases "sh_buffered s > 0")
  case True
  let ?n = "64 - sh_buffered s"
  let ?t = "fold push_byte (take ?n bs) s"
  from assms obtain full tail where m: "m = full @ tail" "64 dvd length full" "length tail < 64"
      "sh_state s = fold compress_state (blocks full) initial_hash"
      "sh_buffered s = length tail" "take (length tail) (sh_buffer s) = tail" "length (sh_buffer s) = 64"
    by (elim absorbedE) blast
  have pushed: "sh_state ?t = sh_state s" "length (sh_buffer ?t) = 64"
      "sh_buffered ?t = length tail + length (take ?n bs)"
      "take (length tail + length (take ?n bs)) (sh_buffer ?t) = tail @ take ?n bs"
    using fold_push_byte [of s "take ?n bs"] m by auto
  show ?thesis
  proof (cases "length bs < ?n")
    case short: True
    then have "top_up bs s = (?t, [])"
      using True m pushed by (simp add: top_up_def fill_buffer_eq kBlockBytes_def)
    with absorbed_push [OF assms, of bs] short show ?thesis by simp
  next
    case False
    let ?u = "(Sha256_Compress (sh_buffer ?t) ?t)\<lparr>sh_buffered := 0\<rparr>"
    from False have len: "length tail + length (take ?n bs) = 64" using m by simp
    then have full_buffer: "sh_buffer ?t = tail @ take ?n bs" using pushed by simp
    from False True m pushed have "top_up bs s = (?u, drop ?n bs)"
      by (simp add: top_up_def fill_buffer_eq kBlockBytes_def)
    moreover have "absorbed ?u ((full @ tail @ take ?n bs) @ [])"
    proof (rule absorbedI)
      show "64 dvd length (full @ tail @ take ?n bs)" using m(2) len by simp
      show "sh_state ?u = fold compress_state (blocks (full @ tail @ take ?n bs)) initial_hash"
        using m pushed(1) full_buffer len
        by (simp add: Sha256_Compress_def blocks_append blocks_one)
    qed (use pushed in \<open>simp_all add: Sha256_Compress_def\<close>)
    ultimately show ?thesis using m by (intro exI [of _ "take ?n bs"]) simp
  qed
qed (use assms in \<open>auto simp: top_up_def\<close>)

lemma absorbed_Update:
  assumes "absorbed s m"
  shows "absorbed (Sha256_Update bs s) (m @ bs)"
proof (cases "bs = []")
  case False
  let ?s0 = "s\<lparr>sh_total_bytes := sh_total_bytes s + of_nat (length bs)\<rparr>"
  obtain s1 rest1 where top: "top_up bs ?s0 = (s1, rest1)" by fastforce
  obtain s2 rest2 where blk: "compress_blocks rest1 s1 = (s2, rest2)" by fastforce
  from absorbed_top_up [of ?s0 m bs] assms top obtain used1 where
      one: "bs = used1 @ rest1" "absorbed s1 (m @ used1)" "rest1 \<noteq> [] \<Longrightarrow> sh_buffered s1 = 0" by auto
  have "absorbed (fold push_byte rest2 s2) (m @ bs)"
  proof (cases "rest1 = []")
    case True
    with blk have "s2 = s1" "rest2 = []" by (auto simp: compress_blocks.simps kBlockBytes_def)
    with True one show ?thesis by simp
  next
    case rest: False
    with absorbed_compress_blocks [OF one(2), of rest1] one(3) blk obtain used2 where
        two: "rest1 = used2 @ rest2" "length rest2 < 64" "absorbed s2 ((m @ used1) @ used2)" "sh_buffered s2 = 0"
      by auto
    with absorbed_push [OF two(3), of rest2] one show ?thesis by simp
  qed
  with False top blk show ?thesis by (simp add: Sha256_Update_def)
qed (use assms in \<open>simp add: Sha256_Update_def\<close>)

section \<open>Totals and padding\<close>

lemma push_byte_total [simp]: "sh_total_bytes (fold push_byte bs s) = sh_total_bytes s"
  by (induction bs arbitrary: s) (simp_all add: push_byte_def)

lemma fill_buffer_total [simp]: "sh_total_bytes (fst (fill_buffer bs s)) = sh_total_bytes s"
  by (induction bs s rule: fill_buffer.induct) (simp_all add: push_byte_def)

lemma compress_blocks_total [simp]: "sh_total_bytes (fst (compress_blocks bs s)) = sh_total_bytes s"
proof (induction bs s rule: compress_blocks.induct)
  case (1 bs s)
  then show ?case by (subst compress_blocks.simps) (simp add: Sha256_Compress_def)
qed

lemma top_up_total [simp]: "sh_total_bytes (fst (top_up bs s)) = sh_total_bytes s"
proof (cases "fill_buffer bs s")
  case (Pair s1 rest)
  with fill_buffer_total [of bs s] show ?thesis by (simp add: top_up_def Sha256_Compress_def)
qed

lemma Update_total: "sh_total_bytes (Sha256_Update bs s) = sh_total_bytes s + of_nat (length bs)"
proof -
  let ?s0 = "s\<lparr>sh_total_bytes := sh_total_bytes s + of_nat (length bs)\<rparr>"
  obtain s1 rest1 where top: "top_up bs ?s0 = (s1, rest1)" by fastforce
  obtain s2 rest2 where blk: "compress_blocks rest1 s1 = (s2, rest2)" by fastforce
  show ?thesis
    using top_up_total [of bs ?s0] compress_blocks_total [of rest1 s1] top blk
    by (auto simp: Sha256_Update_def)
qed

lemma absorbed_buffered: "absorbed s m \<Longrightarrow> sh_buffered s = length m mod 64"
proof (elim absorbedE)
  fix full tail :: "u8 list"
  assume "m = full @ tail" "64 dvd length full" "length tail < 64" "sh_buffered s = length tail"
  moreover from this have "(length full + length tail) mod 64 = length tail mod 64"
    by (metis add_0 dvd_eq_mod_eq_0 mod_add_left_eq)
  ultimately show ?thesis by simp
qed

lemma absorbed_state:
  assumes "absorbed s m" "length m mod 64 = 0"
  shows "sh_state s = fold compress_state (blocks m) initial_hash"
proof -
  have "sh_buffered s = 0" using absorbed_buffered [OF assms(1)] assms(2) by (rule trans)
  with assms(1) show ?thesis unfolding absorbed_def by auto
qed

lemma mod_add_known: "(a :: nat) mod n = c \<Longrightarrow> (a + b) mod n = (c + b) mod n"
  by (metis mod_add_left_eq)

text \<open>The padding loop ends, after as many zero bytes as the reference appends.\<close>

lemma pad_zeros_absorbed:
  assumes "absorbed s m" "(length m + k) mod 64 = 56" "k < 64"
  shows "absorbed (pad_zeros s) (m @ replicate k 0)"
  using assms
proof (induction k arbitrary: s m)
  case 0
  then have "sh_buffered s = 56" using absorbed_buffered [of s m] by simp
  then have "pad_zeros s = s" unfolding pad_zeros_def by (subst while_unfold) simp
  with 0 show ?case by simp
next
  case (Suc k)
  have "length m mod 64 \<noteq> 56"
  proof
    assume "length m mod 64 = 56"
    with Suc.prems(2) have "(56 + Suc k) mod 64 = 56" by (metis mod_add_known)
    with Suc.prems(3) show False by (cases "k < 7") (auto simp: mod_if split: if_splits)
  qed
  then have "pad_zeros s = pad_zeros (Sha256_Update [0] s)"
    using absorbed_buffered [OF Suc.prems(1)] unfolding pad_zeros_def by (subst while_unfold) simp
  moreover have "absorbed (pad_zeros (Sha256_Update [0] s)) ((m @ [0]) @ replicate k 0)"
    by (rule Suc.IH [OF absorbed_Update [OF Suc.prems(1)]]) (use Suc.prems in auto)
  ultimately show ?case by simp
qed

lemma pad_amount: "(Suc n + (119 - n mod 64) mod 64) mod 64 = 56"
proof -
  define q r where "q = n div 64" and "r = n mod 64"
  have n: "n = 64 * q + r" and r: "r < 64" by (simp_all add: q_def r_def)
  have "(119 - r) mod 64 = (if r \<le> 55 then 55 - r else 119 - r)"
    using r by (auto simp: mod_if)
  then have "Suc n + (119 - r) mod 64 = (if r \<le> 55 then 64 * q + 56 else 64 * q + 120)"
    using r n by auto
  then show ?thesis unfolding r_def by (auto simp: mod_mult_self4)
qed

lemma Finalize_absorbed:
  assumes "absorbed s m" "sh_total_bytes s = of_nat (length m)"
  shows "Sha256_Finalize s = sha256 m"
proof -
  let ?k = "(119 - length m mod 64) mod 64"
  let ?lb = "length_bytes (of_nat (length m) * 8)"
  have k: "(length (m @ [0x80]) + ?k) mod 64 = 56" using pad_amount [of "length m"] by simp
  have "absorbed (Sha256_Update ?lb (pad_zeros (Sha256_Update [0x80] s))) (((m @ [0x80]) @ replicate ?k 0) @ ?lb)"
    by (intro absorbed_Update pad_zeros_absorbed assms(1) k) simp
  moreover have "length (((m @ [0x80]) @ replicate ?k 0) @ ?lb) mod 64 = 0"
    using mod_add_known [OF k, of 8] by (simp add: length_bytes_def ac_simps)
  ultimately have "sh_state (Sha256_Update ?lb (pad_zeros (Sha256_Update [0x80] s))) =
      fold compress_state (blocks (sha256_pad m)) initial_hash"
    by (auto simp: sha256_pad_def dest: absorbed_state)
  with assms(2) show ?thesis by (simp add: Sha256_Finalize_def sha256_def)
qed

lemma absorbed_chunks:
  "absorbed (fold Sha256_Update chunks s) (m @ concat chunks) \<and>
   sh_total_bytes (fold Sha256_Update chunks s) = of_nat (length (m @ concat chunks))"
  if "absorbed s m" "sh_total_bytes s = of_nat (length m)"
  using that
proof (induction chunks arbitrary: s m)
  case (Cons c chunks)
  then show ?case
    using Cons.IH [of "Sha256_Update c s" "m @ c"] absorbed_Update [of s m c] by (simp add: Update_total)
qed simp

lemma length_digest_of_state: "length (digest_of_state st) = 32"
  by (cases st rule: digest_of_state.cases) (simp add: word_bytes_def)

lemma length_sha256 [simp]: "length (sha256 m) = 32"
  by (simp add: sha256_def length_digest_of_state)

text \<open>
  C20: hashing a message in pieces is the reference digest of the whole message: for every way of
  cutting it into pieces (of any sizes, empty ones included) the hasher's buffering, block loop and
  padding loop give \<open>sha256\<close> of the concatenation, and that digest has 32 bytes.
\<close>

theorem Sha256_incremental:
  "Sha256_Finalize (fold Sha256_Update chunks new_Sha256) = sha256 (concat chunks) \<and>
   length (sha256 (concat chunks)) = 32"
  using absorbed_chunks [OF absorbed_new, of chunks] Finalize_absorbed by (simp add: new_Sha256_def)

lemma Sha256_Of_eq: "Sha256_Of t = sha256 (bytes_of t)"
  using absorbed_chunks [OF absorbed_new, of "[bytes_of t]"] Finalize_absorbed
  by (simp add: Sha256_Of_def new_Sha256_def)

lemma length_Sha256_Of [simp]: "length (Sha256_Of t) = 32"
  by (simp add: Sha256_Of_eq)

end
