(* ===== verification/Proto.thy ===== *)
theory Proto
  imports Bytes Sha256 Validate
begin

text \<open>
  The framed transport (\<open>include/opp/proto.hpp\<close>, \<open>src/proto.cpp\<close>): frames with magic, revision,
  routing fields, payload and SHA-256 trailer, and one record with an encoder and a decoder per
  message.  \<open>DecodeFrame\<close> and \<open>DecodeFailure\<close> convert an unchecked 32-bit value to an enumeration, so
  those two fields are 32-bit words here, which \<open>message_kind\<close> and \<open>status_code\<close> read.
\<close>

section \<open>Frames\<close>

definition kFrameMagic :: u32 where "kFrameMagic = 0x3150504f"
definition kProtocolVersion :: u32 where "kProtocolVersion = 1"
definition kFrameHeaderBytes :: nat where "kFrameHeaderBytes = 4 + 4 + 4 + 8 + 8 + 4"

datatype MessageKind =
    MkHello | MkHelloAck | MkIngest | MkIngestAck | MkPlan | MkPlanAck | MkValidate | MkValidateAck
  | MkGetPlan | MkGetPlanAck | MkStoreList | MkStoreListAck | MkCancel | MkCancelAck | MkStats
  | MkStatsAck | MkShutdown | MkShutdownAck | MkFailure

fun MessageKind_value :: "MessageKind \<Rightarrow> u32" where
  "MessageKind_value MkHello = 1"
| "MessageKind_value MkHelloAck = 2"
| "MessageKind_value MkIngest = 3"
| "MessageKind_value MkIngestAck = 4"
| "MessageKind_value MkPlan = 5"
| "MessageKind_value MkPlanAck = 6"
| "MessageKind_value MkValidate = 7"
| "MessageKind_value MkValidateAck = 8"
| "MessageKind_value MkGetPlan = 9"
| "MessageKind_value MkGetPlanAck = 10"
| "MessageKind_value MkStoreList = 11"
| "MessageKind_value MkStoreListAck = 12"
| "MessageKind_value MkCancel = 13"
| "MessageKind_value MkCancelAck = 14"
| "MessageKind_value MkStats = 15"
| "MessageKind_value MkStatsAck = 16"
| "MessageKind_value MkShutdown = 17"
| "MessageKind_value MkShutdownAck = 18"
| "MessageKind_value MkFailure = 19"

definition all_message_kinds :: "MessageKind list" where
  "all_message_kinds =
     [MkHello, MkHelloAck, MkIngest, MkIngestAck, MkPlan, MkPlanAck, MkValidate, MkValidateAck, MkGetPlan,
      MkGetPlanAck, MkStoreList, MkStoreListAck, MkCancel, MkCancelAck, MkStats, MkStatsAck, MkShutdown,
      MkShutdownAck, MkFailure]"

text \<open>The case label a \<open>switch\<close> over a kind selects, if any.\<close>

definition message_kind :: "u32 \<Rightarrow> MessageKind option" where
  "message_kind v = find (\<lambda>k. MessageKind_value k = v) all_message_kinds"

fun MessageKind_text :: "MessageKind \<Rightarrow> string" where
  "MessageKind_text MkHello = ''HELLO''"
| "MessageKind_text MkHelloAck = ''HELLO_ACK''"
| "MessageKind_text MkIngest = ''INGEST''"
| "MessageKind_text MkIngestAck = ''INGEST_ACK''"
| "MessageKind_text MkPlan = ''PLAN''"
| "MessageKind_text MkPlanAck = ''PLAN_ACK''"
| "MessageKind_text MkValidate = ''VALIDATE''"
| "MessageKind_text MkValidateAck = ''VALIDATE_ACK''"
| "MessageKind_text MkGetPlan = ''GET_PLAN''"
| "MessageKind_text MkGetPlanAck = ''GET_PLAN_ACK''"
| "MessageKind_text MkStoreList = ''STORE_LIST''"
| "MessageKind_text MkStoreListAck = ''STORE_LIST_ACK''"
| "MessageKind_text MkCancel = ''CANCEL''"
| "MessageKind_text MkCancelAck = ''CANCEL_ACK''"
| "MessageKind_text MkStats = ''STATS''"
| "MessageKind_text MkStatsAck = ''STATS_ACK''"
| "MessageKind_text MkShutdown = ''SHUTDOWN''"
| "MessageKind_text MkShutdownAck = ''SHUTDOWN_ACK''"
| "MessageKind_text MkFailure = ''FAILURE''"

definition MessageKindName :: "u32 \<Rightarrow> string" where
  "MessageKindName v = (case message_kind v of Some k \<Rightarrow> MessageKind_text k | None \<Rightarrow> ''UNKNOWN'')"

record Frame =
  fr_kind :: u32
  fr_sequence :: u64
  fr_epoch_pin :: Epoch
  fr_payload :: string

definition IsRequest :: "Frame \<Rightarrow> bool" where
  "IsRequest f = (case message_kind (fr_kind f) of
      Some k \<Rightarrow> k \<in> {MkHello, MkIngest, MkPlan, MkValidate, MkGetPlan, MkStoreList, MkCancel, MkStats, MkShutdown}
    | None \<Rightarrow> False)"

definition EncodeFrameBody :: "u32 \<Rightarrow> u64 \<Rightarrow> Epoch \<Rightarrow> string \<Rightarrow> string" where
  "EncodeFrameBody kind sequence epoch_pin payload =
     Writer_U32 kFrameMagic @ Writer_U32 kProtocolVersion @ Writer_U32 kind @ Writer_U64 sequence @
     Writer_U64 epoch_pin @ Writer_U32 (of_nat (length payload)) @ payload"

definition EncodeFrame :: "Frame \<Rightarrow> string" where
  "EncodeFrame f =
     (let body = EncodeFrameBody (fr_kind f) (fr_sequence f) (fr_epoch_pin f) (fr_payload f)
      in body @ text_of (Sha256_Of body))"

definition FrameSize :: "string \<Rightarrow> nat expected" where
  "FrameSize bs =
     (if length bs < kFrameHeaderBytes then Inl (Failure NotFound ''frame header is incomplete'')
      else case Reader_bind Reader_U32 (\<lambda>magic.
             if magic \<noteq> kFrameMagic then Reader_fail (Failure MalformedInput ''frame magic is not recognised'')
             else Reader_bind Reader_U32 (\<lambda>version. Reader_bind Reader_U32 (\<lambda>kind.
                  Reader_bind Reader_U64 (\<lambda>sequence. Reader_bind Reader_U64 (\<lambda>epoch.
                  Reader_bind Reader_U32 (\<lambda>len.
                    if unat len > kMaxFrameBytes
                    then Reader_fail (Failure LimitExceeded ''frame payload exceeds the permitted maximum size'')
                    else Reader_return len)))))) (take kFrameHeaderBytes bs) of
             Inl e \<Rightarrow> Inl e
           | Inr (len, _) \<Rightarrow>
               let frame_total = kFrameHeaderBytes + unat len + 32
               in if length bs < frame_total then Inl (Failure NotFound ''frame body is incomplete'') else Inr frame_total)"

text \<open>The decoded frame and the number of bytes it took.\<close>

definition DecodeFrame :: "string \<Rightarrow> (Frame \<times> nat) expected" where
  "DecodeFrame bs =
     (case FrameSize bs of
        Inl e \<Rightarrow> Inl e
      | Inr frame_total \<Rightarrow>
          let checksum = Sha256_Of (take (frame_total - 32) bs); trailer = take 32 (drop (frame_total - 32) bs)
          in if text_of checksum \<noteq> trailer
             then Inl (Failure IntegrityFailure ''frame checksum does not match its content'')
             else case Reader_bind Reader_U32 (\<lambda>magic. Reader_bind Reader_U32 (\<lambda>version.
                    if version \<noteq> kProtocolVersion
                    then Reader_fail (Failure Unsupported ''transport revision is not supported by this runtime'')
                    else Reader_bind Reader_U32 (\<lambda>kind. Reader_bind Reader_U64 (\<lambda>sequence.
                         Reader_bind Reader_U64 (\<lambda>epoch. Reader_bind Reader_U32 (\<lambda>len.
                           Reader_return \<lparr>fr_kind = kind, fr_sequence = sequence, fr_epoch_pin = epoch,
                             fr_payload = take (unat len) (drop kFrameHeaderBytes bs)\<rparr>))))))
                    (take kFrameHeaderBytes bs) of
                    Inl e \<Rightarrow> Inl e
                  | Inr (f, _) \<Rightarrow> Inr (f, frame_total))"

section \<open>Messages\<close>

record HelloMessage =
  hm_protocol_version :: u32
  hm_client_name :: string

definition EncodeHello :: "HelloMessage \<Rightarrow> string" where
  "EncodeHello m = Writer_U32 (hm_protocol_version m) @ Writer_Text (hm_client_name m)"

definition DecodeHello :: "string \<Rightarrow> HelloMessage expected" where
  "DecodeHello = read_payload
     (Reader_bind Reader_U32 (\<lambda>version. Reader_bind Reader_Text (\<lambda>name.
      Reader_return \<lparr>hm_protocol_version = version, hm_client_name = name\<rparr>)))"

record HelloAckMessage =
  ha_protocol_version :: u32
  ha_library_version :: string
  ha_incarnation :: IncarnationId
  ha_epoch :: Epoch
  ha_epoch_continuity :: bool
  ha_has_snapshot :: bool
  ha_snapshot_fresh :: bool
  ha_snapshot_id :: SnapshotId
  ha_snapshot_generation :: Generation
  ha_snapshot_digest :: Digest256

definition EncodeHelloAck :: "HelloAckMessage \<Rightarrow> string" where
  "EncodeHelloAck m =
     Writer_U32 (ha_protocol_version m) @ Writer_Text (ha_library_version m) @
     Writer_Incarnation (ha_incarnation m) @ Writer_U64 (ha_epoch m) @ Writer_Bool (ha_epoch_continuity m) @
     Writer_Bool (ha_has_snapshot m) @ Writer_Bool (ha_snapshot_fresh m) @ Writer_Text (ha_snapshot_id m) @
     Writer_U64 (ha_snapshot_generation m) @ Writer_Digest (ha_snapshot_digest m)"

text \<open>An empty snapshot id is accepted here: there may be no snapshot.\<close>

definition DecodeHelloAck :: "string \<Rightarrow> HelloAckMessage expected" where
  "DecodeHelloAck = read_payload
     (Reader_bind Reader_U32 (\<lambda>version. Reader_bind Reader_Text (\<lambda>library.
      Reader_bind Reader_Incarnation (\<lambda>incarnation. Reader_bind Reader_U64 (\<lambda>epoch.
      Reader_bind Reader_Bool (\<lambda>continuity. Reader_bind Reader_Bool (\<lambda>has_snapshot.
      Reader_bind Reader_Bool (\<lambda>fresh. Reader_bind Reader_Text (\<lambda>id_text.
      case (if id_text = [] then Inr [] else ParseId id_text) of
        Inl e \<Rightarrow> Reader_fail e
      | Inr snapshot_id \<Rightarrow>
          Reader_bind Reader_U64 (\<lambda>generation. Reader_bind Reader_Digest (\<lambda>digest.
          Reader_return \<lparr>ha_protocol_version = version, ha_library_version = library,
            ha_incarnation = incarnation, ha_epoch = epoch, ha_epoch_continuity = continuity,
            ha_has_snapshot = has_snapshot, ha_snapshot_fresh = fresh, ha_snapshot_id = snapshot_id,
            ha_snapshot_generation = generation, ha_snapshot_digest = digest\<rparr>)))))))))))"

record IngestMessage =
  im_snapshot_digest :: Digest256
  im_snapshot_text :: string

definition EncodeIngest :: "IngestMessage \<Rightarrow> string" where
  "EncodeIngest m = Writer_Digest (im_snapshot_digest m) @ Writer_Bytes (im_snapshot_text m)"

definition DecodeIngest :: "string \<Rightarrow> IngestMessage expected" where
  "DecodeIngest = read_payload
     (Reader_bind Reader_Digest (\<lambda>digest. Reader_bind Reader_Bytes (\<lambda>text.
      Reader_return \<lparr>im_snapshot_digest = digest, im_snapshot_text = text\<rparr>)))"

record IngestAckMessage =
  ia_snapshot_id :: SnapshotId
  ia_generation :: Generation
  ia_snapshot_digest :: Digest256

definition EncodeIngestAck :: "IngestAckMessage \<Rightarrow> string" where
  "EncodeIngestAck m =
     Writer_Text (ia_snapshot_id m) @ Writer_U64 (ia_generation m) @ Writer_Digest (ia_snapshot_digest m)"

definition DecodeIngestAck :: "string \<Rightarrow> IngestAckMessage expected" where
  "DecodeIngestAck = read_payload
     (Reader_bind Reader_Text (\<lambda>id_text.
      case ParseId id_text of
        Inl e \<Rightarrow> Reader_fail e
      | Inr snapshot_id \<Rightarrow>
          Reader_bind Reader_U64 (\<lambda>generation. Reader_bind Reader_Digest (\<lambda>digest.
          Reader_return \<lparr>ia_snapshot_id = snapshot_id, ia_generation = generation, ia_snapshot_digest = digest\<rparr>))))"

record PlanMessage =
  pm_cancel_token :: u64
  pm_request_text :: string

definition EncodePlan :: "PlanMessage \<Rightarrow> string" where
  "EncodePlan m = Writer_U64 (pm_cancel_token m) @ Writer_Bytes (pm_request_text m)"

definition DecodePlan :: "string \<Rightarrow> PlanMessage expected" where
  "DecodePlan = read_payload
     (Reader_bind Reader_U64 (\<lambda>token. Reader_bind Reader_Bytes (\<lambda>text.
      Reader_return \<lparr>pm_cancel_token = token, pm_request_text = text\<rparr>)))"

record PlanAckMessage =
  pa_result_text :: string

definition EncodePlanAck :: "PlanAckMessage \<Rightarrow> string" where
  "EncodePlanAck m = Writer_Bytes (pa_result_text m)"

definition DecodePlanAck :: "string \<Rightarrow> PlanAckMessage expected" where
  "DecodePlanAck = read_payload
     (Reader_bind Reader_Bytes (\<lambda>text. Reader_return \<lparr>pa_result_text = text\<rparr>))"

record ValidateMessage =
  vm_policy :: ValidationPolicy
  vm_plan_text :: string

definition EncodeValidate :: "ValidateMessage \<Rightarrow> string" where
  "EncodeValidate m =
     Writer_Bool (vp_accept_restored_evidence (vm_policy m)) @
     Writer_Bool (vp_revalidate_on_mismatch (vm_policy m)) @ Writer_Bytes (vm_plan_text m)"

definition DecodeValidate :: "string \<Rightarrow> ValidateMessage expected" where
  "DecodeValidate = read_payload
     (Reader_bind Reader_Bool (\<lambda>accept. Reader_bind Reader_Bool (\<lambda>revalidate. Reader_bind Reader_Bytes (\<lambda>text.
      Reader_return \<lparr>vm_policy = \<lparr>vp_accept_restored_evidence = accept, vp_revalidate_on_mismatch = revalidate\<rparr>,
                     vm_plan_text = text\<rparr>))))"

fun PlanValidity_value :: "PlanValidity \<Rightarrow> u32" where
  "PlanValidity_value PvValid = 0"
| "PlanValidity_value PvStale = 1"
| "PlanValidity_value PvContentMismatch = 2"
| "PlanValidity_value PvMissingEvidence = 3"
| "PlanValidity_value PvIntegrityFailure = 4"
| "PlanValidity_value PvUnsupported = 5"
| "PlanValidity_value PvRefused = 6"
| "PlanValidity_value PvNotFresh = 7"

definition plan_validity :: "u32 \<Rightarrow> PlanValidity" where
  "plan_validity v =
     [PvValid, PvStale, PvContentMismatch, PvMissingEvidence, PvIntegrityFailure, PvUnsupported, PvRefused,
      PvNotFresh] ! unat v"

record ValidateAckMessage =
  va_validity :: PlanValidity
  va_report_text :: string

definition EncodeValidateAck :: "ValidateAckMessage \<Rightarrow> string" where
  "EncodeValidateAck m = Writer_U32 (PlanValidity_value (va_validity m)) @ Writer_Text (va_report_text m)"

definition DecodeValidateAck :: "string \<Rightarrow> ValidateAckMessage expected" where
  "DecodeValidateAck = read_payload
     (Reader_bind Reader_U32 (\<lambda>validity.
      if validity > PlanValidity_value PvNotFresh
      then Reader_fail (Failure MalformedInput ''validation validity value is not recognised'')
      else Reader_bind Reader_Text (\<lambda>text.
           Reader_return \<lparr>va_validity = plan_validity validity, va_report_text = text\<rparr>)))"

record GetPlanMessage =
  gp_digest :: Digest256

definition EncodeGetPlan :: "GetPlanMessage \<Rightarrow> string" where
  "EncodeGetPlan m = Writer_Digest (gp_digest m)"

definition DecodeGetPlan :: "string \<Rightarrow> GetPlanMessage expected" where
  "DecodeGetPlan = read_payload
     (Reader_bind Reader_Digest (\<lambda>digest. Reader_return \<lparr>gp_digest = digest\<rparr>))"

record GetPlanAckMessage =
  ga_digest :: Digest256
  ga_plan_text :: string

definition EncodeGetPlanAck :: "GetPlanAckMessage \<Rightarrow> string" where
  "EncodeGetPlanAck m = Writer_Digest (ga_digest m) @ Writer_Bytes (ga_plan_text m)"

definition DecodeGetPlanAck :: "string \<Rightarrow> GetPlanAckMessage expected" where
  "DecodeGetPlanAck = read_payload
     (Reader_bind Reader_Digest (\<lambda>digest. Reader_bind Reader_Bytes (\<lambda>text.
      Reader_return \<lparr>ga_digest = digest, ga_plan_text = text\<rparr>)))"

definition EncodeStoreList :: string where "EncodeStoreList = []"

record StoreListAckMessage =
  sl_digests :: "Digest256 list"
  sl_rejected_files :: "string list"

definition EncodeStoreListAck :: "StoreListAckMessage \<Rightarrow> string" where
  "EncodeStoreListAck m =
     Writer_U32 (of_nat (length (sl_digests m))) @ concat (map Writer_Digest (sl_digests m)) @
     Writer_U32 (of_nat (length (sl_rejected_files m))) @ concat (map Writer_Text (sl_rejected_files m))"

definition DecodeStoreListAck :: "string \<Rightarrow> StoreListAckMessage expected" where
  "DecodeStoreListAck = read_payload
     (Reader_bind Reader_U32 (\<lambda>n.
      if unat n > kMaxStoredPlans
      then Reader_fail (Failure LimitExceeded ''store listing exceeds the permitted number of entries'')
      else Reader_bind (Reader_many (unat n) Reader_Digest) (\<lambda>digests. Reader_bind Reader_U32 (\<lambda>rejected.
           if unat rejected > kMaxStoredPlans
           then Reader_fail (Failure LimitExceeded ''store rejection list exceeds the permitted number of entries'')
           else Reader_bind (Reader_many (unat rejected) Reader_Text) (\<lambda>names.
                Reader_return \<lparr>sl_digests = digests, sl_rejected_files = names\<rparr>)))))"

record CancelMessage =
  cm_cancel_token :: u64

definition EncodeCancel :: "CancelMessage \<Rightarrow> string" where
  "EncodeCancel m = Writer_U64 (cm_cancel_token m)"

definition DecodeCancel :: "string \<Rightarrow> CancelMessage expected" where
  "DecodeCancel = read_payload (Reader_bind Reader_U64 (\<lambda>token. Reader_return \<lparr>cm_cancel_token = token\<rparr>))"

record CancelAckMessage =
  ca_found :: bool

definition EncodeCancelAck :: "CancelAckMessage \<Rightarrow> string" where
  "EncodeCancelAck m = Writer_Bool (ca_found m)"

definition DecodeCancelAck :: "string \<Rightarrow> CancelAckMessage expected" where
  "DecodeCancelAck = read_payload (Reader_bind Reader_Bool (\<lambda>found. Reader_return \<lparr>ca_found = found\<rparr>))"

definition EncodeStats :: string where "EncodeStats = []"

record StatsAckMessage =
  st_incarnation :: IncarnationId
  st_epoch :: Epoch
  st_connections_accepted :: u64
  st_frames_handled :: u64
  st_frames_rejected :: u64
  st_snapshots_ingested :: u64
  st_plans_computed :: u64
  st_plans_rejected :: u64
  st_plans_cancelled :: u64
  st_active_requests :: u64
  st_stored_plans :: u64
  st_fenced_frames :: u64

definition EncodeStatsAck :: "StatsAckMessage \<Rightarrow> string" where
  "EncodeStatsAck m =
     Writer_Incarnation (st_incarnation m) @ Writer_U64 (st_epoch m) @ Writer_U64 (st_connections_accepted m) @
     Writer_U64 (st_frames_handled m) @ Writer_U64 (st_frames_rejected m) @ Writer_U64 (st_snapshots_ingested m) @
     Writer_U64 (st_plans_computed m) @ Writer_U64 (st_plans_rejected m) @ Writer_U64 (st_plans_cancelled m) @
     Writer_U64 (st_active_requests m) @ Writer_U64 (st_stored_plans m) @ Writer_U64 (st_fenced_frames m)"

definition DecodeStatsAck :: "string \<Rightarrow> StatsAckMessage expected" where
  "DecodeStatsAck = read_payload
     (Reader_bind Reader_Incarnation (\<lambda>incarnation. Reader_bind Reader_U64 (\<lambda>epoch.
      Reader_bind Reader_U64 (\<lambda>accepted. Reader_bind Reader_U64 (\<lambda>handled. Reader_bind Reader_U64 (\<lambda>rejected.
      Reader_bind Reader_U64 (\<lambda>ingested. Reader_bind Reader_U64 (\<lambda>computed. Reader_bind Reader_U64 (\<lambda>refused.
      Reader_bind Reader_U64 (\<lambda>cancelled. Reader_bind Reader_U64 (\<lambda>active. Reader_bind Reader_U64 (\<lambda>stored.
      Reader_bind Reader_U64 (\<lambda>fenced.
      Reader_return \<lparr>st_incarnation = incarnation, st_epoch = epoch, st_connections_accepted = accepted,
        st_frames_handled = handled, st_frames_rejected = rejected, st_snapshots_ingested = ingested,
        st_plans_computed = computed, st_plans_rejected = refused, st_plans_cancelled = cancelled,
        st_active_requests = active, st_stored_plans = stored, st_fenced_frames = fenced\<rparr>)))))))))))))"

fun StatusCode_value :: "StatusCode \<Rightarrow> u32" where
  "StatusCode_value Ok = 0"
| "StatusCode_value InvalidArgument = 1"
| "StatusCode_value MalformedInput = 2"
| "StatusCode_value LimitExceeded = 3"
| "StatusCode_value DuplicateIdentity = 4"
| "StatusCode_value NotFound = 5"
| "StatusCode_value ConflictingEvidence = 6"
| "StatusCode_value Unsupported = 7"
| "StatusCode_value Stale = 8"
| "StatusCode_value Fenced = 9"
| "StatusCode_value Cancelled = 10"
| "StatusCode_value Truncated = 11"
| "StatusCode_value IntegrityFailure = 12"
| "StatusCode_value IoFailure = 13"
| "StatusCode_value Refused = 14"
| "StatusCode_value Exhausted = 15"
| "StatusCode_value Overflow = 16"
| "StatusCode_value Internal = 17"

record FailureMessage =
  fm_code :: u32
  fm_detail :: string

definition EncodeFailure :: "FailureMessage \<Rightarrow> string" where
  "EncodeFailure m = Writer_U32 (fm_code m) @ Writer_Text (fm_detail m)"

definition DecodeFailure :: "string \<Rightarrow> FailureMessage expected" where
  "DecodeFailure = read_payload
     (Reader_bind Reader_U32 (\<lambda>c. Reader_bind Reader_Text (\<lambda>text.
      Reader_return \<lparr>fm_code = c, fm_detail = text\<rparr>)))"

definition MakeFailureFrame :: "u64 \<Rightarrow> Epoch \<Rightarrow> Status \<Rightarrow> Frame" where
  "MakeFailureFrame sequence epoch_pin st =
     \<lparr>fr_kind = MessageKind_value MkFailure, fr_sequence = sequence, fr_epoch_pin = epoch_pin,
      fr_payload = EncodeFailure \<lparr>fm_code = StatusCode_value (code st), fm_detail = detail st\<rparr>\<rparr>"

end
