(* ===== verification/Proto_Props.thy ===== *)
theory Proto_Props
  imports Proto
begin

text \<open>
  The transport codecs are exact: a decoder accepts precisely what the encoder produces, so a frame or
  a message has one spelling and every other byte string is refused.
\<close>

section \<open>Enumerations\<close>

lemma MessageKind_value_inject [simp]: "MessageKind_value a = MessageKind_value b \<longleftrightarrow> a = b"
  by (cases a; cases b) simp_all

lemma message_kind_value [simp]: "message_kind (MessageKind_value k) = Some k"
  by (cases k) (simp_all add: message_kind_def all_message_kinds_def)

lemma StatusCode_value_inject [simp]: "StatusCode_value a = StatusCode_value b \<longleftrightarrow> a = b"
  by (cases a; cases b) simp_all

lemma plan_validity_value [simp]: "plan_validity (PlanValidity_value v) = v"
  by (cases v) (simp_all add: plan_validity_def)

lemma PlanValidity_value_bound: "PlanValidity_value v \<le> 7"
  by (cases v) simp_all

lemma value_plan_validity:
  assumes "v \<le> 7"
  shows "PlanValidity_value (plan_validity v) = v"
proof -
  have "unat v \<le> 7" using assms by (simp add: word_le_nat_alt)
  then have "unat v \<in> set [0, 1, 2, 3, 4, 5, 6, 7]" by auto
  then have "unat (PlanValidity_value (plan_validity v)) = unat v" by (auto simp: plan_validity_def)
  then show ?thesis by (simp add: word_unat_eq_iff)
qed

text \<open>A guarded read and a parse followed by reads, as conditions on the bytes.\<close>

lemma guard_iff [codec_simps]:
  "(if b then Reader_fail e else g) r = Inr x \<longleftrightarrow> \<not> b \<and> g r = Inr x"
  by (simp add: Reader_fail_def)

lemma parse_then_iff [codec_simps]:
  "(case parsed of Inl e \<Rightarrow> Reader_fail e | Inr i \<Rightarrow> g i) r = Inr x \<longleftrightarrow> (\<exists>i. parsed = Inr i \<and> g i r = Inr x)"
  by (cases parsed) (simp_all add: Reader_fail_def)

lemma optional_id_iff [codec_simps]:
  "(if t = [] then Inr [] else ParseId t) = Inr i \<longleftrightarrow> i = t \<and> (t = [] \<or> IsValidIdText t)"
  by (auto simp: ParseId_def)

section \<open>Messages\<close>

text \<open>
  What a message has to satisfy to fit its encoding: texts below the 32-bit length prefix, digests of
  32 and incarnations of 16 bytes, listings within the store bound, identifiers that parse.
\<close>

definition short_text :: "string \<Rightarrow> bool" where
  "short_text t \<longleftrightarrow> length t < 2 ^ 32"

definition HelloAck_fits :: "HelloAckMessage \<Rightarrow> bool" where
  "HelloAck_fits m \<longleftrightarrow> short_text (ha_library_version m) \<and> length (ha_incarnation m) = 16 \<and>
     (ha_snapshot_id m = [] \<or> IsValidIdText (ha_snapshot_id m)) \<and> length (ha_snapshot_digest m) = 32"

definition StoreListAck_fits :: "StoreListAckMessage \<Rightarrow> bool" where
  "StoreListAck_fits m \<longleftrightarrow> length (sl_digests m) \<le> kMaxStoredPlans \<and>
     length (sl_rejected_files m) \<le> kMaxStoredPlans \<and>
     list_all (\<lambda>d. length d = 32) (sl_digests m) \<and> list_all short_text (sl_rejected_files m)"

lemma id_text_short: "IsValidIdText t \<Longrightarrow> length t < 2 ^ 32"
  by (auto simp: IsValidIdText_def kMaxIdLength_def split: if_splits)

lemma DecodeHello_iff: "DecodeHello p = Inr m \<longleftrightarrow> short_text (hm_client_name m) \<and> p = EncodeHello m"
  by (cases m) (auto simp: DecodeHello_def EncodeHello_def codec_simps short_text_def)

lemma DecodeHelloAck_iff: "DecodeHelloAck p = Inr m \<longleftrightarrow> HelloAck_fits m \<and> p = EncodeHelloAck m"
  using id_text_short [of "ha_snapshot_id m"]
  by (cases m) (auto simp: DecodeHelloAck_def EncodeHelloAck_def codec_simps HelloAck_fits_def short_text_def)

lemma DecodeIngest_iff:
  "DecodeIngest p = Inr m \<longleftrightarrow>
     length (im_snapshot_digest m) = 32 \<and> short_text (im_snapshot_text m) \<and> p = EncodeIngest m"
  by (cases m) (auto simp: DecodeIngest_def EncodeIngest_def codec_simps short_text_def)

lemma DecodeIngestAck_iff:
  "DecodeIngestAck p = Inr m \<longleftrightarrow>
     IsValidIdText (ia_snapshot_id m) \<and> length (ia_snapshot_digest m) = 32 \<and> p = EncodeIngestAck m"
  using id_text_short [of "ia_snapshot_id m"]
  by (cases m) (auto simp: DecodeIngestAck_def EncodeIngestAck_def codec_simps)

lemma DecodePlan_iff: "DecodePlan p = Inr m \<longleftrightarrow> short_text (pm_request_text m) \<and> p = EncodePlan m"
  by (cases m) (auto simp: DecodePlan_def EncodePlan_def codec_simps short_text_def)

lemma DecodePlanAck_iff: "DecodePlanAck p = Inr m \<longleftrightarrow> short_text (pa_result_text m) \<and> p = EncodePlanAck m"
  by (cases m) (auto simp: DecodePlanAck_def EncodePlanAck_def codec_simps short_text_def)

lemma DecodeValidate_iff: "DecodeValidate p = Inr m \<longleftrightarrow> short_text (vm_plan_text m) \<and> p = EncodeValidate m"
  by (cases m; cases "vm_policy m") (auto simp: DecodeValidate_def EncodeValidate_def codec_simps short_text_def)

lemma DecodeValidateAck_iff:
  "DecodeValidateAck p = Inr m \<longleftrightarrow> short_text (va_report_text m) \<and> p = EncodeValidateAck m"
proof (cases m)
  case (fields v t)
  have "\<not> PlanValidity_value v > 7" using PlanValidity_value_bound [of v] by simp
  then show ?thesis
    unfolding fields
    by (auto simp: DecodeValidateAck_def EncodeValidateAck_def codec_simps short_text_def not_less
          value_plan_validity)
qed

lemma DecodeGetPlan_iff: "DecodeGetPlan p = Inr m \<longleftrightarrow> length (gp_digest m) = 32 \<and> p = EncodeGetPlan m"
  by (cases m) (auto simp: DecodeGetPlan_def EncodeGetPlan_def codec_simps)

lemma DecodeGetPlanAck_iff:
  "DecodeGetPlanAck p = Inr m \<longleftrightarrow>
     length (ga_digest m) = 32 \<and> short_text (ga_plan_text m) \<and> p = EncodeGetPlanAck m"
  by (cases m) (auto simp: DecodeGetPlanAck_def EncodeGetPlanAck_def codec_simps short_text_def)

lemma unat_bounded: "n \<le> kMaxStoredPlans \<Longrightarrow> unat (of_nat n :: u32) = n"
  by (simp add: unat_of_nat kMaxStoredPlans_def)

lemma DecodeStoreListAck_iff:
  "DecodeStoreListAck p = Inr m \<longleftrightarrow> StoreListAck_fits m \<and> p = EncodeStoreListAck m"
proof (cases m)
  case (fields ds ns)
  have "DecodeStoreListAck p = Inr m \<longleftrightarrow>
      (\<exists>n k :: u32. unat n \<le> kMaxStoredPlans \<and> unat k \<le> kMaxStoredPlans \<and> length ds = unat n \<and>
        list_all (\<lambda>d. length d = 32) ds \<and> length ns = unat k \<and> list_all short_text ns \<and>
        p = Writer_U32 n @ concat (map Writer_Digest ds) @ Writer_U32 k @ concat (map Writer_Text ns))"
    unfolding fields DecodeStoreListAck_def read_payload_iff
    by (auto simp: codec_simps wire_digest.many_iff wire_text.many_iff short_text_def [abs_def] not_less) blast
  also have "\<dots> \<longleftrightarrow> StoreListAck_fits m \<and> p = EncodeStoreListAck m" (is "?L \<longleftrightarrow> ?R")
  proof
    assume ?R
    then show ?L
      unfolding fields StoreListAck_fits_def EncodeStoreListAck_def
      by (intro exI [of _ "of_nat (length ds)"] exI [of _ "of_nat (length ns)"]) (simp add: unat_bounded)
  qed (auto simp: fields StoreListAck_fits_def EncodeStoreListAck_def)
  finally show ?thesis .
qed

lemma DecodeCancel_iff: "DecodeCancel p = Inr m \<longleftrightarrow> p = EncodeCancel m"
  by (cases m) (auto simp: DecodeCancel_def EncodeCancel_def codec_simps)

lemma DecodeCancelAck_iff: "DecodeCancelAck p = Inr m \<longleftrightarrow> p = EncodeCancelAck m"
  by (cases m) (auto simp: DecodeCancelAck_def EncodeCancelAck_def codec_simps)

lemma DecodeStatsAck_iff:
  "DecodeStatsAck p = Inr m \<longleftrightarrow> length (st_incarnation m) = 16 \<and> p = EncodeStatsAck m"
  by (cases m) (auto simp: DecodeStatsAck_def EncodeStatsAck_def codec_simps)

lemma DecodeFailure_iff: "DecodeFailure p = Inr m \<longleftrightarrow> short_text (fm_detail m) \<and> p = EncodeFailure m"
  by (cases m) (auto simp: DecodeFailure_def EncodeFailure_def codec_simps short_text_def)

section \<open>Frames\<close>

definition frame_header :: "u32 \<Rightarrow> u32 \<Rightarrow> u32 \<Rightarrow> u64 \<Rightarrow> u64 \<Rightarrow> u32 \<Rightarrow> string" where
  "frame_header magic version kind sequence epoch len =
     Writer_U32 magic @ Writer_U32 version @ Writer_U32 kind @ Writer_U64 sequence @ Writer_U64 epoch @ Writer_U32 len"

lemma length_frame_header [simp]: "length (frame_header m v k s e n) = 32"
  by (simp add: frame_header_def)

lemma frame_header_inject:
  "frame_header m v k s e n = frame_header m' v' k' s' e' n' \<longleftrightarrow>
     m = m' \<and> v = v' \<and> k = k' \<and> s = s' \<and> e = e' \<and> n = n'"
  unfolding frame_header_def
  by (metis wire_u32.put_unambiguous wire_u64.put_unambiguous append_Nil2)

lemmas wire_put_end = wire_u32.get_put [where rest = "[]", simplified]

lemma FrameSize_iff:
  "FrameSize bs = Inr sz \<longleftrightarrow>
     (\<exists>v k s e n. take 32 bs = frame_header kFrameMagic v k s e n \<and> unat n \<le> kMaxFrameBytes \<and>
        sz = 64 + unat n \<and> sz \<le> length bs)" (is "_ \<longleftrightarrow> ?R")
proof
  assume "FrameSize bs = Inr sz"
  then obtain v k s e n b where h: "take 32 bs = frame_header kFrameMagic v k s e n @ b" "unat n \<le> kMaxFrameBytes"
      "sz = 64 + unat n" "sz \<le> length bs"
    by (auto simp: FrameSize_def kFrameHeaderBytes_def frame_header_def Let_def codec_simps not_less
          split: if_splits sum.splits)
  moreover from h(1) have "length (take 32 bs) = 32 + length b" by simp
  then have "b = []" using h(3,4) by simp
  ultimately show ?R by (simp add: frame_header_inject)
next
  assume ?R
  then obtain v k s e n where h: "take 32 bs = frame_header kFrameMagic v k s e n" "unat n \<le> kMaxFrameBytes"
      "sz = 64 + unat n" "sz \<le> length bs" by blast
  then show "FrameSize bs = Inr sz"
    by (simp add: FrameSize_def kFrameHeaderBytes_def frame_header_def Reader_bind_def wire_u32.get_put
          wire_u64.get_put wire_put_end Reader_return_def)
qed

text \<open>Reading a complete header: the checksum and the revision decide.\<close>

lemma DecodeFrame_header:
  assumes "take 32 bs = frame_header kFrameMagic v k s e n" "unat n \<le> kMaxFrameBytes" "64 + unat n \<le> length bs"
  shows "DecodeFrame bs =
    (if text_of (Sha256_Of (take (32 + unat n) bs)) \<noteq> take 32 (drop (32 + unat n) bs)
     then Inl (Failure IntegrityFailure ''frame checksum does not match its content'')
     else if v \<noteq> kProtocolVersion
     then Inl (Failure Unsupported ''transport revision is not supported by this runtime'')
     else Inr (\<lparr>fr_kind = k, fr_sequence = s, fr_epoch_pin = e, fr_payload = take (unat n) (drop 32 bs)\<rparr>, 64 + unat n))"
proof -
  have "FrameSize bs = Inr (64 + unat n)" using assms FrameSize_iff by blast
  then show ?thesis
    using assms(1)
    by (simp add: DecodeFrame_def kFrameHeaderBytes_def frame_header_def Reader_bind_def wire_u32.get_put
          wire_u64.get_put wire_put_end Reader_return_def Reader_fail_def)
qed

lemma payload_word: "length p \<le> kMaxFrameBytes \<Longrightarrow> unat (of_nat (length p) :: u32) = length p"
  by (simp add: unat_of_nat kMaxFrameBytes_def)

lemma EncodeFrame_header:
  "EncodeFrame f =
     frame_header kFrameMagic kProtocolVersion (fr_kind f) (fr_sequence f) (fr_epoch_pin f) (of_nat (length (fr_payload f))) @
     fr_payload f @
     text_of (Sha256_Of (EncodeFrameBody (fr_kind f) (fr_sequence f) (fr_epoch_pin f) (fr_payload f)))"
  by (simp add: EncodeFrame_def EncodeFrameBody_def frame_header_def)

lemma length_EncodeFrame: "length (EncodeFrame f) = 64 + length (fr_payload f)"
  by (simp add: EncodeFrame_header)

lemma body_header:
  "EncodeFrameBody k s e p = frame_header kFrameMagic kProtocolVersion k s e (of_nat (length p)) @ p"
  by (simp add: EncodeFrameBody_def frame_header_def)

lemma DecodeFrame_EncodeFrame:
  assumes "length (fr_payload f) \<le> kMaxFrameBytes"
  shows "DecodeFrame (EncodeFrame f @ rest) = Inr (f, length (EncodeFrame f))"
proof -
  let ?b = "EncodeFrame f @ rest"
  let ?n = "of_nat (length (fr_payload f)) :: u32"
  have n: "unat ?n = length (fr_payload f)" using assms by (rule payload_word)
  have "take 32 ?b = frame_header kFrameMagic kProtocolVersion (fr_kind f) (fr_sequence f) (fr_epoch_pin f) ?n"
    by (simp add: EncodeFrame_header)
  from DecodeFrame_header [OF this] show ?thesis
    using assms by (simp add: n length_EncodeFrame EncodeFrame_header body_header)
qed

lemma DecodeFrame_iff:
  "DecodeFrame bs = Inr (f, sz) \<longleftrightarrow>
     length (fr_payload f) \<le> kMaxFrameBytes \<and> sz = length (EncodeFrame f) \<and> (\<exists>rest. bs = EncodeFrame f @ rest)"
proof
  assume h: "DecodeFrame bs = Inr (f, sz)"
  then obtain t where "FrameSize bs = Inr t" by (auto simp: DecodeFrame_def split: sum.splits)
  then obtain v k s e n where hd: "take 32 bs = frame_header kFrameMagic v k s e n"
      "unat n \<le> kMaxFrameBytes" "64 + unat n \<le> length bs"
    by (auto simp: FrameSize_iff)
  let ?p = "take (unat n) (drop 32 bs)"
  from h DecodeFrame_header [OF hd] have dec: "text_of (Sha256_Of (take (32 + unat n) bs)) = take 32 (drop (32 + unat n) bs)"
      "v = kProtocolVersion" "f = \<lparr>fr_kind = k, fr_sequence = s, fr_epoch_pin = e, fr_payload = ?p\<rparr>" "sz = 64 + unat n"
    by (auto split: if_splits)
  have len: "length ?p = unat n" using hd(3) by simp
  have front: "take (32 + unat n) bs = EncodeFrameBody k s e ?p"
    using hd(1) dec(2) len by (simp add: take_add body_header)
  have "bs = take (32 + unat n) bs @ take 32 (drop (32 + unat n) bs) @ drop (64 + unat n) bs"
    by (simp flip: append_assoc take_add add: add.commute)
  also have "\<dots> = EncodeFrame f @ drop (64 + unat n) bs"
    using dec(1) unfolding front dec(3) EncodeFrame_def by (simp add: Let_def)
  finally show "length (fr_payload f) \<le> kMaxFrameBytes \<and> sz = length (EncodeFrame f) \<and> (\<exists>rest. bs = EncodeFrame f @ rest)"
    using dec len hd(2) by (auto simp: length_EncodeFrame)
qed (auto simp: DecodeFrame_EncodeFrame)

lemma DecodeFrame_prefix:
  assumes "length (fr_payload f) \<le> kMaxFrameBytes" "k < length (EncodeFrame f)"
  shows "\<exists>e. DecodeFrame (take k (EncodeFrame f)) = Inl e \<and> code e = NotFound"
proof (cases "k < 32")
  case True
  then have "FrameSize (take k (EncodeFrame f)) = Inl (Failure NotFound ''frame header is incomplete'')"
    by (simp add: FrameSize_def kFrameHeaderBytes_def min_less_iff_disj)
  then show ?thesis by (simp add: DecodeFrame_def)
next
  case False
  let ?n = "of_nat (length (fr_payload f)) :: u32"
  have n: "unat ?n = length (fr_payload f)" using assms(1) by (rule payload_word)
  have hdr: "take 32 (take k (EncodeFrame f)) =
      frame_header kFrameMagic kProtocolVersion (fr_kind f) (fr_sequence f) (fr_epoch_pin f) ?n"
    using False by (simp add: EncodeFrame_header)
  have "FrameSize (take k (EncodeFrame f)) = Inl (Failure NotFound ''frame body is incomplete'')"
    using False assms hdr n length_EncodeFrame [of f]
    by (simp add: FrameSize_def kFrameHeaderBytes_def frame_header_def Reader_bind_def wire_u32.get_put
          wire_u64.get_put wire_put_end Reader_return_def)
  then show ?thesis by (simp add: DecodeFrame_def)
qed

text \<open>
  C21: the frame codec is exact.  A byte string starts with a decodable frame \<open>f\<close> of \<open>sz\<close> bytes if
  and only if it starts with the encoding of \<open>f\<close>, \<open>sz\<close> is the length of that encoding, and the
  payload is within the bound: decoding inverts encoding whatever follows in the stream buffer, and
  no other spelling (another checksum, revision, magic or length) is accepted.
\<close>

theorem Frame_codec_exact:
  "DecodeFrame bs = Inr (f, sz) \<longleftrightarrow>
     length (fr_payload f) \<le> kMaxFrameBytes \<and> sz = length (EncodeFrame f) \<and> (\<exists>rest. bs = EncodeFrame f @ rest)"
  by (rule DecodeFrame_iff)

text \<open>
  A stream buffer that holds only a proper prefix of a frame is reported as not found, the status
  a reader waits on, and never as malformed or corrupt.
\<close>

lemma Frame_prefix_incomplete:
  assumes "length (fr_payload f) \<le> kMaxFrameBytes" "k < length (EncodeFrame f)"
  shows "\<exists>e. DecodeFrame (take k (EncodeFrame f)) = Inl e \<and> code e = NotFound"
  using assms by (rule DecodeFrame_prefix)

text \<open>
  C38: every message codec is exact: a decoder returns a message if and only if the payload is the
  encoding of it (and the message respects the bounds of its fields), so encode and decode are inverse
  on all messages and trailing, truncated or alternative bytes are refused.
\<close>

theorem Message_codecs_exact:
  "(DecodeHello p = Inr hello \<longleftrightarrow> short_text (hm_client_name hello) \<and> p = EncodeHello hello) \<and>
   (DecodeHelloAck p = Inr helloack \<longleftrightarrow> HelloAck_fits helloack \<and> p = EncodeHelloAck helloack) \<and>
   (DecodeIngest p = Inr ingest \<longleftrightarrow>
      length (im_snapshot_digest ingest) = 32 \<and> short_text (im_snapshot_text ingest) \<and> p = EncodeIngest ingest) \<and>
   (DecodeIngestAck p = Inr ingestack \<longleftrightarrow> IsValidIdText (ia_snapshot_id ingestack) \<and>
      length (ia_snapshot_digest ingestack) = 32 \<and> p = EncodeIngestAck ingestack) \<and>
   (DecodePlan p = Inr plan \<longleftrightarrow> short_text (pm_request_text plan) \<and> p = EncodePlan plan) \<and>
   (DecodePlanAck p = Inr planack \<longleftrightarrow> short_text (pa_result_text planack) \<and> p = EncodePlanAck planack) \<and>
   (DecodeValidate p = Inr vmsg \<longleftrightarrow> short_text (vm_plan_text vmsg) \<and> p = EncodeValidate vmsg) \<and>
   (DecodeValidateAck p = Inr vack \<longleftrightarrow> short_text (va_report_text vack) \<and> p = EncodeValidateAck vack) \<and>
   (DecodeGetPlan p = Inr getplan \<longleftrightarrow> length (gp_digest getplan) = 32 \<and> p = EncodeGetPlan getplan) \<and>
   (DecodeGetPlanAck p = Inr gotplan \<longleftrightarrow>
      length (ga_digest gotplan) = 32 \<and> short_text (ga_plan_text gotplan) \<and> p = EncodeGetPlanAck gotplan) \<and>
   (DecodeStoreListAck p = Inr listing \<longleftrightarrow> StoreListAck_fits listing \<and> p = EncodeStoreListAck listing) \<and>
   (DecodeCancel p = Inr cancel \<longleftrightarrow> p = EncodeCancel cancel) \<and>
   (DecodeCancelAck p = Inr cancelack \<longleftrightarrow> p = EncodeCancelAck cancelack) \<and>
   (DecodeStatsAck p = Inr stats \<longleftrightarrow> length (st_incarnation stats) = 16 \<and> p = EncodeStatsAck stats) \<and>
   (DecodeFailure p = Inr fail \<longleftrightarrow> short_text (fm_detail fail) \<and> p = EncodeFailure fail)"
  by (intro conjI DecodeHello_iff DecodeHelloAck_iff DecodeIngest_iff DecodeIngestAck_iff DecodePlan_iff
      DecodePlanAck_iff DecodeValidate_iff DecodeValidateAck_iff DecodeGetPlan_iff DecodeGetPlanAck_iff
      DecodeStoreListAck_iff DecodeCancel_iff DecodeCancelAck_iff DecodeStatsAck_iff DecodeFailure_iff)

end
