(* ===== verification/Transport.thy ===== *)
theory Transport
  imports Proto_Props
begin

text \<open>
  Frames over a socket (\<open>ReadAll\<close>, \<open>ReadFrame\<close> and \<open>SendFrame\<close> of \<open>src/service.cpp\<close>).  What a socket
  will deliver is a list of arrivals: bytes that can be received in parts, receive timeouts with the value
  of the stop flag at that moment, and errors; an exhausted list is a closed connection.
\<close>

datatype arrival = Bytes string | TimedOut bool | Broken

text \<open>One call of \<open>recv\<close> asks for at most a megabyte.\<close>

definition receive_chunk :: "nat \<Rightarrow> nat" where
  "receive_chunk n = min n 1048576"

lemma receive_chunk_bounds [simp]:
  "receive_chunk n \<le> n" "receive_chunk n = 0 \<longleftrightarrow> n = 0" "Suc n - receive_chunk (Suc n) < Suc n"
  by (auto simp: receive_chunk_def)

section \<open>Receiving\<close>

function ReadAll :: "nat \<Rightarrow> arrival list \<Rightarrow> string option \<times> arrival list" where
  "ReadAll 0 es = (Some [], es)"
| "ReadAll (Suc n) [] = (None, [])"
| "ReadAll (Suc n) (Broken # es) = (None, es)"
| "ReadAll (Suc n) (TimedOut stopping # es) = (if stopping then (None, es) else ReadAll (Suc n) es)"
| "ReadAll (Suc n) (Bytes bs # es) =
     (let chunk = receive_chunk (Suc n); received = take chunk bs; rest = drop chunk bs
      in if received = [] then (None, es)
         else case ReadAll (Suc n - length received) (if rest = [] then es else Bytes rest # es) of
                (None, left) \<Rightarrow> (None, left)
              | (Some later, left) \<Rightarrow> (Some (received @ later), left))"
  by pat_completeness auto

text \<open>Every iteration takes bytes or an event, so the loop ends.\<close>

termination by (relation "measures [\<lambda>(n, es). n, \<lambda>(n, es). length es]") auto

definition frame_head :: "string \<Rightarrow> nat \<Rightarrow> u32 expected" where
  "frame_head header max_frame_bytes =
     (case Reader_bind Reader_U32 (\<lambda>magic.
             if magic \<noteq> kFrameMagic then Reader_fail (Failure MalformedInput ''frame magic is not recognised'')
             else Reader_bind Reader_U32 (\<lambda>version.
                  if version \<noteq> kProtocolVersion
                  then Reader_fail (Failure Unsupported ''transport revision is not supported by this runtime'')
                  else Reader_bind Reader_U32 (\<lambda>kind. Reader_bind Reader_U64 (\<lambda>sequence. Reader_bind Reader_U64 (\<lambda>epoch.
                       Reader_bind Reader_U32 (\<lambda>len.
                       if unat len > max_frame_bytes
                       then Reader_fail (Failure LimitExceeded ''frame payload exceeds the permitted maximum size'')
                       else Reader_return len)))))) header of
        Inl e \<Rightarrow> Inl e
      | Inr (len, _) \<Rightarrow> Inr len)"

definition ReadFrame :: "nat \<Rightarrow> arrival list \<Rightarrow> Frame expected \<times> arrival list" where
  "ReadFrame max_frame_bytes es =
     (case ReadAll kFrameHeaderBytes es of
        (None, es1) \<Rightarrow> (Inl (Failure IoFailure ''connection closed while reading a frame header''), es1)
      | (Some header, es1) \<Rightarrow>
          (case frame_head header max_frame_bytes of
             Inl e \<Rightarrow> (Inl e, es1)
           | Inr len \<Rightarrow>
               (case ReadAll (unat len + 32) es1 of
                  (None, es2) \<Rightarrow> (Inl (Failure IoFailure ''connection closed while reading a frame body''), es2)
                | (Some payload, es2) \<Rightarrow>
                    (case DecodeFrame (header @ payload) of
                       Inl e \<Rightarrow> (Inl e, es2)
                     | Inr (frame, consumed) \<Rightarrow> (Inr frame, es2)))))"

section \<open>Segmentation\<close>

text \<open>The bytes a list of arrivals brings, when none of them ends the loop.\<close>

fun flowing :: "arrival list \<Rightarrow> bool" where
  "flowing [] = True"
| "flowing (Bytes bs # es) = (bs \<noteq> [] \<and> flowing es)"
| "flowing (TimedOut stopping # es) = (\<not> stopping \<and> flowing es)"
| "flowing (Broken # es) = False"

fun stream_bytes :: "arrival list \<Rightarrow> string" where
  "stream_bytes [] = []"
| "stream_bytes (Bytes bs # es) = bs @ stream_bytes es"
| "stream_bytes (e # es) = stream_bytes es"

lemma ReadAll_flowing:
  assumes "flowing es" "n \<le> length (stream_bytes es)"
  shows "\<exists>left. ReadAll n es = (Some (take n (stream_bytes es)), left) \<and> flowing left \<and>
    stream_bytes left = drop n (stream_bytes es)"
  using assms
proof (induction n es rule: ReadAll.induct)
  case (5 n bs es)
  define c where "c = receive_chunk (Suc n)"
  let ?received = "take c bs" and ?rest = "drop c bs"
  let ?es = "if ?rest = [] then es else Bytes ?rest # es"
  have some: "?received \<noteq> []" using 5 by (simp add: c_def)
  have short: "length ?received \<le> Suc n" by (simp add: c_def min.coboundedI2)
  have bytes: "stream_bytes (Bytes bs # es) = ?received @ stream_bytes ?es" by (simp flip: append_assoc)
  have "flowing ?es" "Suc n - length ?received \<le> length (stream_bytes ?es)"
    using 5(2,3) by auto
  with 5(1) [OF c_def refl refl] some obtain left where left: "ReadAll (Suc n - length ?received) ?es =
      (Some (take (Suc n - length ?received) (stream_bytes ?es)), left)" "flowing left"
      "stream_bytes left = drop (Suc n - length ?received) (stream_bytes ?es)"
    by blast
  have "ReadAll (Suc n) (Bytes bs # es) = (Some (?received @ take (Suc n - length ?received) (stream_bytes ?es)), left)"
    using some left(1) by (simp add: Let_def flip: c_def)
  moreover have "?received @ take (Suc n - length ?received) (stream_bytes ?es) = take (Suc n) (stream_bytes (Bytes bs # es))"
    unfolding bytes take_append using short by (simp only: take_all)
  moreover have "drop (Suc n) (stream_bytes (Bytes bs # es)) = drop (Suc n - length ?received) (stream_bytes ?es)"
    unfolding bytes using short by simp
  ultimately show ?case using left(2,3) by metis
qed auto

lemma frame_head_header:
  "frame_head (frame_header kFrameMagic kProtocolVersion k s e n) limit =
     (if unat n > limit then Inl (Failure LimitExceeded ''frame payload exceeds the permitted maximum size'') else Inr n)"
  by (simp add: frame_head_def frame_header_def Reader_bind_def wire_u32.get_put wire_u64.get_put wire_put_end
      Reader_return_def Reader_fail_def)

lemma ReadFrame_flowing:
  assumes "flowing es" "stream_bytes es = EncodeFrame f @ rest" "length (fr_payload f) \<le> limit" "limit \<le> kMaxFrameBytes"
  shows "\<exists>left. ReadFrame limit es = (Inr f, left) \<and> flowing left \<and> stream_bytes left = rest"
proof -
  let ?n = "of_nat (length (fr_payload f)) :: u32"
  have fits: "length (fr_payload f) \<le> kMaxFrameBytes" using assms by simp
  have n: "unat ?n = length (fr_payload f)" using fits by (rule payload_word)
  have len: "length (EncodeFrame f) = 64 + length (fr_payload f)" by (rule length_EncodeFrame)
  have head: "take 32 (stream_bytes es) = frame_header kFrameMagic kProtocolVersion (fr_kind f) (fr_sequence f) (fr_epoch_pin f) ?n"
    using assms(2) by (simp add: EncodeFrame_header)
  obtain es1 where one: "ReadAll kFrameHeaderBytes es = (Some (take 32 (stream_bytes es)), es1)" "flowing es1"
      "stream_bytes es1 = drop 32 (stream_bytes es)"
    using ReadAll_flowing [OF assms(1), of kFrameHeaderBytes] assms(2) len by (auto simp: kFrameHeaderBytes_def)
  obtain es2 where two: "ReadAll (unat ?n + 32) es1 = (Some (take (unat ?n + 32) (stream_bytes es1)), es2)" "flowing es2"
      "stream_bytes es2 = drop (unat ?n + 32) (stream_bytes es1)"
    using ReadAll_flowing [OF one(2), of "unat ?n + 32"] one(3) assms(2) len n by auto
  have "take 32 (stream_bytes es) @ take (unat ?n + 32) (stream_bytes es1) = take (32 + (unat ?n + 32)) (stream_bytes es)"
    unfolding one(3) by (rule take_add [symmetric])
  also have "\<dots> = EncodeFrame f" using assms(2) len n by simp
  finally have whole: "take 32 (stream_bytes es) @ take (unat ?n + 32) (stream_bytes es1) = EncodeFrame f" .
  have "ReadFrame limit es = (Inr f, es2)"
    using one(1) two(1) whole assms(3) n DecodeFrame_EncodeFrame [OF fits, of "[]"]
    by (simp add: ReadFrame_def head frame_head_header)
  moreover have "stream_bytes es2 = rest"
    using two(3) one(3) assms(2) len n by simp
  ultimately show ?thesis using two(2) by blast
qed

section \<open>Progress\<close>

fun arrivals_size :: "arrival list \<Rightarrow> nat" where
  "arrivals_size [] = 0"
| "arrivals_size (Bytes bs # es) = Suc (length bs) + arrivals_size es"
| "arrivals_size (e # es) = Suc (arrivals_size es)"

lemma ReadAll_received:
  "snd (ReadAll (Suc n) (Bytes bs # es)) =
     (let c = receive_chunk (Suc n)
      in if take c bs = [] then es
         else snd (ReadAll (Suc n - length (take c bs)) (if drop c bs = [] then es else Bytes (drop c bs) # es)))"
  unfolding ReadAll.simps Let_def
  by (cases "ReadAll (Suc n - length (take (receive_chunk (Suc n)) bs))
        (if drop (receive_chunk (Suc n)) bs = [] then es else Bytes (drop (receive_chunk (Suc n)) bs) # es)")
    (auto split: option.splits)

lemma rest_size:
  "arrivals_size (if drop c bs = [] then es else Bytes (drop c bs) # es) \<le> arrivals_size (Bytes bs # es)"
  "take c bs \<noteq> [] \<Longrightarrow> arrivals_size (if drop c bs = [] then es else Bytes (drop c bs) # es) < arrivals_size (Bytes bs # es)"
  by (auto simp: diff_less)

lemma ReadAll_size: "arrivals_size (snd (ReadAll n es)) \<le> arrivals_size es"
proof (induction n es rule: ReadAll.induct)
  case (5 n bs es)
  then show ?case
    unfolding ReadAll_received Let_def using rest_size(1) by (fastforce intro: le_trans)
qed auto

lemma ReadAll_progress: "es \<noteq> [] \<Longrightarrow> arrivals_size (snd (ReadAll (Suc n) es)) < arrivals_size es"
proof (cases "(Suc n, es)" rule: ReadAll.cases)
  case (5 m bs rest)
  let ?c = "receive_chunk (Suc n)"
  let ?rest = "if drop ?c bs = [] then rest else Bytes (drop ?c bs) # rest"
  have es: "es = Bytes bs # rest" using 5 by simp
  show ?thesis
  proof (cases "take ?c bs = []")
    case False
    then have "snd (ReadAll (Suc n) es) = snd (ReadAll (Suc n - length (take ?c bs)) ?rest)"
      unfolding es ReadAll_received Let_def by (simp only: if_False)
    then show ?thesis using rest_size(2) [OF False, of rest] ReadAll_size es by (metis le_less_trans)
  qed (simp add: es)
next
  case (4 m b rest)
  then show ?thesis using ReadAll_size [of "Suc m" rest] by auto
qed auto

lemma ReadFrame_progress: "ReadFrame limit es = (Inr f, left) \<Longrightarrow> arrivals_size left < arrivals_size es"
proof -
  assume read: "ReadFrame limit es = (Inr f, left)"
  then obtain header es1 m payload where parts: "ReadAll kFrameHeaderBytes es = (Some header, es1)"
      "ReadAll m es1 = (Some payload, left)"
    by (fastforce simp: ReadFrame_def split: prod.splits option.splits sum.splits)
  have "es \<noteq> []" using parts(1) by (auto simp: kFrameHeaderBytes_def numeral_eq_Suc)
  then have "arrivals_size es1 < arrivals_size es"
    using parts(1) ReadAll_progress [of es "kFrameHeaderBytes - 1"] by (simp add: kFrameHeaderBytes_def)
  then show ?thesis using ReadAll_size [of m es1] parts(2) by simp
qed

end
