(* ===== verification/Tokens.thy ===== *)
theory Tokens
  imports Canonical Doubles
begin

text \<open>
  The text primitives of \<open>src/canonical.cpp\<close>: percent-escaped tokens, decimal numbers, the line
  assembler and the token splitter that every text format of the program is built on.

  The decimal spelling of a double is \<open>std::to_chars\<close> and \<open>std::from_chars\<close>; the two functions are
  the fields of \<open>double_chars\<close>, and \<open>exact_double\<close> says of one value what the standard promises of all
  of them, that the shortest spelling is read back exactly.
\<close>

section \<open>Chaining fallible calls\<close>

text \<open>\<open>auto x = f(); if (!x.ok()) return x.status();\<close> followed by the rest of the function.\<close>

definition and_then :: "'a expected \<Rightarrow> ('a \<Rightarrow> 'b expected) \<Rightarrow> 'b expected" where
  "and_then x f = (case x of Inl e \<Rightarrow> Inl e | Inr v \<Rightarrow> f v)"

lemma and_then_simps [simp]: "and_then (Inl e) f = Inl e" "and_then (Inr v) f = f v"
  by (simp_all add: and_then_def)

lemma and_then_Inr: "and_then x f = Inr y \<longleftrightarrow> (\<exists>v. x = Inr v \<and> f v = Inr y)"
  by (cases x) simp_all

section \<open>Tokens\<close>

definition kMaxTokenBytes :: nat where "kMaxTokenBytes = 1024"

definition IsRawTokenCharacter :: "char \<Rightarrow> bool" where
  "IsRawTokenCharacter c = (is_alnum c \<or> c \<in> set ''_.:@/+*=-'')"

definition IsSafeToken :: "string \<Rightarrow> bool" where
  "IsSafeToken text =
     (\<not> (text = [] \<or> length text > kMaxTokenBytes) \<and> list_all (\<lambda>c. IsRawTokenCharacter c \<or> c = CHR ''%'') text)"

definition needs_escaping :: "string \<Rightarrow> bool" where
  "needs_escaping raw = (raw = [] \<or> length raw > kMaxTokenBytes \<or> \<not> list_all IsRawTokenCharacter raw)"

definition kHexUpper :: string where
  "kHexUpper = ''0123456789ABCDEF''"

definition escape_char :: "char \<Rightarrow> string" where
  "escape_char c =
     (if IsRawTokenCharacter c then [c]
      else let byte = of_char c :: nat in [CHR ''%'', kHexUpper ! (byte div 16), kHexUpper ! (byte mod 16)])"

definition EncodeToken :: "string \<Rightarrow> string" where
  "EncodeToken raw =
     (if \<not> needs_escaping raw then raw
      else let out = concat (map escape_char raw) in if out = [] then ''%'' else out)"

definition IsHexDigit :: "char \<Rightarrow> bool" where
  "IsHexDigit c = (in_range (CHR ''0'') (CHR ''9'') c \<or> in_range (CHR ''a'') (CHR ''f'') c \<or>
                   in_range (CHR ''A'') (CHR ''F'') c)"

text \<open>The character loop of \<open>DecodeToken\<close>; an escape takes three characters.\<close>

fun decode_chars :: "string \<Rightarrow> string option" where
  "decode_chars [] = Some []"
| "decode_chars (c # cs) =
     (if c \<noteq> CHR ''%'' then map_option (Cons c) (decode_chars cs)
      else case cs of
             h # l # rest \<Rightarrow>
               if \<not> IsHexDigit h \<or> \<not> IsHexDigit l then None
               else map_option (Cons (char_of (nat (HexValue h) * 16 + nat (HexValue l)))) (decode_chars rest)
           | _ \<Rightarrow> None)"

definition DecodeToken :: "string \<Rightarrow> string expected" where
  "DecodeToken token =
     (if token = [] then Inl (Failure MalformedInput ''empty token'')
      else if length token > kMaxTokenBytes * 3
      then Inl (Failure MalformedInput ''token exceeds the maximum encoded length'')
      else if token = ''%'' then Inr []
      else case decode_chars token of
             None \<Rightarrow> Inl (Failure MalformedInput ''truncated percent escape in token'')
           | Some out \<Rightarrow> Inr out)"

section \<open>Numbers\<close>

record double_chars =
  dc_to_chars :: "double \<Rightarrow> string"
  dc_from_chars :: "string \<Rightarrow> double option"

definition FormatDouble :: "double_chars \<Rightarrow> double \<Rightarrow> string expected" where
  "FormatDouble dc v =
     (if \<not> isfinite v then Inl (Failure InvalidArgument ''non-finite double cannot be encoded canonically'')
      else let text = dc_to_chars dc v in Inr (if text = ''-0'' then ''0'' else text))"

definition is_digit :: "char \<Rightarrow> bool" where
  "is_digit c = in_range (CHR ''0'') (CHR ''9'') c"

definition ParseDouble :: "double_chars \<Rightarrow> string \<Rightarrow> double expected" where
  "ParseDouble dc text =
     (if text = [] then Inl (Failure MalformedInput ''double must not be empty'')
      else if \<not> list_all (\<lambda>c. is_digit c \<or> c \<in> set ''.-+eE'') text
      then Inl (Failure MalformedInput ''double contains characters outside the numeric grammar'')
      else case dc_from_chars dc text of
             None \<Rightarrow> Inl (Failure MalformedInput ''double could not be parsed exactly'')
           | Some v \<Rightarrow> if \<not> isfinite v then Inl (Failure MalformedInput ''non-finite double is not valid evidence'')
                       else Inr v)"

definition NormaliseDecodeStatus :: "Status \<Rightarrow> Status" where
  "NormaliseDecodeStatus s =
     (if code s \<in> {Ok, Unsupported, LimitExceeded, IntegrityFailure} then s
      else Failure MalformedInput (StatusCodeName (code s) @ '': '' @ detail s))"

definition FormatU64 :: "nat \<Rightarrow> string" where
  "FormatU64 n = to_string n"

text \<open>\<open>std::from_chars\<close> on a run of digits: the value, or out of range beyond 64 bits.\<close>

definition digits_value :: "string \<Rightarrow> nat" where
  "digits_value text = fold (\<lambda>c v. v * 10 + (of_char c - 48)) text 0"

definition ParseUnsigned :: "string \<Rightarrow> nat \<Rightarrow> string \<Rightarrow> nat expected" where
  "ParseUnsigned text maximum what =
     (if text = [] then Inl (Failure MalformedInput (what @ '' must not be empty''))
      else if \<not> list_all is_digit text
      then Inl (Failure MalformedInput (what @ '' must be an unsigned decimal integer''))
      else let v = digits_value text
           in if v \<ge> 2 ^ 64 then Inl (Failure MalformedInput (what @ '' is out of range''))
              else if v > maximum then Inl (Failure MalformedInput (what @ '' is out of range''))
              else Inr v)"

definition ParseU64 :: "string \<Rightarrow> nat expected" where
  "ParseU64 text = ParseUnsigned text (2 ^ 64 - 1) ''u64''"

definition ParseU32 :: "string \<Rightarrow> nat expected" where
  "ParseU32 text = ParseUnsigned text (2 ^ 32 - 1) ''u32''"

definition ParseU16 :: "string \<Rightarrow> nat expected" where
  "ParseU16 text = ParseUnsigned text (2 ^ 16 - 1) ''u16''"

definition ParseBoolToken :: "string \<Rightarrow> bool expected" where
  "ParseBoolToken text =
     (if text = ''true'' \<or> text = ''1'' then Inr True
      else if text = ''false'' \<or> text = ''0'' then Inr False
      else Inl (Failure MalformedInput ''boolean token must be true, false, 1 or 0''))"

section \<open>Lines\<close>

text \<open>\<open>LineAssembler\<close>: the line so far; every method separates what it adds with a blank.\<close>

definition line_append :: "string \<Rightarrow> string \<Rightarrow> string" where
  "line_append text line = (if line = [] then line else line @ '' '') @ text"

definition Line_Add :: "string \<Rightarrow> string \<Rightarrow> string" where
  "Line_Add token = line_append (EncodeToken token)"

definition Line_AddU64 :: "nat \<Rightarrow> string \<Rightarrow> string" where
  "Line_AddU64 v = line_append (FormatU64 v)"

definition double_text :: "double_chars \<Rightarrow> double \<Rightarrow> string" where
  "double_text dc v = (case FormatDouble dc v of Inl _ \<Rightarrow> ''nan'' | Inr text \<Rightarrow> text)"

definition Line_AddDouble :: "double_chars \<Rightarrow> double \<Rightarrow> string \<Rightarrow> string" where
  "Line_AddDouble dc v = line_append (double_text dc v)"

definition keyed :: "string \<Rightarrow> string \<Rightarrow> string" where
  "keyed key text = key @ ''='' @ text"

definition Line_AddKeyU64 :: "string \<Rightarrow> nat \<Rightarrow> string \<Rightarrow> string" where
  "Line_AddKeyU64 key v = line_append (keyed key (FormatU64 v))"

definition Line_AddKeyDouble :: "double_chars \<Rightarrow> string \<Rightarrow> double \<Rightarrow> string \<Rightarrow> string" where
  "Line_AddKeyDouble dc key v = line_append (keyed key (double_text dc v))"

definition Line_AddKeyToken :: "string \<Rightarrow> string \<Rightarrow> string \<Rightarrow> string" where
  "Line_AddKeyToken key v = line_append (keyed key (EncodeToken v))"

definition Line_AddKeyRaw :: "string \<Rightarrow> string \<Rightarrow> string \<Rightarrow> string" where
  "Line_AddKeyRaw key v = line_append (keyed key v)"

definition is_blank :: "char \<Rightarrow> bool" where
  "is_blank c = (c = CHR '' '' \<or> c = CHR 0x09)"

text \<open>The scan of \<open>SplitTokens\<close>: skip blanks, take a token, repeat.\<close>

function split_blanks :: "string \<Rightarrow> string list" where
  "split_blanks line =
     (let rest = dropWhile is_blank line
      in if rest = [] then []
         else takeWhile (\<lambda>c. \<not> is_blank c) rest # split_blanks (dropWhile (\<lambda>c. \<not> is_blank c) rest))"
  by auto
termination
proof (relation "measure length")
  fix line rest :: string
  assume rest: "rest = dropWhile is_blank line" "rest \<noteq> []"
  then have "\<not> is_blank (hd rest)" by (metis hd_dropWhile)
  then have "length (dropWhile (\<lambda>c. \<not> is_blank c) rest) < length rest"
    using rest(2) by (cases rest) (auto simp: le_imp_less_Suc length_dropWhile_le)
  also have "length rest \<le> length line" using rest(1) by (simp add: length_dropWhile_le)
  finally show "(dropWhile (\<lambda>c. \<not> is_blank c) rest, line) \<in> measure length" by simp
qed simp

declare split_blanks.simps [simp del]

text \<open>
  The token bound is checked as each token is cut; a failure anywhere fails the whole line, so the
  check is made on the finished list here.
\<close>

definition SplitTokens :: "string \<Rightarrow> string list expected" where
  "SplitTokens line =
     (if line = [] then Inl (Failure MalformedInput ''empty line'')
      else if length line > kMaxTextLineBytes
      then Inl (Failure LimitExceeded ''line exceeds the maximum text line length'')
      else let tokens = split_blanks line
           in if \<exists>t \<in> set tokens. length t > kMaxTokenBytes
              then Inl (Failure LimitExceeded ''token exceeds the maximum token length'')
              else if tokens = [] then Inl (Failure MalformedInput ''line contains no tokens'')
              else Inr tokens)"

definition field_matches :: "string \<Rightarrow> string \<Rightarrow> bool" where
  "field_matches key token =
     (length token > length key \<and> take (length key) token = key \<and> token ! length key = CHR ''='')"

text \<open>The search of \<open>FindKeyedField\<close> through the tokens from \<open>first_index\<close> on.\<close>

fun find_keyed :: "string \<Rightarrow> string option \<Rightarrow> string list \<Rightarrow> string expected" where
  "find_keyed key found [] =
     (case found of None \<Rightarrow> Inl (Failure NotFound (''missing field '' @ [CHR 0x27] @ key @ [CHR 0x27]))
                  | Some v \<Rightarrow> Inr v)"
| "find_keyed key found (t # ts) =
     (if \<not> field_matches key t then find_keyed key found ts
      else if found \<noteq> None then Inl (Failure MalformedInput (''duplicate field '' @ [CHR 0x27] @ key @ [CHR 0x27]))
      else find_keyed key (Some (drop (length key + 1) t)) ts)"

definition FindKeyedField :: "string list \<Rightarrow> nat \<Rightarrow> string \<Rightarrow> string expected" where
  "FindKeyedField tokens first_index key = find_keyed key None (drop first_index tokens)"

text \<open>The line loop the parsers share: lines end at a newline, the last one may be unterminated.\<close>

function split_lines :: "string \<Rightarrow> string list" where
  "split_lines text =
     (if text = [] then []
      else takeWhile (\<lambda>c. c \<noteq> CHR 0x0A) text # split_lines (drop 1 (dropWhile (\<lambda>c. c \<noteq> CHR 0x0A) text)))"
  by auto
termination
proof (relation "measure length")
  fix t :: string
  assume "t \<noteq> []"
  then have "length (drop 1 (dropWhile (\<lambda>c. c \<noteq> CHR 0x0A) t)) < length t"
    using length_dropWhile_le [of "\<lambda>c. c \<noteq> CHR 0x0A" t] by (cases t) (auto simp: less_Suc_eq_le)
  then show "(drop 1 (dropWhile (\<lambda>c. c \<noteq> CHR 0x0A) t), t) \<in> measure length" by simp
qed simp

declare split_lines.simps [simp del]

definition strip_cr :: "string \<Rightarrow> string" where
  "strip_cr line = (if line \<noteq> [] \<and> last line = CHR 0x0D then butlast line else line)"

section \<open>Escapes\<close>

lemma HexValue_kHexUpper: "n < 16 \<Longrightarrow> HexValue (kHexUpper ! n) = int n"
proof -
  have "\<forall>m \<in> {0..<16::nat}. HexValue (kHexUpper ! m) = int m" by code_simp
  then show "n < 16 \<Longrightarrow> HexValue (kHexUpper ! n) = int n" by simp
qed

lemma IsHexDigit_kHexUpper: "n < 16 \<Longrightarrow> IsHexDigit (kHexUpper ! n)"
proof -
  have "\<forall>m \<in> {0..<16::nat}. IsHexDigit (kHexUpper ! m)" by code_simp
  then show "n < 16 \<Longrightarrow> IsHexDigit (kHexUpper ! n)" by simp
qed

lemma percent_not_raw: "\<not> IsRawTokenCharacter (CHR ''%'')"
  by code_simp

lemma char_high_nibble: "(of_char c :: nat) div 16 < 16"
  using nat_of_char_less_256 [of c] by linarith

lemma decode_escape_char: "decode_chars (escape_char c @ rest) = map_option (Cons c) (decode_chars rest)"
proof (cases "IsRawTokenCharacter c")
  case True
  then have "c \<noteq> CHR ''%''" using percent_not_raw by auto
  with True show ?thesis by (simp add: escape_char_def)
next
  case False
  have "(of_char c :: nat) div 16 < 16" by (rule char_high_nibble)
  with False show ?thesis
    by (simp add: escape_char_def Let_def HexValue_kHexUpper IsHexDigit_kHexUpper)
qed

lemma decode_escaped: "decode_chars (concat (map escape_char s)) = Some s"
  by (induction s) (simp_all add: decode_escape_char)

lemma length_escape_char: "1 \<le> length (escape_char c) \<and> length (escape_char c) \<le> 3"
  by (simp add: escape_char_def Let_def)

lemma escape_char_nonempty [simp]: "escape_char c \<noteq> []"
  using length_escape_char [of c] by auto

lemma length_escaped: "length s \<le> length (concat (map escape_char s)) \<and> length (concat (map escape_char s)) \<le> 3 * length s"
proof (induction s)
  case (Cons c s)
  then show ?case using length_escape_char [of c] by simp
qed simp

lemma raw_escape: "list_all IsRawTokenCharacter s \<Longrightarrow> concat (map escape_char s) = s"
  by (induction s) (simp_all add: escape_char_def)

lemma escaped_not_percent: "concat (map escape_char s) \<noteq> ''%''"
proof
  assume "concat (map escape_char s) = ''%''"
  then have "decode_chars ''%'' = Some s" using decode_escaped [of s] by simp
  then show False by simp
qed

lemma EncodeToken_eq: "EncodeToken s = (if s = [] then ''%'' else concat (map escape_char s))"
  using length_escaped [of s] raw_escape [of s] by (auto simp: EncodeToken_def needs_escaping_def Let_def)

lemma DecodeToken_EncodeToken:
  assumes "length s \<le> kMaxTokenBytes"
  shows "DecodeToken (EncodeToken s) = Inr s"
proof (cases "s = []")
  case False
  then have "concat (map escape_char s) \<noteq> []" using length_escaped [of s] by auto
  with False assms show ?thesis
    using length_escaped [of s] escaped_not_percent [of s]
    by (simp add: EncodeToken_eq DecodeToken_def decode_escaped)
qed (simp add: EncodeToken_eq DecodeToken_def kMaxTokenBytes_def)

lemma escape_char_chars: "c' \<in> set (escape_char c) \<Longrightarrow> IsRawTokenCharacter c' \<or> c' = CHR ''%''"
proof -
  have upper: "\<forall>m \<in> {0..<16::nat}. IsRawTokenCharacter (kHexUpper ! m)" by code_simp
  have "(of_char c :: nat) div 16 < 16" by (rule char_high_nibble)
  then show "c' \<in> set (escape_char c) \<Longrightarrow> IsRawTokenCharacter c' \<or> c' = CHR ''%''"
    using upper by (auto simp: escape_char_def Let_def split: if_splits)
qed

lemma EncodeToken_chars: "c \<in> set (EncodeToken s) \<Longrightarrow> IsRawTokenCharacter c \<or> c = CHR ''%''"
  by (auto simp: EncodeToken_eq dest: escape_char_chars split: if_splits)

lemma EncodeToken_nonempty [simp]: "EncodeToken s \<noteq> []"
  using length_escaped [of s] by (auto simp: EncodeToken_eq)

section \<open>Numbers\<close>

lemma of_char_digit: "d < 10 \<Longrightarrow> of_char (digit_char d) = (48 + d :: nat)"
  by (simp add: digit_char_def)

lemma is_digit_digit_char: "d < 10 \<Longrightarrow> is_digit (digit_char d)"
proof -
  have "\<forall>m \<in> {0..<10::nat}. is_digit (digit_char m)" by code_simp
  then show "d < 10 \<Longrightarrow> is_digit (digit_char d)" by simp
qed

lemma to_string_digits: "list_all is_digit (to_string n)"
proof (induction n rule: to_string.induct)
  case (1 n)
  then show ?case by (subst to_string.simps) (simp add: is_digit_digit_char)
qed

lemma to_string_nonempty [simp]: "to_string n \<noteq> []"
  by (subst to_string.simps) simp

lemma digits_value_to_string: "digits_value (to_string n) = n"
proof (induction n rule: to_string.induct)
  case (1 n)
  show ?case
  proof (cases "n < 10")
    case True
    then show ?thesis by (subst to_string.simps) (simp add: digits_value_def of_char_digit)
  next
    case False
    with 1 have "digits_value (to_string (n div 10)) = n div 10" by simp
    with False show ?thesis by (subst to_string.simps) (simp add: digits_value_def of_char_digit)
  qed
qed

lemma ParseUnsigned_to_string:
  "ParseUnsigned (to_string n) maximum what =
     (if n \<ge> 2 ^ 64 \<or> n > maximum then Inl (Failure MalformedInput (what @ '' is out of range'')) else Inr n)"
  by (simp add: ParseUnsigned_def to_string_digits digits_value_to_string)

lemma ParseU64_FormatU64 [simp]: "n < 2 ^ 64 \<Longrightarrow> ParseU64 (FormatU64 n) = Inr n"
  by (simp add: ParseU64_def FormatU64_def ParseUnsigned_to_string)

lemma ParseU32_FormatU64 [simp]: "n < 2 ^ 32 \<Longrightarrow> ParseU32 (FormatU64 n) = Inr n"
  by (simp add: ParseU32_def FormatU64_def ParseUnsigned_to_string)

lemma ParseU16_FormatU64 [simp]: "n < 2 ^ 16 \<Longrightarrow> ParseU16 (FormatU64 n) = Inr n"
  by (simp add: ParseU16_def FormatU64_def ParseUnsigned_to_string)

text \<open>What the spelling of one double promises; the standard promises it for every finite one.\<close>

definition exact_double :: "double_chars \<Rightarrow> double \<Rightarrow> bool" where
  "exact_double dc v \<longleftrightarrow> isfinite v \<and> dc_to_chars dc v \<noteq> [] \<and> dc_to_chars dc v \<noteq> ''-0'' \<and>
     list_all (\<lambda>c. is_digit c \<or> c \<in> set ''.-+eE'') (dc_to_chars dc v) \<and> dc_from_chars dc (dc_to_chars dc v) = Some v"

lemma ParseDouble_double_text [simp]: "exact_double dc v \<Longrightarrow> ParseDouble dc (double_text dc v) = Inr v"
  by (simp add: exact_double_def double_text_def FormatDouble_def ParseDouble_def Let_def)

section \<open>Lines and fields\<close>

fun join_tokens :: "string list \<Rightarrow> string" where
  "join_tokens [] = []"
| "join_tokens [t] = t"
| "join_tokens (t # u # ts) = t @ '' '' @ join_tokens (u # ts)"

definition plain_token :: "string \<Rightarrow> bool" where
  "plain_token t \<longleftrightarrow> t \<noteq> [] \<and> list_all (\<lambda>c. \<not> is_blank c \<and> c \<noteq> CHR 0x0A \<and> c \<noteq> CHR 0x0D) t"

lemma join_tokens_Cons: "ts \<noteq> [] \<Longrightarrow> join_tokens (t # ts) = t @ '' '' @ join_tokens ts"
  by (cases ts) simp_all

lemma join_tokens_snoc: "join_tokens (t # ts @ [u]) = join_tokens (t # ts) @ '' '' @ u"
  by (induction ts arbitrary: t) (simp_all add: join_tokens_Cons)

lemma line_append_join: "t \<noteq> [] \<Longrightarrow> line_append u (join_tokens (t # ts)) = join_tokens (t # ts @ [u])"
proof -
  assume "t \<noteq> []"
  then have "join_tokens (t # ts) \<noteq> []" by (cases ts) simp_all
  then show ?thesis using join_tokens_snoc [of t ts u] by (simp add: line_append_def)
qed

lemma split_blanks_join: "list_all plain_token ts \<Longrightarrow> split_blanks (join_tokens ts) = ts"
proof (induction ts rule: join_tokens.induct)
  case 1
  show ?case by (subst split_blanks.simps) simp
next
  case (2 t)
  then have "t \<noteq> []" "\<forall>c \<in> set t. \<not> is_blank c" by (auto simp: plain_token_def list_all_iff)
  then have "dropWhile is_blank t = t" "takeWhile (\<lambda>c. \<not> is_blank c) t = t" "dropWhile (\<lambda>c. \<not> is_blank c) t = []"
    by (auto simp: dropWhile_eq_self_iff takeWhile_eq_all_conv)
  with \<open>t \<noteq> []\<close> have "split_blanks t = t # split_blanks []" by (subst split_blanks.simps) (simp del: dropWhile_eq_Nil_conv)
  then show ?case by (simp add: split_blanks.simps [of "[]"])
next
  case (3 t u ts)
  let ?r = "'' '' @ join_tokens (u # ts)"
  from 3 have t: "t \<noteq> []" "\<forall>c \<in> set t. \<not> is_blank c" by (auto simp: plain_token_def list_all_iff)
  then have "dropWhile is_blank (t @ ?r) = t @ ?r" by (cases t) auto
  moreover have "takeWhile (\<lambda>c. \<not> is_blank c) (t @ ?r) = t" "dropWhile (\<lambda>c. \<not> is_blank c) (t @ ?r) = ?r"
    using t(2) by (simp_all add: is_blank_def)
  ultimately have "split_blanks (t @ ?r) = t # split_blanks ?r"
    using t(1) by (subst split_blanks.simps) simp
  also have "split_blanks ?r = split_blanks (join_tokens (u # ts))"
    by (subst (1 2) split_blanks.simps) (simp add: is_blank_def)
  finally show ?case using 3 by simp
qed

text \<open>A token list the splitter can read back from its line.\<close>

definition line_fits :: "string list \<Rightarrow> bool" where
  "line_fits ts \<longleftrightarrow> length (join_tokens ts) \<le> kMaxTextLineBytes \<and> list_all (\<lambda>t. length t \<le> kMaxTokenBytes) ts"

lemma join_tokens_nonempty: "ts \<noteq> [] \<Longrightarrow> list_all plain_token ts \<Longrightarrow> join_tokens ts \<noteq> []"
  by (cases ts rule: join_tokens.cases) (auto simp: plain_token_def)

lemma SplitTokens_join:
  assumes "ts \<noteq> []" "list_all plain_token ts" "line_fits ts"
  shows "SplitTokens (join_tokens ts) = Inr ts"
  using assms join_tokens_nonempty [OF assms(1,2)]
  by (auto simp: SplitTokens_def split_blanks_join line_fits_def list_all_iff)

lemma join_tokens_chars:
  "list_all plain_token ts \<Longrightarrow> c \<in> set (join_tokens ts) \<Longrightarrow> c \<noteq> CHR 0x0A \<and> c \<noteq> CHR 0x0D"
  by (induction ts rule: join_tokens.induct) (auto simp: plain_token_def list_all_iff)

lemma split_lines_terminated:
  "\<forall>l \<in> set ls. CHR 0x0A \<notin> set l \<Longrightarrow> split_lines (concat (map (\<lambda>l. l @ [CHR 0x0A]) ls)) = ls"
proof (induction ls)
  case Nil
  show ?case by (subst split_lines.simps) simp
next
  case (Cons l ls)
  then have "\<forall>c \<in> set l. c \<noteq> CHR 0x0A" by auto
  then have "takeWhile (\<lambda>c. c \<noteq> CHR 0x0A) (l @ CHR 0x0A # r) = l" "dropWhile (\<lambda>c. c \<noteq> CHR 0x0A) (l @ CHR 0x0A # r) = CHR 0x0A # r" for r
    by simp_all
  with Cons show ?case by (subst split_lines.simps) simp
qed

section \<open>Keyed fields\<close>

lemma field_matches_keyed:
  assumes "CHR ''='' \<notin> set k" "CHR ''='' \<notin> set key"
  shows "field_matches key (keyed k v) \<longleftrightarrow> k = key"
proof
  assume m: "field_matches key (keyed k v)"
  then have "take (length key) (keyed k v) = key" "keyed k v ! length key = CHR ''=''"
    "length key < length (keyed k v)"
    by (simp_all add: field_matches_def)
  then have "keyed k v = key @ CHR ''='' # drop (Suc (length key)) (keyed k v)"
    by (metis append_take_drop_id Cons_nth_drop_Suc)
  then have "find_char (CHR ''='') (keyed k v) = Some (length key)"
    using find_char_append [OF assms(2)] by metis
  moreover have "find_char (CHR ''='') (keyed k v) = Some (length k)"
    using find_char_append [OF assms(1)] by (simp add: keyed_def)
  ultimately have "length key = length k" by simp
  with \<open>take (length key) (keyed k v) = key\<close> show "k = key" by (simp add: keyed_def)
qed (simp add: field_matches_def keyed_def)

lemma drop_keyed [simp]: "drop (Suc (length k)) (keyed k v) = v"
  by (simp add: keyed_def)

definition key_ok :: "string \<Rightarrow> bool" where
  "key_ok k \<longleftrightarrow> CHR ''='' \<notin> set k"

lemma find_keyed_simps:
  assumes "key_ok k" "key_ok key"
  shows "find_keyed key found (keyed k v # ts) =
    (if k \<noteq> key then find_keyed key found ts
     else if found \<noteq> None then Inl (Failure MalformedInput (''duplicate field '' @ [CHR 0x27] @ key @ [CHR 0x27]))
     else find_keyed key (Some v) ts)"
  using field_matches_keyed [of k key v] assms by (auto simp: key_ok_def)

end
