(* ===== verification/Fileio.thy ===== *)
theory Fileio
  imports Tokens "HOL-Library.AList" "HOL-Library.List_Lexorder" "HOL-Library.Char_ord"
begin

text \<open>
  Bounded reads and atomic writes (\<open>src/fileio.cpp\<close>) over a model of the file system: the regular
  files as an association list from paths to contents, and the directories.  What the operating system
  may refuse is the record \<open>os\<close>: each field says whether one call fails, so every error path of the
  source is a branch.  \<open>write_trace\<close> lists the states a crash can leave during a write.
\<close>

section \<open>The file system\<close>

record filesystem =
  fs_files :: "(string \<times> string) list"
  fs_dirs :: "string list"

datatype write_fault =
  NoFault | CannotCreate | ShortWrite nat | FlushFails | SyncFails | CloseFails | RenameFails

record os =
  os_process_id :: nat
  os_message :: string
  os_write :: write_fault
  os_open_fails :: "string \<Rightarrow> bool"
  os_short_read :: "string \<Rightarrow> bool"
  os_remove_fails :: "string \<Rightarrow> bool"
  os_list_fails :: bool
  os_mkdir_fails :: bool

definition file_at :: "filesystem \<Rightarrow> string \<Rightarrow> string option" where
  "file_at fs path = map_of (fs_files fs) path"

definition put_file :: "string \<Rightarrow> string \<Rightarrow> filesystem \<Rightarrow> filesystem" where
  "put_file path bytes fs = fs\<lparr>fs_files := AList.update path bytes (fs_files fs)\<rparr>"

definition drop_file :: "string \<Rightarrow> filesystem \<Rightarrow> filesystem" where
  "drop_file path fs = fs\<lparr>fs_files := AList.delete path (fs_files fs)\<rparr>"

definition quoted_path :: "string \<Rightarrow> string" where
  "quoted_path s = [CHR 0x27] @ s @ [CHR 0x27]"

section \<open>Operations\<close>

definition TempNameFor :: "os \<Rightarrow> string \<Rightarrow> string" where
  "TempNameFor sys path = path @ ''.tmp-'' @ to_string (os_process_id sys)"

text \<open>\<open>std::filesystem::path\<close>'s append on POSIX.\<close>

definition JoinPath :: "string \<Rightarrow> string \<Rightarrow> string" where
  "JoinPath base leaf =
     (if leaf \<noteq> [] \<and> hd leaf = CHR ''/'' then leaf
      else if base = [] then leaf
      else if last base = CHR ''/'' then base @ leaf
      else base @ ''/'' @ leaf)"

definition ReadFileBounded :: "os \<Rightarrow> string \<Rightarrow> nat \<Rightarrow> filesystem \<Rightarrow> string expected" where
  "ReadFileBounded sys path max_bytes fs =
     (case file_at fs path of
        None \<Rightarrow> Inl (Failure NotFound (''cannot stat '' @ quoted_path path @ '': '' @ os_message sys))
      | Some bytes \<Rightarrow>
          if length bytes > max_bytes
          then Inl (Failure LimitExceeded (quoted_path path @ '' is larger than the permitted maximum''))
          else if os_open_fails sys path
          then Inl (Failure IoFailure (''cannot open '' @ quoted_path path @ '' for reading''))
          else if bytes \<noteq> [] \<and> os_short_read sys path
          then Inl (Failure IoFailure (''short read from '' @ quoted_path path))
          else Inr bytes)"

definition RenameFile :: "os \<Rightarrow> string \<Rightarrow> string \<Rightarrow> filesystem \<Rightarrow> Status \<times> filesystem" where
  "RenameFile sys old new fs =
     (case file_at fs old of
        Some bytes \<Rightarrow>
          if os_write sys = RenameFails
          then (Failure IoFailure (''cannot rename temporary file into place: '' @ os_message sys), fs)
          else (OkStatus, put_file new bytes (drop_file old fs))
      | None \<Rightarrow> (Failure IoFailure (''cannot rename temporary file into place: '' @ os_message sys), fs))"

text \<open>
  The temporary file is created, filled, flushed, synchronised and closed, then renamed; a failure
  before the rename removes it.
\<close>

definition WriteFileAtomic :: "os \<Rightarrow> string \<Rightarrow> string \<Rightarrow> filesystem \<Rightarrow> Status \<times> filesystem" where
  "WriteFileAtomic sys path bytes fs =
     (let temporary = TempNameFor sys path; abandoned = drop_file temporary (put_file temporary [] fs);
          written = put_file temporary bytes (put_file temporary [] fs)
      in if os_write sys = CannotCreate
         then (Failure IoFailure (''cannot create temporary file for '' @ quoted_path path), fs)
         else if bytes \<noteq> [] \<and> (case os_write sys of ShortWrite n \<Rightarrow> n \<noteq> length bytes | _ \<Rightarrow> False)
         then (Failure IoFailure (''short write to temporary file for '' @ quoted_path path), abandoned)
         else if os_write sys = FlushFails
         then (Failure IoFailure (''flush failed for '' @ quoted_path path), abandoned)
         else if os_write sys = SyncFails
         then (Failure IoFailure (''device flush failed for '' @ quoted_path path), abandoned)
         else if os_write sys = CloseFails
         then (Failure IoFailure (''close failed for '' @ quoted_path path), abandoned)
         else RenameFile sys temporary path written)"

text \<open>The file system after each step of a write, a crash between two steps leaves one of these.\<close>

definition write_trace :: "os \<Rightarrow> string \<Rightarrow> string \<Rightarrow> filesystem \<Rightarrow> filesystem list" where
  "write_trace sys path bytes fs =
     (let temporary = TempNameFor sys path; created = put_file temporary [] fs
      in [fs] @ map (\<lambda>n. put_file temporary (take n bytes) created) [0 ..< Suc (length bytes)] @
         [put_file path bytes (drop_file temporary (put_file temporary bytes created))])"

text \<open>The directories \<open>create_directories\<close> makes: the path and everything above it.\<close>

fun path_prefixes :: "string \<Rightarrow> string \<Rightarrow> string list" where
  "path_prefixes seen [] = [seen]"
| "path_prefixes seen (c # cs) =
     (if c = CHR ''/'' \<and> seen \<noteq> [] then seen # path_prefixes (seen @ [c]) cs else path_prefixes (seen @ [c]) cs)"

definition EnsureDirectory :: "os \<Rightarrow> string \<Rightarrow> filesystem \<Rightarrow> Status \<times> filesystem" where
  "EnsureDirectory sys path fs =
     (if path = [] then (Failure InvalidArgument ''directory path must not be empty'', fs)
      else if path \<in> set (fs_dirs fs) then (OkStatus, fs)
      else if file_at fs path \<noteq> None
      then (Failure InvalidArgument (quoted_path path @ '' exists and is not a directory''), fs)
      else if os_mkdir_fails sys
      then (Failure IoFailure (''cannot create directory '' @ quoted_path path @ '': '' @ os_message sys), fs)
      else (OkStatus, fs\<lparr>fs_dirs := path_prefixes [] path @ fs_dirs fs\<rparr>))"

definition FileExists :: "string \<Rightarrow> filesystem \<Rightarrow> bool" where
  "FileExists path fs = (file_at fs path \<noteq> None)"

definition DirectoryExists :: "string \<Rightarrow> filesystem \<Rightarrow> bool" where
  "DirectoryExists path fs = (path \<in> set (fs_dirs fs))"

definition RemoveFile :: "os \<Rightarrow> string \<Rightarrow> filesystem \<Rightarrow> Status \<times> filesystem" where
  "RemoveFile sys path fs =
     (if \<not> (FileExists path fs \<or> DirectoryExists path fs) then (OkStatus, fs)
      else if os_remove_fails sys path \<or> \<not> FileExists path fs
      then (Failure IoFailure (''cannot remove '' @ quoted_path path @ '': '' @ os_message sys), fs)
      else (OkStatus, drop_file path fs))"

text \<open>The name of a path directly inside a directory.\<close>

definition name_in :: "string \<Rightarrow> string \<Rightarrow> string option" where
  "name_in dir path =
     (let front = JoinPath dir []; name = drop (length front) path
      in if take (length front) path = front \<and> name \<noteq> [] \<and> CHR ''/'' \<notin> set name then Some name else None)"

definition ListDirectoryFiles :: "os \<Rightarrow> string \<Rightarrow> filesystem \<Rightarrow> string list expected" where
  "ListDirectoryFiles sys path fs =
     (if \<not> DirectoryExists path fs then Inl (Failure NotFound (quoted_path path @ '' is not a directory''))
      else if os_list_fails sys
      then Inl (Failure IoFailure (''cannot enumerate '' @ quoted_path path @ '': '' @ os_message sys))
      else Inr (sort (List.map_filter (name_in path) (map fst (fs_files fs)))))"

definition HasSuffix :: "string \<Rightarrow> string \<Rightarrow> bool" where
  "HasSuffix name suf = (length name \<ge> length suf \<and> drop (length name - length suf) name = suf)"

definition ListDirectoryBySuffix :: "os \<Rightarrow> string \<Rightarrow> string \<Rightarrow> filesystem \<Rightarrow> string list expected" where
  "ListDirectoryBySuffix sys path suf fs =
     and_then (ListDirectoryFiles sys path fs) (\<lambda>names. Inr (filter (\<lambda>n. HasSuffix n suf) names))"

section \<open>Lemmas\<close>

lemma file_at_put [simp]: "file_at (put_file p b fs) = (file_at fs)(p \<mapsto> b)"
  by (rule ext) (simp add: file_at_def put_file_def AList.update_conv')

lemma file_at_drop [simp]: "file_at (drop_file p fs) = (file_at fs)(p := None)"
  by (rule ext) (simp add: file_at_def drop_file_def AList.delete_conv')

lemma dirs_put [simp]: "fs_dirs (put_file p b fs) = fs_dirs fs" "fs_dirs (drop_file p fs) = fs_dirs fs"
  by (simp_all add: put_file_def drop_file_def)

definition fs_ok :: "filesystem \<Rightarrow> bool" where
  "fs_ok fs \<longleftrightarrow> distinct (map fst (fs_files fs))"

lemma fs_ok_put [simp]: "fs_ok fs \<Longrightarrow> fs_ok (put_file p b fs)"
  by (simp add: fs_ok_def put_file_def AList.distinct_update)

lemma fs_ok_drop [simp]: "fs_ok fs \<Longrightarrow> fs_ok (drop_file p fs)"
  by (simp add: fs_ok_def drop_file_def AList.distinct_delete)

lemma TempNameFor_neq [simp]: "TempNameFor sys p \<noteq> p" "p \<noteq> TempNameFor sys p"
  by (simp_all add: TempNameFor_def)

lemma WriteFileAtomic_ok:
  assumes "os_write sys = NoFault"
  shows "WriteFileAtomic sys p b fs =
    (OkStatus, put_file p b (drop_file (TempNameFor sys p) (put_file (TempNameFor sys p) b (put_file (TempNameFor sys p) [] fs))))"
  using assms by (simp add: WriteFileAtomic_def RenameFile_def Let_def)

text \<open>
  The final state of a write is the old one or the renamed one, up to the temporary file; a failure
  leaves every other path as it was.
\<close>

lemma WriteFileAtomic_files:
  assumes "q \<noteq> TempNameFor sys p"
  shows "file_at (snd (WriteFileAtomic sys p b fs)) q =
    (if failed (fst (WriteFileAtomic sys p b fs)) \<or> q \<noteq> p then file_at fs q else Some b)"
  using assms
  by (auto simp: WriteFileAtomic_def RenameFile_def Let_def split: option.splits write_fault.splits if_splits)

lemma WriteFileAtomic_fs_ok: "fs_ok fs \<Longrightarrow> fs_ok (snd (WriteFileAtomic sys p b fs))"
  by (auto simp: WriteFileAtomic_def RenameFile_def Let_def split: option.splits)

lemma WriteFileAtomic_dirs [simp]: "fs_dirs (snd (WriteFileAtomic sys p b fs)) = fs_dirs fs"
  by (auto simp: WriteFileAtomic_def RenameFile_def Let_def split: option.splits)

lemma write_trace_files:
  assumes "fs' \<in> set (write_trace sys p b fs)" "q \<noteq> TempNameFor sys p"
  shows "file_at fs' q = file_at fs q \<or> q = p \<and> file_at fs' q = Some b"
  using assms by (auto simp: write_trace_def Let_def split: if_splits)

lemma RemoveFile_files:
  "file_at (snd (RemoveFile sys p fs)) = (if failed (fst (RemoveFile sys p fs)) then file_at fs else (file_at fs)(p := None))"
  by (auto simp: RemoveFile_def FileExists_def)

end
