(* ===== verification/Lines.thy ===== *)
theory Lines
  imports Tokens
begin

text \<open>
  What the text formats of plans, requests, snapshots and results share: the loop that cuts a text into
  lines and lines into tokens and hands them to the reader of a format, and the relation
  \<open>lines_read\<close> that says which token lists such a reader accepts.  The round trips of the formats are
  proved over it.
\<close>

section \<open>The loop over the lines\<close>

definition malformed :: "string \<Rightarrow> 'a expected" where
  "malformed why = Inl (Failure MalformedInput why)"

definition at_line :: "nat \<Rightarrow> Status \<Rightarrow> Status" where
  "at_line n st = Failure (code st) (''line '' @ to_string n @ '': '' @ detail st)"

text \<open>The lambda \<open>fail\<close>.\<close>

definition fail_line :: "nat \<Rightarrow> Status \<Rightarrow> Status" where
  "fail_line n st = at_line n (NormaliseDecodeStatus st)"

fun parse_lines :: "(nat \<Rightarrow> string list \<Rightarrow> 's \<Rightarrow> 's expected) \<Rightarrow> nat \<Rightarrow> string list \<Rightarrow> 's \<Rightarrow> 's expected" where
  "parse_lines f n [] st = Inr st"
| "parse_lines f n (l # ls) st =
     (let line = strip_cr l
      in if line = [] then parse_lines f (Suc n) ls st
         else case SplitTokens line of
                Inl e \<Rightarrow> Inl (at_line n e)
              | Inr values \<Rightarrow> and_then (f n values st) (parse_lines f (Suc n) ls))"

text \<open>A text as the lines a writer emits.\<close>

definition emit_lines :: "string list \<Rightarrow> string" where
  "emit_lines ls = concat (map (\<lambda>l. l @ [CHR 0x0A]) ls)"

definition join_commas :: "string list \<Rightarrow> string" where
  "join_commas ds = (case ds of [] \<Rightarrow> [] | d # rest \<Rightarrow> fold (\<lambda>x joined. joined @ '','' @ x) rest d)"

fun split_commas :: "string \<Rightarrow> string list" where
  "split_commas [] = [[]]"
| "split_commas (c # cs) =
     (if c = CHR '','' then [] # split_commas cs
      else case split_commas cs of p # ps \<Rightarrow> (c # p) # ps | [] \<Rightarrow> [[c]])"

definition RequiredRawField :: "string list \<Rightarrow> nat \<Rightarrow> string \<Rightarrow> string expected" where
  "RequiredRawField tokens first key =
     (case FindKeyedField tokens first key of
        Inr raw \<Rightarrow> Inr raw
      | Inl e \<Rightarrow> if code e = NotFound
                 then Inl (Failure MalformedInput (''record is missing the '' @ [CHR 0x27] @ key @ [CHR 0x27] @ '' field''))
                 else Inl e)"

lemma parse_lines_invariant:
  assumes "parse_lines f n ls st = Inr st'" "I st" "\<And>n values st st'. f n values st = Inr st' \<Longrightarrow> I st \<Longrightarrow> I st'"
  shows "I st'"
  using assms(1,2)
proof (induction ls arbitrary: n st)
  case (Cons l ls)
  then show ?case
    by (auto simp: Let_def and_then_Inr split: if_splits sum.splits dest: assms(3))
qed simp

declare join_tokens.simps [simp del] find_keyed.simps(2) [simp del]

section \<open>Lines as token lists\<close>

lemma line_start: "line_append u (c # cs) = join_tokens [c # cs, u]"
  by (simp add: line_append_def join_tokens.simps)

lemma line_more: "t \<noteq> [] \<Longrightarrow> line_append u (join_tokens (t # ts)) = join_tokens (t # ts @ [u])"
  by (rule line_append_join)

lemmas line_ops =
  Line_Add_def Line_AddU64_def Line_AddKeyU64_def Line_AddKeyDouble_def Line_AddKeyToken_def Line_AddKeyRaw_def
  line_start line_more

section \<open>Plain tokens\<close>

definition plain_text :: "string \<Rightarrow> bool" where
  "plain_text t \<longleftrightarrow> list_all (\<lambda>c. \<not> is_blank c \<and> c \<noteq> CHR 0x0A \<and> c \<noteq> CHR 0x0D) t"

lemma plain_token_alt: "plain_token t \<longleftrightarrow> t \<noteq> [] \<and> plain_text t"
  by (simp add: plain_token_def plain_text_def)

lemma plain_keyed [simp]: "plain_text k \<Longrightarrow> plain_text v \<Longrightarrow> plain_token (keyed k v)"
  by (simp add: plain_token_alt plain_text_def keyed_def is_blank_def)

lemma raw_plain: "IsRawTokenCharacter c \<or> c = CHR ''%'' \<Longrightarrow> \<not> is_blank c \<and> c \<noteq> CHR 0x0A \<and> c \<noteq> CHR 0x0D"
proof -
  have "\<not> IsRawTokenCharacter (CHR '' '')" "\<not> IsRawTokenCharacter (CHR 0x09)"
    "\<not> IsRawTokenCharacter (CHR 0x0A)" "\<not> IsRawTokenCharacter (CHR 0x0D)"
    by code_simp+
  then show "IsRawTokenCharacter c \<or> c = CHR ''%'' \<Longrightarrow> \<not> is_blank c \<and> c \<noteq> CHR 0x0A \<and> c \<noteq> CHR 0x0D"
    by (auto simp: is_blank_def)
qed

lemma plain_EncodeToken [simp]: "plain_text (EncodeToken s)"
  using EncodeToken_chars raw_plain unfolding plain_text_def list_all_iff by blast

lemma digit_raw: "is_digit c \<Longrightarrow> IsRawTokenCharacter c"
  by (simp add: is_digit_def IsRawTokenCharacter_def is_alnum_def)

lemma plain_digits: "list_all is_digit t \<Longrightarrow> plain_text t"
  using digit_raw raw_plain unfolding plain_text_def list_all_iff by blast

lemma plain_FormatU64 [simp]: "plain_text (FormatU64 n)"
  by (simp add: FormatU64_def plain_digits to_string_digits)

lemma FormatU64_nonempty [simp]: "FormatU64 n \<noteq> []"
  by (simp add: FormatU64_def)

lemma plain_double_text [simp]: "exact_double dc v \<Longrightarrow> plain_text (double_text dc v)"
proof -
  assume e: "exact_double dc v"
  then have "list_all (\<lambda>c. is_digit c \<or> c \<in> set ''.-+eE'') (double_text dc v)"
    by (simp add: exact_double_def double_text_def FormatDouble_def Let_def)
  then show "plain_text (double_text dc v)"
    unfolding plain_text_def list_all_iff using digit_raw raw_plain
    by (fastforce simp: is_blank_def)
qed

lemma double_text_nonempty [simp]: "exact_double dc v \<Longrightarrow> double_text dc v \<noteq> []"
  by (auto simp: exact_double_def double_text_def FormatDouble_def Let_def)

lemma id_chars_raw: "is_alnum c \<or> c \<in> set ''_-.:/@+'' \<Longrightarrow> IsRawTokenCharacter c"
  by (auto simp: IsRawTokenCharacter_def)

lemma valid_id_raw: "IsValidIdText t \<Longrightarrow> list_all IsRawTokenCharacter t \<and> t \<noteq> [] \<and> length t \<le> 96"
  using id_chars_raw by (auto simp: IsValidIdText_def kMaxIdLength_def list_all_iff split: if_splits)

lemma EncodeToken_raw: "list_all IsRawTokenCharacter t \<Longrightarrow> t \<noteq> [] \<Longrightarrow> EncodeToken t = t"
  by (simp add: EncodeToken_eq raw_escape)

lemma EncodeToken_id [simp]: "IsValidIdText t \<Longrightarrow> EncodeToken t = t"
  using valid_id_raw EncodeToken_raw by blast

lemma ParseId_valid: "IsValidIdText t \<Longrightarrow> ParseId t = Inr t"
  by simp

lemma valid_id_nonempty: "IsValidIdText t \<Longrightarrow> t \<noteq> []"
  using valid_id_raw by blast

lemma hex_digit_raw: "n < 16 \<Longrightarrow> IsRawTokenCharacter (kHexDigits ! n)"
proof -
  have "\<forall>m \<in> {0..<16::nat}. IsRawTokenCharacter (kHexDigits ! m)" by code_simp
  then show "n < 16 \<Longrightarrow> IsRawTokenCharacter (kHexDigits ! n)" by simp
qed

lemma hex_raw: "list_all IsRawTokenCharacter (ToHexImpl d)"
  by (induction d) (simp_all add: ToHexImpl_def hex_byte_def hex_digit_raw nibble_bound)

lemma EncodeToken_hex [simp]: "length d = 32 \<Longrightarrow> EncodeToken (ToHexImpl d) = ToHexImpl d"
  using EncodeToken_raw [OF hex_raw] by (metis length_ToHexImpl length_0_conv mult_eq_0_iff zero_neq_numeral)

lemma Digest256_FromHex_ToHex [simp]: "length d = 32 \<Longrightarrow> Digest256_FromHex (ToHexImpl d) = Inr d"
  using FromHexImpl_ToHexImpl [of d] by (simp add: Digest256_FromHex_def)

lemma DecodeToken_fits:
  "length (keyed k (EncodeToken v)) \<le> kMaxTokenBytes \<Longrightarrow> DecodeToken (EncodeToken v) = Inr v"
proof -
  assume "length (keyed k (EncodeToken v)) \<le> kMaxTokenBytes"
  moreover have "length v \<le> length (EncodeToken v)"
    using length_escaped [of v] by (simp add: EncodeToken_eq)
  ultimately have "length v \<le> kMaxTokenBytes" by (simp add: keyed_def)
  then show ?thesis by (rule DecodeToken_EncodeToken)
qed

lemma DecodeToken_id [simp]: "IsValidIdText t \<Longrightarrow> DecodeToken t = Inr t"
  using DecodeToken_EncodeToken [of t] valid_id_raw [of t] by (simp add: kMaxTokenBytes_def)

lemma DecodeToken_hex [simp]: "length d = 32 \<Longrightarrow> DecodeToken (ToHexImpl d) = Inr (ToHexImpl d)"
  using DecodeToken_EncodeToken [of "ToHexImpl d"] by (simp add: kMaxTokenBytes_def)

lemma u64_bound [simp]: "unat (w :: u64) < 2 ^ 64"
  using unsigned_less [of w, where 'a = nat] by simp

lemma u32_bound [simp]: "unat (w :: u32) < 2 ^ 32"
  using unsigned_less [of w, where 'a = nat] by simp

lemma ParseU64_word [simp]: "ParseU64 (FormatU64 (unat (w :: u64))) = Inr (unat w)"
  by (rule ParseU64_FormatU64) (rule u64_bound)

lemma ParseU32_word [simp]: "ParseU32 (FormatU64 (unat (w :: u32))) = Inr (unat w)"
  by (rule ParseU32_FormatU64) (rule u32_bound)

lemma plain_literals [simp]: "plain_text []" "plain_text (c # cs) \<longleftrightarrow> \<not> is_blank c \<and> c \<noteq> CHR 0x0A \<and> c \<noteq> CHR 0x0D \<and> plain_text cs"
  by (simp_all add: plain_text_def)

lemma plain_tokens [simp]:
  "plain_token (EncodeToken s)" "plain_token (FormatU64 n)" "plain_token (c # cs) \<longleftrightarrow> plain_text (c # cs)"
  by (simp_all add: plain_token_alt del: plain_literals)

lemma plain_id [simp]: "IsValidIdText t \<Longrightarrow> plain_text t"
  using plain_EncodeToken [of t] by simp

lemma plain_token_id [simp]: "IsValidIdText t \<Longrightarrow> plain_token t"
  using plain_tokens(1) [of t] by simp

lemma plain_token_hex [simp]: "length d = 32 \<Longrightarrow> plain_token (ToHexImpl d)"
  using plain_tokens(1) [of "ToHexImpl d"] by simp

lemma plain_token_double [simp]: "exact_double dc v \<Longrightarrow> plain_token (double_text dc v)"
  by (simp add: plain_token_alt)

section \<open>Comma lists and keyed fields\<close>

lemma join_commas_Cons: "join_commas (d # ds) = d @ concat (map (\<lambda>x. CHR '','' # x) ds)"
proof -
  have "fold (\<lambda>x joined. joined @ '','' @ x) ds acc = acc @ concat (map (\<lambda>x. CHR '','' # x) ds)" for acc
    by (induction ds arbitrary: acc) simp_all
  then show ?thesis by (simp add: join_commas_def)
qed

lemma split_commas_nonempty: "split_commas s \<noteq> []"
  by (induction s) (auto split: list.splits)

lemma split_commas_comma: "CHR '','' \<notin> set d \<Longrightarrow> split_commas (d @ CHR '','' # s) = d # split_commas s"
  by (induction d) auto

lemma split_commas_last: "CHR '','' \<notin> set d \<Longrightarrow> split_commas d = [d]"
  by (induction d) auto

lemma split_join_commas: "\<forall>x \<in> set (d # ds). CHR '','' \<notin> set x \<Longrightarrow> split_commas (join_commas (d # ds)) = d # ds"
  unfolding join_commas_Cons
  by (induction ds arbitrary: d) (simp_all add: split_commas_comma split_commas_last)

lemma valid_id_no_comma: "IsValidIdText t \<Longrightarrow> CHR '','' \<notin> set t"
proof -
  have "\<not> is_alnum (CHR '','')" by code_simp
  then show "IsValidIdText t \<Longrightarrow> CHR '','' \<notin> set t"
    by (auto simp: IsValidIdText_def list_all_iff split: if_splits)
qed

lemma plain_join_commas: "list_all IsValidIdText ds \<Longrightarrow> plain_text (join_commas ds)"
proof (cases ds)
  case (Cons d rest)
  assume "list_all IsValidIdText ds"
  then have "\<forall>x \<in> set ds. plain_text x" by (simp add: list_all_iff)
  then show ?thesis
    unfolding Cons join_commas_Cons by (auto simp: plain_text_def list_all_iff is_blank_def)
qed (simp add: join_commas_def)

lemmas field_lookup = FindKeyedField_def find_keyed_simps key_ok_def RequiredRawField_def

section \<open>Reading token lists\<close>

definition readable :: "string list \<Rightarrow> bool" where
  "readable ts \<longleftrightarrow> ts \<noteq> [] \<and> list_all plain_token ts \<and> line_fits ts"

definition line_reads :: "(nat \<Rightarrow> string list \<Rightarrow> 's \<Rightarrow> 's expected) \<Rightarrow> 's \<Rightarrow> string list \<Rightarrow> 's \<Rightarrow> bool" where
  "line_reads f st ts st' \<longleftrightarrow> readable ts \<and> (\<forall>n. f n ts st = Inr st')"

inductive lines_read :: "(nat \<Rightarrow> string list \<Rightarrow> 's \<Rightarrow> 's expected) \<Rightarrow> 's \<Rightarrow> string list list \<Rightarrow> 's \<Rightarrow> bool" for f where
  none: "lines_read f st [] st"
| more: "line_reads f st ts st1 \<Longrightarrow> lines_read f st1 tss st2 \<Longrightarrow> lines_read f st (ts # tss) st2"

lemma lines_read_append:
  "lines_read f st tss st1 \<Longrightarrow> lines_read f st1 uss st2 \<Longrightarrow> lines_read f st (tss @ uss) st2"
  by (induction rule: lines_read.induct) (auto intro: lines_read.intros)

lemma lines_read_one: "line_reads f st ts st' \<Longrightarrow> lines_read f st [ts] st'"
  by (blast intro: lines_read.intros)

lemma strip_cr_join: "list_all plain_token ts \<Longrightarrow> strip_cr (join_tokens ts) = join_tokens ts"
  using join_tokens_chars [of ts] last_in_set [of "join_tokens ts"] by (auto simp: strip_cr_def)

lemma parse_lines_read:
  "lines_read f st tss st' \<Longrightarrow> parse_lines f n (map join_tokens tss) st = Inr st'"
proof (induction arbitrary: n rule: lines_read.induct)
  case (more st ts st1 tss st2)
  then have "ts \<noteq> []" "list_all plain_token ts" "line_fits ts" "\<And>n. f n ts st = Inr st1"
    by (simp_all add: line_reads_def readable_def)
  then show ?case
    using more.IH SplitTokens_join join_tokens_nonempty strip_cr_join by simp
qed simp

lemma lines_read_readable: "lines_read f st tss st' \<Longrightarrow> ts \<in> set tss \<Longrightarrow> list_all plain_token ts"
  by (induction rule: lines_read.induct) (auto simp: line_reads_def readable_def)

text \<open>A text whose lines are token lists that a reader accepts is parsed as it was written.\<close>

lemma parse_emitted:
  assumes "lines_read f st tss st'"
  shows "parse_lines f n (split_lines (emit_lines (map join_tokens tss))) st = Inr st'"
proof -
  have "\<forall>l \<in> set (map join_tokens tss). CHR 0x0A \<notin> set l"
    using lines_read_readable [OF assms] join_tokens_chars by fastforce
  then have "split_lines (emit_lines (map join_tokens tss)) = map join_tokens tss"
    unfolding emit_lines_def by (rule split_lines_terminated)
  then show ?thesis using parse_lines_read [OF assms] by simp
qed

lemma lines_read_map:
  assumes "\<And>x p. x \<in> set xs \<Longrightarrow> line_reads f (wrap p) (tok x) (wrap (upd x p))"
  shows "lines_read f (wrap p) (map tok xs) (wrap (fold upd xs p))"
  using assms
proof (induction xs arbitrary: p)
  case (Cons x xs)
  then show ?case by (auto intro!: lines_read.more Cons.IH)
qed (simp add: lines_read.none)

end
