(* ===== verification/Incarnation.thy ===== *)
theory Incarnation
  imports Fileio Lines
begin

text \<open>
  Incarnations of the inspection service (\<open>GenerateIncarnationId\<close>, \<open>StateDirectoryLock\<close> and
  \<open>AdvanceIncarnation\<close> of \<open>src/service.cpp\<close>): every start takes the lock of the state directory, reads the
  epoch of the previous incarnation from a record file and writes the record of the new one.
\<close>

section \<open>What the platform answers\<close>

datatype lock_attempt = LockFree | LockUnopenable | LockHeld

text \<open>
  \<open>pf_random\<close> is what reading 16 bytes from \<open>/dev/urandom\<close> yields, if it can be opened;
  \<open>pf_socket\<close> is the descriptor \<open>socket\<close> returns, \<open>pf_address_ok\<close> is \<open>inet_pton\<close>.
\<close>

record platform =
  pf_os :: os
  pf_random :: "u8 list option"
  pf_now :: u64
  pf_lock :: lock_attempt
  pf_socket :: int
  pf_address_ok :: "string \<Rightarrow> bool"
  pf_bind_fails :: bool
  pf_listen_fails :: bool
  pf_bound_port :: "nat option"

definition GenerateIncarnationId :: "platform \<Rightarrow> IncarnationId" where
  "GenerateIncarnationId pf =
     (case pf_random pf of
        Some bytes \<Rightarrow> if length bytes \<noteq> 16 then replicate 16 0 else bytes
      | None \<Rightarrow> replicate 16 0)"

definition UnixMillisNow :: "platform \<Rightarrow> u64" where
  "UnixMillisNow pf = pf_now pf"

section \<open>The state directory lock\<close>

text \<open>A lock is whether it is held; opening the lock file creates it.\<close>

definition Lock_Acquire :: "platform \<Rightarrow> string \<Rightarrow> bool \<Rightarrow> filesystem \<Rightarrow> Status \<times> bool \<times> filesystem" where
  "Lock_Acquire pf path held fs =
     (if held then (Failure Internal ''the state directory lock is already held'', held, fs)
      else if pf_lock pf = LockUnopenable
      then (Failure IoFailure ''cannot open the state directory lock file'', held, fs)
      else let opened = (if FileExists path fs then fs else put_file path [] fs)
           in if pf_lock pf = LockHeld
              then (Failure Refused ''another service instance holds the state directory lock'', held, opened)
              else (OkStatus, True, opened))"

definition Lock_Release :: "bool \<Rightarrow> bool" where
  "Lock_Release held = False"

section \<open>The record\<close>

definition kIncarnationFileName :: string where "kIncarnationFileName = ''incarnation.oppf''"
definition kIncarnationBytes :: nat where "kIncarnationBytes = 4096"

record IncarnationState =
  in_incarnation :: IncarnationId
  in_epoch :: Epoch
  in_epoch_continuity :: bool
  in_started_unix_ms :: u64
  in_process_id :: u64

text \<open>The loop over the lines of the record: the epoch, or \<open>None\<close> where the code leaves it unparsed.\<close>

fun recorded_epoch :: "bool \<Rightarrow> string list \<Rightarrow> nat option" where
  "recorded_epoch header_seen [] = None"
| "recorded_epoch header_seen (l # ls) =
     (let line = strip_cr l
      in if line = [] then recorded_epoch header_seen ls
         else case SplitTokens line of
                Inl _ \<Rightarrow> None
              | Inr values \<Rightarrow>
                  if \<not> header_seen
                  then if length values \<noteq> 2 \<or> values ! 0 \<noteq> ''OPP-INCARNATION'' then None else recorded_epoch True ls
                  else if values ! 0 = ''epoch''
                  then if length values \<noteq> 2 then None
                       else case ParseU64 (values ! 1) of Inl _ \<Rightarrow> None | Inr epoch \<Rightarrow> Some epoch
                  else recorded_epoch header_seen ls)"

definition incarnation_lines :: "IncarnationState \<Rightarrow> string list" where
  "incarnation_lines st =
     [''OPP-INCARNATION 1'', ''incarnation '' @ ToHexImpl (in_incarnation st),
      ''epoch '' @ FormatU64 (unat (in_epoch st)), ''pid '' @ FormatU64 (unat (in_process_id st)),
      ''started_unix_ms '' @ FormatU64 (unat (in_started_unix_ms st))]"

text \<open>The epoch of a record file that exists, \<open>None\<close> when it cannot be read.\<close>

definition previous_epoch :: "os \<Rightarrow> string \<Rightarrow> filesystem \<Rightarrow> nat option" where
  "previous_epoch sys path fs =
     (case ReadFileBounded sys path kIncarnationBytes fs of
        Inl _ \<Rightarrow> None
      | Inr bytes \<Rightarrow> recorded_epoch False (split_lines bytes))"

definition begin_incarnation :: "platform \<Rightarrow> string \<Rightarrow> bool \<Rightarrow> nat \<Rightarrow> filesystem \<Rightarrow> IncarnationState expected \<times> filesystem" where
  "begin_incarnation pf path continuity previous fs =
     (if previous \<ge> 2 ^ 64 - 1 - 1 then (Inl (Failure Exhausted ''the service epoch counter is exhausted''), fs)
      else let st = \<lparr>in_incarnation = GenerateIncarnationId pf, in_epoch = of_nat previous + 1,
                     in_epoch_continuity = continuity, in_started_unix_ms = UnixMillisNow pf,
                     in_process_id = of_nat (os_process_id (pf_os pf))\<rparr>;
               (written, fs') = WriteFileAtomic (pf_os pf) path (emit_lines (incarnation_lines st)) fs
           in if failed written then (Inl written, fs') else (Inr st, fs'))"

definition AdvanceIncarnation :: "platform \<Rightarrow> string \<Rightarrow> filesystem \<Rightarrow> IncarnationState expected \<times> filesystem" where
  "AdvanceIncarnation pf state_dir fs =
     (let (directory, fs1) = EnsureDirectory (pf_os pf) state_dir fs; path = JoinPath state_dir kIncarnationFileName
      in if failed directory then (Inl directory, fs1)
         else if \<not> FileExists path fs1 then begin_incarnation pf path True 0 fs1
         else case previous_epoch (pf_os pf) path fs1 of
                Some previous \<Rightarrow> begin_incarnation pf path True previous fs1
              | None \<Rightarrow>
                  let (quarantined, fs2) = RenameFile (pf_os pf) path (path @ ''.unreadable'') fs1
                  in if failed quarantined
                     then (Inl (Failure IoFailure ''cannot quarantine an unreadable incarnation record''), fs2)
                     else begin_incarnation pf path False 0 fs2)"

section \<open>The record is read back\<close>

lemma length_GenerateIncarnationId [simp]: "length (GenerateIncarnationId pf) = 16"
  by (simp add: GenerateIncarnationId_def split: option.splits)

lemma length_to_string: "n < 10 ^ Suc k \<Longrightarrow> length (to_string n) \<le> Suc k"
proof (induction k arbitrary: n)
  case 0
  then show ?case by (subst to_string.simps) simp
next
  case (Suc k)
  then have "length (to_string (n div 10)) \<le> Suc k" by (simp add: less_mult_imp_div_less)
  then show ?case by (subst to_string.simps) simp
qed

lemma length_FormatU64_word: "length (FormatU64 (unat (w :: u64))) \<le> 20"
proof -
  have "unat w < 10 ^ Suc 19" using unsigned_less [of w, where 'a = nat] by simp
  then show ?thesis using length_to_string [of "unat w" 19] by (simp add: FormatU64_def)
qed

lemma plain_hex [simp]: "plain_text (ToHexImpl d)"
  using hex_raw raw_plain unfolding plain_text_def list_all_iff by blast

definition incarnation_tokens :: "IncarnationState \<Rightarrow> string list list" where
  "incarnation_tokens st =
     [[''OPP-INCARNATION'', ''1''], [''incarnation'', ToHexImpl (in_incarnation st)],
      [''epoch'', FormatU64 (unat (in_epoch st))], [''pid'', FormatU64 (unat (in_process_id st))],
      [''started_unix_ms'', FormatU64 (unat (in_started_unix_ms st))]]"

lemma incarnation_lines_tokens: "incarnation_lines st = map join_tokens (incarnation_tokens st)"
  by (simp add: incarnation_lines_def incarnation_tokens_def join_tokens.simps)

lemma incarnation_readable:
  assumes "length (in_incarnation st) = 16" "ts \<in> set (incarnation_tokens st)"
  shows "readable ts"
proof -
  have number: "length (FormatU64 (unat w)) \<le> k" if "20 \<le> k" for w :: u64 and k
    using length_FormatU64_word [of w] that by simp
  have one: "plain_text ''OPP-INCARNATION''" "plain_text ''1''" "plain_text ''incarnation''" "plain_text ''epoch''"
    "plain_text ''pid''" "plain_text ''started_unix_ms''"
    by code_simp+
  have "in_incarnation st \<noteq> []" using assms(1) by auto
  then have "ToHexImpl (in_incarnation st) \<noteq> []" using assms(1) by (metis length_ToHexImpl length_0_conv mult_eq_0_iff zero_neq_numeral)
  then show ?thesis
    using assms one
    by (auto simp: incarnation_tokens_def readable_def line_fits_def kMaxTextLineBytes_def kMaxTokenBytes_def
        plain_token_alt join_tokens.simps number)
qed

lemma recorded_epoch_lines:
  assumes "length (in_incarnation st) = 16"
  shows "recorded_epoch False (incarnation_lines st) = Some (unat (in_epoch st))"
proof -
  have step: "recorded_epoch h (join_tokens ts # ls) =
      (if \<not> h then if length ts \<noteq> 2 \<or> ts ! 0 \<noteq> ''OPP-INCARNATION'' then None else recorded_epoch True ls
       else if ts ! 0 = ''epoch''
       then if length ts \<noteq> 2 then None else case ParseU64 (ts ! 1) of Inl _ \<Rightarrow> None | Inr epoch \<Rightarrow> Some epoch
       else recorded_epoch h ls)" if "ts \<in> set (incarnation_tokens st)" for h ts ls
  proof -
    have "readable ts" using incarnation_readable [OF assms that] .
    then show ?thesis
      using SplitTokens_join [of ts] join_tokens_nonempty [of ts] strip_cr_join [of ts] by (simp add: readable_def)
  qed
  have "ParseU64 (FormatU64 (unat (in_epoch st))) = Inr (unat (in_epoch st))" by simp
  then show ?thesis
    unfolding incarnation_lines_tokens incarnation_tokens_def list.map
    by (subst step, simp add: incarnation_tokens_def)+ simp
qed

lemma record_split:
  assumes "length (in_incarnation st) = 16"
  shows "split_lines (emit_lines (incarnation_lines st)) = incarnation_lines st"
proof -
  have "\<forall>l \<in> set (incarnation_lines st). CHR 0x0A \<notin> set l"
    using incarnation_readable [OF assms] join_tokens_chars unfolding incarnation_lines_tokens readable_def by fastforce
  then show ?thesis unfolding emit_lines_def by (rule split_lines_terminated)
qed

lemma record_short:
  assumes "length (in_incarnation st) = 16"
  shows "length (emit_lines (incarnation_lines st)) \<le> kIncarnationBytes"
  using assms length_FormatU64_word [of "in_epoch st"] length_FormatU64_word [of "in_process_id st"]
    length_FormatU64_word [of "in_started_unix_ms st"]
  by (simp add: emit_lines_def incarnation_lines_def kIncarnationBytes_def)

section \<open>Restarts\<close>

definition record_path :: "string \<Rightarrow> string" where
  "record_path dir = JoinPath dir kIncarnationFileName"

definition reads_record :: "os \<Rightarrow> string \<Rightarrow> bool" where
  "reads_record sys dir \<longleftrightarrow> \<not> os_open_fails sys (record_path dir) \<and> \<not> os_short_read sys (record_path dir)"

lemma begin_incarnation_Inr:
  assumes "begin_incarnation pf path continuity previous fs = (Inr st, fs')"
  shows "unat (in_epoch st) = Suc previous \<and> in_epoch_continuity st = continuity \<and> length (in_incarnation st) = 16 \<and>
    file_at fs' path = Some (emit_lines (incarnation_lines st)) \<and> previous < 2 ^ 64 - 2"
proof -
  from assms have small: "previous < 2 ^ 64 - 2"
    by (auto simp: begin_incarnation_def Let_def split: if_splits prod.splits)
  obtain fs1 where st: "st = \<lparr>in_incarnation = GenerateIncarnationId pf, in_epoch = of_nat previous + 1,
                     in_epoch_continuity = continuity, in_started_unix_ms = UnixMillisNow pf,
                     in_process_id = of_nat (os_process_id (pf_os pf))\<rparr>"
    and w: "fs' = snd (WriteFileAtomic (pf_os pf) path (emit_lines (incarnation_lines st)) fs)"
      "\<not> failed (fst (WriteFileAtomic (pf_os pf) path (emit_lines (incarnation_lines st)) fs))"
    using assms by (auto simp: begin_incarnation_def Let_def split: if_splits prod.splits)
  have "of_nat previous + 1 = (of_nat (Suc previous) :: u64)" by simp
  then have "unat (of_nat previous + 1 :: u64) = Suc previous"
    using small unat_of_nat [of "Suc previous", where 'a = 64] by (simp only: len_of_numeral_defs) simp
  moreover have "file_at fs' path = Some (emit_lines (incarnation_lines st))"
    using WriteFileAtomic_files [of path "pf_os pf" path "emit_lines (incarnation_lines st)" fs] w by simp
  ultimately show ?thesis using small st by simp
qed

lemma EnsureDirectory_file_at: "file_at (snd (EnsureDirectory sys dir fs)) = file_at fs"
  by (auto simp: EnsureDirectory_def file_at_def fun_eq_iff)

lemma AdvanceIncarnation_record:
  assumes "AdvanceIncarnation pf dir fs = (Inr st, fs')"
  shows "length (in_incarnation st) = 16 \<and> 0 < unat (in_epoch st) \<and>
    file_at fs' (record_path dir) = Some (emit_lines (incarnation_lines st))"
  using assms
  by (auto simp: AdvanceIncarnation_def record_path_def Let_def split: if_splits prod.splits option.splits
      dest!: begin_incarnation_Inr)

lemma AdvanceIncarnation_next:
  assumes "file_at fs (record_path dir) = Some (emit_lines (incarnation_lines old))" "length (in_incarnation old) = 16"
    "reads_record (pf_os pf) dir" "AdvanceIncarnation pf dir fs = (Inr st, fs')"
  shows "unat (in_epoch st) = Suc (unat (in_epoch old)) \<and> in_epoch_continuity st"
proof -
  obtain fs1 where dir: "EnsureDirectory (pf_os pf) dir fs = (OkStatus, fs1)" "file_at fs1 = file_at fs"
  proof -
    obtain d fs1 where e: "EnsureDirectory (pf_os pf) dir fs = (d, fs1)" by fastforce
    with assms(4) have "\<not> failed d" by (auto simp: AdvanceIncarnation_def)
    then have "d = OkStatus" using e by (auto simp: EnsureDirectory_def split: if_splits)
    with e EnsureDirectory_file_at [of "pf_os pf" dir fs] that show thesis by simp
  qed
  have "previous_epoch (pf_os pf) (record_path dir) fs1 = Some (unat (in_epoch old))"
    using assms(1-3) dir(2) record_short [OF assms(2)] record_split [OF assms(2)] recorded_epoch_lines [OF assms(2)]
    by (simp add: previous_epoch_def ReadFileBounded_def reads_record_def)
  moreover have "FileExists (record_path dir) fs1" using assms(1) dir(2) by (simp add: FileExists_def)
  ultimately have "begin_incarnation pf (record_path dir) True (unat (in_epoch old)) fs1 = (Inr st, fs')"
    using assms(4) dir(1) by (simp add: AdvanceIncarnation_def flip: record_path_def)
  from begin_incarnation_Inr [OF this] show ?thesis by simp
qed

end
