(* ===== verification/Plan_Text.thy ===== *)
theory Plan_Text
  imports Plan Lines Sha256
begin

text \<open>
  The canonical text of a plan artifact (\<open>src/plan.cpp\<close>): \<open>PlanToText\<close>, the digest over it, and the
  strict parser \<open>ParsePlanArtifact\<close>.  The text is a list of lines; each block of the writer that
  assembles and emits a line is one definition, and so is each record kind of the parser.
\<close>

section \<open>Writing\<close>

definition request_line :: "PlanArtifact \<Rightarrow> string" where
  "request_line plan = Line_Add (ToHexImpl (pl_request_digest plan)) (Line_Add (pl_request_id plan) ''request'')"

definition snapshot_line :: "PlanArtifact \<Rightarrow> string" where
  "snapshot_line plan = Line_Add (ToHexImpl (pl_snapshot_digest plan))
     (Line_AddU64 (unat (pl_snapshot_generation plan)) (Line_Add (pl_snapshot_id plan) ''snapshot''))"

definition binding_line :: "SourceBinding \<Rightarrow> string" where
  "binding_line b = Line_AddKeyToken ''contrib'' (ToHexImpl (sb_contribution b))
     (Line_AddKeyU64 ''gen'' (unat (sb_generation b)) (Line_Add (sb_source b) ''binding''))"

definition endpoints_line :: "PlanArtifact \<Rightarrow> string" where
  "endpoints_line plan =
     Line_AddKeyToken ''dport'' (pk_port (pl_destination plan))
     (Line_AddKeyToken ''dnode'' (pk_node (pl_destination plan))
     (Line_AddKeyToken ''sport'' (pk_port (pl_source plan))
     (Line_AddKeyToken ''snode'' (pk_node (pl_source plan)) ''endpoints'')))"

definition totals_line :: "double_chars \<Rightarrow> PlanArtifact \<Rightarrow> string" where
  "totals_line dc plan =
     Line_AddKeyU64 ''regen'' (pl_regenerations plan)
     (Line_AddKeyU64 ''hops'' (pl_hops plan)
     (Line_AddKeyDouble dc ''loss'' (pl_total_loss_db plan)
     (Line_AddKeyU64 ''distance'' (unat (pl_total_distance_m plan))
     (Line_AddKeyU64 ''cost'' (unat (pl_total_cost plan)) ''totals''))))"

definition step_line :: "PlanStep \<Rightarrow> string" where
  "step_line step =
     Line_AddKeyToken ''res'' (ResourceKeyToString (ps_resource step))
     (Line_AddKeyU64 ''cost'' (unat (ps_cost step))
     (Line_AddKeyU64 ''reason'' (unat (ps_reason_bits step))
     (Line_AddKeyU64 ''seg'' (ps_segment_index step)
     (Line_AddKeyToken ''kind'' (StepKindName (ps_kind step))
     (Line_AddU64 (ps_index step) ''step'')))))"

definition segment_line :: "double_chars \<Rightarrow> PlanSegment \<Rightarrow> string" where
  "segment_line dc g =
     (let line = Line_AddKeyToken ''end'' (if sg_ended_by_regeneration g then ''regeneration'' else ''transparent'')
            (Line_AddKeyU64 ''spans'' (sg_span_count g)
            (Line_AddKeyDouble dc ''osnr'' (sg_osnr_db g)
            (Line_AddKeyDouble dc ''loss'' (sg_loss_db g)
            (Line_AddKeyU64 ''distance'' (unat (sg_distance_m g))
            (Line_AddKeyU64 ''runs'' (sg_channel_runs g)
            (Line_AddKeyToken ''profile'' (sg_profile g)
            (Line_AddU64 (sg_index g) ''segment'')))))))
      in if sg_ended_by_regeneration g
         then Line_AddKeyToken ''xc'' (ResourceKeyToString (sg_regeneration_resource g)) line
         else line)"

definition segspan_line :: "double_chars \<Rightarrow> nat \<Rightarrow> PlanSpanUse \<Rightarrow> string" where
  "segspan_line dc index u =
     (let line = Line_AddKeyU64 ''slot'' (su_first_slot u)
            (Line_AddKeyU64 ''cost'' (unat (su_cost u))
            (Line_AddKeyDouble dc ''osnr'' (su_osnr_db u)
            (Line_AddKeyDouble dc ''loss'' (su_loss_db u)
            (Line_AddKeyU64 ''len'' (unat (su_length_m u))
            (Line_AddKeyU64 ''rev'' (if su_reversed u then 1 else 0)
            (Line_AddKeyToken ''to'' (CanonicalText (su_to u))
            (Line_AddKeyToken ''from'' (CanonicalText (su_from u))
            (Line_AddKeyToken ''id'' (su_id u)
            (Line_AddU64 index ''segspan'')))))))))
      in if su_failure_domains u \<noteq> [] then Line_AddKeyRaw ''domains'' (join_commas (su_failure_domains u)) line
         else line)"

definition reservation_line :: "PlanReservation \<Rightarrow> string" where
  "reservation_line rv =
     Line_AddKeyU64 ''seg'' (rv_segment_index rv)
     (Line_AddKeyU64 ''width'' (width_slots (rv_channel rv))
     (Line_AddKeyU64 ''first'' (first_slot (rv_channel rv))
     (Line_AddKeyToken ''res'' (ResourceKeyToString (rv_resource rv)) ''reservation'')))"

definition assumption_line :: "string \<Rightarrow> PlanAssumption \<Rightarrow> string" where
  "assumption_line kw a =
     Line_AddKeyToken ''value'' (pa_value a)
     (Line_AddKeyToken ''field'' (pa_field a)
     (Line_AddKeyToken ''res'' (ResourceKeyToString (pa_resource a)) kw))"

definition exposure_line :: "FailureDomainExposure \<Rightarrow> string" where
  "exposure_line x =
     Line_AddKeyU64 ''limit'' (ex_limit x)
     (Line_AddKeyU64 ''count'' (ex_member_count x)
     (Line_AddKeyToken ''domain'' (ex_id x) ''exposure''))"

definition plan_lines :: "double_chars \<Rightarrow> PlanArtifact \<Rightarrow> bool \<Rightarrow> string list" where
  "plan_lines dc plan include_digest =
     [''OPP-PLAN '' @ FormatU64 (pl_format_version plan), Line_AddU64 (pl_rule_version plan) ''rule'',
      request_line plan, snapshot_line plan] @
     map binding_line (pl_bound_sources plan) @
     [endpoints_line plan, Line_AddKeyU64 ''width'' (pl_channel_width_slots plan) ''channel'', totals_line dc plan] @
     map step_line (pl_steps plan) @
     map (segment_line dc) (pl_segments plan) @
     concat (map (\<lambda>g. map (segspan_line dc (sg_index g)) (sg_spans g)) (pl_segments plan)) @
     map reservation_line (pl_reservations plan) @
     map (assumption_line ''capability'') (pl_capability_assumptions plan) @
     map (assumption_line ''quality'') (pl_quality_assumptions plan) @
     map exposure_line (pl_failure_domain_exposure plan) @
     (if include_digest then [Line_Add (ToHexImpl (pl_digest plan)) ''digest''] else [])"

definition PlanToText :: "double_chars \<Rightarrow> PlanArtifact \<Rightarrow> bool \<Rightarrow> string" where
  "PlanToText dc plan include_digest = concat (map (\<lambda>l. l @ [CHR 0x0A]) (plan_lines dc plan include_digest))"

definition DigestPayload :: "double_chars \<Rightarrow> PlanArtifact \<Rightarrow> string" where
  "DigestPayload dc plan = PlanToText dc plan False"

definition CanonicalBytes :: "double_chars \<Rightarrow> PlanArtifact \<Rightarrow> string" where
  "CanonicalBytes dc plan = PlanToText dc plan True"

definition kPlanDigestDomain :: string where
  "kPlanDigestDomain = ''OPP-PLAN-v1''"

definition plan_text_digest :: "double_chars \<Rightarrow> PlanArtifact \<Rightarrow> Digest256" where
  "plan_text_digest dc plan =
     Sha256_Finalize (Sha256_Update (bytes_of (DigestPayload dc plan))
       (Sha256_Update (bytes_of [CHR 0x0A]) (Sha256_Update (bytes_of kPlanDigestDomain) new_Sha256)))"

definition plan_text_seal :: "double_chars \<Rightarrow> PlanArtifact \<Rightarrow> Status" where
  "plan_text_seal dc plan =
     refuse_if (plan_text_digest dc plan \<noteq> pl_digest plan) IntegrityFailure ''plan digest does not match its content''"

section \<open>Reading one record\<close>

definition RequiredKeyToken :: "string list \<Rightarrow> nat \<Rightarrow> string \<Rightarrow> string expected" where
  "RequiredKeyToken tokens first key = and_then (FindKeyedField tokens first key) DecodeToken"

text \<open>A required raw field followed by the parse of its number.\<close>

definition field_u64 :: "string list \<Rightarrow> nat \<Rightarrow> string \<Rightarrow> nat expected" where
  "field_u64 tokens first key = and_then (RequiredRawField tokens first key) ParseU64"

definition field_u32 :: "string list \<Rightarrow> nat \<Rightarrow> string \<Rightarrow> nat expected" where
  "field_u32 tokens first key = and_then (RequiredRawField tokens first key) ParseU32"

definition field_u16 :: "string list \<Rightarrow> nat \<Rightarrow> string \<Rightarrow> nat expected" where
  "field_u16 tokens first key = and_then (RequiredRawField tokens first key) ParseU16"

definition field_double :: "double_chars \<Rightarrow> string list \<Rightarrow> nat \<Rightarrow> string \<Rightarrow> double expected" where
  "field_double dc tokens first key = and_then (RequiredRawField tokens first key) (ParseDouble dc)"

definition field_resource :: "string list \<Rightarrow> nat \<Rightarrow> string \<Rightarrow> ResourceKey expected" where
  "field_resource tokens first key = and_then (RequiredKeyToken tokens first key) ResourceKeyFromString"

definition field_id :: "string list \<Rightarrow> nat \<Rightarrow> string \<Rightarrow> string expected" where
  "field_id tokens first key = and_then (RequiredKeyToken tokens first key) ParseId"

text \<open>The comma loop of \<open>ParseDomainList\<close>: the pieces of the text, then each parsed in turn.\<close>

fun parse_ids :: "string list \<Rightarrow> string list expected" where
  "parse_ids [] = Inr []"
| "parse_ids (p # ps) = and_then (ParseId p) (\<lambda>i. and_then (parse_ids ps) (\<lambda>is. Inr (i # is)))"

definition ParseDomainList :: "string \<Rightarrow> FailureDomainId list expected" where
  "ParseDomainList text = (if text = [] then Inr [] else parse_ids (split_commas text))"

definition parse_request :: "string list \<Rightarrow> PlanArtifact \<Rightarrow> PlanArtifact expected" where
  "parse_request values plan =
     (if length values \<noteq> 3 then malformed ''request takes an id and a digest''
      else and_then (ParseId (values ! 1)) (\<lambda>i. and_then (Digest256_FromHex (values ! 2)) (\<lambda>d.
           Inr (plan\<lparr>pl_request_id := i, pl_request_digest := d\<rparr>))))"

definition parse_snapshot :: "string list \<Rightarrow> PlanArtifact \<Rightarrow> PlanArtifact expected" where
  "parse_snapshot values plan =
     (if length values \<noteq> 4 then malformed ''snapshot takes an id, a generation and a digest''
      else and_then (ParseId (values ! 1)) (\<lambda>i. and_then (ParseU64 (values ! 2)) (\<lambda>g.
           and_then (Digest256_FromHex (values ! 3)) (\<lambda>d.
           Inr (plan\<lparr>pl_snapshot_id := i, pl_snapshot_generation := of_nat g, pl_snapshot_digest := d\<rparr>)))))"

definition parse_binding :: "string list \<Rightarrow> PlanArtifact \<Rightarrow> PlanArtifact expected" where
  "parse_binding values plan =
     (if length values < 2 then malformed ''binding takes a source id''
      else and_then (ParseId (values ! 1)) (\<lambda>i. and_then (field_u64 values 2 ''gen'') (\<lambda>g.
           and_then (RequiredKeyToken values 2 ''contrib'') (\<lambda>c. and_then (Digest256_FromHex c) (\<lambda>d.
           Inr (plan\<lparr>pl_bound_sources := pl_bound_sources plan @
             [\<lparr>sb_source = i, sb_generation = of_nat g, sb_contribution = d\<rparr>]\<rparr>))))))"

definition parse_endpoints :: "string list \<Rightarrow> PlanArtifact \<Rightarrow> PlanArtifact expected" where
  "parse_endpoints values plan =
     and_then (RequiredKeyToken values 1 ''snode'') (\<lambda>snode. and_then (RequiredKeyToken values 1 ''sport'') (\<lambda>sport.
     and_then (RequiredKeyToken values 1 ''dnode'') (\<lambda>dnode. and_then (RequiredKeyToken values 1 ''dport'') (\<lambda>dport.
     and_then (ParseId snode) (\<lambda>sn. and_then (ParseId sport) (\<lambda>sp.
     and_then (ParseId dnode) (\<lambda>dn. and_then (ParseId dport) (\<lambda>dp.
     Inr (plan\<lparr>pl_source := PortKey sn sp, pl_destination := PortKey dn dp\<rparr>)))))))))"

definition parse_totals :: "double_chars \<Rightarrow> string list \<Rightarrow> PlanArtifact \<Rightarrow> PlanArtifact expected" where
  "parse_totals dc values plan =
     and_then (field_u64 values 1 ''cost'') (\<lambda>cost. and_then (field_u64 values 1 ''distance'') (\<lambda>distance.
     and_then (field_double dc values 1 ''loss'') (\<lambda>loss. and_then (field_u32 values 1 ''hops'') (\<lambda>hops.
     and_then (field_u32 values 1 ''regen'') (\<lambda>regen.
     Inr (plan\<lparr>pl_total_cost := of_nat cost, pl_total_distance_m := of_nat distance, pl_total_loss_db := loss,
               pl_hops := hops, pl_regenerations := regen\<rparr>))))))"

definition parse_step_kind :: "string \<Rightarrow> StepKind expected" where
  "parse_step_kind kind =
     (if kind = ''node'' then Inr StepNode else if kind = ''port'' then Inr StepPort
      else if kind = ''span'' then Inr StepSpan else if kind = ''crossconnect'' then Inr StepCrossConnect
      else malformed (''step kind '' @ [CHR 0x27] @ kind @ [CHR 0x27] @ '' is not recognised''))"

definition parse_step :: "string list \<Rightarrow> PlanArtifact \<Rightarrow> PlanArtifact expected" where
  "parse_step values plan =
     (if length values < 2 then malformed ''step takes an index''
      else and_then (ParseU32 (values ! 1)) (\<lambda>index.
           and_then (RequiredKeyToken values 2 ''kind'') (\<lambda>kind_text. and_then (parse_step_kind kind_text) (\<lambda>kind.
           and_then (field_u32 values 2 ''seg'') (\<lambda>segment. and_then (field_u32 values 2 ''reason'') (\<lambda>reason.
           and_then (field_u64 values 2 ''cost'') (\<lambda>cost. and_then (field_resource values 2 ''res'') (\<lambda>res.
           Inr (plan\<lparr>pl_steps := pl_steps plan @
             [\<lparr>ps_index = index, ps_kind = kind, ps_resource = res, ps_segment_index = segment,
               ps_reason_bits = of_nat reason, ps_cost = of_nat cost\<rparr>]\<rparr>)))))))))"

text \<open>The optional resource of a segment that ends by regeneration.\<close>

definition parse_segment_end :: "string list \<Rightarrow> (bool \<times> ResourceKey) expected" where
  "parse_segment_end values =
     and_then (RequiredKeyToken values 2 ''end'') (\<lambda>ending.
       if ending = ''regeneration''
       then and_then (field_resource values 2 ''xc'') (\<lambda>xc. Inr (True, xc))
       else if ending \<noteq> ''transparent'' then malformed ''segment end must be regeneration or transparent''
       else Inr (False, ResourceKey RNode []))"

definition parse_segment :: "double_chars \<Rightarrow> string list \<Rightarrow> PlanArtifact \<Rightarrow> PlanArtifact expected" where
  "parse_segment dc values plan =
     (if length values < 2 then malformed ''segment takes an index''
      else and_then (ParseU32 (values ! 1)) (\<lambda>index.
           and_then (field_id values 2 ''profile'') (\<lambda>profile. and_then (field_u32 values 2 ''runs'') (\<lambda>runs.
           and_then (field_u64 values 2 ''distance'') (\<lambda>distance. and_then (field_double dc values 2 ''loss'') (\<lambda>loss.
           and_then (field_double dc values 2 ''osnr'') (\<lambda>osnr. and_then (field_u32 values 2 ''spans'') (\<lambda>spans.
           and_then (parse_segment_end values) (\<lambda>(ended, xc).
           Inr (plan\<lparr>pl_segments := pl_segments plan @
             [\<lparr>sg_index = index, sg_profile = profile, sg_spans = [], sg_distance_m = of_nat distance,
               sg_loss_db = loss, sg_osnr_db = osnr, sg_span_count = spans, sg_channel_runs = runs,
               sg_ended_by_regeneration = ended, sg_regeneration_resource = xc\<rparr>]\<rparr>))))))))))"

text \<open>The lambda \<open>split\<close>: node and port around the first colon.\<close>

definition split_port :: "string \<Rightarrow> PortKey expected" where
  "split_port text =
     (case find_char (CHR '':'') text of
        None \<Rightarrow> malformed ''port key must be spelled node:port''
      | Some colon \<Rightarrow> and_then (ParseId (take colon text)) (\<lambda>node.
                      and_then (ParseId (drop (colon + 1) text)) (\<lambda>port. Inr (PortKey node port))))"

definition parse_rev :: "nat \<Rightarrow> bool expected" where
  "parse_rev rev_value = (if rev_value > 1 then malformed ''rev must be 0 or 1'' else Inr (rev_value = 1))"

text \<open>The optional field \<open>domains\<close>: any failure to find it leaves the list empty.\<close>

definition field_domains :: "string list \<Rightarrow> FailureDomainId list expected" where
  "field_domains values =
     (case FindKeyedField values 2 ''domains'' of Inr text \<Rightarrow> ParseDomainList text | Inl _ \<Rightarrow> Inr [])"

definition parse_span_use :: "double_chars \<Rightarrow> string list \<Rightarrow> PlanSpanUse expected" where
  "parse_span_use dc values =
     and_then (field_id values 2 ''id'') (\<lambda>i.
     and_then (RequiredKeyToken values 2 ''from'') (\<lambda>from_text. and_then (RequiredKeyToken values 2 ''to'') (\<lambda>to_text.
     and_then (split_port from_text) (\<lambda>src. and_then (split_port to_text) (\<lambda>dst.
     and_then (and_then (field_u32 values 2 ''rev'') parse_rev) (\<lambda>reversed.
     and_then (field_u64 values 2 ''len'') (\<lambda>len. and_then (field_double dc values 2 ''loss'') (\<lambda>loss.
     and_then (field_double dc values 2 ''osnr'') (\<lambda>osnr. and_then (field_u64 values 2 ''cost'') (\<lambda>cost.
     and_then (field_u16 values 2 ''slot'') (\<lambda>slot. and_then (field_domains values) (\<lambda>domains.
     Inr \<lparr>su_id = i, su_from = src, su_to = dst, su_reversed = reversed, su_length_m = of_nat len, su_loss_db = loss,
          su_osnr_db = osnr, su_cost = of_nat cost, su_first_slot = slot, su_failure_domains = domains\<rparr>))))))))))))"

definition parse_segspan :: "double_chars \<Rightarrow> bool \<Rightarrow> string list \<Rightarrow> PlanArtifact \<Rightarrow> PlanArtifact expected" where
  "parse_segspan dc have_segment values plan =
     (if length values < 2 then malformed ''segspan takes a segment index''
      else and_then (ParseU32 (values ! 1)) (\<lambda>index.
           if \<not> have_segment \<or> index \<ge> length (pl_segments plan)
           then malformed ''segspan appears before its segment record''
           else and_then (parse_span_use dc values) (\<lambda>u.
                let g = pl_segments plan ! index
                in Inr (plan\<lparr>pl_segments := (pl_segments plan)[index := g\<lparr>sg_spans := sg_spans g @ [u]\<rparr>]\<rparr>))))"

definition parse_reservation :: "string list \<Rightarrow> PlanArtifact \<Rightarrow> PlanArtifact expected" where
  "parse_reservation values plan =
     and_then (field_resource values 1 ''res'') (\<lambda>res. and_then (field_u16 values 1 ''first'') (\<lambda>first.
     and_then (field_u16 values 1 ''width'') (\<lambda>width. and_then (field_u32 values 1 ''seg'') (\<lambda>segment.
     Inr (plan\<lparr>pl_reservations := pl_reservations plan @
       [\<lparr>rv_resource = res, rv_channel = \<lparr>first_slot = first, width_slots = width\<rparr>, rv_segment_index = segment\<rparr>]\<rparr>)))))"

definition parse_assumption :: "string list \<Rightarrow> PlanAssumption expected" where
  "parse_assumption values =
     and_then (field_resource values 1 ''res'') (\<lambda>res. and_then (RequiredKeyToken values 1 ''field'') (\<lambda>field.
     and_then (RequiredKeyToken values 1 ''value'') (\<lambda>v.
     Inr \<lparr>pa_resource = res, pa_field = field, pa_value = v\<rparr>)))"

definition parse_exposure :: "string list \<Rightarrow> PlanArtifact \<Rightarrow> PlanArtifact expected" where
  "parse_exposure values plan =
     and_then (field_id values 1 ''domain'') (\<lambda>domain. and_then (field_u32 values 1 ''count'') (\<lambda>n.
     and_then (field_u32 values 1 ''limit'') (\<lambda>limit.
     Inr (plan\<lparr>pl_failure_domain_exposure := pl_failure_domain_exposure plan @
       [\<lparr>ex_id = domain, ex_member_count = n, ex_limit = limit\<rparr>]\<rparr>))))"

section \<open>The parser\<close>

record PlanParse =
  pp_plan :: PlanArtifact
  pp_header_seen :: bool
  pp_digest_seen :: bool
  pp_have_segment :: bool

definition empty_plan :: PlanArtifact where
  "empty_plan =
     \<lparr>pl_format_version = 1, pl_rule_version = 1, pl_request_id = [], pl_request_digest = zero_digest,
      pl_snapshot_id = [], pl_snapshot_generation = 0, pl_snapshot_digest = zero_digest, pl_bound_sources = [],
      pl_source = PortKey [] [], pl_destination = PortKey [] [], pl_steps = [], pl_segments = [],
      pl_reservations = [], pl_capability_assumptions = [], pl_quality_assumptions = [],
      pl_failure_domain_exposure = [], pl_channel_width_slots = 1, pl_total_cost = 0, pl_total_distance_m = 0,
      pl_total_loss_db = Fin 0, pl_hops = 0, pl_regenerations = 0, pl_digest = zero_digest\<rparr>"

definition parse_header :: "nat \<Rightarrow> string list \<Rightarrow> PlanParse \<Rightarrow> PlanParse expected" where
  "parse_header n values st =
     (if length values \<noteq> 2 \<or> values ! 0 \<noteq> ''OPP-PLAN''
      then malformed ''plan must start with the OPP-PLAN magic line''
      else case ParseU32 (values ! 1) of
             Inl e \<Rightarrow> Inl (fail_line n e)
           | Inr version \<Rightarrow>
               if version \<noteq> kPlanFormatVersion
               then Inl (Failure Unsupported (''plan format revision '' @ values ! 1 @ '' is not supported by this runtime''))
               else Inr (st\<lparr>pp_plan := (pp_plan st)\<lparr>pl_format_version := version\<rparr>, pp_header_seen := True\<rparr>))"

definition parse_rule :: "nat \<Rightarrow> string list \<Rightarrow> PlanArtifact \<Rightarrow> PlanArtifact expected" where
  "parse_rule n values plan =
     (if length values \<noteq> 2 then Inl (fail_line n (Failure MalformedInput ''rule takes one value''))
      else case ParseU32 (values ! 1) of
             Inl e \<Rightarrow> Inl (fail_line n e)
           | Inr version \<Rightarrow>
               if version \<noteq> kPlanningRuleVersion
               then Inl (Failure Unsupported (''plan was produced by planning rule revision '' @ values ! 1 @
                         '', which this runtime does not reproduce''))
               else Inr (plan\<lparr>pl_rule_version := version\<rparr>))"

definition parse_digest :: "string list \<Rightarrow> PlanArtifact \<Rightarrow> PlanArtifact expected" where
  "parse_digest values plan =
     (if length values \<noteq> 2 then malformed ''digest takes one value''
      else and_then (Digest256_FromHex (values ! 1)) (\<lambda>d. Inr (plan\<lparr>pl_digest := d\<rparr>)))"

text \<open>The records whose failures all go through \<open>fail\<close>, by keyword.\<close>

definition parse_record :: "double_chars \<Rightarrow> bool \<Rightarrow> string list \<Rightarrow> PlanArtifact \<Rightarrow> PlanArtifact expected" where
  "parse_record dc have_segment values plan =
     (let keyword = values ! 0
      in if keyword = ''digest'' then parse_digest values plan
         else if keyword = ''request'' then parse_request values plan
         else if keyword = ''snapshot'' then parse_snapshot values plan
         else if keyword = ''binding'' then parse_binding values plan
         else if keyword = ''endpoints'' then parse_endpoints values plan
         else if keyword = ''channel''
         then and_then (field_u16 values 1 ''width'') (\<lambda>width. Inr (plan\<lparr>pl_channel_width_slots := width\<rparr>))
         else if keyword = ''totals'' then parse_totals dc values plan
         else if keyword = ''step'' then parse_step values plan
         else if keyword = ''segment'' then parse_segment dc values plan
         else if keyword = ''segspan'' then parse_segspan dc have_segment values plan
         else if keyword = ''reservation'' then parse_reservation values plan
         else if keyword = ''capability''
         then and_then (parse_assumption values)
                (\<lambda>a. Inr (plan\<lparr>pl_capability_assumptions := pl_capability_assumptions plan @ [a]\<rparr>))
         else if keyword = ''quality''
         then and_then (parse_assumption values)
                (\<lambda>a. Inr (plan\<lparr>pl_quality_assumptions := pl_quality_assumptions plan @ [a]\<rparr>))
         else if keyword = ''exposure'' then parse_exposure values plan
         else malformed (''unknown plan record '' @ [CHR 0x27] @ keyword @ [CHR 0x27]))"

definition parse_plan_line :: "double_chars \<Rightarrow> nat \<Rightarrow> string list \<Rightarrow> PlanParse \<Rightarrow> PlanParse expected" where
  "parse_plan_line dc n values st =
     (if \<not> pp_header_seen st then parse_header n values st
      else if pp_digest_seen st then malformed ''plan content appears after the digest line''
      else if values ! 0 = ''rule''
      then and_then (parse_rule n values (pp_plan st)) (\<lambda>plan. Inr (st\<lparr>pp_plan := plan\<rparr>))
      else case parse_record dc (pp_have_segment st) values (pp_plan st) of
             Inl e \<Rightarrow> Inl (fail_line n e)
           | Inr plan \<Rightarrow> Inr (st\<lparr>pp_plan := plan,
                                pp_digest_seen := (values ! 0 = ''digest''),
                                pp_have_segment := pp_have_segment st \<or> values ! 0 = ''segment''\<rparr>))"

definition parse_plan_lines :: "double_chars \<Rightarrow> nat \<Rightarrow> string list \<Rightarrow> PlanParse \<Rightarrow> PlanParse expected" where
  "parse_plan_lines dc = parse_lines (parse_plan_line dc)"

definition kMaxPlanArtifactBytes :: nat where "kMaxPlanArtifactBytes = 8 * 1024 * 1024"

definition dense_indices :: "nat list \<Rightarrow> bool" where
  "dense_indices is = (is = [0 ..< length is])"

definition ParsePlanArtifact :: "double_chars \<Rightarrow> string \<Rightarrow> PlanArtifact expected" where
  "ParsePlanArtifact dc bs =
     (if length bs > kMaxPlanArtifactBytes
      then Inl (Failure LimitExceeded ''plan artifact exceeds the permitted maximum size'')
      else and_then (parse_plan_lines dc 1 (split_lines bs)
                      \<lparr>pp_plan = empty_plan, pp_header_seen = False, pp_digest_seen = False, pp_have_segment = False\<rparr>)
             (\<lambda>st. let plan = pp_plan st
                   in if \<not> pp_header_seen st then malformed ''plan is empty''
                      else if \<not> pp_digest_seen st then malformed ''plan is missing its digest line''
                      else if pl_steps plan = [] then malformed ''plan declares no steps''
                      else if pl_segments plan = [] then malformed ''plan declares no transparent segment''
                      else if \<not> dense_indices (map ps_index (pl_steps plan))
                      then malformed ''plan step indices must be dense and ordered from zero''
                      else if \<not> dense_indices (map sg_index (pl_segments plan))
                      then malformed ''plan segment indices must be dense and ordered from zero''
                      else if failed (plan_text_seal dc plan) then Inl (plan_text_seal dc plan)
                      else Inr plan))"

end
