(* ===== verification/Plan_Text_Props.thy ===== *)
theory Plan_Text_Props
  imports Plan_Text
begin

text \<open>
  Reading back a plan: every line of \<open>PlanToText\<close> is the join of a token list, every token list is
  read by the parser into the record it was written from, and the lines in sequence rebuild the plan.
\<close>

section \<open>Lines as token lists\<close>

definition binding_tokens :: "SourceBinding \<Rightarrow> string list" where
  "binding_tokens b = [''binding'', EncodeToken (sb_source b), keyed ''gen'' (FormatU64 (unat (sb_generation b))),
     keyed ''contrib'' (EncodeToken (ToHexImpl (sb_contribution b)))]"

definition step_tokens :: "PlanStep \<Rightarrow> string list" where
  "step_tokens s = [''step'', FormatU64 (ps_index s), keyed ''kind'' (EncodeToken (StepKindName (ps_kind s))),
     keyed ''seg'' (FormatU64 (ps_segment_index s)), keyed ''reason'' (FormatU64 (unat (ps_reason_bits s))),
     keyed ''cost'' (FormatU64 (unat (ps_cost s))), keyed ''res'' (EncodeToken (ResourceKeyToString (ps_resource s)))]"

definition segment_tokens :: "double_chars \<Rightarrow> PlanSegment \<Rightarrow> string list" where
  "segment_tokens dc g =
     [''segment'', FormatU64 (sg_index g), keyed ''profile'' (EncodeToken (sg_profile g)),
      keyed ''runs'' (FormatU64 (sg_channel_runs g)), keyed ''distance'' (FormatU64 (unat (sg_distance_m g))),
      keyed ''loss'' (double_text dc (sg_loss_db g)), keyed ''osnr'' (double_text dc (sg_osnr_db g)),
      keyed ''spans'' (FormatU64 (sg_span_count g)),
      keyed ''end'' (EncodeToken (if sg_ended_by_regeneration g then ''regeneration'' else ''transparent''))] @
     (if sg_ended_by_regeneration g
      then [keyed ''xc'' (EncodeToken (ResourceKeyToString (sg_regeneration_resource g)))] else [])"

definition segspan_tokens :: "double_chars \<Rightarrow> nat \<Rightarrow> PlanSpanUse \<Rightarrow> string list" where
  "segspan_tokens dc i u =
     [''segspan'', FormatU64 i, keyed ''id'' (EncodeToken (su_id u)),
      keyed ''from'' (EncodeToken (CanonicalText (su_from u))), keyed ''to'' (EncodeToken (CanonicalText (su_to u))),
      keyed ''rev'' (FormatU64 (if su_reversed u then 1 else 0)), keyed ''len'' (FormatU64 (unat (su_length_m u))),
      keyed ''loss'' (double_text dc (su_loss_db u)), keyed ''osnr'' (double_text dc (su_osnr_db u)),
      keyed ''cost'' (FormatU64 (unat (su_cost u))), keyed ''slot'' (FormatU64 (su_first_slot u))] @
     (if su_failure_domains u \<noteq> [] then [keyed ''domains'' (join_commas (su_failure_domains u))] else [])"

definition reservation_tokens :: "PlanReservation \<Rightarrow> string list" where
  "reservation_tokens r =
     [''reservation'', keyed ''res'' (EncodeToken (ResourceKeyToString (rv_resource r))),
      keyed ''first'' (FormatU64 (first_slot (rv_channel r))), keyed ''width'' (FormatU64 (width_slots (rv_channel r))),
      keyed ''seg'' (FormatU64 (rv_segment_index r))]"

definition assumption_tokens :: "string \<Rightarrow> PlanAssumption \<Rightarrow> string list" where
  "assumption_tokens kw a =
     [kw, keyed ''res'' (EncodeToken (ResourceKeyToString (pa_resource a))),
      keyed ''field'' (EncodeToken (pa_field a)), keyed ''value'' (EncodeToken (pa_value a))]"

definition exposure_tokens :: "FailureDomainExposure \<Rightarrow> string list" where
  "exposure_tokens x =
     [''exposure'', keyed ''domain'' (EncodeToken (ex_id x)), keyed ''count'' (FormatU64 (ex_member_count x)),
      keyed ''limit'' (FormatU64 (ex_limit x))]"

definition head_tokens :: "PlanArtifact \<Rightarrow> string list list" where
  "head_tokens plan =
     [[''OPP-PLAN'', FormatU64 (pl_format_version plan)], [''rule'', FormatU64 (pl_rule_version plan)],
      [''request'', EncodeToken (pl_request_id plan), EncodeToken (ToHexImpl (pl_request_digest plan))],
      [''snapshot'', EncodeToken (pl_snapshot_id plan), FormatU64 (unat (pl_snapshot_generation plan)),
       EncodeToken (ToHexImpl (pl_snapshot_digest plan))]]"

definition middle_tokens :: "double_chars \<Rightarrow> PlanArtifact \<Rightarrow> string list list" where
  "middle_tokens dc plan =
     [[''endpoints'', keyed ''snode'' (EncodeToken (pk_node (pl_source plan))),
       keyed ''sport'' (EncodeToken (pk_port (pl_source plan))),
       keyed ''dnode'' (EncodeToken (pk_node (pl_destination plan))),
       keyed ''dport'' (EncodeToken (pk_port (pl_destination plan)))],
      [''channel'', keyed ''width'' (FormatU64 (pl_channel_width_slots plan))],
      [''totals'', keyed ''cost'' (FormatU64 (unat (pl_total_cost plan))),
       keyed ''distance'' (FormatU64 (unat (pl_total_distance_m plan))),
       keyed ''loss'' (double_text dc (pl_total_loss_db plan)), keyed ''hops'' (FormatU64 (pl_hops plan)),
       keyed ''regen'' (FormatU64 (pl_regenerations plan))]]"

definition segspans_tokens :: "double_chars \<Rightarrow> PlanSegment list \<Rightarrow> string list list" where
  "segspans_tokens dc gs = concat (map (\<lambda>g. map (segspan_tokens dc (sg_index g)) (sg_spans g)) gs)"

definition plan_tokens :: "double_chars \<Rightarrow> PlanArtifact \<Rightarrow> string list list" where
  "plan_tokens dc plan =
     head_tokens plan @ map binding_tokens (pl_bound_sources plan) @ middle_tokens dc plan @
     map step_tokens (pl_steps plan) @ map (segment_tokens dc) (pl_segments plan) @
     segspans_tokens dc (pl_segments plan) @ map reservation_tokens (pl_reservations plan) @
     map (assumption_tokens ''capability'') (pl_capability_assumptions plan) @
     map (assumption_tokens ''quality'') (pl_quality_assumptions plan) @
     map exposure_tokens (pl_failure_domain_exposure plan) @
     [[''digest'', EncodeToken (ToHexImpl (pl_digest plan))]]"

lemma binding_line_tokens: "binding_line b = join_tokens (binding_tokens b)"
  by (simp add: binding_line_def binding_tokens_def line_ops)

lemma step_line_tokens: "step_line s = join_tokens (step_tokens s)"
  by (simp add: step_line_def step_tokens_def line_ops)

lemma segment_line_tokens: "segment_line dc g = join_tokens (segment_tokens dc g)"
  by (simp add: segment_line_def segment_tokens_def line_ops Let_def)

lemma segspan_line_tokens: "segspan_line dc i u = join_tokens (segspan_tokens dc i u)"
  by (simp add: segspan_line_def segspan_tokens_def line_ops Let_def)

lemma reservation_line_tokens: "reservation_line r = join_tokens (reservation_tokens r)"
  by (simp add: reservation_line_def reservation_tokens_def line_ops)

lemma capability_line_tokens: "assumption_line ''capability'' a = join_tokens (assumption_tokens ''capability'' a)"
  by (simp add: assumption_line_def assumption_tokens_def line_ops)

lemma quality_line_tokens: "assumption_line ''quality'' a = join_tokens (assumption_tokens ''quality'' a)"
  by (simp add: assumption_line_def assumption_tokens_def line_ops)

lemma exposure_line_tokens: "exposure_line x = join_tokens (exposure_tokens x)"
  by (simp add: exposure_line_def exposure_tokens_def line_ops)

lemma plan_lines_tokens: "plan_lines dc plan True = map join_tokens (plan_tokens dc plan)"
proof -
  have head: "''OPP-PLAN '' @ t = join_tokens [''OPP-PLAN'', t]" for t by (simp add: join_tokens.simps)
  have spans: "segspan_line dc i = (\<lambda>u. join_tokens (segspan_tokens dc i u))" for i
    by (rule ext) (rule segspan_line_tokens)
  show ?thesis
    unfolding plan_lines_def head spans
    by (simp add: plan_tokens_def head_tokens_def middle_tokens_def segspans_tokens_def
        request_line_def snapshot_line_def endpoints_line_def totals_line_def line_ops
        binding_line_tokens step_line_tokens segment_line_tokens reservation_line_tokens
        capability_line_tokens quality_line_tokens exposure_line_tokens map_concat comp_def)
qed

section \<open>Fields\<close>

lemma ResourceKeyFromString_To [simp]:
  "rk_text k \<noteq> [] \<Longrightarrow> ResourceKeyFromString (ResourceKeyToString k) = Inr k"
  using find_char_append [OF ResourceKindName_no_colon, of "rk_kind k" "rk_text k"]
  by (simp add: ResourceKeyToString_def ResourceKeyFromString_def)

lemma split_port_CanonicalText:
  "IsValidIdText (pk_node k) \<Longrightarrow> IsValidIdText (pk_port k) \<Longrightarrow> CHR '':'' \<notin> set (pk_node k) \<Longrightarrow>
   split_port (CanonicalText k) = Inr k"
  using find_char_append [of "CHR '':''" "pk_node k" "pk_port k"]
  by (simp add: split_port_def CanonicalText_def ParseId_valid)

end
