(* ===== verification/Plan_Round_Trip.thy ===== *)
theory Plan_Round_Trip
  imports Plan_Text_Props
begin

text \<open>
  The round trip of the plan text: \<open>ParsePlanArtifact (CanonicalBytes plan)\<close> is \<open>plan\<close>, for every
  sealed plan whose fields are in the grammar and whose lines are within the bounds of the splitter.
\<close>

section \<open>Reading a sequence of lines\<close>

abbreviation reads :: "double_chars \<Rightarrow> PlanParse \<Rightarrow> string list \<Rightarrow> PlanParse \<Rightarrow> bool" where
  "reads dc \<equiv> line_reads (parse_plan_line dc)"

abbreviation reads_all :: "double_chars \<Rightarrow> PlanParse \<Rightarrow> string list list \<Rightarrow> PlanParse \<Rightarrow> bool" where
  "reads_all dc \<equiv> lines_read (parse_plan_line dc)"

abbreviation reading :: "PlanArtifact \<Rightarrow> bool \<Rightarrow> PlanParse" where
  "reading p hs \<equiv> \<lparr>pp_plan = p, pp_header_seen = True, pp_digest_seen = False, pp_have_segment = hs\<rparr>"

lemma reads_record:
  assumes "readable (kw # ts)" "kw \<noteq> ''rule''" "kw \<noteq> ''digest''" "parse_record dc hs (kw # ts) p = Inr p'"
  shows "reads dc (reading p hs) (kw # ts) (reading p' (hs \<or> kw = ''segment''))"
  using assms by (simp add: line_reads_def parse_plan_line_def)

lemma reads_map:
  assumes "\<And>x p. x \<in> set xs \<Longrightarrow> reads dc (reading p hs) (tok x) (reading (upd x p) hs)"
  shows "reads_all dc (reading p hs) (map tok xs) (reading (fold upd xs p) hs)"
  using assms by (rule lines_read_map [where wrap = "\<lambda>p. reading p hs"])

section \<open>Fields in the grammar\<close>

definition binding_ok :: "SourceBinding \<Rightarrow> bool" where
  "binding_ok b \<longleftrightarrow> IsValidIdText (sb_source b) \<and> length (sb_contribution b) = 32"

definition step_ok :: "PlanStep \<Rightarrow> bool" where
  "step_ok s \<longleftrightarrow> ps_index s < 2 ^ 32 \<and> ps_segment_index s < 2 ^ 32 \<and> rk_text (ps_resource s) \<noteq> []"

definition segment_ok :: "double_chars \<Rightarrow> PlanSegment \<Rightarrow> bool" where
  "segment_ok dc g \<longleftrightarrow> sg_index g < 2 ^ 32 \<and> IsValidIdText (sg_profile g) \<and> sg_channel_runs g < 2 ^ 32 \<and>
     exact_double dc (sg_loss_db g) \<and> exact_double dc (sg_osnr_db g) \<and> sg_span_count g < 2 ^ 32 \<and>
     (if sg_ended_by_regeneration g then rk_text (sg_regeneration_resource g) \<noteq> []
      else sg_regeneration_resource g = ResourceKey RNode [])"

text \<open>
  The two ends of a span are written \<open>node:port\<close> and read back by cutting at the first colon, so the
  node of a span end must not contain one, although the identifier alphabet allows it.
\<close>

definition end_ok :: "PortKey \<Rightarrow> bool" where
  "end_ok k \<longleftrightarrow> IsValidIdText (pk_node k) \<and> IsValidIdText (pk_port k) \<and> CHR '':'' \<notin> set (pk_node k)"

definition span_use_ok :: "double_chars \<Rightarrow> PlanSpanUse \<Rightarrow> bool" where
  "span_use_ok dc u \<longleftrightarrow> IsValidIdText (su_id u) \<and> end_ok (su_from u) \<and> end_ok (su_to u) \<and>
     exact_double dc (su_loss_db u) \<and> exact_double dc (su_osnr_db u) \<and> su_first_slot u < 2 ^ 16 \<and>
     list_all IsValidIdText (su_failure_domains u)"

definition reservation_ok :: "PlanReservation \<Rightarrow> bool" where
  "reservation_ok r \<longleftrightarrow> rk_text (rv_resource r) \<noteq> [] \<and> first_slot (rv_channel r) < 2 ^ 16 \<and>
     width_slots (rv_channel r) < 2 ^ 16 \<and> rv_segment_index r < 2 ^ 32"

definition exposure_ok :: "FailureDomainExposure \<Rightarrow> bool" where
  "exposure_ok x \<longleftrightarrow> IsValidIdText (ex_id x) \<and> ex_member_count x < 2 ^ 32 \<and> ex_limit x < 2 ^ 32"

definition plan_in_grammar :: "double_chars \<Rightarrow> PlanArtifact \<Rightarrow> bool" where
  "plan_in_grammar dc p \<longleftrightarrow>
     pl_format_version p = kPlanFormatVersion \<and> pl_rule_version p = kPlanningRuleVersion \<and>
     IsValidIdText (pl_request_id p) \<and> length (pl_request_digest p) = 32 \<and>
     IsValidIdText (pl_snapshot_id p) \<and> length (pl_snapshot_digest p) = 32 \<and>
     list_all binding_ok (pl_bound_sources p) \<and>
     IsValidIdText (pk_node (pl_source p)) \<and> IsValidIdText (pk_port (pl_source p)) \<and>
     IsValidIdText (pk_node (pl_destination p)) \<and> IsValidIdText (pk_port (pl_destination p)) \<and>
     pl_channel_width_slots p < 2 ^ 16 \<and> exact_double dc (pl_total_loss_db p) \<and>
     pl_hops p < 2 ^ 32 \<and> pl_regenerations p < 2 ^ 32 \<and>
     pl_steps p \<noteq> [] \<and> list_all step_ok (pl_steps p) \<and> dense_indices (map ps_index (pl_steps p)) \<and>
     pl_segments p \<noteq> [] \<and> list_all (segment_ok dc) (pl_segments p) \<and> dense_indices (map sg_index (pl_segments p)) \<and>
     list_all (\<lambda>g. list_all (span_use_ok dc) (sg_spans g)) (pl_segments p) \<and>
     list_all reservation_ok (pl_reservations p) \<and>
     list_all (\<lambda>a. rk_text (pa_resource a) \<noteq> []) (pl_capability_assumptions p) \<and>
     list_all (\<lambda>a. rk_text (pa_resource a) \<noteq> []) (pl_quality_assumptions p) \<and>
     list_all exposure_ok (pl_failure_domain_exposure p) \<and> length (pl_digest p) = 32"

text \<open>The bounds of the splitter on every line, and of the parser on the whole text.\<close>

definition plan_within_bounds :: "double_chars \<Rightarrow> PlanArtifact \<Rightarrow> bool" where
  "plan_within_bounds dc p \<longleftrightarrow>
     list_all line_fits (plan_tokens dc p) \<and> length (CanonicalBytes dc p) \<le> kMaxPlanArtifactBytes"

section \<open>Each record kind\<close>

lemmas record_defs = parse_record_def field_u64_def field_u32_def field_u16_def field_double_def
  field_resource_def field_id_def RequiredKeyToken_def

lemma fits_token: "line_fits ts \<Longrightarrow> t \<in> set ts \<Longrightarrow> length t \<le> kMaxTokenBytes"
  by (simp add: line_fits_def list_all_iff)

lemma fits_decode:
  "line_fits ts \<Longrightarrow> keyed k (EncodeToken v) \<in> set ts \<Longrightarrow> DecodeToken (EncodeToken v) = Inr v"
  using fits_token DecodeToken_fits by blast

text \<open>A record is read when its tokens are plain, fit, and parse to the updated plan.\<close>

lemma reads_tokens:
  assumes "ts \<noteq> []" "hd ts \<notin> {''rule'', ''digest'', ''segment''}"
    and "list_all plain_token ts" "line_fits ts" "parse_record dc hs ts p = Inr p'"
  shows "reads dc (reading p hs) ts (reading p' hs)"
  using reads_record [of "hd ts" "tl ts" dc hs p p'] assms by (auto simp: readable_def)

lemma reads_binding:
  assumes "binding_ok b" "line_fits (binding_tokens b)"
  shows "reads dc (reading p hs) (binding_tokens b) (reading (p\<lparr>pl_bound_sources := pl_bound_sources p @ [b]\<rparr>) hs)"
proof (rule reads_tokens [OF _ _ _ assms(2)])
  show "parse_record dc hs (binding_tokens b) p = Inr (p\<lparr>pl_bound_sources := pl_bound_sources p @ [b]\<rparr>)"
    using assms(1)
    by (simp add: record_defs parse_binding_def binding_tokens_def binding_ok_def field_lookup ParseId_valid)
qed (simp_all add: binding_tokens_def is_blank_def)

lemma parse_step_kind_name [simp]: "parse_step_kind (StepKindName k) = Inr k"
  by (cases k) (simp_all add: parse_step_kind_def)

lemma reads_step:
  assumes "step_ok s" "line_fits (step_tokens s)"
  shows "reads dc (reading p hs) (step_tokens s) (reading (p\<lparr>pl_steps := pl_steps p @ [s]\<rparr>) hs)"
proof (rule reads_tokens [OF _ _ _ assms(2)])
  have "DecodeToken (EncodeToken (StepKindName (ps_kind s))) = Inr (StepKindName (ps_kind s))"
    "DecodeToken (EncodeToken (ResourceKeyToString (ps_resource s))) = Inr (ResourceKeyToString (ps_resource s))"
    by (auto intro!: fits_decode [OF assms(2)] simp: step_tokens_def)
  with assms(1) show "parse_record dc hs (step_tokens s) p = Inr (p\<lparr>pl_steps := pl_steps p @ [s]\<rparr>)"
    by (simp add: record_defs parse_step_def step_tokens_def step_ok_def field_lookup)
qed (simp_all add: step_tokens_def is_blank_def)

lemma reads_reservation:
  assumes "reservation_ok r" "line_fits (reservation_tokens r)"
  shows "reads dc (reading p hs) (reservation_tokens r) (reading (p\<lparr>pl_reservations := pl_reservations p @ [r]\<rparr>) hs)"
proof (rule reads_tokens [OF _ _ _ assms(2)])
  have "DecodeToken (EncodeToken (ResourceKeyToString (rv_resource r))) = Inr (ResourceKeyToString (rv_resource r))"
    by (auto intro!: fits_decode [OF assms(2)] simp: reservation_tokens_def)
  with assms(1) show "parse_record dc hs (reservation_tokens r) p = Inr (p\<lparr>pl_reservations := pl_reservations p @ [r]\<rparr>)"
    by (simp add: record_defs parse_reservation_def reservation_tokens_def reservation_ok_def field_lookup)
qed (simp_all add: reservation_tokens_def is_blank_def)

lemma parse_assumption_tokens:
  assumes "rk_text (pa_resource a) \<noteq> []" "line_fits (assumption_tokens kw a)"
  shows "parse_assumption (assumption_tokens kw a) = Inr a"
proof -
  have "DecodeToken (EncodeToken (ResourceKeyToString (pa_resource a))) = Inr (ResourceKeyToString (pa_resource a))"
    "DecodeToken (EncodeToken (pa_field a)) = Inr (pa_field a)" "DecodeToken (EncodeToken (pa_value a)) = Inr (pa_value a)"
    by (auto intro!: fits_decode [OF assms(2)] simp: assumption_tokens_def)
  with assms(1) show ?thesis
    by (simp add: record_defs parse_assumption_def assumption_tokens_def field_lookup)
qed

lemma reads_capability:
  assumes "rk_text (pa_resource a) \<noteq> []" "line_fits (assumption_tokens ''capability'' a)"
  shows "reads dc (reading p hs) (assumption_tokens ''capability'' a)
    (reading (p\<lparr>pl_capability_assumptions := pl_capability_assumptions p @ [a]\<rparr>) hs)"
  using parse_assumption_tokens [OF assms]
  by (intro reads_tokens [OF _ _ _ assms(2)]) (simp_all add: parse_record_def assumption_tokens_def is_blank_def)

lemma reads_quality:
  assumes "rk_text (pa_resource a) \<noteq> []" "line_fits (assumption_tokens ''quality'' a)"
  shows "reads dc (reading p hs) (assumption_tokens ''quality'' a)
    (reading (p\<lparr>pl_quality_assumptions := pl_quality_assumptions p @ [a]\<rparr>) hs)"
  using parse_assumption_tokens [OF assms]
  by (intro reads_tokens [OF _ _ _ assms(2)]) (simp_all add: parse_record_def assumption_tokens_def is_blank_def)

lemma reads_exposure:
  assumes "exposure_ok x" "line_fits (exposure_tokens x)"
  shows "reads dc (reading p hs) (exposure_tokens x)
    (reading (p\<lparr>pl_failure_domain_exposure := pl_failure_domain_exposure p @ [x]\<rparr>) hs)"
proof (rule reads_tokens [OF _ _ _ assms(2)])
  show "parse_record dc hs (exposure_tokens x) p =
      Inr (p\<lparr>pl_failure_domain_exposure := pl_failure_domain_exposure p @ [x]\<rparr>)"
    using assms(1)
    by (simp add: record_defs parse_exposure_def exposure_tokens_def exposure_ok_def field_lookup ParseId_valid)
qed (simp_all add: exposure_tokens_def is_blank_def)

lemma reads_segment:
  assumes "segment_ok dc g" "line_fits (segment_tokens dc g)"
  shows "reads dc (reading p hs) (segment_tokens dc g)
    (reading (p\<lparr>pl_segments := pl_segments p @ [g\<lparr>sg_spans := []\<rparr>]\<rparr>) True)"
proof -
  let ?res = "ResourceKeyToString (sg_regeneration_resource g)"
  let ?ending = "if sg_ended_by_regeneration g then ''regeneration'' else ''transparent''"
  have ending: "DecodeToken (EncodeToken ?ending) = Inr ?ending"
    by (rule DecodeToken_EncodeToken) (simp add: kMaxTokenBytes_def)
  have xc: "sg_ended_by_regeneration g \<Longrightarrow> DecodeToken (EncodeToken ?res) = Inr ?res"
    by (rule fits_decode [OF assms(2), of "''xc''"]) (simp add: segment_tokens_def)
  have "parse_record dc hs (segment_tokens dc g) p = Inr (p\<lparr>pl_segments := pl_segments p @ [g\<lparr>sg_spans := []\<rparr>]\<rparr>)"
  proof (cases "sg_ended_by_regeneration g")
    case True
    with assms(1) ending xc show ?thesis
      by (simp add: record_defs parse_segment_def parse_segment_end_def segment_tokens_def segment_ok_def field_lookup
          ParseId_valid)
  next
    case False
    with assms(1) ending show ?thesis
      by (simp add: record_defs parse_segment_def parse_segment_end_def segment_tokens_def segment_ok_def field_lookup
          ParseId_valid)
  qed
  moreover have "readable (segment_tokens dc g)"
    using assms by (simp add: readable_def segment_tokens_def segment_ok_def is_blank_def)
  ultimately show ?thesis
    using reads_record [of "''segment''" "tl (segment_tokens dc g)" dc hs p] by (simp add: segment_tokens_def)
qed

section \<open>Spans of a segment\<close>

lemma parse_ids_valid: "list_all IsValidIdText ds \<Longrightarrow> parse_ids ds = Inr ds"
  by (induction ds) (simp_all add: ParseId_valid)

lemma ParseDomainList_join:
  assumes "list_all IsValidIdText ds" "ds \<noteq> []"
  shows "ParseDomainList (join_commas ds) = Inr ds"
proof (cases ds)
  case (Cons d rest)
  have "d \<noteq> []" using assms Cons valid_id_raw [of d] by simp
  moreover have "split_commas (join_commas ds) = ds"
    using assms valid_id_no_comma split_join_commas [of d rest] unfolding Cons list_all_iff by blast
  ultimately show ?thesis
    using parse_ids_valid [OF assms(1)] by (simp add: ParseDomainList_def Cons join_commas_Cons)
qed (use assms in simp)


lemma parse_span_use_tokens:
  assumes "span_use_ok dc u" "line_fits (segspan_tokens dc i u)"
  shows "parse_span_use dc (segspan_tokens dc i u) = Inr u"
proof -
  have "DecodeToken (EncodeToken (CanonicalText (su_from u))) = Inr (CanonicalText (su_from u))"
    "DecodeToken (EncodeToken (CanonicalText (su_to u))) = Inr (CanonicalText (su_to u))"
    by (rule fits_decode [OF assms(2), of "''from''"], simp add: segspan_tokens_def)
      (rule fits_decode [OF assms(2), of "''to''"], simp add: segspan_tokens_def)
  moreover have "split_port (CanonicalText (su_from u)) = Inr (su_from u)" "split_port (CanonicalText (su_to u)) = Inr (su_to u)"
    using assms(1) by (simp_all add: span_use_ok_def end_ok_def split_port_CanonicalText)
  moreover have "ParseU32 (FormatU64 (if su_reversed u then 1 else 0)) = Inr (if su_reversed u then 1 else 0)"
    by (rule ParseU32_FormatU64) simp
  moreover have "parse_rev (if su_reversed u then 1 else 0) = Inr (su_reversed u)" by (simp add: parse_rev_def)
  moreover have "field_domains (segspan_tokens dc i u) = Inr (su_failure_domains u)"
    using assms(1) ParseDomainList_join [of "su_failure_domains u"]
    by (simp add: field_domains_def segspan_tokens_def field_lookup span_use_ok_def)
  ultimately show ?thesis
    using assms(1)
    by (simp add: record_defs parse_span_use_def segspan_tokens_def span_use_ok_def field_lookup ParseId_valid)
qed

lemma reads_segspan:
  assumes "span_use_ok dc u" "line_fits (segspan_tokens dc i u)" "i < length (pl_segments p)" "i < 2 ^ 32"
  shows "reads dc (reading p True) (segspan_tokens dc i u)
    (reading (p\<lparr>pl_segments := (pl_segments p)[i := (pl_segments p ! i)\<lparr>sg_spans := sg_spans (pl_segments p ! i) @ [u]\<rparr>]\<rparr>) True)"
proof (rule reads_tokens [OF _ _ _ assms(2)])
  show "list_all plain_token (segspan_tokens dc i u)"
    using assms(1) by (simp add: segspan_tokens_def span_use_ok_def is_blank_def plain_join_commas)
  show "parse_record dc True (segspan_tokens dc i u) p =
      Inr (p\<lparr>pl_segments := (pl_segments p)[i := (pl_segments p ! i)\<lparr>sg_spans := sg_spans (pl_segments p ! i) @ [u]\<rparr>]\<rparr>)"
    using parse_span_use_tokens [OF assms(1,2)] assms(3,4)
    by (simp add: parse_record_def parse_segspan_def segspan_tokens_def Let_def)
qed (simp_all add: segspan_tokens_def)

text \<open>The span lines of one segment, the segments before it complete and those after it still empty.\<close>

lemma reads_spans:
  assumes "pl_segments p = before @ g\<lparr>sg_spans := have_spans\<rparr> # after" "i = length before" "i < 2 ^ 32"
    and "list_all (\<lambda>u. span_use_ok dc u \<and> line_fits (segspan_tokens dc i u)) us"
  shows "reads_all dc (reading p True) (map (segspan_tokens dc i) us)
    (reading (p\<lparr>pl_segments := before @ g\<lparr>sg_spans := have_spans @ us\<rparr> # after\<rparr>) True)"
  using assms
proof (induction us arbitrary: p have_spans)
  case Nil
  then have "p\<lparr>pl_segments := before @ g\<lparr>sg_spans := have_spans @ []\<rparr> # after\<rparr> = p" by simp
  then show ?case by (simp add: lines_read.none)
next
  case (Cons u us)
  let ?p = "p\<lparr>pl_segments := before @ g\<lparr>sg_spans := have_spans @ [u]\<rparr> # after\<rparr>"
  have "reads dc (reading p True) (segspan_tokens dc i u) (reading ?p True)"
    using reads_segspan [of dc u i p] Cons.prems by simp
  moreover have "reads_all dc (reading ?p True) (map (segspan_tokens dc i) us)
      (reading (?p\<lparr>pl_segments := before @ g\<lparr>sg_spans := (have_spans @ [u]) @ us\<rparr> # after\<rparr>) True)"
    by (rule Cons.IH) (use Cons.prems in auto)
  ultimately show ?case by (auto intro: lines_read.more)
qed

lemma reads_segspans:
  assumes "pl_segments p = before @ map (\<lambda>g. g\<lparr>sg_spans := []\<rparr>) gs"
    and "map sg_index gs = [length before ..< length before + length gs]" "length before + length gs < 2 ^ 32"
    and "list_all (\<lambda>g. list_all (\<lambda>u. span_use_ok dc u \<and> line_fits (segspan_tokens dc (sg_index g) u)) (sg_spans g)) gs"
  shows "reads_all dc (reading p True) (segspans_tokens dc gs) (reading (p\<lparr>pl_segments := before @ gs\<rparr>) True)"
  using assms
proof (induction gs arbitrary: p before)
  case Nil
  then have "p\<lparr>pl_segments := before @ []\<rparr> = p" by simp
  then show ?case by (simp add: segspans_tokens_def lines_read.none)
next
  case (Cons g gs)
  let ?p = "p\<lparr>pl_segments := before @ g # map (\<lambda>g. g\<lparr>sg_spans := []\<rparr>) gs\<rparr>"
  from Cons.prems(2) have i: "sg_index g = length before"
      "map sg_index gs = [length (before @ [g]) ..< length (before @ [g]) + length gs]"
    by (simp_all add: upt_conv_Cons del: upt_Suc)
  have "reads_all dc (reading p True) (map (segspan_tokens dc (sg_index g)) (sg_spans g)) (reading ?p True)"
    using reads_spans [where p = p and before = before and g = g and have_spans = "[]"
        and after = "map (\<lambda>g. g\<lparr>sg_spans := []\<rparr>) gs" and i = "sg_index g" and us = "sg_spans g"] Cons.prems i
    by simp
  moreover have "reads_all dc (reading ?p True) (segspans_tokens dc gs) (reading (?p\<lparr>pl_segments := (before @ [g]) @ gs\<rparr>) True)"
    by (rule Cons.IH) (use Cons.prems i in auto)
  ultimately show ?case
    using lines_read_append by (fastforce simp: segspans_tokens_def)
qed

section \<open>The whole text\<close>

lemma fold_bindings: "fold (\<lambda>x p. p\<lparr>pl_bound_sources := pl_bound_sources p @ [x]\<rparr>) xs p = p\<lparr>pl_bound_sources := pl_bound_sources p @ xs\<rparr>"
  by (induction xs arbitrary: p) simp_all

lemma fold_steps: "fold (\<lambda>x p. p\<lparr>pl_steps := pl_steps p @ [x]\<rparr>) xs p = p\<lparr>pl_steps := pl_steps p @ xs\<rparr>"
  by (induction xs arbitrary: p) simp_all

lemma fold_reservations: "fold (\<lambda>x p. p\<lparr>pl_reservations := pl_reservations p @ [x]\<rparr>) xs p = p\<lparr>pl_reservations := pl_reservations p @ xs\<rparr>"
  by (induction xs arbitrary: p) simp_all

lemma fold_capabilities: "fold (\<lambda>x p. p\<lparr>pl_capability_assumptions := pl_capability_assumptions p @ [x]\<rparr>) xs p = p\<lparr>pl_capability_assumptions := pl_capability_assumptions p @ xs\<rparr>"
  by (induction xs arbitrary: p) simp_all

lemma fold_qualities: "fold (\<lambda>x p. p\<lparr>pl_quality_assumptions := pl_quality_assumptions p @ [x]\<rparr>) xs p = p\<lparr>pl_quality_assumptions := pl_quality_assumptions p @ xs\<rparr>"
  by (induction xs arbitrary: p) simp_all

lemma fold_exposures: "fold (\<lambda>x p. p\<lparr>pl_failure_domain_exposure := pl_failure_domain_exposure p @ [x]\<rparr>) xs p = p\<lparr>pl_failure_domain_exposure := pl_failure_domain_exposure p @ xs\<rparr>"
  by (induction xs arbitrary: p) simp_all

lemma reads_segments:
  assumes "list_all (\<lambda>g. segment_ok dc g \<and> line_fits (segment_tokens dc g)) gs"
  shows "reads_all dc (reading p hs) (map (segment_tokens dc) gs)
    (reading (p\<lparr>pl_segments := pl_segments p @ map (\<lambda>g. g\<lparr>sg_spans := []\<rparr>) gs\<rparr>) (hs \<or> gs \<noteq> []))"
  using assms
proof (induction gs arbitrary: p hs)
  case Nil
  then show ?case by (simp add: lines_read.none)
next
  case (Cons g gs)
  let ?p = "p\<lparr>pl_segments := pl_segments p @ [g\<lparr>sg_spans := []\<rparr>]\<rparr>"
  have "reads dc (reading p hs) (segment_tokens dc g) (reading ?p True)"
    by (rule reads_segment) (use Cons.prems in simp_all)
  moreover have "reads_all dc (reading ?p True) (map (segment_tokens dc) gs)
      (reading (?p\<lparr>pl_segments := pl_segments ?p @ map (\<lambda>g. g\<lparr>sg_spans := []\<rparr>) gs\<rparr>) (True \<or> gs \<noteq> []))"
    by (rule Cons.IH) (use Cons.prems in simp)
  ultimately show ?case by (auto intro: lines_read.more)
qed

definition start_parse :: PlanParse where
  "start_parse = \<lparr>pp_plan = empty_plan, pp_header_seen = False, pp_digest_seen = False, pp_have_segment = False\<rparr>"

lemma reads_head:
  assumes "plan_in_grammar dc plan" "list_all line_fits (head_tokens plan)"
  shows "reads_all dc start_parse (head_tokens plan)
    (reading (empty_plan\<lparr>pl_format_version := pl_format_version plan, pl_rule_version := pl_rule_version plan,
       pl_request_id := pl_request_id plan, pl_request_digest := pl_request_digest plan,
       pl_snapshot_id := pl_snapshot_id plan, pl_snapshot_generation := pl_snapshot_generation plan,
       pl_snapshot_digest := pl_snapshot_digest plan\<rparr>) False)"
proof -
  let ?p1 = "empty_plan\<lparr>pl_format_version := pl_format_version plan\<rparr>"
  let ?p2 = "?p1\<lparr>pl_rule_version := pl_rule_version plan\<rparr>"
  let ?p3 = "?p2\<lparr>pl_request_id := pl_request_id plan, pl_request_digest := pl_request_digest plan\<rparr>"
  let ?p4 = "?p3\<lparr>pl_snapshot_id := pl_snapshot_id plan, pl_snapshot_generation := pl_snapshot_generation plan,
       pl_snapshot_digest := pl_snapshot_digest plan\<rparr>"
  note defs = line_reads_def readable_def parse_plan_line_def start_parse_def head_tokens_def plan_in_grammar_def is_blank_def
  have one: "reads dc start_parse (head_tokens plan ! 0) (reading ?p1 False)"
    using assms by (simp add: defs parse_header_def kPlanFormatVersion_def)
  have two: "reads dc (reading ?p1 False) (head_tokens plan ! 1) (reading ?p2 False)"
    using assms by (simp add: defs parse_rule_def kPlanningRuleVersion_def)
  have three: "reads dc (reading ?p2 False) (head_tokens plan ! 2) (reading ?p3 False)"
    using assms by (simp add: defs parse_record_def parse_request_def ParseId_valid numeral_2_eq_2)
  have four: "reads dc (reading ?p3 False) (head_tokens plan ! 3) (reading ?p4 False)"
    using assms
    by (simp add: defs parse_record_def parse_snapshot_def ParseId_valid numeral_2_eq_2 numeral_3_eq_3)
  have "reads_all dc start_parse [head_tokens plan ! 0, head_tokens plan ! 1, head_tokens plan ! 2, head_tokens plan ! 3]
      (reading ?p4 False)"
    by (rule lines_read.more [OF one lines_read.more [OF two lines_read.more [OF three lines_read_one [OF four]]]])
  then show ?thesis by (simp add: head_tokens_def)
qed

lemma reads_middle:
  assumes "plan_in_grammar dc plan" "list_all line_fits (middle_tokens dc plan)"
  shows "reads_all dc (reading p False) (middle_tokens dc plan)
    (reading (p\<lparr>pl_source := pl_source plan, pl_destination := pl_destination plan,
       pl_channel_width_slots := pl_channel_width_slots plan, pl_total_cost := pl_total_cost plan,
       pl_total_distance_m := pl_total_distance_m plan, pl_total_loss_db := pl_total_loss_db plan,
       pl_hops := pl_hops plan, pl_regenerations := pl_regenerations plan\<rparr>) False)"
proof -
  let ?p1 = "p\<lparr>pl_source := pl_source plan, pl_destination := pl_destination plan\<rparr>"
  let ?p2 = "?p1\<lparr>pl_channel_width_slots := pl_channel_width_slots plan\<rparr>"
  let ?p3 = "?p2\<lparr>pl_total_cost := pl_total_cost plan,
       pl_total_distance_m := pl_total_distance_m plan, pl_total_loss_db := pl_total_loss_db plan,
       pl_hops := pl_hops plan, pl_regenerations := pl_regenerations plan\<rparr>"
  note defs = middle_tokens_def plan_in_grammar_def is_blank_def record_defs field_lookup
  have one: "reads dc (reading p False) (middle_tokens dc plan ! 0) (reading ?p1 False)"
    by (rule reads_tokens) (use assms in \<open>simp_all add: defs parse_endpoints_def ParseId_valid\<close>)
  have two: "reads dc (reading ?p1 False) (middle_tokens dc plan ! 1) (reading ?p2 False)"
    by (rule reads_tokens) (use assms in \<open>simp_all add: defs\<close>)
  have three: "reads dc (reading ?p2 False) (middle_tokens dc plan ! 2) (reading ?p3 False)"
    by (rule reads_tokens) (use assms in \<open>simp_all add: defs parse_totals_def numeral_2_eq_2\<close>)
  have "reads_all dc (reading p False) [middle_tokens dc plan ! 0, middle_tokens dc plan ! 1, middle_tokens dc plan ! 2]
      (reading ?p3 False)"
    by (rule lines_read.more [OF one lines_read.more [OF two lines_read_one [OF three]]])
  then show ?thesis by (simp add: middle_tokens_def)
qed

lemma reads_digest:
  assumes "length d = 32" "line_fits [''digest'', EncodeToken (ToHexImpl d)]"
  shows "reads dc (reading p hs) [''digest'', EncodeToken (ToHexImpl d)] ((reading (p\<lparr>pl_digest := d\<rparr>) hs)\<lparr>pp_digest_seen := True\<rparr>)"
  using assms by (simp add: line_reads_def readable_def parse_plan_line_def parse_record_def parse_digest_def is_blank_def)

lemma lines_length: "length ls \<le> length (concat (map (\<lambda>l. l @ [c]) ls))"
  by (induction ls) simp_all

lemma reads_records:
  assumes "list_all binding_ok (pl_bound_sources plan)" "list_all line_fits (map binding_tokens (pl_bound_sources plan))"
  shows "reads_all dc (reading p hs) (map binding_tokens (pl_bound_sources plan))
    (reading (p\<lparr>pl_bound_sources := pl_bound_sources p @ pl_bound_sources plan\<rparr>) hs)"
proof -
  have "reads_all dc (reading p hs) (map binding_tokens (pl_bound_sources plan))
      (reading (fold (\<lambda>x p. p\<lparr>pl_bound_sources := pl_bound_sources p @ [x]\<rparr>) (pl_bound_sources plan) p) hs)"
    by (rule reads_map, rule reads_binding) (use assms in \<open>auto simp: list_all_iff\<close>)
  then show ?thesis by (simp add: fold_bindings)
qed

text \<open>The records after the endpoints, in the order the writer emits them.\<close>

lemma reads_body:
  assumes ok: "plan_in_grammar dc plan"
    and fits: "list_all line_fits (map step_tokens (pl_steps plan))"
      "list_all line_fits (map (segment_tokens dc) (pl_segments plan))"
      "list_all line_fits (segspans_tokens dc (pl_segments plan))"
    and few: "length (pl_segments plan) < 2 ^ 32"
    and p: "pl_steps p = []" "pl_segments p = []"
  shows "reads_all dc (reading p False)
     (map step_tokens (pl_steps plan) @ map (segment_tokens dc) (pl_segments plan) @ segspans_tokens dc (pl_segments plan))
     (reading (p\<lparr>pl_steps := pl_steps plan, pl_segments := pl_segments plan\<rparr>) True)"
proof -
  let ?p1 = "p\<lparr>pl_steps := pl_steps plan\<rparr>"
  let ?p2 = "?p1\<lparr>pl_segments := map (\<lambda>g. g\<lparr>sg_spans := []\<rparr>) (pl_segments plan)\<rparr>"
  have "reads_all dc (reading p False) (map step_tokens (pl_steps plan))
      (reading (fold (\<lambda>x p. p\<lparr>pl_steps := pl_steps p @ [x]\<rparr>) (pl_steps plan) p) False)"
    by (rule reads_map, rule reads_step) (use ok fits(1) in \<open>auto simp: plan_in_grammar_def list_all_iff\<close>)
  then have steps: "reads_all dc (reading p False) (map step_tokens (pl_steps plan)) (reading ?p1 False)"
    by (simp add: fold_steps p)
  have segs: "reads_all dc (reading ?p1 False) (map (segment_tokens dc) (pl_segments plan)) (reading ?p2 True)"
    using reads_segments [of dc "pl_segments plan" ?p1 False] ok fits(2) p
    by (simp add: plan_in_grammar_def list_all_iff)
  have "reads_all dc (reading ?p2 True) (segspans_tokens dc (pl_segments plan)) (reading (?p2\<lparr>pl_segments := [] @ pl_segments plan\<rparr>) True)"
    by (rule reads_segspans)
      (use ok fits(3) few in \<open>auto simp: plan_in_grammar_def dense_indices_def segspans_tokens_def list_all_iff\<close>)
  then have spans: "reads_all dc (reading ?p2 True) (segspans_tokens dc (pl_segments plan))
      (reading (p\<lparr>pl_steps := pl_steps plan, pl_segments := pl_segments plan\<rparr>) True)" by simp
  show ?thesis by (rule lines_read_append [OF steps lines_read_append [OF segs spans]])
qed

lemma reads_tail:
  assumes ok: "plan_in_grammar dc plan"
    and fits: "list_all line_fits (map reservation_tokens (pl_reservations plan))"
      "list_all line_fits (map (assumption_tokens ''capability'') (pl_capability_assumptions plan))"
      "list_all line_fits (map (assumption_tokens ''quality'') (pl_quality_assumptions plan))"
      "list_all line_fits (map exposure_tokens (pl_failure_domain_exposure plan))"
    and p: "pl_reservations p = []" "pl_capability_assumptions p = []" "pl_quality_assumptions p = []"
      "pl_failure_domain_exposure p = []"
  shows "reads_all dc (reading p hs)
     (map reservation_tokens (pl_reservations plan) @
      map (assumption_tokens ''capability'') (pl_capability_assumptions plan) @
      map (assumption_tokens ''quality'') (pl_quality_assumptions plan) @
      map exposure_tokens (pl_failure_domain_exposure plan))
     (reading (p\<lparr>pl_reservations := pl_reservations plan, pl_capability_assumptions := pl_capability_assumptions plan,
       pl_quality_assumptions := pl_quality_assumptions plan,
       pl_failure_domain_exposure := pl_failure_domain_exposure plan\<rparr>) hs)"
proof -
  let ?p1 = "p\<lparr>pl_reservations := pl_reservations plan\<rparr>"
  let ?p2 = "?p1\<lparr>pl_capability_assumptions := pl_capability_assumptions plan\<rparr>"
  let ?p3 = "?p2\<lparr>pl_quality_assumptions := pl_quality_assumptions plan\<rparr>"
  let ?p4 = "?p3\<lparr>pl_failure_domain_exposure := pl_failure_domain_exposure plan\<rparr>"
  have "reads_all dc (reading p hs) (map reservation_tokens (pl_reservations plan))
      (reading (fold (\<lambda>x p. p\<lparr>pl_reservations := pl_reservations p @ [x]\<rparr>) (pl_reservations plan) p) hs)"
    by (rule reads_map, rule reads_reservation) (use ok fits(1) in \<open>auto simp: plan_in_grammar_def list_all_iff\<close>)
  then have one: "reads_all dc (reading p hs) (map reservation_tokens (pl_reservations plan)) (reading ?p1 hs)"
    by (simp add: fold_reservations p)
  have "reads_all dc (reading ?p1 hs) (map (assumption_tokens ''capability'') (pl_capability_assumptions plan))
      (reading (fold (\<lambda>x p. p\<lparr>pl_capability_assumptions := pl_capability_assumptions p @ [x]\<rparr>) (pl_capability_assumptions plan) ?p1) hs)"
    by (rule reads_map, rule reads_capability) (use ok fits(2) in \<open>auto simp: plan_in_grammar_def list_all_iff\<close>)
  then have two: "reads_all dc (reading ?p1 hs) (map (assumption_tokens ''capability'') (pl_capability_assumptions plan)) (reading ?p2 hs)"
    by (simp add: fold_capabilities p)
  have "reads_all dc (reading ?p2 hs) (map (assumption_tokens ''quality'') (pl_quality_assumptions plan))
      (reading (fold (\<lambda>x p. p\<lparr>pl_quality_assumptions := pl_quality_assumptions p @ [x]\<rparr>) (pl_quality_assumptions plan) ?p2) hs)"
    by (rule reads_map, rule reads_quality) (use ok fits(3) in \<open>auto simp: plan_in_grammar_def list_all_iff\<close>)
  then have three: "reads_all dc (reading ?p2 hs) (map (assumption_tokens ''quality'') (pl_quality_assumptions plan)) (reading ?p3 hs)"
    by (simp add: fold_qualities p)
  have "reads_all dc (reading ?p3 hs) (map exposure_tokens (pl_failure_domain_exposure plan))
      (reading (fold (\<lambda>x p. p\<lparr>pl_failure_domain_exposure := pl_failure_domain_exposure p @ [x]\<rparr>) (pl_failure_domain_exposure plan) ?p3) hs)"
    by (rule reads_map, rule reads_exposure) (use ok fits(4) in \<open>auto simp: plan_in_grammar_def list_all_iff\<close>)
  then have four: "reads_all dc (reading ?p3 hs) (map exposure_tokens (pl_failure_domain_exposure plan)) (reading ?p4 hs)"
    by (simp add: fold_exposures p)
  have "reads_all dc (reading p hs)
     (map reservation_tokens (pl_reservations plan) @
      map (assumption_tokens ''capability'') (pl_capability_assumptions plan) @
      map (assumption_tokens ''quality'') (pl_quality_assumptions plan) @
      map exposure_tokens (pl_failure_domain_exposure plan)) (reading ?p4 hs)"
    by (rule lines_read_append [OF one lines_read_append [OF two lines_read_append [OF three four]]])
  then show ?thesis by simp
qed

lemma reads_plan:
  assumes ok: "plan_in_grammar dc plan" and fits: "list_all line_fits (plan_tokens dc plan)"
    and few: "length (pl_segments plan) < 2 ^ 32"
  shows "reads_all dc start_parse (plan_tokens dc plan) ((reading plan True)\<lparr>pp_digest_seen := True\<rparr>)"
proof -
  have d: "length (pl_digest plan) = 32" using ok by (simp add: plan_in_grammar_def)
  have "list_all binding_ok (pl_bound_sources plan)" using ok by (simp add: plan_in_grammar_def)
  note all = lines_read_append [OF reads_head [OF ok] lines_read_append [OF reads_records [OF this]
      lines_read_append [OF reads_middle [OF ok] lines_read_append [OF reads_body [OF ok _ _ _ few]
      lines_read_append [OF reads_tail [OF ok] lines_read_one [OF reads_digest [OF d]]]]]]]
  have "reads_all dc start_parse (plan_tokens dc plan) ((reading ((empty_plan\<lparr>pl_format_version := pl_format_version plan,
       pl_rule_version := pl_rule_version plan,
       pl_request_id := pl_request_id plan, pl_request_digest := pl_request_digest plan,
       pl_snapshot_id := pl_snapshot_id plan, pl_snapshot_generation := pl_snapshot_generation plan,
       pl_snapshot_digest := pl_snapshot_digest plan,
       pl_bound_sources := pl_bound_sources plan,
       pl_source := pl_source plan, pl_destination := pl_destination plan,
       pl_channel_width_slots := pl_channel_width_slots plan, pl_total_cost := pl_total_cost plan,
       pl_total_distance_m := pl_total_distance_m plan, pl_total_loss_db := pl_total_loss_db plan,
       pl_hops := pl_hops plan, pl_regenerations := pl_regenerations plan,
       pl_steps := pl_steps plan, pl_segments := pl_segments plan,
       pl_reservations := pl_reservations plan, pl_capability_assumptions := pl_capability_assumptions plan,
       pl_quality_assumptions := pl_quality_assumptions plan,
       pl_failure_domain_exposure := pl_failure_domain_exposure plan, pl_digest := pl_digest plan\<rparr>)) True)\<lparr>pp_digest_seen := True\<rparr>)"
    using all fits by (simp add: plan_tokens_def empty_plan_def)
  then show ?thesis by (cases plan) (simp add: empty_plan_def)
qed

section \<open>The round trip\<close>

lemma reads_bounded_plan:
  assumes ok: "plan_in_grammar dc plan" and bounds: "plan_within_bounds dc plan"
  shows "reads_all dc start_parse (plan_tokens dc plan) ((reading plan True)\<lparr>pp_digest_seen := True\<rparr>)"
proof -
  have fits: "list_all line_fits (plan_tokens dc plan)" "length (CanonicalBytes dc plan) \<le> kMaxPlanArtifactBytes"
    using bounds by (simp_all add: plan_within_bounds_def)
  have "length (pl_segments plan) \<le> length (plan_lines dc plan True)" by (simp add: plan_lines_def)
  also have "\<dots> \<le> length (CanonicalBytes dc plan)"
    unfolding CanonicalBytes_def PlanToText_def
    by (rule le_trans [OF _ lines_length]) simp
  finally have few: "length (pl_segments plan) < 2 ^ 32" using fits(2) by (simp add: kMaxPlanArtifactBytes_def)
  show ?thesis using ok fits(1) few by (rule reads_plan)
qed

lemma ParsePlanArtifact_CanonicalBytes:
  assumes ok: "plan_in_grammar dc plan" and bounds: "plan_within_bounds dc plan"
    and seal: "pl_digest plan = plan_text_digest dc plan"
  shows "ParsePlanArtifact dc (CanonicalBytes dc plan) = Inr plan"
proof -
  have "parse_plan_lines dc 1 (split_lines (CanonicalBytes dc plan)) start_parse = Inr ((reading plan True)\<lparr>pp_digest_seen := True\<rparr>)"
    using parse_emitted [OF reads_bounded_plan [OF ok bounds], of 1]
    by (simp add: parse_plan_lines_def CanonicalBytes_def PlanToText_def emit_lines_def plan_lines_tokens)
  then show ?thesis
    using ok bounds seal
    by (simp add: ParsePlanArtifact_def start_parse_def plan_in_grammar_def plan_within_bounds_def plan_text_seal_def Let_def)
qed

text \<open>
  C12: the text of a sealed plan is read back exactly: for every plan whose digest is the one computed
  over its text, whose fields are in the grammar and whose lines are within the splitter's bounds,
  parsing \<open>CanonicalBytes\<close> succeeds and returns the same plan, field by field.
\<close>

theorem Plan_text_round_trip:
  assumes "plan_in_grammar dc plan" "plan_within_bounds dc plan" "pl_digest plan = plan_text_digest dc plan"
  shows "ParsePlanArtifact dc (CanonicalBytes dc plan) = Inr plan"
  using assms by (rule ParsePlanArtifact_CanonicalBytes)

section \<open>What acceptance means\<close>

definition parse_inv :: "PlanParse \<Rightarrow> bool" where
  "parse_inv st \<longleftrightarrow> pl_format_version (pp_plan st) = kPlanFormatVersion \<and>
     pl_rule_version (pp_plan st) = kPlanningRuleVersion"

lemma record_keeps_versions:
  "parse_record dc hs values p = Inr q \<Longrightarrow>
   pl_format_version q = pl_format_version p \<and> pl_rule_version q = pl_rule_version p"
  by (auto simp: parse_record_def parse_digest_def parse_request_def parse_snapshot_def parse_binding_def
      parse_endpoints_def parse_totals_def parse_step_def parse_segment_def parse_segspan_def parse_reservation_def
      parse_exposure_def malformed_def Let_def and_then_Inr split: if_splits)

lemma parse_plan_line_inv:
  "parse_plan_line dc n values st = Inr st' \<Longrightarrow> parse_inv st \<Longrightarrow> parse_inv st'"
  using record_keeps_versions [of dc "pp_have_segment st" "values" "pp_plan st"]
  by (auto simp: parse_plan_line_def parse_header_def parse_rule_def parse_inv_def malformed_def and_then_Inr
      split: if_splits sum.splits)

lemma plan_text_digest_sha256:
  "plan_text_digest dc plan = sha256 (bytes_of (''OPP-PLAN-v1'' @ [CHR 0x0A] @ DigestPayload dc plan))"
  using Finalize_absorbed absorbed_chunks [OF absorbed_new,
      of "[bytes_of kPlanDigestDomain, bytes_of [CHR 0x0A], bytes_of (DigestPayload dc plan)]"]
  by (simp add: plan_text_digest_def kPlanDigestDomain_def new_Sha256_def)

text \<open>
  C39: a byte string the parser accepts, whoever wrote it, is a plan of the supported format and rule
  revisions with at least one step and one segment, numbered densely from zero, whose stored digest is
  the SHA-256 digest recomputed over its canonical text.
\<close>

theorem ParsePlanArtifact_accepts_sealed:
  assumes "ParsePlanArtifact dc bs = Inr plan"
  shows "pl_format_version plan = kPlanFormatVersion \<and> pl_rule_version plan = kPlanningRuleVersion \<and>
    pl_steps plan \<noteq> [] \<and> pl_segments plan \<noteq> [] \<and>
    map ps_index (pl_steps plan) = [0 ..< length (pl_steps plan)] \<and>
    map sg_index (pl_segments plan) = [0 ..< length (pl_segments plan)] \<and>
    pl_digest plan = sha256 (bytes_of (''OPP-PLAN-v1'' @ [CHR 0x0A] @ DigestPayload dc plan)) \<and>
    length bs \<le> kMaxPlanArtifactBytes"
proof -
  from assms obtain st where st: "parse_plan_lines dc 1 (split_lines bs) start_parse = Inr st" "pp_plan st = plan"
    and rest: "pl_steps plan \<noteq> []" "pl_segments plan \<noteq> []" "dense_indices (map ps_index (pl_steps plan))"
      "dense_indices (map sg_index (pl_segments plan))" "\<not> failed (plan_text_seal dc plan)"
      "length bs \<le> kMaxPlanArtifactBytes"
    by (auto simp: ParsePlanArtifact_def start_parse_def malformed_def and_then_Inr Let_def not_less split: if_splits)
  have "parse_inv start_parse"
    by (simp add: parse_inv_def start_parse_def empty_plan_def kPlanFormatVersion_def kPlanningRuleVersion_def)
  with st(1) have "parse_inv st" unfolding parse_plan_lines_def by (rule parse_lines_invariant) (rule parse_plan_line_inv)
  then show ?thesis
    using st(2) rest plan_text_digest_sha256 [of dc plan] by (simp add: parse_inv_def dense_indices_def plan_text_seal_def)
qed

end
