(* ===== verification/Store.thy ===== *)
theory Store
  imports Plan_Round_Trip Bytes Fileio
begin

text \<open>
  The plan store (\<open>src/store.cpp\<close>): content-addressed files under \<open>root/plans\<close>, each with a header, the
  canonical text of the plan and a SHA-256 trailer.  Every method runs under the store's mutex, so it is
  one step on the file system here.  The abstract store is the map from digests to plans that
  \<open>stored\<close> reads off the files.
\<close>

section \<open>Store files\<close>

definition kStoreFileMagic :: string where "kStoreFileMagic = ''OPPFILE1''"
definition kStoreDirectoryName :: string where "kStoreDirectoryName = ''plans''"
definition kStoreFileSuffix :: string where "kStoreFileSuffix = ''.oppplan''"
definition kStoreTempSuffix :: string where "kStoreTempSuffix = ''.opptmp''"
definition kStoreFormatVersion :: u32 where "kStoreFormatVersion = 1"
definition kHeaderBytes :: nat where "kHeaderBytes = 8 + 4 + 4 + 8"

definition store_header :: "string \<Rightarrow> string" where
  "store_header payload =
     kStoreFileMagic @ Writer_U32 kStoreFormatVersion @ Writer_U32 0 @ Writer_U64 (of_nat (length payload))"

definition EncodeStoreFile :: "double_chars \<Rightarrow> PlanArtifact \<Rightarrow> string expected" where
  "EncodeStoreFile dc plan =
     (if failed (plan_text_seal dc plan) then Inl (plan_text_seal dc plan)
      else let payload = CanonicalBytes dc plan
           in if length payload > kMaxStoreFileBytes
              then Inl (Failure LimitExceeded ''plan artifact exceeds the store file bound'')
              else let bytes = store_header payload @ payload in Inr (bytes @ text_of (Sha256_Of bytes)))"

definition DecodeStoreFile :: "double_chars \<Rightarrow> string \<Rightarrow> PlanArtifact expected" where
  "DecodeStoreFile dc bs =
     (if length bs < kHeaderBytes + 32
      then Inl (Failure Truncated ''store file is shorter than its header and checksum'')
      else if take 8 bs \<noteq> kStoreFileMagic
      then Inl (Failure MalformedInput ''store file magic is not recognised'')
      else case Reader_bind Reader_U32 (\<lambda>version.
             if version \<noteq> kStoreFormatVersion
             then Reader_fail (Failure Unsupported ''store file revision is not supported by this runtime'')
             else Reader_bind Reader_U32 (\<lambda>reserved.
                  if reserved \<noteq> 0
                  then Reader_fail (Failure MalformedInput ''store file reserved field must be zero'')
                  else Reader_bind Reader_U64 (\<lambda>len.
                       if unat len > kMaxStoreFileBytes
                       then Reader_fail (Failure LimitExceeded ''store file declares a payload larger than the bound'')
                       else Reader_return len))) (take (kHeaderBytes - 8) (drop 8 bs)) of
             Inl e \<Rightarrow> Inl e
           | Inr (len, _) \<Rightarrow>
               if length bs \<noteq> kHeaderBytes + unat len + 32
               then Inl (Failure Truncated ''store file length does not match its declared payload size'')
               else let payload = take (unat len) (drop kHeaderBytes bs);
                        trailer = take 32 (drop (kHeaderBytes + unat len) bs)
                    in if text_of (Sha256_Of (take (kHeaderBytes + unat len) bs)) \<noteq> trailer
                       then Inl (Failure IntegrityFailure ''store file checksum does not match its content'')
                       else ParsePlanArtifact dc payload)"

section \<open>The store\<close>

record StoreOptions =
  so_root :: string
  so_max_plans :: nat
  so_verify_existing :: bool

record StoreEntry =
  en_digest :: Digest256
  en_bytes :: nat
  en_request_id :: RequestId
  en_file_name :: string

definition FileNameFor :: "Digest256 \<Rightarrow> string" where
  "FileNameFor d = ToHexImpl d @ kStoreFileSuffix"

definition store_directory :: "StoreOptions \<Rightarrow> string" where
  "store_directory opts = JoinPath (so_root opts) kStoreDirectoryName"

definition PathFor :: "StoreOptions \<Rightarrow> Digest256 \<Rightarrow> string" where
  "PathFor opts d = JoinPath (store_directory opts) (FileNameFor d)"

definition clean_one :: "os \<Rightarrow> StoreOptions \<Rightarrow> string \<Rightarrow> filesystem \<Rightarrow> filesystem" where
  "clean_one sys opts name fs =
     (if \<not> HasSuffix name ''.tmp'' \<and> \<not> HasSuffix name kStoreTempSuffix then fs
      else snd (RemoveFile sys (JoinPath (store_directory opts) name) fs))"

definition CleanTemporariesLocked :: "os \<Rightarrow> StoreOptions \<Rightarrow> filesystem \<Rightarrow> filesystem" where
  "CleanTemporariesLocked sys opts fs =
     (case ListDirectoryFiles sys (store_directory opts) fs of
        Inl _ \<Rightarrow> fs
      | Inr names \<Rightarrow> fold (clean_one sys opts) names fs)"

definition Store_Open :: "os \<Rightarrow> StoreOptions \<Rightarrow> filesystem \<Rightarrow> StoreOptions expected \<times> filesystem" where
  "Store_Open sys opts fs =
     (if so_root opts = [] then (Inl (Failure InvalidArgument ''store root must not be empty''), fs)
      else if so_max_plans opts = 0 \<or> so_max_plans opts > kMaxStoredPlans
      then (Inl (Failure InvalidArgument ''store max_plans is outside the supported range''), fs)
      else let (st1, fs1) = EnsureDirectory sys (so_root opts) fs
           in if failed st1 then (Inl st1, fs1)
              else let (st2, fs2) = EnsureDirectory sys (store_directory opts) fs1
                   in if failed st2 then (Inl st2, fs2)
                      else (Inr opts, CleanTemporariesLocked sys opts fs2))"

definition ScanLocked :: "os \<Rightarrow> StoreOptions \<Rightarrow> filesystem \<Rightarrow> string list expected" where
  "ScanLocked sys opts fs = ListDirectoryBySuffix sys (store_directory opts) kStoreFileSuffix fs"

definition LoadLocked :: "os \<Rightarrow> double_chars \<Rightarrow> string \<Rightarrow> filesystem \<Rightarrow> PlanArtifact expected" where
  "LoadLocked sys dc path fs = and_then (ReadFileBounded sys path kMaxStoreFileBytes fs) (DecodeStoreFile dc)"

definition Store_Put ::
  "os \<Rightarrow> double_chars \<Rightarrow> StoreOptions \<Rightarrow> PlanArtifact \<Rightarrow> filesystem \<Rightarrow> Status \<times> filesystem" where
  "Store_Put sys dc opts plan fs =
     (case EncodeStoreFile dc plan of
        Inl e \<Rightarrow> (e, fs)
      | Inr encoded \<Rightarrow>
          let path = PathFor opts (pl_digest plan)
          in if FileExists path fs
             then if \<not> so_verify_existing opts
                  then (Failure Refused ''an artifact with this digest already exists in the store'', fs)
                  else case ReadFileBounded sys path kMaxStoreFileBytes fs of
                         Inl e \<Rightarrow> (e, fs)
                       | Inr existing \<Rightarrow>
                           if existing \<noteq> encoded
                           then (Failure IntegrityFailure
                                  ''an artifact with this digest exists in the store but its content differs'', fs)
                           else (OkStatus, fs)
             else case ScanLocked sys opts fs of
                    Inl e \<Rightarrow> (e, fs)
                  | Inr names \<Rightarrow>
                      if length names \<ge> so_max_plans opts
                      then (Failure Exhausted ''the plan store has reached its configured capacity'', fs)
                      else WriteFileAtomic sys path encoded fs)"

definition Store_Get ::
  "os \<Rightarrow> double_chars \<Rightarrow> StoreOptions \<Rightarrow> Digest256 \<Rightarrow> filesystem \<Rightarrow> PlanArtifact expected" where
  "Store_Get sys dc opts d fs =
     (let path = PathFor opts d
      in if \<not> FileExists path fs
         then Inl (Failure NotFound (''no stored artifact has digest '' @ ToHexImpl d))
         else and_then (LoadLocked sys dc path fs) (\<lambda>plan.
                if pl_digest plan \<noteq> d
                then Inl (Failure IntegrityFailure ''stored artifact content does not match the digest in its file name'')
                else Inr plan))"

definition Store_GetByHex ::
  "os \<Rightarrow> double_chars \<Rightarrow> StoreOptions \<Rightarrow> string \<Rightarrow> filesystem \<Rightarrow> PlanArtifact expected" where
  "Store_GetByHex sys dc opts hex fs = and_then (Digest256_FromHex hex) (\<lambda>d. Store_Get sys dc opts d fs)"

definition Store_Contains :: "StoreOptions \<Rightarrow> Digest256 \<Rightarrow> filesystem \<Rightarrow> bool" where
  "Store_Contains opts d fs = FileExists (PathFor opts d) fs"

text \<open>One file of a listing: an entry, or its name among the rejected.\<close>

definition list_one :: "os \<Rightarrow> double_chars \<Rightarrow> StoreOptions \<Rightarrow> filesystem \<Rightarrow> string \<Rightarrow> string + StoreEntry" where
  "list_one sys dc opts fs name =
     (let path = JoinPath (store_directory opts) name
      in case LoadLocked sys dc path fs of
           Inl _ \<Rightarrow> Inl name
         | Inr plan \<Rightarrow>
             if name \<noteq> FileNameFor (pl_digest plan) then Inl name
             else Inr \<lparr>en_digest = pl_digest plan,
                       en_bytes = (case ReadFileBounded sys path kMaxStoreFileBytes fs of Inr bs \<Rightarrow> length bs | Inl _ \<Rightarrow> 0),
                       en_request_id = pl_request_id plan, en_file_name = name\<rparr>)"

definition Store_List ::
  "os \<Rightarrow> double_chars \<Rightarrow> StoreOptions \<Rightarrow> filesystem \<Rightarrow> (StoreEntry list \<times> string list) expected" where
  "Store_List sys dc opts fs =
     and_then (ScanLocked sys opts fs) (\<lambda>names.
       let results = map (list_one sys dc opts fs) names;
           entries = concat (map (\<lambda>r. case r of Inr e \<Rightarrow> [e] | Inl _ \<Rightarrow> []) results);
           rejected = concat (map (\<lambda>r. case r of Inl n \<Rightarrow> [n] | Inr _ \<Rightarrow> []) results)
       in Inr (std_sort (\<lambda>l r. en_digest l < en_digest r) entries, rejected))"

definition Store_Remove :: "os \<Rightarrow> StoreOptions \<Rightarrow> Digest256 \<Rightarrow> filesystem \<Rightarrow> Status \<times> filesystem" where
  "Store_Remove sys opts d fs =
     (if \<not> FileExists (PathFor opts d) fs
      then (Failure NotFound (''no stored artifact has digest '' @ ToHexImpl d), fs)
      else RemoveFile sys (PathFor opts d) fs)"

definition Store_Count :: "os \<Rightarrow> StoreOptions \<Rightarrow> filesystem \<Rightarrow> u32" where
  "Store_Count sys opts fs = (case ScanLocked sys opts fs of Inl _ \<Rightarrow> 0 | Inr names \<Rightarrow> of_nat (length names))"

section \<open>Store files are exact\<close>

end
