(* ===== verification/Snapshot_Text.thy ===== *)
theory Snapshot_Text
  imports Builder Lines Sha256 Fileio
begin

text \<open>
  The text of topology snapshots (\<open>src/snapshot_io.cpp\<close>).  The writer emits one line per record; the
  parser collects the records in a first pass over the lines and feeds them to a \<open>SnapshotBuilder\<close> in a
  second one, so a parsed snapshot has gone through \<open>Build\<close>.  The content digest of a snapshot is the
  SHA-256 digest of this text.
\<close>

section \<open>Evidence\<close>

definition kUnknown :: string where "kUnknown = ''unknown''"
definition kConflicting :: string where "kConflicting = ''conflicting''"
definition kAbsent :: string where "kAbsent = ''-''"

text \<open>The switch that the six evidence writers share, and the test that the six readers start with.\<close>

definition add_evidence :: "('a \<Rightarrow> string \<Rightarrow> string) \<Rightarrow> string \<Rightarrow> 'a Evidence \<Rightarrow> string \<Rightarrow> string" where
  "add_evidence known key e line =
     (case e of Known v \<Rightarrow> known v line | Unknown \<Rightarrow> Line_AddKeyRaw key kUnknown line
      | Conflicting \<Rightarrow> Line_AddKeyRaw key kConflicting line)"

definition AddMask :: "string \<Rightarrow> SlotMask Evidence \<Rightarrow> string \<Rightarrow> string" where
  "AddMask key = add_evidence (\<lambda>m. Line_AddKeyRaw key (Mask_ToHex m)) key"

definition AddU64Evidence :: "string \<Rightarrow> u64 Evidence \<Rightarrow> string \<Rightarrow> string" where
  "AddU64Evidence key = add_evidence (\<lambda>v. Line_AddKeyU64 key (unat v)) key"

definition AddU32Evidence :: "string \<Rightarrow> nat Evidence \<Rightarrow> string \<Rightarrow> string" where
  "AddU32Evidence key = add_evidence (Line_AddKeyU64 key) key"

definition AddDoubleEvidence :: "double_chars \<Rightarrow> string \<Rightarrow> double Evidence \<Rightarrow> string \<Rightarrow> string" where
  "AddDoubleEvidence dc key = add_evidence (Line_AddKeyDouble dc key) key"

definition AddAdmin :: "string \<Rightarrow> AdminState Evidence \<Rightarrow> string \<Rightarrow> string" where
  "AddAdmin key = add_evidence (\<lambda>a. Line_AddKeyRaw key (AdminStateName a)) key"

definition AddProfileEvidence :: "string \<Rightarrow> ProfileId option Evidence \<Rightarrow> string \<Rightarrow> string" where
  "AddProfileEvidence key =
     add_evidence (\<lambda>p. Line_AddKeyRaw key (case p of Some i \<Rightarrow> i | None \<Rightarrow> kAbsent)) key"

definition AddDomains :: "FailureDomainId list \<Rightarrow> string \<Rightarrow> string" where
  "AddDomains ds line = (if ds \<noteq> [] then Line_AddKeyRaw ''domains'' (join_commas ds) line else line)"

definition parse_evidence :: "(string \<Rightarrow> 'a expected) \<Rightarrow> string \<Rightarrow> 'a Evidence expected" where
  "parse_evidence known token =
     (if token = kUnknown then Inr Unknown else if token = kConflicting then Inr Conflicting
      else and_then (known token) (\<lambda>v. Inr (Known v)))"

definition ParseEvidenceU64 :: "string \<Rightarrow> u64 Evidence expected" where
  "ParseEvidenceU64 = parse_evidence (\<lambda>t. and_then (ParseU64 t) (\<lambda>v. Inr (of_nat v)))"

definition ParseEvidenceU32 :: "string \<Rightarrow> nat Evidence expected" where
  "ParseEvidenceU32 = parse_evidence ParseU32"

definition ParseEvidenceDouble :: "double_chars \<Rightarrow> string \<Rightarrow> double Evidence expected" where
  "ParseEvidenceDouble dc = parse_evidence (ParseDouble dc)"

definition ParseEvidenceMask :: "string \<Rightarrow> SlotMask Evidence expected" where
  "ParseEvidenceMask = parse_evidence Mask_FromHex"

definition ParseEvidenceAdmin :: "string \<Rightarrow> AdminState Evidence expected" where
  "ParseEvidenceAdmin = parse_evidence (\<lambda>t. case ParseAdminState t of
       Some a \<Rightarrow> Inr a
     | None \<Rightarrow> Inl (Failure MalformedInput (''administrative state token '' @ [CHR 0x27] @ t @ [CHR 0x27] @ '' is not recognised'')))"

definition ParseEvidenceProfile :: "string \<Rightarrow> ProfileId option Evidence expected" where
  "ParseEvidenceProfile = parse_evidence (\<lambda>t.
     if t = kAbsent then Inr None else and_then (ParseId t) (\<lambda>i. Inr (Some i)))"

section \<open>Writing\<close>

definition kSnapshotMagic :: string where "kSnapshotMagic = ''OPP-SNAPSHOT''"
definition kSnapshotDigestDomain :: string where "kSnapshotDigestDomain = ''OPP-SNAPSHOT-v1''"
definition kSnapshotFormatVersion :: nat where "kSnapshotFormatVersion = 1"
definition kMaxSnapshotTextBytes :: nat where "kMaxSnapshotTextBytes = 64 * 1024 * 1024"

definition preamble_lines :: "TopologySnapshot \<Rightarrow> string list" where
  "preamble_lines s =
     [kSnapshotMagic @ '' '' @ FormatU64 kSnapshotFormatVersion,
      Line_Add (s_id s) ''id'',
      Line_AddU64 (unat (s_generation s)) ''generation'',
      Line_Add (GridKindName (grid (s_spectrum s))) ''grid'',
      Line_AddU64 (unat (slot_count (s_spectrum s))) ''slots'']"

definition source_line :: "SourceRecord \<Rightarrow> string" where
  "source_line r = Line_Add (CoverageName (src_coverage r)) (Line_AddU64 (unat (src_generation r)) (Line_Add (src_id r) ''source''))"

definition origin :: "SourceId \<Rightarrow> Generation \<Rightarrow> string \<Rightarrow> string" where
  "origin source gen line = Line_AddKeyU64 ''gen'' (unat gen) (Line_AddKeyRaw ''src'' source line)"

definition profile_line :: "double_chars \<Rightarrow> ReachProfile \<Rightarrow> string" where
  "profile_line dc r =
     origin (rp_source r) (rp_generation r)
     (AddDoubleEvidence dc ''osnr'' (rp_min_osnr_db r)
     (AddDoubleEvidence dc ''loss'' (rp_max_loss_db r)
     (AddU32Evidence ''spans'' (rp_max_span_count r)
     (AddU64Evidence ''dist'' (rp_max_distance_m r) (Line_Add (rp_id r) ''profile'')))))"

definition node_line :: "NodeRecord \<Rightarrow> string" where
  "node_line r =
     AddDomains (nd_failure_domains r) (origin (nd_source r) (nd_generation r)
     (Line_AddKeyU64 ''cost'' (unat (nd_transit_cost r)) (AddAdmin ''admin'' (nd_admin r)
     (Line_Add (CoverageName (nd_coverage r)) (Line_Add (NodeKindName (nd_kind r)) (Line_Add (nd_id r) ''node''))))))"

definition port_line :: "PortRecord \<Rightarrow> string" where
  "port_line r =
     AddDomains (pt_failure_domains r) (origin (pt_source r) (pt_generation r)
     (Line_AddKeyU64 ''cost'' (unat (pt_transit_cost r)) (AddMask ''slots'' (pt_blocked_slots r)
     (AddProfileEvidence ''tx'' (pt_transmit_profile r) (AddAdmin ''admin'' (pt_admin r)
     (Line_Add (PortRoleName (pt_role r))
     (Line_Add (pk_port (pt_key r)) (Line_Add (pk_node (pt_key r)) ''port''))))))))"

definition add_ends :: "PortKey \<Rightarrow> PortKey \<Rightarrow> string \<Rightarrow> string" where
  "add_ends from to line =
     Line_Add (pk_port to) (Line_Add (pk_node to) (Line_Add (pk_port from) (Line_Add (pk_node from) line)))"

definition span_line :: "double_chars \<Rightarrow> SpanRecord \<Rightarrow> string" where
  "span_line dc r =
     AddDomains (sp_failure_domains r) (origin (sp_source r) (sp_generation r)
     (Line_AddKeyU64 ''cost'' (unat (sp_cost r)) (AddAdmin ''admin'' (sp_admin r)
     (AddMask ''slots'' (sp_blocked_slots r) (AddDoubleEvidence dc ''osnr'' (sp_osnr_db r)
     (AddDoubleEvidence dc ''loss'' (sp_loss_db r) (AddU64Evidence ''len'' (sp_length_m r)
     (Line_Add (if sp_bidirectional r then ''bidir'' else ''single'')
     (add_ends (sp_from r) (sp_to r) (Line_Add (sp_id r) ''span''))))))))))"

definition cross_connect_line :: "CrossConnectRecord \<Rightarrow> string" where
  "cross_connect_line r =
     AddDomains (cc_failure_domains r) (origin (cc_source r) (cc_generation r)
     (Line_AddKeyU64 ''cost'' (unat (cc_cost r)) (AddAdmin ''admin'' (cc_admin r)
     (AddMask ''slots'' (cc_blocked_slots r)
     (Line_Add (CrossConnectOpName (cc_op r))
     (add_ends (cc_from r) (cc_to r) (Line_Add (cc_id r) ''xc'')))))))"

definition snapshot_lines :: "double_chars \<Rightarrow> TopologySnapshot \<Rightarrow> string list" where
  "snapshot_lines dc s =
     preamble_lines s @ map source_line (s_sources s) @ map (profile_line dc) (s_profiles s) @
     map node_line (s_nodes s) @ map port_line (s_ports s) @ map (span_line dc) (s_spans s) @
     map cross_connect_line (s_cross_connects s)"

definition SnapshotToText :: "double_chars \<Rightarrow> TopologySnapshot \<Rightarrow> string" where
  "SnapshotToText dc s = emit_lines (snapshot_lines dc s)"

definition ComputeSnapshotDigest :: "double_chars \<Rightarrow> TopologySnapshot \<Rightarrow> Digest256" where
  "ComputeSnapshotDigest dc s =
     Sha256_Finalize (Sha256_Update (bytes_of (SnapshotToText dc s))
       (Sha256_Update (bytes_of [CHR 0x0A]) (Sha256_Update (bytes_of kSnapshotDigestDomain) new_Sha256)))"

text \<open>The digest over the lines that name a source.\<close>

definition belongs_to :: "SourceId \<Rightarrow> string list \<Rightarrow> bool" where
  "belongs_to source values =
     (if values ! 0 = ''source'' then length values > 1 \<and> values ! 1 = source
      else FindKeyedField values 1 ''src'' = Inr source)"

definition contribute :: "SourceId \<Rightarrow> string \<Rightarrow> Sha256 \<Rightarrow> Sha256" where
  "contribute source line hasher =
     (if line = [] then hasher
      else case SplitTokens line of
             Inl _ \<Rightarrow> hasher
           | Inr values \<Rightarrow>
               if \<not> belongs_to source values then hasher
               else Sha256_Update (bytes_of [CHR 0x0A]) (Sha256_Update (bytes_of line) hasher))"

definition SourceContributionDigest :: "double_chars \<Rightarrow> TopologySnapshot \<Rightarrow> SourceId \<Rightarrow> Digest256" where
  "SourceContributionDigest dc s source =
     Sha256_Finalize (fold (contribute source) (split_lines (SnapshotToText dc s))
       (Sha256_Update (bytes_of [CHR 0x0A]) (Sha256_Update (bytes_of ''OPP-SOURCE-v1'') new_Sha256)))"

section \<open>The first pass\<close>

record SnapshotParse =
  np_header_seen :: bool
  np_have_id :: bool
  np_have_generation :: bool
  np_have_grid :: bool
  np_have_slots :: bool
  np_snapshot_id :: SnapshotId
  np_snapshot_generation :: Generation
  np_spectrum :: SpectrumModel
  np_records :: "string list list"

definition parse_snapshot_header :: "string list \<Rightarrow> SnapshotParse \<Rightarrow> SnapshotParse expected" where
  "parse_snapshot_header values st =
     (if length values \<noteq> 2 \<or> values ! 0 \<noteq> kSnapshotMagic
      then malformed ''snapshot must start with the OPP-SNAPSHOT magic line''
      else and_then (ParseU32 (values ! 1)) (\<lambda>version.
             if version \<noteq> kSnapshotFormatVersion
             then Inl (Failure Unsupported (''snapshot format revision '' @ values ! 1 @ '' is not supported by this runtime''))
             else Inr (st\<lparr>np_header_seen := True\<rparr>)))"

definition record_keywords :: "string list" where
  "record_keywords = [''source'', ''profile'', ''node'', ''port'', ''span'', ''xc'']"

definition kMaxRecords :: nat where
  "kMaxRecords = kMaxNodes + kMaxPorts + kMaxSpans + kMaxCrossConnects + kMaxReachProfiles + kMaxSources"

definition parse_snapshot_line :: "nat \<Rightarrow> string list \<Rightarrow> SnapshotParse \<Rightarrow> SnapshotParse expected" where
  "parse_snapshot_line n values st =
     (let keyword = values ! 0
      in if \<not> np_header_seen st then parse_snapshot_header values st
         else if keyword = ''id''
         then if length values \<noteq> 2 then malformed ''id record takes exactly one argument''
              else if np_have_id st then malformed ''snapshot id is declared more than once''
              else and_then (ParseId (values ! 1)) (\<lambda>i. Inr (st\<lparr>np_snapshot_id := i, np_have_id := True\<rparr>))
         else if keyword = ''generation''
         then if length values \<noteq> 2 then malformed ''generation record takes exactly one argument''
              else if np_have_generation st then malformed ''generation is declared more than once''
              else and_then (ParseU64 (values ! 1))
                     (\<lambda>g. Inr (st\<lparr>np_snapshot_generation := of_nat g, np_have_generation := True\<rparr>))
         else if keyword = ''grid''
         then if length values \<noteq> 2 then malformed ''grid record takes exactly one argument''
              else if np_have_grid st then malformed ''grid is declared more than once''
              else case ParseGridKind (values ! 1) of
                     None \<Rightarrow> Inl (Failure Unsupported (''grid '' @ [CHR 0x27] @ values ! 1 @ [CHR 0x27] @
                                  '' is not modelled by this runtime''))
                   | Some kind \<Rightarrow> Inr (st\<lparr>np_spectrum := (np_spectrum st)\<lparr>grid := kind\<rparr>, np_have_grid := True\<rparr>)
         else if keyword = ''slots''
         then if length values \<noteq> 2 then malformed ''slots record takes exactly one argument''
              else if np_have_slots st then malformed ''slot count is declared more than once''
              else and_then (ParseU16 (values ! 1))
                     (\<lambda>v. Inr (st\<lparr>np_spectrum := (np_spectrum st)\<lparr>slot_count := of_nat v\<rparr>, np_have_slots := True\<rparr>))
         else if keyword \<in> set record_keywords
         then if length (np_records st @ [values]) > kMaxRecords
              then Inl (Failure LimitExceeded ''snapshot declares more records than the supported maximum'')
              else Inr (st\<lparr>np_records := np_records st @ [values]\<rparr>)
         else Inl (Failure MalformedInput (''line '' @ to_string n @ '': unknown record '' @ [CHR 0x27] @ keyword @ [CHR 0x27])))"

definition start_snapshot :: SnapshotParse where
  "start_snapshot = \<lparr>np_header_seen = False, np_have_id = False, np_have_generation = False, np_have_grid = False,
     np_have_slots = False, np_snapshot_id = [], np_snapshot_generation = 0,
     np_spectrum = \<lparr>grid = Fixed50GHz, slot_count = 96\<rparr>, np_records = []\<rparr>"

section \<open>The second pass\<close>

definition RequiredKey :: "string list \<Rightarrow> nat \<Rightarrow> string \<Rightarrow> string expected" where
  "RequiredKey = RequiredRawField"

definition key_evidence :: "(string \<Rightarrow> 'a Evidence expected) \<Rightarrow> string list \<Rightarrow> nat \<Rightarrow> string \<Rightarrow> 'a Evidence expected" where
  "key_evidence parse values first key = and_then (RequiredKey values first key) parse"

definition key_u64 :: "string list \<Rightarrow> nat \<Rightarrow> string \<Rightarrow> u64 expected" where
  "key_u64 values first key = and_then (RequiredKey values first key) (\<lambda>t. and_then (ParseU64 t) (\<lambda>v. Inr (of_nat v)))"

definition key_source :: "string list \<Rightarrow> nat \<Rightarrow> SourceId expected" where
  "key_source values first = and_then (RequiredKey values first ''src'') ParseId"

fun parse_domain_pieces :: "FailureDomainId list \<Rightarrow> string list \<Rightarrow> FailureDomainId list expected" where
  "parse_domain_pieces domains [] = Inr domains"
| "parse_domain_pieces domains (piece # pieces) =
     (case ParseId piece of
        Inl _ \<Rightarrow> malformed ''failure domain list contains an invalid identifier''
      | Inr i \<Rightarrow>
          if length (domains @ [i]) > kMaxDomainsPerResource
          then Inl (Failure LimitExceeded ''failure domain list exceeds the supported length'')
          else parse_domain_pieces (domains @ [i]) pieces)"

definition ParseDomains :: "string \<Rightarrow> FailureDomainId list expected" where
  "ParseDomains bs = (if bs = [] then Inr [] else parse_domain_pieces [] (split_commas bs))"

definition key_domains :: "string list \<Rightarrow> nat \<Rightarrow> FailureDomainId list expected" where
  "key_domains values first = (case FindKeyedField values first ''domains'' of Inr t \<Rightarrow> ParseDomains t | Inl _ \<Rightarrow> Inr [])"

definition added :: "Status \<times> SnapshotBuilder \<Rightarrow> SnapshotBuilder expected" where
  "added r = (if failed (fst r) then Inl (fst r) else Inr (snd r))"

definition parse_coverage :: "string \<Rightarrow> string \<Rightarrow> Coverage expected" where
  "parse_coverage what t =
     (if t = ''partial'' then Inr Partial else if t \<noteq> ''complete'' then malformed (what @ '' coverage must be complete or partial'')
      else Inr Complete)"

definition parse_source_record :: "string list \<Rightarrow> SnapshotBuilder \<Rightarrow> SnapshotBuilder expected" where
  "parse_source_record values b =
     (if length values \<noteq> 4 then malformed ''source takes id, generation, coverage''
      else and_then (ParseId (values ! 1)) (\<lambda>i. and_then (ParseU64 (values ! 2)) (\<lambda>g.
           and_then (parse_coverage ''source'' (values ! 3)) (\<lambda>cov.
           added (AddSource \<lparr>src_id = i, src_generation = of_nat g, src_coverage = cov, src_description = []\<rparr> b)))))"

definition parse_profile_record :: "double_chars \<Rightarrow> string list \<Rightarrow> SnapshotBuilder \<Rightarrow> SnapshotBuilder expected" where
  "parse_profile_record dc values b =
     (if length values < 2 then malformed ''profile takes an identifier''
      else and_then (ParseId (values ! 1)) (\<lambda>i.
           and_then (key_evidence ParseEvidenceU64 values 2 ''dist'') (\<lambda>dist.
           and_then (key_evidence ParseEvidenceU32 values 2 ''spans'') (\<lambda>spans.
           and_then (key_evidence (ParseEvidenceDouble dc) values 2 ''loss'') (\<lambda>loss.
           and_then (key_evidence (ParseEvidenceDouble dc) values 2 ''osnr'') (\<lambda>osnr.
           and_then (key_source values 2) (\<lambda>source. and_then (key_u64 values 2 ''gen'') (\<lambda>gen.
           added (AddReachProfile \<lparr>rp_id = i, rp_max_distance_m = dist, rp_max_span_count = spans,
             rp_max_loss_db = loss, rp_min_osnr_db = osnr, rp_source = source, rp_generation = gen\<rparr> b)))))))))"

definition parse_node_record :: "string list \<Rightarrow> SnapshotBuilder \<Rightarrow> SnapshotBuilder expected" where
  "parse_node_record values b =
     (if length values < 5 then malformed ''node takes id, kind, coverage, admin''
      else and_then (ParseId (values ! 1)) (\<lambda>i.
           case ParseNodeKind (values ! 2) of
             None \<Rightarrow> Inl (Failure Unsupported (''node kind '' @ [CHR 0x27] @ values ! 2 @ [CHR 0x27] @ '' is not modelled''))
           | Some kind \<Rightarrow>
               and_then (parse_coverage ''node'' (values ! 3)) (\<lambda>cov.
               and_then (key_evidence ParseEvidenceAdmin values 4 ''admin'') (\<lambda>admin.
               and_then (key_u64 values 5 ''cost'') (\<lambda>cost. and_then (key_source values 5) (\<lambda>source.
               and_then (key_u64 values 5 ''gen'') (\<lambda>gen. and_then (key_domains values 5) (\<lambda>domains.
               added (AddNode \<lparr>nd_id = i, nd_kind = kind, nd_failure_domains = domains, nd_transit_cost = cost,
                 nd_coverage = cov, nd_admin = admin, nd_source = source, nd_generation = gen\<rparr> b)))))))))"

definition parse_port_record :: "string list \<Rightarrow> SnapshotBuilder \<Rightarrow> SnapshotBuilder expected" where
  "parse_port_record values b =
     (if length values < 4 then malformed ''port takes node, port, role''
      else and_then (ParseId (values ! 1)) (\<lambda>node. and_then (ParseId (values ! 2)) (\<lambda>port.
           case ParsePortRole (values ! 3) of
             None \<Rightarrow> malformed (''port role '' @ [CHR 0x27] @ values ! 3 @ [CHR 0x27] @ '' is not recognised'')
           | Some role \<Rightarrow>
               and_then (key_evidence ParseEvidenceAdmin values 4 ''admin'') (\<lambda>admin.
               and_then (key_evidence ParseEvidenceProfile values 4 ''tx'') (\<lambda>tx.
               and_then (key_evidence ParseEvidenceMask values 4 ''slots'') (\<lambda>slots.
               and_then (key_u64 values 4 ''cost'') (\<lambda>cost. and_then (key_source values 4) (\<lambda>source.
               and_then (key_u64 values 4 ''gen'') (\<lambda>gen. and_then (key_domains values 4) (\<lambda>domains.
               added (AddPort \<lparr>pt_key = PortKey node port, pt_role = role, pt_transmit_profile = tx,
                 pt_blocked_slots = slots, pt_failure_domains = domains, pt_transit_cost = cost, pt_admin = admin,
                 pt_source = source, pt_generation = gen\<rparr> b)))))))))))"

definition parse_ends :: "string list \<Rightarrow> (string \<times> PortKey \<times> PortKey) expected" where
  "parse_ends values =
     and_then (ParseId (values ! 1)) (\<lambda>i. and_then (ParseId (values ! 2)) (\<lambda>from_node.
     and_then (ParseId (values ! 3)) (\<lambda>from_port. and_then (ParseId (values ! 4)) (\<lambda>to_node.
     and_then (ParseId (values ! 5)) (\<lambda>to_port. Inr (i, PortKey from_node from_port, PortKey to_node to_port))))))"

definition parse_direction :: "string \<Rightarrow> bool expected" where
  "parse_direction t =
     (if t = ''bidir'' then Inr True else if t = ''single'' then Inr False
      else malformed ''span direction must be bidir or single'')"

definition parse_span_record :: "double_chars \<Rightarrow> string list \<Rightarrow> SnapshotBuilder \<Rightarrow> SnapshotBuilder expected" where
  "parse_span_record dc values b =
     (if length values < 7 then malformed ''span takes id, two endpoints and a direction''
      else and_then (parse_ends values) (\<lambda>(i, from, to). and_then (parse_direction (values ! 6)) (\<lambda>bidirectional.
           and_then (key_evidence ParseEvidenceU64 values 7 ''len'') (\<lambda>len.
           and_then (key_evidence (ParseEvidenceDouble dc) values 7 ''loss'') (\<lambda>loss.
           and_then (key_evidence (ParseEvidenceDouble dc) values 7 ''osnr'') (\<lambda>osnr.
           and_then (key_evidence ParseEvidenceMask values 7 ''slots'') (\<lambda>slots.
           and_then (key_evidence ParseEvidenceAdmin values 7 ''admin'') (\<lambda>admin.
           and_then (key_u64 values 7 ''cost'') (\<lambda>cost. and_then (key_source values 7) (\<lambda>source.
           and_then (key_u64 values 7 ''gen'') (\<lambda>gen. and_then (key_domains values 7) (\<lambda>domains.
           added (AddSpan \<lparr>sp_id = i, sp_from = from, sp_to = to, sp_bidirectional = bidirectional, sp_length_m = len,
             sp_loss_db = loss, sp_osnr_db = osnr, sp_blocked_slots = slots, sp_failure_domains = domains,
             sp_cost = cost, sp_admin = admin, sp_source = source, sp_generation = gen\<rparr> b)))))))))))))"

definition parse_cross_connect_record :: "string list \<Rightarrow> SnapshotBuilder \<Rightarrow> SnapshotBuilder expected" where
  "parse_cross_connect_record values b =
     (if length values < 7 then malformed ''xc takes id, two endpoints and an operation''
      else and_then (parse_ends values) (\<lambda>(i, from, to).
           case ParseCrossConnectOp (values ! 6) of
             None \<Rightarrow> Inl (Failure Unsupported (''cross-connect operation '' @ [CHR 0x27] @ values ! 6 @ [CHR 0x27] @ '' is not modelled''))
           | Some op \<Rightarrow>
               and_then (key_evidence ParseEvidenceMask values 7 ''slots'') (\<lambda>slots.
               and_then (key_evidence ParseEvidenceAdmin values 7 ''admin'') (\<lambda>admin.
               and_then (key_u64 values 7 ''cost'') (\<lambda>cost. and_then (key_source values 7) (\<lambda>source.
               and_then (key_u64 values 7 ''gen'') (\<lambda>gen. and_then (key_domains values 7) (\<lambda>domains.
               added (AddCrossConnect \<lparr>cc_id = i, cc_from = from, cc_to = to, cc_op = op, cc_blocked_slots = slots,
                 cc_failure_domains = domains, cc_cost = cost, cc_admin = admin, cc_source = source,
                 cc_generation = gen\<rparr> b)))))))))"

definition parse_snapshot_record :: "double_chars \<Rightarrow> string list \<Rightarrow> SnapshotBuilder \<Rightarrow> SnapshotBuilder expected" where
  "parse_snapshot_record dc values b =
     (let keyword = values ! 0
      in if keyword = ''source'' then parse_source_record values b
         else if keyword = ''profile'' then parse_profile_record dc values b
         else if keyword = ''node'' then parse_node_record values b
         else if keyword = ''port'' then parse_port_record values b
         else if keyword = ''span'' then parse_span_record dc values b
         else parse_cross_connect_record values b)"

text \<open>The lambda \<open>fail\<close> of the second pass.\<close>

definition fail_record :: "nat \<Rightarrow> Status \<Rightarrow> Status" where
  "fail_record n st =
     (let normalised = NormaliseDecodeStatus st
      in Failure (code normalised) (''record '' @ to_string n @ '': '' @ detail normalised))"

fun parse_records :: "double_chars \<Rightarrow> nat \<Rightarrow> string list list \<Rightarrow> SnapshotBuilder \<Rightarrow> SnapshotBuilder expected" where
  "parse_records dc n [] b = Inr b"
| "parse_records dc n (values # rest) b =
     (case parse_snapshot_record dc values b of
        Inl e \<Rightarrow> Inl (fail_record n e)
      | Inr b' \<Rightarrow> parse_records dc (Suc n) rest b')"

definition ParseSnapshotText :: "double_chars \<Rightarrow> string \<Rightarrow> TopologySnapshot expected" where
  "ParseSnapshotText dc bs =
     (if length bs > kMaxSnapshotTextBytes
      then Inl (Failure LimitExceeded ''snapshot text exceeds the permitted maximum size'')
      else and_then (parse_lines parse_snapshot_line 1 (split_lines bs) start_snapshot) (\<lambda>st.
             if \<not> np_header_seen st then malformed ''snapshot is empty''
             else if \<not> np_have_id st then malformed ''snapshot id is missing''
             else if \<not> np_have_grid st then malformed ''spectrum grid is missing''
             else if \<not> np_have_slots st then malformed ''spectrum slot count is missing''
             else and_then (parse_records dc 1 (np_records st)
                    (SetSpectrum (np_spectrum st) (SetGeneration (np_snapshot_generation st)
                      (SetId (np_snapshot_id st) (new_builder default_options)))))
                    (\<lambda>b. fst (Build (ComputeSnapshotDigest dc) b))))"

definition LoadSnapshotFile :: "os \<Rightarrow> double_chars \<Rightarrow> string \<Rightarrow> filesystem \<Rightarrow> TopologySnapshot expected" where
  "LoadSnapshotFile sys dc path fs =
     and_then (ReadFileBounded sys path kMaxSnapshotTextBytes fs) (ParseSnapshotText dc)"

definition SaveSnapshotFile :: "os \<Rightarrow> double_chars \<Rightarrow> string \<Rightarrow> TopologySnapshot \<Rightarrow> filesystem \<Rightarrow> Status \<times> filesystem" where
  "SaveSnapshotFile sys dc path s fs = WriteFileAtomic sys path (SnapshotToText dc s) fs"

end
