(* ===== verification/Request_Text.thy ===== *)
theory Request_Text
  imports Request Validate Lines Sha256
begin

text \<open>
  The text of planning requests and validation policies (\<open>src/request_io.cpp\<close>): one record per line,
  the values by position.  The request digest is the SHA-256 digest of this text.
\<close>

section \<open>Writing\<close>

definition kRequestMagic :: string where "kRequestMagic = ''OPP-REQUEST''"
definition kRequestDigestDomain :: string where "kRequestDigestDomain = ''OPP-REQUEST-v1''"

definition bool_word :: "bool \<Rightarrow> string" where
  "bool_word b = (if b then ''true'' else ''false'')"

definition head_lines :: "PlanningRequest \<Rightarrow> string list" where
  "head_lines r =
     [kRequestMagic @ '' '' @ FormatU64 kRequestFormatVersion,
      Line_Add (rq_id r) ''id'',
      Line_Add (pk_port (rq_source r)) (Line_Add (pk_node (rq_source r)) ''source''),
      Line_Add (pk_port (rq_destination r)) (Line_Add (pk_node (rq_destination r)) ''destination''),
      Line_AddU64 (rq_channel_width_slots r) ''width'',
      Line_AddU64 (rq_max_candidates r) ''candidates'',
      Line_AddU64 (rq_max_regenerations r) ''regenerations'',
      Line_AddU64 (rq_max_hops r) ''hops'']"

definition optional_line :: "('a \<Rightarrow> 'b) \<Rightarrow> 'a option \<Rightarrow> 'b list" where
  "optional_line f v = (case v of None \<Rightarrow> [] | Some x \<Rightarrow> [f x])"

definition bound_lines :: "PlanningRequest \<Rightarrow> string list" where
  "bound_lines r =
     optional_line (\<lambda>c. Line_AddU64 (unat c) ''cost'') (rq_max_total_cost r) @
     [Line_Add (DisjointnessName (rq_disjointness r)) ''disjointness'',
      Line_Add (bool_word (rq_accept_restored_evidence r)) ''accept-restored-evidence'',
      Line_AddU64 (rq_max_search_expansions r) ''search-expansions'',
      Line_AddU64 (rq_max_search_labels r) ''search-labels''] @
     map (\<lambda>(s, g). Line_AddU64 (unat g) (Line_Add s ''srcgen'')) (rq_required_source_generations r) @
     optional_line (\<lambda>g. Line_AddU64 (unat g) ''snapshot-generation'') (rq_required_snapshot_generation r) @
     optional_line (\<lambda>d. Line_Add (ToHexImpl d) ''snapshot-digest'') (rq_expected_snapshot_digest r)"

definition constraint_lines :: "double_chars \<Rightarrow> ConstraintSet \<Rightarrow> string list" where
  "constraint_lines dc c =
     map (\<lambda>d. Line_Add d ''exclude-node'') (excluded_nodes c) @
     map (\<lambda>k. Line_Add (pk_port k) (Line_Add (pk_node k) ''exclude-port'')) (excluded_ports c) @
     map (\<lambda>d. Line_Add d ''exclude-span'') (excluded_spans c) @
     map (\<lambda>d. Line_Add d ''exclude-crossconnect'') (excluded_cross_connects c) @
     map (\<lambda>d. Line_Add d ''exclude-domain'') (excluded_failure_domains c) @
     map (\<lambda>(d, n). Line_AddU64 n (Line_Add d ''domain-limit'')) (max_members_per_failure_domain c) @
     optional_line (\<lambda>v. Line_AddU64 (unat v) ''max-distance'') (max_total_distance_m c) @
     optional_line (\<lambda>v. Line_AddU64 v ''max-spans'') (max_total_span_count c) @
     optional_line (\<lambda>v. Line_AddDouble dc v ''max-loss'') (max_total_loss_db c) @
     optional_line (\<lambda>v. Line_AddDouble dc v ''min-osnr'') (min_segment_osnr_db c) @
     [Line_Add (bool_word (allow_regeneration c)) ''allow-regeneration'',
      Line_Add (bool_word (allow_wavelength_conversion c)) ''allow-conversion'',
      Line_Add (bool_word (require_spectrum_continuity_across_regeneration c))
        ''require-spectrum-continuity-across-regeneration'',
      Line_Add (bool_word (allow_repeated_resources c)) ''allow-repeated-resources'']"

definition RequestToText :: "double_chars \<Rightarrow> PlanningRequest \<Rightarrow> string" where
  "RequestToText dc r = emit_lines (head_lines r @ bound_lines r @ constraint_lines dc (rq_constraints r))"

definition RequestCanonicalBytes :: "double_chars \<Rightarrow> PlanningRequest \<Rightarrow> string" where
  "RequestCanonicalBytes dc r = RequestToText dc r"

definition ComputeRequestDigest :: "double_chars \<Rightarrow> PlanningRequest \<Rightarrow> Digest256" where
  "ComputeRequestDigest dc r =
     Sha256_Finalize (Sha256_Update (bytes_of (RequestToText dc r))
       (Sha256_Update (bytes_of [CHR 0x0A]) (Sha256_Update (bytes_of kRequestDigestDomain) new_Sha256)))"

section \<open>Reading\<close>

definition Field :: "string list \<Rightarrow> nat \<Rightarrow> string \<Rightarrow> string expected" where
  "Field tokens i what =
     (if i \<ge> length tokens then Inl (Failure MalformedInput (''record is missing the '' @ what @ '' value''))
      else Inr (tokens ! i))"

text \<open>\<open>std::map::operator[]\<close> on the entries in key order.\<close>

fun map_assign :: "'k::linorder \<Rightarrow> 'v \<Rightarrow> ('k \<times> 'v) list \<Rightarrow> ('k \<times> 'v) list" where
  "map_assign k v [] = [(k, v)]"
| "map_assign k v ((k1, v1) # rest) =
     (if k = k1 then (k, v) # rest else if k < k1 then (k, v) # (k1, v1) # rest else (k1, v1) # map_assign k v rest)"

definition constrain :: "(ConstraintSet \<Rightarrow> ConstraintSet) \<Rightarrow> PlanningRequest \<Rightarrow> PlanningRequest" where
  "constrain f r = r\<lparr>rq_constraints := f (rq_constraints r)\<rparr>"

definition empty_constraints :: ConstraintSet where
  "empty_constraints =
     \<lparr>excluded_nodes = [], excluded_ports = [], excluded_spans = [], excluded_cross_connects = [],
      excluded_failure_domains = [], max_members_per_failure_domain = [], max_total_distance_m = None,
      max_total_span_count = None, max_total_loss_db = None, min_segment_osnr_db = None,
      allow_regeneration = True, allow_wavelength_conversion = True,
      require_spectrum_continuity_across_regeneration = False, allow_repeated_resources = False\<rparr>"

definition empty_request :: PlanningRequest where
  "empty_request =
     \<lparr>rq_format_version = kRequestFormatVersion, rq_id = [], rq_source = PortKey [] [], rq_destination = PortKey [] [],
      rq_channel_width_slots = 1, rq_max_candidates = 1, rq_max_regenerations = 8, rq_max_hops = 128,
      rq_max_total_cost = None, rq_disjointness = DisjointNone, rq_constraints = empty_constraints,
      rq_required_source_generations = [], rq_required_snapshot_generation = None, rq_expected_snapshot_digest = None,
      rq_accept_restored_evidence = False, rq_max_search_expansions = 400000, rq_max_search_labels = 800000\<rparr>"

record RequestParse =
  rp_request :: PlanningRequest
  rp_header_seen :: bool
  rp_have_id :: bool
  rp_have_source :: bool
  rp_have_destination :: bool

definition parse_request_header :: "string list \<Rightarrow> RequestParse \<Rightarrow> RequestParse expected" where
  "parse_request_header values st =
     (if length values \<noteq> 2 \<or> values ! 0 \<noteq> kRequestMagic
      then malformed ''request must start with the OPP-REQUEST magic line''
      else and_then (ParseU32 (values ! 1)) (\<lambda>version.
             if version \<noteq> kRequestFormatVersion
             then Inl (Failure Unsupported (''request format revision '' @ values ! 1 @ '' is not supported by this runtime''))
             else Inr (st\<lparr>rp_header_seen := True\<rparr>)))"

definition parse_two_ids :: "string list \<Rightarrow> PortKey expected" where
  "parse_two_ids values =
     and_then (Field values 1 ''node'') (\<lambda>node_text. and_then (Field values 2 ''port'') (\<lambda>port_text.
     and_then (ParseId node_text) (\<lambda>node. and_then (ParseId port_text) (\<lambda>port. Inr (PortKey node port)))))"

definition number_keywords :: "string list" where
  "number_keywords = [''width'', ''candidates'', ''regenerations'', ''hops'', ''search-expansions'', ''search-labels'',
     ''max-distance'', ''max-spans'']"

definition parse_number :: "string \<Rightarrow> string \<Rightarrow> PlanningRequest \<Rightarrow> PlanningRequest expected" where
  "parse_number keyword value_text r =
     (if keyword = ''width'' then and_then (ParseU16 value_text) (\<lambda>v. Inr (r\<lparr>rq_channel_width_slots := v\<rparr>))
      else if keyword = ''candidates'' then and_then (ParseU32 value_text) (\<lambda>v. Inr (r\<lparr>rq_max_candidates := v\<rparr>))
      else if keyword = ''regenerations'' then and_then (ParseU32 value_text) (\<lambda>v. Inr (r\<lparr>rq_max_regenerations := v\<rparr>))
      else if keyword = ''hops'' then and_then (ParseU32 value_text) (\<lambda>v. Inr (r\<lparr>rq_max_hops := v\<rparr>))
      else if keyword = ''search-expansions''
      then and_then (ParseU64 value_text) (\<lambda>v. Inr (r\<lparr>rq_max_search_expansions := v\<rparr>))
      else if keyword = ''search-labels'' then and_then (ParseU64 value_text) (\<lambda>v. Inr (r\<lparr>rq_max_search_labels := v\<rparr>))
      else if keyword = ''max-distance''
      then and_then (ParseU64 value_text) (\<lambda>v. Inr (constrain (\<lambda>c. c\<lparr>max_total_distance_m := Some (of_nat v)\<rparr>) r))
      else and_then (ParseU32 value_text) (\<lambda>v. Inr (constrain (\<lambda>c. c\<lparr>max_total_span_count := Some v\<rparr>) r)))"

definition exclude_keywords :: "string list" where
  "exclude_keywords = [''exclude-node'', ''exclude-span'', ''exclude-crossconnect'', ''exclude-domain'']"

definition exclude_id :: "string \<Rightarrow> string \<Rightarrow> ConstraintSet \<Rightarrow> ConstraintSet" where
  "exclude_id keyword x c =
     (if keyword = ''exclude-node'' then c\<lparr>excluded_nodes := excluded_nodes c @ [x]\<rparr>
      else if keyword = ''exclude-span'' then c\<lparr>excluded_spans := excluded_spans c @ [x]\<rparr>
      else if keyword = ''exclude-crossconnect'' then c\<lparr>excluded_cross_connects := excluded_cross_connects c @ [x]\<rparr>
      else c\<lparr>excluded_failure_domains := excluded_failure_domains c @ [x]\<rparr>)"

definition flag_keywords :: "string list" where
  "flag_keywords = [''accept-restored-evidence'', ''allow-regeneration'', ''allow-conversion'',
     ''require-spectrum-continuity-across-regeneration'', ''allow-repeated-resources'']"

definition set_flag :: "string \<Rightarrow> bool \<Rightarrow> PlanningRequest \<Rightarrow> PlanningRequest" where
  "set_flag keyword b r =
     (if keyword = ''accept-restored-evidence'' then r\<lparr>rq_accept_restored_evidence := b\<rparr>
      else if keyword = ''allow-regeneration'' then constrain (\<lambda>c. c\<lparr>allow_regeneration := b\<rparr>) r
      else if keyword = ''allow-conversion'' then constrain (\<lambda>c. c\<lparr>allow_wavelength_conversion := b\<rparr>) r
      else if keyword = ''require-spectrum-continuity-across-regeneration''
      then constrain (\<lambda>c. c\<lparr>require_spectrum_continuity_across_regeneration := b\<rparr>) r
      else constrain (\<lambda>c. c\<lparr>allow_repeated_resources := b\<rparr>) r)"

text \<open>The records that set a field of the request, and those that also set one of the seen flags.\<close>

definition parse_request_field :: "double_chars \<Rightarrow> string list \<Rightarrow> PlanningRequest \<Rightarrow> PlanningRequest expected" where
  "parse_request_field dc values r =
     (let keyword = values ! 0
      in if keyword \<in> set number_keywords
         then and_then (Field values 1 keyword) (\<lambda>value_text. parse_number keyword value_text r)
         else if keyword = ''cost''
         then and_then (Field values 1 ''cost'') (\<lambda>value_text. and_then (ParseU64 value_text)
                (\<lambda>v. Inr (r\<lparr>rq_max_total_cost := Some (of_nat v)\<rparr>)))
         else if keyword = ''snapshot-generation''
         then and_then (Field values 1 ''snapshot-generation'') (\<lambda>value_text. and_then (ParseU64 value_text)
                (\<lambda>v. Inr (r\<lparr>rq_required_snapshot_generation := Some (of_nat v)\<rparr>)))
         else if keyword = ''snapshot-digest''
         then and_then (Field values 1 ''snapshot-digest'') (\<lambda>value_text. and_then (Digest256_FromHex value_text)
                (\<lambda>d. Inr (r\<lparr>rq_expected_snapshot_digest := Some d\<rparr>)))
         else if keyword = ''disjointness''
         then and_then (Field values 1 ''disjointness'') (\<lambda>value_text.
                case ParseDisjointness value_text of
                  None \<Rightarrow> malformed ''disjointness token is not recognised''
                | Some d \<Rightarrow> Inr (r\<lparr>rq_disjointness := d\<rparr>))
         else if keyword = ''srcgen''
         then and_then (Field values 1 ''source'') (\<lambda>id_text. and_then (Field values 2 ''generation'') (\<lambda>gen_text.
              and_then (ParseId id_text) (\<lambda>source. and_then (ParseU64 gen_text) (\<lambda>gen.
                Inr (r\<lparr>rq_required_source_generations :=
                     map_assign source (of_nat gen) (rq_required_source_generations r)\<rparr>)))))
         else if keyword \<in> set exclude_keywords
         then and_then (Field values 1 keyword) (\<lambda>id_text. and_then (ParseId id_text)
                (\<lambda>x. Inr (constrain (exclude_id keyword x) r)))
         else if keyword = ''exclude-port''
         then and_then (parse_two_ids values)
                (\<lambda>k. Inr (constrain (\<lambda>c. c\<lparr>excluded_ports := excluded_ports c @ [k]\<rparr>) r))
         else if keyword = ''domain-limit''
         then and_then (Field values 1 ''domain'') (\<lambda>id_text. and_then (Field values 2 ''limit'') (\<lambda>limit_text.
              and_then (ParseId id_text) (\<lambda>x. and_then (ParseU32 limit_text) (\<lambda>limit.
                Inr (constrain (\<lambda>c. c\<lparr>max_members_per_failure_domain :=
                     map_assign x limit (max_members_per_failure_domain c)\<rparr>) r)))))
         else if keyword = ''max-loss''
         then and_then (Field values 1 keyword) (\<lambda>value_text. and_then (ParseDouble dc value_text)
                (\<lambda>v. Inr (constrain (\<lambda>c. c\<lparr>max_total_loss_db := Some v\<rparr>) r)))
         else if keyword = ''min-osnr''
         then and_then (Field values 1 keyword) (\<lambda>value_text. and_then (ParseDouble dc value_text)
                (\<lambda>v. Inr (constrain (\<lambda>c. c\<lparr>min_segment_osnr_db := Some v\<rparr>) r)))
         else if keyword \<in> set flag_keywords
         then and_then (Field values 1 keyword) (\<lambda>value_text. and_then (ParseBoolToken value_text)
                (\<lambda>b. Inr (set_flag keyword b r)))
         else malformed (''unknown request record '' @ [CHR 0x27] @ keyword @ [CHR 0x27]))"

definition parse_request_record :: "double_chars \<Rightarrow> string list \<Rightarrow> RequestParse \<Rightarrow> RequestParse expected" where
  "parse_request_record dc values st =
     (let keyword = values ! 0; r = rp_request st
      in if keyword = ''id''
         then and_then (Field values 1 ''id'') (\<lambda>text_value. and_then (ParseId text_value)
                (\<lambda>x. Inr (st\<lparr>rp_request := r\<lparr>rq_id := x\<rparr>, rp_have_id := True\<rparr>)))
         else if keyword = ''source''
         then and_then (parse_two_ids values)
                (\<lambda>k. Inr (st\<lparr>rp_request := r\<lparr>rq_source := k\<rparr>, rp_have_source := True\<rparr>))
         else if keyword = ''destination''
         then and_then (parse_two_ids values)
                (\<lambda>k. Inr (st\<lparr>rp_request := r\<lparr>rq_destination := k\<rparr>, rp_have_destination := True\<rparr>))
         else and_then (parse_request_field dc values r) (\<lambda>r'. Inr (st\<lparr>rp_request := r'\<rparr>)))"

definition parse_request_line :: "double_chars \<Rightarrow> nat \<Rightarrow> string list \<Rightarrow> RequestParse \<Rightarrow> RequestParse expected" where
  "parse_request_line dc n values st =
     (if \<not> rp_header_seen st then parse_request_header values st
      else case parse_request_record dc values st of Inl e \<Rightarrow> Inl (fail_line n e) | Inr st' \<Rightarrow> Inr st')"

definition start_request :: RequestParse where
  "start_request = \<lparr>rp_request = empty_request, rp_header_seen = False, rp_have_id = False, rp_have_source = False,
     rp_have_destination = False\<rparr>"

definition ParseRequestText :: "double_chars \<Rightarrow> string \<Rightarrow> PlanningRequest expected" where
  "ParseRequestText dc bs =
     and_then (parse_lines (parse_request_line dc) 1 (split_lines bs) start_request) (\<lambda>st.
       if \<not> rp_header_seen st then malformed ''request is empty''
       else if \<not> rp_have_id st then malformed ''request id is missing''
       else if \<not> rp_have_source st then malformed ''request source is missing''
       else if \<not> rp_have_destination st then malformed ''request destination is missing''
       else Inr (rp_request st))"

section \<open>Validation policies\<close>

definition ValidationPolicyToText :: "ValidationPolicy \<Rightarrow> string" where
  "ValidationPolicyToText policy =
     emit_lines [''OPP-VALIDATION-POLICY 1'',
       Line_Add (bool_word (vp_accept_restored_evidence policy)) ''accept-restored-evidence'',
       Line_Add (bool_word (vp_revalidate_on_mismatch policy)) ''revalidate-on-mismatch'']"

definition parse_policy_line :: "string list \<Rightarrow> bool \<times> ValidationPolicy \<Rightarrow> (bool \<times> ValidationPolicy) expected" where
  "parse_policy_line values st =
     (if \<not> fst st
      then if length values \<noteq> 2 \<or> values ! 0 \<noteq> ''OPP-VALIDATION-POLICY''
           then malformed ''policy must start with the OPP-VALIDATION-POLICY magic line''
           else Inr (True, snd st)
      else and_then (Field values 1 (values ! 0)) (\<lambda>value_text. and_then (ParseBoolToken value_text) (\<lambda>b.
             if values ! 0 = ''accept-restored-evidence''
             then Inr (True, (snd st)\<lparr>vp_accept_restored_evidence := b\<rparr>)
             else if values ! 0 = ''revalidate-on-mismatch''
             then Inr (True, (snd st)\<lparr>vp_revalidate_on_mismatch := b\<rparr>)
             else malformed (''unknown validation policy record '' @ [CHR 0x27] @ values ! 0 @ [CHR 0x27]))))"

text \<open>The policy parser returns the status of a line that does not split as it is, without a line number.\<close>

fun parse_policy_lines :: "string list \<Rightarrow> bool \<times> ValidationPolicy \<Rightarrow> (bool \<times> ValidationPolicy) expected" where
  "parse_policy_lines [] st = Inr st"
| "parse_policy_lines (l # ls) st =
     (let line = strip_cr l
      in if line = [] then parse_policy_lines ls st
         else and_then (SplitTokens line) (\<lambda>values. and_then (parse_policy_line values st) (parse_policy_lines ls)))"

definition ParseValidationPolicyText :: "string \<Rightarrow> ValidationPolicy expected" where
  "ParseValidationPolicyText bs =
     and_then (parse_policy_lines (split_lines bs)
       (False, \<lparr>vp_accept_restored_evidence = False, vp_revalidate_on_mismatch = False\<rparr>)) (\<lambda>st.
       if \<not> fst st then malformed ''validation policy is empty'' else Inr (snd st))"

end
