(* ===== verification/Result_Text.thy ===== *)
theory Result_Text
  imports Planner Plan_Text Lines Validate
begin

text \<open>
  The text of planning results (\<open>src/result.cpp\<close>): the canonical text that is sealed and sent to
  clients, its parser, which hands the lines of an embedded plan to the plan parser, and the explanation
  for people.
\<close>

section \<open>Explanations\<close>

definition kReasonSourceEvidencePresent :: u32 where "kReasonSourceEvidencePresent = push_bit 11 1"

definition kReasonNames :: "(u32 \<times> string) list" where
  "kReasonNames =
     [(kReasonAdminUp, ''admin_up''), (kReasonNotExcluded, ''not_excluded''), (kReasonPortAdmitted, ''port_admitted''),
      (kReasonSpectrumAvailable, ''spectrum_available''), (kReasonWithinReachDistance, ''within_reach_distance''),
      (kReasonWithinReachSpans, ''within_reach_spans''), (kReasonWithinReachLoss, ''within_reach_loss''),
      (kReasonWithinReachOsnr, ''within_reach_osnr''), (kReasonRegenerationBoundary, ''regeneration_boundary''),
      (kReasonWavelengthConversion, ''wavelength_conversion''),
      (kReasonFailureDomainWithinLimit, ''failure_domain_within_limit''),
      (kReasonSourceEvidencePresent, ''source_evidence_present''), (kReasonSegmentStart, ''segment_start''),
      (kReasonTransmitProfileKnown, ''transmit_profile_known'')]"

definition DescribeEligibility :: "u32 \<Rightarrow> string" where
  "DescribeEligibility reason_bits =
     (let out = fold (\<lambda>(b, name) out. if reason_bits AND b = 0 then out
                        else (if out \<noteq> [] then out @ '','' else out) @ name) kReasonNames []
      in if out = [] then ''none'' else out)"

definition FormatSafe :: "double_chars \<Rightarrow> double \<Rightarrow> string" where
  "FormatSafe dc v = (case FormatDouble dc v of Inr t \<Rightarrow> t | Inl _ \<Rightarrow> ''nan'')"

fun outcome_explanation :: "PlanOutcome \<Rightarrow> string" where
  "outcome_explanation OutFeasible = ''a proven route satisfies every declared constraint''"
| "outcome_explanation OutInfeasible =
     ''the search exhausted the reachable state space and every label was cut for a proven reason''"
| "outcome_explanation OutIndeterminate = ''missing, stale or conflicting evidence prevents proof either way''"
| "outcome_explanation OutUnsupported = ''the requested semantics are outside the modelled capability surface''"
| "outcome_explanation OutCancelled = ''the caller cancelled the search before a candidate was produced''"
| "outcome_explanation OutRefused = ''the request was rejected before any search started''"

definition ExplainOutcome :: "PlanningResult \<Rightarrow> string" where
  "ExplainOutcome res =
     PlanOutcomeName (res_outcome res) @ '': '' @ outcome_explanation (res_outcome res) @
     (if failed (res_status res)
      then '' ['' @ StatusCodeName (code (res_status res)) @ ''] '' @ detail (res_status res) else [])"

definition explain_step :: "PlanStep \<Rightarrow> string" where
  "explain_step st =
     ''  step '' @ FormatU64 (ps_index st) @ '' '' @ StepKindName (ps_kind st) @ '' '' @
     ResourceKeyToString (ps_resource st) @ '' segment='' @ FormatU64 (ps_segment_index st) @ '' reasons='' @
     DescribeEligibility (ps_reason_bits st) @ nl"

definition explain_span :: "double_chars \<Rightarrow> PlanSpanUse \<Rightarrow> string" where
  "explain_span dc u =
     ''    span '' @ su_id u @ '' '' @ CanonicalText (su_from u) @ '' -> '' @ CanonicalText (su_to u) @
     '' slot='' @ FormatU64 (su_first_slot u) @ '' length_m='' @ FormatU64 (unat (su_length_m u)) @
     '' loss_db='' @ FormatSafe dc (su_loss_db u) @ '' osnr_db='' @ FormatSafe dc (su_osnr_db u) @ nl"

definition explain_segment :: "double_chars \<Rightarrow> PlanSegment \<Rightarrow> string" where
  "explain_segment dc g =
     ''  segment '' @ FormatU64 (sg_index g) @ '' profile='' @ sg_profile g @ '' channel_runs='' @
     FormatU64 (sg_channel_runs g) @ '' spans='' @ FormatU64 (sg_span_count g) @ '' distance_m='' @
     FormatU64 (unat (sg_distance_m g)) @ '' loss_db='' @ FormatSafe dc (sg_loss_db g) @ '' osnr_db='' @
     FormatSafe dc (sg_osnr_db g) @ (if sg_ended_by_regeneration g then '' ended_by_regeneration'' else []) @ nl @
     concat (map (explain_span dc) (sg_spans g))"

definition explain_candidate :: "double_chars \<Rightarrow> nat \<Rightarrow> PlanArtifact \<Rightarrow> string" where
  "explain_candidate dc i plan =
     ''candidate '' @ FormatU64 i @ '' digest='' @ ToHexImpl (pl_digest plan) @ '' cost='' @
     FormatU64 (unat (pl_total_cost plan)) @ '' hops='' @ FormatU64 (pl_hops plan) @ '' distance_m='' @
     FormatU64 (unat (pl_total_distance_m plan)) @ '' regenerations='' @ FormatU64 (pl_regenerations plan) @ nl @
     concat (map explain_step (pl_steps plan)) @ concat (map (explain_segment dc) (pl_segments plan)) @
     concat (map (\<lambda>v. ''  reservation '' @ ResourceKeyToString (rv_resource v) @ '' channel='' @
       FormatU64 (first_slot (rv_channel v)) @ ''+'' @ FormatU64 (width_slots (rv_channel v)) @ nl) (pl_reservations plan)) @
     concat (map (\<lambda>e. ''  exposure '' @ ex_id e @ '' members='' @ FormatU64 (ex_member_count e) @ '' limit='' @
       FormatU64 (ex_limit e) @ nl) (pl_failure_domain_exposure plan))"

definition Result_ExplainText :: "double_chars \<Rightarrow> PlanningResult \<Rightarrow> string" where
  "Result_ExplainText dc res =
     ''outcome: '' @ PlanOutcomeName (res_outcome res) @ nl @
     (if failed (res_status res)
      then ''status: '' @ StatusCodeName (code (res_status res)) @ '' '' @ detail (res_status res) @ nl else []) @
     ''explanation: '' @ ExplainOutcome res @ nl @
     ''limitations: '' @ DescribeLimitations (res_limitations res) @ nl @
     ''optimality_proven: '' @ bool_text (res_optimality_proven res) @ nl @
     ''search: labels_created='' @ FormatU64 (labels_created (res_statistics res)) @
     '' labels_expanded='' @ FormatU64 (labels_expanded (res_statistics res)) @
     '' labels_dominated='' @ FormatU64 (labels_dominated (res_statistics res)) @
     '' states_visited='' @ FormatU64 (states_visited (res_statistics res)) @
     '' peak_frontier='' @ FormatU64 (peak_frontier (res_statistics res)) @
     '' truncated='' @ bool_text (stat_truncated (res_statistics res)) @ nl @
     concat (map (\<lambda>c. ''cut '' @ CutReasonName (cut_reason c) @ '' '' @ FormatU64 (cut_count c) @ nl) (res_cuts res)) @
     concat (map (\<lambda>w. ''witness '' @ CutReasonName (w_reason w) @ '' '' @ ResourceKeyToString (w_resource w) @
       (if w_detail w \<noteq> [] then '' '' @ w_detail w else []) @ nl) (res_witnesses res)) @
     concat (map (\<lambda>(i, p). explain_candidate dc i p) (enumerate 0 (res_candidates res)))"

section \<open>Writing\<close>

definition kResultDigestDomain :: string where "kResultDigestDomain = ''OPP-RESULT-v1''"

definition result_head_lines :: "PlanningResult \<Rightarrow> string list" where
  "result_head_lines res =
     [''OPP-RESULT 1'',
      Line_Add (PlanOutcomeName (res_outcome res)) ''outcome'',
      Line_AddKeyToken ''detail'' (detail (res_status res)) (Line_Add (StatusCodeName (code (res_status res))) ''status''),
      Line_Add (ToHexImpl (res_request_digest res)) ''request-digest'',
      Line_Add (ToHexImpl (res_snapshot_digest res)) ''snapshot-digest'',
      Line_AddKeyToken ''names'' (DescribeLimitations (res_limitations res))
        (Line_AddU64 (unat (res_limitations res)) ''limitations''),
      Line_Add (if res_optimality_proven res then ''proven'' else ''not_proven'') ''optimality'']"

definition statistics_line :: "PlanningStatistics \<Rightarrow> string" where
  "statistics_line st =
     Line_AddKeyU64 ''truncated'' (if stat_truncated st then 1 else 0)
     (Line_AddKeyU64 ''states_visited'' (states_visited st) (Line_AddKeyU64 ''arcs_examined'' (arcs_examined st)
     (Line_AddKeyU64 ''peak_frontier'' (peak_frontier st) (Line_AddKeyU64 ''labels_dominated'' (labels_dominated st)
     (Line_AddKeyU64 ''labels_expanded'' (labels_expanded st)
     (Line_AddKeyU64 ''labels_created'' (labels_created st) ''statistics''))))))"

definition witness_line :: "Witness \<Rightarrow> string" where
  "witness_line w =
     Line_AddKeyToken ''detail'' (w_detail w) (Line_AddKeyToken ''res'' (ResourceKeyToString (w_resource w))
       (Line_Add (CutReasonName (w_reason w)) ''witness''))"

definition cut_line :: "CutCount \<Rightarrow> string" where
  "cut_line c = Line_AddU64 (cut_count c) (Line_Add (CutReasonName (cut_reason c)) ''cut'')"

definition candidate_text :: "double_chars \<Rightarrow> PlanArtifact \<Rightarrow> string" where
  "candidate_text dc plan =
     emit_lines [Line_Add (ToHexImpl (pl_digest plan)) ''candidate'', ''candidate-plan-begin''] @
     CanonicalBytes dc plan @ emit_lines [''candidate-plan-end'']"

definition ResultToTextImpl :: "double_chars \<Rightarrow> PlanningResult \<Rightarrow> string" where
  "ResultToTextImpl dc res =
     emit_lines (result_head_lines res @ [statistics_line (res_statistics res)] @ map witness_line (res_witnesses res) @
       map cut_line (res_cuts res)) @
     concat (map (candidate_text dc) (res_candidates res)) @
     emit_lines [Line_Add (ToHexImpl (res_result_digest res)) ''digest'']"

definition Result_CanonicalBytes :: "double_chars \<Rightarrow> PlanningResult \<Rightarrow> string" where
  "Result_CanonicalBytes dc res = ResultToTextImpl dc res"

text \<open>The digest part of \<open>Seal\<close>, applied by \<open>SealResult\<close> to the copy with the zeroed digest.\<close>

definition result_text_digest :: "double_chars \<Rightarrow> PlanningResult \<Rightarrow> Digest256" where
  "result_text_digest dc copy =
     Sha256_Finalize (Sha256_Update (bytes_of (Result_CanonicalBytes dc copy))
       (Sha256_Update (bytes_of [CHR 0x0A]) (Sha256_Update (bytes_of kResultDigestDomain) new_Sha256)))"

section \<open>Reading\<close>

record ResultParse =
  qp_result :: PlanningResult
  qp_header_seen :: bool
  qp_digest_seen :: bool
  qp_in_candidate :: bool
  qp_candidate_buffer :: string
  qp_expected_digests :: "Digest256 list"

definition empty_result :: PlanningResult where
  "empty_result =
     \<lparr>res_outcome = OutRefused, res_status = OkStatus, res_request_digest = zero_digest, res_snapshot_digest = zero_digest,
      res_candidates = [], res_witnesses = [], res_limitations = kLimitationNone, res_cuts = [],
      res_statistics = no_statistics, res_optimality_proven = False, res_result_digest = zero_digest\<rparr>"

definition start_result :: ResultParse where
  "start_result = \<lparr>qp_result = empty_result, qp_header_seen = False, qp_digest_seen = False, qp_in_candidate = False,
     qp_candidate_buffer = [], qp_expected_digests = []\<rparr>"

definition in_result :: "(PlanningResult \<Rightarrow> PlanningResult) \<Rightarrow> ResultParse \<Rightarrow> ResultParse" where
  "in_result f st = st\<lparr>qp_result := f (qp_result st)\<rparr>"

text \<open>A line between \<open>candidate-plan-begin\<close> and \<open>candidate-plan-end\<close>.\<close>

definition parse_candidate_line :: "double_chars \<Rightarrow> string \<Rightarrow> ResultParse \<Rightarrow> ResultParse expected" where
  "parse_candidate_line dc line st =
     (if line = ''candidate-plan-end''
      then case ParsePlanArtifact dc (qp_candidate_buffer st) of
             Inl e \<Rightarrow> Inl (Failure (code e) (''candidate plan: '' @ detail e))
           | Inr plan \<Rightarrow>
               if qp_expected_digests st \<noteq> [] \<and> pl_digest plan \<noteq> last (qp_expected_digests st)
               then Inl (Failure IntegrityFailure ''candidate plan digest disagrees with its index record'')
               else Inr ((in_result (\<lambda>res. res\<lparr>res_candidates := res_candidates res @ [plan]\<rparr>) st)
                      \<lparr>qp_candidate_buffer := [], qp_in_candidate := False\<rparr>)
      else let buffer = qp_candidate_buffer st @ line @ [CHR 0x0A]
           in if length buffer > kMaxPlanArtifactBytes
              then Inl (Failure LimitExceeded ''candidate plan exceeds the permitted maximum size'')
              else Inr (st\<lparr>qp_candidate_buffer := buffer\<rparr>))"

definition all_outcomes :: "PlanOutcome list" where
  "all_outcomes = [OutFeasible, OutInfeasible, OutIndeterminate, OutUnsupported, OutCancelled, OutRefused]"

definition kCodes :: "StatusCode list" where
  "kCodes = [Ok, InvalidArgument, MalformedInput, LimitExceeded, DuplicateIdentity, NotFound, ConflictingEvidence,
     Unsupported, Stale, Fenced, Cancelled, Truncated, IntegrityFailure, IoFailure, Refused, Exhausted, Overflow, Internal]"

text \<open>An optional \<open>detail\<close> field: the previous value stays when there is none.\<close>

definition parse_detail :: "string list \<Rightarrow> string \<Rightarrow> string expected" where
  "parse_detail values old = (case FindKeyedField values 2 ''detail'' of Inr raw \<Rightarrow> DecodeToken raw | Inl _ \<Rightarrow> Inr old)"

definition parse_status :: "string list \<Rightarrow> Status \<Rightarrow> Status expected" where
  "parse_status values old =
     (if length values < 2 then malformed ''status takes a code''
      else case find (\<lambda>c. StatusCodeName c = values ! 1) kCodes of
             None \<Rightarrow> malformed ''status code is not recognised''
           | Some c \<Rightarrow> and_then (parse_detail values (detail old)) (\<lambda>t. Inr \<lparr>code = c, detail = t\<rparr>))"

definition parse_statistics :: "string list \<Rightarrow> PlanningStatistics expected" where
  "parse_statistics values =
     (let read = (\<lambda>key. and_then (FindKeyedField values 1 key) ParseU64)
      in and_then (read ''labels_created'') (\<lambda>created. and_then (read ''labels_expanded'') (\<lambda>expanded.
         and_then (read ''labels_dominated'') (\<lambda>dominated. and_then (read ''peak_frontier'') (\<lambda>frontier.
         and_then (read ''arcs_examined'') (\<lambda>arcs. and_then (read ''states_visited'') (\<lambda>visited.
         and_then (read ''truncated'') (\<lambda>truncated.
         Inr \<lparr>labels_created = created, labels_expanded = expanded, labels_dominated = dominated,
           peak_frontier = frontier, arcs_examined = arcs, states_visited = visited,
           stat_truncated = (truncated \<noteq> 0)\<rparr>))))))))"

definition parse_witness :: "string list \<Rightarrow> Witness expected" where
  "parse_witness values =
     (if length values < 2 then malformed ''witness takes a reason''
      else case FindCutReasonByName (values ! 1) of
             None \<Rightarrow> malformed ''witness reason is not recognised''
           | Some reason \<Rightarrow>
               and_then (FindKeyedField values 2 ''res'') (\<lambda>raw. and_then (DecodeToken raw) (\<lambda>t.
               and_then (ResourceKeyFromString t) (\<lambda>resource. and_then (parse_detail values []) (\<lambda>d.
               Inr \<lparr>w_reason = reason, w_resource = resource, w_detail = d\<rparr>)))))"

definition parse_cut :: "string list \<Rightarrow> CutCount expected" where
  "parse_cut values =
     (if length values \<noteq> 3 then malformed ''cut takes a reason and a count''
      else case FindCutReasonByName (values ! 1) of
             None \<Rightarrow> malformed ''cut reason is not recognised''
           | Some reason \<Rightarrow> and_then (ParseU64 (values ! 2)) (\<lambda>n. Inr \<lparr>cut_reason = reason, cut_count = n\<rparr>))"

definition parse_result_digest :: "string \<Rightarrow> string list \<Rightarrow> Digest256 expected" where
  "parse_result_digest why values = (if length values \<noteq> 2 then malformed why else Digest256_FromHex (values ! 1))"

definition parse_result_record :: "string list \<Rightarrow> ResultParse \<Rightarrow> ResultParse expected" where
  "parse_result_record values st =
     (let keyword = values ! 0; res = qp_result st
      in if keyword = ''outcome''
         then if length values \<noteq> 2 then malformed ''outcome takes one value''
              else case find (\<lambda>c. PlanOutcomeName c = values ! 1) all_outcomes of
                     None \<Rightarrow> malformed ''outcome value is not recognised''
                   | Some outcome \<Rightarrow> Inr (st\<lparr>qp_result := res\<lparr>res_outcome := outcome\<rparr>\<rparr>)
         else if keyword = ''status''
         then and_then (parse_status values (res_status res)) (\<lambda>s. Inr (st\<lparr>qp_result := res\<lparr>res_status := s\<rparr>\<rparr>))
         else if keyword = ''request-digest'' \<or> keyword = ''snapshot-digest''
         then and_then (parse_result_digest ''digest record takes one value'' values) (\<lambda>d.
                Inr (st\<lparr>qp_result := if keyword = ''request-digest'' then res\<lparr>res_request_digest := d\<rparr>
                                     else res\<lparr>res_snapshot_digest := d\<rparr>\<rparr>))
         else if keyword = ''limitations''
         then if length values < 2 then malformed ''limitations takes a mask''
              else and_then (ParseU32 (values ! 1)) (\<lambda>v. Inr (st\<lparr>qp_result := res\<lparr>res_limitations := of_nat v\<rparr>\<rparr>))
         else if keyword = ''optimality''
         then if length values \<noteq> 2 then malformed ''optimality takes one value''
              else if values ! 1 = ''proven'' then Inr (st\<lparr>qp_result := res\<lparr>res_optimality_proven := True\<rparr>\<rparr>)
              else if values ! 1 = ''not_proven'' then Inr (st\<lparr>qp_result := res\<lparr>res_optimality_proven := False\<rparr>\<rparr>)
              else malformed ''optimality value is not recognised''
         else if keyword = ''statistics''
         then and_then (parse_statistics values) (\<lambda>s. Inr (st\<lparr>qp_result := res\<lparr>res_statistics := s\<rparr>\<rparr>))
         else if keyword = ''witness''
         then and_then (parse_witness values) (\<lambda>w. Inr (st\<lparr>qp_result := res\<lparr>res_witnesses := res_witnesses res @ [w]\<rparr>\<rparr>))
         else if keyword = ''cut''
         then and_then (parse_cut values) (\<lambda>c. Inr (st\<lparr>qp_result := res\<lparr>res_cuts := res_cuts res @ [c]\<rparr>\<rparr>))
         else if keyword = ''candidate''
         then and_then (parse_result_digest ''candidate takes a digest'' values) (\<lambda>d.
                Inr (st\<lparr>qp_expected_digests := qp_expected_digests st @ [d]\<rparr>))
         else if keyword = ''digest''
         then and_then (parse_result_digest ''digest takes one value'' values) (\<lambda>d.
                Inr (st\<lparr>qp_result := res\<lparr>res_result_digest := d\<rparr>, qp_digest_seen := True\<rparr>))
         else malformed (''unknown result record '' @ [CHR 0x27] @ keyword @ [CHR 0x27]))"

definition parse_result_line :: "nat \<Rightarrow> string list \<Rightarrow> ResultParse \<Rightarrow> ResultParse expected" where
  "parse_result_line n values st =
     (if \<not> qp_header_seen st
      then if length values \<noteq> 2 \<or> values ! 0 \<noteq> ''OPP-RESULT''
           then malformed ''result must start with the OPP-RESULT magic line''
           else Inr (st\<lparr>qp_header_seen := True\<rparr>)
      else if qp_digest_seen st then malformed ''result content appears after the digest line''
      else if values ! 0 = ''candidate-plan-begin'' then Inr (st\<lparr>qp_in_candidate := True, qp_candidate_buffer := []\<rparr>)
      else case parse_result_record values st of Inl e \<Rightarrow> Inl (fail_line n e) | Inr st' \<Rightarrow> Inr st')"

fun parse_result_lines :: "double_chars \<Rightarrow> nat \<Rightarrow> string list \<Rightarrow> ResultParse \<Rightarrow> ResultParse expected" where
  "parse_result_lines dc n [] st = Inr st"
| "parse_result_lines dc n (l # ls) st =
     (let line = strip_cr l
      in if qp_in_candidate st then and_then (parse_candidate_line dc line st) (parse_result_lines dc (Suc n) ls)
         else if line = [] then parse_result_lines dc (Suc n) ls st
         else case SplitTokens line of
                Inl e \<Rightarrow> Inl (at_line n e)
              | Inr values \<Rightarrow> and_then (parse_result_line n values st) (parse_result_lines dc (Suc n) ls))"

definition ParseResultText :: "double_chars \<Rightarrow> string \<Rightarrow> PlanningResult expected" where
  "ParseResultText dc bs =
     and_then (parse_result_lines dc 1 (split_lines bs) start_result) (\<lambda>st.
       if \<not> qp_header_seen st then malformed ''result is empty''
       else if \<not> qp_digest_seen st then malformed ''result is missing its digest line''
       else if qp_in_candidate st then malformed ''result ends inside a candidate plan''
       else let res = qp_result st; copy = SealResult (result_text_digest dc) res
            in if res_result_digest copy \<noteq> res_result_digest res
               then Inl (Failure IntegrityFailure ''result digest does not match its content'')
               else Inr res)"

end
