(* ===== verification/Service.thy ===== *)
theory Service
  imports Transport Incarnation Store Snapshot_Text Request_Text Result_Text Validate
begin

text \<open>
  The inspection service (\<open>include/opp/service.hpp\<close>, \<open>src/service.cpp\<close>): start-up, the handler of every
  request, the loop of a connection and the decisions of the accept loop.  The members that the mutex
  guards, the stop flag and the connection tables form the record \<open>Service\<close>; the file system is passed
  beside it.  With this theory the digest parameters of the planner and the validator are the digests of
  the code (\<open>code_digests\<close>).
\<close>

section \<open>Versions and digests\<close>

definition VersionString :: string where "VersionString = ''1.0.0''"
definition LibraryName :: string where "LibraryName = ''OpticalPathPlanner''"

definition FormatSafeDouble :: "double_chars \<Rightarrow> double \<Rightarrow> string" where
  "FormatSafeDouble dc v = (case FormatDouble dc v of Inr t \<Rightarrow> t | Inl _ \<Rightarrow> ''0'')"

definition code_digests :: "double_chars \<Rightarrow> digests" where
  "code_digests dc = \<lparr>dg_request = ComputeRequestDigest dc, dg_plan = plan_text_digest dc,
     dg_contribution = SourceContributionDigest dc, dg_format_double = FormatSafeDouble dc\<rparr>"

section \<open>The state\<close>

record ServiceOptions =
  vo_state_dir :: string
  vo_store_root :: string
  vo_bind_address :: string
  vo_max_connections :: nat
  vo_max_frame_bytes :: nat
  vo_max_stored_plans :: nat
  vo_expansion_ceiling :: nat
  vo_persist_snapshots :: bool

record ServiceStats =
  ss_connections_accepted :: u64
  ss_frames_handled :: u64
  ss_frames_rejected :: u64
  ss_snapshots_ingested :: u64
  ss_plans_computed :: u64
  ss_plans_rejected :: u64
  ss_plans_cancelled :: u64
  ss_active_requests :: u64
  ss_fenced_frames :: u64

text \<open>
  \<open>sv_workers\<close> is the size of \<open>workers_\<close>; \<open>sv_cancellations\<close> says of each token whether cancellation was
  requested; \<open>sv_store\<close> are the options of the open store; \<open>sv_listener\<close> is the pointer \<open>listener_\<close> cast to a
  descriptor, 0 when it is null.
\<close>

record Service =
  sv_options :: ServiceOptions
  sv_incarnation :: IncarnationState
  sv_bound_port :: nat
  sv_listener :: int
  sv_stopping :: bool
  sv_snapshot :: "TopologySnapshot option"
  sv_snapshot_fresh :: bool
  sv_store :: StoreOptions
  sv_workers :: nat
  sv_active_connections :: "nat list"
  sv_cancellations :: "(u64 \<times> bool) list"
  sv_stats :: ServiceStats

definition zero_stats :: ServiceStats where
  "zero_stats = \<lparr>ss_connections_accepted = 0, ss_frames_handled = 0, ss_frames_rejected = 0, ss_snapshots_ingested = 0,
     ss_plans_computed = 0, ss_plans_rejected = 0, ss_plans_cancelled = 0, ss_active_requests = 0, ss_fenced_frames = 0\<rparr>"

definition tally :: "(ServiceStats \<Rightarrow> ServiceStats) \<Rightarrow> Service \<Rightarrow> Service" where
  "tally f sv = sv\<lparr>sv_stats := f (sv_stats sv)\<rparr>"

abbreviation "service_epoch sv \<equiv> in_epoch (sv_incarnation sv)"

section \<open>Start-up\<close>

definition kInvalidSocket :: int where "kInvalidSocket = -1"

definition kSnapshotFileName :: string where "kSnapshotFileName = ''snapshot.oppsnap''"

text \<open>\<open>std::filesystem::create_directories\<close>: whether it reports an error.\<close>

definition create_directories :: "os \<Rightarrow> string \<Rightarrow> filesystem \<Rightarrow> bool \<times> filesystem" where
  "create_directories sys path fs =
     (if DirectoryExists path fs then (False, fs)
      else if FileExists path fs \<or> os_mkdir_fails sys then (True, fs)
      else (False, fs\<lparr>fs_dirs := path_prefixes [] path @ fs_dirs fs\<rparr>))"

definition store_options_for :: "ServiceOptions \<Rightarrow> StoreOptions" where
  "store_options_for options =
     \<lparr>so_root = (if vo_store_root options = [] then vo_state_dir options else vo_store_root options),
      so_max_plans = vo_max_stored_plans options, so_verify_existing = True\<rparr>"

definition restore_snapshot :: "platform \<Rightarrow> double_chars \<Rightarrow> filesystem \<Rightarrow> Service \<Rightarrow> Service" where
  "restore_snapshot pf dc fs sv =
     (let path = JoinPath (vo_state_dir (sv_options sv)) kSnapshotFileName
      in if vo_persist_snapshots (sv_options sv) \<and> FileExists path fs
         then case LoadSnapshotFile (pf_os pf) dc path fs of
                Inl _ \<Rightarrow> sv
              | Inr s \<Rightarrow> sv\<lparr>sv_snapshot := Some (MarkRestored (in_incarnation (sv_incarnation sv)) (service_epoch sv) s),
                            sv_snapshot_fresh := False\<rparr>
         else sv)"

text \<open>The listening socket: the bound port when \<open>getsockname\<close> answers.\<close>

definition open_listener :: "platform \<Rightarrow> Service \<Rightarrow> Service expected" where
  "open_listener pf sv =
     (let address = vo_bind_address (sv_options sv)
      in if pf_socket pf = kInvalidSocket then Inl (Failure IoFailure ''cannot create the listening socket'')
         else if address \<notin> {[], ''127.0.0.1''} \<and> \<not> pf_address_ok pf address
         then Inl (Failure InvalidArgument ''the bind address must be a dotted-quad IPv4 address'')
         else if pf_bind_fails pf then Inl (Failure IoFailure ''cannot bind the inspection service socket'')
         else if pf_listen_fails pf then Inl (Failure IoFailure ''cannot listen on the inspection service socket'')
         else Inr (sv\<lparr>sv_bound_port := (case pf_bound_port pf of Some p \<Rightarrow> p | None \<Rightarrow> 0), sv_listener := pf_socket pf\<rparr>))"

definition new_service :: "ServiceOptions \<Rightarrow> IncarnationState \<Rightarrow> StoreOptions \<Rightarrow> Service" where
  "new_service options incarnation store =
     \<lparr>sv_options = options, sv_incarnation = incarnation, sv_bound_port = 0, sv_listener = 0, sv_stopping = False,
      sv_snapshot = None, sv_snapshot_fresh = False, sv_store = store, sv_workers = 0, sv_active_connections = [],
      sv_cancellations = [], sv_stats = zero_stats\<rparr>"

definition Start :: "platform \<Rightarrow> double_chars \<Rightarrow> ServiceOptions \<Rightarrow> filesystem \<Rightarrow> Service expected \<times> filesystem" where
  "Start pf dc options fs =
     (if vo_state_dir options = [] then (Inl (Failure InvalidArgument ''the service requires a state directory''), fs)
      else let (mkdir_error, fs1) = create_directories (pf_os pf) (vo_state_dir options) fs
           in if mkdir_error
              then (Inl (Failure IoFailure (''cannot create the state directory: '' @ os_message (pf_os pf))), fs1)
              else let (locked, held, fs2) = Lock_Acquire pf (JoinPath (vo_state_dir options) ''service.lock'') False fs1
                   in if failed locked then (Inl locked, fs2)
                      else case AdvanceIncarnation pf (vo_state_dir options) fs2 of
                             (Inl e, fs3) \<Rightarrow> (Inl e, fs3)
                           | (Inr incarnation, fs3) \<Rightarrow>
                               (case Store_Open (pf_os pf) (store_options_for options) fs3 of
                                  (Inl e, fs4) \<Rightarrow> (Inl e, fs4)
                                | (Inr store, fs4) \<Rightarrow>
                                    (open_listener pf (restore_snapshot pf dc fs4 (new_service options incarnation store)), fs4)))"

section \<open>Requests\<close>

text \<open>What a handler answers: a failure, or the kind and payload of the response.\<close>

type_synonym answer = "(MessageKind \<times> string) expected"

definition handle_hello :: "string \<Rightarrow> Service \<Rightarrow> answer" where
  "handle_hello payload sv =
     and_then (DecodeHello payload) (\<lambda>m.
       if hm_protocol_version m \<noteq> kProtocolVersion
       then Inl (Failure Unsupported ''client transport revision is not supported'')
       else Inr (MkHelloAck, EncodeHelloAck
         \<lparr>ha_protocol_version = kProtocolVersion, ha_library_version = VersionString,
          ha_incarnation = in_incarnation (sv_incarnation sv), ha_epoch = service_epoch sv,
          ha_epoch_continuity = in_epoch_continuity (sv_incarnation sv), ha_has_snapshot = (sv_snapshot sv \<noteq> None),
          ha_snapshot_fresh = sv_snapshot_fresh sv,
          ha_snapshot_id = (case sv_snapshot sv of Some s \<Rightarrow> s_id s | None \<Rightarrow> []),
          ha_snapshot_generation = (case sv_snapshot sv of Some s \<Rightarrow> s_generation s | None \<Rightarrow> 0),
          ha_snapshot_digest = (case sv_snapshot sv of Some s \<Rightarrow> s_digest s | None \<Rightarrow> zero_digest)\<rparr>))"

definition accepted_snapshot :: "double_chars \<Rightarrow> string \<Rightarrow> TopologySnapshot expected" where
  "accepted_snapshot dc payload =
     and_then (DecodeIngest payload) (\<lambda>m. and_then (ParseSnapshotText dc (im_snapshot_text m)) (\<lambda>s.
       if s_digest s \<noteq> im_snapshot_digest m
       then Inl (Failure IntegrityFailure ''the declared snapshot digest does not match the snapshot content'')
       else Inr s))"

definition persist_snapshot :: "os \<Rightarrow> double_chars \<Rightarrow> ServiceOptions \<Rightarrow> TopologySnapshot \<Rightarrow> filesystem \<Rightarrow> Status \<times> filesystem" where
  "persist_snapshot sys dc options s fs =
     (if vo_persist_snapshots options
      then SaveSnapshotFile sys dc (JoinPath (vo_state_dir options) kSnapshotFileName) s fs else (OkStatus, fs))"

definition handle_ingest :: "os \<Rightarrow> double_chars \<Rightarrow> string \<Rightarrow> Service \<Rightarrow> filesystem \<Rightarrow> answer \<times> Service \<times> filesystem" where
  "handle_ingest sys dc payload sv fs =
     (case accepted_snapshot dc payload of
        Inl e \<Rightarrow> (Inl e, sv, fs)
      | Inr s \<Rightarrow>
          let (written, fs') = persist_snapshot sys dc (sv_options sv) s fs
          in if failed written then (Inl written, sv, fs')
             else (Inr (MkIngestAck, EncodeIngestAck
                     \<lparr>ia_snapshot_id = s_id s, ia_generation = s_generation s, ia_snapshot_digest = s_digest s\<rparr>),
                   tally (\<lambda>st. st\<lparr>ss_snapshots_ingested := ss_snapshots_ingested st + 1\<rparr>)
                     (sv\<lparr>sv_snapshot := Some s, sv_snapshot_fresh := True\<rparr>), fs'))"

definition requested_plan :: "double_chars \<Rightarrow> string \<Rightarrow> PlanningRequest expected" where
  "requested_plan dc payload = and_then (DecodePlan payload) (\<lambda>m. ParseRequestText dc (pm_request_text m))"

definition plan_begin :: "Service \<Rightarrow> Service" where
  "plan_begin = tally (\<lambda>st. st\<lparr>ss_active_requests := ss_active_requests st + 1\<rparr>)"

definition service_planner :: "ServiceOptions \<Rightarrow> PlannerOptions" where
  "service_planner options =
     \<lparr>expansion_ceiling = vo_expansion_ceiling options, label_ceiling = kMaxSearchLabelsCeiling, collect_witnesses = True\<rparr>"

definition no_snapshot_result :: "double_chars \<Rightarrow> PlanningRequest \<Rightarrow> PlanningResult" where
  "no_snapshot_result dc r =
     SealResult (result_text_digest dc) (empty_result\<lparr>res_outcome := OutIndeterminate,
       res_status := Failure NotFound ''no topology snapshot has been ingested by this incarnation'',
       res_limitations := kLimitationStaleEvidence, res_request_digest := ComputeRequestDigest dc r\<rparr>)"

text \<open>The planner runs outside the mutex on the snapshot that was current at the start; its token is never requested.\<close>

definition plan_compute ::
  "libm \<Rightarrow> double_chars \<Rightarrow> ServiceOptions \<Rightarrow> TopologySnapshot option \<Rightarrow> PlanningRequest \<Rightarrow> PlanningResult" where
  "plan_compute lm dc options snapshot r =
     (case snapshot of
        None \<Rightarrow> no_snapshot_result dc r
      | Some s \<Rightarrow> Plan lm (code_digests dc) (result_text_digest dc) (service_planner options) s r (\<lambda>_ _. False))"

fun store_candidates ::
  "os \<Rightarrow> double_chars \<Rightarrow> StoreOptions \<Rightarrow> PlanArtifact list \<Rightarrow> bool \<Rightarrow> filesystem \<Rightarrow> bool \<times> filesystem" where
  "store_candidates sys dc store [] kept fs = (kept, fs)"
| "store_candidates sys dc store (plan # plans) kept fs =
     (let (put, fs') = Store_Put sys dc store plan fs
      in store_candidates sys dc store plans (kept \<and> \<not> failed put) fs')"

definition plan_store_result :: "os \<Rightarrow> double_chars \<Rightarrow> StoreOptions \<Rightarrow> PlanningResult \<Rightarrow> filesystem \<Rightarrow> bool \<times> filesystem" where
  "plan_store_result sys dc store res fs =
     (if res_outcome res = OutFeasible then store_candidates sys dc store (res_candidates res) True fs else (True, fs))"

definition plan_end :: "PlanningResult \<Rightarrow> bool \<Rightarrow> Service \<Rightarrow> Service" where
  "plan_end res kept = tally (\<lambda>st0.
     let st = st0\<lparr>ss_active_requests := ss_active_requests st0 - 1\<rparr>
     in if res_outcome res = OutCancelled then st\<lparr>ss_plans_cancelled := ss_plans_cancelled st + 1\<rparr>
        else if res_outcome res = OutFeasible
        then let st1 = st\<lparr>ss_plans_computed := ss_plans_computed st + 1\<rparr>
             in if \<not> kept then st1\<lparr>ss_plans_rejected := ss_plans_rejected st1 + 1\<rparr> else st1
        else st\<lparr>ss_plans_rejected := ss_plans_rejected st + 1\<rparr>)"

definition handle_plan ::
  "libm \<Rightarrow> os \<Rightarrow> double_chars \<Rightarrow> string \<Rightarrow> Service \<Rightarrow> filesystem \<Rightarrow> answer \<times> Service \<times> filesystem" where
  "handle_plan lm sys dc payload sv fs =
     (case requested_plan dc payload of
        Inl e \<Rightarrow> (Inl e, sv, fs)
      | Inr r \<Rightarrow>
          let sv1 = plan_begin sv; res = plan_compute lm dc (sv_options sv) (sv_snapshot sv) r;
              (kept, fs') = plan_store_result sys dc (sv_store sv) res fs
          in (Inr (MkPlanAck, EncodePlanAck \<lparr>pa_result_text = Result_CanonicalBytes dc res\<rparr>), plan_end res kept sv1, fs'))"

definition handle_validate :: "double_chars \<Rightarrow> string \<Rightarrow> Service \<Rightarrow> answer" where
  "handle_validate dc payload sv =
     and_then (DecodeValidate payload) (\<lambda>m. and_then (ParsePlanArtifact dc (vm_plan_text m)) (\<lambda>plan.
       Inr (MkValidateAck, EncodeValidateAck
         (case sv_snapshot sv of
            None \<Rightarrow> \<lparr>va_validity = PvMissingEvidence,
                     va_report_text = ''no topology snapshot has been ingested by this incarnation''\<rparr>
          | Some s \<Rightarrow> let report = ValidatePlanBindings (code_digests dc) plan s (vm_policy m)
                      in \<lparr>va_validity = vr_validity report, va_report_text = ValidationReport_ExplainText report\<rparr>))))"

definition handle_get_plan :: "os \<Rightarrow> double_chars \<Rightarrow> string \<Rightarrow> Service \<Rightarrow> filesystem \<Rightarrow> answer" where
  "handle_get_plan sys dc payload sv fs =
     and_then (DecodeGetPlan payload) (\<lambda>m. and_then (Store_Get sys dc (sv_store sv) (gp_digest m) fs) (\<lambda>plan.
       Inr (MkGetPlanAck, EncodeGetPlanAck \<lparr>ga_digest = pl_digest plan, ga_plan_text = CanonicalBytes dc plan\<rparr>)))"

definition handle_store_list :: "os \<Rightarrow> double_chars \<Rightarrow> Service \<Rightarrow> filesystem \<Rightarrow> answer" where
  "handle_store_list sys dc sv fs =
     and_then (Store_List sys dc (sv_store sv) fs) (\<lambda>(entries, rejected).
       Inr (MkStoreListAck, EncodeStoreListAck \<lparr>sl_digests = map en_digest entries, sl_rejected_files = rejected\<rparr>))"

definition cancel_tokens :: "u64 \<Rightarrow> (u64 \<times> bool) list \<Rightarrow> bool \<times> (u64 \<times> bool) list" where
  "cancel_tokens token cancellations =
     (if token = 0 then (cancellations \<noteq> [], map (\<lambda>(t, _). (t, True)) cancellations)
      else (map_of cancellations token \<noteq> None, map (\<lambda>(t, b). (t, b \<or> t = token)) cancellations))"

definition handle_cancel :: "string \<Rightarrow> Service \<Rightarrow> answer \<times> Service" where
  "handle_cancel payload sv =
     (case DecodeCancel payload of
        Inl e \<Rightarrow> (Inl e, sv)
      | Inr m \<Rightarrow>
          let (found, cancellations) = cancel_tokens (cm_cancel_token m) (sv_cancellations sv)
          in (Inr (MkCancelAck, EncodeCancelAck \<lparr>ca_found = found\<rparr>), sv\<lparr>sv_cancellations := cancellations\<rparr>))"

definition handle_stats :: "os \<Rightarrow> Service \<Rightarrow> filesystem \<Rightarrow> answer" where
  "handle_stats sys sv fs =
     (let st = sv_stats sv
      in Inr (MkStatsAck, EncodeStatsAck
        \<lparr>st_incarnation = in_incarnation (sv_incarnation sv), st_epoch = service_epoch sv,
         st_connections_accepted = ss_connections_accepted st, st_frames_handled = ss_frames_handled st,
         st_frames_rejected = ss_frames_rejected st, st_snapshots_ingested = ss_snapshots_ingested st,
         st_plans_computed = ss_plans_computed st, st_plans_rejected = ss_plans_rejected st,
         st_plans_cancelled = ss_plans_cancelled st, st_active_requests = ss_active_requests st,
         st_stored_plans = ucast (Store_Count sys (sv_store sv) fs), st_fenced_frames = ss_fenced_frames st\<rparr>))"

definition StopConnections :: "Service \<Rightarrow> Service" where
  "StopConnections sv = sv\<lparr>sv_stopping := True\<rparr>"

definition Shutdown :: "Service \<Rightarrow> Service" where
  "Shutdown sv = StopConnections sv"

text \<open>The switch over the kind of the frame.\<close>

definition handle_kind ::
  "libm \<Rightarrow> os \<Rightarrow> double_chars \<Rightarrow> Frame \<Rightarrow> Service \<Rightarrow> filesystem \<Rightarrow> answer \<times> Service \<times> filesystem" where
  "handle_kind lm sys dc f sv fs =
     (let payload = fr_payload f
      in case message_kind (fr_kind f) of
           Some MkHello \<Rightarrow> (handle_hello payload sv, sv, fs)
         | Some MkIngest \<Rightarrow> handle_ingest sys dc payload sv fs
         | Some MkPlan \<Rightarrow> handle_plan lm sys dc payload sv fs
         | Some MkValidate \<Rightarrow> (handle_validate dc payload sv, sv, fs)
         | Some MkGetPlan \<Rightarrow> (handle_get_plan sys dc payload sv fs, sv, fs)
         | Some MkStoreList \<Rightarrow> (handle_store_list sys dc sv fs, sv, fs)
         | Some MkCancel \<Rightarrow> (let (a, sv') = handle_cancel payload sv in (a, sv', fs))
         | Some MkStats \<Rightarrow> (handle_stats sys sv fs, sv, fs)
         | Some MkShutdown \<Rightarrow> (Inr (MkShutdownAck, []), StopConnections sv, fs)
         | _ \<Rightarrow> (Inl (Failure InvalidArgument ''the frame is not a request this service handles''), sv, fs))"

definition response_frame :: "Frame \<Rightarrow> Service \<Rightarrow> answer \<Rightarrow> Frame" where
  "response_frame f sv a =
     (case a of
        Inl e \<Rightarrow> MakeFailureFrame (fr_sequence f) (service_epoch sv) e
      | Inr (kind, payload) \<Rightarrow>
          \<lparr>fr_kind = MessageKind_value kind, fr_sequence = fr_sequence f, fr_epoch_pin = service_epoch sv,
           fr_payload = payload\<rparr>)"

definition fenced_frame :: "Frame \<Rightarrow> Service \<Rightarrow> Frame" where
  "fenced_frame f sv = MakeFailureFrame (fr_sequence f) (service_epoch sv)
     (Failure Fenced (''the frame is pinned to an epoch this incarnation does not own'' @ '' (current epoch '' @
        FormatU64 (unat (service_epoch sv)) @ '')''))"

definition HandleFrameFor ::
  "libm \<Rightarrow> os \<Rightarrow> double_chars \<Rightarrow> Frame \<Rightarrow> Service \<Rightarrow> filesystem \<Rightarrow> Frame \<times> Service \<times> filesystem" where
  "HandleFrameFor lm sys dc f sv fs =
     (if fr_epoch_pin f \<noteq> 0 \<and> fr_epoch_pin f \<noteq> service_epoch sv
      then (fenced_frame f sv, tally (\<lambda>st. st\<lparr>ss_fenced_frames := ss_fenced_frames st + 1\<rparr>) sv, fs)
      else let (a, sv', fs') = handle_kind lm sys dc f sv fs in (response_frame f sv a, sv', fs'))"

definition HandleFrame ::
  "libm \<Rightarrow> os \<Rightarrow> double_chars \<Rightarrow> Frame \<Rightarrow> Service \<Rightarrow> filesystem \<Rightarrow> Frame \<times> Service \<times> filesystem" where
  "HandleFrame lm sys dc f sv fs = HandleFrameFor lm sys dc f sv fs"

section \<open>Connections\<close>

definition count_rejected :: "Service \<Rightarrow> Service" where
  "count_rejected = tally (\<lambda>st. st\<lparr>ss_frames_rejected := ss_frames_rejected st + 1\<rparr>)"

definition count_handled :: "Service \<Rightarrow> Service" where
  "count_handled = tally (\<lambda>st. st\<lparr>ss_frames_handled := ss_frames_handled st + 1\<rparr>)"

text \<open>One decoded frame of a connection: the response, whether the loop goes on, and the new state.\<close>

definition serve_frame ::
  "libm \<Rightarrow> os \<Rightarrow> double_chars \<Rightarrow> Frame \<Rightarrow> Service \<Rightarrow> filesystem \<Rightarrow> Frame \<times> bool \<times> Service \<times> filesystem" where
  "serve_frame lm sys dc f sv fs =
     (if message_kind (fr_kind f) = Some MkShutdown
      then (\<lparr>fr_kind = MessageKind_value MkShutdownAck, fr_sequence = fr_sequence f, fr_epoch_pin = service_epoch sv,
             fr_payload = []\<rparr>, False, StopConnections (count_handled sv), fs)
      else let (response, sv1, fs1) = HandleFrameFor lm sys dc f sv fs
           in (response, True,
               if fr_kind response = MessageKind_value MkFailure then count_rejected sv1 else count_handled sv1, fs1))"

text \<open>
  The loop of a worker: the frames it writes and what is left.  \<open>sends\<close> says whether a response can be
  written; a poll that times out looks at the stop flag.
\<close>

function serve_loop ::
  "libm \<Rightarrow> os \<Rightarrow> double_chars \<Rightarrow> (Frame \<Rightarrow> bool) \<Rightarrow> arrival list \<Rightarrow> Service \<Rightarrow> filesystem \<Rightarrow> Frame list \<times> Service \<times> filesystem" where
  "serve_loop lm sys dc sends es sv fs =
     (if sv_stopping sv then ([], sv, fs)
      else case es of
             TimedOut stopping # rest \<Rightarrow> if stopping then ([], sv, fs) else serve_loop lm sys dc sends rest sv fs
           | _ \<Rightarrow>
               (case ReadFrame (vo_max_frame_bytes (sv_options sv)) es of
                  (Inl e, rest) \<Rightarrow>
                    if code e \<noteq> IoFailure then ([MakeFailureFrame 0 (service_epoch sv) e], count_rejected sv, fs)
                    else ([], sv, fs)
                | (Inr f, rest) \<Rightarrow>
                    (case serve_frame lm sys dc f sv fs of (response, goes_on, sv1, fs1) \<Rightarrow>
                       if goes_on \<and> sends response
                       then (case serve_loop lm sys dc sends rest sv1 fs1 of (later, result) \<Rightarrow> (response # later, result))
                       else ([response], sv1, fs1))))"
  by pat_completeness auto

text \<open>Every iteration takes a poll timeout or a whole frame off the stream, so a worker whose stream ends returns.\<close>

termination
  by (relation "measure (\<lambda>(lm, sys, dc, sends, es, sv, fs). arrivals_size es)")
    (auto dest!: ReadFrame_progress [OF sym])

definition ServeConnection ::
  "libm \<Rightarrow> os \<Rightarrow> double_chars \<Rightarrow> (Frame \<Rightarrow> bool) \<Rightarrow> nat \<Rightarrow> arrival list \<Rightarrow> Service \<Rightarrow> filesystem \<Rightarrow>
     Frame list \<times> Service \<times> filesystem" where
  "ServeConnection lm sys dc sends handle es sv fs =
     (case serve_loop lm sys dc sends es sv fs of (sent, sv', fs') \<Rightarrow>
        (sent, sv'\<lparr>sv_active_connections := remove1 handle (sv_active_connections sv')\<rparr>, fs'))"

text \<open>The branch of \<open>Run\<close> after a successful \<open>accept\<close>: the frame sent to a refused client.\<close>

definition accept_connection :: "nat \<Rightarrow> Service \<Rightarrow> Frame list \<times> Service" where
  "accept_connection handle sv =
     (if sv_workers sv \<ge> vo_max_connections (sv_options sv)
      then ([\<lparr>fr_kind = MessageKind_value MkFailure, fr_sequence = 0, fr_epoch_pin = 0,
              fr_payload = EncodeFailure \<lparr>fm_code = StatusCode_value Exhausted,
                fm_detail = ''the service has reached its connection bound''\<rparr>\<rparr>], count_rejected sv)
      else ([], (tally (\<lambda>st. st\<lparr>ss_connections_accepted := ss_connections_accepted st + 1\<rparr>) sv)
              \<lparr>sv_active_connections := sv_active_connections sv @ [handle], sv_workers := Suc (sv_workers sv)\<rparr>))"

text \<open>
  The accept loop of \<open>Run\<close>: polls that find nothing and accepts that fail are skipped; each event comes with
  the stop flag as the loop sees it.  The workers run on their own.
\<close>

datatype accept_event = PollEmpty | AcceptFails | Accepted nat

fun accept_loop :: "(bool \<times> accept_event) list \<Rightarrow> Service \<Rightarrow> Service" where
  "accept_loop [] sv = sv"
| "accept_loop ((stopping, e) # events) sv =
     (if sv_stopping sv \<or> stopping then sv
      else case e of
             Accepted handle \<Rightarrow> accept_loop events (snd (accept_connection handle sv))
           | _ \<Rightarrow> accept_loop events sv)"

definition Run :: "(bool \<times> accept_event) list \<Rightarrow> Service \<Rightarrow> Status \<times> Service" where
  "Run events sv =
     (if sv_listener sv = kInvalidSocket then (Failure Internal ''the service is not listening'', sv)
      else (OkStatus, (accept_loop events sv)\<lparr>sv_listener := 0\<rparr>))"

definition Stats :: "Service \<Rightarrow> ServiceStats" where
  "Stats sv = sv_stats sv"

end
