(* ===== verification/Client.thy ===== *)
theory Client
  imports Service
begin

text \<open>
  The client of the inspection service (\<open>ServiceClient\<close> of \<open>src/service.cpp\<close>).  The network is an argument:
  what arrives on the socket after the given bytes were written, or \<open>None\<close> when they cannot be written.
\<close>

type_synonym network = "string \<Rightarrow> arrival list option"

record ServiceClient =
  cl_host :: string
  cl_port :: nat
  cl_max_frame_bytes :: nat
  cl_socket_handle :: int
  cl_sequence :: u64
  cl_epoch_pin :: Epoch

text \<open>\<open>reachable\<close> is whether \<open>connect\<close> succeeds.\<close>

definition Connect :: "platform \<Rightarrow> bool \<Rightarrow> ServiceClient \<Rightarrow> ServiceClient expected" where
  "Connect pf reachable cl =
     (if cl_port cl = 0 then Inl (Failure InvalidArgument ''a client must name the port to connect to'')
      else if pf_socket pf = kInvalidSocket then Inl (Failure IoFailure ''cannot create a client socket'')
      else if cl_host cl \<notin> {[], ''127.0.0.1''} \<and> \<not> pf_address_ok pf (cl_host cl)
      then Inl (Failure InvalidArgument ''the client host must be a dotted-quad IPv4 address'')
      else if \<not> reachable then Inl (Failure IoFailure ''cannot connect to the inspection service'')
      else Inr (cl\<lparr>cl_socket_handle := pf_socket pf, cl_sequence := 0, cl_epoch_pin := 0\<rparr>))"

definition SetEpochPin :: "Epoch \<Rightarrow> ServiceClient \<Rightarrow> ServiceClient" where
  "SetEpochPin epoch cl = cl\<lparr>cl_epoch_pin := epoch\<rparr>"

definition Client_SendFrame :: "network \<Rightarrow> Frame \<Rightarrow> ServiceClient \<Rightarrow> arrival list expected" where
  "Client_SendFrame net f cl =
     (if cl_socket_handle cl = kInvalidSocket then Inl (Failure Internal ''the client socket is not connected'')
      else case net (EncodeFrame f) of
             None \<Rightarrow> Inl (Failure IoFailure ''cannot send a frame to the inspection service'')
           | Some es \<Rightarrow> Inr es)"

text \<open>
  The code casts the received value to \<open>StatusCode\<close>.  A value outside the enumeration, which the service never
  sends, has no counterpart in the data type and is read as the internal error.
\<close>

definition status_of :: "FailureMessage \<Rightarrow> Status" where
  "status_of m = Failure (case find (\<lambda>c. StatusCode_value c = fm_code m) kCodes of Some c \<Rightarrow> c | None \<Rightarrow> Internal) (fm_detail m)"

definition next_frame :: "MessageKind \<Rightarrow> string \<Rightarrow> ServiceClient \<Rightarrow> Frame" where
  "next_frame kind payload cl =
     \<lparr>fr_kind = MessageKind_value kind, fr_sequence = cl_sequence cl + 1, fr_epoch_pin = cl_epoch_pin cl, fr_payload = payload\<rparr>"

text \<open>The client reads with a null stop flag, so a receive timeout never ends its wait.\<close>

definition without_stop :: "arrival \<Rightarrow> arrival" where
  "without_stop e = (case e of TimedOut _ \<Rightarrow> TimedOut False | _ \<Rightarrow> e)"

definition Exchange :: "network \<Rightarrow> MessageKind \<Rightarrow> string \<Rightarrow> ServiceClient \<Rightarrow> Frame expected \<times> ServiceClient" where
  "Exchange net kind payload cl =
     (and_then (Client_SendFrame net (next_frame kind payload cl) cl) (\<lambda>es.
        and_then (fst (ReadFrame (cl_max_frame_bytes cl) (map without_stop es))) (\<lambda>response.
          if fr_kind response = MessageKind_value MkFailure
          then and_then (DecodeFailure (fr_payload response)) (\<lambda>m. Inl (status_of m))
          else Inr response)),
      cl\<lparr>cl_sequence := cl_sequence cl + 1\<rparr>)"

text \<open>What every call does with the response: the kind must be the acknowledgement, then it is decoded.\<close>

definition acknowledged :: "MessageKind \<Rightarrow> string \<Rightarrow> (string \<Rightarrow> 'a expected) \<Rightarrow> Frame expected \<times> ServiceClient \<Rightarrow> 'a expected \<times> ServiceClient" where
  "acknowledged ack what decode r =
     (and_then (fst r) (\<lambda>f.
        if fr_kind f \<noteq> MessageKind_value ack
        then Inl (Failure Internal (''the service answered '' @ what @ '' with an unexpected message''))
        else decode (fr_payload f)), snd r)"

definition Client_Hello :: "network \<Rightarrow> string \<Rightarrow> ServiceClient \<Rightarrow> HelloAckMessage expected \<times> ServiceClient" where
  "Client_Hello net name cl =
     acknowledged MkHelloAck ''a hello'' DecodeHelloAck
       (Exchange net MkHello (EncodeHello \<lparr>hm_protocol_version = kProtocolVersion, hm_client_name = name\<rparr>) cl)"

definition Client_Ingest :: "double_chars \<Rightarrow> network \<Rightarrow> TopologySnapshot \<Rightarrow> ServiceClient \<Rightarrow> IngestAckMessage expected \<times> ServiceClient" where
  "Client_Ingest dc net s cl =
     acknowledged MkIngestAck ''an ingest'' DecodeIngestAck
       (Exchange net MkIngest (EncodeIngest \<lparr>im_snapshot_digest = s_digest s, im_snapshot_text = SnapshotToText dc s\<rparr>) cl)"

definition Client_Plan ::
  "double_chars \<Rightarrow> network \<Rightarrow> PlanningRequest \<Rightarrow> u64 \<Rightarrow> ServiceClient \<Rightarrow> PlanningResult expected \<times> ServiceClient" where
  "Client_Plan dc net r token cl =
     acknowledged MkPlanAck ''a plan request'' (\<lambda>p. and_then (DecodePlanAck p) (\<lambda>ack. ParseResultText dc (pa_result_text ack)))
       (Exchange net MkPlan (EncodePlan \<lparr>pm_cancel_token = token, pm_request_text = RequestToText dc r\<rparr>) cl)"

definition client_report :: "ValidateAckMessage \<Rightarrow> ValidationReport" where
  "client_report ack =
     \<lparr>vr_validity = va_validity ack,
      vr_status = (if va_validity ack = PvValid then OkStatus else Failure Stale (va_report_text ack)),
      vr_source_mismatches = [], vr_bound_snapshot_digest = zero_digest, vr_current_snapshot_digest = zero_digest,
      vr_revalidated = False, vr_failures = []\<rparr>"

definition Client_Validate ::
  "double_chars \<Rightarrow> network \<Rightarrow> PlanArtifact \<Rightarrow> ValidationPolicy \<Rightarrow> ServiceClient \<Rightarrow> ValidationReport expected \<times> ServiceClient" where
  "Client_Validate dc net plan policy cl =
     acknowledged MkValidateAck ''a validation'' (\<lambda>p. and_then (DecodeValidateAck p) (\<lambda>ack. Inr (client_report ack)))
       (Exchange net MkValidate (EncodeValidate \<lparr>vm_policy = policy, vm_plan_text = CanonicalBytes dc plan\<rparr>) cl)"

definition Client_GetPlan :: "double_chars \<Rightarrow> network \<Rightarrow> Digest256 \<Rightarrow> ServiceClient \<Rightarrow> PlanArtifact expected \<times> ServiceClient" where
  "Client_GetPlan dc net d cl =
     acknowledged MkGetPlanAck ''a fetch'' (\<lambda>p. and_then (DecodeGetPlanAck p) (\<lambda>ack. ParsePlanArtifact dc (ga_plan_text ack)))
       (Exchange net MkGetPlan (EncodeGetPlan \<lparr>gp_digest = d\<rparr>) cl)"

definition Client_StoreList :: "network \<Rightarrow> ServiceClient \<Rightarrow> StoreListAckMessage expected \<times> ServiceClient" where
  "Client_StoreList net cl =
     acknowledged MkStoreListAck ''a listing'' DecodeStoreListAck (Exchange net MkStoreList EncodeStoreList cl)"

definition Client_Cancel :: "network \<Rightarrow> u64 \<Rightarrow> ServiceClient \<Rightarrow> CancelAckMessage expected \<times> ServiceClient" where
  "Client_Cancel net token cl =
     acknowledged MkCancelAck ''a cancellation'' DecodeCancelAck (Exchange net MkCancel (EncodeCancel \<lparr>cm_cancel_token = token\<rparr>) cl)"

definition Client_Stats :: "network \<Rightarrow> ServiceClient \<Rightarrow> StatsAckMessage expected \<times> ServiceClient" where
  "Client_Stats net cl =
     acknowledged MkStatsAck ''a statistics request'' DecodeStatsAck (Exchange net MkStats EncodeStats cl)"

definition Client_Shutdown :: "network \<Rightarrow> ServiceClient \<Rightarrow> Status \<times> ServiceClient" where
  "Client_Shutdown net cl =
     (let (r, cl') = acknowledged MkShutdownAck ''a shutdown'' (\<lambda>_. Inr ()) (Exchange net MkShutdown [] cl)
      in (case r of Inl e \<Rightarrow> e | Inr _ \<Rightarrow> OkStatus, cl'))"

end
