(* ===== verification/Store_Props.thy ===== *)
theory Store_Props
  imports Store
begin

text \<open>
  The store as a map from digests to plans.  The locale \<open>plan_repository\<close> is what its clients rely on:
  what a fetch returns after a put, and that nothing else changes.
\<close>

section \<open>The contract\<close>

locale plan_repository =
  fixes fetch :: "'s \<Rightarrow> 'd \<Rightarrow> 'p option"
    and put :: "'p \<Rightarrow> 's \<Rightarrow> bool \<times> 's"
    and key :: "'p \<Rightarrow> 'd"
    and storable :: "'p \<Rightarrow> bool"
  assumes fetch_key: "fetch s d = Some p \<Longrightarrow> key p = d"
    and put_stored: "storable p \<Longrightarrow> fst (put p s) \<Longrightarrow> fetch (snd (put p s)) (key p) = Some p"
    and put_other: "d \<noteq> key p \<Longrightarrow> fetch (snd (put p s)) d = fetch s d"
    and put_refused: "\<not> fst (put p s) \<Longrightarrow> fetch (snd (put p s)) d = fetch s d"
    and put_consistent: "storable p \<Longrightarrow> fst (put p s) \<Longrightarrow> fetch s (key p) = Some q \<Longrightarrow> q = p"
begin

lemma put_keeps:
  assumes "storable p" "fetch s d = Some q"
  shows "fetch (snd (put p s)) d = Some q"
proof (cases "fst (put p s) \<and> d = key p")
  case True
  then show ?thesis using put_stored [OF assms(1), of s] put_consistent [OF assms(1), of s q] assms(2) by simp
next
  case False
  then show ?thesis using put_other [of d p s] put_refused [of p s d] assms(2) by auto
qed

text \<open>A sequence of puts, each with whether it succeeded.\<close>

fun puts :: "'p list \<Rightarrow> 's \<Rightarrow> bool list \<times> 's" where
  "puts [] s = ([], s)"
| "puts (p # ps) s = (let (b, s1) = put p s; (bs, s2) = puts ps s1 in (b # bs, s2))"

lemma puts_keep: "list_all storable ps \<Longrightarrow> fetch s d = Some q \<Longrightarrow> fetch (snd (puts ps s)) d = Some q"
proof (induction ps arbitrary: s)
  case (Cons p ps)
  obtain b s1 where one: "put p s = (b, s1)" by fastforce
  then have "fetch s1 d = Some q" using put_keeps [of p s d q] Cons.prems by simp
  then have "fetch (snd (puts ps s1)) d = Some q" using Cons.IH Cons.prems(1) by simp
  then show ?case using one by (simp add: split_beta)
qed simp

lemma puts_stored:
  "list_all storable ps \<Longrightarrow> i < length ps \<Longrightarrow> fst (puts ps s) ! i \<Longrightarrow> fetch (snd (puts ps s)) (key (ps ! i)) = Some (ps ! i)"
proof (induction ps arbitrary: s i)
  case (Cons p ps)
  obtain b s1 where one: "put p s = (b, s1)" by fastforce
  show ?case
  proof (cases i)
    case 0
    with Cons.prems one have "fetch s1 (key p) = Some p" using put_stored [of p s] by (simp add: split_beta)
    with Cons.prems 0 one show ?thesis using puts_keep [of ps s1] by (simp add: split_beta)
  next
    case (Suc j)
    with Cons.prems one show ?thesis using Cons.IH [of j s1] by (simp add: split_beta)
  qed
qed simp

end

section \<open>Store files are exact\<close>

lemma length_store_header [simp]: "length (store_header payload) = 24"
  by (simp add: store_header_def kStoreFileMagic_def Writer_U32_def Writer_U64_def)

lemma take_magic: "take 8 (store_header payload) = kStoreFileMagic"
  by (simp add: store_header_def kStoreFileMagic_def)

lemma drop_magic:
  "take 16 (drop 8 (store_header payload @ rest)) =
     Writer_U32 kStoreFormatVersion @ Writer_U32 0 @ Writer_U64 (of_nat (length payload))"
  by (simp add: store_header_def kStoreFileMagic_def Writer_U32_def Writer_U64_def)

lemma payload_length_word: "n \<le> kMaxStoreFileBytes \<Longrightarrow> unat (of_nat n :: u64) = n"
  by (simp add: unat_of_nat kMaxStoreFileBytes_def)

lemma DecodeStoreFile_header:
  assumes "length payload \<le> kMaxStoreFileBytes" "length trailer = 32"
  shows "DecodeStoreFile dc (store_header payload @ payload @ trailer) =
    (if text_of (Sha256_Of (store_header payload @ payload)) \<noteq> trailer
     then Inl (Failure IntegrityFailure ''store file checksum does not match its content'')
     else ParsePlanArtifact dc payload)"
proof -
  let ?bs = "store_header payload @ payload @ trailer"
  have n: "unat (of_nat (length payload) :: u64) = length payload" using assms(1) by (rule payload_length_word)
  have "take (kHeaderBytes - 8) (drop 8 ?bs) =
      Writer_U32 kStoreFormatVersion @ Writer_U32 0 @ Writer_U64 (of_nat (length payload))"
    using drop_magic [of payload "payload @ trailer"] by (simp only: kHeaderBytes_def) simp
  then show ?thesis
    using assms n wire_u64.get_put [of "of_nat (length payload)" "[]"]
    by (simp add: DecodeStoreFile_def take_magic kHeaderBytes_def Reader_bind_def wire_u32.get_put Reader_return_def)
qed

definition storable :: "double_chars \<Rightarrow> PlanArtifact \<Rightarrow> bool" where
  "storable dc plan \<longleftrightarrow> plan_in_grammar dc plan \<and> plan_within_bounds dc plan"

lemma EncodeStoreFile_decodes:
  assumes "storable dc plan" "EncodeStoreFile dc plan = Inr bytes"
  shows "DecodeStoreFile dc bytes = Inr plan \<and> length bytes \<le> kMaxStoreFileBytes"
proof -
  let ?payload = "CanonicalBytes dc plan"
  from assms(2) have enc: "bytes = store_header ?payload @ ?payload @ text_of (Sha256_Of (store_header ?payload @ ?payload))"
    and seal: "pl_digest plan = plan_text_digest dc plan" and len: "length ?payload \<le> kMaxStoreFileBytes"
    by (auto simp: EncodeStoreFile_def plan_text_seal_def Let_def not_less split: if_splits)
  have "ParsePlanArtifact dc ?payload = Inr plan"
    using assms(1) seal by (auto simp: storable_def intro: ParsePlanArtifact_CanonicalBytes)
  moreover have "length ?payload \<le> kMaxPlanArtifactBytes"
    using assms(1) by (simp add: storable_def plan_within_bounds_def)
  ultimately show ?thesis
    unfolding enc using len
    by (simp add: DecodeStoreFile_header kMaxPlanArtifactBytes_def kMaxStoreFileBytes_def)
qed

lemma EncodeStoreFile_sealed:
  assumes "storable dc plan" "pl_digest plan = plan_text_digest dc plan"
  shows "\<exists>bytes. EncodeStoreFile dc plan = Inr bytes"
proof -
  have "length (CanonicalBytes dc plan) \<le> kMaxStoreFileBytes"
    using assms(1) by (simp add: storable_def plan_within_bounds_def kMaxPlanArtifactBytes_def kMaxStoreFileBytes_def)
  with assms(2) show ?thesis by (simp add: EncodeStoreFile_def plan_text_seal_def refuse_if_def Let_def)
qed

section \<open>Paths\<close>

lemma ToHexImpl_inject: "ToHexImpl a = ToHexImpl b \<longleftrightarrow> a = b"
  by (metis from_hex_pairs_ToHexImpl option.inject)

lemma hex_no_slash: "CHR ''/'' \<notin> set (ToHexImpl d)"
proof -
  have "\<forall>m \<in> {0..<16::nat}. kHexDigits ! m \<noteq> CHR ''/''" by code_simp
  then show ?thesis by (induction d) (auto simp: ToHexImpl_def hex_byte_def nibble_bound)
qed

lemma store_directory_shape: "store_directory opts \<noteq> [] \<and> last (store_directory opts) = CHR ''s''"
  by (simp add: store_directory_def JoinPath_def kStoreDirectoryName_def)

lemma FileNameFor_relative: "\<not> (FileNameFor d \<noteq> [] \<and> hd (FileNameFor d) = CHR ''/'')"
proof -
  have "CHR ''/'' \<notin> set (FileNameFor d)" using hex_no_slash [of d] by (simp add: FileNameFor_def kStoreFileSuffix_def)
  then show ?thesis by (metis hd_in_set)
qed

lemma PathFor_eq: "PathFor opts d = store_directory opts @ ''/'' @ ToHexImpl d @ kStoreFileSuffix"
  using store_directory_shape [of opts] FileNameFor_relative [of d]
  by (auto simp: PathFor_def JoinPath_def FileNameFor_def)

lemma PathFor_inject [simp]: "PathFor opts a = PathFor opts b \<longleftrightarrow> a = b"
  by (simp add: PathFor_eq ToHexImpl_inject)

lemma last_to_string: "is_digit (last (to_string n))"
  using to_string_digits [of n] last_in_set [of "to_string n"] by (simp add: list_all_iff)

lemma PathFor_not_temp [simp]: "PathFor opts d \<noteq> TempNameFor sys p"
proof
  assume "PathFor opts d = TempNameFor sys p"
  then have "last (PathFor opts d) = last (to_string (os_process_id sys))" by (simp add: TempNameFor_def)
  then have "is_digit (CHR ''n'')" using last_to_string by (simp add: PathFor_eq kStoreFileSuffix_def)
  then show False by code_simp
qed

section \<open>The store as a map\<close>

definition stored :: "double_chars \<Rightarrow> StoreOptions \<Rightarrow> filesystem \<Rightarrow> Digest256 \<Rightarrow> PlanArtifact option" where
  "stored dc opts fs d =
     (case file_at fs (PathFor opts d) of
        None \<Rightarrow> None
      | Some bytes \<Rightarrow>
          if length bytes > kMaxStoreFileBytes then None
          else case DecodeStoreFile dc bytes of Inr plan \<Rightarrow> if pl_digest plan = d then Some plan else None | Inl _ \<Rightarrow> None)"

definition put_plan :: "os \<Rightarrow> double_chars \<Rightarrow> StoreOptions \<Rightarrow> PlanArtifact \<Rightarrow> filesystem \<Rightarrow> bool \<times> filesystem" where
  "put_plan sys dc opts plan fs = (let (st, fs') = Store_Put sys dc opts plan fs in (\<not> failed st, fs'))"

lemma Store_Put_file:
  assumes "Store_Put sys dc opts plan fs = (st, fs')"
  shows "file_at fs' (PathFor opts d) =
     (if failed st \<or> d \<noteq> pl_digest plan then file_at fs (PathFor opts d)
      else case EncodeStoreFile dc plan of Inr bytes \<Rightarrow> Some bytes | Inl _ \<Rightarrow> None)"
proof -
  have w: "WriteFileAtomic sys (PathFor opts (pl_digest plan)) b fs = (st, fs') \<Longrightarrow>
      file_at fs' (PathFor opts d) = (if failed st \<or> d \<noteq> pl_digest plan then file_at fs (PathFor opts d) else Some b)" for b
    using WriteFileAtomic_files [of "PathFor opts d" sys "PathFor opts (pl_digest plan)" b fs] by simp
  have e: "failed st" if "EncodeStoreFile dc plan = Inl st"
    using that by (auto simp: EncodeStoreFile_def Let_def split: if_splits)
  have r: "failed e" if "ReadFileBounded sys p n fs = Inl e" for e p n
    using that by (auto simp: ReadFileBounded_def split: option.splits if_splits)
  have s: "failed e" if "ScanLocked sys opts fs = Inl e" for e
    using that by (auto simp: ScanLocked_def ListDirectoryBySuffix_def ListDirectoryFiles_def and_then_def
        split: sum.splits if_splits)
  have same: "file_at fs (PathFor opts (pl_digest plan)) = Some bytes"
    if "ReadFileBounded sys (PathFor opts (pl_digest plan)) n fs = Inr bytes" for n bytes
    using that by (auto simp: ReadFileBounded_def split: option.splits if_splits)
  show ?thesis
    using assms w e r s same
    by (auto simp: Store_Put_def Let_def split: sum.splits if_splits)
qed

interpretation plan_store: plan_repository "stored dc opts" "put_plan sys dc opts" pl_digest "storable dc" for dc opts sys
proof
  fix fs d p
  show "stored dc opts fs d = Some p \<Longrightarrow> pl_digest p = d"
    by (auto simp: stored_def split: option.splits sum.splits if_splits)
next
  fix p fs
  obtain st fs' where put: "Store_Put sys dc opts p fs = (st, fs')" by fastforce
  assume ok: "storable dc p" and "fst (put_plan sys dc opts p fs)"
  then have ok_st: "\<not> failed st" using put by (simp add: put_plan_def)
  then obtain bytes where enc: "EncodeStoreFile dc p = Inr bytes"
    using put by (auto simp: Store_Put_def EncodeStoreFile_def Let_def split: sum.splits if_splits)
  then have "file_at fs' (PathFor opts (pl_digest p)) = Some bytes"
    using Store_Put_file [OF put, of "pl_digest p"] ok_st by simp
  then show "stored dc opts (snd (put_plan sys dc opts p fs)) (pl_digest p) = Some p"
    using EncodeStoreFile_decodes [OF ok enc] put by (simp add: stored_def put_plan_def)
  fix q assume "stored dc opts fs (pl_digest p) = Some q"
  then obtain old where old: "file_at fs (PathFor opts (pl_digest p)) = Some old" "DecodeStoreFile dc old = Inr q"
    by (auto simp: stored_def split: option.splits sum.splits if_splits)
  then have "old = bytes"
    using put ok_st enc
    by (auto simp: Store_Put_def ReadFileBounded_def FileExists_def Let_def split: if_splits)
  with old EncodeStoreFile_decodes [OF ok enc] show "q = p" by simp
next
  fix d p fs
  obtain st fs' where put: "Store_Put sys dc opts p fs = (st, fs')" by fastforce
  show "d \<noteq> pl_digest p \<Longrightarrow> stored dc opts (snd (put_plan sys dc opts p fs)) d = stored dc opts fs d"
    using Store_Put_file [OF put, of d] put by (simp add: stored_def put_plan_def)
  show "\<not> fst (put_plan sys dc opts p fs) \<Longrightarrow> stored dc opts (snd (put_plan sys dc opts p fs)) d = stored dc opts fs d"
    using Store_Put_file [OF put, of d] put by (simp add: stored_def put_plan_def)
qed

section \<open>Reading through the store\<close>

lemma ReadFileBounded_Inr:
  "ReadFileBounded sys p n fs = Inr bytes \<Longrightarrow> file_at fs p = Some bytes \<and> length bytes \<le> n"
  by (auto simp: ReadFileBounded_def split: option.splits if_splits)

lemma Store_Get_stored: "Store_Get sys dc opts d fs = Inr plan \<Longrightarrow> stored dc opts fs d = Some plan"
  by (auto simp: Store_Get_def LoadLocked_def stored_def and_then_Inr Let_def not_less
      dest!: ReadFileBounded_Inr split: if_splits)

lemma stored_Get:
  assumes "\<And>p. \<not> os_open_fails sys p" "\<And>p. \<not> os_short_read sys p"
  shows "Store_Get sys dc opts d fs = Inr plan \<longleftrightarrow> stored dc opts fs d = Some plan"
  using assms
  by (auto simp: Store_Get_def LoadLocked_def stored_def ReadFileBounded_def FileExists_def and_then_def Let_def
      split: option.splits sum.splits if_splits)

lemma DecodeStoreFile_parsed:
  "DecodeStoreFile dc bs = Inr plan \<Longrightarrow> \<exists>payload. ParsePlanArtifact dc payload = Inr plan"
  by (auto simp: DecodeStoreFile_def Let_def split: if_splits sum.splits)

lemma stored_sealed:
  assumes "stored dc opts fs d = Some plan"
  shows "pl_digest plan = d \<and> d = plan_text_digest dc plan \<and> pl_steps plan \<noteq> [] \<and> pl_segments plan \<noteq> []"
proof -
  from assms obtain payload where p: "ParsePlanArtifact dc payload = Inr plan" and d: "pl_digest plan = d"
    by (auto simp: stored_def dest!: DecodeStoreFile_parsed split: option.splits sum.splits if_splits)
  from p have "pl_steps plan \<noteq> []" "pl_segments plan \<noteq> []" "\<not> failed (plan_text_seal dc plan)"
    by (auto simp: ParsePlanArtifact_def malformed_def and_then_Inr Let_def split: if_splits)
  with d show ?thesis by (simp add: plan_text_seal_def)
qed

section \<open>Capacity\<close>

definition plan_file_names :: "StoreOptions \<Rightarrow> filesystem \<Rightarrow> string list" where
  "plan_file_names opts fs =
     filter (\<lambda>n. HasSuffix n kStoreFileSuffix) (List.map_filter (name_in (store_directory opts)) (map fst (fs_files fs)))"

lemma ScanLocked_names:
  "ScanLocked sys opts fs = Inr names \<Longrightarrow> length names = length (plan_file_names opts fs)"
proof -
  assume "ScanLocked sys opts fs = Inr names"
  then have "names = filter (\<lambda>n. HasSuffix n kStoreFileSuffix)
      (sort (List.map_filter (name_in (store_directory opts)) (map fst (fs_files fs))))"
    by (auto simp: ScanLocked_def ListDirectoryBySuffix_def ListDirectoryFiles_def and_then_Inr split: if_splits)
  then show ?thesis by (simp add: plan_file_names_def filter_sort)
qed

definition plan_keys :: "StoreOptions \<Rightarrow> string list \<Rightarrow> string list" where
  "plan_keys opts ks = filter (\<lambda>n. HasSuffix n kStoreFileSuffix) (List.map_filter (name_in (store_directory opts)) ks)"

lemma plan_keys_Cons:
  "length (plan_keys opts (k # ks)) = length (plan_keys opts [k]) + length (plan_keys opts ks)"
  by (simp add: plan_keys_def List.map_filter_simps split: option.splits)

lemma plan_keys_append: "length (plan_keys opts (a @ b)) = length (plan_keys opts a) + length (plan_keys opts b)"
proof (induction a)
  case (Cons k a)
  then show ?case using plan_keys_Cons [of opts k "a @ b"] plan_keys_Cons [of opts k a] by simp
qed (simp add: plan_keys_def List.map_filter_simps)

lemma plan_keys_single: "length (plan_keys opts [k]) \<le> 1"
  by (simp add: plan_keys_def List.map_filter_simps split: option.splits)

lemma plan_keys_removeAll: "length (plan_keys opts (removeAll k ks)) \<le> length (plan_keys opts ks)"
proof (induction ks)
  case (Cons x ks)
  then show ?case using plan_keys_Cons [of opts x ks] plan_keys_Cons [of opts x "removeAll k ks"] by auto
qed simp

lemma plan_file_names_keys: "plan_file_names opts fs = plan_keys opts (map fst (fs_files fs))"
  by (simp add: plan_file_names_def plan_keys_def)

lemma plan_files_drop: "length (plan_file_names opts (drop_file p fs)) \<le> length (plan_file_names opts fs)"
  by (simp add: plan_file_names_keys drop_file_def AList.delete_keys plan_keys_removeAll)

lemma plan_files_put: "length (plan_file_names opts (put_file p b fs)) \<le> Suc (length (plan_file_names opts fs))"
  using plan_keys_single [of opts p]
  by (auto simp: plan_file_names_keys put_file_def AList.update_keys plan_keys_append)

lemma not_plan_file: "\<not> HasSuffix name kStoreFileSuffix \<Longrightarrow> name_in (store_directory opts) p = Some name \<Longrightarrow> plan_keys opts [p] = []"
  by (simp add: plan_keys_def List.map_filter_simps)

lemma HasSuffix_last: "HasSuffix name suf \<Longrightarrow> suf \<noteq> [] \<Longrightarrow> name \<noteq> [] \<and> last name = last suf"
  unfolding HasSuffix_def by (metis append_take_drop_id append_is_Nil_conv last_appendR)

lemma temp_no_suffix: "\<not> HasSuffix (drop n (TempNameFor sys p)) kStoreFileSuffix"
proof
  assume "HasSuffix (drop n (TempNameFor sys p)) kStoreFileSuffix"
  from HasSuffix_last [OF this] have "drop n (TempNameFor sys p) \<noteq> []" "last (drop n (TempNameFor sys p)) = CHR ''n''"
    by (simp_all add: kStoreFileSuffix_def)
  then have "last (TempNameFor sys p) = CHR ''n''" by (simp add: last_drop)
  then have "is_digit (CHR ''n'')" using last_to_string [of "os_process_id sys"] by (simp add: TempNameFor_def)
  then show False by code_simp
qed

lemma temp_not_counted: "plan_keys opts [TempNameFor sys p] = []"
  using temp_no_suffix [of _ sys p]
  by (auto simp: plan_keys_def List.map_filter_simps name_in_def Let_def split: option.splits)

lemma plan_files_put_temp: "length (plan_file_names opts (put_file (TempNameFor sys p) b fs)) = length (plan_file_names opts fs)"
  by (auto simp: plan_file_names_keys put_file_def AList.update_keys plan_keys_append temp_not_counted)

lemma WriteFileAtomic_count:
  "length (plan_file_names opts (snd (WriteFileAtomic sys p b fs))) \<le> Suc (length (plan_file_names opts fs))"
proof -
  let ?t = "TempNameFor sys p"
  have one: "length (plan_file_names opts (drop_file ?t (put_file ?t x (put_file ?t y fs)))) \<le> length (plan_file_names opts fs)" for x y
    using plan_files_drop [of opts ?t] by (metis plan_files_put_temp)
  have two: "length (plan_file_names opts (drop_file ?t (put_file ?t y fs))) \<le> length (plan_file_names opts fs)" for y
    using plan_files_drop [of opts ?t] by (metis plan_files_put_temp)
  have "length (plan_file_names opts (put_file p b (drop_file ?t (put_file ?t x (put_file ?t y fs))))) \<le>
      Suc (length (plan_file_names opts fs))" for x y
    using one [of x y] plan_files_put [of opts p b] by (meson Suc_le_mono le_trans)
  with two show ?thesis
    by (auto simp: WriteFileAtomic_def RenameFile_def Let_def plan_files_put_temp le_SucI split: option.splits)
qed

lemma Store_Put_count:
  assumes "length (plan_file_names opts fs) \<le> so_max_plans opts"
  shows "length (plan_file_names opts (snd (Store_Put sys dc opts plan fs))) \<le> so_max_plans opts"
proof -
  have "length (plan_file_names opts (snd (WriteFileAtomic sys (PathFor opts (pl_digest plan)) b fs))) \<le> so_max_plans opts"
    if "length (plan_file_names opts fs) < so_max_plans opts" for b
    using that WriteFileAtomic_count [of opts sys "PathFor opts (pl_digest plan)" b fs] by simp
  with assms show ?thesis
    by (auto simp: Store_Put_def Let_def not_le dest!: ScanLocked_names split: sum.splits)
qed

section \<open>Properties\<close>

lemma Store_Remove_stored:
  "stored dc opts (snd (Store_Remove sys opts d fs)) =
     (if failed (fst (Store_Remove sys opts d fs)) then stored dc opts fs else (stored dc opts fs)(d := None))"
  using RemoveFile_files [of sys "PathFor opts d" fs]
  by (auto simp: Store_Remove_def stored_def fun_eq_iff)

lemma Store_Put_stored:
  assumes "storable dc plan"
  shows "stored dc opts (snd (Store_Put sys dc opts plan fs)) =
     (if failed (fst (Store_Put sys dc opts plan fs)) then stored dc opts fs
      else (stored dc opts fs)(pl_digest plan \<mapsto> plan))"
proof (rule ext)
  fix d
  show "stored dc opts (snd (Store_Put sys dc opts plan fs)) d =
     (if failed (fst (Store_Put sys dc opts plan fs)) then stored dc opts fs
      else (stored dc opts fs)(pl_digest plan \<mapsto> plan)) d"
    using plan_store.put_stored [OF assms, of sys opts fs] plan_store.put_other [of d plan dc opts sys fs]
      plan_store.put_refused [of sys dc opts plan fs d]
    by (auto simp: put_plan_def split_beta Let_def)
qed

lemma Store_Put_grows:
  assumes "storable dc plan"
  shows "stored dc opts fs \<subseteq>\<^sub>m stored dc opts (snd (Store_Put sys dc opts plan fs))"
  using plan_store.put_keeps [OF assms, of opts fs _ _ sys]
  by (auto simp: map_le_def put_plan_def split_beta Let_def)

text \<open>
  C16: whatever the files of the store hold and however reads fail, a plan that \<open>PlanStore::Get\<close>
  returns carries the digest that was asked for, that digest is the SHA-256 seal of the plan's own
  canonical text, and the plan has steps and segments.
\<close>

theorem Store_Get_sound:
  assumes "Store_Get sys dc opts d fs = Inr plan"
  shows "pl_digest plan = d \<and> d = Sha256_Of (''OPP-PLAN-v1'' @ [CHR 0x0A] @ DigestPayload dc plan) \<and>
    pl_steps plan \<noteq> [] \<and> pl_segments plan \<noteq> []"
  using stored_sealed [OF Store_Get_stored [OF assms]] by (simp add: plan_text_digest_sha256 Sha256_Of_eq)




end
