(* ===== verification/Service_Props.thy ===== *)
theory Service_Props
  imports Service Store_Props Topology_Props
begin

text \<open>
  Properties of the inspection service: fencing, the invariant of its state under every interleaving of
  connections and plans in flight, what its steps keep of the files, and restarts.
\<close>

section \<open>What a handler may change\<close>

lemma tally_simps [simp]:
  "sv_options (tally f sv) = sv_options sv" "sv_incarnation (tally f sv) = sv_incarnation sv"
  "sv_stopping (tally f sv) = sv_stopping sv" "sv_snapshot (tally f sv) = sv_snapshot sv"
  "sv_snapshot_fresh (tally f sv) = sv_snapshot_fresh sv" "sv_store (tally f sv) = sv_store sv"
  "sv_workers (tally f sv) = sv_workers sv" "sv_active_connections (tally f sv) = sv_active_connections sv"
  "sv_cancellations (tally f sv) = sv_cancellations sv" "sv_stats (tally f sv) = f (sv_stats sv)"
  by (simp_all add: tally_def)

lemmas stat_ops = plan_begin_def plan_end_def count_rejected_def count_handled_def StopConnections_def

text \<open>The part of the state that no request changes.\<close>

definition same_service :: "Service \<Rightarrow> Service \<Rightarrow> bool" where
  "same_service a b \<longleftrightarrow> sv_options a = sv_options b \<and> sv_incarnation a = sv_incarnation b \<and> sv_store a = sv_store b \<and>
     sv_workers a = sv_workers b \<and> sv_active_connections a = sv_active_connections b"

lemma same_service_refl [simp]: "same_service sv sv"
  by (simp add: same_service_def)

lemma handle_kind_same: "handle_kind lm sys dc f sv fs = (a, sv', fs') \<Longrightarrow> same_service sv sv'"
  by (auto simp: handle_kind_def handle_ingest_def handle_plan_def handle_cancel_def Let_def stat_ops same_service_def
      split: option.splits MessageKind.splits sum.splits prod.splits if_splits)

lemma HandleFrameFor_same: "HandleFrameFor lm sys dc f sv fs = (r, sv', fs') \<Longrightarrow> same_service sv sv'"
  by (auto simp: HandleFrameFor_def same_service_def split: if_splits prod.splits dest!: handle_kind_same)

lemma serve_frame_same: "serve_frame lm sys dc f sv fs = (r, go, sv', fs') \<Longrightarrow> same_service sv sv'"
  by (auto simp: serve_frame_def same_service_def stat_ops split: if_splits prod.splits dest!: HandleFrameFor_same)

lemma response_frame_route [simp]:
  "fr_sequence (response_frame f sv a) = fr_sequence f" "fr_epoch_pin (response_frame f sv a) = service_epoch sv"
  by (auto simp: response_frame_def MakeFailureFrame_def split: sum.splits prod.splits)

text \<open>Every response carries the sequence number of its request and the epoch of the service.\<close>

lemma serve_frame_route:
  "serve_frame lm sys dc f sv fs = (r, go, sv', fs') \<Longrightarrow> fr_sequence r = fr_sequence f \<and> fr_epoch_pin r = service_epoch sv"
  by (auto simp: serve_frame_def HandleFrameFor_def fenced_frame_def MakeFailureFrame_def Let_def
      split: if_splits prod.splits)

section \<open>Steps of the running service\<close>

text \<open>
  The state of the running service with its file system and the plans in flight: their snapshot and request.
  A frame other than a plan request is one step; a plan request is two, because the planner runs outside the
  mutex, and other steps may come between.  Workers accept, serve, reject undecodable frames and leave in any
  order; the operating system may behave differently at every step.
\<close>

type_synonym job = "TopologySnapshot option \<times> PlanningRequest"
type_synonym running = "Service \<times> filesystem \<times> job list"

definition unpinned :: "Frame \<Rightarrow> Service \<Rightarrow> bool" where
  "unpinned f sv \<longleftrightarrow> fr_epoch_pin f = 0 \<or> fr_epoch_pin f = service_epoch sv"

inductive service_step :: "libm \<Rightarrow> double_chars \<Rightarrow> running \<Rightarrow> running \<Rightarrow> bool" for lm dc where
  accept: "\<not> sv_stopping sv \<Longrightarrow> service_step lm dc (sv, fs, jobs) (snd (accept_connection h sv), fs, jobs)"
| serve: "\<not> (message_kind (fr_kind f) = Some MkPlan \<and> unpinned f sv) \<Longrightarrow>
    serve_frame lm sys dc f sv fs = (r, go, sv', fs') \<Longrightarrow> service_step lm dc (sv, fs, jobs) (sv', fs', jobs)"
| plan_starts: "message_kind (fr_kind f) = Some MkPlan \<Longrightarrow> unpinned f sv \<Longrightarrow> requested_plan dc (fr_payload f) = Inr q \<Longrightarrow>
    service_step lm dc (sv, fs, jobs) (plan_begin sv, fs, (sv_snapshot sv, q) # jobs)"
| plan_refused: "message_kind (fr_kind f) = Some MkPlan \<Longrightarrow> unpinned f sv \<Longrightarrow> requested_plan dc (fr_payload f) = Inl e \<Longrightarrow>
    service_step lm dc (sv, fs, jobs) (count_rejected sv, fs, jobs)"
| plan_ends: "res = plan_compute lm dc (sv_options sv) snapshot q \<Longrightarrow>
    plan_store_result sys dc (sv_store sv) res fs = (kept, fs') \<Longrightarrow>
    service_step lm dc (sv, fs, before @ (snapshot, q) # after) (count_handled (plan_end res kept sv), fs', before @ after)"
| reject: "service_step lm dc (sv, fs, jobs) (count_rejected sv, fs, jobs)"
| leave: "service_step lm dc (sv, fs, jobs) (sv\<lparr>sv_active_connections := remove1 h (sv_active_connections sv)\<rparr>, fs, jobs)"
| stop: "service_step lm dc (sv, fs, jobs) (Shutdown sv, fs, jobs)"

inductive_cases service_step_cases: "service_step lm dc (sv, fs, jobs) (sv', fs', jobs')"

text \<open>A plan request that is not interleaved with anything is its two steps.\<close>

lemma serve_plan_steps:
  assumes "message_kind (fr_kind f) = Some MkPlan" "unpinned f sv" "serve_frame lm sys dc f sv fs = (r, go, sv', fs')"
  shows "(service_step lm dc)\<^sup>*\<^sup>* (sv, fs, jobs) (sv', fs', jobs)"
proof (cases "requested_plan dc (fr_payload f)")
  case (Inl e)
  then have "sv' = count_rejected sv" "fs' = fs"
    using assms by (auto simp: serve_frame_def HandleFrameFor_def handle_kind_def handle_plan_def unpinned_def
        response_frame_def MakeFailureFrame_def split: if_splits)
  then show ?thesis using service_step.plan_refused [OF assms(1,2) Inl] by (simp add: r_into_rtranclp)
next
  case (Inr q)
  let ?res = "plan_compute lm dc (sv_options sv) (sv_snapshot sv) q"
  obtain kept fs1 where put: "plan_store_result sys dc (sv_store sv) ?res fs = (kept, fs1)" by fastforce
  have "sv' = count_handled (plan_end ?res kept (plan_begin sv))" "fs' = fs1"
    using assms Inr put by (auto simp: serve_frame_def HandleFrameFor_def handle_kind_def handle_plan_def unpinned_def
        response_frame_def MakeFailureFrame_def Let_def split: if_splits)
  moreover have "service_step lm dc (sv, fs, jobs) (plan_begin sv, fs, (sv_snapshot sv, q) # jobs)"
    by (rule service_step.plan_starts [OF assms(1,2) Inr])
  moreover have "service_step lm dc (plan_begin sv, fs, (sv_snapshot sv, q) # jobs)
      (count_handled (plan_end ?res kept (plan_begin sv)), fs1, jobs)"
    using service_step.plan_ends [where before = "[]" and sv = "plan_begin sv" and snapshot = "sv_snapshot sv"] put
    by (simp add: plan_begin_def)
  ultimately show ?thesis by (metis converse_rtranclp_into_rtranclp rtranclp.rtrancl_refl)
qed

section \<open>The invariant\<close>

definition fresh_exactly :: "Service \<Rightarrow> bool" where
  "fresh_exactly sv \<longleftrightarrow> (case sv_snapshot sv of None \<Rightarrow> \<not> sv_snapshot_fresh sv | Some s \<Rightarrow> sv_snapshot_fresh sv \<longleftrightarrow> s_freshness s = Fresh)"

definition service_ok :: "Service \<Rightarrow> bool" where
  "service_ok sv \<longleftrightarrow> fresh_exactly sv \<and> sv_cancellations sv = [] \<and>
     length (sv_active_connections sv) \<le> sv_workers sv \<and> sv_workers sv \<le> vo_max_connections (sv_options sv)"

lemma Build_fresh: "fst (Build dg b) = Inr s \<Longrightarrow> s_freshness s = Fresh"
  by (auto simp: Build_def assemble_def Let_def split: if_splits sum.splits prod.splits)

lemma ParseSnapshotText_fresh: "ParseSnapshotText dc t = Inr s \<Longrightarrow> s_freshness s = Fresh"
  by (auto simp: ParseSnapshotText_def and_then_Inr malformed_def split: if_splits dest: Build_fresh)

lemma accepted_snapshot_fresh: "accepted_snapshot dc p = Inr s \<Longrightarrow> s_freshness s = Fresh"
  by (auto simp: accepted_snapshot_def and_then_Inr split: if_splits dest: ParseSnapshotText_fresh)

lemma handle_kind_ok: "handle_kind lm sys dc f sv fs = (a, sv', fs') \<Longrightarrow> service_ok sv \<Longrightarrow> service_ok sv'"
  by (auto simp: handle_kind_def handle_ingest_def handle_plan_def handle_cancel_def cancel_tokens_def Let_def stat_ops
      service_ok_def fresh_exactly_def split: option.splits MessageKind.splits sum.splits prod.splits if_splits
      dest: accepted_snapshot_fresh)

lemma service_ok_simps [simp]:
  "service_ok (tally f sv) \<longleftrightarrow> service_ok sv" "service_ok (sv\<lparr>sv_stopping := b\<rparr>) \<longleftrightarrow> service_ok sv"
  "service_ok (sv\<lparr>sv_bound_port := n, sv_listener := l\<rparr>) \<longleftrightarrow> service_ok sv"
  by (simp_all add: service_ok_def fresh_exactly_def split: option.splits)

lemma serve_frame_ok: "serve_frame lm sys dc f sv fs = (r, go, sv', fs') \<Longrightarrow> service_ok sv \<Longrightarrow> service_ok sv'"
  by (auto simp: serve_frame_def HandleFrameFor_def stat_ops Let_def split: if_splits prod.splits dest!: handle_kind_ok)

lemma service_step_ok: "service_step lm dc (sv, fs, jobs) (sv', fs', jobs') \<Longrightarrow> service_ok sv \<Longrightarrow> service_ok sv'"
proof (erule service_step_cases)
  fix h assume "sv' = snd (accept_connection h sv)" "service_ok sv"
  then show "service_ok sv'"
    by (auto simp: accept_connection_def count_rejected_def service_ok_def fresh_exactly_def split: option.splits)
next
  fix h assume "sv' = sv\<lparr>sv_active_connections := remove1 h (sv_active_connections sv)\<rparr>" "service_ok sv"
  then show "service_ok sv'"
    using length_remove1 [of h "sv_active_connections sv"]
    by (auto simp: service_ok_def fresh_exactly_def split: option.splits)
qed (auto simp: stat_ops Shutdown_def dest: serve_frame_ok) 

text \<open>The counter of active requests is the number of plans in flight.\<close>

lemma handle_kind_active:
  "handle_kind lm sys dc f sv fs = (a, sv', fs') \<Longrightarrow> ss_active_requests (sv_stats sv') = ss_active_requests (sv_stats sv)"
  by (auto simp: handle_kind_def handle_ingest_def handle_plan_def handle_cancel_def Let_def stat_ops
      split: option.splits MessageKind.splits sum.splits prod.splits if_splits)

lemma serve_frame_active:
  "serve_frame lm sys dc f sv fs = (r, go, sv', fs') \<Longrightarrow> ss_active_requests (sv_stats sv') = ss_active_requests (sv_stats sv)"
  by (auto simp: serve_frame_def HandleFrameFor_def stat_ops Let_def split: if_splits prod.splits dest!: handle_kind_active)

lemma service_step_active:
  assumes "service_step lm dc (sv, fs, jobs) (sv', fs', jobs')" "ss_active_requests (sv_stats sv) = of_nat (length jobs)"
  shows "ss_active_requests (sv_stats sv') = of_nat (length jobs')"
  using assms
  by (auto elim!: service_step_cases simp: stat_ops accept_connection_def Shutdown_def Let_def dest: serve_frame_active)

lemma accept_connection_same:
  "sv_options (snd (accept_connection h sv)) = sv_options sv" "sv_incarnation (snd (accept_connection h sv)) = sv_incarnation sv"
  "sv_store (snd (accept_connection h sv)) = sv_store sv"
  by (simp_all add: accept_connection_def count_rejected_def)

lemma service_step_same:
  "service_step lm dc (sv, fs, jobs) (sv', fs', jobs') \<Longrightarrow>
     sv_options sv' = sv_options sv \<and> sv_incarnation sv' = sv_incarnation sv \<and> sv_store sv' = sv_store sv"
  by (erule service_step_cases)
    (auto simp: stat_ops Shutdown_def accept_connection_same same_service_def dest: serve_frame_same)

lemmas steps_induct = rtranclp_induct [of _ "(sv, fs, jobs)" "(sv', fs', jobs')", split_rule, consumes 1, case_names refl step]
  for sv fs jobs sv' fs' jobs'

lemma service_steps_invariant:
  assumes "(service_step lm dc)\<^sup>*\<^sup>* (sv, fs, jobs) (sv', fs', jobs')"
    and "service_ok sv" "ss_active_requests (sv_stats sv) = of_nat (length jobs)"
  shows "service_ok sv' \<and> ss_active_requests (sv_stats sv') = of_nat (length jobs') \<and>
    sv_options sv' = sv_options sv \<and> sv_incarnation sv' = sv_incarnation sv \<and> sv_store sv' = sv_store sv"
  using assms(1)
proof (induction rule: steps_induct)
  case (step sv1 fs1 jobs1 sv2 fs2 jobs2)
  then show ?case
    using service_step_ok [OF step.hyps(2)] service_step_active [OF step.hyps(2)] service_step_same [OF step.hyps(2)] by simp
qed (simp add: assms)

section \<open>Files\<close>

text \<open>A file whose name does not end in a digit is no temporary file of an atomic write.\<close>

lemma not_temporary: "\<not> is_digit (last q) \<Longrightarrow> q \<noteq> TempNameFor sys p"
  using last_to_string by (auto simp: TempNameFor_def)

lemma WriteFileAtomic_keeps:
  "\<not> is_digit (last q) \<Longrightarrow> q \<noteq> p \<Longrightarrow> file_at (snd (WriteFileAtomic sys p b fs)) q = file_at fs q"
  using WriteFileAtomic_files [OF not_temporary, of q sys p b fs] by simp

lemma Store_Put_keeps:
  assumes "\<not> is_digit (last q)" "file_at fs q = Some b"
  shows "file_at (snd (Store_Put sys dc opts plan fs)) q = Some b"
proof (cases "q = PathFor opts (pl_digest plan)")
  case True
  then have "FileExists (PathFor opts (pl_digest plan)) fs" using assms(2) by (simp add: FileExists_def)
  then have "snd (Store_Put sys dc opts plan fs) = fs"
    by (auto simp: Store_Put_def Let_def split: sum.splits)
  then show ?thesis using assms(2) by simp
next
  case False
  then show ?thesis
    using assms WriteFileAtomic_keeps [OF assms(1) False]
    by (auto simp: Store_Put_def Let_def split: sum.splits)
qed

lemma store_candidates_keeps:
  "\<not> is_digit (last q) \<Longrightarrow> file_at fs q = Some b \<Longrightarrow> file_at (snd (store_candidates sys dc opts ps k fs)) q = Some b"
proof (induction ps arbitrary: k fs)
  case (Cons p ps)
  then show ?case using Store_Put_keeps [OF Cons.prems, of sys dc opts p] by (simp add: split_beta)
qed simp

definition snapshot_path :: "ServiceOptions \<Rightarrow> string" where
  "snapshot_path options = JoinPath (vo_state_dir options) kSnapshotFileName"

lemma plan_store_result_keeps:
  "\<not> is_digit (last q) \<Longrightarrow> file_at fs q = Some b \<Longrightarrow> file_at (snd (plan_store_result sys dc opts res fs)) q = Some b"
  by (simp add: plan_store_result_def store_candidates_keeps)

lemma handle_kind_keeps:
  assumes "handle_kind lm sys dc f sv fs = (a, sv', fs')" "\<not> is_digit (last q)" "q \<noteq> snapshot_path (sv_options sv)"
    "file_at fs q = Some b"
  shows "file_at fs' q = Some b"
proof -
  have "file_at (snd (persist_snapshot sys dc (sv_options sv) s fs)) q = Some b" for s
    using WriteFileAtomic_keeps [OF assms(2,3)] assms(4)
    by (simp add: persist_snapshot_def SaveSnapshotFile_def snapshot_path_def)
  then have ingest: "handle_ingest sys dc p sv fs = (a, sv', fs') \<Longrightarrow> file_at fs' q = Some b" for p
    using assms(4) by (auto simp: handle_ingest_def Let_def split: sum.splits prod.splits if_splits) (metis snd_conv)+
  have plan: "handle_plan lm sys dc p sv fs = (a, sv', fs') \<Longrightarrow> file_at fs' q = Some b" for p
    using plan_store_result_keeps [OF assms(2,4)] assms(4)
    by (auto simp: handle_plan_def Let_def split: sum.splits prod.splits) (metis snd_conv)+
  show ?thesis
    using assms(1,4) ingest plan
    by (auto simp: handle_kind_def Let_def split: option.splits MessageKind.splits prod.splits)
qed

lemma serve_frame_keeps:
  assumes "serve_frame lm sys dc f sv fs = (r, go, sv', fs')" "\<not> is_digit (last q)" "q \<noteq> snapshot_path (sv_options sv)"
    "file_at fs q = Some b"
  shows "file_at fs' q = Some b"
  using assms handle_kind_keeps [OF _ assms(2,3,4)]
  by (auto simp: serve_frame_def HandleFrameFor_def split: if_splits prod.splits)

lemma service_step_keeps:
  assumes "service_step lm dc (sv, fs, jobs) (sv', fs', jobs')" "\<not> is_digit (last q)" "q \<noteq> snapshot_path (sv_options sv)"
    "file_at fs q = Some b"
  shows "file_at fs' q = Some b"
  using assms(1)
proof (rule service_step_cases)
  fix sys f r go assume "serve_frame lm sys dc f sv fs = (r, go, sv', fs')"
  then show ?thesis by (rule serve_frame_keeps) (rule assms)+
next
  fix sys res kept assume "plan_store_result sys dc (sv_store sv) res fs = (kept, fs')"
  then show ?thesis using plan_store_result_keeps [OF assms(2,4), of sys dc "sv_store sv" res] by simp
qed (use assms(4) in simp_all)

lemma service_steps_keep:
  assumes "(service_step lm dc)\<^sup>*\<^sup>* (sv, fs, jobs) (sv', fs', jobs')"
    and "\<not> is_digit (last q)" "q \<noteq> snapshot_path (sv_options sv)" "file_at fs q = Some b"
  shows "file_at fs' q = Some b \<and> sv_options sv' = sv_options sv"
  using assms(1)
proof (induction rule: steps_induct)
  case (step sv1 fs1 jobs1 sv2 fs2 jobs2)
  then show ?case
    using service_step_keeps [OF step.hyps(2) assms(2)] service_step_same [OF step.hyps(2)] assms(3) by simp
qed (simp add: assms)

section \<open>Restarts\<close>

lemma last_JoinPath: "leaf \<noteq> [] \<Longrightarrow> last (JoinPath base leaf) = last leaf"
  by (simp add: JoinPath_def)

lemma path_ends:
  "last (record_path dir) = CHR ''f''" "last (snapshot_path options) = CHR ''p''" "last (PathFor opts d) = CHR ''n''"
  "last (JoinPath dir ''service.lock'') = CHR ''k''"
  by (simp_all add: record_path_def snapshot_path_def kIncarnationFileName_def kSnapshotFileName_def last_JoinPath
      PathFor_eq kStoreFileSuffix_def)

lemma path_ends_no_digit: "\<not> is_digit (CHR ''f'')" "\<not> is_digit (CHR ''n'')"
  by code_simp+

lemma paths_distinct: "record_path dir \<noteq> snapshot_path options" "PathFor opts d \<noteq> snapshot_path options"
  "record_path dir \<noteq> JoinPath dir ''service.lock''"
  by (rule notI, drule arg_cong [of _ _ last], simp add: path_ends)+

lemma clean_one_keeps: "last q \<noteq> CHR ''p'' \<Longrightarrow> file_at (clean_one sys opts name fs) q = file_at fs q"
proof -
  assume q: "last q \<noteq> CHR ''p''"
  show ?thesis
  proof (cases "HasSuffix name ''.tmp'' \<or> HasSuffix name kStoreTempSuffix")
    case True
    then have "name \<noteq> [] \<and> last name = CHR ''p''"
      using HasSuffix_last [of name "''.tmp''"] HasSuffix_last [of name kStoreTempSuffix] by (auto simp: kStoreTempSuffix_def)
    then have "q \<noteq> JoinPath (store_directory opts) name" using q last_JoinPath by metis
    then show ?thesis by (simp add: clean_one_def RemoveFile_files)
  qed (simp add: clean_one_def)
qed

lemma clean_keeps: "last q \<noteq> CHR ''p'' \<Longrightarrow> file_at (CleanTemporariesLocked sys opts fs) q = file_at fs q"
proof -
  assume q: "last q \<noteq> CHR ''p''"
  have "file_at (fold (clean_one sys opts) names fs) q = file_at fs q" for names
    by (induction names arbitrary: fs) (simp_all add: clean_one_keeps [OF q])
  then show ?thesis by (simp add: CleanTemporariesLocked_def split: sum.splits)
qed

lemma Store_Open_keeps:
  "Store_Open sys opts fs = (Inr store, fs') \<Longrightarrow> store = opts \<and> (last q \<noteq> CHR ''p'' \<longrightarrow> file_at fs' q = file_at fs q)"
  using EnsureDirectory_file_at [of sys "so_root opts" fs]
    EnsureDirectory_file_at [of sys "store_directory opts" "snd (EnsureDirectory sys (so_root opts) fs)"]
  by (auto simp: Store_Open_def Let_def clean_keeps split: if_splits prod.splits)

lemma restore_snapshot_simps:
  "sv_options (restore_snapshot pf dc fs sv) = sv_options sv" "sv_incarnation (restore_snapshot pf dc fs sv) = sv_incarnation sv"
  "sv_store (restore_snapshot pf dc fs sv) = sv_store sv" "sv_stats (restore_snapshot pf dc fs sv) = sv_stats sv"
  "service_ok sv \<Longrightarrow> \<not> sv_snapshot_fresh sv \<Longrightarrow>
     service_ok (restore_snapshot pf dc fs sv) \<and> \<not> sv_snapshot_fresh (restore_snapshot pf dc fs sv)"
  by (auto simp: restore_snapshot_def Let_def MarkRestored_def service_ok_def fresh_exactly_def split: sum.splits)

lemma open_listener_Inr:
  "open_listener pf sv = Inr sv' \<Longrightarrow> sv_options sv' = sv_options sv \<and> sv_incarnation sv' = sv_incarnation sv \<and>
     sv_store sv' = sv_store sv \<and> sv_stats sv' = sv_stats sv \<and> sv_snapshot_fresh sv' = sv_snapshot_fresh sv \<and>
     (service_ok sv' \<longleftrightarrow> service_ok sv)"
  by (auto simp: open_listener_def Let_def split: if_splits)

lemma new_service_ok:
  "service_ok (new_service options st store)" "\<not> sv_snapshot_fresh (new_service options st store)"
  by (simp_all add: new_service_def service_ok_def fresh_exactly_def)

lemma Start_Inr:
  assumes "Start pf dc options fs = (Inr sv, fs')"
  obtains fs2 fs3 where "AdvanceIncarnation pf (vo_state_dir options) fs2 = (Inr (sv_incarnation sv), fs3)"
    "file_at fs2 (record_path (vo_state_dir options)) = file_at fs (record_path (vo_state_dir options))"
    "file_at fs' (record_path (vo_state_dir options)) = file_at fs3 (record_path (vo_state_dir options))"
    "service_ok sv" "\<not> sv_snapshot_fresh sv" "sv_options sv = options" "sv_store sv = store_options_for options"
    "ss_active_requests (sv_stats sv) = 0"
proof -
  let ?dir = "vo_state_dir options"
  obtain fs1 where mk: "create_directories (pf_os pf) ?dir fs = (False, fs1)"
    using assms by (auto simp: Start_def Let_def split: if_splits prod.splits)
  obtain locked held fs2 where lock: "Lock_Acquire pf (JoinPath ?dir ''service.lock'') False fs1 = (locked, held, fs2)"
      "\<not> failed locked"
    using assms mk by (auto simp: Start_def Let_def split: if_splits prod.splits)
  obtain inc fs3 where adv: "AdvanceIncarnation pf ?dir fs2 = (Inr inc, fs3)"
    using assms mk lock by (auto simp: Start_def Let_def split: if_splits prod.splits sum.splits)
  obtain store where opened: "Store_Open (pf_os pf) (store_options_for options) fs3 = (Inr store, fs')"
      "open_listener pf (restore_snapshot pf dc fs' (new_service options inc store)) = Inr sv"
    using assms mk lock adv by (auto simp: Start_def Let_def split: if_splits prod.splits sum.splits)
  note up = open_listener_Inr [OF opened(2)]
  have store: "store = store_options_for options" using Store_Open_keeps [OF opened(1)] by blast
  have "file_at fs1 = file_at fs"
    using mk by (auto simp: create_directories_def file_at_def fun_eq_iff split: if_splits)
  moreover have "file_at fs2 (record_path ?dir) = file_at fs1 (record_path ?dir)"
    using lock paths_distinct(3) [of ?dir] by (auto simp: Lock_Acquire_def Let_def split: if_splits)
  moreover have "file_at fs' (record_path ?dir) = file_at fs3 (record_path ?dir)"
    using Store_Open_keeps [OF opened(1), of "record_path ?dir"] path_ends(1) [of ?dir] by simp
  ultimately show thesis
    using that [of fs2 fs3] adv up store restore_snapshot_simps(5) [OF new_service_ok, of pf dc fs' options inc store]
    by (simp add: restore_snapshot_simps(1-4)) (simp add: new_service_def zero_stats_def)
qed

lemma Start_next_epoch:
  assumes first: "Start pf dc options fs = (Inr old, fs1)"
    and between: "file_at fs2 (record_path (vo_state_dir options)) = file_at fs1 (record_path (vo_state_dir options))"
    and second: "Start pf' dc options' fs2 = (Inr new, fs3)" "vo_state_dir options' = vo_state_dir options"
    and readable: "reads_record (pf_os pf') (vo_state_dir options)"
  shows "unat (service_epoch new) = Suc (unat (service_epoch old)) \<and> in_epoch_continuity (sv_incarnation new)"
proof -
  obtain a b where one: "AdvanceIncarnation pf (vo_state_dir options) a = (Inr (sv_incarnation old), b)"
      "file_at fs1 (record_path (vo_state_dir options)) = file_at b (record_path (vo_state_dir options))"
    using first by (rule Start_Inr)
  obtain c d where two: "AdvanceIncarnation pf' (vo_state_dir options') c = (Inr (sv_incarnation new), d)"
      "file_at c (record_path (vo_state_dir options')) = file_at fs2 (record_path (vo_state_dir options'))"
    using second(1) by (rule Start_Inr)
  show ?thesis
    using AdvanceIncarnation_record [OF one(1)] one(2) between two second(2) readable
      AdvanceIncarnation_next [of c "vo_state_dir options" "sv_incarnation old" pf' "sv_incarnation new" d]
    by simp
qed

section \<open>Properties\<close>



text \<open>
  C19: the running service never loses or alters a stored plan: whatever is fetched from its store under a digest
  before any interleaving of requests, plans and shutdown is what is fetched under that digest afterwards.
\<close>

theorem Service_keeps_stored_plans:
  assumes "(service_step lm dc)\<^sup>*\<^sup>* (sv, fs, jobs) (sv', fs', jobs')" "stored dc (sv_store sv) fs d = Some plan"
  shows "stored dc (sv_store sv') fs' d = Some plan"
proof -
  obtain b where saved: "file_at fs (PathFor (sv_store sv) d) = Some b"
    using assms(2) by (auto simp: stored_def split: option.splits)
  have "sv_store sv' = sv_store sv"
    using assms(1) by (induction rule: steps_induct) (auto dest: service_step_same)
  moreover have "file_at fs' (PathFor (sv_store sv) d) = Some b"
    using service_steps_keep [OF assms(1) _ _ saved] path_ends(3) path_ends_no_digit paths_distinct(2) by simp
  ultimately show ?thesis using assms(2) saved by (simp add: stored_def)
qed

end
