(* ===== verification/Result_Round_Trip.thy ===== *)
theory Result_Round_Trip
  imports Result_Text Plan_Round_Trip
begin

text \<open>
  The round trip of the result text: \<open>ParseResultText (CanonicalBytes result)\<close> is the result, with its
  candidate plans, for every sealed result whose fields are in the grammar.
\<close>

section \<open>The text as token lists\<close>

definition statistics_tokens :: "PlanningStatistics \<Rightarrow> string list" where
  "statistics_tokens st =
     [''statistics'', keyed ''labels_created'' (FormatU64 (labels_created st)),
      keyed ''labels_expanded'' (FormatU64 (labels_expanded st)), keyed ''labels_dominated'' (FormatU64 (labels_dominated st)),
      keyed ''peak_frontier'' (FormatU64 (peak_frontier st)), keyed ''arcs_examined'' (FormatU64 (arcs_examined st)),
      keyed ''states_visited'' (FormatU64 (states_visited st)),
      keyed ''truncated'' (FormatU64 (if stat_truncated st then 1 else 0))]"

definition result_head_tokens :: "PlanningResult \<Rightarrow> string list list" where
  "result_head_tokens res =
     [[''OPP-RESULT'', ''1''],
      [''outcome'', EncodeToken (PlanOutcomeName (res_outcome res))],
      [''status'', EncodeToken (StatusCodeName (code (res_status res))), keyed ''detail'' (EncodeToken (detail (res_status res)))],
      [''request-digest'', EncodeToken (ToHexImpl (res_request_digest res))],
      [''snapshot-digest'', EncodeToken (ToHexImpl (res_snapshot_digest res))],
      [''limitations'', FormatU64 (unat (res_limitations res)), keyed ''names'' (EncodeToken (DescribeLimitations (res_limitations res)))],
      [''optimality'', EncodeToken (if res_optimality_proven res then ''proven'' else ''not_proven'')],
      statistics_tokens (res_statistics res)]"

definition witness_tokens :: "Witness \<Rightarrow> string list" where
  "witness_tokens w =
     [''witness'', EncodeToken (CutReasonName (w_reason w)), keyed ''res'' (EncodeToken (ResourceKeyToString (w_resource w))),
      keyed ''detail'' (EncodeToken (w_detail w))]"

definition cut_tokens :: "CutCount \<Rightarrow> string list" where
  "cut_tokens c = [''cut'', EncodeToken (CutReasonName (cut_reason c)), FormatU64 (cut_count c)]"

definition candidate_tokens :: "double_chars \<Rightarrow> PlanArtifact \<Rightarrow> string list list" where
  "candidate_tokens dc plan =
     [[''candidate'', EncodeToken (ToHexImpl (pl_digest plan))], [''candidate-plan-begin'']] @ plan_tokens dc plan @
     [[''candidate-plan-end'']]"

definition seal_tokens :: "PlanningResult \<Rightarrow> string list" where
  "seal_tokens res = [''digest'', EncodeToken (ToHexImpl (res_result_digest res))]"

definition own_tokens :: "PlanningResult \<Rightarrow> string list list" where
  "own_tokens res = result_head_tokens res @ map witness_tokens (res_witnesses res) @ map cut_tokens (res_cuts res)"

definition result_tokens :: "double_chars \<Rightarrow> PlanningResult \<Rightarrow> string list list" where
  "result_tokens dc res =
     own_tokens res @ concat (map (candidate_tokens dc) (res_candidates res)) @ [seal_tokens res]"

lemma emit_lines_append: "emit_lines (a @ b) = emit_lines a @ emit_lines b"
  by (simp add: emit_lines_def)

lemma candidate_text_tokens: "candidate_text dc plan = emit_lines (map join_tokens (candidate_tokens dc plan))"
proof -
  have word: "w = join_tokens [w]" for w by (simp add: join_tokens.simps)
  have "CanonicalBytes dc plan = emit_lines (map join_tokens (plan_tokens dc plan))"
    by (simp add: CanonicalBytes_def PlanToText_def emit_lines_def plan_lines_tokens)
  then show ?thesis
    unfolding candidate_text_def candidate_tokens_def map_append emit_lines_append
    by (simp add: line_ops join_tokens.simps(2) flip: emit_lines_append)
qed

lemma witness_line_tokens: "witness_line w = join_tokens (witness_tokens w)"
  by (simp add: witness_line_def witness_tokens_def line_ops)

lemma cut_line_tokens: "cut_line c = join_tokens (cut_tokens c)"
  by (simp add: cut_line_def cut_tokens_def line_ops)

lemma Result_text_tokens: "Result_CanonicalBytes dc res = emit_lines (map join_tokens (result_tokens dc res))"
proof -
  have head: "''OPP-RESULT 1'' = join_tokens [''OPP-RESULT'', ''1'']" by (simp add: join_tokens.simps)
  have own: "result_head_lines res @ [statistics_line (res_statistics res)] @ map witness_line (res_witnesses res) @
      map cut_line (res_cuts res) = map join_tokens (own_tokens res)"
    unfolding result_head_lines_def head
    by (simp add: own_tokens_def result_head_tokens_def statistics_tokens_def statistics_line_def line_ops
        witness_line_tokens cut_line_tokens)
  have "concat (map (candidate_text dc) ps) = emit_lines (map join_tokens (concat (map (candidate_tokens dc) ps)))" for ps
    by (induction ps) (simp_all add: candidate_text_tokens emit_lines_append, simp add: emit_lines_def)
  then show ?thesis
    unfolding Result_CanonicalBytes_def ResultToTextImpl_def own
    by (simp add: result_tokens_def emit_lines_append seal_tokens_def line_ops)
qed

section \<open>Results in the grammar\<close>

definition statistics_ok :: "PlanningStatistics \<Rightarrow> bool" where
  "statistics_ok st \<longleftrightarrow> labels_created st < 2 ^ 64 \<and> labels_expanded st < 2 ^ 64 \<and> labels_dominated st < 2 ^ 64 \<and>
     peak_frontier st < 2 ^ 64 \<and> arcs_examined st < 2 ^ 64 \<and> states_visited st < 2 ^ 64"

definition candidate_ok :: "double_chars \<Rightarrow> PlanArtifact \<Rightarrow> bool" where
  "candidate_ok dc p \<longleftrightarrow> plan_in_grammar dc p \<and> plan_within_bounds dc p \<and> pl_digest p = plan_text_digest dc p"

definition result_in_grammar :: "double_chars \<Rightarrow> PlanningResult \<Rightarrow> bool" where
  "result_in_grammar dc res \<longleftrightarrow>
     length (res_request_digest res) = 32 \<and> length (res_snapshot_digest res) = 32 \<and> length (res_result_digest res) = 32 \<and>
     statistics_ok (res_statistics res) \<and> list_all (\<lambda>w. rk_text (w_resource w) \<noteq> []) (res_witnesses res) \<and>
     list_all (\<lambda>c. cut_count c < 2 ^ 64) (res_cuts res) \<and> list_all (candidate_ok dc) (res_candidates res) \<and>
     list_all line_fits (own_tokens res)"

section \<open>Lines outside candidates\<close>

text \<open>The reader of a line outside a candidate plan.\<close>

definition outside :: "nat \<Rightarrow> string list \<Rightarrow> ResultParse \<Rightarrow> ResultParse expected" where
  "outside n ts st = (if qp_in_candidate st then malformed ''inside a candidate plan'' else parse_result_line n ts st)"

lemma parse_outside:
  "lines_read outside st tss st' \<Longrightarrow>
     parse_result_lines dc n (map join_tokens tss @ ls) st = parse_result_lines dc (n + length tss) ls st'"
proof (induction arbitrary: n rule: lines_read.induct)
  case (more st ts st1 tss st2)
  then have r: "ts \<noteq> []" "list_all plain_token ts" "line_fits ts" "\<And>n. outside n ts st = Inr st1"
    by (simp_all add: line_reads_def readable_def)
  have "\<not> qp_in_candidate st" using r(4) [of 0] by (auto simp: outside_def malformed_def)
  moreover from this have "parse_result_line n ts st = Inr st1" for n using r(4) [of n] by (simp add: outside_def)
  ultimately show ?case
    using r(1-3) more.IH
    using SplitTokens_join [of ts] join_tokens_nonempty [of ts] strip_cr_join [of ts] by simp
qed simp

definition reading_result :: "PlanningResult \<Rightarrow> Digest256 list \<Rightarrow> ResultParse" where
  "reading_result res ds = \<lparr>qp_result = res, qp_header_seen = True, qp_digest_seen = False, qp_in_candidate = False,
     qp_candidate_buffer = [], qp_expected_digests = ds\<rparr>"

lemma reads_result_record:
  assumes "readable ts" "hd ts \<noteq> ''candidate-plan-begin''"
    "parse_result_record ts (reading_result res ds) = Inr (reading_result res' ds)"
  shows "line_reads outside (reading_result res ds) ts (reading_result res' ds)"
  using assms
  by (simp add: line_reads_def outside_def parse_result_line_def readable_def hd_conv_nth reading_result_def)

lemma raw_names:
  "list_all IsRawTokenCharacter (PlanOutcomeName c) \<and> PlanOutcomeName c \<noteq> []"
  "list_all IsRawTokenCharacter (StatusCodeName d) \<and> StatusCodeName d \<noteq> []"
  "list_all IsRawTokenCharacter (CutReasonName r) \<and> CutReasonName r \<noteq> []"
proof -
  have outcomes: "c \<in> set all_outcomes" by (cases c) (simp_all add: all_outcomes_def)
  have codes: "d \<in> set kCodes" by (cases d) (simp_all add: kCodes_def)
  have "list_all (\<lambda>t. list_all IsRawTokenCharacter t \<and> t \<noteq> []) (map PlanOutcomeName all_outcomes)"
    "list_all (\<lambda>t. list_all IsRawTokenCharacter t \<and> t \<noteq> []) (map StatusCodeName kCodes)"
    "list_all (\<lambda>t. list_all IsRawTokenCharacter t \<and> t \<noteq> []) (map CutReasonName all_cut_reasons)"
    by code_simp+
  with outcomes codes
  show "list_all IsRawTokenCharacter (PlanOutcomeName c) \<and> PlanOutcomeName c \<noteq> []"
    "list_all IsRawTokenCharacter (StatusCodeName d) \<and> StatusCodeName d \<noteq> []"
    "list_all IsRawTokenCharacter (CutReasonName r) \<and> CutReasonName r \<noteq> []"
    by (auto simp: list_all_iff)
qed

lemma names_raw [simp]:
  "EncodeToken (PlanOutcomeName c) = PlanOutcomeName c" "EncodeToken (StatusCodeName d) = StatusCodeName d"
  "EncodeToken (CutReasonName r) = CutReasonName r"
  using EncodeToken_raw raw_names by blast+

lemma names_plain [simp]:
  "plain_token (PlanOutcomeName c)" "plain_token (StatusCodeName d)" "plain_token (CutReasonName r)"
  using plain_tokens(1) names_raw by metis+

lemma find_names [simp]:
  "find (\<lambda>x. PlanOutcomeName x = PlanOutcomeName c) all_outcomes = Some c"
  "find (\<lambda>x. StatusCodeName x = StatusCodeName d) kCodes = Some d"
  by (cases c; simp add: all_outcomes_def) (cases d; simp add: kCodes_def)

lemma parse_statistics_tokens:
  assumes "statistics_ok st"
  shows "parse_statistics (statistics_tokens st) = Inr st"
proof -
  have "ParseU64 (FormatU64 (if stat_truncated st then 1 else 0)) = Inr (if stat_truncated st then 1 else 0)"
    by (rule ParseU64_FormatU64) simp
  with assms show ?thesis
    by (simp add: parse_statistics_def statistics_tokens_def statistics_ok_def field_lookup)
qed

lemma parse_witness_tokens:
  assumes "rk_text (w_resource w) \<noteq> []" "line_fits (witness_tokens w)"
  shows "parse_witness (witness_tokens w) = Inr w"
proof -
  have "DecodeToken (EncodeToken (ResourceKeyToString (w_resource w))) = Inr (ResourceKeyToString (w_resource w))"
    "DecodeToken (EncodeToken (w_detail w)) = Inr (w_detail w)"
    by (auto intro!: fits_decode [OF assms(2)] simp: witness_tokens_def)
  with assms(1) show ?thesis
    by (simp add: parse_witness_def witness_tokens_def parse_detail_def field_lookup cut_names.parse_name)
qed

lemma parse_cut_tokens: "cut_count c < 2 ^ 64 \<Longrightarrow> parse_cut (cut_tokens c) = Inr c"
  by (simp add: parse_cut_def cut_tokens_def cut_names.parse_name)

lemma reads_witnesses:
  assumes "list_all (\<lambda>w. rk_text (w_resource w) \<noteq> []) ws" "list_all line_fits (map witness_tokens ws)"
  shows "lines_read outside (reading_result res ds) (map witness_tokens ws)
    (reading_result (fold (\<lambda>w r. r\<lparr>res_witnesses := res_witnesses r @ [w]\<rparr>) ws res) ds)"
proof (rule lines_read_map [where wrap = "\<lambda>r. reading_result r ds"], rule reads_result_record)
  fix w p assume w: "w \<in> set ws"
  then have fits: "line_fits (witness_tokens w)" using assms(2) by (simp add: list_all_iff)
  then show "readable (witness_tokens w)" by (simp add: readable_def witness_tokens_def is_blank_def)
  have "parse_witness (witness_tokens w) = Inr w"
    using parse_witness_tokens [OF _ fits] assms(1) w by (simp add: list_all_iff)
  then show "parse_result_record (witness_tokens w) (reading_result p ds) =
      Inr (reading_result (p\<lparr>res_witnesses := res_witnesses p @ [w]\<rparr>) ds)"
    by (simp add: parse_result_record_def witness_tokens_def reading_result_def)
qed (simp add: witness_tokens_def)

lemma reads_cuts:
  assumes "list_all (\<lambda>c. cut_count c < 2 ^ 64) cs" "list_all line_fits (map cut_tokens cs)"
  shows "lines_read outside (reading_result res ds) (map cut_tokens cs)
    (reading_result (fold (\<lambda>c r. r\<lparr>res_cuts := res_cuts r @ [c]\<rparr>) cs res) ds)"
proof (rule lines_read_map [where wrap = "\<lambda>r. reading_result r ds"], rule reads_result_record)
  fix c p assume c: "c \<in> set cs"
  then show "readable (cut_tokens c)" using assms(2)
    by (simp add: list_all_iff readable_def cut_tokens_def is_blank_def)
  have "parse_cut (cut_tokens c) = Inr c" using parse_cut_tokens assms(1) c by (simp add: list_all_iff)
  then show "parse_result_record (cut_tokens c) (reading_result p ds) =
      Inr (reading_result (p\<lparr>res_cuts := res_cuts p @ [c]\<rparr>) ds)"
    by (simp add: parse_result_record_def cut_tokens_def reading_result_def)
qed (simp add: cut_tokens_def)

lemma fold_witnesses: "fold (\<lambda>w r. r\<lparr>res_witnesses := res_witnesses r @ [w]\<rparr>) ws r = r\<lparr>res_witnesses := res_witnesses r @ ws\<rparr>"
  by (induction ws arbitrary: r) simp_all

lemma fold_cuts: "fold (\<lambda>c r. r\<lparr>res_cuts := res_cuts r @ [c]\<rparr>) cs r = r\<lparr>res_cuts := res_cuts r @ cs\<rparr>"
  by (induction cs arbitrary: r) simp_all

lemma reads_result_head:
  assumes ok: "result_in_grammar dc res"
  shows "lines_read outside start_result (result_head_tokens res)
    (reading_result (empty_result\<lparr>res_outcome := res_outcome res, res_status := res_status res,
       res_request_digest := res_request_digest res, res_snapshot_digest := res_snapshot_digest res,
       res_limitations := res_limitations res, res_optimality_proven := res_optimality_proven res,
       res_statistics := res_statistics res\<rparr>) [])"
proof -
  let ?r1 = "empty_result\<lparr>res_outcome := res_outcome res\<rparr>"
  let ?r2 = "?r1\<lparr>res_status := res_status res\<rparr>"
  let ?r3 = "?r2\<lparr>res_request_digest := res_request_digest res\<rparr>"
  let ?r4 = "?r3\<lparr>res_snapshot_digest := res_snapshot_digest res\<rparr>"
  let ?r5 = "?r4\<lparr>res_limitations := res_limitations res\<rparr>"
  let ?r6 = "?r5\<lparr>res_optimality_proven := res_optimality_proven res\<rparr>"
  let ?r7 = "?r6\<lparr>res_statistics := res_statistics res\<rparr>"
  let ?at = "\<lambda>i. result_head_tokens res ! i" and ?in = "\<lambda>r. reading_result r []"
  have fits: "list_all line_fits (result_head_tokens res)"
    using ok by (simp add: result_in_grammar_def own_tokens_def)
  have shape: "result_head_tokens res = [?at 0, ?at 1, ?at 2, ?at 3, ?at 4, ?at 5, ?at 6, ?at 7]"
    by (simp add: result_head_tokens_def)
  have readable: "readable (?at i)" if "i < 8" for i
  proof -
    have "?at i \<in> set (result_head_tokens res)" by (rule nth_mem) (use that in \<open>simp add: result_head_tokens_def\<close>)
    moreover have "\<forall>ts \<in> set (result_head_tokens res). ts \<noteq> [] \<and> list_all plain_token ts"
      using ok by (simp add: result_head_tokens_def statistics_tokens_def is_blank_def result_in_grammar_def
          del: names_raw EncodeToken_hex)
    ultimately show ?thesis using fits by (auto simp: readable_def list_all_iff)
  qed
  have status: "DecodeToken (EncodeToken (detail (res_status res))) = Inr (detail (res_status res))"
    by (rule fits_decode [of "?at 2" "''detail''"]) (use fits in \<open>simp_all add: result_head_tokens_def\<close>)
  have "ParseU32 (FormatU64 (unat (res_limitations res))) = Inr (unat (res_limitations res))" by simp
  have optimality: "EncodeToken ''proven'' = ''proven''" "EncodeToken ''not_proven'' = ''not_proven''" by code_simp+
  have "line_reads outside start_result (?at 0) (?in empty_result)"
    using readable [of 0] by (simp add: line_reads_def outside_def start_result_def parse_result_line_def
        result_head_tokens_def reading_result_def)
  note first = this
  have step: "line_reads outside (?in r) (?at i) (?in r')"
    if "i < 8" "hd (?at i) \<noteq> ''candidate-plan-begin''" "parse_result_record (?at i) (?in r) = Inr (?in r')" for i r r'
    using readable [OF that(1)] that(2,3) by (rule reads_result_record)
  note defs = result_head_tokens_def parse_result_record_def reading_result_def result_in_grammar_def
  note first
  moreover have "line_reads outside (?in empty_result) (?at 1) (?in ?r1)"
    by (rule step) (simp_all add: defs)
  moreover have "line_reads outside (?in ?r1) (?at 2) (?in ?r2)"
    by (rule step) (use status in \<open>simp_all add: defs parse_status_def parse_detail_def field_lookup\<close>)
  moreover have "line_reads outside (?in ?r2) (?at 3) (?in ?r3)" "line_reads outside (?in ?r3) (?at 4) (?in ?r4)"
    by (rule step; use ok in \<open>simp add: defs parse_result_digest_def\<close>)+
  moreover have "line_reads outside (?in ?r4) (?at 5) (?in ?r5)" by (rule step) (simp_all add: defs)
  moreover have "line_reads outside (?in ?r5) (?at 6) (?in ?r6)"
    by (rule step; cases "res_optimality_proven res"; use optimality in \<open>simp add: defs\<close>)
  moreover have "line_reads outside (?in ?r6) (?at 7) (?in ?r7)"
  proof (rule step)
    show "parse_result_record (?at 7) (?in ?r6) = Inr (?in ?r7)"
      using parse_statistics_tokens [of "res_statistics res"] ok
      by (simp add: defs) (simp add: statistics_tokens_def)
  qed (simp_all add: result_head_tokens_def statistics_tokens_def)
  ultimately show ?thesis by (subst shape) (blast intro: lines_read.intros)
qed

section \<open>Candidates\<close>

lemma buffer_lines:
  "\<forall>l \<in> set pls. l \<noteq> ''candidate-plan-end'' \<and> strip_cr l = l \<Longrightarrow>
   length (buf @ emit_lines pls) \<le> kMaxPlanArtifactBytes \<Longrightarrow> qp_in_candidate st \<Longrightarrow> qp_candidate_buffer st = buf \<Longrightarrow>
   parse_result_lines dc n (pls @ ls) st =
     parse_result_lines dc (n + length pls) ls (st\<lparr>qp_candidate_buffer := buf @ emit_lines pls\<rparr>)"
proof (induction pls arbitrary: n buf st)
  case Nil
  then have "st\<lparr>qp_candidate_buffer := buf\<rparr> = st" by (cases st) simp
  then show ?case by (simp add: emit_lines_def)
next
  case (Cons l pls)
  let ?buf = "buf @ l @ [CHR 0x0A]"
  have "parse_candidate_line dc l st = Inr (st\<lparr>qp_candidate_buffer := ?buf\<rparr>)"
    using Cons.prems by (simp add: parse_candidate_line_def Let_def emit_lines_def)
  moreover have "parse_result_lines dc (Suc n) (pls @ ls) (st\<lparr>qp_candidate_buffer := ?buf\<rparr>) =
      parse_result_lines dc (Suc n + length pls) ls (st\<lparr>qp_candidate_buffer := ?buf\<rparr>\<lparr>qp_candidate_buffer := ?buf @ emit_lines pls\<rparr>)"
    by (rule Cons.IH) (use Cons.prems in \<open>auto simp: emit_lines_def\<close>)
  ultimately show ?case using Cons.prems by (simp add: emit_lines_def)
qed

lemma plan_token_counts: "ts \<in> set (plan_tokens dc plan) \<Longrightarrow> 2 \<le> length ts"
  by (auto simp: plan_tokens_def head_tokens_def middle_tokens_def segspans_tokens_def binding_tokens_def step_tokens_def
      segment_tokens_def segspan_tokens_def reservation_tokens_def assumption_tokens_def exposure_tokens_def)

lemma plan_lines_inside:
  assumes "candidate_ok dc plan" "l \<in> set (map join_tokens (plan_tokens dc plan))"
  shows "l \<noteq> ''candidate-plan-end'' \<and> strip_cr l = l"
proof -
  obtain ts where ts: "ts \<in> set (plan_tokens dc plan)" "l = join_tokens ts" using assms(2) by auto
  obtain a b rest where shape: "ts = a # b # rest"
    using plan_token_counts [OF ts(1)] by (metis One_nat_def Suc_1 Suc_le_length_iff)
  have "CHR '' '' \<in> set l" unfolding ts(2) shape by (simp add: join_tokens.simps)
  then have "l \<noteq> ''candidate-plan-end''" by auto
  moreover have "list_all plain_token ts"
    using lines_read_readable [OF reads_bounded_plan ts(1)] assms(1) by (simp add: candidate_ok_def)
  ultimately show ?thesis using strip_cr_join ts(2) by simp
qed

lemma reads_candidate:
  assumes ok: "candidate_ok dc plan"
  shows "parse_result_lines dc n (map join_tokens (candidate_tokens dc plan) @ ls) (reading_result res ds) =
    parse_result_lines dc (n + length (candidate_tokens dc plan)) ls
      (reading_result (res\<lparr>res_candidates := res_candidates res @ [plan]\<rparr>) (ds @ [pl_digest plan]))"
proof -
  let ?d = "pl_digest plan" and ?pls = "map join_tokens (plan_tokens dc plan)"
  let ?in = "(reading_result res (ds @ [?d]))\<lparr>qp_in_candidate := True\<rparr>"
  have len: "length ?d = 32" using ok unfolding candidate_ok_def plan_in_grammar_def by blast
  have bytes: "emit_lines ?pls = CanonicalBytes dc plan"
    by (simp add: CanonicalBytes_def PlanToText_def emit_lines_def plan_lines_tokens)
  have "lines_read outside (reading_result res ds) [[''candidate'', EncodeToken (ToHexImpl ?d)], [''candidate-plan-begin'']] ?in"
    by (rule lines_read.more [where ?st1.0 = "reading_result res (ds @ [?d])"])
      (use len in \<open>auto intro!: lines_read_one simp: line_reads_def readable_def line_fits_def join_tokens.simps
         kMaxTextLineBytes_def kMaxTokenBytes_def is_blank_def outside_def reading_result_def parse_result_line_def
         parse_result_record_def parse_result_digest_def\<close>)
  from parse_outside [OF this] have "parse_result_lines dc n (map join_tokens (candidate_tokens dc plan) @ ls) (reading_result res ds) =
      parse_result_lines dc (n + 2) (?pls @ ''candidate-plan-end'' # ls) ?in"
    by (simp add: candidate_tokens_def join_tokens.simps(2))
  also have "\<dots> = parse_result_lines dc (n + 2 + length ?pls) (''candidate-plan-end'' # ls) (?in\<lparr>qp_candidate_buffer := CanonicalBytes dc plan\<rparr>)"
    using buffer_lines [where pls = ?pls and buf = "[]" and st = ?in] plan_lines_inside [OF ok] ok bytes
    by (simp add: candidate_ok_def plan_within_bounds_def reading_result_def)
  also have "\<dots> = parse_result_lines dc (Suc (n + 2 + length ?pls)) ls
      (reading_result (res\<lparr>res_candidates := res_candidates res @ [plan]\<rparr>) (ds @ [?d]))"
    using ParsePlanArtifact_CanonicalBytes [of dc plan] ok
    by (simp add: candidate_ok_def parse_candidate_line_def in_result_def reading_result_def strip_cr_def)
  finally show ?thesis by (simp add: candidate_tokens_def)
qed

lemma reads_candidates:
  assumes "list_all (candidate_ok dc) ps"
  shows "parse_result_lines dc n (map join_tokens (concat (map (candidate_tokens dc) ps)) @ ls) (reading_result res ds) =
    parse_result_lines dc (n + length (concat (map (candidate_tokens dc) ps))) ls
      (reading_result (res\<lparr>res_candidates := res_candidates res @ ps\<rparr>) (ds @ map pl_digest ps))"
  using assms
proof (induction ps arbitrary: n res ds)
  case (Cons p ps)
  have "parse_result_lines dc n (map join_tokens (concat (map (candidate_tokens dc) (p # ps))) @ ls) (reading_result res ds) =
      parse_result_lines dc (n + length (candidate_tokens dc p)) (map join_tokens (concat (map (candidate_tokens dc) ps)) @ ls)
        (reading_result (res\<lparr>res_candidates := res_candidates res @ [p]\<rparr>) (ds @ [pl_digest p]))"
    using reads_candidate [of dc p] Cons.prems by simp
  also have "\<dots> = parse_result_lines dc (n + length (candidate_tokens dc p) + length (concat (map (candidate_tokens dc) ps))) ls
      (reading_result (res\<lparr>res_candidates := (res_candidates res @ [p]) @ ps\<rparr>) ((ds @ [pl_digest p]) @ map pl_digest ps))"
    using Cons.IH [of "n + length (candidate_tokens dc p)" "res\<lparr>res_candidates := res_candidates res @ [p]\<rparr>" "ds @ [pl_digest p]"]
      Cons.prems by simp
  finally show ?case by (simp add: add.assoc)
qed simp

section \<open>The round trip\<close>

lemma seal_readable: "length (res_result_digest res) = 32 \<Longrightarrow> readable (seal_tokens res)"
  by (simp add: readable_def seal_tokens_def line_fits_def join_tokens.simps kMaxTextLineBytes_def kMaxTokenBytes_def is_blank_def)

lemma reads_own:
  assumes ok: "result_in_grammar dc res"
  shows "lines_read outside start_result (own_tokens res)
    (reading_result (res\<lparr>res_candidates := [], res_result_digest := zero_digest\<rparr>) [])"
proof -
  let ?head = "empty_result\<lparr>res_outcome := res_outcome res, res_status := res_status res,
       res_request_digest := res_request_digest res, res_snapshot_digest := res_snapshot_digest res,
       res_limitations := res_limitations res, res_optimality_proven := res_optimality_proven res,
       res_statistics := res_statistics res\<rparr>"
  have fits: "list_all line_fits (map witness_tokens (res_witnesses res))" "list_all line_fits (map cut_tokens (res_cuts res))"
    "list_all (\<lambda>w. rk_text (w_resource w) \<noteq> []) (res_witnesses res)" "list_all (\<lambda>c. cut_count c < 2 ^ 64) (res_cuts res)"
    using ok by (simp_all add: result_in_grammar_def own_tokens_def)
  have "lines_read outside start_result (own_tokens res)
      (reading_result (?head\<lparr>res_witnesses := res_witnesses res, res_cuts := res_cuts res\<rparr>) [])"
    unfolding own_tokens_def
    using lines_read_append [OF reads_result_head [OF ok] lines_read_append [OF
        reads_witnesses [OF fits(3,1)] reads_cuts [OF fits(4,2)]]]
    by (simp add: fold_witnesses fold_cuts empty_result_def)
  then show ?thesis by (cases res) (simp add: empty_result_def)
qed

lemma result_lines_plain:
  assumes "result_in_grammar dc res" "ts \<in> set (result_tokens dc res)"
  shows "list_all plain_token ts"
proof -
  have seal: "list_all plain_token (seal_tokens res)"
    using seal_readable assms(1) by (simp add: result_in_grammar_def readable_def)
  have own: "list_all plain_token u" if "u \<in> set (own_tokens res)" for u
    using lines_read_readable [OF reads_own [OF assms(1)] that] .
  have "list_all plain_token u" if "p \<in> set (res_candidates res)" "u \<in> set (candidate_tokens dc p)" for p u
  proof -
    have ok: "candidate_ok dc p" using assms(1) that(1) by (simp add: result_in_grammar_def list_all_iff)
    then have "\<forall>v \<in> set (plan_tokens dc p). list_all plain_token v"
      using lines_read_readable [OF reads_bounded_plan] unfolding candidate_ok_def by blast
    then show ?thesis using that(2) by (auto simp: candidate_tokens_def is_blank_def simp del: EncodeToken_hex)
  qed
  with own seal assms(2) show ?thesis by (auto simp: result_tokens_def)
qed

lemma ParseResultText_CanonicalBytes:
  assumes ok: "result_in_grammar dc res" and seal: "SealResult (result_text_digest dc) res = res"
  shows "ParseResultText dc (Result_CanonicalBytes dc res) = Inr res"
proof -
  let ?body = "res\<lparr>res_result_digest := zero_digest\<rparr>" and ?ds = "map pl_digest (res_candidates res)"
  let ?final = "(reading_result res ?ds)\<lparr>qp_digest_seen := True\<rparr>"
  have len: "length (res_result_digest res) = 32" using ok by (simp add: result_in_grammar_def)
  have "\<forall>l \<in> set (map join_tokens (result_tokens dc res)). CHR 0x0A \<notin> set l"
    using result_lines_plain [OF ok] join_tokens_chars by fastforce
  then have split: "split_lines (Result_CanonicalBytes dc res) = map join_tokens (result_tokens dc res)"
    unfolding Result_text_tokens emit_lines_def by (rule split_lines_terminated)
  have "line_reads outside (reading_result ?body ?ds) (seal_tokens res) ?final"
    using seal_readable [OF len] len
    by (simp add: line_reads_def outside_def parse_result_line_def parse_result_record_def parse_result_digest_def
        seal_tokens_def reading_result_def)
  from parse_outside [OF lines_read_one [OF this], where ls = "[]"]
  have last: "parse_result_lines dc n [join_tokens (seal_tokens res)] (reading_result ?body ?ds) = Inr ?final" for n
    by simp
  have "list_all (candidate_ok dc) (res_candidates res)" using ok by (simp add: result_in_grammar_def)
  from reads_candidates [OF this, where res = "res\<lparr>res_candidates := [], res_result_digest := zero_digest\<rparr>" and ds = "[]"]
  have "parse_result_lines dc n (map join_tokens (result_tokens dc res)) start_result = Inr ?final" for n
    using parse_outside [OF reads_own [OF ok]] last by (simp add: result_tokens_def)
  moreover have "res_result_digest (SealResult (result_text_digest dc) res) = res_result_digest res" using seal by simp
  ultimately show ?thesis
    unfolding ParseResultText_def split by (simp add: reading_result_def Let_def)
qed

lemma SealResult_again [simp]: "SealResult seal (SealResult seal res) = SealResult seal res"
  by (simp add: SealResult_def)

text \<open>
  C14: the text of a planning result is read back exactly: for every sealed result whose digests, names,
  numbers and witnesses are in the grammar and whose candidate plans are themselves in the grammar of plan
  texts, parsing \<open>CanonicalBytes\<close> succeeds and returns the result with all its candidate plans.
\<close>

theorem Result_text_round_trip:
  assumes "result_in_grammar dc res" "SealResult (result_text_digest dc) res = res"
  shows "ParseResultText dc (Result_CanonicalBytes dc res) = Inr res"
  using assms by (rule ParseResultText_CanonicalBytes)

end
