(* ===== verification/Request_Round_Trip.thy ===== *)
theory Request_Round_Trip
  imports Request_Text
begin

text \<open>
  The round trip of the request text: \<open>ParseRequestText (RequestToText request)\<close> is \<open>request\<close> for
  every request whose fields are in the grammar; requests with one digest text are therefore equal.
\<close>

section \<open>The token lists\<close>

definition request_head_tokens :: "PlanningRequest \<Rightarrow> string list list" where
  "request_head_tokens r =
     [[kRequestMagic, FormatU64 kRequestFormatVersion],
      [''id'', EncodeToken (rq_id r)],
      [''source'', EncodeToken (pk_node (rq_source r)), EncodeToken (pk_port (rq_source r))],
      [''destination'', EncodeToken (pk_node (rq_destination r)), EncodeToken (pk_port (rq_destination r))],
      [''width'', FormatU64 (rq_channel_width_slots r)],
      [''candidates'', FormatU64 (rq_max_candidates r)],
      [''regenerations'', FormatU64 (rq_max_regenerations r)],
      [''hops'', FormatU64 (rq_max_hops r)]]"

definition request_bound_tokens :: "PlanningRequest \<Rightarrow> string list list" where
  "request_bound_tokens r =
     optional_line (\<lambda>c. [''cost'', FormatU64 (unat c)]) (rq_max_total_cost r) @
     [[''disjointness'', EncodeToken (DisjointnessName (rq_disjointness r))],
      [''accept-restored-evidence'', EncodeToken (bool_word (rq_accept_restored_evidence r))],
      [''search-expansions'', FormatU64 (rq_max_search_expansions r)],
      [''search-labels'', FormatU64 (rq_max_search_labels r)]] @
     map (\<lambda>x. [''srcgen'', EncodeToken (fst x), FormatU64 (unat (snd x))]) (rq_required_source_generations r) @
     optional_line (\<lambda>g. [''snapshot-generation'', FormatU64 (unat g)]) (rq_required_snapshot_generation r) @
     optional_line (\<lambda>d. [''snapshot-digest'', EncodeToken (ToHexImpl d)]) (rq_expected_snapshot_digest r)"

definition exclusion_tokens :: "ConstraintSet \<Rightarrow> string list list" where
  "exclusion_tokens c =
     map (\<lambda>d. [''exclude-node'', EncodeToken d]) (excluded_nodes c) @
     map (\<lambda>k. [''exclude-port'', EncodeToken (pk_node k), EncodeToken (pk_port k)]) (excluded_ports c) @
     map (\<lambda>d. [''exclude-span'', EncodeToken d]) (excluded_spans c) @
     map (\<lambda>d. [''exclude-crossconnect'', EncodeToken d]) (excluded_cross_connects c) @
     map (\<lambda>d. [''exclude-domain'', EncodeToken d]) (excluded_failure_domains c) @
     map (\<lambda>x. [''domain-limit'', EncodeToken (fst x), FormatU64 (snd x)]) (max_members_per_failure_domain c)"

definition ceiling_tokens :: "double_chars \<Rightarrow> ConstraintSet \<Rightarrow> string list list" where
  "ceiling_tokens dc c =
     optional_line (\<lambda>v. [''max-distance'', FormatU64 (unat v)]) (max_total_distance_m c) @
     optional_line (\<lambda>v. [''max-spans'', FormatU64 v]) (max_total_span_count c) @
     optional_line (\<lambda>v. [''max-loss'', double_text dc v]) (max_total_loss_db c) @
     optional_line (\<lambda>v. [''min-osnr'', double_text dc v]) (min_segment_osnr_db c)"

definition flag_tokens :: "ConstraintSet \<Rightarrow> string list list" where
  "flag_tokens c =
     [[''allow-regeneration'', EncodeToken (bool_word (allow_regeneration c))],
      [''allow-conversion'', EncodeToken (bool_word (allow_wavelength_conversion c))],
      [''require-spectrum-continuity-across-regeneration'',
       EncodeToken (bool_word (require_spectrum_continuity_across_regeneration c))],
      [''allow-repeated-resources'', EncodeToken (bool_word (allow_repeated_resources c))]]"

definition request_tokens :: "double_chars \<Rightarrow> PlanningRequest \<Rightarrow> string list list" where
  "request_tokens dc r =
     request_head_tokens r @ request_bound_tokens r @ exclusion_tokens (rq_constraints r) @
     ceiling_tokens dc (rq_constraints r) @ flag_tokens (rq_constraints r)"

lemma map_optional_line [simp]: "map f (optional_line g v) = optional_line (\<lambda>x. f (g x)) v"
  by (simp add: optional_line_def split: option.splits)

lemma RequestToText_tokens: "RequestToText dc r = emit_lines (map join_tokens (request_tokens dc r))"
proof -
  have head: "kRequestMagic @ '' '' @ t = join_tokens [kRequestMagic, t]" for t by (simp add: join_tokens.simps)
  show ?thesis
    unfolding RequestToText_def head_lines_def head
    by (simp add: request_tokens_def request_head_tokens_def request_bound_tokens_def exclusion_tokens_def
        ceiling_tokens_def flag_tokens_def bound_lines_def constraint_lines_def line_ops Line_AddDouble_def case_prod_unfold
        comp_def)
qed

section \<open>Reading one line\<close>

abbreviation in_request :: "PlanningRequest \<Rightarrow> RequestParse" where
  "in_request r \<equiv> \<lparr>rp_request = r, rp_header_seen = True, rp_have_id = True, rp_have_source = True,
     rp_have_destination = True\<rparr>"

abbreviation request_reads :: "double_chars \<Rightarrow> RequestParse \<Rightarrow> string list list \<Rightarrow> RequestParse \<Rightarrow> bool" where
  "request_reads dc \<equiv> lines_read (parse_request_line dc)"

lemma reads_field:
  assumes "readable (kw # ts)" "kw \<notin> {''id'', ''source'', ''destination''}" "parse_request_field dc (kw # ts) r = Inr r'"
  shows "line_reads (parse_request_line dc) (in_request r) (kw # ts) (in_request r')"
  using assms by (simp add: line_reads_def parse_request_line_def parse_request_record_def)

lemma reads_field_one:
  assumes "readable (kw # ts)" "kw \<notin> {''id'', ''source'', ''destination''}" "parse_request_field dc (kw # ts) r = Inr r'"
  shows "request_reads dc (in_request r) [kw # ts] (in_request r')"
  using reads_field [OF assms] by (rule lines_read_one)

lemma reads_optional:
  assumes "put None p = p" "\<And>x. v = Some x \<Longrightarrow> line_reads f (wrap p) (tok x) (wrap (put (Some x) p))"
  shows "lines_read f (wrap p) (optional_line tok v) (wrap (put v p))"
  using assms by (cases v) (auto simp: optional_line_def intro: lines_read.none lines_read_one)

lemma ParseBoolToken_word [simp]: "ParseBoolToken (EncodeToken (bool_word b)) = Inr b"
proof -
  have "EncodeToken ''true'' = ''true''" "EncodeToken ''false'' = ''false''" by code_simp+
  then show ?thesis by (simp add: ParseBoolToken_def bool_word_def)
qed

lemma ParseDisjointness_token [simp]: "ParseDisjointness (EncodeToken (DisjointnessName d)) = Some d"
proof -
  have "EncodeToken (DisjointnessName d) = DisjointnessName d" by (cases d) (simp; code_simp)+
  then show ?thesis by (simp add: disjointness_names.parse_name)
qed

section \<open>Maps\<close>

lemma map_assign_last: "\<forall>x \<in> set xs. fst x < k \<Longrightarrow> map_assign k v xs = xs @ [(k, v)]"
  by (induction xs) auto

lemma fold_map_assign:
  "sorted_wrt (<) (map fst (ys @ xs)) \<Longrightarrow> fold (\<lambda>x m. map_assign (fst x) (snd x) m) xs ys = ys @ xs"
proof (induction xs arbitrary: ys)
  case (Cons x xs)
  then have "map_assign (fst x) (snd x) ys = ys @ [x]"
    by (subst map_assign_last) (auto simp: sorted_wrt_append)
  with Cons show ?case by simp
qed simp

section \<open>The grammar\<close>

definition id_pair :: "PortKey \<Rightarrow> bool" where
  "id_pair k \<longleftrightarrow> IsValidIdText (pk_node k) \<and> IsValidIdText (pk_port k)"

definition constraints_in_grammar :: "double_chars \<Rightarrow> ConstraintSet \<Rightarrow> bool" where
  "constraints_in_grammar dc c \<longleftrightarrow>
     list_all IsValidIdText (excluded_nodes c) \<and> list_all id_pair (excluded_ports c) \<and>
     list_all IsValidIdText (excluded_spans c) \<and> list_all IsValidIdText (excluded_cross_connects c) \<and>
     list_all IsValidIdText (excluded_failure_domains c) \<and>
     list_all (\<lambda>x. IsValidIdText (fst x) \<and> snd x < 2 ^ 32) (max_members_per_failure_domain c) \<and>
     sorted_wrt (<) (map fst (max_members_per_failure_domain c)) \<and>
     pred_option (\<lambda>v. v < 2 ^ 32) (max_total_span_count c) \<and>
     pred_option (exact_double dc) (max_total_loss_db c) \<and> pred_option (exact_double dc) (min_segment_osnr_db c)"

definition request_in_grammar :: "double_chars \<Rightarrow> PlanningRequest \<Rightarrow> bool" where
  "request_in_grammar dc r \<longleftrightarrow>
     rq_format_version r = kRequestFormatVersion \<and> IsValidIdText (rq_id r) \<and> id_pair (rq_source r) \<and>
     id_pair (rq_destination r) \<and> rq_channel_width_slots r < 2 ^ 16 \<and> rq_max_candidates r < 2 ^ 32 \<and>
     rq_max_regenerations r < 2 ^ 32 \<and> rq_max_hops r < 2 ^ 32 \<and> rq_max_search_expansions r < 2 ^ 64 \<and>
     rq_max_search_labels r < 2 ^ 64 \<and> list_all (\<lambda>x. IsValidIdText (fst x)) (rq_required_source_generations r) \<and>
     sorted_wrt (<) (map fst (rq_required_source_generations r)) \<and>
     pred_option (\<lambda>d. length d = 32) (rq_expected_snapshot_digest r) \<and> constraints_in_grammar dc (rq_constraints r) \<and>
     list_all line_fits (request_tokens dc r)"

lemmas field_defs = ParseId_valid parse_request_field_def parse_number_def Field_def parse_two_ids_def number_keywords_def
  exclude_keywords_def flag_keywords_def exclude_id_def set_flag_def is_blank_def

lemma reads_request_head:
  assumes "request_in_grammar dc r"
  shows "request_reads dc start_request (request_head_tokens r)
    (in_request (empty_request\<lparr>rq_id := rq_id r, rq_source := rq_source r, rq_destination := rq_destination r,
       rq_channel_width_slots := rq_channel_width_slots r, rq_max_candidates := rq_max_candidates r,
       rq_max_regenerations := rq_max_regenerations r, rq_max_hops := rq_max_hops r\<rparr>))"
proof -
  have fits: "list_all line_fits (request_head_tokens r)"
    using assms by (simp add: request_in_grammar_def request_tokens_def)
  note defs = line_reads_def parse_request_line_def parse_request_record_def parse_request_header_def field_defs
    request_in_grammar_def id_pair_def kRequestMagic_def kRequestFormatVersion_def readable_def start_request_def
    request_head_tokens_def
  let ?f = "parse_request_line dc" and ?t = "\<lambda>i. request_head_tokens r ! i"
  let ?r1 = "empty_request\<lparr>rq_id := rq_id r\<rparr>" and ?st1 = "start_request\<lparr>rp_header_seen := True\<rparr>"
  let ?r2 = "?r1\<lparr>rq_source := rq_source r\<rparr>" and ?st2 = "?st1\<lparr>rp_request := ?r1, rp_have_id := True\<rparr>"
  let ?r3 = "?r2\<lparr>rq_destination := rq_destination r\<rparr>"
  let ?r4 = "?r3\<lparr>rq_channel_width_slots := rq_channel_width_slots r\<rparr>"
  let ?r5 = "?r4\<lparr>rq_max_candidates := rq_max_candidates r\<rparr>"
  let ?r6 = "?r5\<lparr>rq_max_regenerations := rq_max_regenerations r\<rparr>"
  let ?r7 = "?r6\<lparr>rq_max_hops := rq_max_hops r\<rparr>"
  have "line_reads ?f start_request (?t 0) ?st1" "line_reads ?f ?st1 (?t 1) ?st2"
    using fits assms by (simp_all add: defs)
  moreover have "line_reads ?f ?st2 (?t 2) (?st2\<lparr>rp_request := ?r2, rp_have_source := True\<rparr>)"
    using fits assms by (simp add: defs)
  moreover have "line_reads ?f (?st2\<lparr>rp_request := ?r2, rp_have_source := True\<rparr>) (?t 3) (in_request ?r3)"
    using fits assms by (simp add: defs)
  moreover have "line_reads ?f (in_request ?r3) (?t 4) (in_request ?r4)" "line_reads ?f (in_request ?r4) (?t 5) (in_request ?r5)"
    "line_reads ?f (in_request ?r5) (?t 6) (in_request ?r6)" "line_reads ?f (in_request ?r6) (?t 7) (in_request ?r7)"
    using fits assms by (simp_all add: defs)
  ultimately have "request_reads dc start_request [?t 0, ?t 1, ?t 2, ?t 3, ?t 4, ?t 5, ?t 6, ?t 7] (in_request ?r7)"
    by (blast intro: lines_read.intros)
  then show ?thesis by (simp add: request_head_tokens_def)
qed

lemmas grammar_defs = field_defs readable_def request_in_grammar_def id_pair_def constraints_in_grammar_def

lemma line_fits_parts:
  assumes "request_in_grammar dc r"
  shows "list_all line_fits (request_bound_tokens r)" "list_all line_fits (exclusion_tokens (rq_constraints r))"
    "list_all line_fits (ceiling_tokens dc (rq_constraints r))" "list_all line_fits (flag_tokens (rq_constraints r))"
  using assms by (simp_all add: request_in_grammar_def request_tokens_def)

lemma optional_fits: "list_all P (optional_line f v) \<longleftrightarrow> pred_option (\<lambda>x. P (f x)) v"
  by (simp add: optional_line_def split: option.splits)

lemma fold_sources:
  "fold (\<lambda>x r. r\<lparr>rq_required_source_generations := map_assign (fst x) (snd x) (rq_required_source_generations r)\<rparr>) xs r =
   r\<lparr>rq_required_source_generations := fold (\<lambda>x m. map_assign (fst x) (snd x) m) xs (rq_required_source_generations r)\<rparr>"
  by (induction xs arbitrary: r) simp_all

lemma reads_bounds:
  assumes "request_in_grammar dc r"
    and "rq_max_total_cost p = None" "rq_required_source_generations p = []" "rq_required_snapshot_generation p = None"
      "rq_expected_snapshot_digest p = None"
  shows "request_reads dc (in_request p) (request_bound_tokens r)
    (in_request (p\<lparr>rq_max_total_cost := rq_max_total_cost r, rq_disjointness := rq_disjointness r,
       rq_accept_restored_evidence := rq_accept_restored_evidence r, rq_max_search_expansions := rq_max_search_expansions r,
       rq_max_search_labels := rq_max_search_labels r, rq_required_source_generations := rq_required_source_generations r,
       rq_required_snapshot_generation := rq_required_snapshot_generation r,
       rq_expected_snapshot_digest := rq_expected_snapshot_digest r\<rparr>))"
proof -
  let ?p1 = "p\<lparr>rq_max_total_cost := rq_max_total_cost r\<rparr>"
  let ?q1 = "?p1\<lparr>rq_disjointness := rq_disjointness r\<rparr>"
  let ?q2 = "?q1\<lparr>rq_accept_restored_evidence := rq_accept_restored_evidence r\<rparr>"
  let ?q3 = "?q2\<lparr>rq_max_search_expansions := rq_max_search_expansions r\<rparr>"
  let ?p5 = "?q3\<lparr>rq_max_search_labels := rq_max_search_labels r\<rparr>"
  let ?p6 = "?p5\<lparr>rq_required_source_generations := rq_required_source_generations r\<rparr>"
  let ?p7 = "?p6\<lparr>rq_required_snapshot_generation := rq_required_snapshot_generation r\<rparr>"
  let ?p8 = "?p7\<lparr>rq_expected_snapshot_digest := rq_expected_snapshot_digest r\<rparr>"
  note fits = line_fits_parts(1) [OF assms(1), unfolded request_bound_tokens_def, simplified optional_fits list_all_append]
  have one: "request_reads dc (in_request p) (optional_line (\<lambda>c. [''cost'', FormatU64 (unat c)]) (rq_max_total_cost r)) (in_request ?p1)"
    by (rule reads_optional [where put = "\<lambda>v p. p\<lparr>rq_max_total_cost := v\<rparr>"], use assms(2) in simp, rule reads_field)
      (use fits in \<open>auto simp: grammar_defs\<close>)
  let ?f = "parse_request_line dc"
  have "line_reads ?f (in_request ?p1) [''disjointness'', EncodeToken (DisjointnessName (rq_disjointness r))] (in_request ?q1)"
    "line_reads ?f (in_request ?q1) [''accept-restored-evidence'', EncodeToken (bool_word (rq_accept_restored_evidence r))] (in_request ?q2)"
    "line_reads ?f (in_request ?q2) [''search-expansions'', FormatU64 (rq_max_search_expansions r)] (in_request ?q3)"
    "line_reads ?f (in_request ?q3) [''search-labels'', FormatU64 (rq_max_search_labels r)] (in_request ?p5)"
    by (rule reads_field; use fits assms(1) in \<open>simp add: grammar_defs\<close>)+
  then have two: "request_reads dc (in_request ?p1)
      [[''disjointness'', EncodeToken (DisjointnessName (rq_disjointness r))],
       [''accept-restored-evidence'', EncodeToken (bool_word (rq_accept_restored_evidence r))],
       [''search-expansions'', FormatU64 (rq_max_search_expansions r)],
       [''search-labels'', FormatU64 (rq_max_search_labels r)]] (in_request ?p5)"
    by (blast intro: lines_read.intros)
  have "request_reads dc (in_request ?p5)
      (map (\<lambda>x. [''srcgen'', EncodeToken (fst x), FormatU64 (unat (snd x))]) (rq_required_source_generations r))
      (in_request (fold (\<lambda>x r. r\<lparr>rq_required_source_generations := map_assign (fst x) (snd x) (rq_required_source_generations r)\<rparr>)
         (rq_required_source_generations r) ?p5))"
    by (rule lines_read_map, rule reads_field) (use fits assms(1) in \<open>auto simp: grammar_defs list_all_iff\<close>)
  then have three: "request_reads dc (in_request ?p5)
      (map (\<lambda>x. [''srcgen'', EncodeToken (fst x), FormatU64 (unat (snd x))]) (rq_required_source_generations r)) (in_request ?p6)"
    using assms(1,3) by (simp add: fold_sources fold_map_assign request_in_grammar_def)
  have four: "request_reads dc (in_request ?p6)
      (optional_line (\<lambda>g. [''snapshot-generation'', FormatU64 (unat g)]) (rq_required_snapshot_generation r)) (in_request ?p7)"
    by (rule reads_optional [where put = "\<lambda>v p. p\<lparr>rq_required_snapshot_generation := v\<rparr>"], use assms(4) in simp, rule reads_field)
      (use fits in \<open>auto simp: grammar_defs\<close>)
  have five: "request_reads dc (in_request ?p7)
      (optional_line (\<lambda>d. [''snapshot-digest'', EncodeToken (ToHexImpl d)]) (rq_expected_snapshot_digest r)) (in_request ?p8)"
    by (rule reads_optional [where put = "\<lambda>v p. p\<lparr>rq_expected_snapshot_digest := v\<rparr>"], use assms(5) in simp, rule reads_field)
      (use fits assms(1) in \<open>auto simp: grammar_defs\<close>)
  show ?thesis
    using lines_read_append [OF one lines_read_append [OF two lines_read_append [OF three lines_read_append [OF four five]]]]
    by (simp add: request_bound_tokens_def)
qed

abbreviation in_constraints :: "PlanningRequest \<Rightarrow> ConstraintSet \<Rightarrow> RequestParse" where
  "in_constraints p c \<equiv> in_request (p\<lparr>rq_constraints := c\<rparr>)"

lemma fold_exclusions:
  "fold (\<lambda>x c. c\<lparr>excluded_nodes := excluded_nodes c @ [x]\<rparr>) xs c = c\<lparr>excluded_nodes := excluded_nodes c @ xs\<rparr>"
  "fold (\<lambda>x c. c\<lparr>excluded_ports := excluded_ports c @ [x]\<rparr>) ks c = c\<lparr>excluded_ports := excluded_ports c @ ks\<rparr>"
  "fold (\<lambda>x c. c\<lparr>excluded_spans := excluded_spans c @ [x]\<rparr>) xs c = c\<lparr>excluded_spans := excluded_spans c @ xs\<rparr>"
  "fold (\<lambda>x c. c\<lparr>excluded_cross_connects := excluded_cross_connects c @ [x]\<rparr>) xs c =
     c\<lparr>excluded_cross_connects := excluded_cross_connects c @ xs\<rparr>"
  "fold (\<lambda>x c. c\<lparr>excluded_failure_domains := excluded_failure_domains c @ [x]\<rparr>) xs c =
     c\<lparr>excluded_failure_domains := excluded_failure_domains c @ xs\<rparr>"
  "fold (\<lambda>x c. c\<lparr>max_members_per_failure_domain := map_assign (fst x) (snd x) (max_members_per_failure_domain c)\<rparr>) ms c =
     c\<lparr>max_members_per_failure_domain := fold (\<lambda>x m. map_assign (fst x) (snd x) m) ms (max_members_per_failure_domain c)\<rparr>"
  by (induction xs arbitrary: c, simp_all) (induction ks arbitrary: c, simp_all, induction ms arbitrary: c, simp_all)

lemma reads_list:
  assumes "\<And>x c. x \<in> set xs \<Longrightarrow> line_reads f (wrap c) (tok x) (wrap (upd x c))" "fold upd xs c = c'"
  shows "lines_read f (wrap c) (map tok xs) (wrap c')"
  using lines_read_map [of xs f wrap tok upd c] assms by simp

lemma reads_exclusions:
  assumes "request_in_grammar dc r" "rq_constraints r = k"
    and "excluded_nodes c = []" "excluded_ports c = []" "excluded_spans c = []" "excluded_cross_connects c = []"
      "excluded_failure_domains c = []" "max_members_per_failure_domain c = []"
  shows "request_reads dc (in_constraints p c) (exclusion_tokens k)
    (in_constraints p (c\<lparr>excluded_nodes := excluded_nodes k, excluded_ports := excluded_ports k,
       excluded_spans := excluded_spans k, excluded_cross_connects := excluded_cross_connects k,
       excluded_failure_domains := excluded_failure_domains k,
       max_members_per_failure_domain := max_members_per_failure_domain k\<rparr>))"
proof -
  let ?wrap = "in_constraints p"
  let ?c1 = "c\<lparr>excluded_nodes := excluded_nodes k\<rparr>"
  let ?c2 = "?c1\<lparr>excluded_ports := excluded_ports k\<rparr>"
  let ?c3 = "?c2\<lparr>excluded_spans := excluded_spans k\<rparr>"
  let ?c4 = "?c3\<lparr>excluded_cross_connects := excluded_cross_connects k\<rparr>"
  let ?c5 = "?c4\<lparr>excluded_failure_domains := excluded_failure_domains k\<rparr>"
  let ?c6 = "?c5\<lparr>max_members_per_failure_domain := max_members_per_failure_domain k\<rparr>"
  note fits = line_fits_parts(2) [OF assms(1), unfolded exclusion_tokens_def assms(2), simplified list_all_append list.pred_map]
  note ok = assms(1) [unfolded request_in_grammar_def constraints_in_grammar_def assms(2)]
  have one: "request_reads dc (?wrap c) (map (\<lambda>d. [''exclude-node'', EncodeToken d]) (excluded_nodes k)) (?wrap ?c1)"
    by (rule reads_list [where wrap = ?wrap and upd = "\<lambda>x c. c\<lparr>excluded_nodes := excluded_nodes c @ [x]\<rparr>"], rule reads_field)
      (use fits ok assms in \<open>auto simp: field_defs readable_def constrain_def id_pair_def list_all_iff fold_exclusions\<close>)
  have two: "request_reads dc (?wrap ?c1) (map (\<lambda>k. [''exclude-port'', EncodeToken (pk_node k), EncodeToken (pk_port k)]) (excluded_ports k)) (?wrap ?c2)"
    by (rule reads_list [where wrap = ?wrap and upd = "\<lambda>x c. c\<lparr>excluded_ports := excluded_ports c @ [x]\<rparr>"], rule reads_field)
      (use fits ok assms in \<open>auto simp: field_defs readable_def constrain_def id_pair_def list_all_iff fold_exclusions\<close>)
  have three: "request_reads dc (?wrap ?c2) (map (\<lambda>d. [''exclude-span'', EncodeToken d]) (excluded_spans k)) (?wrap ?c3)"
    by (rule reads_list [where wrap = ?wrap and upd = "\<lambda>x c. c\<lparr>excluded_spans := excluded_spans c @ [x]\<rparr>"], rule reads_field)
      (use fits ok assms in \<open>auto simp: field_defs readable_def constrain_def id_pair_def list_all_iff fold_exclusions\<close>)
  have four: "request_reads dc (?wrap ?c3) (map (\<lambda>d. [''exclude-crossconnect'', EncodeToken d]) (excluded_cross_connects k)) (?wrap ?c4)"
    by (rule reads_list [where wrap = ?wrap and upd = "\<lambda>x c. c\<lparr>excluded_cross_connects := excluded_cross_connects c @ [x]\<rparr>"], rule reads_field)
      (use fits ok assms in \<open>auto simp: field_defs readable_def constrain_def id_pair_def list_all_iff fold_exclusions\<close>)
  have five: "request_reads dc (?wrap ?c4) (map (\<lambda>d. [''exclude-domain'', EncodeToken d]) (excluded_failure_domains k)) (?wrap ?c5)"
    by (rule reads_list [where wrap = ?wrap and upd = "\<lambda>x c. c\<lparr>excluded_failure_domains := excluded_failure_domains c @ [x]\<rparr>"], rule reads_field)
      (use fits ok assms in \<open>auto simp: field_defs readable_def constrain_def id_pair_def list_all_iff fold_exclusions\<close>)
  have six: "request_reads dc (?wrap ?c5) (map (\<lambda>x. [''domain-limit'', EncodeToken (fst x), FormatU64 (snd x)]) (max_members_per_failure_domain k)) (?wrap ?c6)"
    by (rule reads_list [where wrap = ?wrap and upd = "\<lambda>x c. c\<lparr>max_members_per_failure_domain := map_assign (fst x) (snd x) (max_members_per_failure_domain c)\<rparr>"], rule reads_field)
      (use fits ok assms in \<open>auto simp: field_defs readable_def constrain_def id_pair_def list_all_iff fold_exclusions fold_map_assign\<close>)
  show ?thesis
    using lines_read_append [OF one lines_read_append [OF two lines_read_append [OF three
          lines_read_append [OF four lines_read_append [OF five six]]]]]
    by (simp add: exclusion_tokens_def)
qed

lemma reads_ceilings:
  assumes "request_in_grammar dc r" "rq_constraints r = k"
    and "max_total_distance_m c = None" "max_total_span_count c = None" "max_total_loss_db c = None"
      "min_segment_osnr_db c = None"
  shows "request_reads dc (in_constraints p c) (ceiling_tokens dc k)
    (in_constraints p (c\<lparr>max_total_distance_m := max_total_distance_m k, max_total_span_count := max_total_span_count k,
       max_total_loss_db := max_total_loss_db k, min_segment_osnr_db := min_segment_osnr_db k\<rparr>))"
proof -
  let ?wrap = "in_constraints p"
  let ?c1 = "c\<lparr>max_total_distance_m := max_total_distance_m k\<rparr>"
  let ?c2 = "?c1\<lparr>max_total_span_count := max_total_span_count k\<rparr>"
  let ?c3 = "?c2\<lparr>max_total_loss_db := max_total_loss_db k\<rparr>"
  let ?c4 = "?c3\<lparr>min_segment_osnr_db := min_segment_osnr_db k\<rparr>"
  note fits = line_fits_parts(3) [OF assms(1), unfolded ceiling_tokens_def assms(2), simplified list_all_append optional_fits]
  note ok = assms(1) [unfolded request_in_grammar_def constraints_in_grammar_def assms(2)]
  have one: "request_reads dc (?wrap c) (optional_line (\<lambda>v. [''max-distance'', FormatU64 (unat v)]) (max_total_distance_m k)) (?wrap ?c1)"
    by (rule reads_optional [where wrap = ?wrap and put = "\<lambda>v c. c\<lparr>max_total_distance_m := v\<rparr>"], use assms in simp, rule reads_field)
      (use fits ok in \<open>auto simp: field_defs readable_def constrain_def\<close>)
  have two: "request_reads dc (?wrap ?c1) (optional_line (\<lambda>v. [''max-spans'', FormatU64 v]) (max_total_span_count k)) (?wrap ?c2)"
    by (rule reads_optional [where wrap = ?wrap and put = "\<lambda>v c. c\<lparr>max_total_span_count := v\<rparr>"], use assms in simp, rule reads_field)
      (use fits ok in \<open>auto simp: field_defs readable_def constrain_def\<close>)
  have three: "request_reads dc (?wrap ?c2) (optional_line (\<lambda>v. [''max-loss'', double_text dc v]) (max_total_loss_db k)) (?wrap ?c3)"
    by (rule reads_optional [where wrap = ?wrap and put = "\<lambda>v c. c\<lparr>max_total_loss_db := v\<rparr>"], use assms in simp, rule reads_field)
      (use fits ok in \<open>auto simp: field_defs readable_def constrain_def\<close>)
  have four: "request_reads dc (?wrap ?c3) (optional_line (\<lambda>v. [''min-osnr'', double_text dc v]) (min_segment_osnr_db k)) (?wrap ?c4)"
    by (rule reads_optional [where wrap = ?wrap and put = "\<lambda>v c. c\<lparr>min_segment_osnr_db := v\<rparr>"], use assms in simp, rule reads_field)
      (use fits ok in \<open>auto simp: field_defs readable_def constrain_def\<close>)
  show ?thesis
    using lines_read_append [OF one lines_read_append [OF two lines_read_append [OF three four]]]
    by (simp add: ceiling_tokens_def)
qed

lemma reads_flags:
  assumes "list_all line_fits (flag_tokens k)"
  shows "request_reads dc (in_constraints p c) (flag_tokens k)
    (in_constraints p (c\<lparr>allow_regeneration := allow_regeneration k, allow_wavelength_conversion := allow_wavelength_conversion k,
       require_spectrum_continuity_across_regeneration := require_spectrum_continuity_across_regeneration k,
       allow_repeated_resources := allow_repeated_resources k\<rparr>))"
proof -
  let ?f = "parse_request_line dc" and ?wrap = "in_constraints p"
  let ?c1 = "c\<lparr>allow_regeneration := allow_regeneration k\<rparr>"
  let ?c2 = "?c1\<lparr>allow_wavelength_conversion := allow_wavelength_conversion k\<rparr>"
  let ?c3 = "?c2\<lparr>require_spectrum_continuity_across_regeneration := require_spectrum_continuity_across_regeneration k\<rparr>"
  let ?c4 = "?c3\<lparr>allow_repeated_resources := allow_repeated_resources k\<rparr>"
  have "line_reads ?f (?wrap c) [''allow-regeneration'', EncodeToken (bool_word (allow_regeneration k))] (?wrap ?c1)"
    "line_reads ?f (?wrap ?c1) [''allow-conversion'', EncodeToken (bool_word (allow_wavelength_conversion k))] (?wrap ?c2)"
    "line_reads ?f (?wrap ?c2) [''require-spectrum-continuity-across-regeneration'',
       EncodeToken (bool_word (require_spectrum_continuity_across_regeneration k))] (?wrap ?c3)"
    "line_reads ?f (?wrap ?c3) [''allow-repeated-resources'', EncodeToken (bool_word (allow_repeated_resources k))] (?wrap ?c4)"
    by (rule reads_field; use assms in \<open>simp add: field_defs readable_def constrain_def flag_tokens_def\<close>)+
  then show ?thesis unfolding flag_tokens_def by (blast intro: lines_read.intros)
qed

section \<open>The round trip\<close>

lemma reads_request:
  assumes "request_in_grammar dc r"
  shows "request_reads dc start_request (request_tokens dc r) (in_request r)"
proof -
  let ?k = "rq_constraints r"
  let ?p = "empty_request\<lparr>rq_id := rq_id r, rq_source := rq_source r, rq_destination := rq_destination r,
       rq_channel_width_slots := rq_channel_width_slots r, rq_max_candidates := rq_max_candidates r,
       rq_max_regenerations := rq_max_regenerations r, rq_max_hops := rq_max_hops r\<rparr>"
  let ?q = "r\<lparr>rq_constraints := empty_constraints\<rparr>"
  let ?c1 = "empty_constraints\<lparr>excluded_nodes := excluded_nodes ?k, excluded_ports := excluded_ports ?k,
       excluded_spans := excluded_spans ?k, excluded_cross_connects := excluded_cross_connects ?k,
       excluded_failure_domains := excluded_failure_domains ?k,
       max_members_per_failure_domain := max_members_per_failure_domain ?k\<rparr>"
  let ?c2 = "?c1\<lparr>max_total_distance_m := max_total_distance_m ?k, max_total_span_count := max_total_span_count ?k,
       max_total_loss_db := max_total_loss_db ?k, min_segment_osnr_db := min_segment_osnr_db ?k\<rparr>"
  have "request_reads dc (in_request ?p) (request_bound_tokens r) (in_request ?q)"
  proof -
    let ?b = "?p\<lparr>rq_max_total_cost := rq_max_total_cost r, rq_disjointness := rq_disjointness r,
       rq_accept_restored_evidence := rq_accept_restored_evidence r, rq_max_search_expansions := rq_max_search_expansions r,
       rq_max_search_labels := rq_max_search_labels r, rq_required_source_generations := rq_required_source_generations r,
       rq_required_snapshot_generation := rq_required_snapshot_generation r,
       rq_expected_snapshot_digest := rq_expected_snapshot_digest r\<rparr>"
    have "?b = ?q"
      by (rule PlanningRequest.equality) (use assms in \<open>simp_all add: empty_request_def request_in_grammar_def\<close>)
    moreover have "request_reads dc (in_request ?p) (request_bound_tokens r) (in_request ?b)"
      by (rule reads_bounds [OF assms]) (simp_all add: empty_request_def)
    ultimately show ?thesis by (simp only:)
  qed
  moreover have "request_reads dc (in_request ?q) (exclusion_tokens ?k) (in_constraints ?q ?c1)"
    using reads_exclusions [OF assms refl, where c = empty_constraints and p = ?q] by (simp add: empty_constraints_def)
  moreover have "request_reads dc (in_constraints ?q ?c1) (ceiling_tokens dc ?k) (in_constraints ?q ?c2)"
    using reads_ceilings [OF assms refl, where c = ?c1 and p = ?q] by (simp add: empty_constraints_def)
  moreover have "request_reads dc (in_constraints ?q ?c2) (flag_tokens ?k) (in_request r)"
  proof -
    let ?c3 = "?c2\<lparr>allow_regeneration := allow_regeneration ?k, allow_wavelength_conversion := allow_wavelength_conversion ?k,
       require_spectrum_continuity_across_regeneration := require_spectrum_continuity_across_regeneration ?k,
       allow_repeated_resources := allow_repeated_resources ?k\<rparr>"
    have "?c3 = ?k" by (rule ConstraintSet.equality) simp_all
    then have "?q\<lparr>rq_constraints := ?c3\<rparr> = r" by simp
    with reads_flags [OF line_fits_parts(4) [OF assms], where dc = dc and p = ?q and c = ?c2] show ?thesis by (simp only:)
  qed
  ultimately show ?thesis
    using reads_request_head [OF assms] unfolding request_tokens_def by (blast intro: lines_read_append)
qed

lemma ParseRequestText_RequestToText:
  assumes "request_in_grammar dc r"
  shows "ParseRequestText dc (RequestToText dc r) = Inr r"
  using parse_emitted [OF reads_request [OF assms], of 1] by (simp add: ParseRequestText_def RequestToText_tokens)

text \<open>
  C15: the text of a planning request is read back exactly: for every request whose identifiers, numbers
  and limits are in the grammar, parsing \<open>RequestToText\<close> succeeds and returns the same request, so two
  such requests with the same text are the same request.
\<close>

theorem Request_text_round_trip:
  assumes "request_in_grammar dc r"
  shows "ParseRequestText dc (RequestToText dc r) = Inr r \<and>
    (\<forall>s. request_in_grammar dc s \<and> RequestToText dc s = RequestToText dc r \<longrightarrow> s = r)"
proof (intro conjI allI impI)
  fix s assume "request_in_grammar dc s \<and> RequestToText dc s = RequestToText dc r"
  then have "Inr s = ParseRequestText dc (RequestToText dc r)" using ParseRequestText_RequestToText [of dc s] by metis
  also have "\<dots> = Inr r" by (rule ParseRequestText_RequestToText [OF assms])
  finally show "s = r" by (rule Inr_inject)
qed (rule ParseRequestText_RequestToText [OF assms])

end
