(* ===== verification/Rebuild.thy ===== *)
theory Rebuild
  imports Topology_Props
begin

text \<open>
  \<open>Build\<close> is idempotent: a builder that is given the records of a sealed snapshot seals the same
  tables, adjacency and unresolved references.  What it cannot reproduce are the conflicts, because the
  records that disagreed are no longer there.
\<close>

section \<open>Deduplicating twice\<close>

lemma dedup_from_again: "dedup_from key res prev rs = (u, c) \<Longrightarrow> dedup_from key res prev u = (u, [])"
proof (induction rs arbitrary: prev u c)
  case (Cons r rs)
  then show ?case by (auto split: if_splits prod.splits)
qed simp

lemma dedup_again: "dedup key res rs = (u, c) \<Longrightarrow> dedup key res u = (u, [])"
  by (cases rs) (auto dest: dedup_from_again split: prod.splits)

lemma dedup_from_sorted_key:
  "sorted (map f (prev # rs)) \<Longrightarrow> dedup_from key res prev rs = (u, c) \<Longrightarrow> sorted (map f (prev # u))"
proof (induction rs arbitrary: prev u c)
  case (Cons r rs)
  show ?case
  proof (cases "key prev = key r")
    case True
    obtain u' c' where rec: "dedup_from key res prev rs = (u', c')" by fastforce
    with True Cons.prems have "u = u'" by simp
    with Cons.IH [OF _ rec] Cons.prems(1) show ?thesis by simp
  next
    case False
    obtain u' c' where rec: "dedup_from key res r rs = (u', c')" by fastforce
    with False Cons.prems have "u = r # u'" by simp
    moreover have "sorted (map f (r # u'))" using Cons.IH [OF _ rec] Cons.prems(1) by simp
    moreover have "set u' \<subseteq> set rs" using dedup_from_set [OF rec] by simp
    ultimately show ?thesis using Cons.prems(1) by auto
  qed
qed simp

lemma dedup_sorted_key: "sorted (map f rs) \<Longrightarrow> dedup key res rs = (u, c) \<Longrightarrow> sorted (map f u)"
proof (cases rs)
  case (Cons r rest)
  assume sorted: "sorted (map f rs)" and d: "dedup key res rs = (u, c)"
  obtain u' c' where rec: "dedup_from key res r rest = (u', c')" by fastforce
  with d Cons have "u = r # u'" by simp
  with dedup_from_sorted_key [OF _ rec, of f] sorted Cons show ?thesis by simp
qed simp

lemma SortAndDeduplicate_again:
  fixes f :: "'r \<Rightarrow> 'k::linorder"
  assumes "SortAndDeduplicate (\<lambda>l r. f l < f r) key res rs = (u, c)"
  shows "SortAndDeduplicate (\<lambda>l r. f l < f r) key res u = (u, [])"
proof -
  have d: "dedup key res (std_sort (\<lambda>l r. f l < f r) rs) = (u, c)" using assms by (simp add: SortAndDeduplicate_def)
  have "std_sort (\<lambda>l r. f l < f r) u = u"
    by (rule std_sort_sorted_key) (rule dedup_sorted_key [OF sorted_key_std_sort d])
  with dedup_again [OF d] show ?thesis by (simp add: SortAndDeduplicate_def)
qed

section \<open>The canonical tables\<close>

definition span_key :: "SpanRecord \<Rightarrow> PortKey \<times> PortKey \<times> SpanId" where
  "span_key r = (sp_from r, sp_to r, sp_id r)"

definition cross_connect_key :: "CrossConnectRecord \<Rightarrow> PortKey \<times> PortKey \<times> CrossConnectId" where
  "cross_connect_key r = (cc_from r, cc_to r, cc_id r)"

lemma less_keys:
  "span_less = (\<lambda>l r. span_key l < span_key r)" "cross_connect_less = (\<lambda>l r. cross_connect_key l < cross_connect_key r)"
  by (auto simp: fun_eq_iff span_less_def span_key_def cross_connect_less_def cross_connect_key_def less_prod_def)

lemma map_normal:
  "canonical_nodes ns = (ns', c) \<Longrightarrow> map (\<lambda>n. n\<lparr>nd_failure_domains := normal_domains (nd_failure_domains n)\<rparr>) ns' = ns'"
  "canonical_ports ps = (ps', c) \<Longrightarrow> map (\<lambda>p. p\<lparr>pt_failure_domains := normal_domains (pt_failure_domains p)\<rparr>) ps' = ps'"
  "canonical_spans ss = (ss', c) \<Longrightarrow> map (\<lambda>s. s\<lparr>sp_failure_domains := normal_domains (sp_failure_domains s)\<rparr>) ss' = ss'"
  "canonical_cross_connects cs = (cs', c) \<Longrightarrow> map (\<lambda>k. k\<lparr>cc_failure_domains := normal_domains (cc_failure_domains k)\<rparr>) cs' = cs'"
  by (rule map_idI, simp add: normal_records)+

lemma canonical_again:
  "canonical_nodes ns = (ns', c) \<Longrightarrow> canonical_nodes ns' = (ns', [])"
  "canonical_ports ps = (ps', c) \<Longrightarrow> canonical_ports ps' = (ps', [])"
  "canonical_spans ss = (ss', c) \<Longrightarrow> canonical_spans ss' = (ss', [])"
  "canonical_cross_connects cs = (cs', c) \<Longrightarrow> canonical_cross_connects cs' = (cs', [])"
  "canonical_profiles rs = (rs', c) \<Longrightarrow> canonical_profiles rs' = (rs', [])"
  using map_normal
  by (auto simp: canonical_nodes_def canonical_ports_def canonical_spans_def canonical_cross_connects_def
      canonical_profiles_def less_keys dest!: SortAndDeduplicate_again)

section \<open>Building again\<close>

text \<open>
  What the records of a sealed snapshot are built into: the same tables without the conflicts, with the
  coverage claimed for them.
\<close>

definition rebuilt :: "(TopologySnapshot \<Rightarrow> Digest256) \<Rightarrow> SourceRecord list \<Rightarrow> TopologySnapshot \<Rightarrow> TopologySnapshot" where
  "rebuilt digest sources s =
     (let t = s\<lparr>s_digest := [], s_sources := sources, s_conflicted := [],
                s_coverage_complete := coverage_claim (s_unresolved s) [] sources (s_nodes s)\<rparr>
      in t\<lparr>s_digest := digest t\<rparr>)"

lemma assemble_fresh:
  "assemble b = Inr s \<Longrightarrow> s_id s = b_id b \<and> s_generation s = b_generation b \<and> s_spectrum s = b_spectrum b \<and>
     s_freshness s = Fresh \<and> s_restored_from_incarnation s = replicate 16 0 \<and> s_restored_from_epoch s = 0 \<and>
     \<not> failed (self_loop_status (b_options b) (s_spans s) (s_cross_connects s))"
  by (auto simp: assemble_def Let_def split: if_splits prod.splits)

lemma duplicate_source_status_ids:
  "map src_id xs = map src_id ys \<Longrightarrow> failed (duplicate_source_status xs) = failed (duplicate_source_status ys)"
proof (induction xs arbitrary: ys rule: duplicate_source_status.induct)
  case (1 x y xs)
  then obtain u v us where "ys = u # v # us" "src_id x = src_id u" "src_id y = src_id v" "map src_id xs = map src_id us"
    by (auto simp: Cons_eq_map_conv)
  then show ?case using "1.IH" [of "v # us"] by auto
qed (auto simp: Cons_eq_map_conv)

lemma sorted_sources: "assemble b = Inr s \<Longrightarrow> sorted (map src_id (s_sources s))"
  by (auto elim!: assemble_Inr simp: sorted_key_std_sort)

lemma assemble_again:
  assumes built: "assemble b = Inr s" and ids: "map src_id sources = map src_id (s_sources s)"
    and loops: "\<not> failed (self_loop_status options (s_spans s) (s_cross_connects s))"
    and free: "allow_unresolved_references options"
  shows "assemble (records_builder options (s\<lparr>s_sources := sources\<rparr>)) =
    Inr (s\<lparr>s_digest := [], s_sources := sources, s_conflicted := [],
           s_coverage_complete := coverage_claim (s_unresolved s) [] sources (s_nodes s)\<rparr>)"
proof -
  from built obtain c1 c2 c3 c4 c5 where parts:
    "canonical_nodes (b_nodes b) = (s_nodes s, c1)" "canonical_ports (b_ports b) = (s_ports s, c2)"
    "canonical_spans (b_spans b) = (s_spans s, c3)"
    "canonical_cross_connects (b_cross_connects b) = (s_cross_connects s, c4)"
    "canonical_profiles (b_profiles b) = (s_profiles s, c5)"
    and adjacency:
    "s_unresolved s = sort_unique (a_unresolved (build_adjacency (s_nodes s) (s_ports s) (s_spans s) (s_cross_connects s)))"
    "s_span_arcs s = map (std_sort (span_arc_less (s_spans s)))
       (a_span_arcs (build_adjacency (s_nodes s) (s_ports s) (s_spans s) (s_cross_connects s)))"
    "s_out_cross_connects s = map (std_sort (\<lambda>l r. cc_id (s_cross_connects s ! l) < cc_id (s_cross_connects s ! r)))
       (a_cross_connects (build_adjacency (s_nodes s) (s_ports s) (s_spans s) (s_cross_connects s)))"
    "s_unresolved_at_port s = a_at_port (build_adjacency (s_nodes s) (s_ports s) (s_spans s) (s_cross_connects s))"
    by (rule assemble_Inr) blast
  have "std_sort (\<lambda>l r. src_id l < src_id r) sources = sources"
    by (rule sealed_sources) (simp add: ids sorted_sources [OF built])
  moreover have "sort_unique ([] :: ResourceKey list) = []" by (simp add: std_sort_def)
  moreover note canonical_again(1) [OF parts(1)] canonical_again(2) [OF parts(2)] canonical_again(3) [OF parts(3)]
    canonical_again(4) [OF parts(4)] canonical_again(5) [OF parts(5)] assemble_fresh [OF built]
  ultimately show ?thesis
    using loops free
    by (auto simp: assemble_def records_builder_def Let_def simp flip: adjacency intro!: TopologySnapshot.equality)
qed

lemma Build_again:
  assumes "fst (Build digest b) = Inr s" "map src_id sources = map src_id (s_sources s)"
    and "reject_self_loops options \<longrightarrow> reject_self_loops (b_options b)" "allow_unresolved_references options"
  shows "fst (Build digest' (records_builder options (s\<lparr>s_sources := sources\<rparr>))) = Inr (rebuilt digest' sources s)"
proof -
  from assms(1) obtain s0 where s0: "assemble b = Inr s0" "s = s0\<lparr>s_digest := digest s0\<rparr>" "\<not> failed (build_status b)"
    by (rule Build_Inr)
  let ?b = "records_builder options (s0\<lparr>s_sources := sources\<rparr>)"
  have same: "records_builder options (s\<lparr>s_sources := sources\<rparr>) = ?b" using s0(2) by (simp add: records_builder_def)
  have "\<not> failed (self_loop_status options (s_spans s0) (s_cross_connects s0))"
    using assemble_fresh [OF s0(1)] assms(3) by (auto simp: self_loop_status_def ball_Un)
  then have "assemble ?b = Inr (s0\<lparr>s_digest := [], s_sources := sources, s_conflicted := [],
      s_coverage_complete := coverage_claim (s_unresolved s0) [] sources (s_nodes s0)\<rparr>)"
    using assms(2,4) s0(2) by (intro assemble_again [OF s0(1)]) simp_all
  moreover have "\<not> failed (build_status ?b)"
    using records_status [OF s0(1,3), of options] duplicate_source_status_ids [of sources "s_sources s0"] assms(2) s0(2)
      sealed_sources [of sources] sealed_sources [of "s_sources s0"] sorted_sources [OF s0(1)]
    by (simp add: build_status_ok records_builder_def)
  ultimately show ?thesis unfolding same by (simp add: Build_def records_builder_def rebuilt_def s0(2) Let_def)
qed

lemma sealed_coverage:
  assumes "fst (Build digest b) = Inr s"
  shows "s_coverage_complete s = coverage_claim (s_unresolved s) (s_conflicted s) (s_sources s) (s_nodes s)"
proof -
  from assms obtain s0 where "assemble b = Inr s0" "s = s0\<lparr>s_digest := digest s0\<rparr>" by (rule Build_Inr)
  then show ?thesis by (auto elim!: assemble_Inr)
qed

end
