(* ===== verification/Snapshot_Round_Trip.thy ===== *)
theory Snapshot_Round_Trip
  imports Snapshot_Text Rebuild
begin

text \<open>
  The round trip of the snapshot text.  The first pass of \<open>ParseSnapshotText\<close> collects the records that
  \<open>SnapshotToText\<close> wrote, the second one feeds them to a new builder, and building the records of a sealed
  snapshot again (\<open>Rebuild\<close>) gives the snapshot, except for what the text does not carry: the conflicts and
  the descriptions of the sources.
\<close>

section \<open>The token lists\<close>

declare join_tokens.simps [simp del] find_keyed.simps(2) [simp del]

fun evidence_token :: "('a \<Rightarrow> string) \<Rightarrow> 'a Evidence \<Rightarrow> string" where
  "evidence_token f (Known v) = f v"
| "evidence_token f Unknown = kUnknown"
| "evidence_token f Conflicting = kConflicting"

definition u64_token :: "u64 \<Rightarrow> string" where "u64_token v = FormatU64 (unat v)"

definition profile_token :: "ProfileId option \<Rightarrow> string" where
  "profile_token p = (case p of Some i \<Rightarrow> i | None \<Rightarrow> kAbsent)"

definition domain_tokens :: "FailureDomainId list \<Rightarrow> string list" where
  "domain_tokens ds = (if ds = [] then [] else [keyed ''domains'' (join_commas ds)])"

definition origin_tokens :: "SourceId \<Rightarrow> Generation \<Rightarrow> string list" where
  "origin_tokens source gen = [keyed ''src'' source, keyed ''gen'' (u64_token gen)]"

definition end_tokens :: "PortKey \<Rightarrow> PortKey \<Rightarrow> string list" where
  "end_tokens from to =
     [EncodeToken (pk_node from), EncodeToken (pk_port from), EncodeToken (pk_node to), EncodeToken (pk_port to)]"

definition source_tokens :: "SourceRecord \<Rightarrow> string list" where
  "source_tokens r = [''source'', EncodeToken (src_id r), u64_token (src_generation r), EncodeToken (CoverageName (src_coverage r))]"

definition profile_tokens :: "double_chars \<Rightarrow> ReachProfile \<Rightarrow> string list" where
  "profile_tokens dc r =
     [''profile'', EncodeToken (rp_id r), keyed ''dist'' (evidence_token u64_token (rp_max_distance_m r)),
      keyed ''spans'' (evidence_token FormatU64 (rp_max_span_count r)),
      keyed ''loss'' (evidence_token (double_text dc) (rp_max_loss_db r)),
      keyed ''osnr'' (evidence_token (double_text dc) (rp_min_osnr_db r))] @ origin_tokens (rp_source r) (rp_generation r)"

definition node_tokens :: "NodeRecord \<Rightarrow> string list" where
  "node_tokens r =
     [''node'', EncodeToken (nd_id r), EncodeToken (NodeKindName (nd_kind r)), EncodeToken (CoverageName (nd_coverage r)),
      keyed ''admin'' (evidence_token AdminStateName (nd_admin r)), keyed ''cost'' (u64_token (nd_transit_cost r))] @
     origin_tokens (nd_source r) (nd_generation r) @ domain_tokens (nd_failure_domains r)"

definition port_tokens :: "PortRecord \<Rightarrow> string list" where
  "port_tokens r =
     [''port'', EncodeToken (pk_node (pt_key r)), EncodeToken (pk_port (pt_key r)), EncodeToken (PortRoleName (pt_role r)),
      keyed ''admin'' (evidence_token AdminStateName (pt_admin r)),
      keyed ''tx'' (evidence_token profile_token (pt_transmit_profile r)),
      keyed ''slots'' (evidence_token Mask_ToHex (pt_blocked_slots r)), keyed ''cost'' (u64_token (pt_transit_cost r))] @
     origin_tokens (pt_source r) (pt_generation r) @ domain_tokens (pt_failure_domains r)"

definition span_tokens :: "double_chars \<Rightarrow> SpanRecord \<Rightarrow> string list" where
  "span_tokens dc r =
     [''span'', EncodeToken (sp_id r)] @ end_tokens (sp_from r) (sp_to r) @
     [EncodeToken (if sp_bidirectional r then ''bidir'' else ''single''),
      keyed ''len'' (evidence_token u64_token (sp_length_m r)),
      keyed ''loss'' (evidence_token (double_text dc) (sp_loss_db r)),
      keyed ''osnr'' (evidence_token (double_text dc) (sp_osnr_db r)),
      keyed ''slots'' (evidence_token Mask_ToHex (sp_blocked_slots r)),
      keyed ''admin'' (evidence_token AdminStateName (sp_admin r)), keyed ''cost'' (u64_token (sp_cost r))] @
     origin_tokens (sp_source r) (sp_generation r) @ domain_tokens (sp_failure_domains r)"

definition cross_connect_tokens :: "CrossConnectRecord \<Rightarrow> string list" where
  "cross_connect_tokens r =
     [''xc'', EncodeToken (cc_id r)] @ end_tokens (cc_from r) (cc_to r) @
     [EncodeToken (CrossConnectOpName (cc_op r)), keyed ''slots'' (evidence_token Mask_ToHex (cc_blocked_slots r)),
      keyed ''admin'' (evidence_token AdminStateName (cc_admin r)), keyed ''cost'' (u64_token (cc_cost r))] @
     origin_tokens (cc_source r) (cc_generation r) @ domain_tokens (cc_failure_domains r)"

definition preamble_tokens :: "TopologySnapshot \<Rightarrow> string list list" where
  "preamble_tokens s =
     [[kSnapshotMagic, FormatU64 kSnapshotFormatVersion], [''id'', EncodeToken (s_id s)],
      [''generation'', u64_token (s_generation s)], [''grid'', EncodeToken (GridKindName (grid (s_spectrum s)))],
      [''slots'', FormatU64 (unat (slot_count (s_spectrum s)))]]"

definition record_tokens :: "double_chars \<Rightarrow> TopologySnapshot \<Rightarrow> string list list" where
  "record_tokens dc s =
     map source_tokens (s_sources s) @ map (profile_tokens dc) (s_profiles s) @ map node_tokens (s_nodes s) @
     map port_tokens (s_ports s) @ map (span_tokens dc) (s_spans s) @ map cross_connect_tokens (s_cross_connects s)"

lemmas token_parts = domain_tokens_def origin_tokens_def end_tokens_def

lemma add_evidence_append:
  "(\<And>v. known v line = line_append (keyed key (f v)) line) \<Longrightarrow>
     add_evidence known key e line = line_append (keyed key (evidence_token f e)) line"
  by (cases e) (simp_all add: add_evidence_def Line_AddKeyRaw_def)

lemma evidence_lines:
  "AddMask key m line = line_append (keyed key (evidence_token Mask_ToHex m)) line"
  "AddU64Evidence key v line = line_append (keyed key (evidence_token u64_token v)) line"
  "AddU32Evidence key n line = line_append (keyed key (evidence_token FormatU64 n)) line"
  "AddDoubleEvidence dc key d line = line_append (keyed key (evidence_token (double_text dc) d)) line"
  "AddAdmin key a line = line_append (keyed key (evidence_token AdminStateName a)) line"
  "AddProfileEvidence key p line = line_append (keyed key (evidence_token profile_token p)) line"
  unfolding AddMask_def AddU64Evidence_def AddU32Evidence_def AddDoubleEvidence_def AddAdmin_def AddProfileEvidence_def
  by (rule add_evidence_append,
      simp add: Line_AddKeyRaw_def Line_AddKeyU64_def Line_AddKeyDouble_def u64_token_def profile_token_def)+

lemma record_lines:
  "source_line source = join_tokens (source_tokens source)"
  "profile_line dc profile = join_tokens (profile_tokens dc profile)"
  "node_line node = join_tokens (node_tokens node)"
  "port_line port = join_tokens (port_tokens port)"
  "span_line dc x = join_tokens (span_tokens dc x)"
  "cross_connect_line cc = join_tokens (cross_connect_tokens cc)"
  by (simp_all add: source_line_def source_tokens_def profile_line_def profile_tokens_def node_line_def node_tokens_def
      port_line_def port_tokens_def span_line_def span_tokens_def cross_connect_line_def cross_connect_tokens_def
      AddDomains_def add_ends_def origin_def evidence_lines token_parts u64_token_def line_ops)

lemma SnapshotToText_tokens: "SnapshotToText dc s = emit_lines (map join_tokens (preamble_tokens s @ record_tokens dc s))"
proof -
  have "preamble_lines s = map join_tokens (preamble_tokens s)"
    by (simp add: preamble_lines_def preamble_tokens_def line_ops u64_token_def join_tokens.simps)
  then show ?thesis
    by (simp add: SnapshotToText_def snapshot_lines_def record_tokens_def record_lines comp_def cong: map_cong)
qed

section \<open>Evidence and domain lists are read back\<close>

fun evidence_all :: "('a \<Rightarrow> bool) \<Rightarrow> 'a Evidence \<Rightarrow> bool" where
  "evidence_all P (Known v) = P v"
| "evidence_all P _ = True"

definition profile_nameable :: "ProfileId option \<Rightarrow> bool" where
  "profile_nameable p = pred_option (\<lambda>i. IsValidIdText i \<and> i \<noteq> kUnknown \<and> i \<noteq> kConflicting) p"

definition domains_in_grammar :: "FailureDomainId list \<Rightarrow> bool" where
  "domains_in_grammar ds \<longleftrightarrow> list_all IsValidIdText ds \<and> length ds \<le> kMaxDomainsPerResource"

lemma parse_evidence_token:
  assumes "\<And>v. e = Known v \<Longrightarrow> f v \<noteq> kUnknown \<and> f v \<noteq> kConflicting \<and> known (f v) = Inr v"
  shows "parse_evidence known (evidence_token f e) = Inr e"
  using assms by (cases e) (auto simp: parse_evidence_def kUnknown_def kConflicting_def)

lemma not_state_words:
  "list_all P t \<Longrightarrow> \<not> P (CHR ''u'') \<Longrightarrow> \<not> P (CHR ''c'') \<Longrightarrow> t \<noteq> kUnknown \<and> t \<noteq> kConflicting"
  by (auto simp: kUnknown_def kConflicting_def)

lemma no_digits: "\<not> is_digit (CHR ''u'')" "\<not> is_digit (CHR ''c'')"
  by code_simp+

lemma number_words: "FormatU64 n \<noteq> kUnknown \<and> FormatU64 n \<noteq> kConflicting"
  using not_state_words [of is_digit "FormatU64 n"] no_digits by (simp add: FormatU64_def to_string_digits)

lemma double_words: "exact_double dc v \<Longrightarrow> double_text dc v \<noteq> kUnknown \<and> double_text dc v \<noteq> kConflicting"
  using not_state_words [of "\<lambda>c. is_digit c \<or> c \<in> set ''.-+eE''" "double_text dc v"] no_digits
  by (simp add: exact_double_def double_text_def FormatDouble_def Let_def)

lemma mask_words: "mask_wf m \<Longrightarrow> Mask_ToHex m \<noteq> kUnknown \<and> Mask_ToHex m \<noteq> kConflicting"
proof -
  assume "mask_wf m"
  then have "length (Mask_ToHex m) = 64" by (simp add: mask_wf_def)
  then show ?thesis by (auto simp: kUnknown_def kConflicting_def simp del: length_Mask_ToHex)
qed

lemma admin_words: "AdminStateName a \<noteq> kUnknown \<and> AdminStateName a \<noteq> kConflicting"
  by (cases a) (simp_all add: kUnknown_def kConflicting_def)

lemma evidence_read [simp]:
  "ParseEvidenceU64 (evidence_token u64_token u) = Inr u"
  "evidence_all (\<lambda>n. n < 2 ^ 32) n \<Longrightarrow> ParseEvidenceU32 (evidence_token FormatU64 n) = Inr n"
  "evidence_all (exact_double dc) d \<Longrightarrow> ParseEvidenceDouble dc (evidence_token (double_text dc) d) = Inr d"
  "evidence_all mask_wf m \<Longrightarrow> ParseEvidenceMask (evidence_token Mask_ToHex m) = Inr m"
  "ParseEvidenceAdmin (evidence_token AdminStateName a) = Inr a"
  unfolding ParseEvidenceU64_def ParseEvidenceU32_def ParseEvidenceDouble_def ParseEvidenceMask_def ParseEvidenceAdmin_def
  by (rule parse_evidence_token; auto simp: number_words double_words mask_words admin_words u64_token_def ParseU32_FormatU64
      Mask_hex_round_trip admin_names.parse_name)+

lemma profile_read [simp]:
  assumes "evidence_all profile_nameable p"
  shows "ParseEvidenceProfile (evidence_token profile_token p) = Inr p"
proof -
  have "\<not> IsValidIdText kAbsent" by code_simp
  then show ?thesis
    using assms unfolding ParseEvidenceProfile_def
    by (intro parse_evidence_token)
      (auto simp: profile_token_def profile_nameable_def ParseId_valid kUnknown_def kConflicting_def kAbsent_def split: option.splits)
qed

lemma parse_domain_pieces_valid:
  "list_all IsValidIdText ds \<Longrightarrow> length acc + length ds \<le> kMaxDomainsPerResource \<Longrightarrow>
     parse_domain_pieces acc ds = Inr (acc @ ds)"
  by (induction ds arbitrary: acc) (simp_all add: ParseId_valid)

lemma ParseDomains_join:
  assumes "domains_in_grammar ds" "ds \<noteq> []"
  shows "ParseDomains (join_commas ds) = Inr ds"
proof (cases ds)
  case (Cons d rest)
  have "d \<noteq> []" using assms Cons valid_id_nonempty by (simp add: domains_in_grammar_def)
  moreover have "split_commas (join_commas ds) = ds"
    using assms valid_id_no_comma split_join_commas [of d rest] unfolding Cons domains_in_grammar_def list_all_iff by blast
  moreover have "parse_domain_pieces [] ds = Inr ds"
    using parse_domain_pieces_valid [of ds "[]"] assms by (simp add: domains_in_grammar_def)
  ultimately show ?thesis by (simp add: ParseDomains_def Cons join_commas_Cons)
qed (use assms in simp)

lemma plain_evidence_token: "(\<And>v. e = Known v \<Longrightarrow> plain_text (f v)) \<Longrightarrow> plain_text (evidence_token f e)"
  by (cases e) (simp_all add: kUnknown_def kConflicting_def is_blank_def)

lemma plain_mask: "plain_text (Mask_ToHex m)"
proof -
  have "unat (w AND 15 :: u64) < 16" for w
    using word_and_le1 [of w 15] by (simp add: word_le_nat_alt)
  then have "list_all IsRawTokenCharacter (Mask_ToHex m)"
    by (auto simp: Mask_ToHex_def hex_word_def list_all_iff hex_digit_raw)
  then show ?thesis using raw_plain unfolding plain_text_def list_all_iff by blast
qed

lemma plain_evidence [simp]:
  "plain_text (evidence_token u64_token u)" "plain_text (evidence_token FormatU64 n)"
  "evidence_all (exact_double dc) d \<Longrightarrow> plain_text (evidence_token (double_text dc) d)"
  "plain_text (evidence_token Mask_ToHex m)" "plain_text (evidence_token AdminStateName a)"
  "evidence_all profile_nameable p \<Longrightarrow> plain_text (evidence_token profile_token p)"
proof -
  have "plain_text (AdminStateName x)" for x by (cases x) (simp_all add: is_blank_def)
  then show "plain_text (evidence_token AdminStateName a)" by (intro plain_evidence_token)
qed (auto intro!: plain_evidence_token simp: u64_token_def plain_mask profile_nameable_def profile_token_def kAbsent_def
    is_blank_def split: option.splits)

section \<open>The grammar\<close>

definition port_in_grammar :: "PortKey \<Rightarrow> bool" where
  "port_in_grammar k \<longleftrightarrow> IsValidIdText (pk_node k) \<and> IsValidIdText (pk_port k)"

definition profile_ok :: "double_chars \<Rightarrow> ReachProfile \<Rightarrow> bool" where
  "profile_ok dc r \<longleftrightarrow> IsValidIdText (rp_id r) \<and> evidence_all (\<lambda>n. n < 2 ^ 32) (rp_max_span_count r) \<and>
     evidence_all (exact_double dc) (rp_max_loss_db r) \<and> evidence_all (exact_double dc) (rp_min_osnr_db r) \<and>
     IsValidIdText (rp_source r)"

definition node_ok :: "NodeRecord \<Rightarrow> bool" where
  "node_ok r \<longleftrightarrow> IsValidIdText (nd_id r) \<and> IsValidIdText (nd_source r) \<and> domains_in_grammar (nd_failure_domains r)"

definition port_ok :: "PortRecord \<Rightarrow> bool" where
  "port_ok r \<longleftrightarrow> port_in_grammar (pt_key r) \<and> evidence_all profile_nameable (pt_transmit_profile r) \<and>
     evidence_all mask_wf (pt_blocked_slots r) \<and> IsValidIdText (pt_source r) \<and> domains_in_grammar (pt_failure_domains r)"

definition span_ok :: "double_chars \<Rightarrow> SpanRecord \<Rightarrow> bool" where
  "span_ok dc r \<longleftrightarrow> IsValidIdText (sp_id r) \<and> port_in_grammar (sp_from r) \<and> port_in_grammar (sp_to r) \<and>
     evidence_all (exact_double dc) (sp_loss_db r) \<and> evidence_all (exact_double dc) (sp_osnr_db r) \<and>
     evidence_all mask_wf (sp_blocked_slots r) \<and> IsValidIdText (sp_source r) \<and> domains_in_grammar (sp_failure_domains r)"

definition cross_connect_ok :: "CrossConnectRecord \<Rightarrow> bool" where
  "cross_connect_ok r \<longleftrightarrow> IsValidIdText (cc_id r) \<and> port_in_grammar (cc_from r) \<and> port_in_grammar (cc_to r) \<and>
     evidence_all mask_wf (cc_blocked_slots r) \<and> IsValidIdText (cc_source r) \<and> domains_in_grammar (cc_failure_domains r)"

definition snapshot_in_grammar :: "double_chars \<Rightarrow> TopologySnapshot \<Rightarrow> bool" where
  "snapshot_in_grammar dc s \<longleftrightarrow>
     IsValidIdText (s_id s) \<and> list_all (\<lambda>r. IsValidIdText (src_id r)) (s_sources s) \<and> list_all (profile_ok dc) (s_profiles s) \<and>
     list_all node_ok (s_nodes s) \<and> list_all port_ok (s_ports s) \<and> list_all (span_ok dc) (s_spans s) \<and>
     list_all cross_connect_ok (s_cross_connects s) \<and> list_all line_fits (preamble_tokens s @ record_tokens dc s)"

section \<open>Records\<close>

definition forget :: "SourceRecord \<Rightarrow> SourceRecord" where
  "forget r = r\<lparr>src_description := []\<rparr>"

lemma record_names:
  "EncodeToken (CoverageName cov) = CoverageName cov" "EncodeToken (NodeKindName kind) = NodeKindName kind"
  "EncodeToken (PortRoleName role) = PortRoleName role" "EncodeToken (CrossConnectOpName op) = CrossConnectOpName op"
  "EncodeToken (GridKindName g) = GridKindName g" "EncodeToken ''bidir'' = ''bidir''" "EncodeToken ''single'' = ''single''"
proof -
  show "EncodeToken (CoverageName cov) = CoverageName cov" by (cases cov; simp; code_simp)
  show "EncodeToken (NodeKindName kind) = NodeKindName kind" by (cases kind; simp; code_simp)
  show "EncodeToken (PortRoleName role) = PortRoleName role" by (cases role; simp; code_simp)
  show "EncodeToken (CrossConnectOpName op) = CrossConnectOpName op" by (cases op; simp; code_simp)
  show "EncodeToken (GridKindName g) = GridKindName g" by (cases g; simp; code_simp)
qed code_simp+

lemma plain_names [simp]:
  "plain_token (CoverageName cov)" "plain_token (NodeKindName kind)" "plain_token (PortRoleName role)"
  "plain_token (CrossConnectOpName op)" "plain_token (GridKindName g)"
  using plain_tokens(1) record_names by metis+

lemma parse_coverage_name [simp]: "parse_coverage w (CoverageName cov) = Inr cov"
  by (cases cov) (simp_all add: parse_coverage_def)

lemmas key_defs = key_evidence_def key_u64_def key_source_def RequiredKey_def field_lookup u64_token_def token_parts

lemma read_source: "IsValidIdText (src_id r) \<Longrightarrow> parse_source_record (source_tokens r) b = added (AddSource (forget r) b)"
  by (cases r) (simp add: parse_source_record_def source_tokens_def ParseId_valid record_names u64_token_def forget_def)

lemmas read_defs = key_defs key_domains_def ParseDomains_join ParseId_valid record_names parse_ends_def port_in_grammar_def

lemma read_profile: "profile_ok dc r \<Longrightarrow> parse_profile_record dc (profile_tokens dc r) b = added (AddReachProfile r b)"
  by (cases r) (simp add: parse_profile_record_def profile_tokens_def profile_ok_def read_defs)

lemma read_node: "node_ok r \<Longrightarrow> parse_node_record (node_tokens r) b = added (AddNode r b)"
  by (cases r, cases "nd_failure_domains r = []")
    (simp_all add: parse_node_record_def node_tokens_def node_ok_def read_defs node_kind_names.parse_name)

lemma read_port: "port_ok r \<Longrightarrow> parse_port_record (port_tokens r) b = added (AddPort r b)"
  by (cases r, cases "pt_failure_domains r = []")
    (simp_all add: parse_port_record_def port_tokens_def port_ok_def read_defs port_role_names.parse_name)

lemma read_span: "span_ok dc r \<Longrightarrow> parse_span_record dc (span_tokens dc r) b = added (AddSpan r b)"
  by (cases r, cases "sp_failure_domains r = []"; cases "sp_bidirectional r")
    (simp_all add: parse_span_record_def span_tokens_def span_ok_def read_defs parse_direction_def)

lemma read_cross_connect: "cross_connect_ok r \<Longrightarrow> parse_cross_connect_record (cross_connect_tokens r) b = added (AddCrossConnect r b)"
  by (cases r, cases "cc_failure_domains r = []")
    (simp_all add: parse_cross_connect_record_def cross_connect_tokens_def cross_connect_ok_def read_defs op_names.parse_name)

section \<open>The first pass\<close>

definition collected :: "TopologySnapshot \<Rightarrow> string list list \<Rightarrow> SnapshotParse" where
  "collected s records =
     \<lparr>np_header_seen = True, np_have_id = True, np_have_generation = True, np_have_grid = True, np_have_slots = True,
      np_snapshot_id = s_id s, np_snapshot_generation = s_generation s, np_spectrum = s_spectrum s, np_records = records\<rparr>"

lemma reads_preamble:
  assumes "snapshot_in_grammar dc s"
  shows "lines_read parse_snapshot_line start_snapshot (preamble_tokens s) (collected s [])"
proof -
  let ?st1 = "start_snapshot\<lparr>np_header_seen := True\<rparr>"
  let ?st2 = "?st1\<lparr>np_snapshot_id := s_id s, np_have_id := True\<rparr>"
  let ?st3 = "?st2\<lparr>np_snapshot_generation := s_generation s, np_have_generation := True\<rparr>"
  let ?st4 = "?st3\<lparr>np_spectrum := (np_spectrum ?st3)\<lparr>grid := grid (s_spectrum s)\<rparr>, np_have_grid := True\<rparr>"
  have ok: "IsValidIdText (s_id s)" and fits: "list_all line_fits (preamble_tokens s)"
    using assms by (simp_all add: snapshot_in_grammar_def)
  note defs = line_reads_def readable_def parse_snapshot_line_def parse_snapshot_header_def start_snapshot_def is_blank_def
    u64_token_def record_names grid_names.parse_name ParseId_valid kSnapshotMagic_def kSnapshotFormatVersion_def Let_def
  have "line_reads parse_snapshot_line start_snapshot (preamble_tokens s ! 0) ?st1"
    "line_reads parse_snapshot_line ?st1 (preamble_tokens s ! 1) ?st2"
    "line_reads parse_snapshot_line ?st2 (preamble_tokens s ! 2) ?st3"
    "line_reads parse_snapshot_line ?st3 (preamble_tokens s ! 3) ?st4"
    using fits ok ParseU32_FormatU64 [of 1] by (simp_all add: preamble_tokens_def defs)
  moreover have "line_reads parse_snapshot_line ?st4 (preamble_tokens s ! 4) (collected s [])"
    using fits ParseU16_FormatU64 [of "unat (slot_count (s_spectrum s))"] unsigned_less [of "slot_count (s_spectrum s)", where 'a = nat]
    by (cases "s_spectrum s") (simp add: preamble_tokens_def defs collected_def)
  ultimately show ?thesis by (auto simp: preamble_tokens_def intro!: lines_read.intros)
qed

lemma reads_collected:
  "list_all (\<lambda>ts. readable ts \<and> hd ts \<in> set record_keywords) tss \<Longrightarrow> length records + length tss \<le> kMaxRecords \<Longrightarrow>
     lines_read parse_snapshot_line (collected s records) tss (collected s (records @ tss))"
proof (induction tss arbitrary: records)
  case (Cons ts tss)
  then have "line_reads parse_snapshot_line (collected s records) ts (collected s (records @ [ts]))"
    by (auto simp: line_reads_def parse_snapshot_line_def collected_def record_keywords_def readable_def hd_conv_nth)
  with Cons.IH [of "records @ [ts]"] Cons.prems show ?case by (auto intro: lines_read.more)
qed (simp add: lines_read.none)

lemma readable_record:
  "line_fits (source_tokens source) \<Longrightarrow> readable (source_tokens source)"
  "profile_ok dc profile \<Longrightarrow> line_fits (profile_tokens dc profile) \<Longrightarrow> readable (profile_tokens dc profile)"
  "node_ok node \<Longrightarrow> line_fits (node_tokens node) \<Longrightarrow> readable (node_tokens node)"
  "port_ok port \<Longrightarrow> line_fits (port_tokens port) \<Longrightarrow> readable (port_tokens port)"
  "span_ok dc x \<Longrightarrow> line_fits (span_tokens dc x) \<Longrightarrow> readable (span_tokens dc x)"
  "cross_connect_ok cc \<Longrightarrow> line_fits (cross_connect_tokens cc) \<Longrightarrow> readable (cross_connect_tokens cc)"
  by (simp_all add: readable_def source_tokens_def profile_tokens_def node_tokens_def port_tokens_def span_tokens_def
      cross_connect_tokens_def token_parts u64_token_def is_blank_def profile_ok_def node_ok_def port_ok_def span_ok_def
      cross_connect_ok_def domains_in_grammar_def plain_join_commas)

lemma record_keyword:
  "hd (source_tokens source) = ''source''" "hd (profile_tokens dc profile) = ''profile''" "hd (node_tokens node) = ''node''"
  "hd (port_tokens port) = ''port''" "hd (span_tokens dc x) = ''span''" "hd (cross_connect_tokens cc) = ''xc''"
  by (simp_all add: source_tokens_def profile_tokens_def node_tokens_def port_tokens_def span_tokens_def cross_connect_tokens_def)

lemma readable_records:
  assumes "snapshot_in_grammar dc s"
  shows "list_all (\<lambda>ts. readable ts \<and> hd ts \<in> set record_keywords) (record_tokens dc s)"
  using assms
  by (auto simp: snapshot_in_grammar_def record_tokens_def list_all_iff record_keyword record_keywords_def readable_record)

section \<open>The second pass\<close>

lemma parse_records_map:
  assumes "\<And>x ys. x \<in> set xs \<Longrightarrow> length ys < bound \<Longrightarrow> parse_snapshot_record dc (tok x) (put ys) = Inr (put (ys @ [g x]))"
    and "length ys + length xs \<le> bound"
  shows "parse_records dc n (map tok xs @ rest) (put ys) = parse_records dc (n + length xs) rest (put (ys @ map g xs))"
  using assms by (induction xs arbitrary: ys n) auto

lemma read_table:
  assumes "\<And>x ys. x \<in> set xs \<Longrightarrow> length ys < bound \<Longrightarrow> parse_snapshot_record dc (tok x) (put ys) = Inr (put (ys @ [g x]))"
    and "length xs \<le> bound" "put [] = b"
  shows "parse_records dc n (map tok xs @ rest) b = parse_records dc (n + length xs) rest (put (map g xs))"
  using parse_records_map [of xs bound dc tok put g "[]" n rest] assms by simp

lemmas read_own_table = read_table [where g = "\<lambda>x. x", unfolded map_ident]

lemma record_first:
  "source_tokens source ! 0 = ''source''" "profile_tokens dc profile ! 0 = ''profile''" "node_tokens node ! 0 = ''node''"
  "port_tokens port ! 0 = ''port''" "span_tokens dc x ! 0 = ''span''" "cross_connect_tokens cc ! 0 = ''xc''"
  by (simp_all add: source_tokens_def profile_tokens_def node_tokens_def port_tokens_def span_tokens_def cross_connect_tokens_def)

lemma read_records:
  "\<not> b_built b \<Longrightarrow> IsValidIdText (src_id source) \<Longrightarrow> length sources < kMaxSources \<Longrightarrow>
     parse_snapshot_record dc (source_tokens source) (b\<lparr>b_sources := sources\<rparr>) = Inr (b\<lparr>b_sources := sources @ [forget source]\<rparr>)"
  "\<not> b_built b \<Longrightarrow> profile_ok dc profile \<Longrightarrow> length profiles < kMaxReachProfiles \<Longrightarrow>
     parse_snapshot_record dc (profile_tokens dc profile) (b\<lparr>b_profiles := profiles\<rparr>) = Inr (b\<lparr>b_profiles := profiles @ [profile]\<rparr>)"
  "\<not> b_built b \<Longrightarrow> node_ok node \<Longrightarrow> length nodes < kMaxNodes \<Longrightarrow>
     parse_snapshot_record dc (node_tokens node) (b\<lparr>b_nodes := nodes\<rparr>) = Inr (b\<lparr>b_nodes := nodes @ [node]\<rparr>)"
  "\<not> b_built b \<Longrightarrow> port_ok port \<Longrightarrow> length ports < kMaxPorts \<Longrightarrow>
     parse_snapshot_record dc (port_tokens port) (b\<lparr>b_ports := ports\<rparr>) = Inr (b\<lparr>b_ports := ports @ [port]\<rparr>)"
  "\<not> b_built b \<Longrightarrow> span_ok dc x \<Longrightarrow> length spans < kMaxSpans \<Longrightarrow>
     parse_snapshot_record dc (span_tokens dc x) (b\<lparr>b_spans := spans\<rparr>) = Inr (b\<lparr>b_spans := spans @ [x]\<rparr>)"
  "\<not> b_built b \<Longrightarrow> cross_connect_ok cc \<Longrightarrow> length ccs < kMaxCrossConnects \<Longrightarrow>
     parse_snapshot_record dc (cross_connect_tokens cc) (b\<lparr>b_cross_connects := ccs\<rparr>) = Inr (b\<lparr>b_cross_connects := ccs @ [cc]\<rparr>)"
proof -
  note add = added_def add_defs add_guard_failed valid_id_nonempty Let_def parse_snapshot_record_def record_first
  show "parse_snapshot_record dc (source_tokens source) (b\<lparr>b_sources := sources\<rparr>) = Inr (b\<lparr>b_sources := sources @ [forget source]\<rparr>)"
    if "\<not> b_built b" "IsValidIdText (src_id source)" "length sources < kMaxSources"
    using that by (simp add: add read_source) (simp add: forget_def valid_id_nonempty)
qed (simp_all add: added_def add_defs add_guard_failed valid_id_nonempty Let_def parse_snapshot_record_def record_first
    read_profile read_node read_port read_span read_cross_connect profile_ok_def node_ok_def port_ok_def port_in_grammar_def
    span_ok_def cross_connect_ok_def)

lemma second_pass:
  assumes "snapshot_in_grammar dc s" "snapshot_bounded s"
  shows "parse_records dc n (record_tokens dc s)
      (SetSpectrum (s_spectrum s) (SetGeneration (s_generation s) (SetId (s_id s) (new_builder default_options)))) =
    Inr (records_builder default_options (s\<lparr>s_sources := map forget (s_sources s)\<rparr>))"
proof -
  note ok = assms [unfolded snapshot_in_grammar_def snapshot_bounded_def list_all_iff]
  define b0 where "b0 = SetSpectrum (s_spectrum s) (SetGeneration (s_generation s) (SetId (s_id s) (new_builder default_options)))"
  define b1 where "b1 = b0\<lparr>b_sources := map forget (s_sources s)\<rparr>"
  define b2 where "b2 = b1\<lparr>b_profiles := s_profiles s\<rparr>"
  define b3 where "b3 = b2\<lparr>b_nodes := s_nodes s\<rparr>"
  define b4 where "b4 = b3\<lparr>b_ports := s_ports s\<rparr>"
  define b5 where "b5 = b4\<lparr>b_spans := s_spans s\<rparr>"
  note defs = b5_def b4_def b3_def b2_def b1_def b0_def SetSpectrum_def SetGeneration_def SetId_def new_builder_def
  have open_builders: "\<not> b_built b0" "\<not> b_built b1" "\<not> b_built b2" "\<not> b_built b3" "\<not> b_built b4" "\<not> b_built b5"
    by (simp_all add: defs)
  have no_records: "b0\<lparr>b_sources := []\<rparr> = b0" "b1\<lparr>b_profiles := []\<rparr> = b1" "b2\<lparr>b_nodes := []\<rparr> = b2" "b3\<lparr>b_ports := []\<rparr> = b3"
    "b4\<lparr>b_spans := []\<rparr> = b4" "b5\<lparr>b_cross_connects := []\<rparr> = b5"
    by (simp_all add: defs)
  note facts = read_records open_builders no_records
  have "parse_records dc m (map source_tokens (s_sources s) @ rest) b0 = parse_records dc (m + length (s_sources s)) rest b1" for m rest
    unfolding b1_def by (rule read_table [where bound = kMaxSources]) (use ok in \<open>simp_all add: facts\<close>)
  moreover have "parse_records dc m (map (profile_tokens dc) (s_profiles s) @ rest) b1 =
      parse_records dc (m + length (s_profiles s)) rest b2" for m rest
    unfolding b2_def by (rule read_own_table [where bound = kMaxReachProfiles]) (use ok in \<open>simp_all add: facts\<close>)
  moreover have "parse_records dc m (map node_tokens (s_nodes s) @ rest) b2 = parse_records dc (m + length (s_nodes s)) rest b3" for m rest
    unfolding b3_def by (rule read_own_table [where bound = kMaxNodes]) (use ok in \<open>simp_all add: facts\<close>)
  moreover have "parse_records dc m (map port_tokens (s_ports s) @ rest) b3 = parse_records dc (m + length (s_ports s)) rest b4" for m rest
    unfolding b4_def by (rule read_own_table [where bound = kMaxPorts]) (use ok in \<open>simp_all add: facts\<close>)
  moreover have "parse_records dc m (map (span_tokens dc) (s_spans s) @ rest) b4 = parse_records dc (m + length (s_spans s)) rest b5" for m rest
    unfolding b5_def by (rule read_own_table [where bound = kMaxSpans]) (use ok in \<open>simp_all add: facts\<close>)
  moreover have "parse_records dc m (map cross_connect_tokens (s_cross_connects s) @ []) b5 =
      parse_records dc (m + length (s_cross_connects s)) [] (b5\<lparr>b_cross_connects := s_cross_connects s\<rparr>)" for m
    by (rule read_own_table [where bound = kMaxCrossConnects]) (use ok in \<open>simp_all add: facts\<close>)
  moreover have "b5\<lparr>b_cross_connects := s_cross_connects s\<rparr> = records_builder default_options (s\<lparr>s_sources := map forget (s_sources s)\<rparr>)"
    by (simp add: defs records_builder_def)
  ultimately show ?thesis by (simp add: record_tokens_def flip: b0_def)
qed

section \<open>The round trip\<close>

text \<open>What a snapshot is after it was written and read: the text carries neither conflicts nor descriptions.\<close>

definition reloaded :: "TopologySnapshot \<Rightarrow> TopologySnapshot" where
  "reloaded s = s\<lparr>s_sources := map forget (s_sources s), s_conflicted := [],
     s_coverage_complete := coverage_claim (s_unresolved s) [] (s_sources s) (s_nodes s)\<rparr>"

lemma SnapshotToText_records:
  "SnapshotToText dc (s\<lparr>s_digest := d, s_sources := map forget (s_sources s), s_conflicted := c, s_coverage_complete := v\<rparr>) =
     SnapshotToText dc s"
  by (simp add: SnapshotToText_def snapshot_lines_def preamble_lines_def source_line_def forget_def comp_def cong: map_cong)

lemma rebuilt_reloaded:
  assumes "fst (Build (ComputeSnapshotDigest dc) b) = Inr s"
  shows "rebuilt (ComputeSnapshotDigest dc) (map forget (s_sources s)) s = reloaded s"
proof -
  from assms obtain s0 where "s = s0\<lparr>s_digest := ComputeSnapshotDigest dc s0\<rparr>" by (rule Build_Inr)
  moreover have "SnapshotToText dc (s0\<lparr>s_digest := d\<rparr>) = SnapshotToText dc s0" for d
    by (simp add: SnapshotToText_def snapshot_lines_def preamble_lines_def)
  ultimately have "s_digest s = ComputeSnapshotDigest dc s" by (simp add: ComputeSnapshotDigest_def)
  moreover have "coverage_claim u c (map forget rs) ns = coverage_claim u c rs ns" for u c rs ns
    by (simp add: coverage_claim_def list_all_iff forget_def)
  ultimately show ?thesis
    by (simp add: rebuilt_def reloaded_def ComputeSnapshotDigest_def SnapshotToText_records Let_def)
qed

lemma ParseSnapshotText_SnapshotToText:
  assumes built: "fst (Build (ComputeSnapshotDigest dc) b) = Inr s" "reject_self_loops (b_options b)"
    and ok: "snapshot_in_grammar dc s" "snapshot_bounded s" "length (SnapshotToText dc s) \<le> kMaxSnapshotTextBytes"
  shows "ParseSnapshotText dc (SnapshotToText dc s) = Inr (reloaded s)"
proof -
  have "length ([] :: string list list) + length (record_tokens dc s) \<le> kMaxRecords"
    using ok(2) by (simp add: record_tokens_def snapshot_bounded_def kMaxRecords_def)
  from reads_collected [OF readable_records [OF ok(1)] this]
  have "lines_read parse_snapshot_line start_snapshot (preamble_tokens s @ record_tokens dc s) (collected s (record_tokens dc s))"
    by (intro lines_read_append [OF reads_preamble [OF ok(1)]]) simp
  from parse_emitted [OF this, of 1]
  have first: "parse_lines parse_snapshot_line 1 (split_lines (SnapshotToText dc s)) start_snapshot =
      Inr (collected s (record_tokens dc s))"
    by (simp add: SnapshotToText_tokens)
  have "fst (Build (ComputeSnapshotDigest dc) (records_builder default_options (s\<lparr>s_sources := map forget (s_sources s)\<rparr>))) =
      Inr (rebuilt (ComputeSnapshotDigest dc) (map forget (s_sources s)) s)"
    by (rule Build_again [OF built(1)]) (use built(2) in \<open>simp_all add: forget_def default_options_def\<close>)
  then show ?thesis
    using first second_pass [OF ok(1,2)] ok(3) rebuilt_reloaded [OF built(1)]
    by (simp add: ParseSnapshotText_def collected_def)
qed

text \<open>
  C13: the text of a snapshot is read back.  For every snapshot that a builder reached by any sequence of calls
  seals with self loops refused, whose identifiers, numbers and lines are in the grammar and whose text is
  within the bound, parsing \<open>SnapshotToText\<close> (which builds the records again) returns the same tables,
  adjacency, generation, spectrum and content digest; only what the text does not carry is lost: source
  descriptions are empty, conflicts are gone, and coverage is claimed as if there had been none.  A snapshot
  without descriptions and conflicts is therefore returned unchanged.
\<close>

theorem Snapshot_text_round_trip:
  assumes "builder_reachable b" "fst (Build (ComputeSnapshotDigest dc) b) = Inr s" "reject_self_loops (b_options b)"
    and "snapshot_in_grammar dc s" "length (SnapshotToText dc s) \<le> kMaxSnapshotTextBytes"
  shows "ParseSnapshotText dc (SnapshotToText dc s) = Inr (reloaded s) \<and>
    (s_conflicted s = [] \<and> list_all (\<lambda>r. src_description r = []) (s_sources s) \<longrightarrow> reloaded s = s)"
proof
  have "snapshot_bounded s" using sealed_named_bounded [OF assms(1,2)] by simp
  then show "ParseSnapshotText dc (SnapshotToText dc s) = Inr (reloaded s)"
    using ParseSnapshotText_SnapshotToText assms by blast
  show "s_conflicted s = [] \<and> list_all (\<lambda>r. src_description r = []) (s_sources s) \<longrightarrow> reloaded s = s"
    using sealed_coverage [OF assms(2)] by (auto simp: reloaded_def forget_def list_all_iff intro!: map_idI TopologySnapshot.equality)
qed

end
