(* ===== verification/Client_Props.thy ===== *)
theory Client_Props
  imports Client Service_Props Result_Round_Trip Request_Round_Trip Snapshot_Round_Trip
begin

text \<open>
  The service seen through the wire: a worker answers every request of a byte stream in order however the
  stream is cut into segments, and a remote call returns what the service computed.
\<close>

section \<open>A connection\<close>

fun serve_frames ::
  "libm \<Rightarrow> os \<Rightarrow> double_chars \<Rightarrow> Frame list \<Rightarrow> Service \<Rightarrow> filesystem \<Rightarrow> Frame list \<times> Service \<times> filesystem" where
  "serve_frames lm sys dc [] sv fs = ([], sv, fs)"
| "serve_frames lm sys dc (f # later) sv fs =
     (case serve_frame lm sys dc f sv fs of (response, goes_on, sv1, fs1) \<Rightarrow>
      case serve_frames lm sys dc later sv1 fs1 of (responses, result) \<Rightarrow> (response # responses, result))"

definition served_kind :: "Frame \<Rightarrow> bool" where
  "served_kind f \<longleftrightarrow> message_kind (fr_kind f) \<noteq> Some MkShutdown"

lemma handle_kind_running:
  "handle_kind lm sys dc f sv fs = (a, sv', fs') \<Longrightarrow> served_kind f \<Longrightarrow> sv_stopping sv' = sv_stopping sv"
  by (auto simp: served_kind_def handle_kind_def handle_ingest_def handle_plan_def handle_cancel_def Let_def stat_ops
      split: option.splits MessageKind.splits sum.splits prod.splits if_splits)

lemma serve_frame_running:
  "serve_frame lm sys dc f sv fs = (r, go, sv', fs') \<Longrightarrow> served_kind f \<Longrightarrow> go \<and> sv_stopping sv' = sv_stopping sv"
  by (auto simp: serve_frame_def HandleFrameFor_def served_kind_def stat_ops Let_def split: if_splits prod.splits
      dest: handle_kind_running [unfolded served_kind_def])

lemma flowing_empty: "flowing es \<Longrightarrow> stream_bytes es = [] \<Longrightarrow> es = [] \<or> (\<exists>b rest. es = TimedOut b # rest)"
  by (cases es rule: flowing.cases) auto

lemma serve_loop_frames:
  assumes "flowing es" "stream_bytes es = concat (map EncodeFrame frames)" "\<not> sv_stopping sv"
    and "list_all (\<lambda>f. served_kind f \<and> length (fr_payload f) \<le> vo_max_frame_bytes (sv_options sv)) frames"
    and "vo_max_frame_bytes (sv_options sv) \<le> kMaxFrameBytes"
  shows "serve_loop lm sys dc (\<lambda>_. True) es sv fs = serve_frames lm sys dc frames sv fs"
  using assms
proof (induction "arrivals_size es" arbitrary: es frames sv fs rule: less_induct)
  case less
  show ?case
  proof (cases "\<exists>b rest. es = TimedOut b # rest")
    case True
    then obtain rest where es: "es = TimedOut False # rest" using less.prems(1) by auto
    then have "serve_loop lm sys dc (\<lambda>_. True) rest sv fs = serve_frames lm sys dc frames sv fs"
      using less.prems by (intro less.hyps) auto
    with es less.prems(3) show ?thesis by (subst serve_loop.simps) simp
  next
    case False
    then have poll: "(case es of TimedOut stopping # rest \<Rightarrow> a stopping rest | _ \<Rightarrow> b) = b" for a b
      by (auto split: list.splits arrival.splits)
    show ?thesis
    proof (cases frames)
      case Nil
      then have "es = []" using flowing_empty [of es] less.prems(1,2) False by auto
      with Nil less.prems(3) show ?thesis
        by (subst serve_loop.simps) (simp add: ReadFrame_def kFrameHeaderBytes_def numeral_eq_Suc)
    next
      case (Cons f later)
      obtain rest where read: "ReadFrame (vo_max_frame_bytes (sv_options sv)) es = (Inr f, rest)" "flowing rest"
          "stream_bytes rest = concat (map EncodeFrame later)"
        using ReadFrame_flowing [OF less.prems(1), of f "concat (map EncodeFrame later)" "vo_max_frame_bytes (sv_options sv)"]
          less.prems(2,4,5) Cons by auto
      obtain r go sv1 fs1 where one: "serve_frame lm sys dc f sv fs = (r, go, sv1, fs1)" by (metis prod_cases4)
      have run: "go" "sv_stopping sv1 = sv_stopping sv" "sv_options sv1 = sv_options sv"
        using serve_frame_running [OF one] serve_frame_same [OF one] less.prems(4) Cons by (auto simp: same_service_def)
      have "serve_loop lm sys dc (\<lambda>_. True) rest sv1 fs1 = serve_frames lm sys dc later sv1 fs1"
        using ReadFrame_progress [OF read(1)] read(2,3) less.prems run Cons by (intro less.hyps) auto
      with run one read(1) less.prems(3) Cons show ?thesis by (subst serve_loop.simps) (simp add: poll)
    qed
  qed
qed

lemma serve_frames_route:
  "serve_frames lm sys dc frames sv fs = (rs, sv', fs') \<Longrightarrow>
     map fr_sequence rs = map fr_sequence frames \<and> (\<forall>r \<in> set rs. fr_epoch_pin r = service_epoch sv)"
proof (induction frames arbitrary: sv fs rs)
  case (Cons f frames)
  obtain r go sv1 fs1 where one: "serve_frame lm sys dc f sv fs = (r, go, sv1, fs1)" by (metis prod_cases4)
  obtain rs1 where later: "serve_frames lm sys dc frames sv1 fs1 = (rs1, sv', fs')" "rs = r # rs1"
    using Cons.prems one by (auto split: prod.splits)
  then show ?case
    using Cons.IH [OF later(1)] serve_frame_route [OF one] serve_frame_same [OF one] by (simp add: same_service_def)
qed simp

section \<open>Remote calls\<close>

text \<open>
  A network that delivers what is written to a worker of the service, and what the worker writes back, with
  any segmentation and any pauses.
\<close>

definition connects :: "libm \<Rightarrow> os \<Rightarrow> double_chars \<Rightarrow> Service \<Rightarrow> filesystem \<Rightarrow> network \<Rightarrow> bool" where
  "connects lm sys dc sv fs net \<longleftrightarrow>
     (\<forall>bytes. \<exists>es out. flowing es \<and> stream_bytes es = bytes \<and> net bytes = Some out \<and> flowing out \<and>
        stream_bytes out = concat (map EncodeFrame (fst (serve_loop lm sys dc (\<lambda>_. True) es sv fs))))"

definition may_call :: "ServiceClient \<Rightarrow> Service \<Rightarrow> bool" where
  "may_call cl sv \<longleftrightarrow> cl_socket_handle cl \<noteq> kInvalidSocket \<and> \<not> sv_stopping sv \<and> (cl_epoch_pin cl = 0 \<or> cl_epoch_pin cl = service_epoch sv) \<and>
     vo_max_frame_bytes (sv_options sv) \<le> kMaxFrameBytes \<and> cl_max_frame_bytes cl \<le> kMaxFrameBytes"

lemma next_frame_simps [simp]:
  "message_kind (fr_kind (next_frame k p cl)) = Some k" "fr_payload (next_frame k p cl) = p"
  by (simp_all only: next_frame_def Frame.simps message_kind_value)

lemma flowing_without_stop: "flowing es \<Longrightarrow> map without_stop es = es"
  by (induction es rule: flowing.induct) (auto simp: without_stop_def)

lemma remote_exchange:
  assumes "connects lm sys dc sv fs net" "may_call cl sv" "kind \<noteq> MkShutdown"
    and "length payload \<le> vo_max_frame_bytes (sv_options sv)"
    and "handle_kind lm sys dc (next_frame kind payload cl) sv fs = (Inr (ack, reply), sv', fs')" "ack \<noteq> MkFailure"
    and "length reply \<le> cl_max_frame_bytes cl"
  shows "\<exists>f. fst (Exchange net kind payload cl) = Inr f \<and> fr_kind f = MessageKind_value ack \<and> fr_payload f = reply"
proof -
  let ?f = "next_frame kind payload cl"
  let ?r = "response_frame ?f sv (Inr (ack, reply))"
  obtain es out where net: "flowing es" "stream_bytes es = EncodeFrame ?f" "net (EncodeFrame ?f) = Some out" "flowing out"
      "stream_bytes out = concat (map EncodeFrame (fst (serve_loop lm sys dc (\<lambda>_. True) es sv fs)))"
    using assms(1) unfolding connects_def by metis
  have "serve_loop lm sys dc (\<lambda>_. True) es sv fs = serve_frames lm sys dc [?f] sv fs"
    using net(1,2) assms(2,3,4) by (intro serve_loop_frames) (auto simp: may_call_def served_kind_def next_frame_def)
  moreover have "fst (serve_frames lm sys dc [?f] sv fs) = [?r]"
    using assms(2,3,5,6) by (auto simp: serve_frame_def HandleFrameFor_def may_call_def next_frame_def response_frame_def)
  ultimately have "stream_bytes out = EncodeFrame ?r @ []" using net(5) by simp
  then obtain left where "ReadFrame (cl_max_frame_bytes cl) out = (Inr ?r, left)"
    using ReadFrame_flowing [OF net(4), of ?r "[]" "cl_max_frame_bytes cl"] assms(2,7)
    by (auto simp: may_call_def response_frame_def)
  moreover have "MessageKind_value ack \<noteq> 19" using assms(6) MessageKind_value_inject [of ack MkFailure] by simp
  ultimately have "fst (Exchange net kind payload cl) = Inr ?r"
    using net(3) assms(2,6) flowing_without_stop [OF net(4)] by (simp add: Exchange_def Client_SendFrame_def may_call_def response_frame_def)
  then show ?thesis by (simp add: response_frame_def)
qed

lemma plan_compute_sealed: "SealResult (result_text_digest dc) (plan_compute lm dc options snapshot r) = plan_compute lm dc options snapshot r"
  by (simp add: plan_compute_def no_snapshot_result_def Plan_def FinaliseResult_def Let_def split: option.splits)

lemma short_payload: "length p \<le> kMaxFrameBytes \<Longrightarrow> length p < 2 ^ 32"
  by (simp add: kMaxFrameBytes_def)


lemma length_snapshot_digest: "fst (Build (ComputeSnapshotDigest dc) b) = Inr s \<Longrightarrow> length (s_digest s) = 32"
  by (auto elim!: Build_Inr simp: ComputeSnapshotDigest_def Sha256_Finalize_def length_digest_of_state Let_def)



end
