(* ===== verification/Plan_Text_Witness.thy ===== *)
theory Plan_Text_Witness
  imports Plan_Round_Trip
begin

text \<open>
  A small plan in the text format, on which the properties of the text are applied, and the ambiguity
  of the spelling of span ends.
\<close>

definition ex_chars :: double_chars where
  "ex_chars = \<lparr>dc_to_chars = (\<lambda>_. ''0''), dc_from_chars = (\<lambda>_. Some (Fin 0))\<rparr>"

definition ex_span_use :: PlanSpanUse where
  "ex_span_use = \<lparr>su_id = ''s1'', su_from = PortKey ''A'' ''out'', su_to = PortKey ''B'' ''in'', su_reversed = False,
     su_length_m = 80, su_loss_db = Fin 0, su_osnr_db = Fin 0, su_cost = 10, su_first_slot = 4,
     su_failure_domains = [''duct-1'', ''duct-2'']\<rparr>"

definition ex_text_segment :: PlanSegment where
  "ex_text_segment = \<lparr>sg_index = 0, sg_profile = ''p1'', sg_spans = [ex_span_use], sg_distance_m = 80,
     sg_loss_db = Fin 0, sg_osnr_db = Fin 0, sg_span_count = 1, sg_channel_runs = 1,
     sg_ended_by_regeneration = False, sg_regeneration_resource = ResourceKey RNode []\<rparr>"

definition ex_text_plan :: PlanArtifact where
  "ex_text_plan =
     \<lparr>pl_format_version = 1, pl_rule_version = 1, pl_request_id = ''r1'', pl_request_digest = replicate 32 1,
      pl_snapshot_id = ''snap'', pl_snapshot_generation = 7, pl_snapshot_digest = replicate 32 2,
      pl_bound_sources = [\<lparr>sb_source = ''src'', sb_generation = 7, sb_contribution = replicate 32 3\<rparr>],
      pl_source = PortKey ''A'' ''out'', pl_destination = PortKey ''B'' ''in'',
      pl_steps = [\<lparr>ps_index = 0, ps_kind = StepSpan, ps_resource = ForSpan ''s1'', ps_segment_index = 0,
                   ps_reason_bits = 3, ps_cost = 10\<rparr>],
      pl_segments = [ex_text_segment],
      pl_reservations = [\<lparr>rv_resource = ForSpan ''s1'', rv_channel = \<lparr>first_slot = 4, width_slots = 2\<rparr>, rv_segment_index = 0\<rparr>],
      pl_capability_assumptions = [\<lparr>pa_resource = ForSpan ''s1'', pa_field = ''admin'', pa_value = ''is up''\<rparr>],
      pl_quality_assumptions = [], pl_failure_domain_exposure = [\<lparr>ex_id = ''duct-1'', ex_member_count = 1, ex_limit = 0\<rparr>],
      pl_channel_width_slots = 2, pl_total_cost = 10, pl_total_distance_m = 80, pl_total_loss_db = Fin 0,
      pl_hops = 1, pl_regenerations = 0, pl_digest = zero_digest\<rparr>"

definition ex_sealed_plan :: PlanArtifact where
  "ex_sealed_plan = ex_text_plan\<lparr>pl_digest := plan_text_digest ex_chars ex_text_plan\<rparr>"

section \<open>The plan is in the grammar and within the bounds\<close>

lemma plan_lines_digest: "plan_lines dc (p\<lparr>pl_digest := d\<rparr>) False = plan_lines dc p False"
  by (simp add: plan_lines_def request_line_def snapshot_line_def endpoints_line_def totals_line_def)

lemma plan_text_digest_indep: "plan_text_digest dc (p\<lparr>pl_digest := d\<rparr>) = plan_text_digest dc p"
  by (simp add: plan_text_digest_def DigestPayload_def PlanToText_def plan_lines_digest)

lemma length_plan_text_digest [simp]: "length (plan_text_digest dc p) = 32"
  by (simp add: plan_text_digest_def Sha256_Finalize_def length_digest_of_state Let_def)

lemma ex_exact [simp]: "exact_double ex_chars (Fin 0)"
  by code_simp

lemma ex_in_grammar: "plan_in_grammar ex_chars ex_sealed_plan"
proof -
  have ids: "list_all IsValidIdText [''r1'', ''snap'', ''src'', ''A'', ''out'', ''B'', ''in'', ''s1'', ''p1'', ''duct-1'', ''duct-2'']"
    by code_simp
  show ?thesis
    using ids
    by (simp add: plan_in_grammar_def ex_sealed_plan_def ex_text_plan_def ex_text_segment_def ex_span_use_def
        kPlanFormatVersion_def kPlanningRuleVersion_def binding_ok_def step_ok_def segment_ok_def span_use_ok_def
        end_ok_def reservation_ok_def exposure_ok_def dense_indices_def)
qed

definition short_line :: "string list \<Rightarrow> bool" where
  "short_line ts \<longleftrightarrow> length (join_tokens ts) \<le> 200 \<and> list_all (\<lambda>t. length t \<le> 200) ts"

lemma short_line_fits: "short_line ts \<Longrightarrow> line_fits ts"
  by (auto simp: short_line_def line_fits_def kMaxTextLineBytes_def kMaxTokenBytes_def list_all_iff)

lemma short_lines_length:
  "list_all short_line tss \<Longrightarrow> length (concat (map (\<lambda>l. l @ [c]) (map join_tokens tss))) \<le> 201 * length tss"
  by (induction tss) (auto simp: short_line_def)

definition early_tokens :: "double_chars \<Rightarrow> PlanArtifact \<Rightarrow> string list list" where
  "early_tokens dc plan = butlast (plan_tokens dc plan)"

lemma plan_tokens_digest:
  "plan_tokens dc (p\<lparr>pl_digest := d\<rparr>) = early_tokens dc p @ [[''digest'', EncodeToken (ToHexImpl d)]]"
  by (simp add: plan_tokens_def early_tokens_def head_tokens_def middle_tokens_def butlast_append)

lemma ex_within_bounds: "plan_within_bounds ex_chars ex_sealed_plan"
proof -
  let ?d = "plan_text_digest ex_chars ex_text_plan"
  have short: "list_all short_line (early_tokens ex_chars ex_text_plan)" "length (early_tokens ex_chars ex_text_plan) \<le> 20"
    by code_simp+
  then have "list_all line_fits (early_tokens ex_chars ex_text_plan)"
    using short_line_fits by (auto simp: list_all_iff)
  moreover have "line_fits [''digest'', EncodeToken (ToHexImpl ?d)]"
    by (simp add: line_fits_def join_tokens.simps kMaxTextLineBytes_def kMaxTokenBytes_def)
  ultimately have "list_all line_fits (plan_tokens ex_chars ex_sealed_plan)"
    by (simp add: ex_sealed_plan_def plan_tokens_digest)
  moreover have "length (concat (map (\<lambda>l. l @ [CHR 0x0A]) (map join_tokens (early_tokens ex_chars ex_text_plan)))) \<le> 201 * 20"
    using short_lines_length [OF short(1)] short(2) by (meson le_trans mult_le_mono2)
  then have "length (CanonicalBytes ex_chars ex_sealed_plan) \<le> kMaxPlanArtifactBytes"
    by (simp add: CanonicalBytes_def PlanToText_def plan_lines_tokens ex_sealed_plan_def plan_tokens_digest
        kMaxPlanArtifactBytes_def join_tokens.simps comp_def)
  ultimately show ?thesis by (simp add: plan_within_bounds_def)
qed

lemma ex_sealed: "pl_digest ex_sealed_plan = plan_text_digest ex_chars ex_sealed_plan"
  by (simp add: ex_sealed_plan_def plan_text_digest_indep)

theorem Plan_text_round_trip_witness:
  "plan_in_grammar ex_chars ex_sealed_plan \<and> plan_within_bounds ex_chars ex_sealed_plan \<and>
   pl_digest ex_sealed_plan = plan_text_digest ex_chars ex_sealed_plan \<and>
   ParsePlanArtifact ex_chars (CanonicalBytes ex_chars ex_sealed_plan) = Inr ex_sealed_plan"
  using Plan_text_round_trip [OF ex_in_grammar ex_within_bounds ex_sealed] ex_in_grammar ex_within_bounds ex_sealed by simp

theorem ParsePlanArtifact_accepts_sealed_witness:
  "ParsePlanArtifact ex_chars (CanonicalBytes ex_chars ex_sealed_plan) = Inr ex_sealed_plan \<and>
   pl_digest ex_sealed_plan = sha256 (bytes_of (''OPP-PLAN-v1'' @ [CHR 0x0A] @ DigestPayload ex_chars ex_sealed_plan))"
proof -
  have parsed: "ParsePlanArtifact ex_chars (CanonicalBytes ex_chars ex_sealed_plan) = Inr ex_sealed_plan"
    by (rule ParsePlanArtifact_CanonicalBytes [OF ex_in_grammar ex_within_bounds ex_sealed])
  from ParsePlanArtifact_accepts_sealed [OF this] parsed show ?thesis by blast
qed

section \<open>Span ends\<close>

text \<open>
  The spelling of span ends is ambiguous: two plans that differ only in where a span starts (node
  \<open>A:1\<close>, port \<open>out\<close> against node \<open>A\<close>, port \<open>1:out\<close>, all valid identifiers) have the same canonical
  text and the same digest, so the seal cannot tell them apart.
\<close>

lemma Plan_text_ambiguous_ends:
  "\<exists>p q a b. p \<noteq> q \<and> CanonicalBytes dc p = CanonicalBytes dc q \<and> plan_text_digest dc p = plan_text_digest dc q \<and>
     map su_from (concat (map sg_spans (pl_segments p))) = [a] \<and>
     map su_from (concat (map sg_spans (pl_segments q))) = [b] \<and> a \<noteq> b \<and>
     IsValidIdText (pk_node a) \<and> IsValidIdText (pk_port a) \<and> IsValidIdText (pk_node b) \<and> IsValidIdText (pk_port b)"
proof -
  let ?a = "PortKey ''A:1'' ''out''" and ?b = "PortKey ''A'' ''1:out''"
  let ?p = "\<lambda>k. ex_text_plan\<lparr>pl_segments := [ex_text_segment\<lparr>sg_spans := [ex_span_use\<lparr>su_from := k\<rparr>]\<rparr>]\<rparr>"
  have "CanonicalText ?a = CanonicalText ?b" by (simp add: CanonicalText_def)
  then have same: "plan_lines dc (?p ?a) i = plan_lines dc (?p ?b) i" for i
    by (simp add: plan_lines_def segspan_line_def segment_line_def request_line_def snapshot_line_def endpoints_line_def
        totals_line_def Let_def)
  moreover have "?p ?a \<noteq> ?p ?b" by (simp add: ex_text_plan_def ex_text_segment_def ex_span_use_def)
  moreover have "IsValidIdText ''A:1''" "IsValidIdText ''out''" "IsValidIdText ''A''" "IsValidIdText ''1:out''"
    by code_simp+
  ultimately show ?thesis
    by (intro exI [of _ "?p ?a"] exI [of _ "?p ?b"] exI [of _ ?a] exI [of _ ?b])
      (simp add: CanonicalBytes_def plan_text_digest_def DigestPayload_def PlanToText_def)
qed

end
