(* ===== verification/Store_Witness.thy ===== *)
theory Store_Witness
  imports Store_Props Plan_Text_Witness
begin

text \<open>A store in an empty directory, on which the properties of the store are applied.\<close>

definition ex_os :: os where
  "ex_os = \<lparr>os_process_id = 7, os_message = ''failed'', os_write = NoFault, os_open_fails = (\<lambda>_. False),
     os_short_read = (\<lambda>_. False), os_remove_fails = (\<lambda>_. False), os_list_fails = False, os_mkdir_fails = False\<rparr>"

definition ex_store :: StoreOptions where
  "ex_store = \<lparr>so_root = ''/opp'', so_max_plans = 4, so_verify_existing = True\<rparr>"

definition ex_fs :: filesystem where
  "ex_fs = \<lparr>fs_files = [], fs_dirs = [''/opp'', ''/opp/plans'']\<rparr>"

lemma ex_storable: "storable ex_chars ex_sealed_plan"
  by (simp add: storable_def ex_in_grammar ex_within_bounds)

lemma ex_os_reads: "\<not> os_open_fails ex_os p \<and> \<not> os_short_read ex_os p"
  by (simp add: ex_os_def)

lemma ex_os_faultless: "os_write ex_os = NoFault" "\<not> os_list_fails ex_os"
  by (simp_all add: ex_os_def)

lemma ex_fs_empty: "file_at ex_fs p = None" "plan_file_names ex_store ex_fs = []"
  by (simp_all add: ex_fs_def file_at_def plan_file_names_def List.map_filter_def)

lemma ex_fs_directory: "store_directory ex_store \<in> set (fs_dirs ex_fs)"
  by (simp add: store_directory_def ex_store_def ex_fs_def JoinPath_def kStoreDirectoryName_def)


lemma ex_put_ok: "fst (Store_Put ex_os ex_chars ex_store ex_sealed_plan ex_fs) = OkStatus"
  using EncodeStoreFile_sealed [OF ex_storable ex_sealed] ex_fs_directory ex_os_faultless
  by (auto simp: Store_Put_def FileExists_def ex_fs_empty ScanLocked_def ListDirectoryBySuffix_def ListDirectoryFiles_def
      DirectoryExists_def and_then_def WriteFileAtomic_ok Let_def ex_fs_def ex_store_def List.map_filter_def file_at_def)

lemma ex_put_stored:
  "stored ex_chars ex_store (snd (Store_Put ex_os ex_chars ex_store ex_sealed_plan ex_fs)) (pl_digest ex_sealed_plan) =
     Some ex_sealed_plan"
  using Store_Put_stored [OF ex_storable, of ex_store ex_os ex_fs] ex_put_ok by simp

theorem Store_Get_sound_witness:
  "\<exists>fs. Store_Get ex_os ex_chars ex_store (pl_digest ex_sealed_plan) fs = Inr ex_sealed_plan \<and>
     pl_digest ex_sealed_plan = Sha256_Of (''OPP-PLAN-v1'' @ [CHR 0x0A] @ DigestPayload ex_chars ex_sealed_plan)"
proof -
  let ?fs = "snd (Store_Put ex_os ex_chars ex_store ex_sealed_plan ex_fs)"
  have got: "Store_Get ex_os ex_chars ex_store (pl_digest ex_sealed_plan) ?fs = Inr ex_sealed_plan"
    using ex_put_stored stored_Get ex_os_reads by blast
  from Store_Get_sound [OF got] got show ?thesis by blast
qed



end
