(* ===== verification/Text_Witnesses.thy ===== *)
theory Text_Witnesses
  imports Request_Round_Trip Snapshot_Round_Trip Plan_Text_Witness Search_Witnesses
begin

text \<open>A small request and a small snapshot in the text formats, on which the properties of these formats are applied.\<close>

definition ex_text_constraints :: ConstraintSet where
  "ex_text_constraints = \<lparr>excluded_nodes = [''D''], excluded_ports = [PortKey ''C'' ''p1''], excluded_spans = [],
     excluded_cross_connects = [], excluded_failure_domains = [''duct-9''],
     max_members_per_failure_domain = [(''duct-1'', 1), (''duct-2'', 3)], max_total_distance_m = Some 900,
     max_total_span_count = None, max_total_loss_db = Some (Fin 0), min_segment_osnr_db = None,
     allow_regeneration = True, allow_wavelength_conversion = False,
     require_spectrum_continuity_across_regeneration = False, allow_repeated_resources = False\<rparr>"

definition ex_text_request :: PlanningRequest where
  "ex_text_request = \<lparr>rq_format_version = 1, rq_id = ''r1'', rq_source = PortKey ''A'' ''out'',
     rq_destination = PortKey ''B'' ''in'', rq_channel_width_slots = 2, rq_max_candidates = 1, rq_max_regenerations = 2,
     rq_max_hops = 8, rq_max_total_cost = Some 40, rq_disjointness = DisjointNode, rq_constraints = ex_text_constraints,
     rq_required_source_generations = [(''src'', 7)], rq_required_snapshot_generation = None,
     rq_expected_snapshot_digest = None, rq_accept_restored_evidence = False, rq_max_search_expansions = 90,
     rq_max_search_labels = 90\<rparr>"

lemma ex_request_in_grammar: "request_in_grammar ex_chars ex_text_request"
proof -
  have ids: "list_all IsValidIdText [''r1'', ''src'', ''A'', ''out'', ''B'', ''in'', ''C'', ''p1'', ''D'', ''duct-9'', ''duct-1'', ''duct-2'']"
    by code_simp
  have "list_all short_line (request_tokens ex_chars ex_text_request)" by code_simp
  then have "list_all line_fits (request_tokens ex_chars ex_text_request)"
    using short_line_fits by (auto simp: list_all_iff)
  moreover have "sorted_wrt (<) [''duct-1'', ''duct-2'']" by code_simp
  ultimately show ?thesis
    using ids
    by (simp add: request_in_grammar_def constraints_in_grammar_def id_pair_def kRequestFormatVersion_def
        ex_text_request_def ex_text_constraints_def)
qed

theorem Request_text_round_trip_witness:
  "ParseRequestText ex_chars (RequestToText ex_chars ex_text_request) = Inr ex_text_request"
  using Request_text_round_trip [OF ex_request_in_grammar] by blast

section \<open>A snapshot with a conflict\<close>

text \<open>
  Two records of one node disagree, and the source has a description.  The snapshot that is read back has
  the same digest but neither the conflict nor the description, and it claims complete coverage.
\<close>

definition ex_net_source :: SourceRecord where
  "ex_net_source = \<lparr>src_id = ''survey'', src_generation = 7, src_coverage = Complete, src_description = ''field data''\<rparr>"

definition ex_net_node :: "u64 \<Rightarrow> NodeRecord" where
  "ex_net_node c = \<lparr>nd_id = ''A'', nd_kind = ReconfigurableOadm, nd_failure_domains = [''duct'', ''hall''], nd_transit_cost = c,
     nd_coverage = Complete, nd_admin = Known Up, nd_source = ''survey'', nd_generation = 7\<rparr>"

definition ex_net_port :: PortRecord where
  "ex_net_port = \<lparr>pt_key = PortKey ''A'' ''t'', pt_role = RoleLine, pt_transmit_profile = Known (Some ''zr''),
     pt_blocked_slots = Known Mask_None, pt_failure_domains = [], pt_transit_cost = 1, pt_admin = Conflicting,
     pt_source = ''survey'', pt_generation = 7\<rparr>"

definition ex_net_profile :: ReachProfile where
  "ex_net_profile = \<lparr>rp_id = ''zr'', rp_max_distance_m = Known 9, rp_max_span_count = Known 2, rp_max_loss_db = Known (Fin 0),
     rp_min_osnr_db = Unknown, rp_source = ''survey'', rp_generation = 7\<rparr>"

definition ex_net :: SnapshotBuilder where
  "ex_net =
     (let b1 = SetSpectrum \<lparr>grid = Flex12_5GHz, slot_count = 256\<rparr> (SetGeneration 3 (SetId ''net'' (new_builder default_options)));
          b2 = snd (AddNode (ex_net_node 5) (snd (AddNode (ex_net_node 2) (snd (AddSource ex_net_source b1)))))
      in snd (AddReachProfile ex_net_profile (snd (AddPort ex_net_port b2))))"

definition ex_net_sealed :: TopologySnapshot where
  "ex_net_sealed =
     \<lparr>s_id = ''net'', s_generation = 3, s_spectrum = \<lparr>grid = Flex12_5GHz, slot_count = 256\<rparr>, s_digest = [],
      s_sources = [ex_net_source], s_nodes = [ex_net_node 2], s_ports = [ex_net_port], s_spans = [], s_cross_connects = [],
      s_profiles = [ex_net_profile], s_conflicted = [ForNode ''A''], s_unresolved = [], s_coverage_complete = False,
      s_freshness = Fresh, s_restored_from_incarnation = replicate 16 0, s_restored_from_epoch = 0, s_span_arcs = [[]],
      s_out_cross_connects = [[]], s_unresolved_at_port = [0]\<rparr>"

lemma ex_net_reachable: "builder_reachable ex_net"
proof -
  have "builder_reachable (new_builder default_options)" unfolding builder_reachable_def by blast
  then show ?thesis
    unfolding ex_net_def Let_def by (intro builder_reachable_step [OF _ builder_step.profile]
      builder_reachable_step [OF _ builder_step.port] builder_reachable_step [OF _ builder_step.node]
      builder_reachable_step [OF _ builder_step.source] builder_reachable_step [OF _ builder_step.set_spectrum]
      builder_reachable_step [OF _ builder_step.set_generation] builder_reachable_step [OF _ builder_step.set_id])
qed

lemma ex_net_Build: "fst (Build digest ex_net) = Inr (ex_net_sealed\<lparr>s_digest := digest ex_net_sealed\<rparr>)"
proof -
  have "assemble ex_net = Inr ex_net_sealed" "\<not> failed (build_status ex_net)" "\<not> b_built ex_net" by code_simp+
  then show ?thesis by (simp add: Build_def Let_def)
qed

lemma ex_net_tokens: "list_all short_line (preamble_tokens ex_net_sealed @ record_tokens ex_chars ex_net_sealed)"
  "length (preamble_tokens ex_net_sealed @ record_tokens ex_chars ex_net_sealed) = 9"
  by code_simp+

lemma ex_net_in_grammar: "snapshot_in_grammar ex_chars (ex_net_sealed\<lparr>s_digest := d\<rparr>)"
proof -
  have ids: "list_all IsValidIdText [''net'', ''survey'', ''A'', ''t'', ''zr'', ''duct'', ''hall'']" by code_simp
  have fits: "list_all line_fits (preamble_tokens ex_net_sealed @ record_tokens ex_chars ex_net_sealed)"
    using ex_net_tokens(1) short_line_fits by (auto simp: list_all_iff)
  have same: "preamble_tokens (s\<lparr>s_digest := d\<rparr>) = preamble_tokens s" "record_tokens dc (s\<lparr>s_digest := d\<rparr>) = record_tokens dc s" for s dc
    by (simp_all add: preamble_tokens_def record_tokens_def)
  show ?thesis
    unfolding snapshot_in_grammar_def same
  proof (intro conjI fits)
  qed (use ids in \<open>simp_all add: ex_net_sealed_def ex_net_source_def ex_net_node_def ex_net_port_def ex_net_profile_def
        profile_ok_def node_ok_def port_ok_def port_in_grammar_def domains_in_grammar_def profile_nameable_def
        kMaxDomainsPerResource_def kUnknown_def kConflicting_def\<close>)
qed

lemma ex_net_length: "length (SnapshotToText ex_chars (ex_net_sealed\<lparr>s_digest := d\<rparr>)) \<le> 1809"
proof -
  have "length (concat (map (\<lambda>l. l @ [CHR 0x0A]) (map join_tokens (preamble_tokens ex_net_sealed @ record_tokens ex_chars ex_net_sealed)))) \<le> 201 * 9"
    using short_lines_length [OF ex_net_tokens(1)] ex_net_tokens(2) by metis
  moreover have "SnapshotToText ex_chars (ex_net_sealed\<lparr>s_digest := d\<rparr>) = SnapshotToText ex_chars ex_net_sealed"
    by (simp add: SnapshotToText_def snapshot_lines_def preamble_lines_def)
  ultimately show ?thesis by (simp add: SnapshotToText_tokens emit_lines_def)
qed

theorem Snapshot_text_round_trip_witness:
  "\<exists>s t. fst (Build (ComputeSnapshotDigest ex_chars) ex_net) = Inr s \<and>
     ParseSnapshotText ex_chars (SnapshotToText ex_chars s) = Inr t \<and> s_digest t = s_digest s \<and> s_nodes t = s_nodes s \<and>
     s_conflicted s = [ForNode ''A''] \<and> s_conflicted t = [] \<and> \<not> s_coverage_complete s \<and> s_coverage_complete t"
proof -
  let ?s = "ex_net_sealed\<lparr>s_digest := ComputeSnapshotDigest ex_chars ex_net_sealed\<rparr>"
  have loops: "reject_self_loops (b_options ex_net)" by code_simp
  have "length (SnapshotToText ex_chars ?s) \<le> kMaxSnapshotTextBytes"
    using ex_net_length [of "ComputeSnapshotDigest ex_chars ex_net_sealed"] by (simp add: kMaxSnapshotTextBytes_def)
  from Snapshot_text_round_trip [OF ex_net_reachable ex_net_Build loops ex_net_in_grammar this]
  have "ParseSnapshotText ex_chars (SnapshotToText ex_chars ?s) = Inr (reloaded ?s)" by blast
  moreover have "s_coverage_complete (reloaded ?s)"
    by (simp add: reloaded_def coverage_claim_def ex_net_sealed_def ex_net_source_def ex_net_node_def)
  ultimately show ?thesis using ex_net_Build [of "ComputeSnapshotDigest ex_chars"]
    by (intro exI [of _ ?s] exI [of _ "reloaded ?s"]) (simp add: reloaded_def ex_net_sealed_def)
qed

end
