(* ===== verification/Service_Witness.thy ===== *)
theory Service_Witness
  imports Client_Props Store_Witness Text_Witnesses Search_Example
begin

text \<open>
  A service in an empty state directory, restarted once, and a client of it: the concrete inputs on which
  the properties of the service are applied.
\<close>

section \<open>The service\<close>

definition ex_platform :: platform where
  "ex_platform = \<lparr>pf_os = ex_os, pf_random = Some (replicate 16 5), pf_now = 1000, pf_lock = LockFree,
     pf_socket = 3, pf_address_ok = (\<lambda>_. True), pf_bind_fails = False, pf_listen_fails = False,
     pf_bound_port = Some 4000\<rparr>"

definition ex_service_options :: ServiceOptions where
  "ex_service_options = \<lparr>vo_state_dir = ''/opp'', vo_store_root = [], vo_bind_address = ''127.0.0.1'',
     vo_max_connections = 4, vo_max_frame_bytes = kMaxFrameBytes, vo_max_stored_plans = 4, vo_expansion_ceiling = 100,
     vo_persist_snapshots = True\<rparr>"

lemma CleanTemporaries_dirs: "fs_dirs (CleanTemporariesLocked sys opts fs) = fs_dirs fs"
proof -
  have one: "fs_dirs (clean_one sys opts name fs) = fs_dirs fs" for name fs
    by (simp add: clean_one_def RemoveFile_def)
  have "fs_dirs (fold (clean_one sys opts) names fs) = fs_dirs fs" for names
    by (induction names arbitrary: fs) (simp_all add: one)
  then show ?thesis by (simp add: CleanTemporariesLocked_def split: sum.splits)
qed

lemma ex_begin:
  "n < 100 \<Longrightarrow> \<exists>st fs'. begin_incarnation ex_platform p c n fs = (Inr st, fs') \<and> fs_dirs fs' = fs_dirs fs"
  using WriteFileAtomic_ok [of ex_os p _ fs]
  by (auto simp: begin_incarnation_def Let_def ex_platform_def ex_os_def)

lemma ex_dirs: "JoinPath ''/opp'' kStoreDirectoryName = ''/opp/plans''"
  by (simp add: JoinPath_def kStoreDirectoryName_def)

text \<open>A start in the directory, with no record or a readable one.\<close>

lemma ex_Start:
  assumes dirs: "fs_dirs fs = [''/opp'', ''/opp/plans'']"
    and found: "file_at fs (record_path ''/opp'') = None \<or> (\<exists>old. file_at fs (record_path ''/opp'') =
      Some (emit_lines (incarnation_lines old)) \<and> length (in_incarnation old) = 16 \<and> unat (in_epoch old) < 100)"
  shows "\<exists>sv fs'. Start ex_platform dc ex_service_options fs = (Inr sv, fs') \<and> fs_dirs fs' = fs_dirs fs"
proof -
  let ?lock = "JoinPath ''/opp'' ''service.lock''"
  define fs2 where "fs2 = (if FileExists ?lock fs then fs else put_file ?lock [] fs)"
  have platform: "pf_os ex_platform = ex_os" "vo_state_dir ex_service_options = ''/opp''"
    by (simp_all add: ex_platform_def ex_service_options_def)
  have lock: "Lock_Acquire ex_platform ?lock False fs = (OkStatus, True, fs2)"
    by (simp add: Lock_Acquire_def fs2_def ex_platform_def)
  have dirs2: "fs_dirs fs2 = fs_dirs fs" by (simp add: fs2_def)
  have same: "file_at fs2 (record_path ''/opp'') = file_at fs (record_path ''/opp'')"
    using paths_distinct(3) [of "''/opp''"] by (simp add: fs2_def)
  have ensure: "EnsureDirectory ex_os ''/opp'' fs2 = (OkStatus, fs2)" using dirs dirs2 by (simp add: EnsureDirectory_def)
  have "\<exists>st fs3. AdvanceIncarnation ex_platform ''/opp'' fs2 = (Inr st, fs3) \<and> fs_dirs fs3 = fs_dirs fs2"
  proof (cases "file_at fs (record_path ''/opp'') = None")
    case True
    then have "AdvanceIncarnation ex_platform ''/opp'' fs2 = begin_incarnation ex_platform (record_path ''/opp'') True 0 fs2"
      using ensure same by (simp add: AdvanceIncarnation_def ex_platform_def FileExists_def flip: record_path_def)
    then show ?thesis using ex_begin [of 0] by simp
  next
    case False
    then obtain old where old: "file_at fs2 (record_path ''/opp'') = Some (emit_lines (incarnation_lines old))"
        "length (in_incarnation old) = 16" "unat (in_epoch old) < 100"
      using found same by auto
    then have "previous_epoch ex_os (record_path ''/opp'') fs2 = Some (unat (in_epoch old))"
      using record_short [OF old(2)] record_split [OF old(2)] recorded_epoch_lines [OF old(2)]
      by (simp add: previous_epoch_def ReadFileBounded_def ex_os_def)
    then have "AdvanceIncarnation ex_platform ''/opp'' fs2 =
        begin_incarnation ex_platform (record_path ''/opp'') True (unat (in_epoch old)) fs2"
      using ensure old(1) by (simp add: AdvanceIncarnation_def ex_platform_def FileExists_def flip: record_path_def)
    then show ?thesis using ex_begin [OF old(3)] by simp
  qed
  then obtain st fs3 where adv: "AdvanceIncarnation ex_platform ''/opp'' fs2 = (Inr st, fs3)" "fs_dirs fs3 = fs_dirs fs2"
    by blast
  have "EnsureDirectory ex_os ''/opp'' fs3 = (OkStatus, fs3)" "EnsureDirectory ex_os ''/opp/plans'' fs3 = (OkStatus, fs3)"
    using dirs dirs2 adv(2) by (simp_all add: EnsureDirectory_def)
  then have opened: "Store_Open ex_os (store_options_for ex_service_options) fs3 =
      (Inr (store_options_for ex_service_options), CleanTemporariesLocked ex_os (store_options_for ex_service_options) fs3)"
    by (simp add: Store_Open_def store_options_for_def ex_service_options_def store_directory_def ex_dirs kMaxStoredPlans_def)
  have "\<exists>sv. open_listener ex_platform s = Inr sv" if "sv_options s = ex_service_options" for s
    using that by (simp add: open_listener_def kInvalidSocket_def ex_platform_def ex_service_options_def)
  then obtain sv where "open_listener ex_platform (restore_snapshot ex_platform dc
      (CleanTemporariesLocked ex_os (store_options_for ex_service_options) fs3)
      (new_service ex_service_options st (store_options_for ex_service_options))) = Inr sv"
    using restore_snapshot_simps(1) [of ex_platform dc] by (metis new_service_def Service.select_convs(1))
  with adv opened dirs have "Start ex_platform dc ex_service_options fs =
      (Inr sv, CleanTemporariesLocked ex_os (store_options_for ex_service_options) fs3)"
    using lock platform by (simp add: Start_def create_directories_def DirectoryExists_def)
  then show ?thesis using adv(2) dirs2 by (auto simp: CleanTemporaries_dirs)
qed

lemma ex_first_start:
  obtains sv fs where "Start ex_platform ex_chars ex_service_options ex_fs = (Inr sv, fs)" "fs_dirs fs = [''/opp'', ''/opp/plans'']"
  using ex_Start [of ex_fs ex_chars] ex_fs_empty(1) by (auto simp: ex_fs_def)

lemma ex_second_start:
  obtains a fs1 b fs2 where "Start ex_platform ex_chars ex_service_options ex_fs = (Inr a, fs1)"
    "Start ex_platform ex_chars ex_service_options fs1 = (Inr b, fs2)"
proof -
  obtain a fs1 where one: "Start ex_platform ex_chars ex_service_options ex_fs = (Inr a, fs1)" "fs_dirs fs1 = [''/opp'', ''/opp/plans'']"
    by (rule ex_first_start)
  have dir: "vo_state_dir ex_service_options = ''/opp''" by (simp add: ex_service_options_def)
  obtain fs2 fs3 where adv: "AdvanceIncarnation ex_platform ''/opp'' fs2 = (Inr (sv_incarnation a), fs3)"
      "file_at fs2 (record_path ''/opp'') = None" "file_at fs1 (record_path ''/opp'') = file_at fs3 (record_path ''/opp'')"
    using one(1) by (rule Start_Inr) (simp add: dir ex_fs_empty)
  have "unat (service_epoch a) = 1"
    using adv(1,2) EnsureDirectory_file_at [of "pf_os ex_platform" "''/opp''" fs2]
    by (auto simp: AdvanceIncarnation_def FileExists_def record_path_def Let_def split: prod.splits if_splits
        dest!: begin_incarnation_Inr)
  moreover note AdvanceIncarnation_record [OF adv(1)]
  ultimately have "\<exists>old. file_at fs1 (record_path ''/opp'') = Some (emit_lines (incarnation_lines old)) \<and>
      length (in_incarnation old) = 16 \<and> unat (in_epoch old) < 100"
    using adv(3) by (intro exI [of _ "sv_incarnation a"]) simp
  with ex_Start [OF one(2), of ex_chars] that one(1) show thesis by blast
qed

section \<open>Witnesses\<close>

definition ex_frame :: "Epoch \<Rightarrow> Frame" where
  "ex_frame pin = \<lparr>fr_kind = 1, fr_sequence = 9, fr_epoch_pin = pin, fr_payload = []\<rparr>"



definition ex_incarnation :: "nat \<Rightarrow> IncarnationState" where
  "ex_incarnation n = \<lparr>in_incarnation = replicate 16 5, in_epoch = of_nat n, in_epoch_continuity = True,
     in_started_unix_ms = 1000, in_process_id = 7\<rparr>"

definition ex_running :: Service where
  "ex_running = new_service ex_service_options (ex_incarnation 1) ex_store"

theorem Service_keeps_stored_plans_witness:
  "\<exists>fs. stored ex_chars (sv_store ex_running) fs (pl_digest ex_sealed_plan) = Some ex_sealed_plan \<and>
     stored ex_chars (sv_store (Shutdown ex_running)) fs (pl_digest ex_sealed_plan) = Some ex_sealed_plan"
proof -
  have "(service_step ex_libm ex_chars)\<^sup>*\<^sup>* (ex_running, fs, []) (Shutdown ex_running, fs, [])" for fs
    by (rule r_into_rtranclp) (rule service_step.stop)
  from Service_keeps_stored_plans [OF this] ex_put_stored show ?thesis
    by (fastforce simp: ex_running_def new_service_def)
qed

lemma ex_running_simps [simp]:
  "sv_options ex_running = ex_service_options" "\<not> sv_stopping ex_running" "sv_snapshot ex_running = None"
  "vo_max_frame_bytes ex_service_options = kMaxFrameBytes"
  by (simp_all add: ex_running_def new_service_def ex_service_options_def)


section \<open>A remote plan\<close>

definition ex_client :: ServiceClient where
  "ex_client = \<lparr>cl_host = [], cl_port = 4000, cl_max_frame_bytes = kMaxFrameBytes, cl_socket_handle = 3, cl_sequence = 0,
     cl_epoch_pin = 0\<rparr>"

definition one_segment :: "string \<Rightarrow> arrival list" where
  "one_segment bs = (if bs = [] then [] else [Bytes bs])"

definition ex_network :: network where
  "ex_network bs = Some (one_segment (concat (map EncodeFrame
     (fst (serve_loop ex_libm ex_os ex_chars (\<lambda>_. True) (one_segment bs) ex_running ex_fs)))))"

lemma one_segment [simp]: "flowing (one_segment bs)" "stream_bytes (one_segment bs) = bs"
  by (simp_all add: one_segment_def)

lemma ex_connects: "connects ex_libm ex_os ex_chars ex_running ex_fs ex_network"
  unfolding connects_def
  by (intro allI exI [of _ "one_segment bytes" for bytes] exI conjI) (simp_all add: ex_network_def)

lemma ex_may_call: "may_call ex_client ex_running"
  by (simp add: may_call_def ex_client_def kInvalidSocket_def)

lemma length_digests [simp]: "length (ComputeRequestDigest dc r) = 32" "length (result_text_digest dc res) = 32"
  by (simp_all add: ComputeRequestDigest_def result_text_digest_def Sha256_Finalize_def length_digest_of_state Let_def)

definition ex_answer :: PlanningResult where
  "ex_answer = no_snapshot_result ex_chars ex_text_request"

lemma ex_answer_tokens:
  "own_tokens ex_answer =
     [[''OPP-RESULT'', ''1''], [''outcome'', ''INDETERMINATE''],
      [''status'', ''NOT_FOUND'', keyed ''detail'' (EncodeToken ''no topology snapshot has been ingested by this incarnation'')],
      [''request-digest'', EncodeToken (ToHexImpl (ComputeRequestDigest ex_chars ex_text_request))],
      [''snapshot-digest'', EncodeToken (ToHexImpl zero_digest)],
      [''limitations'', FormatU64 (unat kLimitationStaleEvidence), keyed ''names'' (EncodeToken (DescribeLimitations kLimitationStaleEvidence))],
      [''optimality'', EncodeToken ''not_proven''], statistics_tokens no_statistics]"
proof -
  have "EncodeToken ''INDETERMINATE'' = ''INDETERMINATE''" "EncodeToken ''NOT_FOUND'' = ''NOT_FOUND''"
    using names_raw(1) [of OutIndeterminate] names_raw(2) [of NotFound] by simp_all
  then show ?thesis
    by (simp add: own_tokens_def result_head_tokens_def ex_answer_def no_snapshot_result_def SealResult_def empty_result_def
        Failure_def)
qed

definition ex_plain_tokens :: "string list list" where
  "ex_plain_tokens =
     [[''OPP-RESULT'', ''1''], [''outcome'', ''INDETERMINATE''],
      [''status'', ''NOT_FOUND'', keyed ''detail'' (EncodeToken ''no topology snapshot has been ingested by this incarnation'')],
      [''snapshot-digest'', EncodeToken (ToHexImpl zero_digest)],
      [''limitations'', FormatU64 (unat kLimitationStaleEvidence), keyed ''names'' (EncodeToken (DescribeLimitations kLimitationStaleEvidence))],
      [''optimality'', EncodeToken ''not_proven''], statistics_tokens no_statistics]"

lemma hex_token_short: "length d = 32 \<Longrightarrow> length k \<le> 20 \<Longrightarrow> short_line [k, ToHexImpl d]"
  by (simp add: short_line_def join_tokens.simps)

lemma ex_answer_short: "list_all short_line (own_tokens ex_answer)"
proof -
  have "list_all short_line ex_plain_tokens" by code_simp
  then show ?thesis unfolding ex_answer_tokens ex_plain_tokens_def by (simp add: hex_token_short)
qed

lemma ex_answer_in_grammar: "result_in_grammar ex_chars ex_answer"
proof -
  have "list_all line_fits (own_tokens ex_answer)"
    using ex_answer_short short_line_fits by (auto simp: list_all_iff)
  then show ?thesis
    by (simp add: result_in_grammar_def) (simp add: ex_answer_def no_snapshot_result_def SealResult_def empty_result_def
        zero_digest_def statistics_ok_def no_statistics_def)
qed

lemma ex_answer_length: "length (Result_CanonicalBytes ex_chars ex_answer) \<le> 2000"
proof -
  have "result_tokens ex_chars ex_answer = own_tokens ex_answer @ [seal_tokens ex_answer]"
    by (simp add: result_tokens_def ex_answer_def no_snapshot_result_def SealResult_def empty_result_def)
  moreover have "short_line (seal_tokens ex_answer)"
    using ex_answer_in_grammar by (simp add: seal_tokens_def result_in_grammar_def hex_token_short)
  ultimately have "list_all short_line (result_tokens ex_chars ex_answer)" "length (result_tokens ex_chars ex_answer) = 9"
    using ex_answer_short by (simp_all add: ex_answer_tokens)
  then show ?thesis
    using short_lines_length [of "result_tokens ex_chars ex_answer" "CHR 0x0A"] by (simp add: Result_text_tokens emit_lines_def)
qed

lemma ex_request_length: "length (RequestToText ex_chars ex_text_request) \<le> 6030"
proof -
  have "list_all short_line (request_tokens ex_chars ex_text_request)" "length (request_tokens ex_chars ex_text_request) \<le> 30"
    by code_simp+
  then show ?thesis
    using short_lines_length [of "request_tokens ex_chars ex_text_request" "CHR 0x0A"]
    by (simp add: RequestToText_tokens emit_lines_def)
qed


theorem Result_text_round_trip_witness:
  "ParseResultText ex_chars (Result_CanonicalBytes ex_chars ex_answer) = Inr ex_answer \<and> res_outcome ex_answer = OutIndeterminate"
  using Result_text_round_trip [OF ex_answer_in_grammar]
  by (simp add: ex_answer_def no_snapshot_result_def) (simp add: SealResult_def)

section \<open>A remote snapshot\<close>


end
