(* ===== verification/Synthetic.thy ===== *)
theory Synthetic
  imports Builder Tokens
begin

text \<open>
  The generator of synthetic networks and the fixed example network
  (\<open>include/opp/synthetic.hpp\<close>, \<open>src/synthetic.cpp\<close>).  Both are clients of the snapshot
  builder: a sequence of calls, each of which ends the run when it fails, and a final \<open>Build\<close>.
  The 32-bit arithmetic of node indices and the 64-bit arithmetic of the random number generator
  are kept at their width; what indexes a vector is a \<open>nat\<close>.
\<close>

definition kMaxGeneratedNodes :: nat where "kMaxGeneratedNodes = 4096"

section \<open>SplitMix64\<close>

record SplitMix64 =
  sm_state :: u64

definition kGoldenGamma :: u64 where
  "kGoldenGamma = 0x9E3779B97F4A7C15"

definition Next :: "SplitMix64 \<Rightarrow> u64 \<times> SplitMix64" where
  "Next random =
     (let state0 = sm_state random + kGoldenGamma;
          v1 = (state0 XOR drop_bit 30 state0) * 0xBF58476D1CE4E5B9;
          v2 = (v1 XOR drop_bit 27 v1) * 0x94D049BB133111EB
      in (v2 XOR drop_bit 31 v2, \<lparr>sm_state = state0\<rparr>))"

definition Below :: "u32 \<Rightarrow> SplitMix64 \<Rightarrow> u32 \<times> SplitMix64" where
  "Below bound random =
     (if bound = 0 then (0, random)
      else let (v, random') = Next random in (ucast (v mod ucast bound), random'))"

definition double_of :: "u64 \<Rightarrow> double" where
  "double_of v = fl (of_nat (unat v))"

definition UnitDouble :: "SplitMix64 \<Rightarrow> double \<times> SplitMix64" where
  "UnitDouble random =
     (let (v, random') = Next random
      in (dmul (double_of (drop_bit 11 v)) (Fin (1 / 9007199254740992)), random'))"

definition Numbered :: "string \<Rightarrow> nat \<Rightarrow> string" where
  "Numbered prefix index = prefix @ to_string index"

section \<open>Options\<close>

record SyntheticOptions =
  so_seed :: u64
  so_node_count :: u32
  so_degree :: u32
  so_slot_count :: u16
  so_grid :: GridKind
  so_client_ports :: u32
  so_include_regenerators :: bool
  so_slot_blocking_one_in :: u32
  so_publish_osnr :: bool
  so_publish_length :: bool
  so_generation :: Generation
  so_id :: string
  so_source_id :: string

definition default_synthetic_options :: SyntheticOptions where
  "default_synthetic_options =
     \<lparr>so_seed = 1, so_node_count = 8, so_degree = 3, so_slot_count = 32, so_grid = Fixed50GHz,
      so_client_ports = 2, so_include_regenerators = True, so_slot_blocking_one_in = 8,
      so_publish_osnr = True, so_publish_length = True, so_generation = 1, so_id = ''synthetic'',
      so_source_id = ''synthetic-generator''\<rparr>"

definition synthetic_status :: "SyntheticOptions \<Rightarrow> Status" where
  "synthetic_status options =
     first_failure
       [refuse_if (so_node_count options < 2) InvalidArgument ''a synthetic topology needs at least two nodes'',
        refuse_if (unat (so_node_count options) > kMaxGeneratedNodes) LimitExceeded
          ''the requested synthetic topology exceeds the node bound'',
        refuse_if (so_degree options < 2) InvalidArgument ''a synthetic topology needs a degree of at least two'',
        refuse_if (so_degree options \<ge> so_node_count options) InvalidArgument
          ''the requested degree is too large for the requested node count'',
        refuse_if (so_slot_count options = 0 \<or> unat (so_slot_count options) > kMaxSpectrumSlots) InvalidArgument
          ''the requested slot count is outside the supported range'',
        refuse_if (so_client_ports options = 0) InvalidArgument
          ''a synthetic topology needs at least one client port per node'']"

abbreviation node_total :: "SyntheticOptions \<Rightarrow> nat" where
  "node_total options \<equiv> unat (so_node_count options)"

section \<open>The graph\<close>

type_synonym edge = "nat \<times> nat"

definition add_edge :: "nat \<Rightarrow> nat \<Rightarrow> edge list \<Rightarrow> edge list" where
  "add_edge lhs rhs edges =
     (let edge = (min lhs rhs, max lhs rhs) in if edge \<in> set edges then edges else edges @ [edge])"

definition add_ring :: "SyntheticOptions \<Rightarrow> edge list \<Rightarrow> edge list" where
  "add_ring options edges =
     fold (\<lambda>i. add_edge i (unat ((of_nat i + 1) mod so_node_count options))) [0 ..< node_total options] edges"

definition stride :: "SyntheticOptions \<Rightarrow> u32" where
  "stride options = max 2 (so_node_count options div max 2 (so_degree options))"

definition chord_target :: "SyntheticOptions \<Rightarrow> nat \<Rightarrow> nat \<Rightarrow> nat" where
  "chord_target options hop i =
     unat ((of_nat i + stride options * (of_nat hop + 1)) mod so_node_count options)"

definition add_chords :: "SyntheticOptions \<Rightarrow> nat \<Rightarrow> edge list \<Rightarrow> edge list" where
  "add_chords options hop edges =
     fold (\<lambda>i es. let target = chord_target options hop i in if target \<noteq> i then add_edge i target es else es)
       [0 ..< node_total options] edges"

definition synthetic_edges :: "SyntheticOptions \<Rightarrow> edge list" where
  "synthetic_edges options =
     std_sort (<) (fold (add_chords options) [0 ..< unat (so_degree options)] (add_ring options []))"

definition synthetic_neighbours :: "SyntheticOptions \<Rightarrow> nat list list" where
  "synthetic_neighbours options =
     fold (\<lambda>(first, second) nb. push_at second first (push_at first second nb)) (synthetic_edges options)
       (replicate (node_total options) [])"

definition is_regenerator :: "SyntheticOptions \<Rightarrow> nat \<Rightarrow> bool" where
  "is_regenerator options index = (so_include_regenerators options \<and> index mod 5 = 4)"

section \<open>The records\<close>

definition synthetic_source :: SourceId where
  "synthetic_source = ''synthetic-generator''"

definition synthetic_profile :: ProfileId where
  "synthetic_profile = ''reach-synthetic''"

definition synthetic_source_record :: "SyntheticOptions \<Rightarrow> SourceRecord" where
  "synthetic_source_record options =
     \<lparr>src_id = synthetic_source, src_generation = so_generation options, src_coverage = Complete, src_description = []\<rparr>"

definition synthetic_profile_record :: "SyntheticOptions \<Rightarrow> ReachProfile" where
  "synthetic_profile_record options =
     \<lparr>rp_id = synthetic_profile, rp_max_distance_m = Known 800000, rp_max_span_count = Known 8,
      rp_max_loss_db = Known (Fin 60), rp_min_osnr_db = Known (Fin 12), rp_source = synthetic_source,
      rp_generation = so_generation options\<rparr>"

definition synthetic_node :: "SyntheticOptions \<Rightarrow> nat \<Rightarrow> NodeRecord" where
  "synthetic_node options i =
     \<lparr>nd_id = Numbered ''n'' i,
      nd_kind = (if is_regenerator options i then Regenerator else ReconfigurableOadm),
      nd_failure_domains = [Numbered ''site'' (i div 4), Numbered ''rack'' (i div 2)], nd_transit_cost = 1,
      nd_coverage = Complete, nd_admin = Known Up, nd_source = synthetic_source,
      nd_generation = so_generation options\<rparr>"

definition client_key :: "nat \<Rightarrow> nat \<Rightarrow> PortKey" where
  "client_key i client = PortKey (Numbered ''n'' i) (Numbered ''c'' client)"

definition line_key :: "nat \<Rightarrow> nat \<Rightarrow> PortKey" where
  "line_key i neighbour = PortKey (Numbered ''n'' i) (Numbered ''l'' neighbour)"

definition client_port :: "SyntheticOptions \<Rightarrow> nat \<Rightarrow> nat \<Rightarrow> PortRecord" where
  "client_port options i client =
     \<lparr>pt_key = client_key i client, pt_role = RoleClient, pt_transmit_profile = Known (Some synthetic_profile),
      pt_blocked_slots = Known Mask_None, pt_failure_domains = [Numbered ''rack'' (i div 2)],
      pt_transit_cost = 1, pt_admin = Known Up, pt_source = synthetic_source,
      pt_generation = so_generation options\<rparr>"

definition line_port :: "SyntheticOptions \<Rightarrow> nat \<Rightarrow> nat \<Rightarrow> PortRecord" where
  "line_port options i neighbour =
     \<lparr>pt_key = line_key i neighbour, pt_role = RoleLine,
      pt_transmit_profile = Known (if is_regenerator options i then Some synthetic_profile else None),
      pt_blocked_slots = Known Mask_None, pt_failure_domains = [Numbered ''rack'' (i div 2)],
      pt_transit_cost = 1, pt_admin = Known Up, pt_source = synthetic_source,
      pt_generation = so_generation options\<rparr>"

text \<open>The cross-connects of node \<open>i\<close> in the order the loops make them, and the record of each.\<close>

definition cross_connect_specs :: "SyntheticOptions \<Rightarrow> nat \<Rightarrow> (PortKey \<times> PortKey \<times> CrossConnectOp) list" where
  "cross_connect_specs options i =
     (let neighbours = synthetic_neighbours options ! i;
          op = (if is_regenerator options i then Regenerate else Express)
      in concat (map (\<lambda>client. concat (map (\<lambda>neighbour.
             [(client_key i client, line_key i neighbour, Express), (line_key i neighbour, client_key i client, Express)])
             neighbours)) [0 ..< unat (so_client_ports options)])
         @ concat (map (\<lambda>from_neighbour. concat (map (\<lambda>to_neighbour.
             if from_neighbour = to_neighbour then []
             else [(line_key i from_neighbour, line_key i to_neighbour, op)]) neighbours)) neighbours))"

definition cross_connect_id :: "nat \<Rightarrow> nat \<Rightarrow> CrossConnectId" where
  "cross_connect_id i counter = Numbered ''xc'' (unat (of_nat i * 1000 + of_nat counter :: u32))"

definition synthetic_cross_connect ::
  "SyntheticOptions \<Rightarrow> nat \<Rightarrow> nat \<times> PortKey \<times> PortKey \<times> CrossConnectOp \<Rightarrow> CrossConnectRecord" where
  "synthetic_cross_connect options i spec =
     (case spec of (counter, from, to, op) \<Rightarrow>
       \<lparr>cc_id = cross_connect_id i counter, cc_from = from, cc_to = to, cc_op = op,
        cc_blocked_slots = Known Mask_None, cc_failure_domains = [Numbered ''rack'' (i div 2)], cc_cost = 1,
        cc_admin = Known Up, cc_source = synthetic_source, cc_generation = so_generation options\<rparr>)"

definition node_cross_connects :: "SyntheticOptions \<Rightarrow> nat \<Rightarrow> CrossConnectRecord list" where
  "node_cross_connects options i =
     map (synthetic_cross_connect options i) (enumerate 0 (cross_connect_specs options i))"

text \<open>The slots a span blocks: one draw for each slot, mixed with the slot number.\<close>

definition draw_slot :: "u32 \<Rightarrow> nat \<Rightarrow> SlotMask \<times> SplitMix64 \<Rightarrow> SlotMask \<times> SplitMix64" where
  "draw_slot one_in slot s =
     (let (v, random) = Next (snd s); mixed = v XOR (of_nat slot * kGoldenGamma)
      in (if mixed mod ucast one_in = 0 then Mask_Set slot (fst s) else fst s, random))"

definition draw_blocked :: "SyntheticOptions \<Rightarrow> SplitMix64 \<Rightarrow> SlotMask \<times> SplitMix64" where
  "draw_blocked options random =
     (if so_slot_blocking_one_in options > 0
      then fold (draw_slot (so_slot_blocking_one_in options)) [0 ..< unat (so_slot_count options)] (Mask_None, random)
      else (Mask_None, random))"

definition draw_osnr :: "SyntheticOptions \<Rightarrow> SplitMix64 \<Rightarrow> double Evidence \<times> SplitMix64" where
  "draw_osnr options random =
     (if so_publish_osnr options
      then let (unit, random') = UnitDouble random in (Known (dadd (Fin 26) (dmul unit (Fin 8))), random')
      else (Unknown, random))"

definition edge_name :: "string \<Rightarrow> edge \<Rightarrow> string" where
  "edge_name prefix edge = prefix @ to_string (fst edge) @ ''-'' @ to_string (snd edge)"

definition span_seed :: "SyntheticOptions \<Rightarrow> edge \<Rightarrow> u64" where
  "span_seed options edge = so_seed options * 1000003 + of_nat (fst edge) * 1009 + of_nat (snd edge)"

definition synthetic_span :: "SyntheticOptions \<Rightarrow> edge \<Rightarrow> SpanRecord" where
  "synthetic_span options edge =
     (let random0 = \<lparr>sm_state = span_seed options edge\<rparr>;
          (extra, random1) = Below 100000 random0;
          length_m = (20000 + ucast extra :: u64);
          (osnr, random2) = draw_osnr options random1;
          (blocked, random3) = draw_blocked options random2;
          (weight, random4) = Below 3 random3
      in \<lparr>sp_id = edge_name ''s'' edge, sp_from = line_key (fst edge) (snd edge),
          sp_to = line_key (snd edge) (fst edge), sp_bidirectional = True,
          sp_length_m = (if so_publish_length options then Known length_m else Unknown),
          sp_loss_db = Known (dmul (double_of length_m) (fl (2 / 10000))), sp_osnr_db = osnr,
          sp_blocked_slots = Known blocked, sp_failure_domains = [edge_name ''span'' edge],
          sp_cost = 1 + ucast weight, sp_admin = Known Up, sp_source = synthetic_source,
          sp_generation = so_generation options\<rparr>)"

section \<open>Runs of builder calls\<close>

datatype builder_call =
    CallSource SourceRecord | CallNode NodeRecord | CallPort PortRecord | CallSpan SpanRecord
  | CallCrossConnect CrossConnectRecord | CallProfile ReachProfile

fun call :: "builder_call \<Rightarrow> SnapshotBuilder \<Rightarrow> Status \<times> SnapshotBuilder" where
  "call (CallSource r) = AddSource r"
| "call (CallNode r) = AddNode r"
| "call (CallPort r) = AddPort r"
| "call (CallSpan r) = AddSpan r"
| "call (CallCrossConnect r) = AddCrossConnect r"
| "call (CallProfile r) = AddReachProfile r"

text \<open>\<open>status = builder.Add...(...); if (status.failed()) return status;\<close>, repeated.\<close>

fun run_calls :: "builder_call list \<Rightarrow> SnapshotBuilder \<Rightarrow> Status \<times> SnapshotBuilder" where
  "run_calls [] b = (OkStatus, b)"
| "run_calls (c # cs) b = (let (status, b') = call c b in if failed status then (status, b') else run_calls cs b')"

definition build_from ::
  "(TopologySnapshot \<Rightarrow> Digest256) \<Rightarrow> SnapshotBuilder \<Rightarrow> builder_call list \<Rightarrow> TopologySnapshot expected" where
  "build_from digest b calls =
     (let (status, b') = run_calls calls b in if failed status then Inl status else fst (Build digest b'))"

section \<open>GenerateSyntheticTopology\<close>

definition node_ports :: "SyntheticOptions \<Rightarrow> nat \<Rightarrow> PortRecord list" where
  "node_ports options i =
     map (client_port options i) [0 ..< unat (so_client_ports options)]
     @ map (line_port options i) (synthetic_neighbours options ! i)"

definition node_calls :: "SyntheticOptions \<Rightarrow> nat \<Rightarrow> builder_call list" where
  "node_calls options i = CallNode (synthetic_node options i) # map CallPort (node_ports options i)"

definition synthetic_calls :: "SyntheticOptions \<Rightarrow> builder_call list" where
  "synthetic_calls options =
     CallSource (synthetic_source_record options) # CallProfile (synthetic_profile_record options)
     # concat (map (node_calls options) [0 ..< node_total options])
     @ concat (map (\<lambda>i. map CallCrossConnect (node_cross_connects options i)) [0 ..< node_total options])
     @ map (CallSpan \<circ> synthetic_span options) (synthetic_edges options)"

definition synthetic_builder :: "SyntheticOptions \<Rightarrow> SnapshotBuilder" where
  "synthetic_builder options =
     SetSpectrum \<lparr>grid = so_grid options, slot_count = so_slot_count options\<rparr>
       (SetGeneration (so_generation options)
         (SetId (case ParseId (so_id options) of Inr i \<Rightarrow> i | Inl _ \<Rightarrow> ''synthetic'') (new_builder default_options)))"

definition GenerateSyntheticTopology ::
  "(TopologySnapshot \<Rightarrow> Digest256) \<Rightarrow> SyntheticOptions \<Rightarrow> TopologySnapshot expected" where
  "GenerateSyntheticTopology digest options =
     (if failed (synthetic_status options) then Inl (synthetic_status options)
      else build_from digest (synthetic_builder options) (synthetic_calls options))"

section \<open>BuildExampleTopology\<close>

definition example_source :: SourceId where
  "example_source = ''example-evidence''"

definition example_profile :: ProfileId where
  "example_profile = ''reach-400km''"

definition example_site :: "nat \<Rightarrow> FailureDomainId" where
  "example_site i = (if i = 1 then ''site-b'' else ''site-a'')"

definition example_nodes :: "NodeId list" where
  "example_nodes = [''a'', ''b'', ''c'']"

definition example_node :: "nat \<Rightarrow> NodeRecord" where
  "example_node i =
     \<lparr>nd_id = example_nodes ! i, nd_kind = ReconfigurableOadm, nd_failure_domains = [example_site i],
      nd_transit_cost = 1, nd_coverage = Complete, nd_admin = Known Up, nd_source = example_source,
      nd_generation = 7\<rparr>"

definition example_port :: "nat \<Rightarrow> string \<Rightarrow> PortRecord" where
  "example_port i port_name =
     (let client = (port_name = ''in'' \<or> port_name = ''out'')
      in \<lparr>pt_key = PortKey (example_nodes ! i) port_name, pt_role = (if client then RoleClient else RoleLine),
          pt_transmit_profile = Known (if client then Some example_profile else None),
          pt_blocked_slots = Known Mask_None, pt_failure_domains = [example_site i], pt_transit_cost = 1,
          pt_admin = Known Up, pt_source = example_source, pt_generation = 7\<rparr>)"

definition example_cross_connect :: "CrossConnectId \<times> NodeId \<times> PortId \<times> PortId \<Rightarrow> CrossConnectRecord" where
  "example_cross_connect spec =
     (case spec of (i, node, from, to) \<Rightarrow>
       \<lparr>cc_id = i, cc_from = PortKey node from, cc_to = PortKey node to, cc_op = Express,
        cc_blocked_slots = Known Mask_None, cc_failure_domains = [], cc_cost = 1, cc_admin = Known Up,
        cc_source = example_source, cc_generation = 7\<rparr>)"

definition example_cross_connects :: "(CrossConnectId \<times> NodeId \<times> PortId \<times> PortId) list" where
  "example_cross_connects =
     [(''xa1'', ''a'', ''in'', ''east''), (''xa2'', ''a'', ''in'', ''west''), (''xa3'', ''a'', ''west'', ''out''),
      (''xb1'', ''b'', ''west'', ''east''), (''xb2'', ''b'', ''east'', ''west''), (''xb3'', ''b'', ''west'', ''out''),
      (''xc1'', ''c'', ''west'', ''out''), (''xc2'', ''c'', ''east'', ''out'')]"

record SpanSpec =
  ss_id :: SpanId
  ss_from :: PortKey
  ss_to :: PortKey
  ss_length_m :: u64
  ss_loss_db :: rat
  ss_osnr_db :: rat
  ss_domain :: FailureDomainId
  ss_cost :: u64

definition example_spans :: "SpanSpec list" where
  "example_spans =
     [\<lparr>ss_id = ''s-ab'', ss_from = PortKey ''a'' ''east'', ss_to = PortKey ''b'' ''west'', ss_length_m = 80000,
       ss_loss_db = 12, ss_osnr_db = 30, ss_domain = ''span-ab'', ss_cost = 3\<rparr>,
      \<lparr>ss_id = ''s-bc'', ss_from = PortKey ''b'' ''east'', ss_to = PortKey ''c'' ''west'', ss_length_m = 120000,
       ss_loss_db = 14, ss_osnr_db = 28, ss_domain = ''span-bc'', ss_cost = 4\<rparr>,
      \<lparr>ss_id = ''s-ac'', ss_from = PortKey ''a'' ''west'', ss_to = PortKey ''c'' ''east'', ss_length_m = 260000,
       ss_loss_db = 40, ss_osnr_db = 22, ss_domain = ''span-ac'', ss_cost = 2\<rparr>]"

definition example_span :: "SpanSpec \<Rightarrow> SpanRecord" where
  "example_span spec =
     \<lparr>sp_id = ss_id spec, sp_from = ss_from spec, sp_to = ss_to spec, sp_bidirectional = True,
      sp_length_m = Known (ss_length_m spec), sp_loss_db = Known (Fin (ss_loss_db spec)),
      sp_osnr_db = Known (Fin (ss_osnr_db spec)), sp_blocked_slots = Known Mask_None,
      sp_failure_domains = [ss_domain spec], sp_cost = ss_cost spec, sp_admin = Known Up,
      sp_source = example_source, sp_generation = 7\<rparr>"

definition example_calls :: "builder_call list" where
  "example_calls =
     CallSource \<lparr>src_id = example_source, src_generation = 7, src_coverage = Complete, src_description = []\<rparr>
     # CallProfile \<lparr>rp_id = example_profile, rp_max_distance_m = Known 400000, rp_max_span_count = Known 4,
         rp_max_loss_db = Known (Fin 30), rp_min_osnr_db = Known (Fin 14), rp_source = example_source, rp_generation = 7\<rparr>
     # map (CallNode \<circ> example_node) [0 ..< 3]
     @ concat (map (\<lambda>i. map (CallPort \<circ> example_port i) [''in'', ''out'', ''east'', ''west'']) [0 ..< 3])
     @ map (CallCrossConnect \<circ> example_cross_connect) example_cross_connects
     @ map (CallSpan \<circ> example_span) example_spans"

definition example_builder :: SnapshotBuilder where
  "example_builder =
     SetSpectrum \<lparr>grid = Fixed50GHz, slot_count = 8\<rparr>
       (SetGeneration 42 (SetId ''example'' (new_builder default_options)))"

definition BuildExampleTopology :: "(TopologySnapshot \<Rightarrow> Digest256) \<Rightarrow> TopologySnapshot expected" where
  "BuildExampleTopology digest = build_from digest example_builder example_calls"

end
