(* ===== verification/Build_Complete.thy ===== *)
theory Build_Complete
  imports Builder
begin

text \<open>
  When a builder seals: records with pairwise different identities, published values in range and
  ends that have records are sealed without conflict, without dangling reference and with the claim
  of complete coverage.  This is the contract the clients of the builder that make their own networks
  rely on.
\<close>

section \<open>Tables without duplicates\<close>

lemma dedup_from_distinct: "distinct (map key (prev # rs)) \<Longrightarrow> dedup_from key res prev rs = (rs, [])"
  by (induction rs arbitrary: prev) auto

lemma dedup_distinct: "distinct (map key rs) \<Longrightarrow> dedup key res rs = (rs, [])"
  by (cases rs) (auto simp: dedup_from_distinct)

lemma distinct_map_std_sort [simp]: "distinct (map f (std_sort lt xs)) = distinct (map f xs)"
proof -
  have "mset (map f (std_sort lt xs)) = mset (map f xs)" by simp
  then show ?thesis by (rule mset_eq_imp_distinct_iff)
qed

lemma SortAndDeduplicate_distinct:
  "distinct (map key rs) \<Longrightarrow> SortAndDeduplicate lt key res rs = (std_sort lt rs, [])"
  by (simp add: SortAndDeduplicate_def dedup_distinct)

lemma canonical_distinct:
  "distinct (map nd_id ns) \<Longrightarrow> canonical_nodes ns =
     (std_sort (\<lambda>l r. nd_id l < nd_id r) (map (\<lambda>n. n\<lparr>nd_failure_domains := normal_domains (nd_failure_domains n)\<rparr>) ns), [])"
  "distinct (map pt_key ps) \<Longrightarrow> canonical_ports ps =
     (std_sort (\<lambda>l r. pt_key l < pt_key r) (map (\<lambda>p. p\<lparr>pt_failure_domains := normal_domains (pt_failure_domains p)\<rparr>) ps), [])"
  "distinct (map sp_id ss) \<Longrightarrow> canonical_spans ss =
     (std_sort span_less (map (\<lambda>s. s\<lparr>sp_failure_domains := normal_domains (sp_failure_domains s)\<rparr>) ss), [])"
  "distinct (map cc_id cs) \<Longrightarrow> canonical_cross_connects cs =
     (std_sort cross_connect_less (map (\<lambda>c. c\<lparr>cc_failure_domains := normal_domains (cc_failure_domains c)\<rparr>) cs), [])"
  "distinct (map rp_id rs) \<Longrightarrow> canonical_profiles rs = (std_sort (\<lambda>l r. rp_id l < rp_id r) rs, [])"
  by (simp_all add: canonical_nodes_def canonical_ports_def canonical_spans_def canonical_cross_connects_def
      canonical_profiles_def SortAndDeduplicate_distinct comp_def)

section \<open>Adjacency without dangling references\<close>

lemma port_nodes_noted_iff:
  "a_unresolved (fold (note_port_node nodes ports) [0 ..< n] a) = [] \<longleftrightarrow>
     a_unresolved a = [] \<and> (\<forall>i < n. lookup_index nd_id nodes (pk_node (pt_key (ports ! i))) \<noteq> None)"
  by (induction n) (auto simp: less_Suc_eq)

lemma span_ends_noted_iff:
  "a_unresolved (fold (add_span_arcs ports spans) [0 ..< n] a) = [] \<longleftrightarrow>
     a_unresolved a = [] \<and> (\<forall>i < n. resolves ports (sp_from (spans ! i)) \<and> resolves ports (sp_to (spans ! i)))"
  by (induction n) (auto simp: less_Suc_eq)

lemma cc_ends_noted_iff:
  "a_unresolved (fold (add_cross_connect ports ccs) [0 ..< n] a) = [] \<longleftrightarrow>
     a_unresolved a = [] \<and> (\<forall>i < n. resolves ports (cc_from (ccs ! i)) \<and> resolves ports (cc_to (ccs ! i)))"
  by (induction n) (auto simp: less_Suc_eq)

lemma table_lookup:
  assumes "sorted (map key xs)" "v \<in> key ` set xs"
  shows "lookup_index key xs v \<noteq> None"
proof -
  obtain i where "i < length xs" "key (xs ! i) = v" using assms(2) by (auto simp: in_set_conv_nth)
  from takeWhile_less_sorted [OF assms(1) this] show ?thesis by (simp add: lookup_index_def)
qed

lemma build_adjacency_resolved:
  assumes "sorted (map nd_id nodes)" "sorted (map pt_key ports)"
    and "\<forall>p \<in> set ports. pk_node (pt_key p) \<in> nd_id ` set nodes"
    and "\<forall>x \<in> set spans. sp_from x \<in> pt_key ` set ports \<and> sp_to x \<in> pt_key ` set ports"
    and "\<forall>c \<in> set ccs. cc_from c \<in> pt_key ` set ports \<and> cc_to c \<in> pt_key ` set ports"
  shows "a_unresolved (build_adjacency nodes ports spans ccs) = []"
proof -
  have "\<forall>i < length ports. lookup_index nd_id nodes (pk_node (pt_key (ports ! i))) \<noteq> None"
    using assms(3) table_lookup [OF assms(1)] by simp
  moreover have "\<forall>i < length spans. resolves ports (sp_from (spans ! i)) \<and> resolves ports (sp_to (spans ! i))"
    using assms(4) table_lookup [OF assms(2)] by (simp add: resolves_def)
  moreover have "\<forall>i < length ccs. resolves ports (cc_from (ccs ! i)) \<and> resolves ports (cc_to (ccs ! i))"
    using assms(5) table_lookup [OF assms(2)] by (simp add: resolves_def)
  ultimately show ?thesis
    by (simp add: build_adjacency_def Let_def cc_ends_noted_iff span_ends_noted_iff port_nodes_noted_iff del: not_None_eq)
qed

section \<open>Sealing\<close>

definition identities_distinct :: "SnapshotBuilder \<Rightarrow> bool" where
  "identities_distinct b \<longleftrightarrow>
     distinct (map nd_id (b_nodes b)) \<and> distinct (map pt_key (b_ports b)) \<and> distinct (map sp_id (b_spans b)) \<and>
     distinct (map cc_id (b_cross_connects b)) \<and> distinct (map rp_id (b_profiles b))"

definition ends_recorded :: "SnapshotBuilder \<Rightarrow> bool" where
  "ends_recorded b \<longleftrightarrow>
     (\<forall>p \<in> set (b_ports b). pk_node (pt_key p) \<in> nd_id ` set (b_nodes b)) \<and>
     (\<forall>x \<in> set (b_spans b). sp_from x \<in> pt_key ` set (b_ports b) \<and> sp_to x \<in> pt_key ` set (b_ports b) \<and>
        sp_from x \<noteq> sp_to x) \<and>
     (\<forall>c \<in> set (b_cross_connects b). cc_from c \<in> pt_key ` set (b_ports b) \<and> cc_to c \<in> pt_key ` set (b_ports b) \<and>
        cc_from c \<noteq> cc_to c)"

definition declared_complete :: "SnapshotBuilder \<Rightarrow> bool" where
  "declared_complete b \<longleftrightarrow>
     (\<forall>r \<in> set (b_sources b). src_coverage r = Complete) \<and> (\<forall>n \<in> set (b_nodes b). nd_coverage n = Complete)"

text \<open>What a client sees of the snapshot: the counts, the identities and the spans it asked for.\<close>

definition sealed_from :: "SnapshotBuilder \<Rightarrow> TopologySnapshot \<Rightarrow> bool" where
  "sealed_from b s \<longleftrightarrow>
     s_id s = b_id b \<and> s_generation s = b_generation b \<and> s_spectrum s = b_spectrum b \<and>
     length (s_nodes s) = length (b_nodes b) \<and> nd_id ` set (s_nodes s) = nd_id ` set (b_nodes b) \<and>
     length (s_ports s) = length (b_ports b) \<and> pt_key ` set (s_ports s) = pt_key ` set (b_ports b) \<and>
     length (s_spans s) = length (b_spans b) \<and> length (s_cross_connects s) = length (b_cross_connects b) \<and>
     (\<lambda>x. (sp_from x, sp_to x)) ` set (s_spans s) = (\<lambda>x. (sp_from x, sp_to x)) ` set (b_spans b)"

lemma assemble_complete:
  assumes ids: "identities_distinct b" and ends: "ends_recorded b" and complete: "declared_complete b"
  shows "\<exists>s. assemble b = Inr s \<and> sealed_from b s \<and> s_coverage_complete s \<and> s_conflicted s = [] \<and> s_unresolved s = []"
proof -
  define nodes where "nodes = std_sort (\<lambda>l r. nd_id l < nd_id r)
    (map (\<lambda>n. n\<lparr>nd_failure_domains := normal_domains (nd_failure_domains n)\<rparr>) (b_nodes b))"
  define ports where "ports = std_sort (\<lambda>l r. pt_key l < pt_key r)
    (map (\<lambda>p. p\<lparr>pt_failure_domains := normal_domains (pt_failure_domains p)\<rparr>) (b_ports b))"
  define spans where "spans = std_sort span_less
    (map (\<lambda>s. s\<lparr>sp_failure_domains := normal_domains (sp_failure_domains s)\<rparr>) (b_spans b))"
  define ccs where "ccs = std_sort cross_connect_less
    (map (\<lambda>c. c\<lparr>cc_failure_domains := normal_domains (cc_failure_domains c)\<rparr>) (b_cross_connects b))"
  note defs = nodes_def ports_def spans_def ccs_def
  have canonical: "canonical_nodes (b_nodes b) = (nodes, [])" "canonical_ports (b_ports b) = (ports, [])"
    "canonical_spans (b_spans b) = (spans, [])" "canonical_cross_connects (b_cross_connects b) = (ccs, [])"
    "canonical_profiles (b_profiles b) = (std_sort (\<lambda>l r. rp_id l < rp_id r) (b_profiles b), [])"
    using ids by (simp_all add: identities_distinct_def canonical_distinct defs)
  have tables: "nd_id ` set nodes = nd_id ` set (b_nodes b)" "pt_key ` set ports = pt_key ` set (b_ports b)"
    by (simp_all add: defs image_image)
  have "a_unresolved (build_adjacency nodes ports spans ccs) = []"
  proof (rule build_adjacency_resolved)
    show "sorted (map nd_id nodes)" "sorted (map pt_key ports)" unfolding defs by (rule sorted_key_std_sort)+
    show "\<forall>p \<in> set ports. pk_node (pt_key p) \<in> nd_id ` set nodes"
      unfolding tables using ends by (auto simp: defs ends_recorded_def)
    show "\<forall>x \<in> set spans. sp_from x \<in> pt_key ` set ports \<and> sp_to x \<in> pt_key ` set ports"
      unfolding tables using ends by (auto simp: spans_def ends_recorded_def)
    show "\<forall>c \<in> set ccs. cc_from c \<in> pt_key ` set ports \<and> cc_to c \<in> pt_key ` set ports"
      unfolding tables using ends by (auto simp: ccs_def ends_recorded_def)
  qed
  moreover have "\<not> failed (self_loop_status (b_options b) spans ccs)"
    using ends by (auto simp: self_loop_status_def defs ends_recorded_def)
  moreover have "sort_unique ([] :: ResourceKey list) = []" by (simp add: std_sort_def)
  moreover have "\<forall>n \<in> set nodes. nd_coverage n = Complete" "\<forall>r \<in> set (b_sources b). src_coverage r = Complete"
    using complete by (auto simp: defs declared_complete_def)
  ultimately show ?thesis
    using tables
    by (simp add: assemble_def canonical Let_def coverage_claim_def list_all_iff sealed_from_def)
       (simp add: defs image_image)
qed

lemma Build_complete:
  assumes "\<not> b_built b" "\<not> failed (build_status b)"
    and "identities_distinct b" "ends_recorded b" "declared_complete b"
  shows "\<exists>s. fst (Build digest b) = Inr s \<and> sealed_from b s \<and> s_coverage_complete s \<and> s_conflicted s = [] \<and> s_unresolved s = []"
proof -
  obtain s where "assemble b = Inr s" "sealed_from b s" "s_coverage_complete s" "s_conflicted s = []" "s_unresolved s = []"
    using assemble_complete [OF assms(3-5)] by blast
  then show ?thesis using assms(1,2) by (simp add: Build_def Let_def sealed_from_def)
qed

end
