(* ===== verification/Synthetic_Props.thy ===== *)
theory Synthetic_Props
  imports Synthetic Build_Complete
begin

text \<open>
  The generator of synthetic networks is correct: a run of builder calls adds exactly its records or
  stops at a bound; the graph is a simple graph that contains the ring; identities do not collide; the
  drawn values are within the ranges the builder checks.
\<close>

section \<open>Runs of builder calls\<close>

definition records_of :: "(builder_call \<Rightarrow> 'r list) \<Rightarrow> builder_call list \<Rightarrow> 'r list" where
  "records_of f cs = concat (map f cs)"

lemma records_of_simps [simp]:
  "records_of f [] = []" "records_of f (c # cs) = f c @ records_of f cs"
  "records_of f (cs @ ds) = records_of f cs @ records_of f ds"
  by (simp_all add: records_of_def)

lemma records_of_map: "(\<And>x. f (g x) = [h x]) \<Longrightarrow> records_of f (map g xs) = map h xs"
  by (induction xs) simp_all

lemma records_of_map_Nil: "(\<And>x. f (g x) = []) \<Longrightarrow> records_of f (map g xs) = []"
  by (induction xs) simp_all

lemma records_of_concat: "records_of f (concat (map g xs)) = concat (map (\<lambda>x. records_of f (g x)) xs)"
  by (induction xs) simp_all

fun source_records :: "builder_call \<Rightarrow> SourceRecord list" where
  "source_records (CallSource r) = [r]" | "source_records _ = []"

fun node_records :: "builder_call \<Rightarrow> NodeRecord list" where
  "node_records (CallNode r) = [r]" | "node_records _ = []"

fun port_records :: "builder_call \<Rightarrow> PortRecord list" where
  "port_records (CallPort r) = [r]" | "port_records _ = []"

fun span_records :: "builder_call \<Rightarrow> SpanRecord list" where
  "span_records (CallSpan r) = [r]" | "span_records _ = []"

fun cross_connect_records :: "builder_call \<Rightarrow> CrossConnectRecord list" where
  "cross_connect_records (CallCrossConnect r) = [r]" | "cross_connect_records _ = []"

fun profile_records :: "builder_call \<Rightarrow> ReachProfile list" where
  "profile_records (CallProfile r) = [r]" | "profile_records _ = []"

definition after_calls :: "builder_call list \<Rightarrow> SnapshotBuilder \<Rightarrow> SnapshotBuilder" where
  "after_calls cs b =
     b\<lparr>b_sources := b_sources b @ records_of source_records cs, b_nodes := b_nodes b @ records_of node_records cs,
       b_ports := b_ports b @ records_of port_records cs, b_spans := b_spans b @ records_of span_records cs,
       b_cross_connects := b_cross_connects b @ records_of cross_connect_records cs,
       b_profiles := b_profiles b @ records_of profile_records cs\<rparr>"

fun call_named :: "builder_call \<Rightarrow> bool" where
  "call_named (CallSource r) = (src_id r \<noteq> [])"
| "call_named (CallNode r) = (nd_id r \<noteq> [])"
| "call_named (CallPort r) = (pk_node (pt_key r) \<noteq> [] \<and> pk_port (pt_key r) \<noteq> [])"
| "call_named (CallSpan r) = (sp_id r \<noteq> [])"
| "call_named (CallCrossConnect r) = (cc_id r \<noteq> [])"
| "call_named (CallProfile r) = (rp_id r \<noteq> [])"

definition tables_bounded :: "SnapshotBuilder \<Rightarrow> bool" where
  "tables_bounded b \<longleftrightarrow>
     length (b_sources b) \<le> kMaxSources \<and> length (b_nodes b) \<le> kMaxNodes \<and> length (b_ports b) \<le> kMaxPorts \<and>
     length (b_spans b) \<le> kMaxSpans \<and> length (b_cross_connects b) \<le> kMaxCrossConnects \<and>
     length (b_profiles b) \<le> kMaxReachProfiles"

lemma add_guard_named:
  "\<not> b_built b \<Longrightarrow> add_guard b False d n bound e = refuse_if (bound \<le> n) LimitExceeded e"
  by (simp add: add_guard_def first_failure_Cons refuse_if_def) (simp add: first_failure_def)

text \<open>A named record is added unless its table is full.\<close>

lemma call_bounded:
  assumes "\<not> b_built b" "call_named c" "tables_bounded (after_calls [c] b)"
  shows "call c b = (OkStatus, after_calls [c] b)"
  using assms
  by (cases c) (simp_all add: add_defs Let_def add_guard_named refuse_if_def after_calls_def tables_bounded_def)

lemma call_refused:
  assumes "\<not> b_built b" "call_named c" "tables_bounded b" "\<not> tables_bounded (after_calls [c] b)"
  shows "code (fst (call c b)) = LimitExceeded"
  using assms
  by (cases c) (simp_all add: add_defs Let_def add_guard_named refuse_if_def after_calls_def tables_bounded_def)

lemma after_calls_Cons: "after_calls (c # cs) b = after_calls cs (after_calls [c] b)"
  by (simp add: after_calls_def)

lemma after_calls_Nil [simp]: "after_calls [] b = b"
  by (simp add: after_calls_def)

lemma after_calls_built [simp]: "b_built (after_calls cs b) = b_built b"
  by (simp add: after_calls_def)

lemma tables_bounded_after: "tables_bounded (after_calls cs b) \<Longrightarrow> tables_bounded b"
  by (simp add: tables_bounded_def after_calls_def)

text \<open>A run of named calls adds all its records when they fit, and is refused at a bound otherwise.\<close>

lemma run_calls_fits:
  assumes "\<not> b_built b" "\<forall>c \<in> set cs. call_named c" "tables_bounded (after_calls cs b)"
  shows "run_calls cs b = (OkStatus, after_calls cs b)"
  using assms
proof (induction cs arbitrary: b)
  case (Cons c cs)
  have "tables_bounded (after_calls cs (after_calls [c] b))" using Cons.prems(3) by (subst (asm) after_calls_Cons)
  moreover from this have "tables_bounded (after_calls [c] b)" by (rule tables_bounded_after)
  ultimately show ?case
    using Cons call_bounded [of b c] by (simp add: after_calls_Cons [of c cs])
qed simp

lemma run_calls_refused:
  assumes "\<not> b_built b" "\<forall>c \<in> set cs. call_named c" "tables_bounded b" "\<not> tables_bounded (after_calls cs b)"
  shows "code (fst (run_calls cs b)) = LimitExceeded"
  using assms
proof (induction cs arbitrary: b)
  case (Cons c cs)
  show ?case
  proof (cases "tables_bounded (after_calls [c] b)")
    case True
    then have "call c b = (OkStatus, after_calls [c] b)" using Cons.prems by (intro call_bounded) simp_all
    moreover have "\<not> tables_bounded (after_calls cs (after_calls [c] b))"
      using Cons.prems(4) by (subst (asm) after_calls_Cons)
    ultimately show ?thesis using Cons.IH [of "after_calls [c] b"] Cons.prems True by simp
  next
    case False
    then have "code (fst (call c b)) = LimitExceeded" using Cons.prems by (intro call_refused) simp_all
    then show ?thesis by (cases "call c b") (simp add: failed_def)
  qed
qed simp

lemma build_from_fits:
  assumes "\<not> b_built b" "\<forall>c \<in> set cs. call_named c" "tables_bounded (after_calls cs b)"
  shows "build_from digest b cs = fst (Build digest (after_calls cs b))"
  using run_calls_fits [OF assms] by (simp add: build_from_def)

lemma build_from_refused:
  assumes "\<not> b_built b" "\<forall>c \<in> set cs. call_named c" "tables_bounded b" "\<not> tables_bounded (after_calls cs b)"
  shows "\<exists>status. build_from digest b cs = Inl status \<and> code status = LimitExceeded"
  using run_calls_refused [OF assms] by (cases "run_calls cs b") (simp add: build_from_def failed_def)

section \<open>The graph\<close>

definition simple_edges :: "nat \<Rightarrow> edge list \<Rightarrow> bool" where
  "simple_edges n es \<longleftrightarrow> distinct es \<and> (\<forall>(a, b) \<in> set es. a < b \<and> b < n)"

lemma set_add_edge: "set (add_edge l r es) = insert (min l r, max l r) (set es)"
  by (auto simp: add_edge_def Let_def)

lemma simple_add_edge:
  assumes "simple_edges n es" "l < n" "r < n" "l \<noteq> r"
  shows "simple_edges n (add_edge l r es)"
  using assms by (auto simp: simple_edges_def add_edge_def Let_def)

lemma fold_grows:
  assumes "\<And>i es. set es \<subseteq> set (f i es)"
  shows "set es \<subseteq> set (fold f is es)"
  using assms by (induction "is" arbitrary: es) (simp, fastforce)

lemma fold_keeps:
  assumes "\<And>i es. i \<in> set is \<Longrightarrow> P es \<Longrightarrow> P (f i es)" "P es"
  shows "P (fold f is es)"
  using assms by (induction "is" arbitrary: es) auto

lemma ring_next:
  assumes "2 \<le> unat n" "unat n \<le> kMaxGeneratedNodes" "i < unat n"
  shows "unat ((of_nat i + 1) mod (n :: u32)) = (i + 1) mod unat n"
proof -
  have "unat (of_nat i + 1 :: u32) = i + 1"
    using assms by (simp add: unat_word_ariths unat_of_nat kMaxGeneratedNodes_def)
  then show ?thesis by (simp add: unat_mod_distrib)
qed

abbreviation accepted :: "SyntheticOptions \<Rightarrow> bool" where
  "accepted options \<equiv> \<not> failed (synthetic_status options)"

lemma node_range:
  assumes "accepted options"
  shows "3 \<le> node_total options" "node_total options \<le> kMaxGeneratedNodes"
  using assms by (auto simp: synthetic_status_def word_less_nat_alt word_le_nat_alt)

lemma slot_range:
  assumes "accepted options"
  shows "0 < unat (so_slot_count options)" "unat (so_slot_count options) \<le> kMaxSpectrumSlots"
  using assms by (auto simp: synthetic_status_def unat_gt_0)

lemma next_node:
  assumes "accepted options" "i < node_total options"
  shows "unat ((of_nat i + 1) mod so_node_count options) = (i + 1) mod node_total options"
  using assms(2) node_range [OF assms(1)] by (intro ring_next) simp_all

lemma next_node_differs:
  assumes "accepted options" "i < node_total options"
  shows "(i + 1) mod node_total options \<noteq> i"
  using node_range(1) [OF assms(1)] assms(2) by (cases "Suc i = node_total options") auto

lemma mod_node_less: "accepted options \<Longrightarrow> unat (w mod so_node_count options) < node_total options"
  using node_range(1) [of options] by (simp add: unat_mod_distrib)

lemma simple_ring:
  assumes "accepted options"
  shows "simple_edges (node_total options) (add_ring options [])"
  unfolding add_ring_def
proof (rule fold_keeps)
  fix i es assume "i \<in> set [0 ..< node_total options]" "simple_edges (node_total options) es"
  then show "simple_edges (node_total options) (add_edge i (unat ((of_nat i + 1) mod so_node_count options)) es)"
    using next_node [OF assms, of i] next_node_differs [OF assms, of i] mod_node_less [OF assms]
    by (intro simple_add_edge) simp_all
qed (simp add: simple_edges_def)

lemma simple_chords:
  assumes "accepted options" "simple_edges (node_total options) es"
  shows "simple_edges (node_total options) (add_chords options hop es)"
  unfolding add_chords_def
  by (rule fold_keeps) (auto simp: Let_def chord_target_def mod_node_less assms intro!: simple_add_edge)

lemma simple_synthetic:
  assumes "accepted options"
  shows "simple_edges (node_total options) (synthetic_edges options)"
proof -
  have "simple_edges (node_total options)
      (fold (add_chords options) [0 ..< unat (so_degree options)] (add_ring options []))"
    by (rule fold_keeps) (simp_all add: simple_chords simple_ring assms)
  then show ?thesis by (simp add: synthetic_edges_def simple_edges_def)
qed

lemma chords_grow: "set es \<subseteq> set (add_chords options hop es)"
  unfolding add_chords_def by (rule fold_grows) (auto simp: Let_def set_add_edge)

lemma fold_adds:
  assumes "i \<in> set is" "\<And>es. x \<in> set (f i es)" "\<And>i es. set es \<subseteq> set (f i es)"
  shows "x \<in> set (fold f is es)"
proof -
  obtain us vs where "is = us @ i # vs" using assms(1) by (auto simp: in_set_conv_decomp)
  then have "fold f is es = fold f vs (f i (fold f us es))" by simp
  then show ?thesis using assms(2) [of "fold f us es"] fold_grows [of f "f i (fold f us es)" vs] assms(3) by auto
qed

text \<open>Consecutive nodes are linked, so the network is connected.\<close>

lemma ring_edges:
  assumes "accepted options" "i < node_total options"
  defines "j \<equiv> (i + 1) mod node_total options"
  shows "(min i j, max i j) \<in> set (synthetic_edges options)"
proof -
  have "(min i j, max i j) \<in> set (add_ring options [])"
    unfolding add_ring_def
    by (rule fold_adds [of i]) (auto simp: set_add_edge j_def assms(2) next_node [OF assms(1,2)])
  moreover have "set (add_ring options []) \<subseteq>
      set (fold (add_chords options) [0 ..< unat (so_degree options)] (add_ring options []))"
    by (rule fold_grows) (rule chords_grow)
  ultimately show ?thesis by (auto simp: synthetic_edges_def)
qed

text \<open>The neighbour lists are those of the edges, each neighbour once.\<close>

definition ends_at :: "nat \<Rightarrow> edge \<Rightarrow> nat list" where
  "ends_at i edge = (if fst edge = i then [snd edge] else []) @ (if snd edge = i then [fst edge] else [])"

lemma push_edges:
  assumes "\<forall>(a, b) \<in> set es. a < b \<and> b < length nb" "i < length nb"
  shows "fold (\<lambda>(first, second) nb. push_at second first (push_at first second nb)) es nb ! i =
    nb ! i @ concat (map (ends_at i) es)"
  using assms
proof (induction es arbitrary: nb)
  case (Cons e es)
  obtain a b where e: "e = (a, b)" by (cases e)
  have "push_at b a (push_at a b nb) ! i = nb ! i @ ends_at i e"
    using Cons.prems by (auto simp: e push_at_def ends_at_def nth_list_update)
  with Cons.IH [of "push_at b a (push_at a b nb)"] Cons.prems show ?case by (auto simp: e push_at_def)
qed simp

lemma neighbours_of_edges:
  assumes "accepted options" "i < node_total options"
  shows "synthetic_neighbours options ! i = concat (map (ends_at i) (synthetic_edges options))"
  using simple_synthetic [OF assms(1)] assms(2)
  by (simp add: synthetic_neighbours_def push_edges simple_edges_def)

lemma set_ends_at: "set (ends_at i e) = {j. e = (i, j) \<or> e = (j, i)}"
  by (cases e) (auto simp: ends_at_def)

lemma set_neighbours:
  assumes "accepted options" "i < node_total options"
  shows "set (synthetic_neighbours options ! i) = {j. (i, j) \<in> set (synthetic_edges options) \<or> (j, i) \<in> set (synthetic_edges options)}"
  by (auto simp: neighbours_of_edges [OF assms] set_ends_at)

lemma distinct_concat_map:
  assumes "distinct xs" "\<And>x. x \<in> set xs \<Longrightarrow> distinct (f x)"
    and "\<And>x y z. x \<in> set xs \<Longrightarrow> y \<in> set xs \<Longrightarrow> z \<in> set (f x) \<Longrightarrow> z \<in> set (f y) \<Longrightarrow> x = y"
  shows "distinct (concat (map f xs))"
  using assms
proof (induction xs)
  case (Cons x xs)
  have "distinct (concat (map f xs))" using Cons.IH Cons.prems by simp
  moreover have "z \<notin> set (f y)" if "z \<in> set (f x)" "y \<in> set xs" for y z
    using Cons.prems(1) Cons.prems(3) [of x y z] that by auto
  ultimately show ?case using Cons.prems(2) [of x] by auto
qed simp

lemma distinct_neighbours:
  assumes "accepted options" "i < node_total options"
  shows "distinct (synthetic_neighbours options ! i)"
  unfolding neighbours_of_edges [OF assms]
proof (rule distinct_concat_map)
  have simple: "simple_edges (node_total options) (synthetic_edges options)" by (rule simple_synthetic [OF assms(1)])
  then show "distinct (synthetic_edges options)" by (simp add: simple_edges_def)
  fix x assume "x \<in> set (synthetic_edges options)"
  with simple show "distinct (ends_at i x)" by (auto simp: simple_edges_def ends_at_def)
next
  have simple: "a < b" if "(a, b) \<in> set (synthetic_edges options)" for a b
    using simple_synthetic [OF assms(1)] that by (auto simp: simple_edges_def)
  fix x y z
  assume edges: "x \<in> set (synthetic_edges options)" "y \<in> set (synthetic_edges options)"
    and ends: "z \<in> set (ends_at i x)" "z \<in> set (ends_at i y)"
  from ends have "(x = (i, z) \<or> x = (z, i)) \<and> (y = (i, z) \<or> y = (z, i))" by (simp add: set_ends_at)
  moreover have "\<not> ((i, z) \<in> set (synthetic_edges options) \<and> (z, i) \<in> set (synthetic_edges options))"
    using simple [of i z] simple [of z i] by linarith
  ultimately show "x = y" using edges by metis
qed

end
