(* ===== verification/Synthetic_Records.thy ===== *)
theory Synthetic_Records
  imports Synthetic_Props
begin

text \<open>
  The records of a synthetic network: their identities do not collide while a node stays within its
  thousand cross-connect identities, their ends have records, and the drawn values are within the
  ranges the builder checks.
\<close>

section \<open>Identities\<close>

lemma to_string_inject [simp]: "to_string a = to_string b \<longleftrightarrow> a = b"
  by (metis digits_value_to_string)

lemma Numbered_inject [simp]: "Numbered p a = Numbered p b \<longleftrightarrow> a = b"
  by (simp add: Numbered_def)

lemma Numbered_nonempty [simp]: "Numbered p a \<noteq> []"
  by (simp add: Numbered_def)

lemma key_inject [simp]:
  "client_key i c = client_key j d \<longleftrightarrow> i = j \<and> c = d" "line_key i c = line_key j d \<longleftrightarrow> i = j \<and> c = d"
  "client_key i c \<noteq> line_key j d" "line_key j d \<noteq> client_key i c"
  by (auto simp: client_key_def line_key_def) (simp_all add: Numbered_def)

lemma takeWhile_to_string: "takeWhile is_digit (to_string a @ ''-'' @ r) = to_string a"
proof -
  have "\<not> is_digit (CHR ''-'')" by code_simp
  then show ?thesis using to_string_digits [of a] by (simp add: takeWhile_append list_all_iff)
qed

lemma edge_name_inject [simp]: "edge_name p e = edge_name p f \<longleftrightarrow> e = f"
proof
  assume "edge_name p e = edge_name p f"
  then have same: "to_string (fst e) @ ''-'' @ to_string (snd e) = to_string (fst f) @ ''-'' @ to_string (snd f)"
    by (simp add: edge_name_def)
  then have "fst e = fst f" using arg_cong [OF same, of "takeWhile is_digit"] unfolding takeWhile_to_string by simp
  with same show "e = f" by (simp add: prod_eq_iff)
qed simp

lemma edge_name_nonempty [simp]: "edge_name p e \<noteq> []"
  by (simp add: edge_name_def)

lemma cross_connect_id_value:
  assumes "i < kMaxGeneratedNodes" "k < 1000"
  shows "cross_connect_id i k = Numbered ''xc'' (i * 1000 + k)"
proof -
  have "i * 1000 + k < 2 ^ 32" using assms by (simp add: kMaxGeneratedNodes_def)
  then have "unat (of_nat (i * 1000 + k) :: u32) = i * 1000 + k" by (simp only: unat_of_nat) simp
  then show ?thesis by (simp add: cross_connect_id_def)
qed

lemma cross_connect_id_inject:
  assumes "i < kMaxGeneratedNodes" "j < kMaxGeneratedNodes" "k < 1000" "l < 1000" "cross_connect_id i k = cross_connect_id j l"
  shows "i = j \<and> k = l"
proof -
  have same: "i * 1000 + k = j * 1000 + l" using assms by (simp add: cross_connect_id_value)
  then have "(i * 1000 + k) div 1000 = (j * 1000 + l) div 1000" by simp
  then have "i = j" using assms(3,4) by simp
  with same show ?thesis by simp
qed

text \<open>
  The thousand identities reserved for a node are not enforced: the next one is the first identity of
  the following node.
\<close>

lemma cross_connect_id_collides: "cross_connect_id i 1000 = cross_connect_id (i + 1) 0"
  by (simp add: cross_connect_id_def algebra_simps)

section \<open>Values\<close>

lemma fl_between:
  assumes "0 \<le> x" "x \<le> y" "fl y = Fin z"
  shows "\<exists>r. fl x = Fin r \<and> 0 \<le> r \<and> r \<le> z"
  using fl_mono [OF assms(2)] fl_nonneg [OF assms(1)] assms(3) by (cases "fl x") (simp_all add: dnonneg_def)

definition between :: "rat \<Rightarrow> double \<Rightarrow> bool" where
  "between z d \<longleftrightarrow> (\<exists>r. d = Fin r \<and> 0 \<le> r \<and> r \<le> z)"

lemma between_double_of:
  assumes "unat v \<le> numeral n" "fl (numeral n) = Fin z"
  shows "between z (double_of v)"
proof -
  have "rat_of_nat (unat v) \<le> numeral n" using assms(1) by (metis of_nat_le_iff of_nat_numeral)
  then show ?thesis unfolding between_def double_of_def using assms(2) by (intro fl_between) (simp_all only: of_nat_0_le_iff)
qed

lemma between_dmul: "between y d \<Longrightarrow> 0 \<le> k \<Longrightarrow> fl (y * k) = Fin z \<Longrightarrow> between z (dmul d (Fin k))"
  unfolding between_def by (auto intro!: fl_between mult_right_mono)

lemma between_dadd: "between y d \<Longrightarrow> 0 \<le> k \<Longrightarrow> fl (k + y) = Fin z \<Longrightarrow> between z (dadd (Fin k) d)"
  unfolding between_def using fl_between [of "k + r" "k + y" z for r] by auto

lemma between_valid: "between z d \<Longrightarrow> z \<le> m \<Longrightarrow> \<not> failed (ValidateFiniteNonNegative (Known d) field m)"
  by (auto simp: between_def ValidateFiniteNonNegative_def isfinite_def)

lemma fl_representable:
  assumes "2 powi e \<le> x" "x < 2 powi (e + 1)" "x = of_int k * 2 powi ulp_exp e" "x < double_overflow"
  shows "fl x = Fin x"
proof -
  have pos: "0 < x" using assms(1) powi_pos [of e] by linarith
  have "round_half_even (x / 2 powi ulp_exp e) = k" unfolding assms(3) by simp
  moreover have "round_pos x = of_int (round_half_even (x / 2 powi ulp_exp e)) * 2 powi ulp_exp e"
    using pos by (simp add: round_pos_def Let_def binade_unique [OF assms(1,2)])
  ultimately have "round_pos x = x" by (simp only: assms(3) [symmetric])
  then show ?thesis using pos assms(4) by (simp add: fl_def Let_def)
qed

lemma fl_integers:
  "fl 1 = Fin 1" "fl 8 = Fin 8" "fl 34 = Fin 34" "fl 120000 = Fin 120000" "fl 9007199254740992 = Fin 9007199254740992"
proof -
  have big: "x < double_overflow" if "x \<le> 9007199254740992" for x
  proof -
    have "(9007199254740992 :: rat) < 2 ^ 1024" by simp
    with that show ?thesis unfolding double_overflow_def by (rule le_less_trans)
  qed
  show "fl 1 = Fin 1" by (rule fl_representable [of 0 _ "2 ^ 52"]) (simp_all add: ulp_exp_def big power_int_minus)
  show "fl 8 = Fin 8" by (rule fl_representable [of 3 _ "2 ^ 52"]) (simp_all add: ulp_exp_def big power_int_minus)
  show "fl 34 = Fin 34" by (rule fl_representable [of 5 _ "34 * 2 ^ 47"]) (simp_all add: ulp_exp_def big power_int_minus)
  show "fl 120000 = Fin 120000" by (rule fl_representable [of 16 _ "120000 * 2 ^ 36"]) (simp_all add: ulp_exp_def big power_int_minus)
  show "fl 9007199254740992 = Fin 9007199254740992"
    by (rule fl_representable [of 53 _ "2 ^ 52"]) (simp_all add: ulp_exp_def big power_int_minus)
qed

lemma Below_less:
  assumes "b \<noteq> 0"
  shows "unat (fst (Below b random)) < unat b"
proof -
  obtain v r where v: "Next random = (v, r)" by (cases "Next random")
  have pos: "0 < unat b" using assms by (simp add: unat_gt_0)
  have "unat b < 2 ^ 32" using unsigned_less [of b] by simp
  then have "unat (v mod ucast b) = unat v mod unat b" by (simp add: unat_mod_distrib unsigned_ucast_eq take_bit_eq_mod)
  then have "unat (v mod ucast b) < unat b" using pos by simp
  moreover have "unat (ucast (v mod ucast b) :: u32) = unat (v mod ucast b) mod 2 ^ 32" by (simp add: unsigned_ucast_eq take_bit_eq_mod)
  moreover have "unat (v mod ucast b) mod 2 ^ 32 \<le> unat (v mod ucast b)" by (rule mod_less_eq_dividend)
  ultimately have "unat (ucast (v mod ucast b) :: u32) < unat b" by linarith
  then show ?thesis using assms by (simp add: Below_def v)
qed

lemma loss_between:
  assumes "unat v \<le> 120000"
  shows "between 120000 (dmul (double_of v) (fl (2 / 10000)))"
proof -
  obtain k where k: "fl (2 / 10000) = Fin k" "0 \<le> k" "k \<le> 1"
    using fl_between [of "2 / 10000" 1 1] fl_integers(1) by auto
  obtain x where x: "double_of v = Fin x" "0 \<le> x" "x \<le> 120000"
    using between_double_of [OF assms fl_integers(4)] by (auto simp: between_def)
  have "x * k \<le> 120000" using mult_mono [of x 120000 k 1] x k by simp
  then show ?thesis using fl_between [OF _ _ fl_integers(4), of "x * k"] x k by (simp add: between_def)
qed

lemma UnitDouble_between: "between 1 (fst (UnitDouble random))"
proof -
  obtain v r where v: "Next random = (v, r)" by (cases "Next random")
  have "unat (drop_bit 11 v) \<le> 9007199254740992"
  proof -
    have "unat v < 2 ^ 64" using unsigned_less [of v] by simp
    then show ?thesis by (simp add: drop_bit_eq_div unat_div_distrib)
  qed
  then have "between 9007199254740992 (double_of (drop_bit 11 v))" by (rule between_double_of) (rule fl_integers(5))
  then have "between 1 (dmul (double_of (drop_bit 11 v)) (Fin (1 / 9007199254740992)))"
    by (rule between_dmul) (simp_all add: fl_integers)
  then show ?thesis by (simp add: UnitDouble_def v)
qed

lemma draw_slot_within:
  assumes "mask_wf (fst s)" "mask_set (fst s) \<subseteq> {..< n}" "slot < n" "n \<le> kMaxSpectrumSlots"
  shows "mask_wf (fst (draw_slot one_in slot s)) \<and> mask_set (fst (draw_slot one_in slot s)) \<subseteq> {..< n}"
  using assms by (auto simp: draw_slot_def Let_def mask_set_Set split: prod.split)

lemma draw_blocked_within:
  assumes "accepted options"
  shows "mask_set (fst (draw_blocked options random)) \<subseteq> {..< unat (so_slot_count options)}"
proof -
  let ?n = "unat (so_slot_count options)"
  have "mask_wf (fst (fold (draw_slot one_in) [0 ..< ?n] (Mask_None, random))) \<and>
      mask_set (fst (fold (draw_slot one_in) [0 ..< ?n] (Mask_None, random))) \<subseteq> {..< ?n}" for one_in
    by (rule fold_invariant [where Q = "\<lambda>i. i < ?n"])
       (use draw_slot_within [where n = ?n] slot_range [OF assms] in simp_all)
  then show ?thesis by (simp add: draw_blocked_def)
qed

lemma mask_within_valid:
  assumes "mask_set m \<subseteq> {..< unat (slot_count model)}"
  shows "\<not> failed (ValidateMaskWithinModel (Known m) model what)"
proof -
  have "filter (Mask_Test m) [unat (slot_count model) ..< kMaxSpectrumSlots] = []"
    using assms by (auto simp: filter_empty_conv Mask_Test_iff)
  then show ?thesis by (simp add: ValidateMaskWithinModel_def)
qed

section \<open>The records of a run\<close>

definition synthetic_ports :: "SyntheticOptions \<Rightarrow> PortRecord list" where
  "synthetic_ports options = concat (map (node_ports options) [0 ..< node_total options])"

definition synthetic_cross_connects :: "SyntheticOptions \<Rightarrow> CrossConnectRecord list" where
  "synthetic_cross_connects options = concat (map (node_cross_connects options) [0 ..< node_total options])"

definition filled_builder :: "SyntheticOptions \<Rightarrow> SnapshotBuilder" where
  "filled_builder options = after_calls (synthetic_calls options) (synthetic_builder options)"

lemma synthetic_builder_fields [simp]:
  "b_sources (synthetic_builder options) = []" "b_nodes (synthetic_builder options) = []" "b_ports (synthetic_builder options) = []"
  "b_spans (synthetic_builder options) = []" "b_cross_connects (synthetic_builder options) = []" "b_profiles (synthetic_builder options) = []"
  "\<not> b_built (synthetic_builder options)" "b_generation (synthetic_builder options) = so_generation options"
  "b_spectrum (synthetic_builder options) = \<lparr>grid = so_grid options, slot_count = so_slot_count options\<rparr>"
  by (simp_all add: synthetic_builder_def SetSpectrum_def SetGeneration_def SetId_def new_builder_def)

lemma filled_builder_fields:
  "b_sources (filled_builder options) = [synthetic_source_record options]"
  "b_profiles (filled_builder options) = [synthetic_profile_record options]"
  "b_nodes (filled_builder options) = map (synthetic_node options) [0 ..< node_total options]"
  "b_ports (filled_builder options) = synthetic_ports options"
  "b_cross_connects (filled_builder options) = synthetic_cross_connects options"
  "b_spans (filled_builder options) = map (synthetic_span options) (synthetic_edges options)"
  "b_spectrum (filled_builder options) = \<lparr>grid = so_grid options, slot_count = so_slot_count options\<rparr>"
  "b_generation (filled_builder options) = so_generation options"
  "\<not> b_built (filled_builder options)"
  by (simp_all add: filled_builder_def after_calls_def synthetic_calls_def synthetic_ports_def synthetic_cross_connects_def
      node_calls_def records_of_concat records_of_map records_of_map_Nil map_concat comp_def)

lemma synthetic_span_ends [simp]:
  "sp_id (synthetic_span options e) = edge_name ''s'' e"
  "sp_from (synthetic_span options e) = line_key (fst e) (snd e)"
  "sp_to (synthetic_span options e) = line_key (snd e) (fst e)"
  "sp_failure_domains (synthetic_span options e) = [edge_name ''span'' e]"
  by (simp_all add: synthetic_span_def Let_def split: prod.split)

lemma synthetic_calls_named: "\<forall>c \<in> set (synthetic_calls options). call_named c"
  by (auto simp: synthetic_calls_def synthetic_source_record_def synthetic_source_def synthetic_profile_record_def
      synthetic_profile_def node_calls_def synthetic_node_def node_ports_def client_port_def line_port_def client_key_def
      line_key_def node_cross_connects_def synthetic_cross_connect_def cross_connect_id_def
      split: prod.splits)

section \<open>Identities of the records\<close>

lemma keys_of_ports:
  "map pt_key (node_ports options i) =
     map (client_key i) [0 ..< unat (so_client_ports options)] @ map (line_key i) (synthetic_neighbours options ! i)"
  by (simp add: node_ports_def client_port_def line_port_def comp_def)

lemma ids_of_cross_connects:
  "map cc_id (node_cross_connects options i) =
     map (cross_connect_id i) [0 ..< length (cross_connect_specs options i)]"
  by (rule nth_equalityI)
     (simp_all add: node_cross_connects_def synthetic_cross_connect_def nth_enumerate_eq split: prod.split)

lemma length_node_cross_connects: "length (node_cross_connects options i) = length (cross_connect_specs options i)"
  by (simp add: node_cross_connects_def)

lemma distinct_port_keys:
  assumes "accepted options"
  shows "distinct (map pt_key (synthetic_ports options))"
  unfolding synthetic_ports_def map_concat map_map comp_def
proof (rule distinct_concat_map)
  fix i assume "i \<in> set [0 ..< node_total options]"
  then show "distinct (map pt_key (node_ports options i))"
    using distinct_neighbours [OF assms, of i]
    unfolding keys_of_ports by (auto simp: distinct_map inj_on_def)
next
  fix i j k
  assume "k \<in> set (map pt_key (node_ports options i))" "k \<in> set (map pt_key (node_ports options j))"
  then show "i = j" unfolding keys_of_ports by auto
qed simp

lemma distinct_cross_connect_ids:
  assumes "accepted options" "\<And>i. i < node_total options \<Longrightarrow> length (node_cross_connects options i) \<le> 1000"
  shows "distinct (map cc_id (synthetic_cross_connects options))"
  unfolding synthetic_cross_connects_def map_concat map_map comp_def
proof (rule distinct_concat_map)
  note bound = assms(2) [unfolded length_node_cross_connects]
  fix i assume i: "i \<in> set [0 ..< node_total options]"
  then show "distinct (map cc_id (node_cross_connects options i))"
    using node_range(2) [OF assms(1)] bound [of i] unfolding ids_of_cross_connects
    by (auto simp: distinct_map inj_on_def dest!: cross_connect_id_inject [rotated 4])
next
  note bound = assms(2) [unfolded length_node_cross_connects]
  fix i j x
  assume i: "i \<in> set [0 ..< node_total options]" and j: "j \<in> set [0 ..< node_total options]"
    and x: "x \<in> set (map cc_id (node_cross_connects options i))" "x \<in> set (map cc_id (node_cross_connects options j))"
  obtain k l where "x = cross_connect_id i k" "k < 1000" "x = cross_connect_id j l" "l < 1000"
    using x bound [of i] bound [of j] i j unfolding ids_of_cross_connects by fastforce
  then show "i = j" using cross_connect_id_inject [of i j k l] i j node_range(2) [OF assms(1)] by simp
qed simp

lemma synthetic_identities:
  assumes "accepted options" "\<And>i. i < node_total options \<Longrightarrow> length (node_cross_connects options i) \<le> 1000"
  shows "identities_distinct (filled_builder options)"
proof -
  have "distinct (synthetic_edges options)" using simple_synthetic [OF assms(1)] by (simp add: simple_edges_def)
  then show ?thesis
    using distinct_port_keys [OF assms(1)] distinct_cross_connect_ids [OF assms]
    by (simp add: identities_distinct_def filled_builder_fields distinct_map inj_on_def synthetic_node_def)
qed

section \<open>References and values of the records\<close>

lemma keys_of_network:
  "pt_key ` set (synthetic_ports options) =
     (\<Union>i < node_total options. client_key i ` {..< unat (so_client_ports options)} \<union>
        line_key i ` set (synthetic_neighbours options ! i))"
proof -
  have "pt_key ` set (node_ports options i) =
      client_key i ` {..< unat (so_client_ports options)} \<union> line_key i ` set (synthetic_neighbours options ! i)" for i
    using arg_cong [OF keys_of_ports [of options i], of set] by (simp add: lessThan_atLeast0)
  then show ?thesis by (simp add: synthetic_ports_def image_UN lessThan_atLeast0)
qed

lemma cross_connect_specs_ends:
  assumes "(f, t, op) \<in> set (cross_connect_specs options i)"
  shows "{f, t} \<subseteq> client_key i ` {..< unat (so_client_ports options)} \<union> line_key i ` set (synthetic_neighbours options ! i) \<and> f \<noteq> t"
  using assms by (auto simp: cross_connect_specs_def Let_def split: if_splits)

lemma node_cross_connects_ends:
  assumes "c \<in> set (node_cross_connects options i)"
  shows "\<exists>op. (cc_from c, cc_to c, op) \<in> set (cross_connect_specs options i)"
  using assms by (fastforce simp: node_cross_connects_def synthetic_cross_connect_def dest: set_zip_rightD simp: enumerate_eq_zip)

lemma edge_ends:
  assumes "accepted options" "e \<in> set (synthetic_edges options)"
  shows "fst e < node_total options" "snd e < node_total options" "fst e \<noteq> snd e"
    "snd e \<in> set (synthetic_neighbours options ! fst e)" "fst e \<in> set (synthetic_neighbours options ! snd e)"
proof -
  show range: "fst e < node_total options" "snd e < node_total options" "fst e \<noteq> snd e"
    using simple_synthetic [OF assms(1)] assms(2) by (auto simp: simple_edges_def)
  show "snd e \<in> set (synthetic_neighbours options ! fst e)" "fst e \<in> set (synthetic_neighbours options ! snd e)"
    using assms(2) by (simp_all add: set_neighbours [OF assms(1)] range)
qed

lemma synthetic_ends:
  assumes "accepted options"
  shows "ends_recorded (filled_builder options)"
  unfolding ends_recorded_def filled_builder_fields keys_of_network
proof (intro conjI ballI)
  fix p assume "p \<in> set (synthetic_ports options)"
  then have "pt_key p \<in> pt_key ` set (synthetic_ports options)" by (rule imageI)
  then show "pk_node (pt_key p) \<in> nd_id ` set (map (synthetic_node options) [0 ..< node_total options])"
    unfolding keys_of_network by (fastforce simp: client_key_def line_key_def synthetic_node_def image_iff)
next
  fix x assume "x \<in> set (map (synthetic_span options) (synthetic_edges options))"
  then obtain e where e: "e \<in> set (synthetic_edges options)" "x = synthetic_span options e" by auto
  note ends = edge_ends [OF assms e(1)]
  show "sp_from x \<in> (\<Union>i < node_total options. client_key i ` {..< unat (so_client_ports options)} \<union>
      line_key i ` set (synthetic_neighbours options ! i))"
    using ends by (auto simp: e(2))
  show "sp_to x \<in> (\<Union>i < node_total options. client_key i ` {..< unat (so_client_ports options)} \<union>
      line_key i ` set (synthetic_neighbours options ! i))"
    using ends by (auto simp: e(2))
  show "sp_from x \<noteq> sp_to x" using ends(3) by (simp add: e(2))
next
  fix c assume "c \<in> set (synthetic_cross_connects options)"
  then obtain i where i: "i < node_total options" "c \<in> set (node_cross_connects options i)"
    by (auto simp: synthetic_cross_connects_def)
  obtain op where "(cc_from c, cc_to c, op) \<in> set (cross_connect_specs options i)"
    using node_cross_connects_ends [OF i(2)] by blast
  note ends = cross_connect_specs_ends [OF this]
  show "cc_from c \<in> (\<Union>i < node_total options. client_key i ` {..< unat (so_client_ports options)} \<union>
      line_key i ` set (synthetic_neighbours options ! i))"
    "cc_to c \<in> (\<Union>i < node_total options. client_key i ` {..< unat (so_client_ports options)} \<union>
      line_key i ` set (synthetic_neighbours options ! i))" "cc_from c \<noteq> cc_to c"
    using ends i(1) by blast+
qed

lemma span_length_bound: "unat (20000 + ucast (fst (Below 100000 random)) :: u64) \<le> 120000"
proof -
  have "unat (fst (Below 100000 random)) < 100000" using Below_less [of 100000 random] by simp
  then show ?thesis by (simp add: unat_word_ariths unsigned_ucast_eq take_bit_eq_mod)
qed

lemma synthetic_span_valid:
  assumes "accepted options"
  shows "\<not> failed (span_status \<lparr>grid = g, slot_count = so_slot_count options\<rparr> (synthetic_span options e))"
proof -
  obtain extra random1 where 1: "Below 100000 \<lparr>sm_state = span_seed options e\<rparr> = (extra, random1)" by fastforce
  obtain osnr random2 where 2: "draw_osnr options random1 = (osnr, random2)" by fastforce
  obtain blocked random3 where 3: "draw_blocked options random2 = (blocked, random3)" by fastforce
  have "between 120000 (dmul (double_of (20000 + ucast extra)) (fl (2 / 10000)))"
    using span_length_bound [of "\<lparr>sm_state = span_seed options e\<rparr>"] by (intro loss_between) (simp add: 1)
  moreover have "osnr = Unknown \<or> (\<exists>d. osnr = Known d \<and> between 34 d)"
  proof (cases "so_publish_osnr options")
    case True
    have "between 8 (dmul (fst (UnitDouble random1)) (Fin 8))"
      by (rule between_dmul [OF UnitDouble_between]) (simp_all add: fl_integers)
    then have "between 34 (dadd (Fin 26) (dmul (fst (UnitDouble random1)) (Fin 8)))"
      by (rule between_dadd) (simp_all add: fl_integers)
    then show ?thesis using 2 True by (auto simp: draw_osnr_def split: prod.splits)
  qed (use 2 in \<open>simp add: draw_osnr_def\<close>)
  moreover have "mask_set blocked \<subseteq> {..< unat (so_slot_count options)}"
    using draw_blocked_within [OF assms, of random2] by (simp add: 3)
  moreover have "sp_loss_db (synthetic_span options e) = Known (dmul (double_of (20000 + ucast extra)) (fl (2 / 10000)))"
    "sp_osnr_db (synthetic_span options e) = osnr" "sp_blocked_slots (synthetic_span options e) = Known blocked"
    by (simp_all add: synthetic_span_def Let_def 1 2 3 split: prod.split)
  moreover have "\<not> failed (ValidateFiniteNonNegative Unknown field m)" for field m
    by (simp add: ValidateFiniteNonNegative_def)
  ultimately show ?thesis
    using between_valid [of 120000 _ 1000000] between_valid [of 34 _ 1000000] mask_within_valid [of blocked]
    by (auto simp: span_status_def)
qed

end
