(* ===== verification/Synthetic_Complete.thy ===== *)
theory Synthetic_Complete
  imports Synthetic_Records
begin

text \<open>
  What the generator of synthetic networks returns: which options it accepts, when it meets a bound, and
  that otherwise it seals a conflict-free, completely covered, connected network.
\<close>

section \<open>Sealing a synthetic network\<close>

lemma few_domains:
  assumes "\<And>r. r \<in> set rs \<Longrightarrow> length (f r) \<le> 2"
  shows "\<not> failed (NormaliseDomains f rs what)"
proof -
  have "length (normal_domains (f r)) \<le> kMaxDomainsPerResource" if "r \<in> set rs" for r
    using length_std_unique [of "std_sort (<) (f r)"] assms [OF that]
    by (simp add: normal_domains_def kMaxDomainsPerResource_def)
  then show ?thesis by (auto simp: NormaliseDomains_def list_ex_iff not_less)
qed

lemma synthetic_build_status:
  assumes "accepted options"
  shows "\<not> failed (build_status (filled_builder options))"
proof -
  let ?b = "filled_builder options"
  have open_mask: "\<not> failed (ValidateMaskWithinModel (Known Mask_None) model what)" for model what
    by (rule mask_within_valid) simp
  have ports: "length (pt_failure_domains p) \<le> 2 \<and> pt_blocked_slots p = Known Mask_None"
    if "p \<in> set (synthetic_ports options)" for p
    using that by (auto simp: synthetic_ports_def node_ports_def client_port_def line_port_def)
  have ccs: "length (cc_failure_domains c) \<le> 2 \<and> cc_blocked_slots c = Known Mask_None"
    if "c \<in> set (synthetic_cross_connects options)" for c
    using that by (auto simp: synthetic_cross_connects_def node_cross_connects_def synthetic_cross_connect_def)
  have "\<not> failed (SpectrumModel_Validate (b_spectrum ?b))"
    using slot_range [OF assms] by (auto simp: filled_builder_fields SpectrumModel_Validate_def)
  moreover have "\<not> failed (profile_status (synthetic_profile_record options))"
    by (simp add: profile_status_def synthetic_profile_record_def ValidateFiniteNonNegative_def isfinite_def)
  moreover have "\<not> failed (NormaliseDomains nd_failure_domains (b_nodes ?b) ''node'')"
    by (rule few_domains) (auto simp: filled_builder_fields synthetic_node_def)
  moreover have "\<not> failed (NormaliseDomains sp_failure_domains (b_spans ?b) ''span'')"
    by (rule few_domains) (auto simp: filled_builder_fields)
  moreover have "\<not> failed (NormaliseDomains pt_failure_domains (b_ports ?b) ''port'')"
    by (rule few_domains) (simp add: filled_builder_fields ports)
  moreover have "\<not> failed (NormaliseDomains cc_failure_domains (b_cross_connects ?b) ''cross-connect'')"
    by (rule few_domains) (simp add: filled_builder_fields ccs)
  ultimately show ?thesis
    unfolding build_status_ok
    by (simp add: filled_builder_fields std_sort_def synthetic_node_def synthetic_span_valid [OF assms] ports ccs open_mask)
qed

text \<open>Every line port is an end of an edge, so the ports bound the spans.\<close>

lemma sum_ends_at:
  assumes "\<forall>(a, b) \<in> set es. a < b \<and> b < n"
  shows "(\<Sum>i < n. length (concat (map (ends_at i) es))) = 2 * length es"
  using assms
proof (induction es)
  case (Cons e es)
  obtain a b where e: "e = (a, b)" "a < b" "b < n" using Cons.prems by (cases e) auto
  have "(\<Sum>i < n. length (ends_at i e)) = (\<Sum>i < n. (if i = a then 1 else 0) + (if i = b then 1 else 0))"
    by (rule sum.cong) (auto simp: ends_at_def e)
  also have "\<dots> = 2" using e by (simp add: sum.distrib)
  finally show ?case using Cons by (simp add: sum.distrib)
qed simp

lemma sum_list_upt: "sum_list (map f [0 ..< n]) = (\<Sum>i < n. f i :: nat)"
  by (induction n) simp_all

lemma length_synthetic_ports:
  assumes "accepted options"
  shows "length (synthetic_ports options) =
    node_total options * unat (so_client_ports options) + 2 * length (synthetic_edges options)"
proof -
  have "length (synthetic_ports options) = (\<Sum>i < node_total options. length (node_ports options i))"
    by (simp add: synthetic_ports_def length_concat comp_def sum_list_upt)
  also have "\<dots> = (\<Sum>i < node_total options. unat (so_client_ports options) +
      length (concat (map (ends_at i) (synthetic_edges options))))"
    by (rule sum.cong) (simp_all add: node_ports_def neighbours_of_edges [OF assms])
  also have "\<dots> = node_total options * unat (so_client_ports options) + 2 * length (synthetic_edges options)"
    using simple_synthetic [OF assms] sum_ends_at [of "synthetic_edges options" "node_total options"]
    by (simp add: sum.distrib simple_edges_def)
  finally show ?thesis .
qed

lemma filled_tables_bounded:
  assumes "accepted options"
  shows "tables_bounded (filled_builder options) \<longleftrightarrow>
    length (synthetic_ports options) \<le> kMaxPorts \<and> length (synthetic_cross_connects options) \<le> kMaxCrossConnects"
proof -
  have "length (synthetic_edges options) \<le> kMaxSpans" if "length (synthetic_ports options) \<le> kMaxPorts"
    using that by (simp add: length_synthetic_ports [OF assms] kMaxSpans_def kMaxPorts_def)
  then show ?thesis
    using node_range(2) [OF assms]
    by (auto simp: tables_bounded_def filled_builder_fields kMaxSources_def kMaxReachProfiles_def kMaxNodes_def
        kMaxGeneratedNodes_def)
qed

text \<open>The ring of the sealed network: consecutive nodes are joined by a span.\<close>

definition nodes_linked :: "TopologySnapshot \<Rightarrow> NodeId \<Rightarrow> NodeId \<Rightarrow> bool" where
  "nodes_linked s u v \<longleftrightarrow>
     list_ex (\<lambda>x. pk_node (sp_from x) = u \<and> pk_node (sp_to x) = v \<or> pk_node (sp_from x) = v \<and> pk_node (sp_to x) = u) (s_spans s)"

lemma sealed_ring:
  assumes "accepted options" "sealed_from (filled_builder options) s" "i < node_total options"
  shows "nodes_linked s (Numbered ''n'' i) (Numbered ''n'' ((i + 1) mod node_total options))"
proof -
  define j where "j = (i + 1) mod node_total options"
  let ?e = "(min i j, max i j)"
  have "?e \<in> set (synthetic_edges options)" using ring_edges [OF assms(1,3)] by (simp add: j_def)
  then have "(line_key (min i j) (max i j), line_key (max i j) (min i j)) \<in>
      (\<lambda>x. (sp_from x, sp_to x)) ` set (b_spans (filled_builder options))"
    by (force simp: filled_builder_fields)
  also have "\<dots> = (\<lambda>x. (sp_from x, sp_to x)) ` set (s_spans s)" using assms(2) by (simp add: sealed_from_def)
  finally obtain x where "x \<in> set (s_spans s)" "sp_from x = line_key (min i j) (max i j)" "sp_to x = line_key (max i j) (min i j)"
    by auto
  then show ?thesis
    unfolding nodes_linked_def list_ex_iff j_def [symmetric]
    by (intro bexI [of _ x]) (auto simp: line_key_def min_def max_def)
qed

lemma synthetic_sealed:
  assumes "accepted options" "\<forall>i < node_total options. length (node_cross_connects options i) \<le> 1000"
  shows "\<exists>s. fst (Build digest (filled_builder options)) = Inr s \<and> sealed_from (filled_builder options) s \<and>
    s_coverage_complete s \<and> s_conflicted s = [] \<and> s_unresolved s = []"
proof (rule Build_complete)
  show "\<not> b_built (filled_builder options)" by (rule filled_builder_fields)
  show "\<not> failed (build_status (filled_builder options))" by (rule synthetic_build_status [OF assms(1)])
  show "identities_distinct (filled_builder options)" using assms by (intro synthetic_identities) blast+
  show "ends_recorded (filled_builder options)" by (rule synthetic_ends [OF assms(1)])
  show "declared_complete (filled_builder options)"
    by (auto simp: declared_complete_def filled_builder_fields synthetic_source_record_def synthetic_node_def)
qed

lemma build_from_synthetic:
  assumes "accepted options"
  shows "if tables_bounded (filled_builder options)
    then GenerateSyntheticTopology digest options = fst (Build digest (filled_builder options))
    else (\<exists>status. GenerateSyntheticTopology digest options = Inl status \<and> code status = LimitExceeded)"
proof -
  have empty: "tables_bounded (synthetic_builder options)" by (simp add: tables_bounded_def)
  show ?thesis
    using assms build_from_fits [OF _ synthetic_calls_named [of options], of "synthetic_builder options" digest]
      build_from_refused [OF _ synthetic_calls_named [of options] empty, of digest]
    by (simp add: GenerateSyntheticTopology_def filled_builder_def)
qed


end
