(* ===== verification/Synthetic_Witness.thy ===== *)
theory Synthetic_Witness
  imports Synthetic_Complete
begin

text \<open>The smallest synthetic network, and the fixed example network of the quickstart.\<close>

section \<open>Three nodes\<close>

definition small_options :: SyntheticOptions where
  "small_options = default_synthetic_options\<lparr>so_node_count := 3, so_degree := 2, so_client_ports := 1\<rparr>"

lemma small_network:
  "synthetic_edges small_options = [(0, 1), (0, 2), (1, 2)]"
  "synthetic_neighbours small_options = [[1, 2], [0, 2], [0, 1]]"
  by code_simp+

lemma small_accepted: "accepted small_options"
  by code_simp

lemma small_nodes: "node_total small_options = 3" "unat (so_client_ports small_options) = 1"
  by (simp_all add: small_options_def default_synthetic_options_def)

lemma small_specs: "i < 3 \<Longrightarrow> length (cross_connect_specs small_options i) = 6"
  by (auto simp: cross_connect_specs_def Let_def small_network small_nodes less_Suc_eq numeral_3_eq_3)

lemma small_totals:
  "length (synthetic_ports small_options) = 9" "length (synthetic_cross_connects small_options) = 18"
proof -
  show "length (synthetic_ports small_options) = 9"
    by (simp add: length_synthetic_ports [OF small_accepted] small_nodes small_network)
  show "length (synthetic_cross_connects small_options) = 18"
    by (simp add: synthetic_cross_connects_def length_concat small_nodes length_node_cross_connects small_specs upt_rec)
qed


section \<open>The example network\<close>

definition example_filled :: SnapshotBuilder where
  "example_filled = after_calls example_calls example_builder"

lemma example_fields:
  "b_nodes example_filled = map example_node [0 ..< 3]"
  "b_ports example_filled = concat (map (\<lambda>i. map (example_port i) [''in'', ''out'', ''east'', ''west'']) [0 ..< 3])"
  "b_cross_connects example_filled = map example_cross_connect example_cross_connects"
  "b_spans example_filled = map example_span example_spans"
  "b_spectrum example_filled = \<lparr>grid = Fixed50GHz, slot_count = 8\<rparr>" "\<not> b_built example_filled"
  by (simp_all add: example_filled_def after_calls_def example_calls_def example_builder_def SetSpectrum_def SetGeneration_def
      SetId_def new_builder_def records_of_concat records_of_map records_of_map_Nil comp_def)

lemma example_records:
  "length (b_nodes example_filled) = 3" "length (b_ports example_filled) = 12"
  "length (b_cross_connects example_filled) = 8" "length (b_spans example_filled) = 3"
  "length (b_sources example_filled) = 1" "length (b_profiles example_filled) = 1"
  "identities_distinct example_filled" "ends_recorded example_filled" "declared_complete example_filled"
  by code_simp+

lemma example_build_status: "\<not> failed (build_status example_filled)"
proof -
  note open_mask = mask_within_valid [of Mask_None, simplified]
  have "\<not> failed (SpectrumModel_Validate (b_spectrum example_filled))"
    "\<not> failed (duplicate_source_status (std_sort (\<lambda>l r. src_id l < src_id r) (b_sources example_filled)))"
    "\<forall>r \<in> set (b_profiles example_filled). \<not> failed (profile_status r)"
    "\<forall>n \<in> set (b_nodes example_filled). \<not> (nd_transit_cost n > 0 \<and> nd_id n = [])"
    by code_simp+
  moreover have "\<not> failed (NormaliseDomains nd_failure_domains (b_nodes example_filled) ''node'')"
    "\<not> failed (NormaliseDomains pt_failure_domains (b_ports example_filled) ''port'')"
    "\<not> failed (NormaliseDomains sp_failure_domains (b_spans example_filled) ''span'')"
    "\<not> failed (NormaliseDomains cc_failure_domains (b_cross_connects example_filled) ''cross-connect'')"
    by (rule few_domains; auto simp: example_fields example_node_def example_port_def example_span_def
        example_cross_connect_def Let_def)+
  moreover have "\<not> failed (span_status (b_spectrum example_filled) x)" if "x \<in> set (b_spans example_filled)" for x
    using that by (auto simp: example_fields example_spans_def example_span_def span_status_def open_mask
        ValidateFiniteNonNegative_def isfinite_def)
  moreover have "pt_blocked_slots p = Known Mask_None" if "p \<in> set (b_ports example_filled)" for p
    using that by (auto simp: example_fields example_port_def Let_def)
  moreover have "cc_blocked_slots c = Known Mask_None" if "c \<in> set (b_cross_connects example_filled)" for c
    using that by (auto simp: example_fields example_cross_connect_def)
  ultimately show ?thesis unfolding build_status_ok by (simp add: open_mask)
qed

text \<open>The example network is sealed with every record it names.\<close>

lemma BuildExampleTopology_complete:
  "\<exists>s. BuildExampleTopology digest = Inr s \<and> s_coverage_complete s \<and> s_conflicted s = [] \<and> s_unresolved s = [] \<and>
     length (s_nodes s) = 3 \<and> length (s_ports s) = 12 \<and> length (s_cross_connects s) = 8 \<and> length (s_spans s) = 3"
proof -
  have named: "\<forall>c \<in> set example_calls. call_named c" by code_simp
  have fresh: "\<not> b_built example_builder" using example_fields(6) by (simp add: example_filled_def)
  have "tables_bounded (after_calls example_calls example_builder)"
    by (simp add: tables_bounded_def example_records kMaxNodes_def kMaxPorts_def kMaxSpans_def kMaxCrossConnects_def
        kMaxSources_def kMaxReachProfiles_def flip: example_filled_def)
  from build_from_fits [OF fresh named this, of digest]
  have "BuildExampleTopology digest = fst (Build digest example_filled)"
    by (simp add: BuildExampleTopology_def example_filled_def)
  then show ?thesis
    using Build_complete [OF example_fields(6) example_build_status example_records(7-9), of digest]
    by (auto simp: sealed_from_def example_records)
qed

end
