(* ===== verification/Spec2Isabelle.thy ===== *)
theory Spec2Isabelle
  imports Witnesses Outcome_Witnesses Proto_Props Service_Witness Synthetic_Witness
begin

text \<open>
  Verification of the optical path planner.

  \<^bold>\<open>The program.\<close>  A client publishes a network as records (sources, nodes, ports, spans,
  cross-connects, reach profiles) to a \<open>SnapshotBuilder\<close>, which seals them into an immutable
  \<open>TopologySnapshot\<close>.  Every fact that matters for planning is tri-state evidence: known, unknown,
  or conflicting.  A \<open>PlanningRequest\<close> names two ports, a channel width, constraints and search
  bounds.  \<open>Planner::Plan\<close> validates the request against the snapshot, checks freshness, runs the
  label search (\<open>RunSearch\<close>) once or, for disjoint candidates, repeatedly with growing exclusions,
  turns each proven path into a plan artifact (\<open>BuildPlan\<close>) and classifies the outcome as feasible,
  infeasible, indeterminate, unsupported, cancelled or refused.  A plan is sealed with the SHA-256 digest
  of its canonical text and kept in a content-addressed store of checksummed files.  The inspection
  service holds the current snapshot and the store and answers its clients in checksummed frames; every
  start of the service is a new incarnation with a higher epoch, and frames pinned to another epoch are
  fenced.

  \<^bold>\<open>Which theory models what.\<close>  (paths are below \<open>src/\<close>)

  \<^item> \<open>Prelude\<close>: machine integers, the C++ standard algorithms the code calls, the locale
    \<open>keyed_table\<close> for vectors searched with \<open>std::lower_bound\<close>.
  \<^item> \<open>Status\<close>, \<open>Ids\<close>: \<open>include/opp/status.hpp\<close>, \<open>limits.hpp\<close>, \<open>version.hpp\<close>,
    \<open>src/ids.cpp\<close>.
  \<^item> \<open>Spectrum\<close>: \<open>src/spectrum.cpp\<close>, on the four 64-bit words of a \<open>SlotMask\<close>; the locale
    \<open>slot_set\<close> is what the search and the plan builder rely on.
  \<^item> \<open>Doubles\<close>: IEEE-754 binary64 with rounding to nearest even.  \<open>std::pow\<close> and
    \<open>std::log10\<close> are parameters.
  \<^item> \<open>Evidence\<close>, \<open>Topology\<close>, \<open>Topology_Props\<close>, \<open>Builder\<close>: \<open>src/evidence.cpp\<close>,
    \<open>src/topology.cpp\<close>; \<open>Builder\<close> is the builder as a state machine.
  \<^item> \<open>Request\<close>: \<open>src/constraints.cpp\<close>, \<open>src/request.cpp\<close>.
  \<^item> \<open>Outcome\<close>, \<open>Canonical\<close>: the outcome vocabulary of \<open>src/result.cpp\<close> and the checked
    arithmetic of \<open>src/canonical.cpp\<close>.
  \<^item> \<open>Search\<close>, \<open>Expansion\<close>, \<open>Search_Loop\<close>: \<open>RunSearch\<close> of \<open>src/search.cpp\<close>, split at
    its local helper functions, its two arc loops and its best-first loop; the locale
    \<open>best_first_queue\<close> is the contract of the frontier.
  \<^item> \<open>Arcs\<close>: \<open>ArrivalPort\<close>, \<open>DeparturePort\<close> and \<open>StripCycles\<close>.
  \<^item> \<open>Plan\<close>: the artifact of \<open>include/opp/plan.hpp\<close> and \<open>BuildPlan\<close>.
  \<^item> \<open>Planner\<close>: \<open>src/planner.cpp\<close>.
  \<^item> \<open>Validate\<close>, \<open>Validate_Props\<close>: \<open>src/validate.cpp\<close>, the independent revalidation of a plan.
  \<^item> \<open>Bytes\<close>, \<open>Tokens\<close>, \<open>Lines\<close>: \<open>src/canonical.cpp\<close>, the byte codecs (locale \<open>wire_codec\<close>), the
    tokens and numbers of the text formats, and the line loop that their parsers share.
  \<^item> \<open>Sha256\<close>: \<open>src/sha256.cpp\<close> against a reference definition of SHA-256.
  \<^item> \<open>Plan_Text\<close>, \<open>Plan_Text_Props\<close>, \<open>Plan_Round_Trip\<close>: the text format of \<open>src/plan.cpp\<close>.
  \<^item> \<open>Request_Text\<close>, \<open>Request_Round_Trip\<close>: \<open>src/request_io.cpp\<close>; \<open>Snapshot_Text\<close>, \<open>Rebuild\<close>,
    \<open>Snapshot_Round_Trip\<close>: \<open>src/snapshot_io.cpp\<close> and that building the records of a snapshot again
    gives the same tables; \<open>Result_Text\<close>, \<open>Result_Round_Trip\<close>: the text, seal and
    explanation of \<open>src/result.cpp\<close>.
  \<^item> \<open>Proto\<close>, \<open>Proto_Props\<close>: \<open>src/proto.cpp\<close>, frames and message payloads.
  \<^item> \<open>Fileio\<close>, \<open>Store\<close>, \<open>Store_Props\<close>: \<open>src/fileio.cpp\<close> over a file system whose calls may
    fail, and \<open>src/store.cpp\<close>; the locale \<open>plan_repository\<close> is the contract of the store.
  \<^item> \<open>Transport\<close>, \<open>Incarnation\<close>, \<open>Service\<close>, \<open>Client\<close>, \<open>Service_Props\<close>, \<open>Client_Props\<close>:
    \<open>src/service.cpp\<close>: frames over a socket, the state directory lock and the incarnation record, start-up,
    every handler, the connection and accept loops, and the client.  \<open>Service_Props\<close> runs the
    critical sections of the service as an interleaving of steps (\<open>service_step\<close>).
  \<^item> \<open>Synthetic\<close>: \<open>src/synthetic.cpp\<close>, the generator of synthetic networks and the example
    network, as runs of builder calls; \<open>Build_Complete\<close> is the contract of the builder such clients rely on,
    \<open>Synthetic_Props\<close> is about the calls and the graph, \<open>Synthetic_Records\<close> about the records,
    \<open>Synthetic_Complete\<close> about what is sealed.
  \<^item> \<open>Search_Invariant\<close>, \<open>Search_Props\<close>, \<open>Search_Quality\<close>, \<open>Search_Evidence\<close>,
    \<open>Search_Complete\<close>, \<open>Plan_Props\<close>, \<open>Plan_Segments\<close>, \<open>Planner_Props\<close>, \<open>Planner_Outcome\<close>:
    the proofs.
  \<^item> \<open>Example\<close>, \<open>Search_Example\<close>, \<open>Witnesses\<close>, \<open>Search_Witnesses\<close>, \<open>Outcome_Witnesses\<close>,
    \<open>Plan_Text_Witness\<close>, \<open>Text_Witnesses\<close>, \<open>Store_Witness\<close>, \<open>Service_Witness\<close>, \<open>Synthetic_Witness\<close>: a
    small network on which the model is evaluated and every property with hypotheses is applied.

  \<^bold>\<open>What the lemmas show.\<close>
  \<^item> The builder accepts exactly well-formed record sets, and what it seals is sorted, has unique keys
    and resolves every reference (\<open>Topology_Props\<close>).
  \<^item> The search ends, by the measure \<open>budget\<close>; every path it returns is a simple chain of
    published arcs from source to destination whose cost, length, loss and channel mask are those of
    its arcs (\<open>Search_Props\<close>, \<open>Search_Quality\<close>); the paths come out in order (\<open>Search_Evidence\<close>);
    a run that was not cut short has explored every route the constraints admit, so an empty answer
    means that there is none (\<open>Search_Complete\<close>).
  \<^item> A plan built from a proven path repeats that path, its totals and channels, and reserves only free
    slots (\<open>Plan_Props\<close>, \<open>Plan_Segments\<close>).
  \<^item> \<open>Planner::Plan\<close> returns candidates only with the outcome FEASIBLE, returns the cheapest route
    first, says INFEASIBLE only when there is no admissible route, and refuses stale evidence
    (\<open>Planner_Props\<close>, \<open>Planner_Outcome\<close>); its candidates pass the validation (\<open>Validate_Props\<close>).
  \<^item> The hasher computes SHA-256 however the message is cut (\<open>Sha256\<close>); frames and payloads decode
    exactly when they are encodings (\<open>Proto_Props\<close>); a sealed plan survives its text format, and a
    text the parser accepts is sealed (\<open>Plan_Round_Trip\<close>); the store is a map from digests to plans
    that no crash during a write corrupts (\<open>Store_Props\<close>).
  \<^item> Requests and results survive their text formats (\<open>Request_Round_Trip\<close>, \<open>Result_Round_Trip\<close>), and
    snapshots do up to conflicts and descriptions, which their text lacks (\<open>Snapshot_Round_Trip\<close>).  A
    restart takes the next epoch and fences the frames of the previous incarnation, the state of a running
    service stays consistent under every interleaving, and no stored plan is lost (\<open>Service_Props\<close>).  A
    worker answers every request of its stream in order and returns, a snapshot published through
    client, network and service is the one it holds, and a plan computed through them is the plan the planner
    computes (\<open>Client_Props\<close>).
  \<^item> The generator of synthetic networks refuses bad options, meets a bound of the builder exactly when the
    network is too large, and otherwise seals a connected, conflict-free, completely covered network
    (\<open>Synthetic_Complete\<close>); the example network is sealed with all its records (\<open>Synthetic_Witness\<close>).

  \<^bold>\<open>Modelling choices.\<close>  The variables a long function keeps are a record; a guard with an early
  exit is a branch.  Costs, distances and limitation bits keep their width; counters that the code
  bounds before it increments them are \<open>nat\<close>.  In the search, the planner and
  the validation digests are arguments; the text formats and the store compute them with \<open>Sha256\<close>, and
  \<open>Service\<close> passes those of the code (\<open>code_digests\<close>).
  The shortest decimal spelling of a double (\<open>std::to_chars\<close>, \<open>std::from_chars\<close>) is a parameter.  The cancellation token is an oracle that answers the \<open>k\<close>-th poll.  No loop carries
  fuel: the best-first loop is a \<open>function\<close> whose termination proof is the bound the code puts on
  expanded labels.  A socket is the list of what it will deliver: bytes that may be received in parts,
  timeouts with the stop flag as seen at that moment, errors; its end is a closed connection.

  \<^bold>\<open>Not modelled.\<close>  Socket options, thread creation and joining, and a peer that keeps a connection
  open in silence; the Windows branches; the self test, the command line tools, tests, examples
  and benchmarks, which only call the library.
\<close>

end
